(* ===== verification/Prelude.thy ===== *)
theory Prelude
  imports "HOL-Library.Word"
begin

text \<open>
  Shared vocabulary of the development: the machine integer types of the Rust code, its
  saturating and checked arithmetic, fallible computations as values of a sum type, the
  bounded buffers (\<open>arraydeque::ArrayDeque\<close> and \<open>heapless::Vec\<close>) the code keeps its state
  in, and the generic notions of runs and fuelled recursion the components share.
\<close>

unbundle bit_operations_syntax

section \<open>Machine integers\<close>

type_synonym u8 = "8 word"
type_synonym u16 = "16 word"
type_synonym u32 = "32 word"
type_synonym u128 = "128 word"

text \<open>Lemmas that move facts about words to facts about natural numbers.\<close>

named_theorems unat_simps
  \<comment> \<open>how \<open>unat\<close> reads the saturating and checked operations\<close>

definition sat_sub :: "'a::len word \<Rightarrow> 'a word \<Rightarrow> 'a word" where
  "sat_sub a b = (if a < b then 0 else a - b)"

definition sat_add :: "'a::len word \<Rightarrow> 'a word \<Rightarrow> 'a word" where
  "sat_add a b = (if unat a + unat b < 2 ^ LENGTH('a) then a + b else - 1)"

definition abs_diff :: "'a::len word \<Rightarrow> 'a word \<Rightarrow> 'a word" where
  "abs_diff a b = (if a < b then b - a else a - b)"

lemma unat_sat_sub [unat_simps]: "unat (sat_sub a b) = unat a - unat b"
  by (auto simp: sat_sub_def word_less_nat_alt unat_sub word_le_nat_alt not_less)

lemma unat_sat_add [unat_simps]:
  fixes a :: "'a::len word"
  shows "unat (sat_add a b) = min (unat a + unat b) (2 ^ LENGTH('a) - 1)"
proof -
  have "unat (- 1 :: 'a word) = 2 ^ LENGTH('a) - 1"
    by (simp add: unsigned_minus_1_eq_mask mask_eq_exp_minus_1)
  then show ?thesis by (auto simp: sat_add_def unat_word_ariths)
qed

lemma unat_abs_diff [unat_simps]:
  "unat (abs_diff a b) = (unat a - unat b) + (unat b - unat a)"
  by (auto simp: abs_diff_def word_less_nat_alt unat_sub word_le_nat_alt not_less)

lemma sat_sub_zero [simp]: "sat_sub 0 a = 0" "sat_sub a 0 = a"
  by (auto simp: sat_sub_def word_gt_0)

lemma sat_sub_eq_0_iff: "sat_sub a b = 0 \<longleftrightarrow> a \<le> b"
  by (auto simp: sat_sub_def)

section \<open>Bit fields of 16-bit words\<close>

text \<open>Masking, shifting and disjoint \<open>OR\<close> of 16-bit words, read as natural numbers.\<close>

lemma word_eqI_unat: "unat a = unat b \<Longrightarrow> a = b" by (simp add: word_unat_eq_iff)


lemma nat_field:
  fixes k q :: nat
  assumes "k < m"
  shows "(k + m * q) div m = q" "(k + m * q) mod m = k"
  using assms by simp_all


lemma u16_and_low:
  fixes x :: u16
  shows "unat (x AND 0xFFF) = unat x mod 4096" "unat (x AND 0x3FF) = unat x mod 1024"
    "unat (x AND 0xFF) = unat x mod 256" "unat (x AND 7) = unat x mod 8"
    "unat (x AND 3) = unat x mod 4"
proof -
  have m: "(0xFFF :: u16) = mask 12" "(0x3FF :: u16) = mask 10" "(0xFF :: u16) = mask 8"
    "(7 :: u16) = mask 3" "(3 :: u16) = mask 2"
    by (simp_all add: mask_eq_exp_minus_1)
  have "unat (x AND mask n) = unat x mod 2 ^ n" for n
    by (simp only: take_bit_eq_mask [symmetric] unsigned_take_bit_eq) (rule take_bit_eq_mod)
  then show "unat (x AND 0xFFF) = unat x mod 4096" "unat (x AND 0x3FF) = unat x mod 1024"
    "unat (x AND 0xFF) = unat x mod 256" "unat (x AND 7) = unat x mod 8"
    "unat (x AND 3) = unat x mod 4"
    unfolding m by simp_all
qed

lemma u16_drop: fixes x :: u16 shows "unat (drop_bit n x) = unat x div 2 ^ n"
  by (simp only: unat_drop_bit_eq) (simp add: drop_bit_eq_div take_bit_nat_eq_self)

lemma u16_and_high:
  fixes x :: u16
  shows "unat (x AND 0xF000) = (unat x div 4096) * 4096"
    "unat (x AND 0xE000) = (unat x div 8192) * 8192"
proof -
  have m: "(0xF000 :: u16) = push_bit 12 (mask 4)" "(0xE000 :: u16) = push_bit 13 (mask 3)"
    by (simp_all add: mask_eq_exp_minus_1)
  have a: "x AND push_bit 12 (mask 4) = push_bit 12 (drop_bit 12 x)"
    "x AND push_bit 13 (mask 3) = push_bit 13 (drop_bit 13 x)"
    by (auto simp: bit_eq_iff bit_simps)
  show "unat (x AND 0xF000) = (unat x div 4096) * 4096"
    "unat (x AND 0xE000) = (unat x div 8192) * 8192"
    unfolding m a using unsigned_less [of x, where ?'a = nat]
    by (simp_all only: unsigned_push_bit_eq u16_drop)
      (simp_all add: push_bit_eq_mult take_bit_eq_mod)
qed

lemma u16_and_mid:
  fixes x :: u16
  shows "unat (drop_bit 10 (x AND 0x1C00)) = unat x div 1024 mod 8"
    "unat (drop_bit 12 (x AND 0x7000)) = unat x div 4096 mod 8"
proof -
  have m: "(0x1C00 :: u16) = push_bit 10 (mask 3)" "(0x7000 :: u16) = push_bit 12 (mask 3)"
    by (simp_all add: mask_eq_exp_minus_1)
  have a: "drop_bit 10 (x AND push_bit 10 (mask 3)) = take_bit 3 (drop_bit 10 x)"
    "drop_bit 12 (x AND push_bit 12 (mask 3)) = take_bit 3 (drop_bit 12 x)"
    by (auto simp: bit_eq_iff bit_simps)
  show "unat (drop_bit 10 (x AND 0x1C00)) = unat x div 1024 mod 8"
    "unat (drop_bit 12 (x AND 0x7000)) = unat x div 4096 mod 8"
    unfolding m a by (simp_all only: unsigned_take_bit_eq u16_drop) (simp_all add: take_bit_eq_mod)
qed

lemma u16_or_disjoint:
  fixes x y :: u16
  assumes "unat x < 2 ^ n" and "2 ^ n dvd unat y"
  shows "unat (x OR y) = unat x + unat y"
proof -
  obtain k where k: "unat y = push_bit n k"
    using assms(2) by (auto simp: push_bit_eq_mult mult.commute)
  have x: "unat x = take_bit n (unat x)" using assms(1) by (simp add: take_bit_nat_eq_self)
  have "take_bit n (unat x) AND push_bit n k = 0" by (auto simp: bit_eq_iff bit_simps)
  then show ?thesis
    unfolding unsigned_or_eq k by (subst (1 2) x) (simp add: disjunctive_add_eq_or)
qed

lemma unat_push_ucast:
  assumes "unat (r :: u8) * 2 ^ n < 65536"
  shows "unat (push_bit n (ucast r :: u16)) = unat r * 2 ^ n"
  using assms unsigned_less [of r, where ?'a = nat]
  by (simp only: unsigned_push_bit_eq unsigned_ucast_eq) (simp add: push_bit_eq_mult take_bit_eq_mod)


section \<open>Fallible computations\<close>

text \<open>
  A fallible computation is \<open>Inl e\<close> (the error) or \<open>Inr x\<close> (the result). \<open>and_then\<close> is
  the sequencing that \<open>?\<close> and \<open>Result::and_then\<close> perform in the code.
\<close>

definition and_then :: "'e + 'a \<Rightarrow> ('a \<Rightarrow> 'e + 'b) \<Rightarrow> 'e + 'b" where
  "and_then m f = (case m of Inl e \<Rightarrow> Inl e | Inr x \<Rightarrow> f x)"

lemma and_then_simps [simp]:
  "and_then (Inl e) f = Inl e"
  "and_then (Inr x) f = f x"
  by (simp_all add: and_then_def)

lemma and_then_Inr_iff:
  "and_then m f = Inr y \<longleftrightarrow> (\<exists>x. m = Inr x \<and> f x = Inr y)"
  by (cases m) auto

lemma and_then_Inl_iff:
  "and_then m f = Inl e \<longleftrightarrow> m = Inl e \<or> (\<exists>x. m = Inr x \<and> f x = Inl e)"
  by (cases m) auto

lemma and_then_InrE [elim]:
  assumes "and_then m f = Inr y"
  obtains x where "m = Inr x" "f x = Inr y"
  using assms by (auto simp: and_then_Inr_iff)

lemma and_then_assoc: "and_then (and_then m f) g = and_then m (\<lambda>x. and_then (f x) g)"
  by (cases m) auto

text \<open>Run a fallible step over a list, threading a state, stopping at the first error.\<close>

fun fold_res :: "('x \<Rightarrow> 's \<Rightarrow> 'e + 's) \<Rightarrow> 'x list \<Rightarrow> 's \<Rightarrow> 'e + 's" where
  "fold_res f [] s = Inr s"
| "fold_res f (x # xs) s = and_then (f x s) (fold_res f xs)"

lemma fold_res_append:
  "fold_res f (xs @ ys) s = and_then (fold_res f xs s) (fold_res f ys)"
proof (induction xs arbitrary: s)
  case Nil
  then show ?case by simp
next
  case (Cons x xs)
  then show ?case by (cases "f x s") simp_all
qed

lemma fold_res_invariant:
  assumes "fold_res f xs s = Inr s'" and "I s"
    and "\<And>x s s'. x \<in> set xs \<Longrightarrow> I s \<Longrightarrow> f x s = Inr s' \<Longrightarrow> I s'"
  shows "I s'"
  using assms
proof (induction xs arbitrary: s)
  case Nil
  then show ?case by simp
next
  case (Cons x xs)
  from Cons.prems(1) obtain s1 where s1: "f x s = Inr s1" "fold_res f xs s1 = Inr s'"
    by auto
  have "I s1" using Cons.prems(2,3) s1(1) by auto
  with s1(2) show ?case using Cons.prems(3) by (intro Cons.IH) auto
qed

text \<open>
  \<open>retain\<close> with a closure that updates captured variables and may panic: the elements are
  visited in order, those for which the closure answers \<open>True\<close> are kept.
\<close>

fun retain_res :: "('x \<Rightarrow> 's \<Rightarrow> 'e + (bool \<times> 's)) \<Rightarrow> 'x list \<Rightarrow> 's \<Rightarrow> 'e + ('x list \<times> 's)" where
  "retain_res f [] s = Inr ([], s)"
| "retain_res f (x # xs) s =
     and_then (f x s) (\<lambda>(keep, s').
     and_then (retain_res f xs s') (\<lambda>(ys, s'').
       Inr (if keep then x # ys else ys, s'')))"

lemma retain_res_ConsE:
  assumes "retain_res f (x # xs) s = Inr (ys, s')"
  obtains keep s1 ys1 where "f x s = Inr (keep, s1)" "retain_res f xs s1 = Inr (ys1, s')"
    "ys = (if keep then x # ys1 else ys1)"
  using assms by (auto simp: and_then_Inr_iff)

lemma retain_res_filter:
  assumes "retain_res f xs s = Inr (ys, s')"
    and "\<And>x s keep s'. x \<in> set xs \<Longrightarrow> f x s = Inr (keep, s') \<Longrightarrow> keep = P x"
  shows "ys = filter P xs"
  using assms
proof (induction xs arbitrary: s ys)
  case Nil
  then show ?case by simp
next
  case (Cons x xs)
  from Cons.prems(1) obtain keep s1 ys1 where s1: "f x s = Inr (keep, s1)"
    "retain_res f xs s1 = Inr (ys1, s')" "ys = (if keep then x # ys1 else ys1)"
    by (rule retain_res_ConsE)
  have "keep = P x" using Cons.prems(2) s1(1) by simp
  moreover have "ys1 = filter P xs" using Cons.prems(2) s1(2) by (intro Cons.IH) auto
  ultimately show ?case using s1(3) by simp
qed

lemma retain_res_subset: "retain_res f xs s = Inr (ys, s') \<Longrightarrow> set ys \<subseteq> set xs \<and> length ys \<le> length xs"
proof (induction xs arbitrary: s ys)
  case Nil
  then show ?case by simp
next
  case (Cons x xs)
  from Cons.prems obtain keep s1 ys1 where s1: "retain_res f xs s1 = Inr (ys1, s')"
    "ys = (if keep then x # ys1 else ys1)"
    by (rule retain_res_ConsE)
  show ?case using Cons.IH [OF s1(1)] s1(2) by auto
qed

lemma retain_res_invariant:
  assumes "retain_res f xs s = Inr (ys, s')" and "I s"
    and "\<And>x s keep s'. x \<in> set xs \<Longrightarrow> I s \<Longrightarrow> f x s = Inr (keep, s') \<Longrightarrow> I s'"
  shows "I s'"
  using assms
proof (induction xs arbitrary: s ys)
  case Nil
  then show ?case by simp
next
  case (Cons x xs)
  from Cons.prems(1) obtain keep s1 ys1 where s1: "f x s = Inr (keep, s1)"
    "retain_res f xs s1 = Inr (ys1, s')"
    by (rule retain_res_ConsE)
  have "I s1" by (rule Cons.prems(3) [OF _ Cons.prems(2) s1(1)]) simp
  then show ?case using Cons.prems(3) s1(2) by (intro Cons.IH) auto
qed

lemma retain_res_total:
  assumes "I s" and "\<And>x s. x \<in> set xs \<Longrightarrow> I s \<Longrightarrow> \<exists>keep s'. f x s = Inr (keep, s') \<and> I s'"
  shows "\<exists>ys s'. retain_res f xs s = Inr (ys, s') \<and> I s'"
  using assms
proof (induction xs arbitrary: s)
  case Nil
  then show ?case by simp
next
  case (Cons x xs)
  obtain keep s1 where s1: "f x s = Inr (keep, s1)" "I s1"
    using Cons.prems(2) [of x s] Cons.prems(1) by auto
  obtain ys s2 where "retain_res f xs s1 = Inr (ys, s2)" "I s2"
    using Cons.IH [OF s1(2)] Cons.prems(2) by auto
  then show ?case using s1 by auto
qed

text \<open>The faults of the code that returns no error value: a Rust panic (a failed \<open>assert!\<close>,
  \<open>expect\<close>, an index out of range, an arithmetic overflow) and, in the model only, a recursion
  that was given too little fuel.\<close>

datatype fault = Panic | OutOfFuel

type_synonym 'a res = "fault + 'a"

definition checked_add :: "'a::len word \<Rightarrow> 'a word \<Rightarrow> 'a word res" where
  "checked_add a b = (if unat a + unat b < 2 ^ LENGTH('a) then Inr (a + b) else Inl Panic)"

definition checked_sub :: "'a::len word \<Rightarrow> 'a word \<Rightarrow> 'a word res" where
  "checked_sub a b = (if b \<le> a then Inr (a - b) else Inl Panic)"

lemma checked_add_Inr: "checked_add a b = Inr c \<Longrightarrow> unat c = unat a + unat b"
  by (auto simp: checked_add_def unat_word_ariths split: if_splits)

lemma checked_sub_Inr: "checked_sub a b = Inr c \<Longrightarrow> unat c = unat a - unat b"
  by (auto simp: checked_sub_def unat_sub split: if_splits)

lemma checked_not_fuel [simp]:
  "checked_add a b \<noteq> Inl OutOfFuel" "checked_sub a b \<noteq> Inl OutOfFuel"
  by (auto simp: checked_add_def checked_sub_def)

section \<open>Bounded buffers\<close>

text \<open>
  A bounded buffer is a list, oldest element first. With the \<open>Wrapping\<close> behaviour of
  \<open>ArrayDeque\<close>, pushing onto a full buffer removes the element at the other end and returns
  it; \<open>heapless::Vec::push\<close> and the \<open>Saturating\<close> behaviour refuse the new element instead.
\<close>

definition wrap_push_back :: "nat \<Rightarrow> 'a \<Rightarrow> 'a list \<Rightarrow> 'a list \<times> 'a option" where
  "wrap_push_back cap x q =
     (if length q < cap then (q @ [x], None)
      else case q of [] \<Rightarrow> ([], Some x) | y # q' \<Rightarrow> (q' @ [x], Some y))"

definition wrap_push_front :: "nat \<Rightarrow> 'a \<Rightarrow> 'a list \<Rightarrow> 'a list \<times> 'a option" where
  "wrap_push_front cap x q =
     (if length q < cap then (x # q, None)
      else if q = [] then ([], Some x) else (x # butlast q, Some (last q)))"

definition sat_push :: "nat \<Rightarrow> 'a \<Rightarrow> 'a list \<Rightarrow> 'a list \<times> 'a option" where
  "sat_push cap x q = (if length q < cap then (q @ [x], None) else (q, Some x))"

abbreviation wpush :: "nat \<Rightarrow> 'a \<Rightarrow> 'a list \<Rightarrow> 'a list" where
  "wpush cap x q \<equiv> fst (wrap_push_back cap x q)"

abbreviation vpush :: "nat \<Rightarrow> 'a \<Rightarrow> 'a list \<Rightarrow> 'a list" where
  "vpush cap x q \<equiv> fst (sat_push cap x q)"

text \<open>A push whose overflow is asserted not to happen.\<close>

definition must_fit :: "'q \<times> 'x option \<Rightarrow> 'q res" where
  "must_fit p = (case snd p of None \<Rightarrow> Inr (fst p) | Some _ \<Rightarrow> Inl Panic)"

lemma must_fit_Inr [simp]: "must_fit p = Inr q \<longleftrightarrow> p = (q, None)"
  by (cases p) (auto simp: must_fit_def split: option.splits)

lemma must_fit_room [simp]: "must_fit (q, None) = Inr q"
  by simp

lemma must_fit_not_fuel [simp]: "must_fit p \<noteq> Inl OutOfFuel"
  by (simp add: must_fit_def split: option.splits)

text \<open>\<open>Extend\<close> pushes the elements one after the other.\<close>

definition wextend :: "nat \<Rightarrow> 'a list \<Rightarrow> 'a list \<Rightarrow> 'a list" where
  "wextend cap xs q = fold (wpush cap) xs q"

text \<open>
  What the clients of a buffer rely on, whatever its overflow behaviour: it never exceeds its
  capacity, no element is invented, nothing is lost while there is room, and on overflow
  exactly one element is handed back.
\<close>

locale bounded_push =
  fixes push :: "nat \<Rightarrow> 'a \<Rightarrow> 'a list \<Rightarrow> 'a list \<times> 'a option"
  assumes room: "length q < cap \<Longrightarrow> snd (push cap x q) = None
                   \<and> length (fst (push cap x q)) = Suc (length q)"
    and full: "\<not> length q < cap \<Longrightarrow> length q \<le> cap \<Longrightarrow>
                 snd (push cap x q) \<noteq> None \<and> length (fst (push cap x q)) = length q"
    and elems: "length q \<le> cap \<Longrightarrow> set (fst (push cap x q)) \<union> set_option (snd (push cap x q))
                   = insert x (set q)"
begin

lemma push_bound: "length q \<le> cap \<Longrightarrow> length (fst (push cap x q)) \<le> cap"
  using room [of q cap x] full [of q cap x] by (cases "length q < cap") auto

lemma push_subset: "length q \<le> cap \<Longrightarrow> set (fst (push cap x q)) \<subseteq> insert x (set q)"
  using elems [of q cap x] by auto

lemma push_all:
  "list_all P q \<Longrightarrow> P x \<Longrightarrow> length q \<le> cap \<Longrightarrow> list_all P (fst (push cap x q))"
  using push_subset [of q cap x] by (auto simp: list_all_iff)

lemma no_overflow_keeps:
  "length q \<le> cap \<Longrightarrow> snd (push cap x q) = None \<Longrightarrow> set (fst (push cap x q)) = insert x (set q)"
  using elems [of q cap x] by simp

end

interpretation wb: bounded_push wrap_push_back
  by unfold_locales (auto simp: wrap_push_back_def split: list.splits)

interpretation wf: bounded_push wrap_push_front
proof unfold_locales
  fix q :: "'a list" and cap x
  assume "length q \<le> cap"
  then show "set (fst (wrap_push_front cap x q)) \<union> set_option (snd (wrap_push_front cap x q))
      = insert x (set q)"
    using append_butlast_last_id [of q]
    by (auto simp: wrap_push_front_def in_set_butlastD)
       (metis in_set_conv_decomp append_butlast_last_id set_ConsD rotate1.simps(2) set_rotate1
          Un_iff set_append)+
qed (auto simp: wrap_push_front_def)

interpretation sp: bounded_push sat_push
  by unfold_locales (auto simp: sat_push_def)

lemma wextend_bound: "length q \<le> cap \<Longrightarrow> length (wextend cap xs q) \<le> cap"
  unfolding wextend_def by (induction xs arbitrary: q) (auto simp: wb.push_bound)

lemma wextend_all:
  "list_all P q \<Longrightarrow> list_all P xs \<Longrightarrow> length q \<le> cap \<Longrightarrow> list_all P (wextend cap xs q)"
  unfolding wextend_def
  by (induction xs arbitrary: q) (auto simp: wb.push_bound wb.push_all)

lemma wrap_push_back_room [simp]:
  "length q < cap \<Longrightarrow> wrap_push_back cap x q = (q @ [x], None)"
  by (simp add: wrap_push_back_def)

lemma sat_push_room [simp]: "length q < cap \<Longrightarrow> sat_push cap x q = (q @ [x], None)"
  by (simp add: sat_push_def)

lemma wextend_fits: "length q + length xs \<le> cap \<Longrightarrow> wextend cap xs q = q @ xs"
  unfolding wextend_def by (induction xs arbitrary: q) auto

section \<open>Runs of a deterministic machine\<close>

fun run :: "('e \<Rightarrow> 's \<Rightarrow> 's) \<Rightarrow> 'e list \<Rightarrow> 's \<Rightarrow> 's" where
  "run step [] s = s"
| "run step (e # es) s = run step es (step e s)"

lemma run_append: "run step (xs @ ys) s = run step ys (run step xs s)"
  by (induction xs arbitrary: s) auto

lemma run_invariant:
  assumes "I s" and "\<And>e s. I s \<Longrightarrow> I (step e s)"
  shows "I (run step es s)"
  using assms by (induction es arbitrary: s) auto

end
