(* ===== verification/Keys.thy ===== *)
theory Keys
  imports Prelude
begin

text \<open>
  Key codes, key coordinates, key events and the event queue entries of the keyberon layout
  (\<open>keyberon/src/key_code.rs\<close> and the first part of \<open>keyberon/src/layout.rs\<close>). A key code is
  its \<open>repr(u16)\<close> number; only the codes the logic singles out are named.
\<close>

section \<open>Key codes\<close>

type_synonym keycode = u16

definition KEY_MAX :: u16 where "KEY_MAX = 850"

definition LCtrl :: keycode where "LCtrl = 29"
definition LShift :: keycode where "LShift = 42"
definition RShift :: keycode where "RShift = 54"
definition LAlt :: keycode where "LAlt = 56"
definition RCtrl :: keycode where "RCtrl = 97"
definition RAlt :: keycode where "RAlt = 100"
definition LGui :: keycode where "LGui = 125"
definition RGui :: keycode where "RGui = 126"
definition ErrorRollOver :: keycode where "ErrorRollOver = 251"

lemmas keycode_defs =
  LCtrl_def LShift_def RShift_def LAlt_def RCtrl_def RAlt_def LGui_def RGui_def ErrorRollOver_def

definition is_mod :: "keycode \<Rightarrow> bool" where
  "is_mod kc \<longleftrightarrow>
     kc = LShift \<or> kc = RShift \<or> kc = LCtrl \<or> kc = RCtrl \<or>
     kc = LAlt \<or> kc = RAlt \<or> kc = LGui \<or> kc = RGui"

section \<open>Coordinates and events\<close>

text \<open>Row 0 holds the physical keys, row 1 the virtual ones; the column is the key code.\<close>

type_synonym kcoord = "u8 \<times> u16"

definition REAL_KEY_ROW :: u8 where "REAL_KEY_ROW = 0"

definition TRIGGER_TAPHOLD_COORD :: kcoord where "TRIGGER_TAPHOLD_COORD = (0, 0)"

datatype event = Press u8 u16 | Release u8 u16

fun event_coord :: "event \<Rightarrow> kcoord" where
  "event_coord (Press i j) = (i, j)"
| "event_coord (Release i j) = (i, j)"

fun event_transform :: "event \<Rightarrow> (u8 \<Rightarrow> u16 \<Rightarrow> kcoord) \<Rightarrow> event" where
  "event_transform (Press i j) f = (case f i j of (i', j') \<Rightarrow> Press i' j')"
| "event_transform (Release i j) f = (case f i j of (i', j') \<Rightarrow> Release i' j')"

fun is_press :: "event \<Rightarrow> bool" where
  "is_press (Press i j) = True"
| "is_press (Release i j) = False"

fun is_release :: "event \<Rightarrow> bool" where
  "is_release (Release i j) = True"
| "is_release (Press i j) = False"

lemma is_release_not_press [simp]: "is_release e = (\<not> is_press e)"
  by (cases e) auto

section \<open>Queue entries\<close>

record queued =
  q_event :: event
  q_since :: u16

definition queued_from :: "event \<Rightarrow> queued" where
  "queued_from e = \<lparr>q_event = e, q_since = 0\<rparr>"

definition queued_new_press :: "u8 \<Rightarrow> u16 \<Rightarrow> queued" where
  "queued_new_press i j = \<lparr>q_event = Press i j, q_since = 0\<rparr>"

definition queued_new_release :: "u8 \<Rightarrow> u16 \<Rightarrow> queued" where
  "queued_new_release i j = \<lparr>q_event = Release i j, q_since = 0\<rparr>"

definition tick_qd :: "queued \<Rightarrow> queued" where
  "tick_qd q = q\<lparr>q_since := sat_add (q_since q) 1\<rparr>"

definition QUEUE_SIZE :: nat where "QUEUE_SIZE = 32"

section \<open>History of inputs and outputs\<close>

text \<open>
  Two parallel ring buffers, newest entry first. The code ages every slot of the ring,
  including the unused ones; only the slots in use are visible.
\<close>

definition HISTORICAL_EVENT_LEN :: nat where "HISTORICAL_EVENT_LEN = 8"

record 'a history =
  h_events :: "'a list"
  h_ticks :: "u16 list"

record 'a hist_event =
  he_event :: 'a
  he_ticks :: u16

definition history_new :: "'a history" where
  "history_new = \<lparr>h_events = [], h_ticks = []\<rparr>"

definition tick_hist :: "'a history \<Rightarrow> 'a history" where
  "tick_hist h = h\<lparr>h_ticks := map (\<lambda>t. sat_add t 1) (h_ticks h)\<rparr>"

definition hist_push_front :: "'a \<Rightarrow> 'a history \<Rightarrow> 'a history" where
  "hist_push_front e h =
     h\<lparr>h_ticks := fst (wrap_push_front HISTORICAL_EVENT_LEN 0 (h_ticks h)),
       h_events := fst (wrap_push_front HISTORICAL_EVENT_LEN e (h_events h))\<rparr>"

definition iter_hevents :: "'a history \<Rightarrow> 'a hist_event list" where
  "iter_hevents h = map (\<lambda>(e, t). \<lparr>he_event = e, he_ticks = t\<rparr>) (zip (h_events h) (h_ticks h))"

text \<open>Both rings have the same length and stay within their capacity.\<close>

definition history_wf :: "'a history \<Rightarrow> bool" where
  "history_wf h \<longleftrightarrow> length (h_events h) = length (h_ticks h)
                     \<and> length (h_events h) \<le> HISTORICAL_EVENT_LEN"

lemma history_wf_new [simp]: "history_wf history_new"
  by (simp add: history_wf_def history_new_def)

lemma history_wf_tick [simp]: "history_wf (tick_hist h) = history_wf h"
  by (simp add: history_wf_def tick_hist_def)

lemma length_wrap_push_front:
  "length q \<le> cap \<Longrightarrow> length (fst (wrap_push_front cap x q)) = min cap (Suc (length q))"
  by (auto simp: wrap_push_front_def)

lemma history_wf_push [simp]: "history_wf h \<Longrightarrow> history_wf (hist_push_front e h)"
  by (simp add: history_wf_def hist_push_front_def length_wrap_push_front)

lemma iter_hevents_push:
  assumes "history_wf h"
  shows "iter_hevents (hist_push_front e h)
       = take HISTORICAL_EVENT_LEN (\<lparr>he_event = e, he_ticks = 0\<rparr> # iter_hevents h)"
proof (cases "length (h_events h) < HISTORICAL_EVENT_LEN")
  case True
  then have "length (h_ticks h) < HISTORICAL_EVENT_LEN" using assms by (simp add: history_wf_def)
  with True show ?thesis
    by (cases "HISTORICAL_EVENT_LEN") (simp_all add: iter_hevents_def hist_push_front_def wrap_push_front_def)
next
  case False
  with assms have len: "length (h_events h) = 8" "length (h_ticks h) = 8"
    by (auto simp: history_wf_def HISTORICAL_EVENT_LEN_def)
  have "zip (butlast (h_events h)) (butlast (h_ticks h)) = take 7 (zip (h_events h) (h_ticks h))"
    using len by (simp add: butlast_conv_take take_zip)
  with len show ?thesis
    by (auto simp: iter_hevents_def hist_push_front_def wrap_push_front_def
        HISTORICAL_EVENT_LEN_def take_map numeral_eq_Suc)
qed

end
