(* ===== verification/Action.thy ===== *)
theory Action
  imports Keys
begin

text \<open>
  The actions a key can be configured with (\<open>keyberon/src/action.rs\<close>), with one constructor
  per variant and one single-constructor datatype, with the source's field names as
  selectors, per configuration struct. References are shared immutable configuration, so they
  are modelled by the values they refer to. A custom hold-tap decision function is a HOL
  function; the optional initialisation command of a switch and its callbacks act on the one
  global they share, the exit code of the latest command.
\<close>

section \<open>Macro events and hold-tap decisions\<close>

datatype 't seq_event =
    SeqNoOp | SeqPress keycode | SeqRelease keycode | SeqTap keycode
  | SeqDelay u32 | SeqCustom 't | SeqComplete

datatype waiting_action = WaHold | WaTap | WaTimeout | WaNoOp

datatype hold_tap_config =
    HtDefault | HoldOnOtherKeyPress | Order u16 | PermissiveHold
  | HtCustom "queued list \<Rightarrow> kcoord \<Rightarrow> waiting_action option \<times> bool"

datatype releasable_state = RsKeyCode keycode | RsLayer nat

datatype one_shot_end_config =
    EndOnFirstPress | EndOnFirstPressOrRepress | EndOnFirstRelease | EndOnFirstReleaseOrRepress

definition ONE_SHOT_MAX_ACTIVE :: nat where "ONE_SHOT_MAX_ACTIVE = 16"

datatype tap_dance_config = Lazy | Eager

type_synonym chord_keys = u128

type_synonym opcode = u16

datatype break_or_fallthrough = Break | Fallthrough

section \<open>Actions\<close>

datatype 't action =
    NoOp
  | Trans
  | KeyCode keycode
  | MultipleKeyCodes "keycode list"
  | MultipleActions "'t action list"
  | Layer nat
  | DefaultLayer nat
  | Sequence "'t seq_event list"
  | RepeatableSequence "'t seq_event list"
  | CancelSequences
  | ReleaseState releasable_state
  | HoldTap "'t hold_tap_action"
  | Custom 't
  | OneShot "'t one_shot"
  | OneShotIgnoreEventsTicks u16
  | TapDance "'t tap_dance"
  | Chords "'t chords_group"
  | Repeat
  | Fork "'t fork_config"
  | Switch "'t switch"
  | Src
and 't hold_tap_action =
  HoldTapAction (hta_timeout: u16) (hta_hold: "'t action") (hta_tap: "'t action")
    (hta_timeout_action: "'t action") (hta_config: hold_tap_config)
    (hta_tap_hold_interval: u16) (hta_on_press_reset_timeout_to: "u16 option")
    (hta_require_prior_idle: "u16 option")
and 't one_shot =
  OneShotCfg (os_action: "'t action") (os_timeout: u16) (os_end_config: one_shot_end_config)
and 't tap_dance =
  TapDanceCfg (td_actions: "'t action list") (td_timeout: u16) (td_config: tap_dance_config)
and 't chords_group =
  ChordsGroup (cg_coords: "(kcoord \<times> chord_keys) list")
    (cg_chords: "(chord_keys \<times> 't action) list") (cg_timeout: u16)
and 't fork_config =
  ForkConfig (fork_left: "'t action") (fork_right: "'t action") (fork_triggers: "keycode list")
and 't switch =
  SwitchCfg (sw_init_fn: "(int \<Rightarrow> int) option")
    (sw_cases: "(opcode list \<times> 't action \<times> break_or_fallthrough) list")
    (sw_callbacks: "(int \<Rightarrow> bool) list")

fun action_layer :: "'t action \<Rightarrow> nat option" where
  "action_layer (Layer l) = Some l"
| "action_layer _ = None"

fun action_key_codes :: "'t action \<Rightarrow> keycode list" where
  "action_key_codes (KeyCode kc) = [kc]"
| "action_key_codes (MultipleKeyCodes kcs) = kcs"
| "action_key_codes _ = []"

section \<open>Chord groups\<close>

definition get_keys :: "'t chords_group \<Rightarrow> kcoord \<Rightarrow> chord_keys option" where
  "get_keys g coord = map_option snd (find (\<lambda>c. fst c = coord) (cg_coords g))"

definition get_chord :: "'t chords_group \<Rightarrow> chord_keys \<Rightarrow> 't action option" where
  "get_chord g keys = map_option snd (find (\<lambda>c. fst c = keys) (cg_chords g))"

text \<open>The \<open>try_fold\<close> of \<open>get_chord_if_unambiguous\<close>: \<open>None\<close> is its \<open>Err(())\<close>.\<close>

fun unambiguous_fold ::
  "chord_keys \<Rightarrow> (chord_keys \<times> 't action) list \<Rightarrow> 't action option \<Rightarrow> 't action option option" where
  "unambiguous_fold keys [] r = Some r"
| "unambiguous_fold keys ((chord_keys, action) # cs) r =
     (if chord_keys = keys then unambiguous_fold keys cs (Some action)
      else if (chord_keys OR keys) = chord_keys then None
      else unambiguous_fold keys cs r)"

definition get_chord_if_unambiguous :: "'t chords_group \<Rightarrow> chord_keys \<Rightarrow> 't action option" where
  "get_chord_if_unambiguous g keys =
     (case unambiguous_fold keys (cg_chords g) None of None \<Rightarrow> None | Some r \<Rightarrow> r)"

text \<open>A chord is reported only if it is defined and no defined chord strictly contains it.\<close>

lemma unambiguous_fold_Some:
  "unambiguous_fold keys cs r = Some (Some a) \<Longrightarrow>
     (\<forall>(k, b) \<in> set cs. k = keys \<or> (k OR keys) \<noteq> k)
     \<and> ((keys, a) \<in> set cs \<or> (r = Some a \<and> (\<forall>(k, b) \<in> set cs. k \<noteq> keys)))"
proof (induction cs arbitrary: r)
  case Nil
  then show ?case by simp
next
  case (Cons c cs)
  obtain k b where c: "c = (k, b)" by (cases c)
  show ?case
  proof (cases "k = keys")
    case True
    with Cons.prems c have "unambiguous_fold keys cs (Some b) = Some (Some a)" by simp
    from Cons.IH [OF this] True c show ?thesis by auto
  next
    case False
    with Cons.prems c have "(k OR keys) \<noteq> k" "unambiguous_fold keys cs r = Some (Some a)"
      by (auto split: if_splits)
    with Cons.IH [OF this(2)] False c show ?thesis by auto
  qed
qed

lemma get_chord_if_unambiguous_Some:
  assumes "get_chord_if_unambiguous g keys = Some a"
  shows "(keys, a) \<in> set (cg_chords g)"
    and "(k, b) \<in> set (cg_chords g) \<Longrightarrow> k = keys \<or> (k OR keys) \<noteq> k"
  using assms unambiguous_fold_Some [of keys "cg_chords g" None a]
  by (auto simp: get_chord_if_unambiguous_def split: option.splits)

end
