(* ===== verification/Switch.thy ===== *)
theory Switch
  imports Action
begin

text \<open>
  The \<open>switch\<close> action (\<open>keyberon/src/action/switch.rs\<close>): the 16-bit opcodes a boolean
  expression is compiled to, their interpretation, the evaluator with its operator stack and
  its short-circuiting jumps, and the iteration over the cases of a switch. The encoding
  lemmas show that decoding inverts every constructor of an opcode; the evaluator is compared
  with a recursive semantics in theory \<open>SwitchSem\<close>.
\<close>

section \<open>Constants\<close>

definition MAX_OPCODE_LEN :: u16 where "MAX_OPCODE_LEN = 0x0FFF"
definition OP_MASK :: u16 where "OP_MASK = 0xF000"
definition MAX_BOOL_EXPR_DEPTH :: nat where "MAX_BOOL_EXPR_DEPTH = 8"
definition MAX_KEY_RECENCY :: u8 where "MAX_KEY_RECENCY = 7"
definition MAX_LAYERS :: nat where "MAX_LAYERS = 60000"

definition OR_VAL :: u16 where "OR_VAL = 0x1000"
definition AND_VAL :: u16 where "AND_VAL = 0x2000"
definition NOT_VAL :: u16 where "NOT_VAL = 0x3000"
definition INPUT_VAL :: u16 where "INPUT_VAL = 851"
definition HISTORICAL_INPUT_VAL :: u16 where "HISTORICAL_INPUT_VAL = 852"
definition LAYER_VAL :: u16 where "LAYER_VAL = 853"
definition BASE_LAYER_VAL :: u16 where "BASE_LAYER_VAL = 854"
definition HISTORICAL_DEVICE_VAL :: u16 where "HISTORICAL_DEVICE_VAL = 855"
definition CALLBACK_INDEX_VAL :: u16 where "CALLBACK_INDEX_VAL = 856"
definition TICKS_SINCE_VAL_GT :: u16 where "TICKS_SINCE_VAL_GT = 0x4000"
definition TICKS_SINCE_VAL_LT :: u16 where "TICKS_SINCE_VAL_LT = 0x6000"
definition HISTORICAL_KEYCODE_VAL :: u16 where "HISTORICAL_KEYCODE_VAL = 0x8000"

lemmas switch_consts =
  MAX_OPCODE_LEN_def OP_MASK_def MAX_BOOL_EXPR_DEPTH_def MAX_KEY_RECENCY_def MAX_LAYERS_def
  OR_VAL_def AND_VAL_def NOT_VAL_def INPUT_VAL_def HISTORICAL_INPUT_VAL_def LAYER_VAL_def
  BASE_LAYER_VAL_def HISTORICAL_DEVICE_VAL_def CALLBACK_INDEX_VAL_def TICKS_SINCE_VAL_GT_def
  TICKS_SINCE_VAL_LT_def HISTORICAL_KEYCODE_VAL_def KEY_MAX_def

section \<open>Opcodes\<close>

datatype bool_op = BOr | BAnd | BNot

datatype opcode_type =
    OtBooleanOp bool_op nat
  | OtKeyCode u16
  | OtHistoricalKeyCode u16 u8
  | OtInput kcoord
  | OtHistoricalInput kcoord u8
  | OtTicksSinceLessThan u8 u16
  | OtTicksSinceGreaterThan u8 u16
  | OtLayer u16
  | OtBaseLayer u16
  | OtHistoricalDevice u8 u8
  | OtCallbackIndex u16

fun op_to_u16 :: "bool_op \<Rightarrow> u16" where
  "op_to_u16 BOr = OR_VAL"
| "op_to_u16 BAnd = AND_VAL"
| "op_to_u16 BNot = NOT_VAL"

definition lossy_compress_ticks :: "u16 \<Rightarrow> u16" where
  "lossy_compress_ticks t =
     (if t \<le> 255 then t
      else if t \<le> 2303 then (t - 255) div 8 + 255
      else (t - 2303) div 128 + 511)"

definition lossy_decompress_ticks :: "u16 \<Rightarrow> u16" where
  "lossy_decompress_ticks t =
     (if t \<le> 255 then t
      else if t \<le> 511 then (t - 255) * 8 + 255
      else (t - 511) * 128 + 2303)"

definition assert_that :: "bool \<Rightarrow> 'a \<Rightarrow> 'a res" where
  "assert_that b x = (if b then Inr x else Inl Panic)"

definition new_key :: "keycode \<Rightarrow> opcode res" where
  "new_key kc = assert_that (kc \<le> KEY_MAX) (kc AND MAX_OPCODE_LEN)"

definition new_key_history :: "keycode \<Rightarrow> u8 \<Rightarrow> opcode res" where
  "new_key_history kc r = assert_that (kc \<le> MAX_OPCODE_LEN \<and> r \<le> MAX_KEY_RECENCY)
     (((kc AND MAX_OPCODE_LEN) OR HISTORICAL_KEYCODE_VAL) OR push_bit 12 (ucast r))"

definition new_ticks_since_gt :: "u8 \<Rightarrow> u16 \<Rightarrow> opcode res" where
  "new_ticks_since_gt nk t = assert_that (nk \<le> MAX_KEY_RECENCY)
     ((TICKS_SINCE_VAL_GT OR lossy_compress_ticks t) OR push_bit 10 (ucast nk))"

definition new_ticks_since_lt :: "u8 \<Rightarrow> u16 \<Rightarrow> opcode res" where
  "new_ticks_since_lt nk t = assert_that (nk \<le> MAX_KEY_RECENCY)
     ((TICKS_SINCE_VAL_LT OR lossy_compress_ticks t) OR push_bit 10 (ucast nk))"

definition new_bool :: "bool_op \<Rightarrow> u16 \<Rightarrow> opcode res" where
  "new_bool op end_idx = assert_that (end_idx \<le> MAX_OPCODE_LEN)
     ((end_idx AND MAX_OPCODE_LEN) + op_to_u16 op)"

definition new_active_input :: "kcoord \<Rightarrow> (opcode \<times> opcode) res" where
  "new_active_input c = assert_that (fst c < 4 \<and> snd c < 0x400)
     (INPUT_VAL, push_bit 14 (ucast (fst c AND 3)) + snd c)"

definition new_historical_input :: "kcoord \<Rightarrow> u8 \<Rightarrow> (opcode \<times> opcode) res" where
  "new_historical_input c r = assert_that (fst c < 4 \<and> snd c < 0x400 \<and> r < 8)
     (HISTORICAL_INPUT_VAL, (push_bit 14 (ucast (fst c AND 3)) + push_bit 11 (ucast r)) + snd c)"

definition new_layer :: "u16 \<Rightarrow> (opcode \<times> opcode) res" where
  "new_layer l = assert_that (unat l < MAX_LAYERS) (LAYER_VAL, l)"

definition new_base_layer :: "u16 \<Rightarrow> (opcode \<times> opcode) res" where
  "new_base_layer l = assert_that (unat l < MAX_LAYERS) (BASE_LAYER_VAL, l)"

text \<open>A \<open>NonZeroU8\<close> is its number; the callers construct it from a number that is not 0.\<close>

definition new_device_history :: "u8 \<Rightarrow> u8 \<Rightarrow> (opcode \<times> opcode) res" where
  "new_device_history dev far = assert_that (far \<le> MAX_KEY_RECENCY)
     (HISTORICAL_DEVICE_VAL, ucast dev OR push_bit 8 (ucast far))"

definition new_callback_index :: "u16 \<Rightarrow> opcode \<times> opcode" where
  "new_callback_index i = (CALLBACK_INDEX_VAL, i)"

section \<open>Interpretation of an opcode\<close>

definition operator_and_end_index :: "u16 \<Rightarrow> opcode_type res" where
  "operator_and_end_index v =
     (let m = v AND OP_MASK; idx = unat (v AND MAX_OPCODE_LEN) in
      if m = OR_VAL then Inr (OtBooleanOp BOr idx)
      else if m = AND_VAL then Inr (OtBooleanOp BAnd idx)
      else if m = NOT_VAL then Inr (OtBooleanOp BNot idx)
      else Inl Panic)"

definition two_word_opcode :: "opcode \<Rightarrow> opcode \<Rightarrow> opcode_type res" where
  "two_word_opcode op op2 =
     (if op = INPUT_VAL then
        Inr (OtInput (ucast (drop_bit 14 op2 AND 3), op2 AND 0x3FF))
      else if op = HISTORICAL_INPUT_VAL then
        Inr (OtHistoricalInput (ucast (drop_bit 14 op2 AND 3), op2 AND 0x3FF)
               (ucast (drop_bit 11 op2) AND 7))
      else if op = LAYER_VAL then Inr (OtLayer op2)
      else if op = BASE_LAYER_VAL then Inr (OtBaseLayer op2)
      else if op = HISTORICAL_DEVICE_VAL then
        (if ucast (op2 AND 0xFF) = (0 :: u8) then Inl Panic
         else Inr (OtHistoricalDevice (ucast (op2 AND 0xFF)) (ucast (drop_bit 8 op2 AND 7))))
      else if op = CALLBACK_INDEX_VAL then Inr (OtCallbackIndex op2)
      else Inl Panic)"

definition opcode_type_of :: "opcode \<Rightarrow> opcode option \<Rightarrow> opcode_type res" where
  "opcode_type_of op nxt =
     (if op < KEY_MAX then Inr (OtKeyCode op)
      else if op \<le> MAX_OPCODE_LEN then
        (case nxt of None \<Rightarrow> Inl Panic | Some op2 \<Rightarrow> two_word_opcode op op2)
      else
        (let m = op AND 0xE000 in
         if m = TICKS_SINCE_VAL_LT then
           Inr (OtTicksSinceLessThan (ucast (drop_bit 10 (op AND 0x1C00)))
                  (lossy_decompress_ticks (op AND 0x03FF)))
         else if m = TICKS_SINCE_VAL_GT then
           Inr (OtTicksSinceGreaterThan (ucast (drop_bit 10 (op AND 0x1C00)))
                  (lossy_decompress_ticks (op AND 0x03FF)))
         else if 0x8000 \<le> m \<and> m \<le> 0xF000 then
           Inr (OtHistoricalKeyCode (op AND 0x0FFF) (ucast (drop_bit 12 (op AND 0x7000))))
         else operator_and_end_index op))"

section \<open>The evaluator\<close>

text \<open>What an expression may ask about: the iterators \<open>evaluate_boolean\<close> is called with.\<close>

record switch_env =
  se_keys :: "keycode list"
  se_positions :: "kcoord list"
  se_hist_keys :: "keycode hist_event list"
  se_hist_inputs :: "kcoord hist_event list"
  se_layers :: "u16 list"
  se_default_layer :: u16
  se_devices :: "u8 option list"
  se_callbacks :: "bool list"

definition nth_opt :: "'a list \<Rightarrow> nat \<Rightarrow> 'a option" where
  "nth_opt xs n = (if n < length xs then Some (xs ! n) else None)"

text \<open>The value of a leaf and the number of opcodes it spans; operators have no value here.\<close>

fun leaf_value :: "switch_env \<Rightarrow> opcode_type \<Rightarrow> (bool \<times> nat) res" where
  "leaf_value env (OtKeyCode kc) = Inr (kc \<in> set (se_keys env), 1)"
| "leaf_value env (OtHistoricalKeyCode kc r) =
     Inr (case nth_opt (se_hist_keys env) (unat r) of
            None \<Rightarrow> False | Some he \<Rightarrow> he_event he = kc, 1)"
| "leaf_value env (OtTicksSinceLessThan n t) =
     Inr (case nth_opt (se_hist_keys env) (unat n) of
            None \<Rightarrow> False | Some he \<Rightarrow> he_ticks he \<le> t, 1)"
| "leaf_value env (OtTicksSinceGreaterThan n t) =
     Inr (case nth_opt (se_hist_keys env) (unat n) of
            None \<Rightarrow> False | Some he \<Rightarrow> t < he_ticks he, 1)"
| "leaf_value env (OtInput c) = Inr (c \<in> set (se_positions env), 2)"
| "leaf_value env (OtHistoricalInput c r) =
     Inr (case nth_opt (se_hist_inputs env) (unat r) of
            None \<Rightarrow> False | Some he \<Rightarrow> he_event he = c, 2)"
| "leaf_value env (OtLayer l) =
     Inr (case se_layers env of [] \<Rightarrow> False | l' # _ \<Rightarrow> l' = l, 2)"
| "leaf_value env (OtBaseLayer l) = Inr (se_default_layer env = l, 2)"
| "leaf_value env (OtHistoricalDevice d r) =
     Inr (case nth_opt (se_devices env) (unat r) of
            Some (Some d') \<Rightarrow> d' = d | _ \<Rightarrow> False, 2)"
| "leaf_value env (OtCallbackIndex i) =
     (if unat i < length (se_callbacks env) then Inr (se_callbacks env ! unat i, 2)
      else Inl Panic)"
| "leaf_value env (OtBooleanOp op idx) = Inl Panic"

definition not_if :: "bool_op \<Rightarrow> bool \<Rightarrow> bool" where
  "not_if op ret = (if op = BNot then \<not> ret else ret)"

text \<open>The end of evaluation: the operators still on the stack are popped.\<close>

definition pop_rest :: "bool \<Rightarrow> (bool_op \<times> nat) list \<Rightarrow> bool" where
  "pop_rest ret stack = fold (\<lambda>(op, _). not_if op) (rev stack) ret"

record eval_state =
  ev_ret :: bool
  ev_index :: nat
  ev_end :: nat
  ev_op :: bool_op
  ev_stack :: "(bool_op \<times> nat) list"

text \<open>Whether the loop goes on, with the next state, or has its answer.\<close>

datatype eval_next = Again eval_state | Done bool

text \<open>The match on the opcode at \<open>current_index\<close>.\<close>

definition eval_opcode :: "switch_env \<Rightarrow> opcode list \<Rightarrow> eval_state \<Rightarrow> eval_next res" where
  "eval_opcode env prog s =
     and_then (opcode_type_of (prog ! ev_index s) (nth_opt prog (Suc (ev_index s))))
       (\<lambda>ot. case ot of
          OtBooleanOp op idx \<Rightarrow>
            (if length (ev_stack s) < MAX_BOOL_EXPR_DEPTH then
               Inr (Again (s\<lparr>ev_stack := ev_stack s @ [(ev_op s, ev_end s)],
                             ev_op := op, ev_end := idx, ev_index := Suc (ev_index s)\<rparr>))
             else Inl Panic)
        | _ \<Rightarrow>
            and_then (leaf_value env ot) (\<lambda>(v, width).
              let ret = not_if (ev_op s) v in
              if (ret \<and> ev_op s = BOr) \<or> (\<not> ret \<and> (ev_op s = BAnd \<or> ev_op s = BNot))
              then Inr (Again (s\<lparr>ev_ret := ret, ev_index := ev_end s\<rparr>))
              else Inr (Again (s\<lparr>ev_ret := ret, ev_index := ev_index s + width\<rparr>))))"

text \<open>One iteration of the loop, entered with \<open>current_index < bool_expr.len()\<close>.\<close>

definition eval_iter :: "switch_env \<Rightarrow> opcode list \<Rightarrow> eval_state \<Rightarrow> eval_next res" where
  "eval_iter env prog s =
     (if ev_end s \<le> ev_index s then
        (if ev_stack s = [] then Inr (Done (ev_ret s))
         else
           (let (op, idx) = last (ev_stack s);
                s' = s\<lparr>ev_op := op, ev_end := idx, ev_stack := butlast (ev_stack s)\<rparr> in
            if (ev_ret s \<and> (op = BOr \<or> op = BNot)) \<or> (\<not> ev_ret s \<and> op = BAnd)
               \<or> idx \<le> ev_index s
            then Inr (Again (s'\<lparr>ev_ret := not_if op (ev_ret s), ev_index := idx\<rparr>))
            else eval_opcode env prog s'))
      else eval_opcode env prog s)"

fun eval_loop :: "nat \<Rightarrow> switch_env \<Rightarrow> opcode list \<Rightarrow> eval_state \<Rightarrow> bool res" where
  "eval_loop 0 env prog s = Inl OutOfFuel"
| "eval_loop (Suc n) env prog s =
     (if ev_index s < length prog then
        and_then (eval_iter env prog s)
          (\<lambda>r. case r of Again s' \<Rightarrow> eval_loop n env prog s' | Done b \<Rightarrow> Inr b)
      else Inr (pop_rest (ev_ret s) (ev_stack s)))"

definition eval_start :: "opcode list \<Rightarrow> eval_state" where
  "eval_start prog =
     \<lparr>ev_ret = True, ev_index = 0, ev_end = length prog, ev_op = BOr, ev_stack = []\<rparr>"

text \<open>Two iterations per opcode (one to enter it, one to leave an operator) are enough for
  every expression the parser emits; see \<open>SwitchSem\<close>.\<close>

definition evaluate_boolean :: "opcode list \<Rightarrow> switch_env \<Rightarrow> bool res" where
  "evaluate_boolean prog env = eval_loop (2 * length prog + 1) env prog (eval_start prog)"

section \<open>Decoding inverts encoding\<close>

text \<open>The time field is compressed to ten bits; the compressed values fit.\<close>

lemma lossy_compress_nat:
  "unat (lossy_compress_ticks t) =
     (if unat t \<le> 255 then unat t
      else if unat t \<le> 2303 then (unat t - 255) div 8 + 255
      else (unat t - 2303) div 128 + 511)"
proof -
  have le: "(a \<le> b) = (unat a \<le> unat b)" for a b :: u16 by (simp add: word_le_nat_alt)
  have "unat t < 65536" using unsigned_less [of t, where ?'a = nat] by simp
  then show ?thesis
    by (auto simp: lossy_compress_ticks_def le unat_word_ariths unat_sub unat_div_distrib not_le)
qed

lemma lossy_compress_bound: "unat (lossy_compress_ticks t) < 1024"
  using unsigned_less [of t, where ?'a = nat] by (auto simp: lossy_compress_nat)

lemma lossy_decompress_nat:
  assumes "unat c < 1024"
  shows "unat (lossy_decompress_ticks c) =
     (if unat c \<le> 255 then unat c
      else if unat c \<le> 511 then (unat c - 255) * 8 + 255
      else ((unat c - 511) * 128 + 2303) mod 65536)"
proof -
  have le: "(a \<le> b) = (unat a \<le> unat b)" for a b :: u16 by (simp add: word_le_nat_alt)
  have a: "unat ((c - k) * m + d) = ((unat c - unat k) * unat m + unat d) mod 65536"
    if "unat k \<le> unat c" for k m d :: u16
    using that by (simp only: unat_word_ariths unat_sub le) (simp add: mod_simps)
  have "unat ((c - 255) * 8 + 255) = ((unat c - 255) * 8 + 255) mod 65536" if "255 < unat c"
    by (subst a) (use that in auto)
  moreover have "unat ((c - 511) * 128 + 2303) = ((unat c - 511) * 128 + 2303) mod 65536"
    if "511 < unat c"
    by (subst a) (use that in auto)
  ultimately show ?thesis using assms
    by (auto simp only: lossy_decompress_ticks_def le not_le if_split) auto
qed

text \<open>The time a \<open>key-timing\<close> check really compares with, and how far it may be off.\<close>

lemma lossy_roundtrip_nat:
  "unat (lossy_decompress_ticks (lossy_compress_ticks t)) =
     (if unat t \<le> 255 then unat t
      else if unat t \<le> 2303 then (unat t - 255) div 8 * 8 + 255
      else (unat t - 2303) div 128 * 128 + 2303)"
  using unsigned_less [of t, where ?'a = nat]
  by (subst lossy_decompress_nat [OF lossy_compress_bound]) (auto simp: lossy_compress_nat)
lemma new_bool_unat:
  assumes "new_bool op e = Inr w"
  shows "unat e \<le> 4095" "unat w = unat e + unat (op_to_u16 op)"
  using assms
  by (cases op; auto simp: new_bool_def assert_that_def switch_consts word_le_nat_alt u16_and_low
      unat_word_ariths split: if_splits)+

lemma nat_fields_4096:
  fixes e :: nat
  assumes "e \<le> 4095"
  shows "(e + 4096) div 4096 = 1" "(e + 8192) div 4096 = 2" "(e + 12288) div 4096 = 3"
    "(e + 4096) div 8192 = 0" "(e + 8192) div 8192 = 1" "(e + 12288) div 8192 = 1"
    "(e + 4096) mod 4096 = e" "(e + 8192) mod 4096 = e" "(e + 12288) mod 4096 = e"
proof -
  show "(e + 4096) div 4096 = 1" "(e + 8192) div 4096 = 2" "(e + 12288) div 4096 = 3"
    "(e + 4096) div 8192 = 0" "(e + 8192) div 8192 = 1" "(e + 12288) div 8192 = 1"
    by (rule div_nat_eqI; use assms in simp)+
  show "(e + 4096) mod 4096 = e" "(e + 8192) mod 4096 = e" "(e + 12288) mod 4096 = e"
    using assms mod_mult_self2 [of e 4096 1] mod_mult_self2 [of e 4096 2]
      mod_mult_self2 [of e 4096 3] by simp_all
qed

lemma decode_new_bool:
  assumes "new_bool op e = Inr w"
  shows "opcode_type_of w nx = Inr (OtBooleanOp op (unat e))"
proof -
  note b = new_bool_unat [OF assms]
  show ?thesis
    by (cases op; use b nat_fields_4096 [OF b(1)] in
        \<open>simp add: opcode_type_of_def operator_and_end_index_def switch_consts
        word_less_nat_alt word_le_nat_alt word_unat_eq_iff u16_and_low u16_and_high Let_def\<close>)
qed
lemma opcode_high_nibble:
  assumes "unat w = k + 4096 * q" and "k < 4096" and "8 \<le> q"
  shows "opcode_type_of w nx
       = Inr (OtHistoricalKeyCode (w AND 0xFFF) (ucast (drop_bit 12 (w AND 0x7000))))"
proof -
  have "unat w div 8192 = unat w div 4096 div 2" by (simp flip: div_mult2_eq)
  then have d: "unat w div 8192 = q div 2" using assms by (simp only: nat_field)
  have "4 \<le> q div 2" "q div 2 \<le> 7" using assms unsigned_less [of w, where ?'a = nat] by auto
  with d assms show ?thesis
    by (simp add: opcode_type_of_def switch_consts word_less_nat_alt word_le_nat_alt
        word_unat_eq_iff u16_and_high Let_def)
qed

lemma decode_new_key:
  assumes "new_key kc = Inr w" and "kc < KEY_MAX"
  shows "opcode_type_of w nx = Inr (OtKeyCode kc)"
proof -
  have "unat kc < 850" using assms(2) by (simp add: KEY_MAX_def word_less_nat_alt)
  then have "w = kc" using assms(1)
    by (intro word_eqI_unat) (auto simp: new_key_def assert_that_def switch_consts u16_and_low
        split: if_splits)
  with assms(2) show ?thesis by (simp add: opcode_type_of_def)
qed

lemma decode_new_key_history:
  assumes "new_key_history kc r = Inr w"
  shows "opcode_type_of w nx = Inr (OtHistoricalKeyCode kc r)"
proof -
  from assms have r: "unat r \<le> 7" and kc: "unat kc < 4096"
    and w: "w = (kc AND 0xFFF) OR (0x8000 OR push_bit 12 (ucast r))"
    by (auto simp: new_key_history_def assert_that_def switch_consts word_le_nat_alt or.assoc
        split: if_splits)
  have p: "unat (push_bit 12 (ucast r :: u16)) = unat r * 4096" using r by (simp add: unat_push_ucast)
  have "unat (0x8000 OR push_bit 12 (ucast r) :: u16) = unat r * 4096 + 0x8000"
    using u16_or_disjoint [where x = "push_bit 12 (ucast r)" and y = "0x8000" and n = 15] r p by (simp add: or.commute)
  then have uw: "unat w = unat kc + 4096 * (unat r + 8)"
    unfolding w using kc u16_or_disjoint [where x = "kc AND 0xFFF" and y = "0x8000 OR push_bit 12 (ucast r)" and n = 12]
    by (simp add: u16_and_low algebra_simps)
  have "unat w div 4096 = unat r + 8" "unat w mod 4096 = unat kc"
    unfolding uw using kc by (simp_all only: nat_field)
  then have "w AND 0xFFF = kc" "ucast (drop_bit 12 (w AND 0x7000)) = r"
    using r by (auto intro!: word_eqI_unat simp: u16_and_low unsigned_ucast_eq u16_and_mid
        u16_drop take_bit_eq_mod)
  then show ?thesis using opcode_high_nibble [OF uw kc] by simp
qed

lemma ticks_opcode_unat:
  fixes V :: u16
  assumes "unat V = 1024 * v" and "v = 16 \<or> v = 24" and "unat (n :: u8) \<le> 7"
    and "w = (V OR lossy_compress_ticks t) OR push_bit 10 (ucast n)"
  shows "unat w = unat (lossy_compress_ticks t) + 1024 * (v + unat n)"
proof -
  let ?c = "lossy_compress_ticks t"
  have p: "unat (push_bit 10 (ucast n :: u16)) = unat n * 1024"
    using assms(3) by (simp add: unat_push_ucast)
  have "2 ^ 13 dvd unat V" using assms(1,2) by auto
  then have "unat (push_bit 10 (ucast n) OR V) = unat n * 1024 + unat V"
    using u16_or_disjoint [where x = "push_bit 10 (ucast n)" and y = V and n = 13] p assms(3) by simp
  then have "unat (?c OR (push_bit 10 (ucast n) OR V)) = unat ?c + (unat n * 1024 + unat V)"
    using u16_or_disjoint [where x = ?c and y = "push_bit 10 (ucast n) OR V" and n = 10]
      lossy_compress_bound [of t] assms(1)
    by simp
  then show ?thesis by (simp add: assms or.assoc or.commute or.left_commute algebra_simps)
qed

lemma ticks_fields:
  assumes "unat w = c + 1024 * (v + unat (n :: u8))" and "c < 1024"
    and "v = 16 \<or> v = 24" and "unat n \<le> 7"
  shows "unat w div 8192 = v div 8" "unat w mod 1024 = c" "unat w div 1024 mod 8 = unat n"
proof -
  have a: "unat w div 1024 = v + unat n" "unat w mod 1024 = c"
    unfolding assms(1) using assms(2) by (simp_all only: nat_field)
  then show "unat w mod 1024 = c" by simp
  have "unat w div 8192 = unat w div 1024 div 8" by (simp flip: div_mult2_eq)
  then show "unat w div 8192 = v div 8" using a assms(3,4) by auto
  show "unat w div 1024 mod 8 = unat n" unfolding a(1)
    using assms(3,4) mod_mult_self2 [of "unat n" 8 2] mod_mult_self2 [of "unat n" 8 3]
    by (auto simp: add.commute)
qed

lemma decode_new_ticks_since_lt:
  assumes "new_ticks_since_lt n t = Inr w"
  shows "opcode_type_of w nx
       = Inr (OtTicksSinceLessThan n (lossy_decompress_ticks (lossy_compress_ticks t)))"
proof -
  from assms have n: "unat n \<le> 7"
    and w: "w = (0x6000 OR lossy_compress_ticks t) OR push_bit 10 (ucast n)"
    by (auto simp: new_ticks_since_lt_def assert_that_def switch_consts word_le_nat_alt split: if_splits)
  have u: "unat w = unat (lossy_compress_ticks t) + 1024 * (24 + unat n)"
    by (rule ticks_opcode_unat [OF _ _ n w]) auto
  note f = ticks_fields [OF u lossy_compress_bound disjI2 n, OF refl]
  have "ucast (drop_bit 10 (w AND 0x1C00)) = n" "w AND 0x3FF = lossy_compress_ticks t"
    using f n by (auto intro!: word_eqI_unat simp: u16_and_low unsigned_ucast_eq u16_and_mid
        u16_drop take_bit_eq_mod)
  moreover have "w AND 0xE000 = 0x6000" using f by (intro word_eqI_unat) (simp add: u16_and_high)
  ultimately show ?thesis using u
    by (simp add: opcode_type_of_def switch_consts word_less_nat_alt word_le_nat_alt)
qed

lemma decode_new_ticks_since_gt:
  assumes "new_ticks_since_gt n t = Inr w"
  shows "opcode_type_of w nx
       = Inr (OtTicksSinceGreaterThan n (lossy_decompress_ticks (lossy_compress_ticks t)))"
proof -
  from assms have n: "unat n \<le> 7"
    and w: "w = (0x4000 OR lossy_compress_ticks t) OR push_bit 10 (ucast n)"
    by (auto simp: new_ticks_since_gt_def assert_that_def switch_consts word_le_nat_alt split: if_splits)
  have u: "unat w = unat (lossy_compress_ticks t) + 1024 * (16 + unat n)"
    by (rule ticks_opcode_unat [OF _ _ n w]) auto
  note f = ticks_fields [OF u lossy_compress_bound disjI1 n, OF refl]
  have "ucast (drop_bit 10 (w AND 0x1C00)) = n" "w AND 0x3FF = lossy_compress_ticks t"
    using f n by (auto intro!: word_eqI_unat simp: u16_and_low unsigned_ucast_eq u16_and_mid
        u16_drop take_bit_eq_mod)
  moreover have "w AND 0xE000 = 0x4000" using f by (intro word_eqI_unat) (simp add: u16_and_high)
  ultimately show ?thesis using u
    by (simp add: opcode_type_of_def switch_consts word_less_nat_alt word_le_nat_alt)
qed
lemma two_word_is_reached:
  "op \<in> {INPUT_VAL, HISTORICAL_INPUT_VAL, LAYER_VAL, BASE_LAYER_VAL, HISTORICAL_DEVICE_VAL,
          CALLBACK_INDEX_VAL} \<Longrightarrow> opcode_type_of op (Some op2) = two_word_opcode op op2"
  by (auto simp: opcode_type_of_def switch_consts word_less_nat_alt word_le_nat_alt)

lemma coord_fields:
  fixes row :: u8 and col :: u16
  assumes "unat row < 4" and "unat col < 1024" and "unat (r :: u8) < 8"
    and "w = (push_bit 14 (ucast (row AND 3)) + push_bit 11 (ucast r)) + col"
  shows "unat w = unat col + 2048 * (8 * unat row + unat r)"
    and "ucast (drop_bit 14 w AND 3) = row" and "w AND 0x3FF = col"
    and "(ucast (drop_bit 11 w) :: u8) AND 7 = r"
proof -
  have row: "row AND 3 = row"
  proof -
    have "row AND mask 2 = row" using assms(1)
      by (simp add: take_bit_eq_mask [symmetric] take_bit_word_eq_self word_less_nat_alt)
         (simp add: word_unat_eq_iff unsigned_take_bit_eq take_bit_nat_eq_self)
    then show ?thesis by (simp add: mask_eq_exp_minus_1)
  qed
  have p: "unat (push_bit 14 (ucast row :: u16)) = unat row * 16384"
    "unat (push_bit 11 (ucast r :: u16)) = unat r * 2048"
    using assms by (simp_all add: unat_push_ucast)
  show u: "unat w = unat col + 2048 * (8 * unat row + unat r)"
    unfolding assms(4) row using assms(1-3) by (simp add: unat_word_ariths p)
  have d: "unat w div 2048 = 8 * unat row + unat r" "unat w mod 2048 = unat col"
    unfolding u using assms(2) nat_field [of "unat col" 2048 "8 * unat row + unat r"] by simp_all
  have "unat w div 16384 = unat w div 2048 div 8" by (simp flip: div_mult2_eq)
  then have "unat w div 16384 = unat row" unfolding d using assms(3) by simp
  then show "ucast (drop_bit 14 w AND 3) = row"
    using assms(1) by (auto intro!: word_eqI_unat simp: u16_and_low unsigned_ucast_eq u16_drop
        take_bit_eq_mod)
  have "unat w mod 1024 = unat w mod 2048 mod 1024" by (simp add: mod_mod_cancel)
  then show "w AND 0x3FF = col" using d assms(2)
    by (auto intro!: word_eqI_unat simp: u16_and_low)
  have "unat ((ucast (drop_bit 11 w) :: u8) AND mask 3) = unat r"
    using d assms(1,3)
    by (simp add: take_bit_eq_mask [symmetric] unsigned_take_bit_eq unsigned_ucast_eq u16_drop)
       (simp add: take_bit_eq_mod)
  then show "(ucast (drop_bit 11 w) :: u8) AND 7 = r"
    by (intro word_eqI_unat) (simp add: mask_eq_exp_minus_1)
qed

lemma decode_new_active_input:
  assumes "new_active_input c = Inr (a, b)"
  shows "opcode_type_of a (Some b) = Inr (OtInput c)"
proof -
  from assms have c: "unat (fst c) < 4" "unat (snd c) < 1024"
    and ab: "a = INPUT_VAL" "b = push_bit 14 (ucast (fst c AND 3)) + snd c"
    by (auto simp: new_active_input_def assert_that_def word_less_nat_alt split: if_splits)
  note f = coord_fields [of "fst c" "snd c" 0 b, OF c]
  show ?thesis using f ab by (simp add: two_word_is_reached) (simp add: two_word_opcode_def)
qed

lemma decode_new_historical_input:
  assumes "new_historical_input c r = Inr (a, b)"
  shows "opcode_type_of a (Some b) = Inr (OtHistoricalInput c r)"
proof -
  from assms have c: "unat (fst c) < 4" "unat (snd c) < 1024" "unat r < 8"
    and ab: "a = HISTORICAL_INPUT_VAL"
      "b = (push_bit 14 (ucast (fst c AND 3)) + push_bit 11 (ucast r)) + snd c"
    by (auto simp: new_historical_input_def assert_that_def word_less_nat_alt split: if_splits)
  note f = coord_fields [OF c ab(2)]
  show ?thesis using f ab(1)
    by (simp add: two_word_is_reached) (simp add: two_word_opcode_def switch_consts)
qed

lemma decode_new_layer:
  "new_layer l = Inr (a, b) \<Longrightarrow> opcode_type_of a (Some b) = Inr (OtLayer l)"
  "new_base_layer l = Inr (a, b) \<Longrightarrow> opcode_type_of a (Some b) = Inr (OtBaseLayer l)"
  "new_callback_index l = (a, b) \<Longrightarrow> opcode_type_of a (Some b) = Inr (OtCallbackIndex l)"
  by (auto simp: new_layer_def new_base_layer_def new_callback_index_def assert_that_def
      two_word_is_reached two_word_opcode_def switch_consts split: if_splits)

lemma decode_new_device_history:
  assumes "new_device_history d r = Inr (a, b)" and "d \<noteq> 0"
  shows "opcode_type_of a (Some b) = Inr (OtHistoricalDevice d r)"
proof -
  from assms have r: "unat r \<le> 7" and ab: "a = HISTORICAL_DEVICE_VAL"
    "b = ucast d OR push_bit 8 (ucast r)"
    by (auto simp: new_device_history_def assert_that_def switch_consts word_le_nat_alt split: if_splits)
  have "unat (push_bit 8 (ucast r :: u16)) = unat r * 256" using r by (simp add: unat_push_ucast)
  moreover have d: "unat (ucast d :: u16) = unat d" "unat d < 256"
    using unsigned_less [of d, where ?'a = nat]
    by (simp_all add: unsigned_ucast_eq take_bit_nat_eq_self)
  ultimately have b: "unat b = unat d + 256 * unat r"
    using u16_or_disjoint [where x = "ucast d" and y = "push_bit 8 (ucast r)" and n = 8] ab(2)
    by simp
  then have f: "unat b div 256 = unat r" "unat b mod 256 = unat d"
    using d(2) by (simp_all only: nat_field)
  have "ucast (b AND 0xFF) = d" "ucast (drop_bit 8 b AND 7) = r"
    using f r by (auto intro!: word_eqI_unat simp: u16_and_low unsigned_ucast_eq u16_drop
        take_bit_eq_mod)
  then show ?thesis using ab(1) assms(2)
    by (simp add: two_word_is_reached) (simp add: two_word_opcode_def switch_consts)
qed

section \<open>Iterating over the cases\<close>

text \<open>The actions the iterator \<open>SwitchActions\<close> yields, in order.\<close>

fun switch_actions ::
  "(opcode list \<times> 't action \<times> break_or_fallthrough) list \<Rightarrow> switch_env \<Rightarrow> 't action list res" where
  "switch_actions [] env = Inr []"
| "switch_actions ((prog, ac, bf) # cases) env =
     and_then (evaluate_boolean prog env) (\<lambda>b.
       if b then
         (case bf of
            Break \<Rightarrow> Inr [ac]
          | Fallthrough \<Rightarrow> and_then (switch_actions cases env) (\<lambda>acs. Inr (ac # acs)))
       else switch_actions cases env)"

end
