(* ===== verification/SwitchSem.thy ===== *)
theory SwitchSem
  imports Switch
begin

text \<open>
  The meaning of a switch condition and its compilation. \<open>bexpr\<close> is the tree a condition is
  written as, \<open>sem\<close> its value, \<open>emit\<close> the code generation of
  \<open>parse_switch_case_bool\<close> in \<open>parser/src/cfg/switch.rs\<close>: the operator opcode is pushed as a
  placeholder, the operands follow, and the placeholder is patched with the end index. The
  main result is that the evaluator of theory \<open>Switch\<close>, run on the code, computes \<open>sem\<close>.
\<close>

section \<open>Conditions and their meaning\<close>

datatype check =
    ChkKey keycode
  | ChkKeyHistory keycode u8
  | ChkTicksLt u8 u16
  | ChkTicksGt u8 u16
  | ChkInput kcoord
  | ChkInputHistory kcoord u8
  | ChkLayer u16
  | ChkBaseLayer u16
  | ChkDevice u8 u8
  | ChkCallback u16

datatype bexpr = BLeaf check | BOp bool_op "bexpr list"

text \<open>The time stored in an opcode is the compressed one.\<close>

definition ticks_threshold :: "u16 \<Rightarrow> u16" where
  "ticks_threshold t = lossy_decompress_ticks (lossy_compress_ticks t)"

fun opcode_of_check :: "check \<Rightarrow> opcode_type" where
  "opcode_of_check (ChkKey kc) = OtKeyCode kc"
| "opcode_of_check (ChkKeyHistory kc r) = OtHistoricalKeyCode kc r"
| "opcode_of_check (ChkTicksLt n t) = OtTicksSinceLessThan n (ticks_threshold t)"
| "opcode_of_check (ChkTicksGt n t) = OtTicksSinceGreaterThan n (ticks_threshold t)"
| "opcode_of_check (ChkInput c) = OtInput c"
| "opcode_of_check (ChkInputHistory c r) = OtHistoricalInput c r"
| "opcode_of_check (ChkLayer l) = OtLayer l"
| "opcode_of_check (ChkBaseLayer l) = OtBaseLayer l"
| "opcode_of_check (ChkDevice d r) = OtHistoricalDevice d r"
| "opcode_of_check (ChkCallback i) = OtCallbackIndex i"

text \<open>The value of a single check, in the words of the configuration guide.\<close>

fun sem_check :: "switch_env \<Rightarrow> check \<Rightarrow> bool" where
  "sem_check env (ChkKey kc) = (kc \<in> set (se_keys env))"
| "sem_check env (ChkKeyHistory kc r) =
     (unat r < length (se_hist_keys env) \<and> he_event (se_hist_keys env ! unat r) = kc)"
| "sem_check env (ChkTicksLt n t) =
     (unat n < length (se_hist_keys env)
      \<and> he_ticks (se_hist_keys env ! unat n) \<le> ticks_threshold t)"
| "sem_check env (ChkTicksGt n t) =
     (unat n < length (se_hist_keys env)
      \<and> ticks_threshold t < he_ticks (se_hist_keys env ! unat n))"
| "sem_check env (ChkInput c) = (c \<in> set (se_positions env))"
| "sem_check env (ChkInputHistory c r) =
     (unat r < length (se_hist_inputs env) \<and> he_event (se_hist_inputs env ! unat r) = c)"
| "sem_check env (ChkLayer l) = (se_layers env \<noteq> [] \<and> hd (se_layers env) = l)"
| "sem_check env (ChkBaseLayer l) = (se_default_layer env = l)"
| "sem_check env (ChkDevice d r) =
     (unat r < length (se_devices env) \<and> se_devices env ! unat r = Some d)"
| "sem_check env (ChkCallback i) = se_callbacks env ! unat i"

text \<open>\<open>not\<close> with several operands means that none of them holds.\<close>

fun combine :: "bool_op \<Rightarrow> bool list \<Rightarrow> bool" where
  "combine BOr vs = list_ex id vs"
| "combine BAnd vs = list_all id vs"
| "combine BNot vs = (\<not> list_ex id vs)"

fun sem :: "switch_env \<Rightarrow> bexpr \<Rightarrow> bool" where
  "sem env (BLeaf c) = sem_check env c"
| "sem env (BOp op es) = combine op (map (sem env) es)"

text \<open>The top level of a case: an empty condition holds, otherwise its parts are \<open>or\<close>ed.\<close>

definition sem_top :: "switch_env \<Rightarrow> bexpr list \<Rightarrow> bool" where
  "sem_top env es = (es = [] \<or> combine BOr (map (sem env) es))"

text \<open>Side conditions: the callbacks asked for exist, key codes are below \<open>KEY_MAX\<close>, a device
  number is a \<open>NonZeroU8\<close>, and no operator is without operands.\<close>

fun check_ok :: "switch_env \<Rightarrow> check \<Rightarrow> bool" where
  "check_ok env (ChkCallback i) = (unat i < length (se_callbacks env))"
| "check_ok env (ChkKey kc) = (kc < KEY_MAX)"
| "check_ok env (ChkDevice d r) = (d \<noteq> 0)"
| "check_ok env _ = True"

fun bexpr_ok :: "switch_env \<Rightarrow> bexpr \<Rightarrow> bool" where
  "bexpr_ok env (BLeaf c) = check_ok env c"
| "bexpr_ok env (BOp op es) = (es \<noteq> [] \<and> list_all (bexpr_ok env) es)"

fun bdepth :: "bexpr \<Rightarrow> nat" where
  "bdepth (BLeaf c) = 0"
| "bdepth (BOp op es) = Suc (fold max (map bdepth es) 0)"

section \<open>Code that represents a condition\<close>

fun check_width :: "check \<Rightarrow> nat" where
  "check_width (ChkKey _) = 1"
| "check_width (ChkKeyHistory _ _) = 1"
| "check_width (ChkTicksLt _ _) = 1"
| "check_width (ChkTicksGt _ _) = 1"
| "check_width _ = 2"

lemma leaf_value_width:
  "check_ok env c \<Longrightarrow>
     leaf_value env (opcode_of_check c) = Inr (sem_check env c, check_width c)"
  by (cases c) (auto simp: nth_opt_def split: list.splits option.splits)

definition opcode_at :: "opcode list \<Rightarrow> nat \<Rightarrow> opcode_type res" where
  "opcode_at prog i = opcode_type_of (prog ! i) (nth_opt prog (Suc i))"

text \<open>\<open>coded prog i e j\<close>: the opcodes of \<open>prog\<close> from \<open>i\<close> to before \<open>j\<close> represent \<open>e\<close>.\<close>

fun coded :: "opcode list \<Rightarrow> nat \<Rightarrow> bexpr \<Rightarrow> nat \<Rightarrow> bool"
and codeds :: "opcode list \<Rightarrow> nat \<Rightarrow> bexpr list \<Rightarrow> nat \<Rightarrow> bool" where
  "coded prog i (BLeaf c) j \<longleftrightarrow>
     j = i + check_width c \<and> j \<le> length prog \<and> opcode_at prog i = Inr (opcode_of_check c)"
| "coded prog i (BOp op es) j \<longleftrightarrow>
     j \<le> length prog \<and> opcode_at prog i = Inr (OtBooleanOp op j) \<and> codeds prog (Suc i) es j"
| "codeds prog i [] j \<longleftrightarrow> j = i"
| "codeds prog i (e # es) j \<longleftrightarrow> (\<exists>k \<le> j. coded prog i e k \<and> codeds prog k es j)"

lemma check_width_pos: "0 < check_width c"
  by (cases c) auto

lemma coded_less:
  "coded prog i e j \<Longrightarrow> i < j"
  "codeds prog i es j \<Longrightarrow> i \<le> j"
  by (induction prog i e j and prog i es j rule: coded_codeds.induct)
    (auto simp: check_width_pos dest: Suc_le_lessD, meson less_imp_le order_trans)

section \<open>Running the code\<close>

abbreviation est :: "bool \<Rightarrow> nat \<Rightarrow> nat \<Rightarrow> bool_op \<Rightarrow> (bool_op \<times> nat) list \<Rightarrow> eval_state" where
  "est r i j op stk \<equiv>
     \<lparr>ev_ret = r, ev_index = i, ev_end = j, ev_op = op, ev_stack = stk\<rparr>"

definition shortcut :: "bool_op \<Rightarrow> bool \<Rightarrow> bool" where
  "shortcut op ret \<longleftrightarrow> (ret \<and> op = BOr) \<or> (\<not> ret \<and> (op = BAnd \<or> op = BNot))"

text \<open>
  \<open>reaches env prog b s s'\<close>: from \<open>s\<close> the loop arrives at \<open>s'\<close> within \<open>b\<close> iterations,
  whatever the fuel left.
\<close>

definition reaches :: "switch_env \<Rightarrow> opcode list \<Rightarrow> nat \<Rightarrow> eval_state \<Rightarrow> eval_state \<Rightarrow> bool" where
  "reaches env prog b s s' \<longleftrightarrow>
     (\<exists>k \<le> b. \<forall>f. eval_loop (Suc f + k) env prog s = eval_loop (Suc f) env prog s')"

lemma reaches_refl: "reaches env prog b s s"
  unfolding reaches_def by (rule exI [of _ 0]) simp

lemma reaches_trans:
  assumes "reaches env prog b s s'" and "reaches env prog b' s' s''"
  shows "reaches env prog (b + b') s s''"
proof -
  obtain k k' where k: "k \<le> b" "\<And>f. eval_loop (Suc f + k) env prog s = eval_loop (Suc f) env prog s'"
    and k': "k' \<le> b'" "\<And>f. eval_loop (Suc f + k') env prog s' = eval_loop (Suc f) env prog s''"
    using assms unfolding reaches_def by blast
  have "eval_loop (Suc f + (k + k')) env prog s = eval_loop (Suc f) env prog s''" for f
    using k(2) [of "f + k'"] k'(2) [of f] by (simp add: add.assoc add.commute add.left_commute)
  then show ?thesis unfolding reaches_def using k(1) k'(1) by (intro exI [of _ "k + k'"]) simp
qed

lemma reaches_mono: "reaches env prog b s s' \<Longrightarrow> b \<le> b' \<Longrightarrow> reaches env prog b' s s'"
  unfolding reaches_def by (meson le_trans)

lemma reaches_step:
  assumes "ev_index s < length prog" and "eval_iter env prog s = Inr (Again s')"
  shows "reaches env prog 1 s s'"
  unfolding reaches_def by (rule exI [of _ 1]) (use assms in simp)

lemma reaches_cong:
  assumes "\<And>f. eval_loop (Suc f) env prog s = eval_loop (Suc f) env prog s'"
  shows "reaches env prog b s s'"
  unfolding reaches_def by (rule exI [of _ 0]) (use assms in simp)

text \<open>A leaf takes one iteration.\<close>

lemma opcode_of_check_leaf: "opcode_of_check c \<noteq> OtBooleanOp op k"
  by (cases c) auto

lemma eval_opcode_leaf:
  assumes "opcode_type_of (prog ! ev_index s) (nth_opt prog (Suc (ev_index s))) = Inr ot"
    and "\<And>op k. ot \<noteq> OtBooleanOp op k"
  shows "eval_opcode env prog s =
    and_then (leaf_value env ot) (\<lambda>(v, width).
      let ret = not_if (ev_op s) v in
      if (ret \<and> ev_op s = BOr) \<or> (\<not> ret \<and> (ev_op s = BAnd \<or> ev_op s = BNot))
      then Inr (Again (s\<lparr>ev_ret := ret, ev_index := ev_end s\<rparr>))
      else Inr (Again (s\<lparr>ev_ret := ret, ev_index := ev_index s + width\<rparr>)))"
  by (cases ot; use assms in \<open>auto simp: eval_opcode_def\<close>)

lemma leaf_runs:
  assumes "coded prog i (BLeaf c) j" and "check_ok env c" and "i < en"
    and "r = not_if op (sem_check env c)"
  shows "reaches env prog 1 (est r0 i en op stk) (est r (if shortcut op r then en else j) en op stk)"
proof -
  have at: "opcode_type_of (prog ! ev_index (est r0 i en op stk))
        (nth_opt prog (Suc (ev_index (est r0 i en op stk)))) = Inr (opcode_of_check c)"
    and j: "j = i + check_width c" "j \<le> length prog"
    using assms(1) by (simp_all add: opcode_at_def)
  have "i < length prog" using j check_width_pos [of c] by simp
  moreover have "eval_iter env prog (est r0 i en op stk)
      = Inr (Again (est r (if shortcut op r then en else j) en op stk))"
    using assms(2-4) j(1) eval_opcode_leaf [OF at opcode_of_check_leaf, of env]
    by (cases op) (auto simp: eval_iter_def leaf_value_width shortcut_def Let_def)
  ultimately show ?thesis by (intro reaches_step) auto
qed

text \<open>Leaving an operator: its entry is popped and its value handed to the outer operator.\<close>

lemma leave_runs:
  assumes "i \<le> en" and "en \<le> length prog"
  shows "\<exists>r'. (shortcut op (not_if op r) \<or> i = en \<longrightarrow> r' = not_if op r)
    \<and> reaches env prog 1 (est r i i o' (stk @ [(op, en)]))
        (est r' (if shortcut op (not_if op r) then en else i) en op stk)"
proof (cases "i < length prog")
  case True
  let ?pop = "(r \<and> (op = BOr \<or> op = BNot)) \<or> (\<not> r \<and> op = BAnd)"
  have sc: "shortcut op (not_if op r) = ?pop" by (cases op) (auto simp: shortcut_def not_if_def)
  show ?thesis
  proof (cases "?pop \<or> en \<le> i")
    case pop: True
    have "eval_iter env prog (est r i i o' (stk @ [(op, en)])) = Inr (Again (est (not_if op r) en en op stk))"
      using pop by (auto simp: eval_iter_def)
    then have "reaches env prog 1 (est r i i o' (stk @ [(op, en)])) (est (not_if op r) en en op stk)"
      using True by (intro reaches_step) auto
    then show ?thesis using pop assms(1) sc by (intro exI [of _ "not_if op r"]) auto
  next
    case False
    have "eval_iter env prog (est r i i o' (stk @ [(op, en)])) = eval_iter env prog (est r i en op stk)"
      using False by (auto simp: eval_iter_def)
    then have "reaches env prog 1 (est r i i o' (stk @ [(op, en)])) (est r i en op stk)"
      using True by (intro reaches_cong) simp
    then show ?thesis using False sc by (intro exI [of _ r]) auto
  qed
next
  case False
  then have "i = en" "en = length prog" using assms by auto
  then have "reaches env prog 1 (est r i i o' (stk @ [(op, en)])) (est (not_if op r) en en op stk)"
    by (intro reaches_cong) (simp add: pop_rest_def)
  then show ?thesis using \<open>i = en\<close> by (intro exI [of _ "not_if op r"]) auto
qed

lemma enter_runs:
  assumes "coded prog i (BOp op' es) j" and "i < en" and "length stk < MAX_BOOL_EXPR_DEPTH"
  shows "reaches env prog 1 (est r i en op stk) (est r (Suc i) j op' (stk @ [(op, en)]))"
proof -
  have "i < length prog" using coded_less(1) [OF assms(1)] assms(1) by simp
  then show ?thesis
    using assms by (intro reaches_step) (simp_all add: eval_iter_def eval_opcode_def opcode_at_def)
qed

lemma bdepth_le: "e \<in> set es \<Longrightarrow> Suc (bdepth e) \<le> bdepth (BOp op es)"
proof -
  have "fold max (map bdepth es) n \<ge> n" for n and es :: "bexpr list"
    by (induction es arbitrary: n) (auto intro: order_trans [OF max.cobounded2])
  moreover have "e \<in> set es \<Longrightarrow> bdepth e \<le> fold max (map bdepth es) n" for n and es :: "bexpr list"
    using calculation
    by (induction es arbitrary: n) (auto intro: order_trans [OF max.cobounded1])
  ultimately show "e \<in> set es \<Longrightarrow> ?thesis" by simp
qed

text \<open>
  The main lemma, for an expression inside an operator \<open>op\<close> that ends at \<open>en\<close>, and for the
  operands of an operator. The value register is only fixed when it is looked at again: after
  a jump, or at the end of the enclosing operator.
\<close>

lemma code_runs:
  shows "coded prog i e j \<Longrightarrow> bexpr_ok env e \<Longrightarrow> j \<le> en \<Longrightarrow> en \<le> length prog \<Longrightarrow>
      length stk + bdepth e \<le> MAX_BOOL_EXPR_DEPTH \<Longrightarrow>
      \<exists>r'. (shortcut op (not_if op (sem env e)) \<or> j = en \<longrightarrow> r' = not_if op (sem env e))
        \<and> reaches env prog (2 * (j - i)) (est r i en op stk)
            (est r' (if shortcut op (not_if op (sem env e)) then en else j) en op stk)"
    and "codeds prog i es j \<Longrightarrow> list_all (bexpr_ok env) es \<Longrightarrow> es \<noteq> [] \<Longrightarrow> j \<le> length prog \<Longrightarrow>
      (\<forall>e \<in> set es. length stk + bdepth e \<le> MAX_BOOL_EXPR_DEPTH) \<Longrightarrow>
      reaches env prog (2 * (j - i)) (est r i j op stk)
        (est (combine op (map (sem env) es)) j j op stk)"
proof (induction prog i e j and prog i es j arbitrary: r en op stk and r op stk rule: coded_codeds.induct)
  case (1 prog i c j)
  then show ?case
    using leaf_runs [OF 1(1), of env en "not_if op (sem_check env c)" op r stk] coded_less(1) [OF 1(1)]
    by (intro exI [of _ "not_if op (sem_check env c)"]) (auto intro: reaches_mono)
next
  case (2 prog i op' es j)
  have ij: "i < j" using coded_less(1) [OF 2(2)] .
  let ?v = "combine op' (map (sem env) es)"
  have d: "\<forall>e \<in> set es. length (stk @ [(op, en)]) + bdepth e \<le> MAX_BOOL_EXPR_DEPTH"
    using 2(6) bdepth_le [of _ es op'] by fastforce
  have "reaches env prog 1 (est r i en op stk) (est r (Suc i) j op' (stk @ [(op, en)]))"
    using 2(2,4,6) ij by (intro enter_runs) auto
  moreover have "reaches env prog (2 * (j - Suc i)) (est r (Suc i) j op' (stk @ [(op, en)]))
      (est ?v j j op' (stk @ [(op, en)]))"
    using 2(2,3) d by (intro 2(1)) auto
  ultimately have a: "reaches env prog (1 + 2 * (j - Suc i)) (est r i en op stk)
      (est ?v j j op' (stk @ [(op, en)]))"
    by (rule reaches_trans)
  obtain r' where r': "shortcut op (not_if op ?v) \<or> j = en \<longrightarrow> r' = not_if op ?v"
    "reaches env prog 1 (est ?v j j op' (stk @ [(op, en)]))
        (est r' (if shortcut op (not_if op ?v) then en else j) en op stk)"
    using leave_runs [OF 2(4,5), of op ?v env op' stk] by blast
  have "reaches env prog (1 + 2 * (j - Suc i) + 1) (est r i en op stk)
      (est r' (if shortcut op (not_if op ?v) then en else j) en op stk)"
    by (rule reaches_trans [OF a r'(2)])
  then show ?case using r'(1) ij by (intro exI [of _ r']) (auto elim!: reaches_mono)
next
  case (3 prog i j)
  then show ?case by simp
next
  case (4 prog i e es j)
  obtain k where k: "k \<le> j" "coded prog i e k" "codeds prog k es j" using 4(3) by auto
  let ?v = "not_if op (sem env e)"
  have ik: "i < k" using coded_less(1) [OF k(2)] .
  obtain r' where r': "shortcut op ?v \<or> k = j \<longrightarrow> r' = ?v"
    "reaches env prog (2 * (k - i)) (est r i j op stk)
       (est r' (if shortcut op ?v then j else k) j op stk)"
    using 4(1) [OF k(2), of j stk op r] 4(4,6,7) k(1) by auto
  show ?case
  proof (cases "shortcut op ?v")
    case True
    then have "combine op (map (sem env) (e # es)) = ?v"
      by (cases op) (auto simp: shortcut_def not_if_def)
    then show ?thesis using True r' ik k(1) by (auto elim!: reaches_mono)
  next
    case False
    show ?thesis
    proof (cases "es = []")
      case nil: True
      then have "k = j" using k(3) by simp
      moreover have "combine op (map (sem env) (e # es)) = ?v"
        using nil by (cases op) (auto simp: not_if_def)
      ultimately show ?thesis using False r' by auto
    next
      case ne: False
      have "reaches env prog (2 * (j - k)) (est r' k j op stk)
          (est (combine op (map (sem env) es)) j j op stk)"
        using 4(4,6,7) ne by (intro 4(2) [OF k(3)]) auto
      moreover have "combine op (map (sem env) (e # es)) = combine op (map (sem env) es)"
        using False by (cases op) (auto simp: shortcut_def not_if_def)
      ultimately show ?thesis using r'(2) False ik k(1)
        by (auto dest: reaches_trans elim!: reaches_mono)
    qed
  qed
qed

theorem evaluate_coded:
  assumes "codeds prog 0 es (length prog)" and "list_all (bexpr_ok env) es"
    and "\<forall>e \<in> set es. bdepth e \<le> MAX_BOOL_EXPR_DEPTH"
  shows "evaluate_boolean prog env = Inr (sem_top env es)"
proof (cases "es = []")
  case True
  then show ?thesis using assms(1)
    by (simp add: evaluate_boolean_def eval_start_def sem_top_def pop_rest_def)
next
  case False
  let ?n = "length prog" and ?v = "combine BOr (map (sem env) es)"
  obtain k where k: "k \<le> 2 * ?n"
    "\<And>f. eval_loop (Suc f + k) env prog (est True 0 ?n BOr [])
        = eval_loop (Suc f) env prog (est ?v ?n ?n BOr [])"
    using code_runs(2) [OF assms(1,2) False, of "[]" True BOr] assms(3)
    unfolding reaches_def by auto
  have "Suc (2 * ?n - k) + k = 2 * ?n + 1" using k(1) by simp
  with k(2) [of "2 * ?n - k"] show ?thesis
    using False by (simp add: evaluate_boolean_def eval_start_def sem_top_def pop_rest_def)
qed

section \<open>Code generation\<close>

text \<open>The two ways code generation fails: an error reported to the user, or a failed
  assertion in the constructor of an opcode.\<close>

datatype emit_fault = TooLong | TooDeep | EmitPanic

definition or_panic :: "'a res \<Rightarrow> emit_fault + 'a" where
  "or_panic r = (case r of Inl _ \<Rightarrow> Inl EmitPanic | Inr x \<Rightarrow> Inr x)"

lemma or_panic_Inr [simp]: "or_panic r = Inr x \<longleftrightarrow> r = Inr x"
  by (simp add: or_panic_def split: sum.splits)

definition one_word :: "opcode res \<Rightarrow> opcode list res" where
  "one_word r = and_then r (\<lambda>w. Inr [w])"

definition two_words :: "(opcode \<times> opcode) res \<Rightarrow> opcode list res" where
  "two_words r = and_then r (\<lambda>(a, b). Inr [a, b])"

fun emit_check :: "check \<Rightarrow> opcode list res" where
  "emit_check (ChkKey kc) = one_word (new_key kc)"
| "emit_check (ChkKeyHistory kc r) = one_word (new_key_history kc r)"
| "emit_check (ChkTicksLt n t) = one_word (new_ticks_since_lt n t)"
| "emit_check (ChkTicksGt n t) = one_word (new_ticks_since_gt n t)"
| "emit_check (ChkInput c) = two_words (new_active_input c)"
| "emit_check (ChkInputHistory c r) = two_words (new_historical_input c r)"
| "emit_check (ChkLayer l) = two_words (new_layer l)"
| "emit_check (ChkBaseLayer l) = two_words (new_base_layer l)"
| "emit_check (ChkDevice d r) = two_words (new_device_history d r)"
| "emit_check (ChkCallback i) = two_words (Inr (new_callback_index i))"

definition emit_guard :: "nat \<Rightarrow> opcode list \<Rightarrow> emit_fault + unit" where
  "emit_guard depth ops =
     (if unat MAX_OPCODE_LEN < length ops then Inl TooLong
      else if MAX_BOOL_EXPR_DEPTH < depth then Inl TooDeep else Inr ())"

text \<open>Depth starts at 1. The operator is first pushed with its own index as a placeholder.\<close>

fun emit :: "nat \<Rightarrow> bexpr \<Rightarrow> opcode list \<Rightarrow> emit_fault + opcode list"
and emits :: "nat \<Rightarrow> bexpr list \<Rightarrow> opcode list \<Rightarrow> emit_fault + opcode list" where
  "emit depth (BLeaf c) ops =
     and_then (emit_guard depth ops) (\<lambda>_.
     and_then (or_panic (emit_check c)) (\<lambda>ws. Inr (ops @ ws)))"
| "emit depth (BOp op es) ops =
     and_then (emit_guard depth ops) (\<lambda>_.
     and_then (or_panic (new_bool op (of_nat (length ops)))) (\<lambda>placeholder.
     and_then (emits (Suc depth) es (ops @ [placeholder])) (\<lambda>ops'.
       if unat MAX_OPCODE_LEN < length ops' then Inl TooLong
       else and_then (or_panic (new_bool op (of_nat (length ops')))) (\<lambda>w.
         Inr (ops'[length ops := w])))))"
| "emits depth [] ops = Inr ops"
| "emits depth (e # es) ops = and_then (emit depth e ops) (emits depth es)"

lemma emit_check_width: "emit_check c = Inr ws \<Longrightarrow> length ws = check_width c"
  by (cases c) (auto simp: one_word_def two_words_def new_callback_index_def)

lemma emit_check_decode:
  assumes "emit_check c = Inr ws" and "check_ok env c"
  shows "opcode_at (ops @ ws) (length ops) = Inr (opcode_of_check c)"
proof (cases c)
  case (ChkCallback i)
  obtain a b where ab: "new_callback_index i = (a, b)" by fastforce
  then show ?thesis using assms ChkCallback decode_new_layer(3) [OF ab]
    by (auto simp: opcode_at_def two_words_def nth_opt_def nth_append)
qed (use assms in \<open>auto simp: opcode_at_def one_word_def two_words_def nth_opt_def nth_append
      ticks_threshold_def decode_new_key decode_new_key_history decode_new_ticks_since_lt
      decode_new_ticks_since_gt decode_new_active_input decode_new_historical_input
      decode_new_layer(1,2) decode_new_device_history\<close>)

text \<open>Only the opcodes from \<open>i\<close> to \<open>j\<close> matter for \<open>coded\<close>.\<close>

definition is_two_word :: "opcode_type \<Rightarrow> bool" where
  "is_two_word ot = (case ot of
     OtInput _ \<Rightarrow> True | OtHistoricalInput _ _ \<Rightarrow> True | OtLayer _ \<Rightarrow> True | OtBaseLayer _ \<Rightarrow> True
   | OtHistoricalDevice _ _ \<Rightarrow> True | OtCallbackIndex _ \<Rightarrow> True | _ \<Rightarrow> False)"

lemma one_word_ignores_next:
  assumes "opcode_type_of w nx = Inr ot" and "\<not> is_two_word ot"
  shows "opcode_type_of w nx' = Inr ot"
proof -
  have "two_word_opcode w x = Inr ot \<Longrightarrow> is_two_word ot" for x
    by (auto simp: two_word_opcode_def is_two_word_def split: if_splits)
  then have "\<not> (\<not> w < KEY_MAX \<and> w \<le> MAX_OPCODE_LEN)" using assms
    by (auto simp: opcode_type_of_def split: option.splits)
  then show ?thesis using assms(1) by (cases "w < KEY_MAX") (simp_all add: opcode_type_of_def)
qed

lemma is_two_word_check: "is_two_word (opcode_of_check c) = (check_width c = 2)"
  by (cases c) (auto simp: is_two_word_def)

lemma opcode_at_cong:
  assumes "opcode_at prog i = Inr ot" and "prog' ! i = prog ! i"
    and "is_two_word ot \<Longrightarrow> Suc i < length prog \<and> Suc i < length prog' \<and> prog' ! Suc i = prog ! Suc i"
  shows "opcode_at prog' i = Inr ot"
proof (cases "is_two_word ot")
  case True
  then show ?thesis using assms by (simp add: opcode_at_def nth_opt_def)
next
  case False
  have "opcode_type_of (prog ! i) (nth_opt prog (Suc i)) = Inr ot"
    using assms(1) by (simp add: opcode_at_def)
  from one_word_ignores_next [OF this False] show ?thesis
    unfolding opcode_at_def assms(2) .
qed

lemma coded_cong:
  "coded prog i e j \<Longrightarrow> j \<le> length prog' \<Longrightarrow> \<forall>k. i \<le> k \<and> k < j \<longrightarrow> prog' ! k = prog ! k \<Longrightarrow>
     coded prog' i e j"
  "codeds prog i es j \<Longrightarrow> j \<le> length prog' \<Longrightarrow> \<forall>k. i \<le> k \<and> k < j \<longrightarrow> prog' ! k = prog ! k \<Longrightarrow>
     codeds prog' i es j"
proof (induction prog i e j and prog i es j rule: coded_codeds.induct)
  case (1 prog i c j)
  then have j: "j = i + check_width c" "j \<le> length prog"
    "opcode_at prog i = Inr (opcode_of_check c)" by simp_all
  have "opcode_at prog' i = Inr (opcode_of_check c)"
  proof (rule opcode_at_cong [OF j(3)])
    show "prog' ! i = prog ! i" using 1(3) j(1) check_width_pos [of c] by simp
    show "is_two_word (opcode_of_check c) \<Longrightarrow>
        Suc i < length prog \<and> Suc i < length prog' \<and> prog' ! Suc i = prog ! Suc i"
      using 1(2,3) j(1,2) by (simp add: is_two_word_check)
  qed
  then show ?case using 1(2) j by simp
next
  case (2 prog i op es j)
  have "opcode_at prog' i = Inr (OtBooleanOp op j)"
  proof (rule opcode_at_cong)
    show "opcode_at prog i = Inr (OtBooleanOp op j)" using 2(2) by simp
    show "prog' ! i = prog ! i" using 2(4) coded_less(1) [OF 2(2)] by simp
  qed (simp add: is_two_word_def)
  then show ?case using 2 by simp
next
  case (3 prog i j)
  then show ?case by simp
next
  case (4 prog i e es j)
  then obtain k where k: "k \<le> j" "coded prog i e k" "codeds prog k es j" by auto
  have "coded prog' i e k" using 4(1) [OF k(2)] k(1) 4(4,5) by auto
  moreover have "codeds prog' k es j"
    using 4(2) [OF k(3)] coded_less(1) [OF k(2)] 4(4,5) by auto
  ultimately show ?case using k(1) by auto
qed

lemma bdepth_BOp_le:
  assumes "\<And>e. e \<in> set es \<Longrightarrow> bdepth e \<le> m"
  shows "bdepth (BOp op es) \<le> Suc m"
proof -
  have "\<forall>e \<in> set es. bdepth e \<le> m \<Longrightarrow> n \<le> m \<Longrightarrow> fold max (map bdepth es) n \<le> m" for n
    by (induction es arbitrary: n) auto
  then show ?thesis using assms by simp
qed

lemma new_bool_of_length:
  assumes "new_bool op (of_nat n) = Inr w" and "n \<le> unat MAX_OPCODE_LEN"
  shows "opcode_type_of w nx = Inr (OtBooleanOp op n)"
  using decode_new_bool [OF assms(1)] assms(2)
  by (simp add: MAX_OPCODE_LEN_def take_bit_nat_eq_self unsigned_of_nat)

text \<open>What was emitted represents the condition, and the code before it is unchanged.\<close>

lemma emit_coded:
  shows "emit d e ops = Inr ops' \<Longrightarrow> bexpr_ok env e \<Longrightarrow>
      (\<exists>new. ops' = ops @ new)
      \<and> coded ops' (length ops) e (length ops') \<and> d + bdepth e \<le> MAX_BOOL_EXPR_DEPTH"
    and "emits d es ops = Inr ops' \<Longrightarrow> list_all (bexpr_ok env) es \<Longrightarrow>
      (\<exists>new. ops' = ops @ new)
      \<and> codeds ops' (length ops) es (length ops')
      \<and> (\<forall>e \<in> set es. d + bdepth e \<le> MAX_BOOL_EXPR_DEPTH)"
proof (induction d e ops and d es ops arbitrary: ops' and ops' rule: emit_emits.induct)
  case (1 d c ops)
  then obtain ws where ws: "emit_check c = Inr ws" "ops' = ops @ ws" "d \<le> MAX_BOOL_EXPR_DEPTH"
    by (auto simp: emit_guard_def split: if_splits)
  then show ?case using 1(2) by (simp add: emit_check_width emit_check_decode)
next
  case (2 d op es ops)
  from 2(2) obtain p ops1 w where e: "emits (Suc d) es (ops @ [p]) = Inr ops1"
    "length ops1 \<le> unat MAX_OPCODE_LEN" "new_bool op (of_nat (length ops1)) = Inr w"
    "ops' = ops1[length ops := w]" and g: "emit_guard d ops = Inr ()"
    and p: "new_bool op (of_nat (length ops)) = Inr p"
    by (auto simp: and_then_Inr_iff split: if_splits)
  have ok: "es \<noteq> []" "list_all (bexpr_ok env) es" using 2(3) by auto
  have "(\<exists>new. ops1 = (ops @ [p]) @ new) \<and> codeds ops1 (length (ops @ [p])) es (length ops1)
      \<and> (\<forall>e \<in> set es. Suc d + bdepth e \<le> MAX_BOOL_EXPR_DEPTH)"
    by (rule 2(1) [OF e(1) ok(2)])
  then obtain new where new: "ops1 = ops @ p # new"
    and c: "codeds ops1 (Suc (length ops)) es (length ops1)"
    and dep: "\<forall>e \<in> set es. Suc d + bdepth e \<le> MAX_BOOL_EXPR_DEPTH" by auto
  have ops': "ops' = ops @ w # new" using e(4) new by simp
  have "codeds ops' (Suc (length ops)) es (length ops')"
    using coded_cong(2) [OF c, of ops'] ops' new by (simp add: nth_append nth_Cons')
  moreover have "opcode_at ops' (length ops) = Inr (OtBooleanOp op (length ops'))"
    using new_bool_of_length [OF e(3,2)] ops' new by (simp add: opcode_at_def nth_append)
  moreover have "d + bdepth (BOp op es) \<le> MAX_BOOL_EXPR_DEPTH"
  proof -
    have "bdepth (BOp op es) \<le> Suc (MAX_BOOL_EXPR_DEPTH - Suc d)"
      using dep by (intro bdepth_BOp_le) auto
    moreover have "Suc d \<le> MAX_BOOL_EXPR_DEPTH" using dep ok(1) by (cases es) auto
    ultimately show ?thesis by linarith
  qed
  ultimately show ?case using ops' by simp
next
  case (3 d ops)
  then show ?case by simp
next
  case (4 d e es ops)
  from 4(3) obtain ops1 where e: "emit d e ops = Inr ops1" "emits d es ops1 = Inr ops'" by auto
  have ok: "bexpr_ok env e" "list_all (bexpr_ok env) es" using 4(4) by auto
  obtain n1 n2 where n: "ops1 = ops @ n1" "ops' = ops1 @ n2"
    using 4(1) [OF e(1) ok(1)] 4(2) [OF e(2) ok(2)] by auto
  have c1: "coded ops1 (length ops) e (length ops1)" using 4(1) [OF e(1) ok(1)] by simp
  have "coded ops' (length ops) e (length ops1)"
  proof (rule coded_cong(1) [OF c1])
    show "\<forall>k. length ops \<le> k \<and> k < length ops1 \<longrightarrow> ops' ! k = ops1 ! k"
      unfolding n(2) by (auto simp: nth_append_left)
  qed (simp add: n(2))
  then have "codeds ops' (length ops) (e # es) (length ops')"
    using 4(2) [OF e(2) ok(2)] n by (auto intro!: exI [of _ "length ops1"])
  then show ?case using 4(1) [OF e(1) ok(1)] 4(2) [OF e(2) ok(2)] n by simp
qed

text \<open>Compilation is correct: the program emitted for the parts of a case evaluates to the
  value of the case.\<close>

lemma emits_evaluate:
  assumes "emits 1 es [] = Inr prog" and "list_all (bexpr_ok env) es"
  shows "evaluate_boolean prog env = Inr (sem_top env es)"
  using emit_coded(2) [OF assms] assms(2) by (intro evaluate_coded) auto

end
