(* ===== verification/SwitchFacts.thy ===== *)
theory SwitchFacts
  imports SwitchSem
begin

text \<open>
  Properties of the \<open>switch\<close> action: the opcodes decode to what was encoded, the precision of
  the stored times, the correctness of the compilation of conditions, and which actions of a
  \<open>switch\<close> run.
\<close>

section \<open>Opcodes\<close>

text \<open>An opcode that the parser emits for a check decodes, in the evaluator, to the same kind of
  check with the same operands (times are the compressed ones).\<close>

theorem opcodes_roundtrip:
  assumes "emit_check c = Inr ws" and "check_ok env c"
  shows "length ws = check_width c \<and> opcode_type_of (hd ws) (nth_opt ws 1) = Inr (opcode_of_check c)"
  using emit_check_width [OF assms(1)] emit_check_decode [OF assms(1,2), of "[]"] check_width_pos [of c]
  by (cases ws) (simp_all add: opcode_at_def)

definition no_env :: switch_env where
  "no_env = \<lparr>se_keys = [], se_positions = [], se_hist_keys = [], se_hist_inputs = [], se_layers = [],
     se_default_layer = 0, se_devices = [], se_callbacks = []\<rparr>"

lemma emit_check_input_example: "emit_check (ChkInput (1, 7)) = Inr [851, 16391]"
  by (simp add: two_words_def new_active_input_def assert_that_def switch_consts KEY_MAX_def)

theorem opcodes_roundtrip_witness:
  "opcode_type_of 851 (Some 16391) = Inr (OtInput (1, 7))"
  using opcodes_roundtrip [OF emit_check_input_example, of no_env] by (simp add: nth_opt_def)

section \<open>Times\<close>

text \<open>The time of a \<open>key-timing\<close> check is stored in ten bits. The time compared with is never
  above the configured one, it is exact up to 255 ms, less than 8 ms short up to 2303 ms, and
  less than 128 ms short beyond.\<close>

theorem ticks_threshold_precision:
  "unat (ticks_threshold t) \<le> unat t
   \<and> unat t - unat (ticks_threshold t) <
       (if unat t \<le> 255 then 1 else if unat t \<le> 2303 then 8 else 128)"
proof -
  have "(n - k) div d * d \<le> n - k" "n - k - (n - k) div d * d < d" if "0 < d" for n k d :: nat
    using that by (simp_all add: div_times_less_eq_dividend minus_div_mult_eq_mod)
  note d = this [of 8 "unat t" 255] this [of 128 "unat t" 2303]
  show ?thesis unfolding ticks_threshold_def lossy_roundtrip_nat using d by auto
qed

section \<open>Conditions\<close>


text \<open>\<open>((not a b) (and c (not d)))\<close> while \<open>a\<close> and \<open>c\<close> are pressed.\<close>

definition pressed_env :: "keycode list \<Rightarrow> switch_env" where
  "pressed_env ks = no_env\<lparr>se_keys := ks\<rparr>"

definition condition_example :: "bexpr list" where
  "condition_example =
     [BOp BNot [BLeaf (ChkKey 30), BLeaf (ChkKey 48)],
      BOp BAnd [BLeaf (ChkKey 46), BOp BNot [BLeaf (ChkKey 32)]]]"

lemma condition_example_code:
  "emits 1 condition_example [] = Inr [0x3003, 30, 48, 0x2007, 46, 0x3007, 32]"
  by (simp add: condition_example_def emit_guard_def one_word_def new_key_def assert_that_def
      new_bool_def switch_consts KEY_MAX_def or_panic_def)


section \<open>Which actions run\<close>

text \<open>A case as written: its condition, its action, and whether it falls through.\<close>

type_synonym 't written_case = "bexpr list \<times> 't action \<times> break_or_fallthrough"

fun compiled_cases ::
  "'t written_case list \<Rightarrow> (opcode list \<times> 't action \<times> break_or_fallthrough) list \<Rightarrow> bool" where
  "compiled_cases [] cs \<longleftrightarrow> cs = []"
| "compiled_cases ((es, ac, bf) # ws) cs \<longleftrightarrow>
     (\<exists>prog cs'. cs = (prog, ac, bf) # cs' \<and> emits 1 es [] = Inr prog \<and> compiled_cases ws cs')"

definition falls_through :: "'t written_case \<Rightarrow> bool" where
  "falls_through w = (snd (snd w) = Fallthrough)"

text \<open>The cases that hold, up to and with the first one that breaks.\<close>

definition chosen_cases :: "switch_env \<Rightarrow> 't written_case list \<Rightarrow> 't written_case list" where
  "chosen_cases env ws =
     (let holding = filter (\<lambda>w. sem_top env (fst w)) ws in
      takeWhile falls_through holding @ take 1 (dropWhile falls_through holding))"

text \<open>C18: A \<open>switch\<close> runs the actions of the cases whose condition holds, in the order written, up to
  and with the first of them that breaks.\<close>

theorem switch_runs_chosen_cases:
  assumes "compiled_cases ws cs" and "\<forall>w \<in> set ws. list_all (bexpr_ok env) (fst w)"
  shows "switch_actions cs env = Inr (map (fst \<circ> snd) (chosen_cases env ws))"
  using assms
proof (induction ws cs rule: compiled_cases.induct)
  case (1 cs)
  then show ?case by (simp add: chosen_cases_def)
next
  case (2 es ac bf ws cs)
  then obtain prog cs' where cs: "cs = (prog, ac, bf) # cs'" "emits 1 es [] = Inr prog"
    "compiled_cases ws cs'" by auto
  have "evaluate_boolean prog env = Inr (sem_top env es)"
    using 2(3) by (intro emits_evaluate [OF cs(2)]) simp
  moreover have "switch_actions cs' env = Inr (map (fst \<circ> snd) (chosen_cases env ws))"
    using 2(1) cs(3) 2(3) by simp
  ultimately show ?case
    using cs(1) by (cases bf) (simp_all add: chosen_cases_def falls_through_def Let_def)
qed

theorem switch_runs_chosen_cases_witness:
  "switch_actions [([30], KeyCode 1, Fallthrough), ([], KeyCode 2, Break), ([], KeyCode 3, Break)]
     (pressed_env [30]) = Inr [KeyCode 1, KeyCode 2 :: nat action]"
  using switch_runs_chosen_cases [of
      "[([BLeaf (ChkKey 30)], KeyCode 1, Fallthrough), ([], KeyCode 2, Break), ([], KeyCode 3, Break)]"
      "[([30], KeyCode 1, Fallthrough), ([], KeyCode 2, Break), ([], KeyCode 3, Break)]"
      "pressed_env [30] :: switch_env"]
  by (simp add: chosen_cases_def falls_through_def pressed_env_def no_env_def sem_top_def KEY_MAX_def
      emit_guard_def one_word_def new_key_def assert_that_def switch_consts or_panic_def)

end
