(* ===== verification/States.thy ===== *)
theory States
  imports Action
begin

text \<open>
  The states a pressed key leaves behind, and how a release consumes them
  (\<open>keyberon/src/layout.rs\<close>, \<open>CustomEvent\<close>, \<open>NormalKeyFlags\<close>, \<open>State\<close>). A layer index is a
  \<open>nat\<close> where the code has \<open>usize\<close>.
\<close>

section \<open>Custom events\<close>

datatype 't custom_event = CNoEvent | CPress 't | CRelease 't

text \<open>Events only move up in the order \<open>NoEvent < Press < Release\<close>.\<close>

fun custom_update :: "'t custom_event \<Rightarrow> 't custom_event \<Rightarrow> 't custom_event" where
  "custom_update CNoEvent (CRelease v) = CRelease v"
| "custom_update (CPress w) (CRelease v) = CRelease v"
| "custom_update CNoEvent (CPress v) = CPress v"
| "custom_update c e = c"

definition custom_rank :: "'t custom_event \<Rightarrow> nat" where
  "custom_rank c = (case c of CNoEvent \<Rightarrow> 0 | CPress _ \<Rightarrow> 1 | CRelease _ \<Rightarrow> 2)"

lemma custom_update_NoEvent [simp]: "custom_update CNoEvent e = e" "custom_update c CNoEvent = c"
  by (cases e; simp) (cases c; simp)

lemma custom_update_rank:
  "custom_rank (custom_update c e) = max (custom_rank c) (custom_rank e)
   \<and> (custom_update c e = c \<or> custom_update c e = e)"
  by (cases c; cases e) (auto simp: custom_rank_def)

lemma custom_update_assoc:
  "custom_update (custom_update a b) c = custom_update a (custom_update b c)"
  by (cases a; cases b; cases c) auto

section \<open>Key states\<close>

definition NORMAL_KEY_FLAG_CLEAR_ON_NEXT_ACTION :: u8 where
  "NORMAL_KEY_FLAG_CLEAR_ON_NEXT_ACTION = 0x01"

definition NORMAL_KEY_FLAG_CLEAR_ON_NEXT_RELEASE :: u8 where
  "NORMAL_KEY_FLAG_CLEAR_ON_NEXT_RELEASE = 0x02"

definition nkf_clear_on_next_action :: "u8 \<Rightarrow> bool" where
  "nkf_clear_on_next_action flags \<longleftrightarrow>
     (flags AND NORMAL_KEY_FLAG_CLEAR_ON_NEXT_ACTION) = NORMAL_KEY_FLAG_CLEAR_ON_NEXT_ACTION"

definition nkf_clear_on_next_release :: "u8 \<Rightarrow> bool" where
  "nkf_clear_on_next_release flags \<longleftrightarrow>
     (flags AND NORMAL_KEY_FLAG_CLEAR_ON_NEXT_RELEASE) = NORMAL_KEY_FLAG_CLEAR_ON_NEXT_RELEASE"

datatype 't state =
    NormalKey keycode kcoord u8
  | LayerModifier nat kcoord
  | StCustom 't kcoord
  | FakeKey keycode
  | RepeatingSequence "'t seq_event list" kcoord
  | SeqCustomPending 't
  | SeqCustomActive 't
  | Tombstone
  | NoOpInput kcoord

fun st_keycode :: "'t state \<Rightarrow> keycode option" where
  "st_keycode (NormalKey kc c f) = Some kc"
| "st_keycode (FakeKey kc) = Some kc"
| "st_keycode _ = None"

fun st_coord :: "'t state \<Rightarrow> kcoord option" where
  "st_coord (NormalKey kc c f) = Some c"
| "st_coord (LayerModifier l c) = Some c"
| "st_coord (StCustom v c) = Some c"
| "st_coord (NoOpInput c) = Some c"
| "st_coord (RepeatingSequence es c) = Some c"
| "st_coord _ = None"

fun keycode_in_coords :: "'t state \<Rightarrow> kcoord list \<Rightarrow> keycode option" where
  "keycode_in_coords (NormalKey kc c f) coords = (if c \<in> set coords then Some kc else None)"
| "keycode_in_coords _ coords = None"

definition CUSTOM_EVENT_RELEASE_QUEUE_LEN :: nat where "CUSTOM_EVENT_RELEASE_QUEUE_LEN = 16"

text \<open>
  \<open>State::release\<close>: whether the state survives the release of \<open>c\<close>. The captured custom event
  and the queue of further custom releases are threaded; overflowing that queue panics.
\<close>

fun st_release ::
  "kcoord \<Rightarrow> 't state \<Rightarrow> 't custom_event \<times> 't list \<Rightarrow> (bool \<times> 't custom_event \<times> 't list) res"
where
  "st_release c (StCustom v coord) (custom, q) =
     (if coord = c then
        (case custom of
           CNoEvent \<Rightarrow> Inr (False, custom_update custom (CRelease v), q)
         | _ \<Rightarrow>
             and_then (must_fit (wrap_push_back CUSTOM_EVENT_RELEASE_QUEUE_LEN v q))
               (\<lambda>q'. Inr (False, custom, q')))
      else Inr (True, custom, q))"
| "st_release c (NormalKey kc coord f) s = Inr (coord \<noteq> c, s)"
| "st_release c (LayerModifier l coord) s = Inr (coord \<noteq> c, s)"
| "st_release c (RepeatingSequence es coord) s = Inr (coord \<noteq> c, s)"
| "st_release c (NoOpInput coord) s = Inr (coord \<noteq> c, s)"
| "st_release c _ s = Inr (True, s)"

text \<open>\<open>release_state\<close>, \<open>seq_release\<close>: \<open>True\<close> when the state is kept.\<close>

fun st_release_state :: "releasable_state \<Rightarrow> 't state \<Rightarrow> bool" where
  "st_release_state (RsKeyCode k2) (NormalKey k1 c f) = (k1 \<noteq> k2)"
| "st_release_state (RsKeyCode k2) (FakeKey k1) = (k1 \<noteq> k2)"
| "st_release_state (RsLayer l2) (LayerModifier l1 c) = (l1 \<noteq> l2)"
| "st_release_state _ _ = True"

fun seq_release :: "keycode \<Rightarrow> 't state \<Rightarrow> bool" where
  "seq_release kc (FakeKey k) = (k \<noteq> kc)"
| "seq_release kc _ = True"

fun get_layer :: "'t state \<Rightarrow> nat option" where
  "get_layer (LayerModifier l c) = Some l"
| "get_layer _ = None"

fun clear_on_next_release :: "'t state \<Rightarrow> bool" where
  "clear_on_next_release (NormalKey kc c flags) = nkf_clear_on_next_release flags"
| "clear_on_next_release _ = False"

section \<open>Releasing a coordinate\<close>

lemma st_release_keeps: "st_release c s e = Inr (keep, e') \<Longrightarrow> keep = (st_coord s \<noteq> Some c)"
  by (cases s; cases e) (auto simp: and_then_Inr_iff split: custom_event.splits if_splits)

text \<open>Releasing a coordinate removes every state at it and no other state.\<close>

lemma retain_release:
  assumes "retain_res (st_release c) sts e = Inr (sts', e')"
  shows "sts' = filter (\<lambda>s. st_coord s \<noteq> Some c) sts"
  by (rule retain_res_filter [OF assms]) (rule st_release_keeps)

text \<open>
  The custom actions at the coordinate: the first is announced as the custom event when none
  is pending yet, the others are queued in order. Fewer than 17 of them never overflow.
\<close>

fun st_custom_at :: "kcoord \<Rightarrow> 't state \<Rightarrow> 't list" where
  "st_custom_at c (StCustom v coord) = (if coord = c then [v] else [])"
| "st_custom_at c _ = []"

abbreviation customs_at :: "kcoord \<Rightarrow> 't state list \<Rightarrow> 't list" where
  "customs_at c sts \<equiv> concat (map (st_custom_at c) sts)"

lemma retain_release_queue:
  assumes "custom \<noteq> CNoEvent"
    and "length q + length (customs_at c sts) \<le> CUSTOM_EVENT_RELEASE_QUEUE_LEN"
  shows "retain_res (st_release c) sts (custom, q)
       = Inr (filter (\<lambda>s. st_coord s \<noteq> Some c) sts, custom, q @ customs_at c sts)"
  using assms
proof (induction sts arbitrary: q)
  case Nil
  then show ?case by simp
next
  case (Cons s sts)
  show ?case
  proof (cases "st_custom_at c s")
    case Nil
    then have "st_release c s (custom, q) = Inr (st_coord s \<noteq> Some c, custom, q)"
      by (cases s) (auto split: if_splits)
    then show ?thesis using Cons.IH Cons.prems Nil by simp
  next
    case (Cons v vs)
    then have s: "s = StCustom v c" "vs = []" by (cases s; auto split: if_splits)+
    then have "length q < CUSTOM_EVENT_RELEASE_QUEUE_LEN" using Cons.prems by simp
    then have "st_release c s (custom, q) = Inr (False, custom, q @ [v])"
      using Cons.prems(1) s by (cases custom) simp_all
    then show ?thesis using Cons.IH [of "q @ [v]"] Cons.prems s by simp
  qed
qed

lemma retain_release_customs:
  assumes "length (customs_at c sts) \<le> Suc CUSTOM_EVENT_RELEASE_QUEUE_LEN"
  shows "retain_res (st_release c) sts (CNoEvent, [])
       = Inr (filter (\<lambda>s. st_coord s \<noteq> Some c) sts,
              (case customs_at c sts of [] \<Rightarrow> CNoEvent | v # vs \<Rightarrow> CRelease v),
              tl (customs_at c sts))"
  using assms
proof (induction sts)
  case Nil
  then show ?case by simp
next
  case (Cons s sts)
  show ?case
  proof (cases "st_custom_at c s")
    case Nil
    then have "st_release c s (CNoEvent, []) = Inr (st_coord s \<noteq> Some c, CNoEvent, [])"
      by (cases s) (auto split: if_splits)
    then show ?thesis using Cons.IH Cons.prems Nil by simp
  next
    case (Cons v vs)
    then have s: "s = StCustom v c" "vs = []" by (cases s; auto split: if_splits)+
    have "retain_res (st_release c) sts (CRelease v, [])
        = Inr (filter (\<lambda>s. st_coord s \<noteq> Some c) sts, CRelease v, [] @ customs_at c sts)"
      using Cons.prems s by (intro retain_release_queue) auto
    then show ?thesis using s by simp
  qed
qed

end
