(* ===== verification/OneShotKeys.thy ===== *)
theory OneShotKeys
  imports States
begin

text \<open>
  One-shot keys (\<open>OneShotState\<close> in \<open>keyberon/src/layout.rs\<close>): which one-shot keys are active,
  which of them were released while active and wait for their release to take effect, and the
  conditions that end the activation.
\<close>

section \<open>State\<close>

datatype one_shot_retainable =
    RetainKeyCode kcoord keycode
  | RetainLayer kcoord u16

fun retain_coord :: "one_shot_retainable \<Rightarrow> kcoord" where
  "retain_coord (RetainKeyCode c kc) = c"
| "retain_coord (RetainLayer c l) = c"

datatype one_shot_press = OneShotKey kcoord | OtherKey kcoord

record one_shot_state =
  osh_keys :: "kcoord list"
  osh_released_keys :: "kcoord list"
  osh_retain :: "one_shot_retainable list"
  osh_other_pressed :: "kcoord list"
  osh_timeout :: u16
  osh_end_config :: one_shot_end_config
  osh_release_on_next_tick :: bool
  osh_pause_delay :: u16
  osh_pause_ticks :: u16
  osh_ticks_to_ignore :: u16

definition one_shot_new :: one_shot_state where
  "one_shot_new =
     \<lparr>osh_keys = [], osh_released_keys = [], osh_retain = [], osh_other_pressed = [],
      osh_timeout = 0, osh_end_config = EndOnFirstPress, osh_release_on_next_tick = False,
      osh_pause_delay = 0, osh_pause_ticks = 0, osh_ticks_to_ignore = 0\<rparr>"

section \<open>Operations\<close>

definition tick_osh :: "one_shot_state \<Rightarrow> kcoord list option \<times> one_shot_state" where
  "tick_osh o1 =
     (if osh_keys o1 = [] then (None, o1)
      else
        let o2 = o1\<lparr>osh_ticks_to_ignore := sat_sub (osh_ticks_to_ignore o1) 1,
                    osh_timeout := sat_sub (osh_timeout o1) 1\<rparr> in
        if osh_release_on_next_tick o2 \<or> osh_timeout o2 = 0 then
          (Some (osh_released_keys o2),
           o2\<lparr>osh_release_on_next_tick := False, osh_timeout := 0, osh_pause_ticks := 0,
              osh_ticks_to_ignore := 0, osh_keys := [], osh_other_pressed := [],
              osh_retain := [], osh_released_keys := []\<rparr>)
        else (None, o2))"

text \<open>\<open>handle_press\<close> returns the coordinates of the active one-shot keys that apply.\<close>

fun osh_handle_press :: "one_shot_press \<Rightarrow> one_shot_state \<Rightarrow> kcoord list \<times> one_shot_state" where
  "osh_handle_press (OneShotKey c) os =
     (if osh_keys os = [] \<or> 0 < osh_ticks_to_ignore os then ([], os)
      else
        let repress = (osh_end_config os = EndOnFirstReleaseOrRepress
                       \<or> osh_end_config os = EndOnFirstPressOrRepress) \<and> c \<in> set (osh_keys os);
            os' = (if repress then os\<lparr>osh_release_on_next_tick := True\<rparr> else os) in
        ((if repress then wextend ONE_SHOT_MAX_ACTIVE (osh_keys os) [] else []),
         os'\<lparr>osh_released_keys := filter (\<lambda>k. k \<noteq> c) (osh_released_keys os')\<rparr>))"
| "osh_handle_press (OtherKey c) os =
     (if osh_keys os = [] \<or> 0 < osh_ticks_to_ignore os then ([], os)
      else
        (wextend ONE_SHOT_MAX_ACTIVE (osh_keys os) [],
         if osh_end_config os = EndOnFirstPress \<or> osh_end_config os = EndOnFirstPressOrRepress
         then os\<lparr>osh_timeout := min (osh_pause_delay os) (osh_timeout os),
                 osh_pause_ticks := osh_pause_delay os\<rparr>
         else os\<lparr>osh_other_pressed :=
                   wpush ONE_SHOT_MAX_ACTIVE c (osh_other_pressed os)\<rparr>))"

text \<open>\<open>handle_release\<close>: whether to release normally, and a released key that was displaced.\<close>

definition osh_handle_release ::
  "kcoord \<Rightarrow> one_shot_state \<Rightarrow> (bool \<times> kcoord option) \<times> one_shot_state" where
  "osh_handle_release c os =
     (if osh_keys os = [] then ((True, None), os)
      else if c \<notin> set (osh_keys os) then
        ((True, None),
         if (osh_end_config os = EndOnFirstRelease \<or> osh_end_config os = EndOnFirstReleaseOrRepress)
            \<and> c \<in> set (osh_other_pressed os)
         then os\<lparr>osh_release_on_next_tick := True\<rparr> else os)
      else
        (case wrap_push_back ONE_SHOT_MAX_ACTIVE c (osh_released_keys os) of (q, over) \<Rightarrow>
           ((False, over), os\<lparr>osh_released_keys := q\<rparr>)))"

definition add_state_to_retain :: "one_shot_retainable \<Rightarrow> one_shot_state \<Rightarrow> one_shot_state" where
  "add_state_to_retain st os =
     (if st \<in> set (osh_retain os) then os
      else os\<lparr>osh_retain := wpush ONE_SHOT_MAX_ACTIVE st (osh_retain os)\<rparr>)"

section \<open>Properties\<close>

text \<open>The buffers keep to their capacity.\<close>

definition one_shot_wf :: "one_shot_state \<Rightarrow> bool" where
  "one_shot_wf os \<longleftrightarrow>
     length (osh_keys os) \<le> ONE_SHOT_MAX_ACTIVE \<and>
     length (osh_released_keys os) \<le> ONE_SHOT_MAX_ACTIVE \<and>
     length (osh_retain os) \<le> ONE_SHOT_MAX_ACTIVE \<and>
     length (osh_other_pressed os) \<le> ONE_SHOT_MAX_ACTIVE"

lemma one_shot_wf_new [simp]: "one_shot_wf one_shot_new"
  by (simp add: one_shot_wf_def one_shot_new_def)

lemma one_shot_wf_tick [simp]: "one_shot_wf os \<Longrightarrow> one_shot_wf (snd (tick_osh os))"
  by (simp add: one_shot_wf_def tick_osh_def Let_def)

lemma one_shot_wf_press [simp]: "one_shot_wf os \<Longrightarrow> one_shot_wf (snd (osh_handle_press k os))"
  using length_filter_le [of _ "osh_released_keys os"]
  by (cases k)
    (auto simp: one_shot_wf_def Let_def wb.push_bound intro: order_trans [OF length_filter_le])

lemma one_shot_wf_release [simp]: "one_shot_wf os \<Longrightarrow> one_shot_wf (snd (osh_handle_release c os))"
  using wb.push_bound [of "osh_released_keys os" ONE_SHOT_MAX_ACTIVE c]
  by (auto simp: one_shot_wf_def osh_handle_release_def split: prod.splits)

lemma one_shot_wf_retain [simp]: "one_shot_wf os \<Longrightarrow> one_shot_wf (add_state_to_retain st os)"
  by (simp add: one_shot_wf_def add_state_to_retain_def wb.push_bound)

lemma one_shot_wf_update [simp]:
  "one_shot_wf (os\<lparr>osh_timeout := t\<rparr>) = one_shot_wf os"
  "one_shot_wf (os\<lparr>osh_end_config := e\<rparr>) = one_shot_wf os"
  "one_shot_wf (os\<lparr>osh_pause_ticks := t\<rparr>) = one_shot_wf os"
  "one_shot_wf (os\<lparr>osh_ticks_to_ignore := t\<rparr>) = one_shot_wf os"
  "one_shot_wf (os\<lparr>osh_keys := ks\<rparr>) =
     (one_shot_wf (os\<lparr>osh_keys := []\<rparr>) \<and> length ks \<le> ONE_SHOT_MAX_ACTIVE)"
  by (auto simp: one_shot_wf_def)

text \<open>
  While nothing happens the activation lasts exactly \<open>timeout\<close> ticks: after \<open>n\<close> ticks with
  \<open>n < timeout\<close> the keys are still active, at tick \<open>timeout\<close> the released ones are handed out.
\<close>

definition ticks_osh :: "nat \<Rightarrow> one_shot_state \<Rightarrow> one_shot_state" where
  "ticks_osh n os = ((\<lambda>o1. snd (tick_osh o1)) ^^ n) os"

lemma ticks_osh_active:
  assumes "osh_keys os \<noteq> []" and "\<not> osh_release_on_next_tick os" and "n < unat (osh_timeout os)"
  shows "osh_keys (ticks_osh n os) = osh_keys os
    \<and> osh_released_keys (ticks_osh n os) = osh_released_keys os
    \<and> osh_retain (ticks_osh n os) = osh_retain os
    \<and> \<not> osh_release_on_next_tick (ticks_osh n os)
    \<and> unat (osh_timeout (ticks_osh n os)) = unat (osh_timeout os) - n"
  using assms(3)
proof (induction n)
  case 0
  then show ?case using assms by (simp add: ticks_osh_def)
next
  case (Suc n)
  let ?o = "ticks_osh n os"
  have IH: "osh_keys ?o = osh_keys os" "osh_released_keys ?o = osh_released_keys os"
    "osh_retain ?o = osh_retain os" "\<not> osh_release_on_next_tick ?o"
    "unat (osh_timeout ?o) = unat (osh_timeout os) - n"
    using Suc by auto
  have "unat (sat_sub (osh_timeout ?o) 1) = unat (osh_timeout os) - Suc n"
    using IH(5) by (simp add: unat_sat_sub)
  moreover from this have "sat_sub (osh_timeout ?o) 1 \<noteq> 0" using Suc.prems by auto
  ultimately have "snd (tick_osh ?o) = ?o\<lparr>osh_ticks_to_ignore := sat_sub (osh_ticks_to_ignore ?o) 1,
      osh_timeout := sat_sub (osh_timeout ?o) 1\<rparr>"
    using IH assms(1) by (simp add: tick_osh_def)
  moreover have "ticks_osh (Suc n) os = snd (tick_osh ?o)" by (simp add: ticks_osh_def)
  ultimately show ?case
    using IH \<open>unat (sat_sub (osh_timeout ?o) 1) = _\<close> by simp
qed

lemma tick_osh_expires:
  assumes "osh_keys os \<noteq> []" and "\<not> osh_release_on_next_tick os" and "0 < unat (osh_timeout os)"
  shows "tick_osh (ticks_osh (unat (osh_timeout os) - 1) os)
       = (Some (osh_released_keys os), ticks_osh (unat (osh_timeout os)) os)"
    and "osh_keys (ticks_osh (unat (osh_timeout os)) os) = []"
proof -
  let ?n = "unat (osh_timeout os) - 1"
  let ?o = "ticks_osh ?n os"
  note a = ticks_osh_active [OF assms(1,2), of ?n]
  have "unat (osh_timeout ?o) = 1" using a assms(3) by simp
  then have "unat (sat_sub (osh_timeout ?o) 1) = 0" by (simp add: unat_sat_sub)
  then have z: "sat_sub (osh_timeout ?o) 1 = 0" by (simp add: unat_eq_zero)
  have s: "ticks_osh (unat (osh_timeout os)) os = snd (tick_osh ?o)"
    using assms(3) by (cases "unat (osh_timeout os)") (simp_all add: ticks_osh_def)
  show "tick_osh ?o = (Some (osh_released_keys os), ticks_osh (unat (osh_timeout os)) os)"
    "osh_keys (ticks_osh (unat (osh_timeout os)) os) = []"
    unfolding s using a z assms by (auto simp: tick_osh_def Let_def)
qed

end
