(* ===== verification/OneShotFacts.thy ===== *)
theory OneShotFacts
  imports OneShotKeys
begin

text \<open>Properties of one-shot keys: how long an activation lasts and what ends it.\<close>

section \<open>The timeout\<close>

text \<open>C19: While no key is pressed or released, an activation lasts exactly its timeout: the ticks
  before the last release nothing, tick number \<open>timeout\<close> hands out the keys released in the
  meantime and ends the activation.\<close>

theorem one_shot_lasts_timeout:
  assumes "osh_keys os \<noteq> []" and "\<not> osh_release_on_next_tick os" and "0 < unat (osh_timeout os)"
  shows "(\<forall>n. Suc n < unat (osh_timeout os) \<longrightarrow>
            fst (tick_osh (ticks_osh n os)) = None \<and> osh_keys (ticks_osh (Suc n) os) = osh_keys os)
    \<and> fst (tick_osh (ticks_osh (unat (osh_timeout os) - 1) os)) = Some (osh_released_keys os)
    \<and> osh_keys (ticks_osh (unat (osh_timeout os)) os) = []"
proof (intro conjI allI impI)
  fix n assume n: "Suc n < unat (osh_timeout os)"
  note a = ticks_osh_active [OF assms(1,2), of n] ticks_osh_active [OF assms(1,2) n]
  have "unat (sat_sub (osh_timeout (ticks_osh n os)) 1) = unat (osh_timeout os) - Suc n"
    using a n by (simp add: unat_sat_sub)
  then have "sat_sub (osh_timeout (ticks_osh n os)) 1 \<noteq> 0" using n by auto
  then show "fst (tick_osh (ticks_osh n os)) = None" using a n assms(1) by (simp add: tick_osh_def)
  show "osh_keys (ticks_osh (Suc n) os) = osh_keys os" using a by simp
qed (use tick_osh_expires [OF assms] in simp_all)

definition one_shot_example :: one_shot_state where
  "one_shot_example =
     one_shot_new\<lparr>osh_keys := [(0, 42)], osh_released_keys := [(0, 42)], osh_timeout := 500\<rparr>"

theorem one_shot_lasts_timeout_witness:
  "fst (tick_osh (ticks_osh 499 one_shot_example)) = Some [(0, 42)]
   \<and> osh_keys (ticks_osh 500 one_shot_example) = []"
  using one_shot_lasts_timeout [of one_shot_example]
  by (simp add: one_shot_example_def one_shot_new_def)

section \<open>What ends an activation\<close>

text \<open>The end conditions, for a key that is not a one-shot key while a one-shot key is active.
  With the press variants the press cuts the timeout down to the configured pause; with the
  release variants the activation goes on with the same timeout and the release of that key
  ends it at the next tick. In both cases the press is modified by the active keys, which
  the operation returns.\<close>

theorem one_shot_end_conditions:
  assumes "osh_keys os \<noteq> []" and "length (osh_keys os) \<le> ONE_SHOT_MAX_ACTIVE"
    and "osh_ticks_to_ignore os = 0" and "c \<notin> set (osh_keys os)"
    and "osh_handle_press (OtherKey c) os = (mods, os')"
  shows "mods = osh_keys os \<and> osh_keys os' = osh_keys os
    \<and> (if osh_end_config os = EndOnFirstPress \<or> osh_end_config os = EndOnFirstPressOrRepress
       then osh_timeout os' = min (osh_pause_delay os) (osh_timeout os)
         \<and> snd (osh_handle_release c os') = os'
       else osh_timeout os' = osh_timeout os
         \<and> snd (osh_handle_release c os') = os'\<lparr>osh_release_on_next_tick := True\<rparr>)"
proof -
  have m: "wextend ONE_SHOT_MAX_ACTIVE (osh_keys os) [] = osh_keys os"
    using assms(2) by (simp add: wextend_fits)
  have p: "c \<in> set (wpush ONE_SHOT_MAX_ACTIVE c cs)" for cs
    by (simp add: wrap_push_back_def ONE_SHOT_MAX_ACTIVE_def split: list.split)
  show ?thesis
  proof (cases "osh_end_config os = EndOnFirstPress \<or> osh_end_config os = EndOnFirstPressOrRepress")
    case True
    then have "mods = osh_keys os" "os' = os\<lparr>osh_timeout := min (osh_pause_delay os) (osh_timeout os),
        osh_pause_ticks := osh_pause_delay os\<rparr>"
      using assms(1,3,5) m by auto
    then show ?thesis using True assms(1,4) by (auto simp: osh_handle_release_def)
  next
    case False
    then have "mods = osh_keys os"
      and o: "os' = os\<lparr>osh_other_pressed := wpush ONE_SHOT_MAX_ACTIVE c (osh_other_pressed os)\<rparr>"
      using assms(1,3,5) m by auto
    moreover have "osh_end_config os = EndOnFirstRelease \<or> osh_end_config os = EndOnFirstReleaseOrRepress"
      using False by (cases "osh_end_config os") auto
    ultimately show ?thesis using False assms(1,4) p by (simp add: osh_handle_release_def)
  qed
qed

theorem one_shot_end_conditions_witness:
  "snd (osh_handle_release (0, 30) (one_shot_example\<lparr>osh_end_config := EndOnFirstRelease,
       osh_other_pressed := [(0, 30)]\<rparr>))
     = one_shot_example\<lparr>osh_end_config := EndOnFirstRelease, osh_other_pressed := [(0, 30)],
         osh_release_on_next_tick := True\<rparr>"
  using one_shot_end_conditions [of "one_shot_example\<lparr>osh_end_config := EndOnFirstRelease\<rparr>" "(0, 30)"
      "[(0, 42)]" "one_shot_example\<lparr>osh_end_config := EndOnFirstRelease, osh_other_pressed := [(0, 30)]\<rparr>"]
  by (simp add: one_shot_example_def one_shot_new_def ONE_SHOT_MAX_ACTIVE_def wextend_def
      wrap_push_back_def)

text \<open>Pressing an active one-shot key again ends the activation at the next tick exactly for the
  two variants that end on a repress, and never makes the key wait for a release of before.\<close>

theorem one_shot_repress:
  assumes "c \<in> set (osh_keys os)" and "osh_ticks_to_ignore os = 0"
    and "osh_handle_press (OneShotKey c) os = (mods, os')"
  shows "osh_release_on_next_tick os' =
      (osh_release_on_next_tick os \<or> osh_end_config os = EndOnFirstReleaseOrRepress
       \<or> osh_end_config os = EndOnFirstPressOrRepress)
    \<and> c \<notin> set (osh_released_keys os')
    \<and> (osh_release_on_next_tick os' \<longrightarrow>
         fst (tick_osh os') = Some (filter (\<lambda>k. k \<noteq> c) (osh_released_keys os)))"
  using assms by (auto simp: Let_def tick_osh_def split: if_splits)

theorem one_shot_repress_witness:
  "fst (tick_osh (snd (osh_handle_press (OneShotKey (0, 42))
       (one_shot_example\<lparr>osh_end_config := EndOnFirstPressOrRepress\<rparr>)))) = Some []"
  using one_shot_repress [of "(0, 42)" "one_shot_example\<lparr>osh_end_config := EndOnFirstPressOrRepress\<rparr>"]
  by (simp add: one_shot_example_def one_shot_new_def split_beta)

end
