(* ===== verification/Waiting.thy ===== *)
theory Waiting
  imports OneShotKeys
begin

text \<open>
  Keys whose action is not decided yet (\<open>WaitingState\<close> in \<open>keyberon/src/layout.rs\<close>): the
  hold-tap decision with its strategies, the lazy tap-dance counter and the first version of
  chords with the decomposition of an undefined chord into shorter ones. Also the eager
  tap-dance state. The waiting state sees the queue of later events; the hold-tap strategies
  read it, the other two also remove the events they consumed.
\<close>

section \<open>Eager tap-dance\<close>

record 't tap_dance_eager =
  tde_coord :: kcoord
  tde_actions :: "'t action list"
  tde_timeout :: u16
  tde_orig_timeout :: u16
  tde_num_taps :: u16

definition tick_tde :: "'t tap_dance_eager \<Rightarrow> 't tap_dance_eager" where
  "tick_tde t = t\<lparr>tde_timeout := sat_sub (tde_timeout t) 1\<rparr>"

definition tde_is_expired :: "'t tap_dance_eager \<Rightarrow> bool" where
  "tde_is_expired t \<longleftrightarrow> tde_timeout t = 0 \<or> length (tde_actions t) \<le> unat (tde_num_taps t)"

definition tde_set_expired :: "'t tap_dance_eager \<Rightarrow> 't tap_dance_eager" where
  "tde_set_expired t = t\<lparr>tde_timeout := 0\<rparr>"

definition tde_incr_taps :: "'t tap_dance_eager \<Rightarrow> 't tap_dance_eager res" where
  "tde_incr_taps t = and_then (checked_add (tde_num_taps t) 1)
     (\<lambda>n. Inr (t\<lparr>tde_num_taps := n, tde_timeout := tde_orig_timeout t\<rparr>))"

section \<open>The waiting state\<close>

record 't tap_dance_state =
  tds_actions :: "'t action list"
  tds_timeout :: u16
  tds_num_taps :: u16

datatype 't waiting_config =
    WcHoldTap hold_tap_config
  | WcTapDance "'t tap_dance_state"
  | WcChord "'t chords_group"

record 't waiting_state =
  w_coord :: kcoord
  w_timeout :: u16
  w_on_press_reset :: "u16 option"
  w_delay :: u16
  w_ticks :: u16
  w_hold :: "'t action"
  w_tap :: "'t action"
  w_timeout_action :: "'t action"
  w_config :: "'t waiting_config"
  w_layer_stack :: "u16 list"
  w_prev_queue_len :: u8

text \<open>An action to be executed at a later tick: coordinate, delay, action, layer stack.\<close>

type_synonym 't queued_action = "kcoord \<times> u16 \<times> 't action \<times> u16 list"

definition ACTION_QUEUE_LEN :: nat where "ACTION_QUEUE_LEN = 8"

definition queue_len_u8 :: "'a list \<Rightarrow> u8" where
  "queue_len_u8 q = of_nat (length q)"

definition is_corresponding_release :: "kcoord \<Rightarrow> event \<Rightarrow> bool" where
  "is_corresponding_release c e = (case e of Release i j \<Rightarrow> (i, j) = c | _ \<Rightarrow> False)"

definition is_corresponding_press :: "kcoord \<Rightarrow> event \<Rightarrow> bool" where
  "is_corresponding_press c e = (case e of Press i j \<Rightarrow> (i, j) = c | _ \<Rightarrow> False)"

section \<open>Hold-tap\<close>

text \<open>A press with a later release of the same key (and, for \<open>Order\<close>, outside the buffer).\<close>

fun permissive_scan :: "queued list \<Rightarrow> bool" where
  "permissive_scan [] = False"
| "permissive_scan (q # qs) =
     (if is_press (q_event q)
         \<and> list_ex (\<lambda>r. q_event r = Release (fst (event_coord (q_event q)))
                                             (snd (event_coord (q_event q)))) qs
      then True else permissive_scan qs)"

fun order_scan :: "u16 \<Rightarrow> u16 \<Rightarrow> queued list \<Rightarrow> bool" where
  "order_scan ticks buffer [] = False"
| "order_scan ticks buffer (q # qs) =
     (if is_press (q_event q) \<and> \<not> sat_sub ticks (q_since q) < buffer
         \<and> list_ex (\<lambda>r. q_event r = Release (fst (event_coord (q_event q)))
                                             (snd (event_coord (q_event q)))) qs
      then True else order_scan ticks buffer qs)"

text \<open>The early answer of the strategy, and whether the timeout is to be skipped.\<close>

fun hold_tap_strategy ::
  "hold_tap_config \<Rightarrow> 't waiting_state \<Rightarrow> queued list \<Rightarrow> waiting_action option \<times> bool" where
  "hold_tap_strategy HtDefault w q = (None, False)"
| "hold_tap_strategy HoldOnOtherKeyPress w q =
     (if list_ex (\<lambda>s. is_press (q_event s)) q then (Some WaHold, False) else (None, False))"
| "hold_tap_strategy (Order buffer) w q =
     (if order_scan (w_ticks w) buffer q then (Some WaHold, False) else (None, False))"
| "hold_tap_strategy PermissiveHold w q =
     (if permissive_scan q then (Some WaHold, False) else (None, False))"
| "hold_tap_strategy (HtCustom func) w q = func q (w_coord w)"

definition hold_tap_reset :: "'t waiting_state \<Rightarrow> queued list \<Rightarrow> 't waiting_state" where
  "hold_tap_reset w q =
     (case w_on_press_reset w of
        Some v \<Rightarrow> if q \<noteq> [] \<and> is_press (q_event (last q)) then w\<lparr>w_timeout := v\<rparr> else w
      | None \<Rightarrow> w)"

definition hold_tap_finish :: "'t waiting_state \<Rightarrow> queued list \<Rightarrow> bool \<Rightarrow> waiting_action option" where
  "hold_tap_finish w q skip_timeout =
     (case find (\<lambda>s. is_corresponding_release (w_coord w) (q_event s)) q of
        Some s \<Rightarrow>
          if sat_sub (w_delay w) (q_since s) \<le> w_timeout w then Some WaTap else Some WaTimeout
      | None \<Rightarrow> if w_timeout w = 0 \<and> \<not> skip_timeout then Some WaTimeout else None)"

definition handle_hold_tap ::
  "hold_tap_config \<Rightarrow> queued list \<Rightarrow> 't waiting_state \<Rightarrow> waiting_action option \<times> 't waiting_state"
where
  "handle_hold_tap cfg q w =
     (if queue_len_u8 q = w_prev_queue_len w \<and> 0 < w_timeout w then (None, w)
      else
        let w1 = (hold_tap_reset w q)\<lparr>w_prev_queue_len := queue_len_u8 q\<rparr>;
            (early, skip) = hold_tap_strategy cfg w1 q in
        case early of
          Some wa \<Rightarrow> (Some wa, w1)
        | None \<Rightarrow> (hold_tap_finish w1 q skip, w1))"

section \<open>Tap-dance\<close>

text \<open>\<open>evict_same_coord_events\<close>: of the key's own events only the last release is left.\<close>

fun evict_events :: "kcoord \<Rightarrow> u16 \<Rightarrow> queued list \<Rightarrow> queued list" where
  "evict_events c releases [] = []"
| "evict_events c releases (s # q) =
     (if is_corresponding_release c (q_event s) then
        (if 0 < releases then evict_events c (sat_sub releases 1) q
         else s # evict_events c releases q)
      else if is_corresponding_press c (q_event s) then evict_events c releases q
      else s # evict_events c releases q)"

definition evict_same_coord_events :: "kcoord \<Rightarrow> u16 \<Rightarrow> queued list \<Rightarrow> queued list" where
  "evict_same_coord_events c num_taps q = evict_events c (sat_sub num_taps 1) q"

text \<open>The \<open>try_fold\<close>: the taps counted, and whether another key interrupted the counting. The
  count cannot wrap, as the queue is shorter than \<open>2 ^ 16\<close>.\<close>

fun count_taps :: "kcoord \<Rightarrow> queued list \<Rightarrow> u16 \<Rightarrow> u16 \<times> bool" where
  "count_taps c [] n = (n, False)"
| "count_taps c (s # q) n =
     (if is_corresponding_press c (q_event s) then count_taps c q (n + 1)
      else if is_press (q_event s) then (n, True)
      else count_taps c q n)"

definition handle_tap_dance ::
  "u16 \<Rightarrow> nat \<Rightarrow> 't waiting_state \<Rightarrow> queued list \<Rightarrow> (waiting_action option \<times> u16) \<times> queued list"
where
  "handle_tap_dance num_taps max_taps w q =
     (if queue_len_u8 q = w_prev_queue_len w \<and> 0 < w_timeout w then ((None, num_taps), q)
      else if w_timeout w = 0 then
        ((Some WaTap, num_taps), evict_same_coord_events (w_coord w) num_taps q)
      else
        (case count_taps (w_coord w) q 1 of (n, interrupted) \<Rightarrow>
           if interrupted \<or> max_taps \<le> unat n
           then ((Some WaTap, n), evict_same_coord_events (w_coord w) n q)
           else ((None, n), q)))"

section \<open>Chords\<close>

definition keys_or_0 :: "'t chords_group \<Rightarrow> kcoord \<Rightarrow> chord_keys" where
  "keys_or_0 g c = (case get_keys g c of None \<Rightarrow> 0 | Some k \<Rightarrow> k)"

text \<open>An event that came after the chord's time ran out is not part of it.\<close>

definition chord_too_late :: "'t waiting_state \<Rightarrow> queued \<Rightarrow> bool" where
  "chord_too_late w s \<longleftrightarrow> w_timeout w < sat_sub (w_delay w) (q_since s)"

record chord_scan =
  cs_active :: chord_keys
  cs_ok :: bool
  cs_handled :: nat
  cs_released :: "kcoord option"

text \<open>The \<open>try_fold\<close> of \<open>handle_chord\<close>; \<open>cs_ok\<close> is \<open>False\<close> for its \<open>Err\<close>.\<close>

fun scan_chord :: "'t chords_group \<Rightarrow> 't waiting_state \<Rightarrow> queued list \<Rightarrow> chord_scan \<Rightarrow> chord_scan" where
  "scan_chord g w [] s = s"
| "scan_chord g w (q # qs) s =
     (if chord_too_late w q then scan_chord g w qs s
      else case get_keys g (event_coord (q_event q)) of
        Some ks \<Rightarrow>
          (case q_event q of
             Press i j \<Rightarrow>
               scan_chord g w qs
                 (s\<lparr>cs_active := cs_active s OR ks, cs_handled := Suc (cs_handled s)\<rparr>)
           | Release i j \<Rightarrow> s\<lparr>cs_ok := False, cs_released := Some (i, j)\<rparr>)
      | None \<Rightarrow>
          (if is_press (q_event q) then s\<lparr>cs_ok := False\<rparr> else scan_chord g w qs s))"

text \<open>The first \<open>n\<close> presses of chord keys leave the queue and are returned.\<close>

fun take_chord_presses ::
  "'t chords_group \<Rightarrow> 't waiting_state \<Rightarrow> nat \<Rightarrow> queued list \<Rightarrow> kcoord list \<Rightarrow> queued list \<times> kcoord list"
where
  "take_chord_presses g w n [] pq = ([], pq)"
| "take_chord_presses g w n (s # q) pq =
     (if \<not> chord_too_late w s \<and> is_press (q_event s)
         \<and> get_keys g (event_coord (q_event s)) \<noteq> None \<and> 0 < n
      then take_chord_presses g w (n - 1) q (vpush QUEUE_SIZE (event_coord (q_event s)) pq)
      else (case take_chord_presses g w n q pq of (q', pq') \<Rightarrow> (s # q', pq')))"

subsection \<open>Decomposition\<close>

definition CHORD_KEYS_BITS :: nat where "CHORD_KEYS_BITS = 128"

text \<open>The masks of the pressed chord keys in order of their presses, and the coordinate whose
  release ends the chord. The order is kept in an array of 128 places.\<close>

fun chord_order ::
  "'t chords_group \<Rightarrow> 't waiting_state \<Rightarrow> queued list \<Rightarrow> chord_keys \<Rightarrow> chord_keys list \<Rightarrow> kcoord
     \<Rightarrow> (chord_keys list \<times> kcoord) res" where
  "chord_order g w [] active ks c = Inr (ks, c)"
| "chord_order g w (q # qs) active ks c =
     (if chord_too_late w q then chord_order g w qs active ks c
      else case get_keys g (event_coord (q_event q)) of
        Some k \<Rightarrow>
          (case q_event q of
             Press i j \<Rightarrow>
               (if (active OR k) \<noteq> active then
                  (if length ks < CHORD_KEYS_BITS
                   then chord_order g w qs (active OR k) (ks @ [k]) c else Inl Panic)
                else chord_order g w qs (active OR k) ks c)
           | Release i j \<Rightarrow> Inr (ks, (i, j)))
      | None \<Rightarrow>
          (if is_press (q_event q) then Inr (ks, c) else chord_order g w qs active ks c))"

definition coord_for_chord ::
  "'t chords_group \<Rightarrow> 't waiting_state \<Rightarrow> queued list \<Rightarrow> kcoord \<Rightarrow> chord_keys \<Rightarrow> kcoord" where
  "coord_for_chord g w q dflt msk =
     (if (keys_or_0 g dflt AND msk) \<noteq> 0 then dflt
      else if w_coord w \<noteq> dflt \<and> (keys_or_0 g (w_coord w) AND msk) \<noteq> 0 then w_coord w
      else case find (\<lambda>s. (keys_or_0 g (event_coord (q_event s)) AND msk) \<noteq> 0) q of
             Some s \<Rightarrow> event_coord (q_event s)
           | None \<Rightarrow> dflt)"

definition or_masks :: "chord_keys list \<Rightarrow> chord_keys" where
  "or_masks ks = fold (\<lambda>k acc. acc OR k) ks 0"

definition sub_chord :: "chord_keys list \<Rightarrow> nat \<Rightarrow> nat \<Rightarrow> chord_keys" where
  "sub_chord ks start en = or_masks (take (en - start) (drop start ks))"

text \<open>The inner loop: shrink from the end until a defined chord is found, which is pushed.\<close>

function shrink_chord ::
  "'t chords_group \<Rightarrow> chord_keys list \<Rightarrow> (chord_keys \<Rightarrow> 't action \<Rightarrow> 'q \<Rightarrow> 'q) \<Rightarrow> nat \<Rightarrow> nat \<Rightarrow> 'q \<Rightarrow> nat \<times> 'q"
where
  "shrink_chord g ks push start en aq =
     (if en \<le> start then (en, aq)
      else case get_chord g (sub_chord ks start en) of
             Some a \<Rightarrow> (en, push (sub_chord ks start en) a aq)
           | None \<Rightarrow> shrink_chord g ks push start (en - 1) aq)"
  by pat_completeness auto
termination by (relation "measure (\<lambda>(g, ks, push, start, en, aq). en)") auto

text \<open>The outer loop; \<open>end\<close> is \<open>len\<close> whenever an iteration starts.\<close>

function decompose_loop ::
  "'t chords_group \<Rightarrow> chord_keys list \<Rightarrow> (chord_keys \<Rightarrow> 't action \<Rightarrow> 'q \<Rightarrow> 'q) \<Rightarrow> nat \<Rightarrow> 'q \<Rightarrow> 'q"
where
  "decompose_loop g ks push start aq =
     (if start < length ks then
        (case get_chord g (sub_chord ks start (length ks)) of
           Some a \<Rightarrow>
             decompose_loop g ks push (length ks) (push (sub_chord ks start (length ks)) a aq)
         | None \<Rightarrow>
             (case shrink_chord g ks push start (length ks - 1) aq of (en, aq') \<Rightarrow>
                decompose_loop g ks push (if en \<le> start then start + 1 else en) aq'))
      else aq)"
  by pat_completeness auto
termination by (relation "measure (\<lambda>(g, ks, push, start, aq). length ks - start)") auto

declare shrink_chord.simps [simp del] decompose_loop.simps [simp del]

definition decompose_chord_into_action_queue ::
  "'t chords_group \<Rightarrow> 't waiting_state \<Rightarrow> queued list \<Rightarrow> 't queued_action list
     \<Rightarrow> 't queued_action list res" where
  "decompose_chord_into_action_queue g w q aq =
     and_then (chord_order g w q (keys_or_0 g (w_coord w)) [keys_or_0 g (w_coord w)] (w_coord w))
       (\<lambda>(ks, dflt).
     and_then (checked_add (w_delay w) (w_ticks w)) (\<lambda>delay.
       Inr (decompose_loop g ks
              (\<lambda>msk a. wpush ACTION_QUEUE_LEN (coord_for_chord g w q dflt msk, delay, a, []))
              0 aq)))"

text \<open>The result is \<open>None\<close> while chording may go on.\<close>

definition handle_chord ::
  "'t chords_group \<Rightarrow> 't waiting_state \<Rightarrow> queued list \<Rightarrow> 't queued_action list
     \<Rightarrow> ((waiting_action \<times> 't action \<times> kcoord list) option
          \<times> 't waiting_state \<times> queued list \<times> 't queued_action list) res"
where
  "handle_chord g w q aq =
     (if queue_len_u8 q = w_prev_queue_len w \<and> 0 < sat_sub (w_timeout w) (w_delay w)
      then Inr (None, w, q, aq)
      else
        let w1 = w\<lparr>w_prev_queue_len := queue_len_u8 q\<rparr>;
            s = scan_chord g w1 q
                  \<lparr>cs_active = keys_or_0 g (w_coord w), cs_ok = True, cs_handled = 0,
                   cs_released = None\<rparr>;
            ok = (cs_ok s \<and> sat_sub (w_timeout w) (w_delay w) \<noteq> 0);
            w2 = (case cs_released s of Some c \<Rightarrow> w1\<lparr>w_coord := c\<rparr> | None \<Rightarrow> w1);
            done = (\<lambda>wa a w' aq'.
              case take_chord_presses g w' (cs_handled s) q [w_coord w] of (q', pq) \<Rightarrow>
                (Some (wa, a, pq), w', q', aq')) in
        if ok then
          (case get_chord_if_unambiguous g (cs_active s) of
             None \<Rightarrow> Inr (None, w1, q, aq)
           | Some a \<Rightarrow> Inr (done WaTap a w2 aq))
        else
          (case get_chord g (cs_active s) of
             Some a \<Rightarrow> Inr (done WaTap a w2 aq)
           | None \<Rightarrow>
               and_then (decompose_chord_into_action_queue g w1 q aq)
                 (\<lambda>aq'. Inr (done WaNoOp NoOp w1 aq'))))"

section \<open>One tick of a waiting state\<close>

text \<open>\<open>tick_wt\<close>: the decision with the presses it consumed, the state and both queues.\<close>

type_synonym 't wt_result =
  "(waiting_action \<times> kcoord list option) option
     \<times> 't waiting_state \<times> queued list \<times> 't queued_action list"

definition tick_wt_tap_dance ::
  "'t tap_dance_state \<Rightarrow> 't waiting_state \<Rightarrow> queued list \<Rightarrow> 't queued_action list \<Rightarrow> 't wt_result res"
where
  "tick_wt_tap_dance tds w q aq =
     (case handle_tap_dance (tds_num_taps tds) (length (tds_actions tds)) w q of
        ((ret, num_taps), q') \<Rightarrow>
          let idx = min (unat num_taps) (length (tds_actions tds)) - 1;
              w1 = w\<lparr>w_prev_queue_len := queue_len_u8 q'\<rparr>;
              w2 = (if tds_num_taps tds < num_taps then w1\<lparr>w_timeout := tds_timeout tds\<rparr> else w1);
              w3 = w2\<lparr>w_config := WcTapDance (tds\<lparr>tds_num_taps := num_taps\<rparr>)\<rparr> in
          case ret of
            None \<Rightarrow> Inr (None, w3, q', aq)
          | Some wa \<Rightarrow>
              (if idx < length (tds_actions tds)
               then Inr (Some (wa, None), w3\<lparr>w_tap := tds_actions tds ! idx\<rparr>, q', aq)
               else Inl Panic))"

definition tick_wt ::
  "'t waiting_state \<Rightarrow> queued list \<Rightarrow> 't queued_action list \<Rightarrow> 't wt_result res" where
  "tick_wt w0 q aq =
     (let w = w0\<lparr>w_timeout := sat_sub (w_timeout w0) 1, w_ticks := sat_add (w_ticks w0) 1\<rparr> in
      case w_config w of
        WcHoldTap htc \<Rightarrow>
          (case handle_hold_tap htc q w of (ret, w') \<Rightarrow>
             Inr (map_option (\<lambda>wa. (wa, None)) ret, w', q, aq))
      | WcTapDance tds \<Rightarrow> tick_wt_tap_dance tds w q aq
      | WcChord g \<Rightarrow>
          and_then (handle_chord g w q aq) (\<lambda>(r, w', q', aq').
            case r of
              None \<Rightarrow> Inr (None, w', q', aq')
            | Some (wa, a, pq) \<Rightarrow> Inr (Some (wa, Some pq), w'\<lparr>w_tap := a\<rparr>, q', aq')))"

end
