(* ===== verification/Decisions.thy ===== *)
theory Decisions
  imports Waiting
begin

text \<open>
  The decisions of waiting states, specified without loops: when a hold-tap key becomes a
  hold, what the tap-dance counter counts and what it leaves in the queue, and how an
  undefined chord is split into defined ones (theory \<open>Waiting\<close> has the code's versions).
\<close>

section \<open>Hold-tap strategies\<close>

text \<open>Position \<open>i\<close> of the queue is a press that is released later in the queue.\<close>

definition tapped_at :: "queued list \<Rightarrow> nat \<Rightarrow> bool" where
  "tapped_at q i \<longleftrightarrow>
     i < length q \<and> (\<exists>r c. q_event (q ! i) = Press r c \<and>
       (\<exists>k. i < k \<and> k < length q \<and> q_event (q ! k) = Release r c))"

definition hold_condition :: "hold_tap_config \<Rightarrow> u16 \<Rightarrow> queued list \<Rightarrow> bool" where
  "hold_condition cfg ticks q = (case cfg of
     HtDefault \<Rightarrow> False
   | HoldOnOtherKeyPress \<Rightarrow> \<exists>s \<in> set q. is_press (q_event s)
   | PermissiveHold \<Rightarrow> \<exists>i. tapped_at q i
   | Order buffer \<Rightarrow> \<exists>i. tapped_at q i \<and> unat buffer \<le> unat ticks - unat (q_since (q ! i))
   | HtCustom _ \<Rightarrow> False)"

lemma ex_nat_split: "(\<exists>i. P i) \<longleftrightarrow> P 0 \<or> (\<exists>i. P (Suc i))"
  by (metis not0_implies_Suc)

lemma tapped_at_0:
  "tapped_at (q # qs) 0 \<longleftrightarrow>
     is_press (q_event q) \<and> list_ex (\<lambda>r. q_event r = Release (fst (event_coord (q_event q)))
                                             (snd (event_coord (q_event q)))) qs"
proof -
  have "(\<exists>k. 0 < k \<and> k < length (q # qs) \<and> q_event ((q # qs) ! k) = e) = (\<exists>r \<in> set qs. q_event r = e)" for e
    by (subst ex_nat_split) (auto simp: in_set_conv_nth, metis nth_mem)
  then show ?thesis by (cases "q_event q") (auto simp: tapped_at_def list_ex_iff)
qed

lemma tapped_at_Suc: "tapped_at (q # qs) (Suc i) = tapped_at qs i"
proof
  assume "tapped_at (q # qs) (Suc i)"
  then obtain r c k where k: "i < length qs" "q_event (qs ! i) = Press r c" "Suc i < k" "k < Suc (length qs)"
    "q_event ((q # qs) ! k) = Release r c" by (auto simp: tapped_at_def)
  obtain k' where "k = Suc k'" using k(3) by (cases k) auto
  then show "tapped_at qs i" using k by (auto simp: tapped_at_def)
next
  assume "tapped_at qs i"
  then obtain r c k where "i < length qs" "q_event (qs ! i) = Press r c" "i < k" "k < length qs"
    "q_event (qs ! k) = Release r c" by (auto simp: tapped_at_def)
  then show "tapped_at (q # qs) (Suc i)"
    by (auto simp: tapped_at_def intro!: exI [of _ "Suc k"])
qed

lemma permissive_scan_iff: "permissive_scan q \<longleftrightarrow> (\<exists>i. tapped_at q i)"
proof (induction q)
  case Nil
  then show ?case by (simp add: tapped_at_def)
next
  case (Cons s q)
  then show ?case by (subst ex_nat_split) (auto simp: tapped_at_0 tapped_at_Suc)
qed

lemma order_scan_iff:
  "order_scan ticks buffer q \<longleftrightarrow>
     (\<exists>i. tapped_at q i \<and> unat buffer \<le> unat ticks - unat (q_since (q ! i)))"
proof (induction q)
  case Nil
  then show ?case by (simp add: tapped_at_def)
next
  case (Cons s q)
  then show ?case
    by (subst ex_nat_split)
      (auto simp: tapped_at_0 tapped_at_Suc not_less word_le_nat_alt unat_sat_sub)
qed

lemma hold_tap_strategy_iff:
  assumes "\<forall>f. cfg \<noteq> HtCustom f"
  shows "hold_tap_strategy cfg w q = (if hold_condition cfg (w_ticks w) q then Some WaHold else None, False)"
  using assms
  by (cases cfg) (auto simp: hold_condition_def permissive_scan_iff order_scan_iff list_ex_iff)

lemma reset_same [simp]:
  "w_ticks (hold_tap_reset w q) = w_ticks w" "w_coord (hold_tap_reset w q) = w_coord w"
  "w_delay (hold_tap_reset w q) = w_delay w"
  by (auto simp: hold_tap_reset_def split: option.split)


section \<open>Tap-dance\<close>

definition other_press :: "kcoord \<Rightarrow> queued \<Rightarrow> bool" where
  "other_press c s \<longleftrightarrow> is_press (q_event s) \<and> \<not> is_corresponding_press c (q_event s)"

lemma count_taps_spec:
  "count_taps c q n =
     (n + of_nat (length (filter (\<lambda>s. is_corresponding_press c (q_event s))
                            (takeWhile (\<lambda>s. \<not> other_press c s) q))),
      list_ex (other_press c) q)"
proof (induction q arbitrary: n)
  case Nil
  then show ?case by simp
next
  case (Cons s q)
  then show ?case by (auto simp: other_press_def algebra_simps)
qed

definition own_event :: "kcoord \<Rightarrow> queued \<Rightarrow> bool" where
  "own_event c s \<longleftrightarrow> event_coord (q_event s) = c"

lemma own_event_cases:
  "own_event c s = (is_corresponding_press c (q_event s) \<or> is_corresponding_release c (q_event s))"
  by (cases "q_event s") (auto simp: own_event_def is_corresponding_press_def is_corresponding_release_def)

lemma evict_events_spec:
  "filter (\<lambda>s. \<not> own_event c s) (evict_events c n q) = filter (\<lambda>s. \<not> own_event c s) q
   \<and> filter (own_event c) (evict_events c n q)
     = drop (unat n) (filter (\<lambda>s. is_corresponding_release c (q_event s)) q)"
proof (induction c n q rule: evict_events.induct)
  case (1 c n)
  then show ?case by simp
next
  case (2 c n s q)
  have np: "is_corresponding_release c e \<Longrightarrow> \<not> is_corresponding_press c e" for e
    by (cases e) (auto simp: is_corresponding_release_def is_corresponding_press_def)
  show ?case
  proof (cases "is_corresponding_release c (q_event s)")
    case True
    then show ?thesis
    proof (cases "0 < n")
      case True
      then obtain k where "unat n = Suc k" by (cases "unat n") (auto simp: word_gt_0 unat_eq_zero)
      then show ?thesis
        using 2 True \<open>is_corresponding_release c (q_event s)\<close>
        by (simp add: own_event_cases unat_sat_sub)
    next
      case False
      then have "n = 0" by (simp add: word_gt_0)
      then show ?thesis using 2 \<open>is_corresponding_release c (q_event s)\<close> by (simp add: own_event_cases)
    qed
  next
    case False
    then show ?thesis using 2 by (auto simp: own_event_cases)
  qed
qed

text \<open>The lazy tap-dance. On a tick at which its queue changed and its time is not up, the
  number of taps is one more than the presses of the key before the first press of another
  key. The dance is decided exactly when another key was pressed or all its taps are done,
  and then of the key's own events only its releases after the first \<open>taps - 1\<close> stay in the
  queue, while every other event stays, in order.\<close>

theorem tap_dance_decision:
  assumes "queue_len_u8 q \<noteq> w_prev_queue_len w" and "w_timeout w \<noteq> 0"
    and "count = Suc (length (filter (\<lambda>s. is_corresponding_press (w_coord w) (q_event s))
                            (takeWhile (\<lambda>s. \<not> other_press (w_coord w) s) q)))"
    and "count < 2 ^ 16"
    and "handle_tap_dance num_taps max_taps w q = ((decision, taps), q')"
  shows "unat taps = count
    \<and> (decision = Some WaTap \<longleftrightarrow> list_ex (other_press (w_coord w)) q \<or> max_taps \<le> count)
    \<and> (decision = None \<longrightarrow> q' = q)
    \<and> (decision \<noteq> None \<longrightarrow>
         filter (\<lambda>s. \<not> own_event (w_coord w) s) q' = filter (\<lambda>s. \<not> own_event (w_coord w) s) q
         \<and> filter (own_event (w_coord w)) q' = drop (count - 1)
             (filter (\<lambda>s. is_corresponding_release (w_coord w) (q_event s)) q))"
proof -
  let ?n = "length (filter (\<lambda>s. is_corresponding_press (w_coord w) (q_event s))
                            (takeWhile (\<lambda>s. \<not> other_press (w_coord w) s) q))"
  have u: "unat (1 + of_nat ?n :: u16) = count"
  proof -
    have "(1 + of_nat ?n :: u16) = of_nat (Suc ?n)" by simp
    then show ?thesis using assms(3,4) by (simp only: unat_of_nat) simp
  qed
  then have e: "unat (sat_sub (1 + of_nat ?n :: u16) 1) = count - 1" by (simp add: unat_sat_sub)
  show ?thesis
    using assms(1,2,5) u e
    by (auto simp: handle_tap_dance_def count_taps_spec evict_same_coord_events_def evict_events_spec
        word_gt_0 split: if_splits)
qed

section \<open>Splitting a chord\<close>

text \<open>The specification: the longest non-empty prefix that is a defined chord is taken, and the
  rest is split likewise; a first key without any chord is skipped.\<close>

fun longest_chord :: "'t chords_group \<Rightarrow> chord_keys list \<Rightarrow> nat \<Rightarrow> (nat \<times> 't action) option" where
  "longest_chord g ks 0 = None"
| "longest_chord g ks (Suc n) =
     (case get_chord g (or_masks (take (Suc n) ks)) of
        Some a \<Rightarrow> Some (Suc n, a) | None \<Rightarrow> longest_chord g ks n)"

lemma longest_chord_bounds: "longest_chord g ks n = Some (k, a) \<Longrightarrow> 0 < k \<and> k \<le> n
    \<and> get_chord g (or_masks (take k ks)) = Some a"
  by (induction n) (auto split: option.splits)

function split_chord :: "'t chords_group \<Rightarrow> chord_keys list \<Rightarrow> (chord_keys \<times> 't action) list" where
  "split_chord g ks =
     (if ks = [] then []
      else case longest_chord g ks (length ks) of
        Some (k, a) \<Rightarrow> (or_masks (take k ks), a) # split_chord g (drop k ks)
      | None \<Rightarrow> split_chord g (tl ks))"
  by pat_completeness auto
termination
  by (relation "measure (\<lambda>(g, ks). length ks)") (auto dest: longest_chord_bounds)

declare split_chord.simps [simp del]

lemma shrink_chord_longest:
  assumes "start < length ks"
  shows "shrink_chord g ks push start (start + n) aq =
    (case longest_chord g (drop start ks) n of
       Some (k, a) \<Rightarrow> (start + k, push (or_masks (take k (drop start ks))) a aq)
     | None \<Rightarrow> (start, aq))"
proof (induction n)
  case 0
  then show ?case by (subst shrink_chord.simps) simp
next
  case (Suc n)
  then show ?case by (subst shrink_chord.simps) (simp add: sub_chord_def split: option.split)
qed

text \<open>C9: When the pressed keys of a chord group are no defined chord, they are activated as the
  greedy split of the presses, in order: the loops of the code compute exactly the
  specification \<open>split_chord\<close>.\<close>

theorem decompose_loop_split:
  "decompose_loop g ks push start aq = fold (\<lambda>(m, a). push m a) (split_chord g (drop start ks)) aq"
proof (induction "length ks - start" arbitrary: start aq rule: less_induct)
  case less
  show ?case
  proof (cases "start < length ks")
    case False
    then show ?thesis by (subst decompose_loop.simps, subst split_chord.simps) simp
  next
    case True
    let ?ds = "drop start ks"
    obtain n where n: "length ?ds = Suc n" using True by (cases "length ?ds") auto
    then have l1: "length ks - 1 = start + n" and l2: "length ks = start + Suc n" by auto
    have whole: "sub_chord ks start (length ks) = or_masks ?ds" by (simp add: sub_chord_def)
    show ?thesis
    proof (cases "get_chord g (or_masks ?ds)")
      case (Some a)
      then have "longest_chord g ?ds (length ?ds) = Some (Suc n, a)" using n by simp
      then have "split_chord g ?ds = (or_masks ?ds, a) # split_chord g []"
        using True n by (subst split_chord.simps) simp
      moreover have "decompose_loop g ks push start aq
          = decompose_loop g ks push (length ks) (push (or_masks ?ds) a aq)"
        using True Some whole by (subst decompose_loop.simps) simp
      ultimately show ?thesis using less [of "length ks"] True by simp
    next
      case None
      then have lc: "longest_chord g ?ds (length ?ds) = longest_chord g ?ds n" using n by simp
      have step: "decompose_loop g ks push start aq =
          (case shrink_chord g ks push start (start + n) aq of (en, aq') \<Rightarrow>
             decompose_loop g ks push (if en \<le> start then start + 1 else en) aq')"
        using True None whole l1 by (subst decompose_loop.simps) simp
      show ?thesis
      proof (cases "longest_chord g ?ds n")
        case none: None
        have "split_chord g ?ds = split_chord g (drop (start + 1) ks)"
          using True lc none by (subst split_chord.simps) (simp add: drop_Suc tl_drop)
        then show ?thesis
          using step none less [of "start + 1"] True by (simp add: shrink_chord_longest [OF True])
      next
        case (Some ka)
        obtain k a where ka: "ka = (k, a)" by fastforce
        have k: "0 < k" using longest_chord_bounds [of g ?ds n k a] Some ka by simp
        have "split_chord g ?ds = (or_masks (take k ?ds), a) # split_chord g (drop (start + k) ks)"
          using True lc Some ka by (subst split_chord.simps) (simp add: add.commute)
        then show ?thesis
          using step Some ka k less [of "start + k"] True by (simp add: shrink_chord_longest [OF True])
      qed
    qed
  qed
qed

section \<open>Concrete runs\<close>

definition example_waiting :: "nat waiting_state" where
  "example_waiting =
     \<lparr>w_coord = (0, 1), w_timeout = 100, w_on_press_reset = None, w_delay = 1, w_ticks = 20,
      w_hold = KeyCode 29, w_tap = KeyCode 30, w_timeout_action = KeyCode 29,
      w_config = WcHoldTap PermissiveHold, w_layer_stack = [], w_prev_queue_len = 0xFF\<rparr>"


text \<open>Two more taps of the key, then another key: three taps.\<close>

theorem tap_dance_decision_witness:
  "\<exists>q'. handle_tap_dance 1 5 example_waiting
     [\<lparr>q_event = Release 0 1, q_since = 5\<rparr>, \<lparr>q_event = Press 0 1, q_since = 4\<rparr>,
      \<lparr>q_event = Release 0 1, q_since = 3\<rparr>, \<lparr>q_event = Press 0 1, q_since = 2\<rparr>,
      \<lparr>q_event = Press 0 7, q_since = 1\<rparr>] = ((Some WaTap, 3), q')
     \<and> filter (own_event (0, 1)) q' = []"
proof -
  let ?q = "[\<lparr>q_event = Release 0 1, q_since = 5\<rparr>, \<lparr>q_event = Press 0 1, q_since = 4\<rparr>,
      \<lparr>q_event = Release 0 1, q_since = 3\<rparr>, \<lparr>q_event = Press 0 1, q_since = 2\<rparr>,
      \<lparr>q_event = Press 0 7, q_since = 1 :: u16\<rparr>]"
  obtain d taps q' where h: "handle_tap_dance 1 5 example_waiting ?q = ((d, taps), q')"
    by (metis surj_pair)
  have c: "3 = Suc (length (filter (\<lambda>s. is_corresponding_press (w_coord example_waiting) (q_event s))
      (takeWhile (\<lambda>s. \<not> other_press (w_coord example_waiting) s) ?q)))"
    by (simp add: example_waiting_def other_press_def is_corresponding_press_def)
  have o1: "list_ex (other_press (w_coord example_waiting)) ?q"
    by (simp add: example_waiting_def other_press_def is_corresponding_press_def)
  have "unat taps = 3 \<and> d = Some WaTap \<and> filter (own_event (w_coord example_waiting)) q' = drop 2
      (filter (\<lambda>s. is_corresponding_release (w_coord example_waiting) (q_event s)) ?q)"
    using tap_dance_decision [OF _ _ c _ h] o1 by (simp add: queue_len_u8_def example_waiting_def)
  moreover from this have "taps = 3" by (simp add: word_unat_eq_iff)
  ultimately show ?thesis
    using h by (simp add: example_waiting_def is_corresponding_release_def)
qed

end
