(* ===== verification/ChordsV2.thy ===== *)
theory ChordsV2
  imports Waiting
begin

text \<open>
  Chords of the second version (\<open>keyberon/src/chord.rs\<close>): a queue in front of the layout's
  queue in which presses wait while they may still complete a chord, and the list of active
  chords with their release tracking. Overflowing a buffer where the code asserts that it does
  not, and a negative difference of ages, are panics.
\<close>

section \<open>State\<close>

datatype release_behaviour = OnFirstRelease | OnLastRelease

record 't chord_v2 =
  cv_action :: "'t action"
  cv_keys :: "u16 list"
  cv_pending :: u16
  cv_disabled_layers :: "u16 list"
  cv_release :: release_behaviour

definition SMOL_Q_LEN :: nat where "SMOL_Q_LEN = 16"
definition ACTIVE_CHORDS_LEN :: nat where "ACTIVE_CHORDS_LEN = 10"

datatype active_chord_status = Unread | UnreadReleased | Releasable | Released

record 't active_chord =
  ach_coordinate :: u16
  ach_remaining :: "u16 list"
  ach_keys :: "u16 list"
  ach_action :: "'t action"
  ach_status :: active_chord_status
  ach_delay :: u16

definition tick_ach :: "'t active_chord \<Rightarrow> 't active_chord" where
  "tick_ach a = a\<lparr>ach_delay := sat_add (ach_delay a) 1\<rparr>"

record 't chords_v2 =
  c2_queue :: "queued list"
  c2_chords :: "u16 \<Rightarrow> 't chord_v2 list option"
  c2_active :: "'t active_chord list"
  c2_ignore :: u16
  c2_configured_ignore :: u16
  c2_until_change :: u16
  c2_prev_layer :: u16
  c2_prev_queue_len :: u8
  c2_next_coord :: u16

definition chords_v2_new :: "(u16 \<Rightarrow> 't chord_v2 list option) \<Rightarrow> u16 \<Rightarrow> 't chords_v2 res" where
  "chords_v2_new chords ticks_ignore =
     (if 5 \<le> ticks_ignore then
        Inr \<lparr>c2_queue = [], c2_chords = chords, c2_active = [], c2_ignore = 0,
             c2_configured_ignore = ticks_ignore, c2_until_change = 0, c2_prev_layer = 0xFFFF,
             c2_prev_queue_len = 0xFF, c2_next_coord = KEY_MAX + 1\<rparr>
      else Inl Panic)"

definition is_idle_chv2 :: "'t chords_v2 \<Rightarrow> bool" where
  "is_idle_chv2 c \<longleftrightarrow> c2_queue c = [] \<and> c2_active c = []"

definition accepts_chords_chv2 :: "'t chords_v2 \<Rightarrow> bool" where
  "accepts_chords_chv2 c \<longleftrightarrow> c2_ignore c = 0"

definition push_back_chv2 :: "queued \<Rightarrow> 't chords_v2 \<Rightarrow> queued option \<times> 't chords_v2" where
  "push_back_chv2 item c =
     (case wrap_push_back QUEUE_SIZE item (c2_queue c) of (q, over) \<Rightarrow> (over, c\<lparr>c2_queue := q\<rparr>))"

section \<open>Handing actions to the layout\<close>

fun get_action_achs :: "'t active_chord list \<Rightarrow> 't queued_action option \<times> 't active_chord list" where
  "get_action_achs [] = (None, [])"
| "get_action_achs (a # as) =
     (case ach_status a of
        Unread \<Rightarrow>
          (Some ((0, ach_coordinate a), ach_delay a, ach_action a, []),
           a\<lparr>ach_status := Releasable\<rparr> # as)
      | UnreadReleased \<Rightarrow>
          (Some ((0, ach_coordinate a), ach_delay a, ach_action a, []),
           a\<lparr>ach_status := Released\<rparr> # as)
      | _ \<Rightarrow> (case get_action_achs as of (r, as') \<Rightarrow> (r, a # as')))"

definition get_action_chv2 :: "'t chords_v2 \<Rightarrow> 't queued_action option \<times> 't chords_v2" where
  "get_action_chv2 c =
     (case get_action_achs (c2_active c) of (r, as) \<Rightarrow> (r, c\<lparr>c2_active := as\<rparr>))"

section \<open>Draining the queue\<close>

definition next_coord :: "'t chords_v2 \<Rightarrow> u16 \<times> 't chords_v2" where
  "next_coord c =
     (let ret = c2_next_coord c; new = ret + 1 in
      (ret, c\<lparr>c2_next_coord := (if KEY_MAX + 50 < new then KEY_MAX + 1 else new)\<rparr>))"

text \<open>The release of key \<open>j\<close> as the active chords see it.\<close>

definition release_ach :: "u16 \<Rightarrow> 't active_chord \<Rightarrow> 't active_chord" where
  "release_ach j a =
     (if j \<in> set (ach_keys a) then
        let rem = filter (\<lambda>pk. pk \<noteq> j) (ach_remaining a) in
        a\<lparr>ach_remaining := rem,
          ach_status := (if rem = [] then
             (case ach_status a of
                Unread \<Rightarrow> UnreadReleased | UnreadReleased \<Rightarrow> UnreadReleased
              | Releasable \<Rightarrow> Released | Released \<Rightarrow> Released)
             else ach_status a)\<rparr>
      else a)"

fun release_of :: "event \<Rightarrow> u16 option" where
  "release_of (Release i j) = Some j"
| "release_of (Press i j) = None"

definition drain_without_new_activations :: "queued list \<Rightarrow> 't chords_v2 \<Rightarrow> queued list \<times> 't chords_v2"
where
  "drain_without_new_activations dq c =
     (let achs = fold (\<lambda>qd as. case release_of (q_event qd) of
                          Some j \<Rightarrow> map (release_ach j) as | None \<Rightarrow> as) (c2_queue c) (c2_active c) in
      (wextend SMOL_Q_LEN (c2_queue c) dq, c\<lparr>c2_active := achs, c2_queue := []\<rparr>))"

definition smol_push :: "queued \<Rightarrow> queued list \<Rightarrow> queued list res" where
  "smol_push qd dq =
     must_fit (wrap_push_back SMOL_Q_LEN qd dq)"

definition drain_virtual_keys :: "queued list \<Rightarrow> 't chords_v2 \<Rightarrow> (queued list \<times> 't chords_v2) res" where
  "drain_virtual_keys dq c =
     and_then (retain_res (\<lambda>qd dq.
         if fst (event_coord (q_event qd)) = 0 then Inr (True, dq)
         else and_then (smol_push qd dq) (\<lambda>dq'. Inr (False, dq'))) (c2_queue c) dq)
       (\<lambda>(q, dq'). Inr (dq', c\<lparr>c2_queue := q\<rparr>))"

text \<open>The closure of \<open>drain_releases\<close>: captured are the presses seen, the chords, the drain.\<close>

fun drain_release_step ::
  "queued \<Rightarrow> u16 list \<times> 't active_chord list \<times> queued list
     \<Rightarrow> (bool \<times> u16 list \<times> 't active_chord list \<times> queued list) res" where
  "drain_release_step qd (presses, achs, dq) =
     (case q_event qd of
        Press i j \<Rightarrow>
          and_then (must_fit (sat_push SMOL_Q_LEN j presses))
            (\<lambda>presses'. Inr (True, presses', achs, dq))
      | Release i j \<Rightarrow>
          (if presses = []
           then Inr (False, presses, map (release_ach j) achs, wpush SMOL_Q_LEN qd dq)
           else Inr (True, presses, achs, dq)))"

definition drain_releases :: "queued list \<Rightarrow> 't chords_v2 \<Rightarrow> (queued list \<times> 't chords_v2) res" where
  "drain_releases dq c =
     and_then (retain_res drain_release_step (c2_queue c) ([], c2_active c, dq))
       (\<lambda>(q, presses, achs, dq'). Inr (dq', c\<lparr>c2_queue := q, c2_active := achs\<rparr>))"

section \<open>Processing presses\<close>

definition get_active_chord :: "'t chord_v2 \<Rightarrow> u16 \<Rightarrow> u16 \<Rightarrow> bool \<Rightarrow> 't active_chord res" where
  "get_active_chord cch since coord release_found =
     (if cv_release cch = OnLastRelease \<and> SMOL_Q_LEN < length (cv_keys cch) then Inl Panic
      else Inr
        \<lparr>ach_coordinate = coord,
         ach_remaining = (if cv_release cch = OnLastRelease then cv_keys cch else []),
         ach_keys = cv_keys cch,
         ach_action = cv_action cch,
         ach_status = (if release_found \<and> cv_release cch = OnFirstRelease
                       then UnreadReleased else Unread),
         ach_delay = since\<rparr>)"

definition activate_chord ::
  "'t chord_v2 \<Rightarrow> u16 \<Rightarrow> u16 \<Rightarrow> bool \<Rightarrow> 't chords_v2 \<Rightarrow> 't chords_v2 res" where
  "activate_chord cch since coord release_found c =
     and_then (get_active_chord cch since coord release_found) (\<lambda>a.
     and_then (must_fit (sat_push ACTIVE_CHORDS_LEN a (c2_active c))) (\<lambda>as.
       Inr (c\<lparr>c2_active := as\<rparr>)))"

text \<open>A press waiting in the queue: key and age.\<close>

type_synonym press_with_time = "u16 \<times> u16"

text \<open>The presses before a release of one of them, and whether there is such a release.\<close>

fun collect_presses ::
  "queued list \<Rightarrow> press_with_time list \<Rightarrow> (press_with_time list \<times> bool) res" where
  "collect_presses [] ps = Inr (ps, False)"
| "collect_presses (qd # q) ps =
     (case q_event qd of
        Press i j \<Rightarrow>
          and_then (must_fit (sat_push SMOL_Q_LEN (j, q_since qd) ps)) (collect_presses q)
      | Release i j \<Rightarrow>
          (if j \<in> fst ` set ps then Inr (ps, True) else collect_presses q ps))"

text \<open>Same set of keys.\<close>

definition keys_complete :: "press_with_time list \<Rightarrow> 't chord_v2 \<Rightarrow> bool" where
  "keys_complete acc ch \<longleftrightarrow> list_all (\<lambda>pk. list_ex (\<lambda>ap. fst ap = pk) acc) (cv_keys ch)"

definition keys_match :: "press_with_time list \<Rightarrow> 't chord_v2 \<Rightarrow> bool" where
  "keys_match acc ch \<longleftrightarrow>
     list_all (\<lambda>ap. fst ap \<in> set (cv_keys ch)) acc \<and> keys_complete acc ch"

definition find_completed :: "u16 \<Rightarrow> press_with_time list \<Rightarrow> 't chord_v2 list \<Rightarrow> 't chord_v2 option" where
  "find_completed layer acc chs =
     find (keys_match acc) (filter (\<lambda>ch. layer \<notin> set (cv_disabled_layers ch)) chs)"

definition within_pending :: "press_with_time list \<Rightarrow> press_with_time \<Rightarrow> 't chord_v2 \<Rightarrow> bool res" where
  "within_pending acc press ch =
     and_then (checked_sub (snd (hd acc)) (snd press)) (\<lambda>age. Inr (age \<le> cv_pending ch))"

definition min_pending :: "u16 \<Rightarrow> 't chord_v2 \<Rightarrow> u16 \<Rightarrow> u16" where
  "min_pending since ch m = (if since < cv_pending ch then min m (cv_pending ch) else m)"

text \<open>The candidates, the number of chords still possible and the shortest remaining pending
  duration: the cheap path shrinks the candidate list, the other one rescans all chords.\<close>

definition shrink_candidates ::
  "press_with_time list \<Rightarrow> press_with_time \<Rightarrow> u16 \<Rightarrow> 't chord_v2 list
     \<Rightarrow> ('t chord_v2 list \<times> nat \<times> u16) res" where
  "shrink_candidates acc press since cands =
     and_then (retain_res (\<lambda>ch u.
         if fst press \<in> set (cv_keys ch)
         then and_then (within_pending acc press ch) (\<lambda>b. Inr (b, ()))
         else Inr (False, ())) cands ())
       (\<lambda>(cands', _).
         Inr (cands', length cands', fold (min_pending since) cands' 0xFFFF))"

definition scan_candidates ::
  "u16 \<Rightarrow> press_with_time list \<Rightarrow> press_with_time \<Rightarrow> u16 \<Rightarrow> 't chord_v2 list
     \<Rightarrow> ('t chord_v2 list \<times> nat \<times> u16) res" where
  "scan_candidates layer acc press since chs =
     and_then (retain_res (\<lambda>ch (cands, m).
         if list_all (\<lambda>ap. fst ap \<in> set (cv_keys ch)) acc
         then and_then (within_pending acc press ch) (\<lambda>b.
           Inr (b, (if b then (vpush SMOL_Q_LEN ch cands, min_pending since ch m) else (cands, m))))
         else Inr (False, cands, m))
       (filter (\<lambda>ch. layer \<notin> set (cv_disabled_layers ch)) chs) ([], 0xFFFF))
       (\<lambda>(possible, cands, m). Inr (cands, length possible, m))"

record 't press_state =
  pl_chv2 :: "'t chords_v2"
  pl_acc :: "press_with_time list"
  pl_cands :: "'t chord_v2 list"
  pl_prev :: "nat option"

text \<open>\<open>0\<close>: no chord fits any more. Give up the last press and look for a complete chord.\<close>

definition press_none_possible ::
  "u16 \<Rightarrow> 't chord_v2 list \<Rightarrow> u16 \<Rightarrow> bool \<Rightarrow> 't press_state \<Rightarrow> 't press_state res" where
  "press_none_possible layer possible since rel s =
     (let acc = butlast (pl_acc s); c = pl_chv2 s; s' = s\<lparr>pl_acc := acc, pl_cands := []\<rparr> in
      case find_completed layer acc possible of
        Some cch \<Rightarrow>
          (case next_coord c of (coord, c1) \<Rightarrow>
             and_then (activate_chord cch since coord rel c1) (\<lambda>c2. Inr (s'\<lparr>pl_chv2 := c2\<rparr>)))
      | None \<Rightarrow> Inr (s'\<lparr>pl_chv2 := c\<lparr>c2_ignore := c2_configured_ignore c\<rparr>\<rparr>))"

text \<open>The end of an iteration that does not break.\<close>

definition press_continue :: "u16 \<Rightarrow> u16 \<Rightarrow> nat \<Rightarrow> 't press_state \<Rightarrow> 't press_state" where
  "press_continue since min_timeout count s =
     s\<lparr>pl_chv2 := (pl_chv2 s)\<lparr>c2_until_change :=
         (if min_timeout = 0xFFFF then 0 else sat_sub min_timeout since)\<rparr>,
       pl_prev := Some count\<rparr>"

text \<open>One iteration over the presses; the flag says that the loop was left with \<open>break\<close>.\<close>

definition press_step ::
  "u16 \<Rightarrow> 't chord_v2 list \<Rightarrow> u16 \<Rightarrow> bool \<Rightarrow> press_with_time \<Rightarrow> 't press_state
     \<Rightarrow> (bool \<times> 't press_state) res" where
  "press_step layer possible since rel press s0 =
     (let acc = vpush SMOL_Q_LEN press (pl_acc s0) in
      and_then
        (if pl_prev s0 = Some (length (pl_cands s0))
         then shrink_candidates acc press since (pl_cands s0)
         else scan_candidates layer acc press since possible)
        (\<lambda>(cands, count, m).
          let s = s0\<lparr>pl_acc := acc, pl_cands := cands\<rparr> in
          if count = 1 then
            (case next_coord (pl_chv2 s) of (coord, c1) \<Rightarrow>
               if keys_complete acc (hd cands)
               then and_then (activate_chord (hd cands) since coord rel c1)
                      (\<lambda>c2. Inr (True, s\<lparr>pl_chv2 := c2\<rparr>))
               else Inr (False, press_continue since m count (s\<lparr>pl_chv2 := c1\<rparr>)))
          else if count = 0 then
            and_then (press_none_possible layer possible since rel s) (\<lambda>s'. Inr (True, s'))
          else Inr (False, press_continue since m count s)))"

fun press_loop ::
  "u16 \<Rightarrow> 't chord_v2 list \<Rightarrow> u16 \<Rightarrow> bool \<Rightarrow> press_with_time list \<Rightarrow> 't press_state
     \<Rightarrow> 't press_state res" where
  "press_loop layer possible since rel [] s = Inr s"
| "press_loop layer possible since rel (p # ps) s =
     and_then (press_step layer possible since rel p s) (\<lambda>(brk, s').
       if brk then Inr s' else press_loop layer possible since rel ps s')"

text \<open>After the loop: time is up, or a participant was released.\<close>

definition press_timeout ::
  "u16 \<Rightarrow> 't chord_v2 list \<Rightarrow> u16 \<Rightarrow> bool \<Rightarrow> 't press_state \<Rightarrow> 't chords_v2 res" where
  "press_timeout layer possible since rel s =
     (let c = pl_chv2 s in
      if c2_until_change c = 0 \<or> rel then
        (case find_completed layer (pl_acc s)
                (if length (pl_cands s) = SMOL_Q_LEN then possible else pl_cands s) of
           Some cch \<Rightarrow>
             (case next_coord c of (coord, c1) \<Rightarrow> activate_chord cch since coord rel c1)
         | None \<Rightarrow> Inr (c\<lparr>c2_ignore := c2_configured_ignore c\<rparr>))
      else Inr c)"

definition process_presses :: "u16 \<Rightarrow> 't chords_v2 \<Rightarrow> 't chords_v2 res" where
  "process_presses layer c =
     and_then (collect_presses (c2_queue c) []) (\<lambda>(presses, rel).
       case presses of
         [] \<Rightarrow> Inr c
       | (start, _) # _ \<Rightarrow>
           (case c2_chords c start of
              None \<Rightarrow> Inr (c\<lparr>c2_ignore := c2_configured_ignore c\<rparr>)
            | Some possible \<Rightarrow>
                let since = q_since (hd (c2_queue c)) in
                and_then (press_loop layer possible since rel presses
                    \<lparr>pl_chv2 = c, pl_acc = [], pl_cands = [], pl_prev = None\<rparr>) (\<lambda>s.
                and_then (press_timeout layer possible since rel s) (\<lambda>c'.
                  if length (c2_active c) < length (c2_active c') then
                    Inr (c'\<lparr>c2_queue := filter (\<lambda>qd. case q_event qd of
                        Press i j \<Rightarrow> \<not> list_ex (\<lambda>ap. fst ap = j) (pl_acc s)
                      | _ \<Rightarrow> True) (c2_queue c')\<rparr>)
                  else Inr c'))))"

section \<open>A tick\<close>

definition drain_inputs :: "queued list \<Rightarrow> u16 \<Rightarrow> 't chords_v2 \<Rightarrow> (queued list \<times> 't chords_v2) res" where
  "drain_inputs dq layer c =
     (if 0 < c2_ignore c then Inr (drain_without_new_activations dq c)
      else if 0 < c2_until_change c \<and> c2_prev_layer c = layer
              \<and> unat (c2_prev_queue_len c) = length (c2_queue c)
      then Inr (dq, c\<lparr>c2_until_change := sat_sub (c2_until_change c) 1\<rparr>)
      else
        let c1 = c\<lparr>c2_until_change := 0, c2_prev_layer := layer,
                   c2_prev_queue_len := of_nat (length (c2_queue c))\<rparr> in
        and_then (drain_virtual_keys dq c1) (\<lambda>(dq1, c2).
        and_then (drain_releases dq1 c2) (\<lambda>(dq2, c3).
        and_then (process_presses layer c3) (\<lambda>c4. Inr (dq2, c4)))))"

definition clear_released_chords :: "queued list \<Rightarrow> 't chords_v2 \<Rightarrow> (queued list \<times> 't chords_v2) res"
where
  "clear_released_chords dq c =
     and_then (retain_res (\<lambda>a dq.
         if ach_status a = Released
         then and_then (smol_push (queued_new_release 0 (ach_coordinate a)) dq)
                (\<lambda>dq'. Inr (False, dq'))
         else Inr (True, dq)) (c2_active c) dq)
       (\<lambda>(as, dq'). Inr (dq', c\<lparr>c2_active := as\<rparr>))"

definition tick_chv2 :: "u16 \<Rightarrow> 't chords_v2 \<Rightarrow> (queued list \<times> 't chords_v2) res" where
  "tick_chv2 layer c =
     (let c0 = c\<lparr>c2_queue := map tick_qd (c2_queue c), c2_active := map tick_ach (c2_active c)\<rparr> in
      and_then (drain_inputs [] layer c0) (\<lambda>(dq, c1).
        let dq1 = (if length (c2_active c1) \<noteq> length (c2_active c)
                   then wpush SMOL_Q_LEN (queued_new_press (fst TRIGGER_TAPHOLD_COORD)
                                                          (snd TRIGGER_TAPHOLD_COORD)) dq
                   else dq);
            dq2 = (if list_ex (\<lambda>a. ach_status a = UnreadReleased \<or> ach_status a = Released)
                        (c2_active c1)
                   then wpush SMOL_Q_LEN (queued_new_release (fst TRIGGER_TAPHOLD_COORD)
                                                            (snd TRIGGER_TAPHOLD_COORD)) dq1
                   else dq1) in
        and_then (clear_released_chords dq2 c1) (\<lambda>(dq3, c2).
          Inr (dq3, c2\<lparr>c2_ignore := sat_sub (c2_ignore c2) 1\<rparr>))))"

end
