(* ===== verification/ChordPresses.thy ===== *)
theory ChordPresses
  imports ChordsV2
begin

text \<open>
  How the processing of presses acts on the chords: every path through \<open>process_presses\<close> is made
  of a few elementary changes. The locale names them; a relation between the chords before and
  after that is closed under them holds between the chords before and after the whole.
\<close>

lemma next_coord_same [simp]:
  "c2_queue (snd (next_coord c)) = c2_queue c" "c2_active (snd (next_coord c)) = c2_active c"
  by (simp_all add: next_coord_def Let_def)

lemma activate_chord_Inr:
  assumes "activate_chord cch since coord rel c = Inr c'"
  obtains a where "get_active_chord cch since coord rel = Inr a"
    and "length (c2_active c) < ACTIVE_CHORDS_LEN" and "c' = c\<lparr>c2_active := c2_active c @ [a]\<rparr>"
  using assms by (auto simp: activate_chord_def and_then_Inr_iff sat_push_def split: if_splits)

locale press_relation =
  fixes R :: "'t chords_v2 \<Rightarrow> 't chords_v2 \<Rightarrow> bool"
  assumes R_refl: "R c c"
    and R_trans: "R a b \<Longrightarrow> R b c \<Longrightarrow> R a c"
    and R_ignore: "R c (c\<lparr>c2_ignore := i\<rparr>)"
    and R_until: "R c (c\<lparr>c2_until_change := i\<rparr>)"
    and R_coord: "next_coord c = (coord, c1) \<Longrightarrow> R c c1"
    and R_activate: "next_coord c = (coord, c1) \<Longrightarrow> activate_chord cch since coord rel c1 = Inr c2 \<Longrightarrow>
      R c c2"
begin

lemma R_activate_coord:
  "(case next_coord c of (coord, c1) \<Rightarrow> activate_chord cch since coord rel c1) = Inr c' \<Longrightarrow> R c c'"
  using R_activate by (cases "next_coord c") auto

lemma R_continue: "R (pl_chv2 s) (pl_chv2 (press_continue since m count s))"
  by (simp add: press_continue_def R_until)

lemma R_none_possible:
  assumes "press_none_possible layer possible since rel s = Inr s'"
  shows "R (pl_chv2 s) (pl_chv2 s')"
  using assms R_ignore R_activate [of "pl_chv2 s"]
  by (cases "next_coord (pl_chv2 s)")
    (auto simp: press_none_possible_def Let_def and_then_Inr_iff split: option.splits)

lemma R_press_step:
  assumes "press_step layer possible since rel p s = Inr (brk, s')"
  shows "R (pl_chv2 s) (pl_chv2 s')"
proof -
  obtain cands count m where st: "(if pl_prev s = Some (length (pl_cands s))
         then shrink_candidates (vpush SMOL_Q_LEN p (pl_acc s)) p since (pl_cands s)
         else scan_candidates layer (vpush SMOL_Q_LEN p (pl_acc s)) p since possible)
      = Inr (cands, count, m)"
    using assms unfolding press_step_def Let_def and_then_Inr_iff by auto
  let ?s = "s\<lparr>pl_acc := vpush SMOL_Q_LEN p (pl_acc s), pl_cands := cands\<rparr>"
  obtain coord c1 where nc: "next_coord (pl_chv2 s) = (coord, c1)" by fastforce
  consider "s' = press_continue since m count ?s" | "s' = press_continue since m count (?s\<lparr>pl_chv2 := c1\<rparr>)"
    | c2 where "activate_chord (hd cands) since coord rel c1 = Inr c2" "s' = ?s\<lparr>pl_chv2 := c2\<rparr>"
    | "press_none_possible layer possible since rel ?s = Inr s'"
    using assms st nc
    by (cases "count = 1"; cases "count = 0")
      (auto simp: press_step_def Let_def and_then_Inr_iff split: if_splits)
  then show ?thesis
  proof cases
    case 1
    then show ?thesis using R_continue [of ?s] by simp
  next
    case 2
    then show ?thesis
      using R_trans [OF R_coord [OF nc]] R_continue [of "?s\<lparr>pl_chv2 := c1\<rparr>"] by simp
  next
    case 3
    then show ?thesis using R_activate [OF nc] by simp
  next
    case 4
    then show ?thesis using R_none_possible by fastforce
  qed
qed

lemma R_press_loop:
  "press_loop layer possible since rel ps s = Inr s' \<Longrightarrow> R (pl_chv2 s) (pl_chv2 s')"
proof (induction ps arbitrary: s)
  case Nil
  then show ?case by (simp add: R_refl)
next
  case (Cons p ps)
  then obtain brk s1 where s1: "press_step layer possible since rel p s = Inr (brk, s1)"
    "(if brk then Inr s1 else press_loop layer possible since rel ps s1) = Inr s'"
    by (auto simp: and_then_Inr_iff)
  show ?case
    using R_trans [OF R_press_step [OF s1(1)]] R_press_step [OF s1(1)] s1(2) Cons.IH
    by (auto split: if_splits)
qed

lemma R_press_timeout:
  "press_timeout layer possible since rel s = Inr c \<Longrightarrow> R (pl_chv2 s) c"
  using R_refl R_ignore R_activate_coord
  by (auto simp: press_timeout_def Let_def split: if_splits option.splits)

text \<open>The whole: presses are removed from the queue only when a chord was activated.\<close>

lemma R_process_presses:
  assumes "process_presses layer c = Inr c'"
  obtains (same) "R c c'" "length (c2_active c') \<le> length (c2_active c)"
  | (consumed) c1 P where "R c c1" "length (c2_active c) < length (c2_active c1)"
      "c' = c1\<lparr>c2_queue := filter P (c2_queue c1)\<rparr>"
proof -
  obtain presses rel where p: "collect_presses (c2_queue c) [] = Inr (presses, rel)"
    using assms by (auto simp: process_presses_def and_then_Inr_iff)
  show thesis
  proof (cases presses)
    case Nil
    then show ?thesis using assms p R_refl same by (simp add: process_presses_def)
  next
    case (Cons pr ps)
    show ?thesis
    proof (cases "c2_chords c (fst pr)")
      case None
      then show ?thesis using assms p Cons R_ignore same
        by (cases pr) (auto simp: process_presses_def)
    next
      case (Some possible)
      let ?since = "q_since (hd (c2_queue c))"
      obtain s c1 where s: "press_loop layer possible ?since rel presses
          \<lparr>pl_chv2 = c, pl_acc = [], pl_cands = [], pl_prev = None\<rparr> = Inr s"
        and c1: "press_timeout layer possible ?since rel s = Inr c1"
        and c': "(if length (c2_active c) < length (c2_active c1)
          then Inr (c1\<lparr>c2_queue := filter (\<lambda>qd. case q_event qd of
              Press i j \<Rightarrow> \<not> list_ex (\<lambda>ap. fst ap = j) (pl_acc s) | _ \<Rightarrow> True) (c2_queue c1)\<rparr>)
          else Inr c1) = (Inr c' :: 't chords_v2 res)"
        using assms p Cons Some
        by (cases pr) (auto simp: process_presses_def Let_def and_then_Inr_iff
            simp del: press_loop.simps split del: if_split)
      have "R c c1" using R_trans [OF R_press_loop [OF s, simplified] R_press_timeout [OF c1]] .
      then show ?thesis using c' same consumed by (auto split: if_splits)
    qed
  qed
qed

end

end
