(* ===== verification/ChordFacts.thy ===== *)
theory ChordFacts
  imports ChordPresses
begin

text \<open>
  Properties of the chords of the second version: the reserved coordinates, the life cycle of an
  active chord, the fate of the input events, and the exact outcome of a two-key chord.
\<close>

section \<open>An example\<close>

text \<open>One chord of two keys. First its two presses are queued; a tick later it is active.\<close>

definition pair_example :: "nat chord_v2" where
  "pair_example = \<lparr>cv_action = KeyCode 42, cv_keys = [30, 31], cv_pending = 100,
     cv_disabled_layers = [], cv_release = OnFirstRelease\<rparr>"

definition pair_mapping :: "u16 \<Rightarrow> nat chord_v2 list option" where
  "pair_mapping = [30 \<mapsto> [pair_example]]"

definition pair_state :: "queued list \<Rightarrow> nat chords_v2" where
  "pair_state q = \<lparr>c2_queue = q, c2_chords = pair_mapping, c2_active = [], c2_ignore = 0,
     c2_configured_ignore = 5, c2_until_change = 0, c2_prev_layer = 0xFFFF,
     c2_prev_queue_len = 0xFF, c2_next_coord = 851\<rparr>"

definition pair_ticked :: "nat chords_v2" where
  "pair_ticked = \<lparr>c2_queue = [], c2_chords = pair_mapping,
     c2_active = [\<lparr>ach_coordinate = 852, ach_remaining = [], ach_keys = [30, 31],
       ach_action = KeyCode 42, ach_status = Unread, ach_delay = 1\<rparr>],
     c2_ignore = 0, c2_configured_ignore = 5, c2_until_change = 99, c2_prev_layer = 0,
     c2_prev_queue_len = 2, c2_next_coord = 853\<rparr>"

lemmas chord_step_defs = tick_chv2_def drain_inputs_def drain_virtual_keys_def drain_releases_def
  queued_new_press_def queued_new_release_def tick_qd_def process_presses_def press_step_def
  scan_candidates_def shrink_candidates_def within_pending_def min_pending_def checked_sub_def
  press_continue_def SMOL_Q_LEN_def sat_add_def sat_sub_def keys_complete_def next_coord_def
  KEY_MAX_def press_timeout_def activate_chord_def get_active_chord_def ACTIVE_CHORDS_LEN_def
  clear_released_chords_def

lemma pair_tick:
  "tick_chv2 0 (pair_state [queued_new_press 0 30, queued_new_press 0 31])
     = Inr ([queued_new_press (fst TRIGGER_TAPHOLD_COORD) (snd TRIGGER_TAPHOLD_COORD)], pair_ticked)"
  by (simp add: pair_state_def pair_ticked_def pair_mapping_def pair_example_def chord_step_defs)

section \<open>Chords that can occur\<close>

text \<open>The operations the layout calls, from the start: events are queued, ticks pass, and the
  actions of activated chords are taken.\<close>

inductive reachable_chv2 :: "'t chords_v2 \<Rightarrow> bool" where
  start: "chords_v2_new chords ticks = Inr c \<Longrightarrow> reachable_chv2 c"
| queue: "reachable_chv2 c \<Longrightarrow> push_back_chv2 item c = (over, c') \<Longrightarrow> reachable_chv2 c'"
| tick: "reachable_chv2 c \<Longrightarrow> tick_chv2 layer c = Inr (dq, c') \<Longrightarrow> reachable_chv2 c'"
| action: "reachable_chv2 c \<Longrightarrow> get_action_chv2 c = (act, c') \<Longrightarrow> reachable_chv2 c'"

definition reserved :: "u16 \<Rightarrow> bool" where
  "reserved k \<longleftrightarrow> KEY_MAX < k \<and> k \<le> KEY_MAX + 50"

definition unread :: "'t active_chord \<Rightarrow> bool" where
  "unread a \<longleftrightarrow> ach_status a = Unread \<or> ach_status a = UnreadReleased"

definition coords_reserved :: "'t chords_v2 \<Rightarrow> bool" where
  "coords_reserved c \<longleftrightarrow> reserved (c2_next_coord c) \<and> list_all (reserved \<circ> ach_coordinate) (c2_active c)"

lemma reserved_next:
  assumes "reserved (c2_next_coord c)" and "next_coord c = (coord, c1)"
  shows "reserved coord" and "reserved (c2_next_coord c1)"
  using assms
  by (auto simp: reserved_def next_coord_def Let_def KEY_MAX_def word_less_nat_alt word_le_nat_alt
      unat_word_ariths)

lemma get_active_chord_fields:
  assumes "get_active_chord cch since coord rel = Inr a"
  shows "ach_coordinate a = coord" and "unread a" and "ach_keys a = cv_keys cch"
    and "ach_action a = cv_action cch"
  using assms by (auto simp: get_active_chord_def unread_def split: if_splits)

text \<open>Processing presses only adds unread chords with reserved coordinates.\<close>

definition grown :: "'t chords_v2 \<Rightarrow> 't chords_v2 \<Rightarrow> bool" where
  "grown c c' \<longleftrightarrow> c2_queue c' = c2_queue c \<and> (reserved (c2_next_coord c) \<longrightarrow> reserved (c2_next_coord c')) \<and>
     (\<exists>new. c2_active c' = c2_active c @ new \<and> list_all unread new
       \<and> (reserved (c2_next_coord c) \<longrightarrow> list_all (reserved \<circ> ach_coordinate) new))"

interpretation growing: press_relation grown
proof unfold_locales
  fix a b c :: "'t chords_v2"
  assume "grown a b" and "grown b c"
  then show "grown a c" unfolding grown_def by fastforce
next
  fix c c1 :: "'t chords_v2" and coord
  assume "next_coord c = (coord, c1)"
  then show "grown c c1" using next_coord_same [of c] reserved_next by (auto simp: grown_def)
next
  fix c c1 c2 :: "'t chords_v2" and coord cch since rel
  assume n: "next_coord c = (coord, c1)" and a: "activate_chord cch since coord rel c1 = Inr c2"
  from a obtain x where x: "get_active_chord cch since coord rel = Inr x"
    "c2 = c1\<lparr>c2_active := c2_active c1 @ [x]\<rparr>" by (rule activate_chord_Inr)
  then show "grown c c2"
    using next_coord_same [of c] n reserved_next [of c] get_active_chord_fields [OF x(1)]
    by (auto simp: grown_def)
qed (auto simp: grown_def)

lemma process_presses_grown:
  assumes "process_presses layer c = Inr c'"
  obtains c1 P where "grown c c1" and "c' = c1\<lparr>c2_queue := filter P (c2_queue c1)\<rparr>"
    and "c2_active c' = c2_active c \<Longrightarrow> c2_queue c' = c2_queue c"
  using assms
proof (cases rule: growing.R_process_presses [consumes 1])
  case same
  have "c' = c'\<lparr>c2_queue := filter (\<lambda>_. True) (c2_queue c')\<rparr>" by simp
  then show ?thesis using that [of c' "\<lambda>_. True"] same(1) by (simp add: grown_def)
next
  case (consumed c1 P)
  moreover from this have "c2_active c' \<noteq> c2_active c" by auto
  ultimately show ?thesis using that [of c1 P] by blast
qed

section \<open>Released keys\<close>

lemma release_ach_fields [simp]:
  "ach_coordinate (release_ach j a) = ach_coordinate a" "ach_keys (release_ach j a) = ach_keys a"
  "ach_action (release_ach j a) = ach_action a" "unread (release_ach j a) = unread a"
  by (auto simp: release_ach_def unread_def Let_def split: active_chord_status.splits)

text \<open>A chord keeps its identity: coordinate, keys, action, and whether it was handed over.\<close>

definition same_chord :: "'t active_chord \<Rightarrow> 't active_chord \<Rightarrow> bool" where
  "same_chord a b \<longleftrightarrow> ach_coordinate b = ach_coordinate a \<and> ach_keys b = ach_keys a
     \<and> ach_action b = ach_action a \<and> unread b = unread a"

lemma same_chord_refl [simp]: "same_chord a a"
  by (simp add: same_chord_def)

lemma same_chord_trans: "same_chord a b \<Longrightarrow> same_chord b c \<Longrightarrow> same_chord a c"
  by (simp add: same_chord_def)

lemma same_chord_release: "same_chord a b \<Longrightarrow> same_chord a (release_ach j b)"
  by (simp add: same_chord_def)

lemma same_chords_release: "list_all2 same_chord as bs \<Longrightarrow> list_all2 same_chord as (map (release_ach j) bs)"
  by (simp add: list_all2_map2 list_all2_mono same_chord_release)

lemma same_chords_trans:
  "list_all2 same_chord as bs \<Longrightarrow> list_all2 same_chord bs cs \<Longrightarrow> list_all2 same_chord as cs"
  by (rule list_all2_trans [of same_chord same_chord same_chord]) (auto intro: same_chord_trans)

lemma same_chords_refl [simp]: "list_all2 same_chord as as"
  by (simp add: list_all2_refl)

lemma drain_without_same:
  fixes c :: "'t chords_v2"
  assumes "drain_without_new_activations dq c = (dq', c')"
  shows "list_all2 same_chord (c2_active c) (c2_active c')" and "c2_next_coord c' = c2_next_coord c"
proof -
  have f: "list_all2 same_chord as bs \<Longrightarrow> list_all2 same_chord as
      (fold (\<lambda>qd as. case release_of (q_event qd) of Some j \<Rightarrow> map (release_ach j) as | None \<Rightarrow> as) q bs)"
    for as bs :: "'t active_chord list" and q
    by (induction q arbitrary: bs) (auto simp: same_chords_release split: option.splits)
  show "list_all2 same_chord (c2_active c) (c2_active c')" "c2_next_coord c' = c2_next_coord c"
    using assms f [OF same_chords_refl, of "c2_active c" "c2_queue c"]
    by (auto simp: drain_without_new_activations_def Let_def)
qed

lemma drain_virtual_same:
  assumes "drain_virtual_keys dq c = Inr (dq', c')"
  shows "c2_active c' = c2_active c" and "c2_next_coord c' = c2_next_coord c"
  using assms by (auto simp: drain_virtual_keys_def and_then_Inr_iff)

lemma drain_releases_same:
  assumes "drain_releases dq c = Inr (dq', c')"
  shows "list_all2 same_chord (c2_active c) (c2_active c')" and "c2_next_coord c' = c2_next_coord c"
proof -
  obtain q presses achs where r: "retain_res drain_release_step (c2_queue c) ([], c2_active c, dq)
      = Inr (q, presses, achs, dq')" and c': "c' = c\<lparr>c2_queue := q, c2_active := achs\<rparr>"
    using assms by (auto simp: drain_releases_def and_then_Inr_iff)
  have "list_all2 same_chord (c2_active c) (fst (snd (presses, achs, dq')))"
    by (rule retain_res_invariant [OF r])
      (auto simp: and_then_Inr_iff same_chords_release split: event.splits if_splits)
  then show "list_all2 same_chord (c2_active c) (c2_active c')" "c2_next_coord c' = c2_next_coord c"
    by (simp_all add: c')
qed

text \<open>A tick up to the point where released chords are cleared: the chords stay, and new ones
  follow them.\<close>

definition drained :: "'t chords_v2 \<Rightarrow> 't chords_v2 \<Rightarrow> bool" where
  "drained c c' \<longleftrightarrow> (reserved (c2_next_coord c) \<longrightarrow> reserved (c2_next_coord c')) \<and>
     (\<exists>old new. c2_active c' = old @ new \<and> list_all2 same_chord (c2_active c) old \<and> list_all unread new
       \<and> (reserved (c2_next_coord c) \<longrightarrow> list_all (reserved \<circ> ach_coordinate) new))"

lemma drainedI:
  "list_all2 same_chord (c2_active c) (c2_active c') \<Longrightarrow> c2_next_coord c' = c2_next_coord c \<Longrightarrow>
     drained c c'"
  unfolding drained_def by (rule conjI, simp, rule exI [of _ "c2_active c'"], rule exI [of _ "[]"], simp)

lemma drained_old:
  assumes "drained c c'"
  obtains old where "set old \<subseteq> set (c2_active c')" and "list_all2 same_chord (c2_active c) old"
proof -
  obtain old new where o: "c2_active c' = old @ new" "list_all2 same_chord (c2_active c) old"
    using assms unfolding drained_def by blast
  then show thesis using that [of old] by simp
qed

lemma drain_inputs_cases:
  assumes "drain_inputs dq layer c = Inr (dq', c')"
  obtains (ignoring) "0 < c2_ignore c" "drain_without_new_activations dq c = (dq', c')"
  | (waiting) "dq' = dq" "c' = c\<lparr>c2_until_change := sat_sub (c2_until_change c) 1\<rparr>"
  | (processing) dq1 c2 c3 where "drain_virtual_keys dq (c\<lparr>c2_until_change := 0, c2_prev_layer := layer,
        c2_prev_queue_len := of_nat (length (c2_queue c))\<rparr>) = Inr (dq1, c2)"
      "drain_releases dq1 c2 = Inr (dq', c3)" "process_presses layer c3 = Inr c'"
  using assms by (auto simp: drain_inputs_def Let_def and_then_Inr_iff split: if_splits)

lemma drain_inputs_drained:
  assumes "drain_inputs dq layer c = Inr (dq', c')"
  shows "drained c c'"
  using assms
proof (cases rule: drain_inputs_cases)
  case ignoring
  then show ?thesis using drain_without_same [OF ignoring(2)] by (intro drainedI)
next
  case waiting
  then show ?thesis by (intro drainedI) simp_all
next
  case (processing dq1 c2 c3)
  obtain c4 P where c4: "grown c3 c4" "c' = c4\<lparr>c2_queue := filter P (c2_queue c4)\<rparr>"
    by (rule process_presses_grown [OF processing(3)])
  show ?thesis
    using drain_virtual_same [OF processing(1)] drain_releases_same [OF processing(2)] c4
    by (auto simp: drained_def grown_def)
qed


text \<open>A whole tick: a chord is dropped exactly when it was handed over and then released.\<close>

lemma clear_released_chords_spec:
  assumes "clear_released_chords dq c = Inr (dq', c')"
  shows "c2_active c' = filter (\<lambda>a. ach_status a \<noteq> Released) (c2_active c)"
    and "c2_queue c' = c2_queue c" and "c2_next_coord c' = c2_next_coord c"
    and "c2_active c = [] \<Longrightarrow> dq' = dq"
proof -
  from assms obtain as where as: "retain_res (\<lambda>a dq.
         if ach_status a = Released
         then and_then (smol_push (queued_new_release 0 (ach_coordinate a)) dq)
                (\<lambda>dq'. Inr (False, dq'))
         else Inr (True, dq)) (c2_active c) dq = Inr (as, dq')" "c' = c\<lparr>c2_active := as\<rparr>"
    by (auto simp: clear_released_chords_def and_then_Inr_iff)
  have "as = filter (\<lambda>a. ach_status a \<noteq> Released) (c2_active c)"
    by (rule retain_res_filter [OF as(1)]) (auto simp: and_then_Inr_iff split: if_splits)
  then show "c2_active c' = filter (\<lambda>a. ach_status a \<noteq> Released) (c2_active c)" using as(2) by simp
  show "c2_queue c' = c2_queue c" "c2_next_coord c' = c2_next_coord c" using as(2) by simp_all
  show "dq' = dq" if "c2_active c = []" using as(1) that by simp
qed

lemma tick_chv2_drained:
  assumes "tick_chv2 layer c = Inr (dq, c')"
  obtains c1 where "drained (c\<lparr>c2_queue := map tick_qd (c2_queue c),
      c2_active := map tick_ach (c2_active c)\<rparr>) c1"
    and "c2_active c' = filter (\<lambda>a. ach_status a \<noteq> Released) (c2_active c1)"
    and "c2_next_coord c' = c2_next_coord c1"
proof -
  let ?c = "c\<lparr>c2_queue := map tick_qd (c2_queue c), c2_active := map tick_ach (c2_active c)\<rparr>"
  obtain dq1 c1 dq2 dq3 c2 where s: "drain_inputs [] layer ?c = Inr (dq1, c1)"
    "clear_released_chords dq2 c1 = Inr (dq3, c2)" "c' = c2\<lparr>c2_ignore := sat_sub (c2_ignore c2) 1\<rparr>"
    using assms by (auto simp: tick_chv2_def Let_def and_then_Inr_iff)
  show thesis
    using that [OF drain_inputs_drained [OF s(1)]] clear_released_chords_spec [OF s(2)] s(3) by simp
qed

lemma tick_ach_fields [simp]:
  "ach_coordinate (tick_ach a) = ach_coordinate a" "ach_status (tick_ach a) = ach_status a"
  "ach_keys (tick_ach a) = ach_keys a" "ach_action (tick_ach a) = ach_action a"
  "unread (tick_ach a) = unread a"
  by (simp_all add: tick_ach_def unread_def)

lemma same_chords_coords:
  "list_all2 same_chord as bs \<Longrightarrow> list_all (P \<circ> ach_coordinate) bs = list_all (P \<circ> ach_coordinate) as"
  by (induction as bs rule: list_all2_induct) (auto simp: same_chord_def)

lemma list_all_filter: "list_all P xs \<Longrightarrow> list_all P (filter Q xs)"
  by (auto simp: list_all_iff)

lemma coords_reserved_tick:
  assumes "tick_chv2 layer c = Inr (dq, c')" and "coords_reserved c"
  shows "coords_reserved c'"
proof -
  obtain c1 where c1: "drained (c\<lparr>c2_queue := map tick_qd (c2_queue c),
      c2_active := map tick_ach (c2_active c)\<rparr>) c1"
    "c2_active c' = filter (\<lambda>a. ach_status a \<noteq> Released) (c2_active c1)"
    "c2_next_coord c' = c2_next_coord c1"
    by (rule tick_chv2_drained [OF assms(1)])
  then obtain old new where "c2_active c1 = old @ new"
    "list_all2 same_chord (map tick_ach (c2_active c)) old" "list_all (reserved \<circ> ach_coordinate) new"
    "reserved (c2_next_coord c1)"
    using assms(2) by (auto simp: drained_def coords_reserved_def)
  moreover have "list_all (reserved \<circ> ach_coordinate) (map tick_ach (c2_active c))"
    using assms(2) by (simp add: coords_reserved_def list_all_iff)
  ultimately show ?thesis using c1(2,3) by (simp add: coords_reserved_def list_all_filter same_chords_coords)
qed

section \<open>The coordinates of active chords\<close>

lemma get_action_achs_coords:
  "map ach_coordinate (snd (get_action_achs as)) = map ach_coordinate as"
  by (induction as) (auto split: active_chord_status.splits prod.splits)

lemma coords_list_all:
  "list_all (P \<circ> ach_coordinate) as = list_all P (map ach_coordinate as)"
  by (simp add: list_all_iff)

text \<open>C20: Whatever events and ticks came before, the coordinate of an active chord is one of the
  fifty above the last key code, so it never coincides with the coordinate of a physical key.\<close>

theorem chord_coordinates_reserved:
  assumes "reachable_chv2 c" and "a \<in> set (c2_active c)"
  shows "KEY_MAX < ach_coordinate a \<and> ach_coordinate a \<le> KEY_MAX + 50"
proof -
  have "coords_reserved c" using assms(1)
  proof (induction rule: reachable_chv2.induct)
    case (start chords ticks c)
    then show ?case
      by (auto simp: chords_v2_new_def coords_reserved_def reserved_def KEY_MAX_def split: if_splits)
  next
    case (queue c item over c')
    then show ?case by (auto simp: push_back_chv2_def coords_reserved_def split: prod.splits)
  next
    case (tick c layer dq c')
    then show ?case using coords_reserved_tick by blast
  next
    case (action c act c')
    obtain as where as: "get_action_achs (c2_active c) = (act, as)" "c' = c\<lparr>c2_active := as\<rparr>"
      using action(2) by (auto simp: get_action_chv2_def split: prod.splits)
    then have "map ach_coordinate as = map ach_coordinate (c2_active c)"
      using get_action_achs_coords [of "c2_active c"] by simp
    then show ?case using action.IH as(2) by (simp add: coords_reserved_def coords_list_all)
  qed
  then show ?thesis using assms(2) by (auto simp: coords_reserved_def reserved_def list_all_iff)
qed

lemma pair_ticked_reachable: "reachable_chv2 pair_ticked"
proof -
  have "reachable_chv2 (pair_state [])"
    by (rule start [of pair_mapping 5]) (simp add: chords_v2_new_def pair_state_def KEY_MAX_def)
  then have "reachable_chv2 (pair_state [queued_new_press 0 30])"
    by (rule queue [of _ "queued_new_press 0 30" None])
      (simp add: push_back_chv2_def pair_state_def QUEUE_SIZE_def)
  then have "reachable_chv2 (pair_state [queued_new_press 0 30, queued_new_press 0 31])"
    by (rule queue [of _ "queued_new_press 0 31" None])
      (simp add: push_back_chv2_def pair_state_def QUEUE_SIZE_def)
  then show ?thesis using pair_tick by (rule tick)
qed

theorem chord_coordinates_reserved_witness:
  "KEY_MAX < ach_coordinate (hd (c2_active pair_ticked))
   \<and> ach_coordinate (hd (c2_active pair_ticked)) \<le> KEY_MAX + 50"
  using chord_coordinates_reserved [OF pair_ticked_reachable, of "hd (c2_active pair_ticked)"]
  by (simp add: pair_ticked_def)


section \<open>No activated chord is lost\<close>

text \<open>C21: A chord that was activated but whose action was not yet handed to the layout survives
  every tick, with its coordinate and action, still waiting to be handed over - even when its
  keys are released in the meantime.\<close>

theorem tick_keeps_unread_chords:
  assumes "tick_chv2 layer c = Inr (dq, c')" and "a \<in> set (c2_active c)" and "unread a"
  shows "\<exists>a' \<in> set (c2_active c'). same_chord a a'"
proof -
  obtain c1 where c1: "drained (c\<lparr>c2_queue := map tick_qd (c2_queue c),
      c2_active := map tick_ach (c2_active c)\<rparr>) c1"
    "c2_active c' = filter (\<lambda>a. ach_status a \<noteq> Released) (c2_active c1)"
    by (rule tick_chv2_drained [OF assms(1)])
  obtain old where old: "set old \<subseteq> set (c2_active c1)"
    "list_all2 same_chord (map tick_ach (c2_active c)) old"
    by (rule drained_old [OF c1(1)]) simp
  obtain i where i: "i < length (c2_active c)" "c2_active c ! i = a"
    using assms(2) by (auto simp: in_set_conv_nth)
  then have "same_chord (tick_ach a) (old ! i)" "i < length old"
    using old(2) by (auto simp: list_all2_conv_all_nth)
  then have "same_chord a (old ! i)" "old ! i \<in> set (c2_active c1)"
    using old(1) by (auto simp: same_chord_def)
  moreover from this have "ach_status (old ! i) \<noteq> Released"
    using assms(3) by (auto simp: same_chord_def unread_def)
  ultimately show ?thesis using c1(2) by auto
qed

lemma pair_ticked_again:
  "tick_chv2 0 pair_ticked = Inr ([], pair_ticked\<lparr>c2_active := map tick_ach (c2_active pair_ticked),
     c2_prev_queue_len := 0, c2_until_change := 0\<rparr>)"
  by (simp add: pair_ticked_def tick_ach_def chord_step_defs)

theorem tick_keeps_unread_chords_witness:
  "\<exists>a' \<in> set (map tick_ach (c2_active pair_ticked)). same_chord (hd (c2_active pair_ticked)) a'"
  using tick_keeps_unread_chords [OF pair_ticked_again, of "hd (c2_active pair_ticked)"]
  by (simp add: pair_ticked_def unread_def)



section \<open>No input is lost\<close>

definition is_real :: "queued \<Rightarrow> bool" where
  "is_real qd \<longleftrightarrow> fst (event_coord (q_event qd)) = 0"

lemma drain_virtual_splits:
  "retain_res (\<lambda>qd dq. if fst (event_coord (q_event qd)) = 0 then Inr (True, dq)
      else and_then (smol_push qd dq) (\<lambda>dq'. Inr (False, dq'))) q dq = Inr (q', dq') \<Longrightarrow>
    q' = filter is_real q \<and> dq' = dq @ filter (Not \<circ> is_real) q"
proof (induction q arbitrary: dq q')
  case Nil
  then show ?case by simp
next
  case (Cons qd q)
  from Cons.prems show ?case
    by (elim retain_res_ConsE)
      (auto simp: is_real_def smol_push_def wrap_push_back_def and_then_Inr_iff
        split: if_splits list.splits dest!: Cons.IH)
qed

lemma drain_release_appends:
  "retain_res drain_release_step q (ps, as, dq) = Inr (q', ps', as', dq') \<Longrightarrow>
     length dq + length q \<le> SMOL_Q_LEN \<Longrightarrow> dq' @ q' = dq @ q \<and> (ps \<noteq> [] \<longrightarrow> dq' = dq)"
proof (induction q arbitrary: ps as dq q')
  case Nil
  then show ?case by simp
next
  case (Cons qd q)
  from Cons.prems(1) obtain keep s1 q1 where s1: "drain_release_step qd (ps, as, dq) = Inr (keep, s1)"
    "retain_res drain_release_step q s1 = Inr (q1, ps', as', dq')"
    "q' = (if keep then qd # q1 else q1)"
    by (rule retain_res_ConsE)
  obtain ps1 as1 dq1 where t: "s1 = (ps1, as1, dq1)" by (cases s1) auto
  have "keep \<and> ps1 \<noteq> [] \<and> dq1 = dq \<or> \<not> keep \<and> ps = [] \<and> dq1 = dq @ [qd]"
    using s1(1) Cons.prems(2) t
    by (auto simp: sat_push_def and_then_Inr_iff split: event.splits if_splits)
  then show ?case using Cons.IH [of ps1 as1 dq1 q1] s1(2,3) t Cons.prems(2) by auto
qed

lemma drain_inputs_forwards:
  assumes "drain_inputs [] layer c = Inr (dq, c')" and "length (c2_queue c) \<le> SMOL_Q_LEN"
    and "c2_active c = []" and "c2_active c' = []"
  shows "filter is_real (dq @ c2_queue c') = filter is_real (c2_queue c)
    \<and> filter (Not \<circ> is_real) (dq @ c2_queue c') = filter (Not \<circ> is_real) (c2_queue c)"
  using assms(1)
proof (cases rule: drain_inputs_cases)
  case ignoring
  then show ?thesis
    using wextend_fits [of "[]" "c2_queue c" SMOL_Q_LEN] assms(2)
    by (auto simp: drain_without_new_activations_def Let_def)
next
  case waiting
  then show ?thesis by simp
next
  case (processing dq1 c2 c3)
  have 1: "c2_queue c2 = filter is_real (c2_queue c)" "dq1 = filter (Not \<circ> is_real) (c2_queue c)"
    using processing(1) by (auto simp: drain_virtual_keys_def and_then_Inr_iff dest!: drain_virtual_splits)
  then have len: "length dq1 + length (c2_queue c2) \<le> SMOL_Q_LEN"
    using assms(2) sum_length_filter_compl [of is_real "c2_queue c"] by (simp add: comp_def)
  then have 2: "dq @ c2_queue c3 = dq1 @ c2_queue c2"
    using processing(2) by (auto simp: drain_releases_def and_then_Inr_iff dest!: drain_release_appends)
  have "c2_active c3 = []"
    using drain_virtual_same(1) [OF processing(1)] drain_releases_same(1) [OF processing(2)] assms(3)
    by simp
  then have "c2_active c' = c2_active c3" using assms(4) by simp
  then have "c2_queue c' = c2_queue c3"
    using process_presses_grown [OF processing(3)] by metis
  then have e: "dq @ c2_queue c' = filter (Not \<circ> is_real) (c2_queue c) @ filter is_real (c2_queue c)"
    using 1 2 by simp
  show ?thesis unfolding e by (simp add: comp_def)
qed

text \<open>While no chord is or becomes active, a tick neither loses nor invents nor duplicates an
  input: what it forwards followed by what stays queued is the queue of before, in the same
  order for the physical keys and in the same order for the virtual keys.\<close>

theorem tick_forwards_inputs:
  assumes "tick_chv2 layer c = Inr (dq, c')" and "length (c2_queue c) \<le> SMOL_Q_LEN"
    and "c2_active c = []" and "c2_active c' = []"
  shows "filter is_real (dq @ c2_queue c') = filter is_real (map tick_qd (c2_queue c))
    \<and> filter (Not \<circ> is_real) (dq @ c2_queue c') = filter (Not \<circ> is_real) (map tick_qd (c2_queue c))"
proof -
  let ?c = "c\<lparr>c2_queue := map tick_qd (c2_queue c), c2_active := map tick_ach (c2_active c)\<rparr>"
  obtain dq1 c1 dq2 dq3 c2 where s: "drain_inputs [] layer ?c = Inr (dq1, c1)"
    "clear_released_chords dq2 c1 = Inr (dq3, c2)" "c' = c2\<lparr>c2_ignore := sat_sub (c2_ignore c2) 1\<rparr>"
    "dq = dq3" and dq2: "c2_active c1 = [] \<Longrightarrow> dq2 = dq1"
    using assms(1,3) by (auto simp: tick_chv2_def Let_def and_then_Inr_iff split: if_splits)
  obtain old new where "c2_active c1 = old @ new" "list_all2 same_chord (c2_active ?c) old"
    "list_all unread new"
    using drain_inputs_drained [OF s(1)] unfolding drained_def by blast
  then have new: "list_all unread (c2_active c1)" using assms(3) by simp
  have "filter (\<lambda>a. ach_status a \<noteq> Released) (c2_active c1) = []"
    using clear_released_chords_spec(1) [OF s(2)] assms(4) s(3) by simp
  then have "\<forall>a \<in> set (c2_active c1). ach_status a = Released"
    by (simp add: filter_empty_conv)
  then have none: "c2_active c1 = []" using new by (cases "c2_active c1") (auto simp: unread_def)
  then have "dq = dq1" "c2_queue c' = c2_queue c1"
    using clear_released_chords_spec(2,4) [OF s(2)] dq2 s(3,4) by simp_all
  then show ?thesis using drain_inputs_forwards [OF s(1)] assms(2,3) none by simp
qed

lemma single_tick:
  "tick_chv2 0 (pair_state [queued_new_press 0 30, queued_new_release 1 2])
     = Inr ([queued_new_release 1 2\<lparr>q_since := 1\<rparr>], pair_state [queued_new_press 0 30\<lparr>q_since := 1\<rparr>]
         \<lparr>c2_until_change := 99, c2_prev_layer := 0, c2_prev_queue_len := 2, c2_next_coord := 852\<rparr>)"
  by (simp add: pair_state_def pair_mapping_def pair_example_def smol_push_def chord_step_defs)

theorem tick_forwards_inputs_witness:
  "filter is_real [queued_new_release 1 2\<lparr>q_since := 1\<rparr>, queued_new_press 0 30\<lparr>q_since := 1\<rparr>]
     = filter is_real (map tick_qd [queued_new_press 0 30, queued_new_release 1 2])"
  using tick_forwards_inputs [OF single_tick] by (simp add: pair_state_def SMOL_Q_LEN_def)


section \<open>Two-key chords\<close>

text \<open>The queue of a chord of the keys \<open>a\<close> and \<open>b\<close>, with or without the release of \<open>a\<close>.\<close>

definition pair_queue :: "u16 \<Rightarrow> u16 \<Rightarrow> u16 \<Rightarrow> u16 \<Rightarrow> queued list \<Rightarrow> queued list" where
  "pair_queue a sa b sb rel =
     \<lparr>q_event = Press 0 a, q_since = sa\<rparr> # \<lparr>q_event = Press 0 b, q_since = sb\<rparr> # rel"

definition pair_chord :: "u16 \<Rightarrow> u16 \<Rightarrow> 't chord_v2 \<Rightarrow> 't active_chord \<Rightarrow> bool" where
  "pair_chord a b ch x \<longleftrightarrow> ach_keys x = [a, b] \<and> ach_action x = cv_action ch"

lemma activate_pair:
  assumes "cv_keys ch = [a, b]" and "length (c2_active c) < ACTIVE_CHORDS_LEN"
  obtains x where "activate_chord ch since coord rel c = Inr (c\<lparr>c2_active := c2_active c @ [x]\<rparr>)"
    and "pair_chord a b ch x"
  using assms that by (auto simp: activate_chord_def get_active_chord_def pair_chord_def SMOL_Q_LEN_def)

lemma pair_presses:
  "a \<noteq> b \<Longrightarrow> collect_presses (pair_queue a sa b sb (if rel then [\<lparr>q_event = Release 0 a, q_since = sr\<rparr>] else [])) []
     = Inr ([(a, sa), (b, sb)], rel)"
  by (simp add: pair_queue_def SMOL_Q_LEN_def)

lemma find_pair:
  "cv_keys ch = [a, b] \<Longrightarrow> layer \<notin> set (cv_disabled_layers ch) \<Longrightarrow>
     find_completed layer [(a, sa), (b, sb)] [ch] = Some ch"
  by (simp add: find_completed_def keys_match_def keys_complete_def)

text \<open>The first press leaves the chord as the only candidate, the second one completes it.\<close>

lemma pair_first:
  assumes "cv_keys ch = [a, b]" and "a \<noteq> b" and "layer \<notin> set (cv_disabled_layers ch)"
    and "cv_pending ch < 0xFFFF"
  obtains c1 where "press_step layer [ch] sa rel (a, sa) \<lparr>pl_chv2 = c, pl_acc = [], pl_cands = [], pl_prev = None\<rparr>
      = Inr (False, \<lparr>pl_chv2 = c1, pl_acc = [(a, sa)], pl_cands = [ch], pl_prev = Some 1\<rparr>)"
    and "c2_active c1 = c2_active c" and "c2_queue c1 = c2_queue c"
    and "c2_until_change c1 = 0 \<longleftrightarrow> cv_pending ch \<le> sa"
proof -
  obtain coord c0 where n: "next_coord c = (coord, c0)" by fastforce
  let ?m = "min_pending sa ch 0xFFFF"
  let ?c = "c0\<lparr>c2_until_change := (if ?m = 0xFFFF then 0 else sat_sub ?m sa)\<rparr>"
  have "press_step layer [ch] sa rel (a, sa) \<lparr>pl_chv2 = c, pl_acc = [], pl_cands = [], pl_prev = None\<rparr>
      = Inr (False, \<lparr>pl_chv2 = ?c, pl_acc = [(a, sa)], pl_cands = [ch], pl_prev = Some 1\<rparr>)"
    using assms n
    by (simp add: press_step_def scan_candidates_def within_pending_def checked_sub_def
        SMOL_Q_LEN_def keys_complete_def press_continue_def)
  moreover have "c2_active ?c = c2_active c" "c2_queue ?c = c2_queue c"
    using next_coord_same [of c] n by simp_all
  moreover have "c2_until_change ?c = 0 \<longleftrightarrow> cv_pending ch \<le> sa"
  proof -
    have "?m = (if sa < cv_pending ch then cv_pending ch else 0xFFFF)"
      using assms(4) by (auto simp: min_pending_def min_def)
    moreover have "(sat_sub (cv_pending ch) sa = 0) = (cv_pending ch \<le> sa)"
      by (simp add: unat_eq_zero [symmetric] unat_sat_sub word_le_nat_alt del: unat_eq_zero)
    ultimately show ?thesis using assms(4) by (auto simp: not_less)
  qed
  ultimately show thesis by (rule that)
qed

lemma pair_second:
  assumes "cv_keys ch = [a, b]" and "sb \<le> sa" and "sa - sb \<le> cv_pending ch"
    and "length (c2_active c) < ACTIVE_CHORDS_LEN"
  obtains c1 x where "press_step layer [ch] sa rel (b, sb) \<lparr>pl_chv2 = c, pl_acc = [(a, sa)], pl_cands = [ch], pl_prev = Some 1\<rparr>
      = Inr (True, \<lparr>pl_chv2 = c1, pl_acc = [(a, sa), (b, sb)], pl_cands = [ch], pl_prev = Some 1\<rparr>)"
    and "c2_active c1 = c2_active c @ [x]" and "pair_chord a b ch x" and "c2_queue c1 = c2_queue c"
    and "c2_until_change c1 = c2_until_change c"
proof -
  obtain coord c0 where n: "next_coord c = (coord, c0)" by fastforce
  have c0: "c2_active c0 = c2_active c" "c2_queue c0 = c2_queue c" "c2_until_change c0 = c2_until_change c"
    using n by (auto simp: next_coord_def Let_def)
  obtain x where x: "activate_chord ch sa coord rel c0 = Inr (c0\<lparr>c2_active := c2_active c0 @ [x]\<rparr>)"
    "pair_chord a b ch x"
    using activate_pair [OF assms(1)] assms(4) c0(1) by metis
  have "press_step layer [ch] sa rel (b, sb) \<lparr>pl_chv2 = c, pl_acc = [(a, sa)], pl_cands = [ch], pl_prev = Some 1\<rparr>
      = Inr (True, \<lparr>pl_chv2 = c0\<lparr>c2_active := c2_active c0 @ [x]\<rparr>, pl_acc = [(a, sa), (b, sb)], pl_cands = [ch], pl_prev = Some 1\<rparr>)"
    using assms n x(1)
    by (simp add: press_step_def shrink_candidates_def within_pending_def checked_sub_def
        SMOL_Q_LEN_def keys_complete_def)
  then show thesis by (rule that) (use c0 x in simp_all)
qed

lemma pair_after:
  assumes "cv_keys ch = [a, b]" and "layer \<notin> set (cv_disabled_layers ch)"
    and "length (c2_active c) < ACTIVE_CHORDS_LEN"
  obtains c1 new where "press_timeout layer [ch] sa rel \<lparr>pl_chv2 = c, pl_acc = [(a, sa), (b, sb)], pl_cands = [ch], pl_prev = Some 1\<rparr> = Inr c1"
    and "c2_active c1 = c2_active c @ new" and "list_all (pair_chord a b ch) new"
    and "length new = (if c2_until_change c = 0 \<or> rel then 1 else 0)" and "c2_queue c1 = c2_queue c"
proof (cases "c2_until_change c = 0 \<or> rel")
  case True
  obtain coord c0 where n: "next_coord c = (coord, c0)" by fastforce
  then have c0: "c2_active c0 = c2_active c" "c2_queue c0 = c2_queue c" by (auto simp: next_coord_def Let_def)
  obtain x where x: "activate_chord ch sa coord rel c0 = Inr (c0\<lparr>c2_active := c2_active c0 @ [x]\<rparr>)"
    "pair_chord a b ch x"
    using activate_pair [OF assms(1)] assms(3) c0(1) by metis
  show thesis
    by (rule that [of "c0\<lparr>c2_active := c2_active c0 @ [x]\<rparr>" "[x]"])
      (use True n x c0 find_pair [OF assms(1,2)] in \<open>simp_all add: press_timeout_def SMOL_Q_LEN_def\<close>)
next
  case False
  then show thesis by (intro that [of c "[]"]) (auto simp: press_timeout_def)
qed

text \<open>C22: The keys of a two-key chord pressed within its time, no other chord on the first key:
  both presses are consumed and the chord is activated - once if its time is not yet over
  and no release is queued behind the presses, but twice if the second key came in the last
  moment or the release of the first key arrived before the presses were processed.\<close>

theorem pair_chord_activations:
  assumes "c2_queue c = pair_queue a sa b sb (if rel then [\<lparr>q_event = Release 0 a, q_since = sr\<rparr>] else [])"
    and "c2_chords c a = Some [ch]" and "cv_keys ch = [a, b]" and "a \<noteq> b"
    and "layer \<notin> set (cv_disabled_layers ch)" and "sb \<le> sa" and "sa - sb \<le> cv_pending ch"
    and "cv_pending ch < 0xFFFF" and "length (c2_active c) + 2 \<le> ACTIVE_CHORDS_LEN"
  shows "\<exists>c' new. process_presses layer c = Inr c' \<and> c2_active c' = c2_active c @ new
    \<and> length new = (if rel \<or> cv_pending ch \<le> sa then 2 else 1)
    \<and> (\<forall>x \<in> set new. ach_keys x = [a, b] \<and> ach_action x = cv_action ch)
    \<and> filter (\<lambda>qd. release_of (q_event qd) = None) (c2_queue c') = []"
proof -
  obtain c1 where 1: "press_step layer [ch] sa rel (a, sa) \<lparr>pl_chv2 = c, pl_acc = [], pl_cands = [], pl_prev = None\<rparr>
      = Inr (False, \<lparr>pl_chv2 = c1, pl_acc = [(a, sa)], pl_cands = [ch], pl_prev = Some 1\<rparr>)"
    "c2_active c1 = c2_active c" "c2_queue c1 = c2_queue c" "c2_until_change c1 = 0 \<longleftrightarrow> cv_pending ch \<le> sa"
    by (rule pair_first [OF assms(3,4,5,8)])
  have len1: "length (c2_active c1) < ACTIVE_CHORDS_LEN" using assms(9) 1(2) by simp
  obtain c2 x where 2: "press_step layer [ch] sa rel (b, sb) \<lparr>pl_chv2 = c1, pl_acc = [(a, sa)], pl_cands = [ch], pl_prev = Some 1\<rparr>
      = Inr (True, \<lparr>pl_chv2 = c2, pl_acc = [(a, sa), (b, sb)], pl_cands = [ch], pl_prev = Some 1\<rparr>)"
    "c2_active c2 = c2_active c1 @ [x]" "pair_chord a b ch x" "c2_queue c2 = c2_queue c1"
    "c2_until_change c2 = c2_until_change c1"
    by (rule pair_second [OF assms(3,6,7) len1])
  have len2: "length (c2_active c2) < ACTIVE_CHORDS_LEN" using assms(9) 1(2) 2(2) by simp
  obtain c3 new where 3: "press_timeout layer [ch] sa rel \<lparr>pl_chv2 = c2, pl_acc = [(a, sa), (b, sb)], pl_cands = [ch], pl_prev = Some 1\<rparr> = Inr c3"
    "c2_active c3 = c2_active c2 @ new" "list_all (pair_chord a b ch) new"
    "length new = (if c2_until_change c2 = 0 \<or> rel then 1 else 0)" "c2_queue c3 = c2_queue c2"
    by (rule pair_after [OF assms(3,5) len2])
  have q: "c2_queue c3 = pair_queue a sa b sb (if rel then [\<lparr>q_event = Release 0 a, q_since = sr\<rparr>] else [])"
    using 1 2 3 assms(1) by simp
  define c' where "c' = c3\<lparr>c2_queue := filter (\<lambda>qd. case q_event qd of
      Press i j \<Rightarrow> \<not> list_ex (\<lambda>ap. fst ap = j) [(a, sa), (b, sb)] | _ \<Rightarrow> True) (c2_queue c3)\<rparr>"
  have "process_presses layer c = Inr c'"
    using pair_presses [OF assms(4), of sa sb rel sr] 1 2 3 assms(1,2)
    by (simp add: process_presses_def c'_def pair_queue_def)
  moreover have "c2_active c' = c2_active c @ (x # new)" using 1 2 3 by (simp add: c'_def)
  moreover have "length (x # new) = (if rel \<or> cv_pending ch \<le> sa then 2 else 1)" using 1 2 3 by simp
  moreover have "\<forall>y \<in> set (x # new). ach_keys y = [a, b] \<and> ach_action y = cv_action ch"
    using 2(3) 3(3) by (auto simp: pair_chord_def list_all_iff)
  moreover have "filter (\<lambda>qd. release_of (q_event qd) = None) (c2_queue c') = []"
    using q by (simp add: c'_def pair_queue_def)
  ultimately show ?thesis by blast
qed

theorem pair_chord_activations_witness:
  "\<exists>c' new. process_presses 0 (pair_state (pair_queue 30 100 31 1 [])) = Inr c'
     \<and> c2_active c' = c2_active (pair_state (pair_queue 30 100 31 1 [])) @ new \<and> length new = 2
     \<and> (\<forall>x \<in> set new. ach_keys x = [30, 31] \<and> ach_action x = KeyCode 42)
     \<and> filter (\<lambda>qd. release_of (q_event qd) = None) (c2_queue c') = []"
  using pair_chord_activations [of "pair_state (pair_queue 30 100 31 1 [])" 30 100 31 1 False 0 pair_example 0]
  by (simp add: pair_state_def pair_mapping_def pair_example_def ACTIVE_CHORDS_LEN_def)



end
