(* ===== verification/LayoutState.thy ===== *)
theory LayoutState
  imports Switch ChordsV2
begin

text \<open>
  The state of a layout (\<open>Layout\<close> in \<open>keyberon/src/layout.rs\<close>) and the operations that do not
  execute actions: layers, histories, the selection and removal of waiting states.

  Fields are named as in the code with the prefix \<open>l_\<close>. \<open>l_rpt_buf\<close> is the content of the
  \<open>MultiKeyBuffer\<close> (\<open>keyberon/src/multikey_buffer.rs\<close>); the action made of it is a value here,
  where the code hands out a reference to a buffer it writes to later. \<open>l_exit_code\<close> is the
  global \<open>LATEST_EXIT_CODE\<close> (\<open>parser/src/cfg/switch.rs\<close>) that the callbacks of a switch read.
  The \<open>tap_hold_tracker\<close> feature is on.
\<close>

section \<open>State\<close>

record 't sequence_state =
  sq_cur_event :: "'t seq_event option"
  sq_delay :: u32
  sq_tapped :: "keycode option"
  sq_remaining :: "'t seq_event list"

record last_press_tracker =
  lpt_coord :: kcoord
  lpt_timeout :: u16

definition tick_lpt :: "last_press_tracker \<Rightarrow> last_press_tracker" where
  "tick_lpt t = t\<lparr>lpt_timeout := sat_sub (lpt_timeout t) 1\<rparr>"

definition update_coord :: "kcoord \<Rightarrow> last_press_tracker \<Rightarrow> last_press_tracker" where
  "update_coord c t = (if fst c = REAL_KEY_ROW then t\<lparr>lpt_coord := c\<rparr> else t)"

definition STATES_LEN :: nat where "STATES_LEN = 64"
definition EXTRA_WAITING_LEN :: nat where "EXTRA_WAITING_LEN = 8"
definition SUPPRESS_LEN :: nat where "SUPPRESS_LEN = 8"
definition ACTIVE_SEQUENCES_LEN :: nat where "ACTIVE_SEQUENCES_LEN = 4"
definition MAX_ACTIVE_LAYERS :: nat where "MAX_ACTIVE_LAYERS = 12"
definition BUFCAP :: nat where "BUFCAP = ONE_SHOT_MAX_ACTIVE + 4"

record 't layout =
  l_src_keys :: "'t action list"
  l_layers :: "'t action list list list"
  l_default_layer :: nat
  l_states :: "'t state list"
  l_waiting :: "'t waiting_state option"
  l_extra_waiting :: "'t waiting_state list"
  l_tap_dance_eager :: "'t tap_dance_eager option"
  l_queue :: "queued list"
  l_oneshot :: one_shot_state
  l_suppress :: "keycode list"
  l_last_press :: last_press_tracker
  l_sequences :: "'t sequence_state list"
  l_action_queue :: "'t queued_action list"
  l_custom_releases :: "'t list"
  l_rpt_action :: "'t action option"
  l_hist_keys :: "keycode history"
  l_hist_inputs :: "kcoord history"
  l_hist_inputs_sans :: "kcoord history"
  l_quick_tap_hold :: bool
  l_prior_idle :: u16
  l_chords_v2 :: "'t chords_v2 option"
  l_device_history :: "u8 option list"
  l_rpt_buf :: "keycode list"
  l_trans_v2 :: bool
  l_delegate_first :: bool
  l_pause_hist :: bool
  l_hold_activated :: "kcoord option"
  l_tap_activated :: "kcoord option"
  l_exit_code :: int

text \<open>The state \<open>Layout::new\<close> builds; the constructor asserts that there are not too many layers.\<close>

definition blank_layout ::
  "'t action list \<Rightarrow> 't action list list list \<Rightarrow> bool \<Rightarrow> bool \<Rightarrow> 't layout" where
  "blank_layout src_keys layers trans_v2 delegate =
     \<lparr>l_src_keys = src_keys, l_layers = layers, l_default_layer = 0, l_states = [],
      l_waiting = None, l_extra_waiting = [], l_tap_dance_eager = None, l_queue = [],
      l_oneshot = one_shot_new, l_suppress = [],
      l_last_press = \<lparr>lpt_coord = (0, 0), lpt_timeout = 0\<rparr>, l_sequences = [],
      l_action_queue = [], l_custom_releases = [], l_rpt_action = None,
      l_hist_keys = history_new, l_hist_inputs = history_new,
      l_hist_inputs_sans = history_new, l_quick_tap_hold = False, l_prior_idle = 0,
      l_chords_v2 = None, l_device_history = [], l_rpt_buf = [],
      l_trans_v2 = trans_v2, l_delegate_first = delegate, l_pause_hist = False,
      l_hold_activated = None, l_tap_activated = None, l_exit_code = 0\<rparr>"

definition layout_new ::
  "'t action list \<Rightarrow> 't action list list list \<Rightarrow> bool \<Rightarrow> bool \<Rightarrow> 't layout res" where
  "layout_new src_keys layers trans_v2 delegate =
     (if length layers < MAX_LAYERS then Inr (blank_layout src_keys layers trans_v2 delegate)
      else Inl Panic)"

section \<open>Small operations\<close>

definition push_state :: "'t state \<Rightarrow> 't layout \<Rightarrow> 't layout" where
  "push_state s l = l\<lparr>l_states := vpush STATES_LEN s (l_states l)\<rparr>"

text \<open>\<open>ContextualExecution::push_historical_key\<close>.\<close>

definition push_historical_key :: "keycode \<Rightarrow> 't layout \<Rightarrow> 't layout" where
  "push_historical_key kc l =
     (if l_pause_hist l then l else l\<lparr>l_hist_keys := hist_push_front kc (l_hist_keys l)\<rparr>)"

definition lt_update_coord :: "kcoord \<Rightarrow> 't layout \<Rightarrow> 't layout" where
  "lt_update_coord c l = l\<lparr>l_last_press := update_coord c (l_last_press l)\<rparr>"

definition lt_set_tap_hold_timeout :: "u16 \<Rightarrow> 't layout \<Rightarrow> 't layout" where
  "lt_set_tap_hold_timeout t l = l\<lparr>l_last_press := (l_last_press l)\<lparr>lpt_timeout := t\<rparr>\<rparr>"

definition lt_press :: "one_shot_press \<Rightarrow> 't layout \<Rightarrow> 't layout" where
  "lt_press k l = l\<lparr>l_oneshot := snd (osh_handle_press k (l_oneshot l))\<rparr>"

definition lt_retain :: "one_shot_retainable \<Rightarrow> 't layout \<Rightarrow> 't layout" where
  "lt_retain r l = l\<lparr>l_oneshot := add_state_to_retain r (l_oneshot l)\<rparr>"

text \<open>\<open>self.oneshot.pause_input_processing_ticks = self.oneshot.pause_input_processing_delay\<close>.\<close>

definition lt_pause_input :: "'t layout \<Rightarrow> 't layout" where
  "lt_pause_input l =
     l\<lparr>l_oneshot := (l_oneshot l)\<lparr>osh_pause_ticks := osh_pause_delay (l_oneshot l)\<rparr>\<rparr>"

definition keycodes :: "'t layout \<Rightarrow> keycode list" where
  "keycodes l = filter (\<lambda>kc. kc \<notin> set (l_suppress l)) (List.map_filter st_keycode (l_states l))"

section \<open>Layers\<close>

definition current_layer :: "'t layout \<Rightarrow> nat" where
  "current_layer l =
     (case List.map_filter get_layer (rev (l_states l)) of
        [] \<Rightarrow> l_default_layer l | v # _ \<Rightarrow> v)"

definition active_held_layers :: "'t layout \<Rightarrow> u16 list" where
  "active_held_layers l = rev (map of_nat (List.map_filter get_layer (l_states l)))"

text \<open>Collecting more than \<open>MAX_ACTIVE_LAYERS\<close> layers into a \<open>heapless::Vec\<close> panics.\<close>

definition trans_resolution_layer_order :: "'t layout \<Rightarrow> u16 list res" where
  "trans_resolution_layer_order l =
     (if l_trans_v2 l then
        (if MAX_ACTIVE_LAYERS < length (active_held_layers l) then Inl Panic
         else
           let v = vpush MAX_ACTIVE_LAYERS (of_nat (l_default_layer l)) (active_held_layers l) in
           Inr (if l_delegate_first l \<and> current_layer l \<noteq> 0 \<and> l_default_layer l \<noteq> 0
                then vpush MAX_ACTIVE_LAYERS 0 v else v))
      else
        Inr (if l_delegate_first l \<and> current_layer l \<noteq> 0
             then [of_nat (current_layer l), 0] else [of_nat (current_layer l)]))"

definition set_default_layer :: "nat \<Rightarrow> 't layout \<Rightarrow> 't layout" where
  "set_default_layer v l = (if v < length (l_layers l) then l\<lparr>l_default_layer := v\<rparr> else l)"

text \<open>The first action on the stack of layers that is not transparent, and the rest of the
  stack. Indexing out of range panics.\<close>

definition layer_action :: "'t layout \<Rightarrow> nat \<Rightarrow> nat \<Rightarrow> nat \<Rightarrow> 't action res" where
  "layer_action l layer x y =
     (if layer < length (l_layers l) \<and> x < length (l_layers l ! layer)
         \<and> y < length (l_layers l ! layer ! x)
      then Inr (l_layers l ! layer ! x ! y) else Inl Panic)"

fun resolve_layers ::
  "'t layout \<Rightarrow> nat \<Rightarrow> nat \<Rightarrow> u16 list \<Rightarrow> ('t action option \<times> u16 list) res" where
  "resolve_layers l x y [] = Inr (None, [])"
| "resolve_layers l x y (layer # stack) =
     (if unat layer \<le> length (l_layers l) then
        and_then (layer_action l (unat layer) x y) (\<lambda>a.
          case a of Trans \<Rightarrow> resolve_layers l x y stack | _ \<Rightarrow> Inr (Some a, stack))
      else Inl Panic)"

definition resolve_coord :: "'t layout \<Rightarrow> kcoord \<Rightarrow> u16 list \<Rightarrow> ('t action \<times> u16 list) res" where
  "resolve_coord l coord stack =
     (let x = unat (fst coord); y = unat (snd coord) in
      case l_layers l of
        (row # rows) # _ \<Rightarrow>
          (if x \<le> length (row # rows) \<and> y \<le> length row then
             and_then (resolve_layers l x y stack) (\<lambda>(a, rest).
               case a of
                 Some ac \<Rightarrow> Inr (ac, rest)
               | None \<Rightarrow>
                   (if x = 0 then
                      (if y < length (l_src_keys l) then Inr (l_src_keys l ! y, rest)
                       else Inl Panic)
                    else Inr (NoOp, rest)))
           else Inl Panic)
      | _ \<Rightarrow> Inl Panic)"

section \<open>Waiting states\<close>

text \<open>The index \<open>-1\<close> is \<open>None\<close>: the first waiting state; \<open>Some i\<close> is an extra one.\<close>

definition get_waiting :: "nat option \<Rightarrow> 't layout \<Rightarrow> 't waiting_state option" where
  "get_waiting idx l =
     (case idx of None \<Rightarrow> l_waiting l | Some i \<Rightarrow> nth_opt (l_extra_waiting l) i)"

definition remove_nth :: "nat \<Rightarrow> 'a list \<Rightarrow> 'a list" where
  "remove_nth i xs = take i xs @ drop (Suc i) xs"

definition remove_waiting :: "nat option \<Rightarrow> 't layout \<Rightarrow> 't layout" where
  "remove_waiting idx l =
     (case idx of
        None \<Rightarrow> l\<lparr>l_waiting := None\<rparr>
      | Some i \<Rightarrow> l\<lparr>l_extra_waiting := remove_nth i (l_extra_waiting l)\<rparr>)"

fun first_index :: "'a \<Rightarrow> 'a list \<Rightarrow> nat option" where
  "first_index x [] = None"
| "first_index x (y # ys) = (if y = x then Some 0 else map_option Suc (first_index x ys))"

definition exclude_hold_or_timeout_from_history :: "kcoord \<Rightarrow> 't layout \<Rightarrow> 't layout" where
  "exclude_hold_or_timeout_from_history c l =
     (let h = l_hist_inputs_sans l in
      case first_index c (h_events h) of
        None \<Rightarrow> l
      | Some i \<Rightarrow>
          l\<lparr>l_hist_inputs_sans :=
              h\<lparr>h_ticks := remove_nth i (h_ticks h), h_events := remove_nth i (h_events h)\<rparr>\<rparr>)"

definition waiting_delay :: "'t waiting_state \<Rightarrow> u16 res" where
  "waiting_delay w =
     (case w_config w of WcTapDance _ \<Rightarrow> Inr 0 | _ \<Rightarrow> checked_add (w_delay w) (w_ticks w))"

definition set_hold_activated :: "'t waiting_state \<Rightarrow> 't layout \<Rightarrow> 't layout" where
  "set_hold_activated w l =
     (case w_config w of WcHoldTap _ \<Rightarrow> l\<lparr>l_hold_activated := Some (w_coord w)\<rparr> | _ \<Rightarrow> l)"

definition set_tap_activated :: "'t waiting_state \<Rightarrow> 't layout \<Rightarrow> 't layout" where
  "set_tap_activated w l =
     (case w_config w of WcHoldTap _ \<Rightarrow> l\<lparr>l_tap_activated := Some (w_coord w)\<rparr> | _ \<Rightarrow> l)"

definition clear_quick_tap :: "kcoord \<Rightarrow> 't layout \<Rightarrow> 't layout" where
  "clear_quick_tap c l =
     (if c = lpt_coord (l_last_press l) then lt_set_tap_hold_timeout 0 l else l)"

section \<open>Sequences\<close>

text \<open>The press of a key by a sequence: a fake key, a history entry and a press at (0, 0).\<close>

definition seq_press :: "keycode \<Rightarrow> 't layout \<Rightarrow> 't layout" where
  "seq_press kc l = lt_press (OtherKey (0, 0)) (push_historical_key kc (push_state (FakeKey kc) l))"

definition seq_release_key :: "keycode \<Rightarrow> 't layout \<Rightarrow> 't layout" where
  "seq_release_key kc l = l\<lparr>l_states := filter (seq_release kc) (l_states l)\<rparr>"

fun seq_event_step ::
  "'t seq_event option \<Rightarrow> 't sequence_state \<Rightarrow> 't layout \<Rightarrow> 't sequence_state \<times> 't layout" where
  "seq_event_step (Some SeqComplete) sq l = (sq\<lparr>sq_remaining := []\<rparr>, l)"
| "seq_event_step (Some (SeqPress kc)) sq l = (sq, seq_press kc l)"
| "seq_event_step (Some (SeqTap kc)) sq l = (sq\<lparr>sq_tapped := Some kc\<rparr>, seq_press kc l)"
| "seq_event_step (Some (SeqRelease kc)) sq l =
     (sq, seq_release_key kc
            (l\<lparr>l_oneshot := snd (osh_handle_release (0, 0) (l_oneshot l))\<rparr>))"
| "seq_event_step (Some (SeqDelay d)) sq l = (if 0 < d then (sq\<lparr>sq_delay := d - 1\<rparr>, l) else (sq, l))"
| "seq_event_step (Some (SeqCustom v)) sq l = (sq, push_state (SeqCustomPending v) l)"
| "seq_event_step _ sq l = (sq, l)"

definition seq_step :: "'t sequence_state \<Rightarrow> 't layout \<Rightarrow> 't sequence_state \<times> 't layout" where
  "seq_step sq l =
     (if 0 < sq_delay sq then (sq\<lparr>sq_delay := sat_sub (sq_delay sq) 1\<rparr>, l)
      else case sq_tapped sq of
        Some kc \<Rightarrow> (sq\<lparr>sq_tapped := None\<rparr>, seq_release_key kc l)
      | None \<Rightarrow>
          let sq1 = (case sq_remaining sq of
                [] \<Rightarrow> sq | e # es \<Rightarrow> sq\<lparr>sq_cur_event := Some e, sq_remaining := es\<rparr>) in
          seq_event_step (sq_cur_event sq1) sq1 l)"

text \<open>The loop runs once per sequence that was active at its start.\<close>

fun process_sequences_loop :: "nat \<Rightarrow> 't layout \<Rightarrow> 't layout" where
  "process_sequences_loop 0 l = l"
| "process_sequences_loop (Suc n) l =
     (case l_sequences l of
        [] \<Rightarrow> process_sequences_loop n l
      | sq # rest \<Rightarrow>
          (case seq_step sq (l\<lparr>l_sequences := rest\<rparr>) of (sq', l') \<Rightarrow>
             process_sequences_loop n
               (if sq_remaining sq' = [] then l'
                else l'\<lparr>l_sequences := wpush ACTIVE_SEQUENCES_LEN sq' (l_sequences l')\<rparr>)))"

fun repeating_sequence :: "'t state \<Rightarrow> 't seq_event list option" where
  "repeating_sequence (RepeatingSequence es c) = Some es"
| "repeating_sequence _ = None"

definition new_sequence :: "'t seq_event list \<Rightarrow> 't sequence_state" where
  "new_sequence es = \<lparr>sq_cur_event = None, sq_delay = 0, sq_tapped = None, sq_remaining = es\<rparr>"

definition push_sequence :: "'t seq_event list \<Rightarrow> 't layout \<Rightarrow> 't layout" where
  "push_sequence es l =
     l\<lparr>l_sequences := wpush ACTIVE_SEQUENCES_LEN (new_sequence es) (l_sequences l)\<rparr>"

definition process_sequences :: "'t layout \<Rightarrow> 't layout" where
  "process_sequences l =
     (let l' = process_sequences_loop (length (l_sequences l)) l in
      if l_sequences l' = [] then
        (case List.map_filter repeating_sequence (rev (l_states l')) of
           [] \<Rightarrow> l' | es # _ \<Rightarrow> push_sequence es l')
      else l')"

text \<open>Custom actions of sequences: one event per tick, press, then release, then gone.\<close>

fun seq_custom_step :: "'t state list \<Rightarrow> 't custom_event \<times> 't state list" where
  "seq_custom_step [] = (CNoEvent, [])"
| "seq_custom_step (s # ss) =
     (case s of
        SeqCustomPending v \<Rightarrow> (CPress v, SeqCustomActive v # ss)
      | SeqCustomActive v \<Rightarrow> (CRelease v, Tombstone # ss)
      | _ \<Rightarrow> (case seq_custom_step ss of (ce, ss') \<Rightarrow> (ce, s # ss')))"

definition process_sequence_custom ::
  "'t custom_event \<Rightarrow> 't layout \<Rightarrow> 't custom_event \<times> 't layout" where
  "process_sequence_custom custom l =
     (if l_states l = [] \<or> (case custom of CNoEvent \<Rightarrow> False | _ \<Rightarrow> True) then (custom, l)
      else
        (case seq_custom_step (filter (\<lambda>s. case s of Tombstone \<Rightarrow> False | _ \<Rightarrow> True) (l_states l)) of
           (ce, ss) \<Rightarrow> (custom_update custom ce, l\<lparr>l_states := ss\<rparr>)))"

end
