(* ===== verification/LayoutActions.thy ===== *)
theory LayoutActions
  imports LayoutState
begin

text \<open>
  Executing actions: \<open>Layout::do_action\<close> of \<open>keyberon/src/layout.rs\<close> with the operations it is
  mutually recursive with (\<open>event\<close>, \<open>dequeue\<close>, \<open>waiting_into_*\<close>). Every arm of the match is a
  definition of its own that takes the recursive call as the argument \<open>rec\<close>; \<open>do_action n\<close> ties
  the knot with at most \<open>n\<close> nested calls. \<open>custom_activation_count\<close> is threaded; the layer stack
  is an iterator that is only handed down, so it is a plain argument.
\<close>

type_synonym 't do_act =
  "'t action \<Rightarrow> kcoord \<Rightarrow> u16 \<Rightarrow> bool \<Rightarrow> u16 list \<Rightarrow> u8 \<Rightarrow> 't layout
     \<Rightarrow> ('t custom_event \<times> u8 \<times> 't layout) res"

section \<open>Deciding waiting states\<close>

definition run_fresh ::
  "'t do_act \<Rightarrow> 't action \<Rightarrow> kcoord \<Rightarrow> u16 \<Rightarrow> u16 list \<Rightarrow> 't layout
     \<Rightarrow> ('t custom_event \<times> 't layout) res" where
  "run_fresh rec a coord delay stack l =
     and_then (rec a coord delay False stack 0 l) (\<lambda>(ce, _, l'). Inr (ce, l'))"

definition waiting_into_hold ::
  "'t do_act \<Rightarrow> nat option \<Rightarrow> 't layout \<Rightarrow> ('t custom_event \<times> 't layout) res" where
  "waiting_into_hold rec idx l =
     (case get_waiting idx l of
        None \<Rightarrow> Inr (CNoEvent, l)
      | Some w \<Rightarrow>
          and_then (waiting_delay w) (\<lambda>delay.
            run_fresh rec (w_hold w) (w_coord w) delay (w_layer_stack w)
              (lt_pause_input (clear_quick_tap (w_coord w) (remove_waiting idx
                (set_hold_activated w (exclude_hold_or_timeout_from_history (w_coord w) l)))))))"

definition waiting_into_timeout ::
  "'t do_act \<Rightarrow> nat option \<Rightarrow> 't layout \<Rightarrow> ('t custom_event \<times> 't layout) res" where
  "waiting_into_timeout rec idx l =
     (case get_waiting idx l of
        None \<Rightarrow> Inr (CNoEvent, l)
      | Some w \<Rightarrow>
          and_then (waiting_delay w) (\<lambda>delay.
            run_fresh rec (w_timeout_action w) (w_coord w) delay (w_layer_stack w)
              (clear_quick_tap (w_coord w) (remove_waiting idx
                (set_hold_activated w (exclude_hold_or_timeout_from_history (w_coord w) l))))))"

text \<open>The simple actions that are repeated at the other coordinates of a chord.\<close>

fun is_simple_action :: "'t action \<Rightarrow> bool" where
  "is_simple_action (KeyCode _) = True"
| "is_simple_action (MultipleKeyCodes _) = True"
| "is_simple_action (OneShot _) = True"
| "is_simple_action (Layer _) = True"
| "is_simple_action _ = False"

definition repeat_at ::
  "'t do_act \<Rightarrow> 't action \<Rightarrow> u16 \<Rightarrow> u16 list \<Rightarrow> kcoord list \<Rightarrow> u8 \<times> 't layout
     \<Rightarrow> (u8 \<times> 't layout) res" where
  "repeat_at rec a delay stack pq =
     fold_res (\<lambda>c (cac, l). and_then (rec a c delay False stack cac l)
                               (\<lambda>(_, cac', l'). Inr (cac', l'))) pq"

fun tap_replicated :: "'t action \<Rightarrow> 't action list" where
  "tap_replicated (MultipleActions acs) = filter is_simple_action acs"
| "tap_replicated a = (if is_simple_action a then [a] else [])"

definition waiting_into_tap ::
  "'t do_act \<Rightarrow> kcoord list option \<Rightarrow> nat option \<Rightarrow> 't layout
     \<Rightarrow> ('t custom_event \<times> 't layout) res" where
  "waiting_into_tap rec pq idx l =
     (case get_waiting idx l of
        None \<Rightarrow> Inr (CNoEvent, l)
      | Some w \<Rightarrow>
          and_then (waiting_delay w) (\<lambda>delay.
          and_then (run_fresh rec (w_tap w) (w_coord w) delay (w_layer_stack w)
                      (remove_waiting idx (set_tap_activated w l))) (\<lambda>(ret, l1).
          and_then
            (case pq of
               None \<Rightarrow> Inr l1
             | Some cs \<Rightarrow>
                 and_then (fold_res (\<lambda>a. repeat_at rec a delay (w_layer_stack w) cs)
                             (tap_replicated (w_tap w)) (0, l1\<lparr>l_pause_hist := True\<rparr>))
                   (\<lambda>(_, l2). Inr (l2\<lparr>l_pause_hist := False\<rparr>)))
            (\<lambda>l3. Inr (ret, lt_pause_input l3)))))"

section \<open>Dequeuing an event\<close>

text \<open>The closure of the first \<open>retain\<close>: a flagged key is cleared by any release.\<close>

definition release_flagged ::
  "kcoord \<Rightarrow> 't state \<Rightarrow> 't custom_event \<times> 't list \<Rightarrow> (bool \<times> 't custom_event \<times> 't list) res"
where
  "release_flagged c s e =
     (if clear_on_next_release s then Inr (False, e) else st_release c s e)"

text \<open>The closure for the release of a one-shot key: its own states may stay.\<close>

fun release_unless_retained ::
  "one_shot_retainable list \<Rightarrow> kcoord \<Rightarrow> 't state \<Rightarrow> 't custom_event \<times> 't list
     \<Rightarrow> (bool \<times> 't custom_event \<times> 't list) res" where
  "release_unless_retained rs c (NormalKey kc coord f) e =
     Inr (coord \<noteq> c \<or> RetainKeyCode coord kc \<in> set rs, e)"
| "release_unless_retained rs c (LayerModifier v coord) e =
     Inr (coord \<noteq> c \<or> RetainLayer coord (of_nat v) \<in> set rs, e)"
| "release_unless_retained rs c s e = release_flagged c s e"

definition dequeue_release ::
  "kcoord \<Rightarrow> 't layout \<Rightarrow> ('t custom_event \<times> 't layout) res" where
  "dequeue_release c l =
     (case osh_handle_release c (l_oneshot l) of ((do_release, overflow), osh) \<Rightarrow>
        and_then
          (retain_res (if do_release then release_flagged c
                       else release_unless_retained (osh_retain osh) c)
             (l_states l) (CNoEvent, l_custom_releases l)) (\<lambda>(sts, e).
        and_then
          (case overflow of
             None \<Rightarrow> Inr (sts, e) | Some c2 \<Rightarrow> retain_res (st_release c2) sts e)
          (\<lambda>(sts', custom, q).
             Inr (custom, l\<lparr>l_oneshot := osh, l_states := sts', l_custom_releases := q\<rparr>))))"

definition dequeue_press ::
  "'t do_act \<Rightarrow> kcoord \<Rightarrow> u16 \<Rightarrow> 't layout \<Rightarrow> ('t custom_event \<times> 't layout) res" where
  "dequeue_press rec c since l =
     and_then (trans_resolution_layer_order l) (\<lambda>stack.
       case l_tap_dance_eager l of
         None \<Rightarrow> run_fresh rec Trans c since stack l
       | Some tde \<Rightarrow>
           (if c = lpt_coord (l_last_press l) \<and> \<not> tde_is_expired tde then
              and_then (tde_incr_taps tde) (\<lambda>tde'.
                run_fresh rec (tde_actions tde ! unat (tde_num_taps tde)) c since (drop 1 stack)
                  (l\<lparr>l_tap_dance_eager := Some tde'\<rparr>))
            else
              run_fresh rec Trans c since stack
                (if fst c = REAL_KEY_ROW
                 then l\<lparr>l_tap_dance_eager := Some (tde_set_expired tde)\<rparr> else l)))"

definition dequeue ::
  "'t do_act \<Rightarrow> queued \<Rightarrow> 't layout \<Rightarrow> ('t custom_event \<times> 't layout) res" where
  "dequeue rec qd l =
     (case q_event qd of
        Release i j \<Rightarrow> dequeue_release (i, j) l
      | Press i j \<Rightarrow> dequeue_press rec (i, j) (q_since qd) l)"

section \<open>Registering an event\<close>

definition record_press :: "event \<Rightarrow> 't layout \<Rightarrow> 't layout" where
  "record_press e l =
     (case e of
        Press i j \<Rightarrow>
          l\<lparr>l_hist_inputs := hist_push_front (i, j) (l_hist_inputs l),
            l_hist_inputs_sans := hist_push_front (i, j) (l_hist_inputs_sans l)\<rparr>
      | Release i j \<Rightarrow> l)"

definition push_queue :: "event \<Rightarrow> 't layout \<Rightarrow> queued option \<times> 't layout" where
  "push_queue e l =
     (case l_chords_v2 l of
        Some ch \<Rightarrow>
          (case push_back_chv2 (queued_from e) ch of (over, ch') \<Rightarrow>
             (over, l\<lparr>l_chords_v2 := Some ch'\<rparr>))
      | None \<Rightarrow>
          (case wrap_push_back QUEUE_SIZE (queued_from e) (l_queue l) of (q, over) \<Rightarrow>
             (over, l\<lparr>l_queue := q\<rparr>)))"

text \<open>A full queue: every waiting state becomes a hold and the displaced event is processed.\<close>

definition handle_overflow ::
  "'t do_act \<Rightarrow> queued option \<Rightarrow> 't layout \<Rightarrow> 't layout res" where
  "handle_overflow rec over l =
     (case over of
        None \<Rightarrow> Inr l
      | Some qd \<Rightarrow>
          and_then (fold_res (\<lambda>idx l. and_then (waiting_into_hold rec idx l) (\<lambda>(_, l'). Inr l'))
                      (None # map Some [0..<EXTRA_WAITING_LEN]) l) (\<lambda>l1.
          and_then (dequeue rec qd l1) (\<lambda>(_, l2). Inr l2)))"

definition layout_event :: "'t do_act \<Rightarrow> event \<Rightarrow> 't layout \<Rightarrow> 't layout res" where
  "layout_event rec e l =
     (case push_queue e (record_press e l) of (over, l') \<Rightarrow> handle_overflow rec over l')"

definition event_to_front :: "'t do_act \<Rightarrow> event \<Rightarrow> 't layout \<Rightarrow> 't layout res" where
  "event_to_front rec e l =
     (let l1 = record_press e l in
      case wrap_push_front QUEUE_SIZE (queued_from e) (l_queue l1) of (q, over) \<Rightarrow>
        handle_overflow rec over (l1\<lparr>l_queue := q\<rparr>))"

section \<open>The arms of \<open>do_action\<close>\<close>

type_synonym 't act_result = "('t custom_event \<times> u8 \<times> 't layout) res"

text \<open>\<open>handle_press\<close> of another key, unless inside a one-shot.\<close>

definition press_unless_oneshot :: "bool \<Rightarrow> kcoord \<Rightarrow> 't layout \<Rightarrow> 't layout" where
  "press_unless_oneshot is_oneshot c l = (if is_oneshot then l else lt_press (OtherKey c) l)"

definition set_rpt :: "'t action \<Rightarrow> 't layout \<Rightarrow> 't layout" where
  "set_rpt a l = l\<lparr>l_rpt_action := Some a\<rparr>"

definition do_noop :: "bool \<Rightarrow> kcoord \<Rightarrow> 't layout \<Rightarrow> 't layout" where
  "do_noop is_oneshot coord l =
     push_state (NoOpInput coord) (set_rpt NoOp
       (press_unless_oneshot (is_oneshot \<or> coord = TRIGGER_TAPHOLD_COORD) coord l))"

definition do_src :: "'t do_act \<Rightarrow> kcoord \<Rightarrow> u16 \<Rightarrow> bool \<Rightarrow> u8 \<Rightarrow> 't layout \<Rightarrow> 't act_result" where
  "do_src rec coord delay is_oneshot cac l =
     (if unat (snd coord) < length (l_src_keys l) then
        and_then (rec (l_src_keys l ! unat (snd coord)) coord delay is_oneshot [] cac l)
          (\<lambda>(_, cac', l'). Inr (CNoEvent, cac', l'))
      else Inl Panic)"

definition do_repeat :: "'t do_act \<Rightarrow> kcoord \<Rightarrow> u16 \<Rightarrow> bool \<Rightarrow> u8 \<Rightarrow> 't layout \<Rightarrow> 't act_result" where
  "do_repeat rec coord delay is_oneshot cac l =
     (case l_rpt_action l of
        None \<Rightarrow> Inr (CNoEvent, cac, l)
      | Some ac \<Rightarrow>
          and_then (rec ac coord delay is_oneshot [] cac l)
            (\<lambda>(_, cac', l'). Inr (CNoEvent, cac', l')))"

text \<open>Typing streak: the latest other real key press that has left the queue is recent.\<close>

definition in_queue :: "'t layout \<Rightarrow> kcoord hist_event \<Rightarrow> bool" where
  "in_queue l prior =
     list_ex (\<lambda>q. abs_diff (q_since q) (he_ticks prior) \<le> 2
                  \<and> q_event q = Press 0 (snd (he_event prior))) (l_queue l)"

definition prior_idle_tap :: "u16 option \<Rightarrow> kcoord \<Rightarrow> 't layout \<Rightarrow> bool" where
  "prior_idle_tap require coord l =
     (let threshold = (case require of None \<Rightarrow> l_prior_idle l | Some t \<Rightarrow> t) in
      0 < threshold \<and>
      (case find (\<lambda>prior. fst (he_event prior) = REAL_KEY_ROW \<and> he_event prior \<noteq> coord
                          \<and> \<not> in_queue l prior) (iter_hevents (l_hist_inputs_sans l)) of
         None \<Rightarrow> False
       | Some prior \<Rightarrow> he_ticks prior \<le> threshold))"

definition new_hold_tap_waiting ::
  "'t hold_tap_action \<Rightarrow> kcoord \<Rightarrow> u16 \<Rightarrow> u16 list \<Rightarrow> 't layout \<Rightarrow> 't waiting_state" where
  "new_hold_tap_waiting ht coord delay stack l =
     (let ticks = (if l_quick_tap_hold l then min delay (sat_sub (hta_timeout ht) 1) else 0) in
      \<lparr>w_coord = coord, w_timeout = sat_sub (hta_timeout ht) ticks,
       w_on_press_reset = hta_on_press_reset_timeout_to ht, w_delay = sat_sub delay ticks,
       w_ticks = ticks, w_hold = hta_hold ht, w_tap = hta_tap ht,
       w_timeout_action = hta_timeout_action ht, w_config = WcHoldTap (hta_config ht),
       w_layer_stack = stack, w_prev_queue_len = 0xFF\<rparr>)"

definition add_waiting :: "'t waiting_state \<Rightarrow> 't layout \<Rightarrow> 't layout" where
  "add_waiting w l =
     (case l_waiting l of
        Some _ \<Rightarrow> l\<lparr>l_extra_waiting := wpush EXTRA_WAITING_LEN w (l_extra_waiting l)\<rparr>
      | None \<Rightarrow> l\<lparr>l_waiting := Some w\<rparr>)"

definition do_hold_tap ::
  "'t do_act \<Rightarrow> 't hold_tap_action \<Rightarrow> kcoord \<Rightarrow> u16 \<Rightarrow> bool \<Rightarrow> u16 list \<Rightarrow> u8 \<Rightarrow> 't layout
     \<Rightarrow> 't act_result" where
  "do_hold_tap rec ht coord delay is_oneshot stack cac l =
     (if prior_idle_tap (hta_require_prior_idle ht) coord l then
        and_then (rec (hta_tap ht) coord delay is_oneshot stack cac l)
          (\<lambda>(custom, cac', l'). Inr (custom, cac', lt_update_coord coord l'))
      else if hta_tap_hold_interval ht = 0 \<or> coord \<noteq> lpt_coord (l_last_press l)
              \<or> lpt_timeout (l_last_press l) = 0 then
        Inr (CNoEvent, cac,
             lt_update_coord coord (lt_set_tap_hold_timeout (hta_tap_hold_interval ht)
               (add_waiting (new_hold_tap_waiting ht coord delay stack l) l)))
      else
        and_then (rec (hta_tap ht) coord delay is_oneshot stack cac (lt_set_tap_hold_timeout 0 l))
          (\<lambda>(custom, cac', l'). Inr (custom, cac', lt_update_coord coord l')))"

text \<open>After its inner action a one-shot key is activated; a displaced key is to be released.\<close>

definition activate_one_shot ::
  "'t one_shot \<Rightarrow> kcoord \<Rightarrow> 't layout \<Rightarrow> kcoord option \<times> 't layout" where
  "activate_one_shot os coord l0 =
     (let l = lt_press (OneShotKey coord) (set_rpt (OneShot os) l0) in
      case wrap_push_back ONE_SHOT_MAX_ACTIVE coord (osh_keys (l_oneshot l)) of (ks, over) \<Rightarrow>
        (over, l\<lparr>l_oneshot := (l_oneshot l)\<lparr>osh_timeout := os_timeout os,
                   osh_end_config := os_end_config os, osh_keys := ks\<rparr>\<rparr>))"

definition do_one_shot ::
  "'t do_act \<Rightarrow> 't one_shot \<Rightarrow> kcoord \<Rightarrow> u16 \<Rightarrow> u8 \<Rightarrow> 't layout \<Rightarrow> 't act_result" where
  "do_one_shot rec os coord delay cac l =
     and_then (rec (os_action os) coord delay True [] cac (lt_update_coord coord l))
       (\<lambda>(custom, cac', l1).
         case activate_one_shot os coord l1 of (over, l2) \<Rightarrow>
           and_then (case over of
                       None \<Rightarrow> Inr l2
                     | Some c \<Rightarrow> layout_event rec (Release (fst c) (snd c)) l2)
             (\<lambda>l3. Inr (custom, cac', l3)))"

definition do_ignore_events :: "u16 \<Rightarrow> kcoord \<Rightarrow> 't layout \<Rightarrow> 't layout" where
  "do_ignore_events ticks coord l =
     (let l1 = set_rpt (OneShotIgnoreEventsTicks ticks) (lt_update_coord coord l) in
      l1\<lparr>l_oneshot := (l_oneshot l1)\<lparr>osh_ticks_to_ignore := ticks\<rparr>\<rparr>)"

definition new_plain_waiting ::
  "'t waiting_config \<Rightarrow> u16 \<Rightarrow> kcoord \<Rightarrow> u16 \<Rightarrow> u16 list \<Rightarrow> 't waiting_state" where
  "new_plain_waiting cfg timeout coord delay stack =
     \<lparr>w_coord = coord, w_timeout = timeout, w_on_press_reset = None, w_delay = delay,
      w_ticks = 0, w_hold = NoOp, w_tap = NoOp, w_timeout_action = NoOp, w_config = cfg,
      w_layer_stack = stack, w_prev_queue_len = 0xFF\<rparr>"

definition new_tap_dance_eager :: "'t tap_dance \<Rightarrow> kcoord \<Rightarrow> 't tap_dance_eager" where
  "new_tap_dance_eager td coord =
     \<lparr>tde_coord = coord, tde_actions = td_actions td, tde_timeout = td_timeout td,
      tde_orig_timeout = td_timeout td, tde_num_taps = 1\<rparr>"

definition do_tap_dance ::
  "'t do_act \<Rightarrow> 't tap_dance \<Rightarrow> kcoord \<Rightarrow> u16 \<Rightarrow> u16 list \<Rightarrow> u8 \<Rightarrow> 't layout \<Rightarrow> 't act_result" where
  "do_tap_dance rec td coord delay stack cac l0 =
     (let l = lt_update_coord coord l0 in
      case td_config td of
        Lazy \<Rightarrow>
          Inr (CNoEvent, cac, l\<lparr>l_waiting := Some (new_plain_waiting
                 (WcTapDance \<lparr>tds_actions = td_actions td, tds_timeout = td_timeout td,
                              tds_num_taps = 1\<rparr>) (td_timeout td) coord delay stack)\<rparr>)
      | Eager \<Rightarrow>
          let l1 = (case l_tap_dance_eager l of
                      None \<Rightarrow> l\<lparr>l_tap_dance_eager := Some (new_tap_dance_eager td coord)\<rparr>
                    | Some tde \<Rightarrow>
                        if tde_coord tde \<noteq> coord
                        then l\<lparr>l_tap_dance_eager := Some (new_tap_dance_eager td coord)\<rparr> else l) in
          (case td_actions td of
             [] \<Rightarrow> Inl Panic
           | a # _ \<Rightarrow> rec a coord delay False stack cac l1))"

definition do_chords :: "'t chords_group \<Rightarrow> kcoord \<Rightarrow> u16 \<Rightarrow> u16 list \<Rightarrow> 't layout \<Rightarrow> 't layout" where
  "do_chords g coord delay stack l =
     (lt_update_coord coord l)
       \<lparr>l_waiting := Some (new_plain_waiting (WcChord g) (cg_timeout g) coord delay stack)\<rparr>"

text \<open>What \<open>Repeat\<close> will repeat after a key press: with active one-shot keys, their key codes
  and the pressed ones, from the buffer of \<open>BUFCAP\<close> places.\<close>

definition rpt_keys :: "'t action \<Rightarrow> kcoord list \<Rightarrow> keycode list \<Rightarrow> 't layout \<Rightarrow> 't layout" where
  "rpt_keys action osc kcs l =
     (if osc = [] then set_rpt action l
      else
        let buf = fold (vpush BUFCAP)
                    (List.map_filter (\<lambda>s. keycode_in_coords s osc) (l_states l) @ kcs) [] in
        l\<lparr>l_rpt_buf := buf, l_rpt_action := Some (MultipleKeyCodes buf)\<rparr>)"

definition do_key_code :: "keycode \<Rightarrow> kcoord \<Rightarrow> bool \<Rightarrow> 't layout \<Rightarrow> 't layout" where
  "do_key_code kc coord is_oneshot l =
     (let l1 = push_state (NormalKey kc coord 0) (push_historical_key kc (lt_update_coord coord l)) in
      if is_oneshot then set_rpt (KeyCode kc) (lt_retain (RetainKeyCode coord kc) l1)
      else rpt_keys (KeyCode kc) (fst (osh_handle_press (OtherKey coord) (l_oneshot l1))) [kc]
             (lt_press (OtherKey coord) l1))"

definition push_multi_key :: "kcoord \<Rightarrow> bool \<Rightarrow> keycode \<Rightarrow> 't layout \<Rightarrow> 't layout" where
  "push_multi_key coord is_oneshot kc l =
     (let l1 = (if \<not> is_mod kc \<and> kc \<in> set (keycodes l)
                then l\<lparr>l_suppress := vpush SUPPRESS_LEN kc (l_suppress l)\<rparr> else l) in
      push_state (NormalKey kc coord
                    (if is_oneshot then 0 else NORMAL_KEY_FLAG_CLEAR_ON_NEXT_ACTION))
        (push_historical_key kc l1))"

definition do_multiple_key_codes :: "keycode list \<Rightarrow> kcoord \<Rightarrow> bool \<Rightarrow> 't layout \<Rightarrow> 't layout" where
  "do_multiple_key_codes v coord is_oneshot l =
     (let l1 = fold (push_multi_key coord is_oneshot) v (lt_update_coord coord l) in
      if is_oneshot then
        set_rpt (MultipleKeyCodes v) (fold (\<lambda>kc. lt_retain (RetainKeyCode coord kc)) v l1)
      else rpt_keys (MultipleKeyCodes v) (fst (osh_handle_press (OtherKey coord) (l_oneshot l1))) v
             (lt_press (OtherKey coord) l1))"

text \<open>Execute the actions one after the other, merging their custom events.\<close>

definition run_actions ::
  "'t do_act \<Rightarrow> 't queued_action list \<Rightarrow> bool \<Rightarrow> 't custom_event \<times> u8 \<times> 't layout \<Rightarrow> 't act_result"
where
  "run_actions rec acs is_oneshot =
     fold_res (\<lambda>(c, delay, a, stack) (custom, cac, l).
       and_then (rec a c delay is_oneshot stack cac l)
         (\<lambda>(ce, cac', l'). Inr (custom_update custom ce, cac', l'))) acs"

definition do_multiple_actions ::
  "'t do_act \<Rightarrow> 't action list \<Rightarrow> kcoord \<Rightarrow> u16 \<Rightarrow> bool \<Rightarrow> u16 list \<Rightarrow> u8 \<Rightarrow> 't layout
     \<Rightarrow> 't act_result" where
  "do_multiple_actions rec v coord delay is_oneshot stack cac l =
     and_then (run_actions rec (map (\<lambda>a. (coord, delay, a, stack)) v) is_oneshot
                 (CNoEvent, cac, lt_update_coord coord l))
       (\<lambda>(custom, cac', l'). Inr (custom, cac', set_rpt (MultipleActions v) l'))"

definition do_sequence :: "'t seq_event list \<Rightarrow> kcoord \<Rightarrow> bool \<Rightarrow> 't layout \<Rightarrow> 't layout" where
  "do_sequence es coord is_oneshot l =
     set_rpt (Sequence es) (press_unless_oneshot is_oneshot coord (push_sequence es l))"

definition do_repeatable_sequence ::
  "'t seq_event list \<Rightarrow> kcoord \<Rightarrow> bool \<Rightarrow> 't layout \<Rightarrow> 't layout" where
  "do_repeatable_sequence es coord is_oneshot l =
     set_rpt (RepeatableSequence es) (press_unless_oneshot is_oneshot coord
       (push_state (RepeatingSequence es coord) (push_sequence es l)))"

fun fake_key :: "'t state \<Rightarrow> keycode option" where
  "fake_key (FakeKey kc) = Some kc"
| "fake_key _ = None"

definition do_cancel_sequences :: "kcoord \<Rightarrow> bool \<Rightarrow> 't layout \<Rightarrow> 't layout" where
  "do_cancel_sequences coord is_oneshot l =
     set_rpt CancelSequences (press_unless_oneshot is_oneshot coord
       (fold seq_release_key (List.map_filter fake_key (l_states l)) (l\<lparr>l_sequences := []\<rparr>)))"

definition do_layer :: "nat \<Rightarrow> kcoord \<Rightarrow> bool \<Rightarrow> 't layout \<Rightarrow> 't layout" where
  "do_layer v coord is_oneshot l =
     (let l1 = push_state (LayerModifier v coord) (lt_update_coord coord l) in
      if is_oneshot then lt_retain (RetainLayer coord (of_nat v)) l1
      else lt_press (OtherKey coord) l1)"

definition do_default_layer :: "nat \<Rightarrow> kcoord \<Rightarrow> bool \<Rightarrow> 't layout \<Rightarrow> 't layout" where
  "do_default_layer v coord is_oneshot l =
     press_unless_oneshot is_oneshot coord (set_default_layer v (lt_update_coord coord l))"

definition do_custom ::
  "'t \<Rightarrow> kcoord \<Rightarrow> u16 \<Rightarrow> bool \<Rightarrow> u16 list \<Rightarrow> u8 \<Rightarrow> 't layout \<Rightarrow> 't custom_event \<times> u8 \<times> 't layout"
where
  "do_custom v coord delay is_oneshot stack cac l =
     (let l1 = set_rpt (Custom v) (press_unless_oneshot is_oneshot coord (lt_update_coord coord l));
          cac' = sat_add cac 1 in
      if cac' \<le> 1 then (CPress v, cac', push_state (StCustom v coord) l1)
      else (CNoEvent, cac',
            l1\<lparr>l_action_queue :=
                 wpush ACTION_QUEUE_LEN (coord, delay, Custom v, stack) (l_action_queue l1)\<rparr>))"

definition do_release_state :: "releasable_state \<Rightarrow> kcoord \<Rightarrow> bool \<Rightarrow> 't layout \<Rightarrow> 't layout" where
  "do_release_state rs coord is_oneshot l =
     set_rpt (ReleaseState rs) (press_unless_oneshot is_oneshot coord
       (l\<lparr>l_states := filter (st_release_state rs) (l_states l)\<rparr>))"

definition fork_triggered :: "'t fork_config \<Rightarrow> 't layout \<Rightarrow> bool" where
  "fork_triggered fcfg l \<longleftrightarrow>
     list_ex (\<lambda>s. case st_keycode s of Some kc \<Rightarrow> kc \<in> set (fork_triggers fcfg) | None \<Rightarrow> False)
       (l_states l)"

definition do_fork ::
  "'t do_act \<Rightarrow> 't fork_config \<Rightarrow> kcoord \<Rightarrow> u16 \<Rightarrow> u16 list \<Rightarrow> u8 \<Rightarrow> 't layout \<Rightarrow> 't act_result" where
  "do_fork rec fcfg coord delay stack cac l =
     and_then (rec (if fork_triggered fcfg l then fork_right fcfg else fork_left fcfg)
                 coord delay False stack cac l)
       (\<lambda>(custom, cac', l'). Inr (custom, cac', set_rpt (Fork fcfg) l'))"

definition switch_env_of :: "'t switch \<Rightarrow> u16 list \<Rightarrow> int \<Rightarrow> 't layout \<Rightarrow> switch_env" where
  "switch_env_of sw stack exit l =
     \<lparr>se_keys = List.map_filter st_keycode (l_states l),
      se_positions = List.map_filter st_coord (l_states l),
      se_hist_keys = iter_hevents (l_hist_keys l),
      se_hist_inputs = iter_hevents (l_hist_inputs l),
      se_layers = stack, se_default_layer = of_nat (l_default_layer l),
      se_devices = l_device_history l,
      se_callbacks = map (\<lambda>f. f exit) (sw_callbacks sw)\<rparr>"

definition do_switch ::
  "'t do_act \<Rightarrow> 't switch \<Rightarrow> kcoord \<Rightarrow> u16 \<Rightarrow> bool \<Rightarrow> u16 list \<Rightarrow> u8 \<Rightarrow> 't layout \<Rightarrow> 't act_result"
where
  "do_switch rec sw coord delay is_oneshot stack cac l =
     and_then (trans_resolution_layer_order l) (\<lambda>layers.
       let exit = (case sw_init_fn sw of None \<Rightarrow> l_exit_code l | Some f \<Rightarrow> f (l_exit_code l)) in
       and_then (switch_actions (sw_cases sw) (switch_env_of sw layers exit l)) (\<lambda>acs.
       and_then (run_actions rec
                   (wextend ACTION_QUEUE_LEN (map (\<lambda>a. (coord, delay, a, stack)) acs) [])
                   is_oneshot (CNoEvent, cac, l\<lparr>l_exit_code := exit\<rparr>))
         (\<lambda>(custom, cac', l'). Inr (custom, cac', set_rpt (Switch sw) l'))))"

section \<open>\<open>do_action\<close>\<close>

text \<open>Before the action: another real key ends the quick tap-hold window, and states flagged to
  be cleared are removed, their non-modifier keys suppressed for a cycle.\<close>

definition forget_quick_tap :: "kcoord \<Rightarrow> 't layout \<Rightarrow> 't layout" where
  "forget_quick_tap coord l =
     (if lpt_coord (l_last_press l) \<noteq> coord \<and> fst coord = REAL_KEY_ROW
      then lt_set_tap_hold_timeout 0 l else l)"

fun clear_flagged_step ::
  "'t state \<Rightarrow> u16 \<times> keycode list \<Rightarrow> (bool \<times> u16 \<times> keycode list) res" where
  "clear_flagged_step (NormalKey kc c flags) (pause, suppress) =
     (if nkf_clear_on_next_action flags then
        and_then (checked_add pause 2) (\<lambda>pause'.
          Inr (False, pause', if is_mod kc then suppress else vpush SUPPRESS_LEN kc suppress))
      else Inr (True, pause, suppress))"
| "clear_flagged_step s e = Inr (True, e)"

definition clear_flagged :: "'t layout \<Rightarrow> 't layout res" where
  "clear_flagged l =
     and_then (retain_res clear_flagged_step (l_states l) (osh_pause_ticks (l_oneshot l), l_suppress l))
       (\<lambda>(sts, pause, suppress).
         Inr (l\<lparr>l_states := sts, l_suppress := suppress,
                l_oneshot := (l_oneshot l)\<lparr>osh_pause_ticks := pause\<rparr>\<rparr>))"

definition do_resolved :: "'t do_act \<Rightarrow> 't do_act" where
  "do_resolved rec action coord delay is_oneshot stack cac l =
     (case action of
        NoOp \<Rightarrow> Inr (CNoEvent, cac, do_noop is_oneshot coord l)
      | Src \<Rightarrow> do_src rec coord delay is_oneshot cac l
      | Trans \<Rightarrow> Inl Panic
      | Repeat \<Rightarrow> do_repeat rec coord delay is_oneshot cac l
      | HoldTap ht \<Rightarrow> do_hold_tap rec ht coord delay is_oneshot stack cac l
      | OneShot os \<Rightarrow> do_one_shot rec os coord delay cac l
      | OneShotIgnoreEventsTicks t \<Rightarrow> Inr (CNoEvent, cac, do_ignore_events t coord l)
      | TapDance td \<Rightarrow> do_tap_dance rec td coord delay stack cac l
      | Chords g \<Rightarrow> Inr (CNoEvent, cac, do_chords g coord delay stack l)
      | KeyCode kc \<Rightarrow> Inr (CNoEvent, cac, do_key_code kc coord is_oneshot l)
      | MultipleKeyCodes v \<Rightarrow> Inr (CNoEvent, cac, do_multiple_key_codes v coord is_oneshot l)
      | MultipleActions v \<Rightarrow> do_multiple_actions rec v coord delay is_oneshot stack cac l
      | Sequence es \<Rightarrow> Inr (CNoEvent, cac, do_sequence es coord is_oneshot l)
      | RepeatableSequence es \<Rightarrow> Inr (CNoEvent, cac, do_repeatable_sequence es coord is_oneshot l)
      | CancelSequences \<Rightarrow> Inr (CNoEvent, cac, do_cancel_sequences coord is_oneshot l)
      | Layer v \<Rightarrow> Inr (CNoEvent, cac, do_layer v coord is_oneshot l)
      | DefaultLayer v \<Rightarrow> Inr (CNoEvent, cac, do_default_layer v coord is_oneshot l)
      | Custom v \<Rightarrow> Inr (do_custom v coord delay is_oneshot stack cac l)
      | ReleaseState rs \<Rightarrow> Inr (CNoEvent, cac, do_release_state rs coord is_oneshot l)
      | Fork fcfg \<Rightarrow> do_fork rec fcfg coord delay stack cac l
      | Switch sw \<Rightarrow> do_switch rec sw coord delay is_oneshot stack cac l)"

definition do_action_step :: "'t do_act \<Rightarrow> 't do_act" where
  "do_action_step rec action0 coord delay is_oneshot stack0 cac l =
     and_then (case action0 of Trans \<Rightarrow> resolve_coord l coord stack0 | _ \<Rightarrow> Inr (action0, stack0))
       (\<lambda>(action, stack).
     and_then (clear_flagged (forget_quick_tap coord l)) (\<lambda>l1.
       do_resolved rec action coord delay is_oneshot stack cac l1))"

fun do_action :: "nat \<Rightarrow> 't do_act" where
  "do_action 0 action coord delay is_oneshot stack cac l = Inl OutOfFuel"
| "do_action (Suc n) action coord delay is_oneshot stack cac l =
     do_action_step (do_action n) action coord delay is_oneshot stack cac l"

end
