(* ===== verification/LayoutTick.thy ===== *)
theory LayoutTick
  imports LayoutActions
begin

text \<open>
  The clock of the layout: \<open>Layout::tick_layout\<close> with \<open>process_extra_waitings\<close>
  (\<open>keyberon/src/layout.rs\<close>). Its stages are definitions of their own. \<open>layout_step\<close> is one input
  of the layout, an event or a tick, with \<open>n\<close> as the bound on nested actions.
\<close>

section \<open>Extra waiting states\<close>

text \<open>Each is ticked in turn until one has decided.\<close>

fun tick_extras ::
  "nat \<Rightarrow> 't waiting_state list \<Rightarrow> queued list \<Rightarrow> 't queued_action list
     \<Rightarrow> ((nat \<times> waiting_action \<times> kcoord list option) option
          \<times> 't waiting_state list \<times> queued list \<times> 't queued_action list) res" where
  "tick_extras i [] q aq = Inr (None, [], q, aq)"
| "tick_extras i (w # ws) q aq =
     and_then (tick_wt w q aq) (\<lambda>(r, w', q', aq').
       case r of
         Some (wa, pq) \<Rightarrow> Inr (Some (i, wa, pq), w' # ws, q', aq')
       | None \<Rightarrow>
           and_then (tick_extras (Suc i) ws q' aq')
             (\<lambda>(r', ws', q'', aq''). Inr (r', w' # ws', q'', aq'')))"

text \<open>\<open>NoOp\<close> drops the first waiting state, whichever one decided.\<close>

definition decide_waiting ::
  "'t do_act \<Rightarrow> waiting_action \<Rightarrow> kcoord list option \<Rightarrow> nat option \<Rightarrow> 't layout
     \<Rightarrow> ('t custom_event \<times> 't layout) res" where
  "decide_waiting rec wa pq idx l =
     (case wa of
        WaHold \<Rightarrow> waiting_into_hold rec idx l
      | WaTap \<Rightarrow> waiting_into_tap rec pq idx l
      | WaTimeout \<Rightarrow> waiting_into_timeout rec idx l
      | WaNoOp \<Rightarrow> Inr (CNoEvent, l\<lparr>l_waiting := None\<rparr>))"

definition process_extra_waitings ::
  "'t do_act \<Rightarrow> 't custom_event \<Rightarrow> 't layout \<Rightarrow> ('t custom_event \<times> 't layout) res" where
  "process_extra_waitings rec custom l =
     (case custom of
        CNoEvent \<Rightarrow>
          and_then (tick_extras 0 (l_extra_waiting l) (l_queue l) (l_action_queue l))
            (\<lambda>(r, ws, q, aq).
              let l1 = l\<lparr>l_extra_waiting := ws, l_queue := q, l_action_queue := aq\<rparr> in
              case r of
                None \<Rightarrow> Inr (custom, l1)
              | Some (i, wa, pq) \<Rightarrow> decide_waiting rec wa pq (Some i) l1)
      | _ \<Rightarrow> Inr (custom, l))"

section \<open>The stages of a tick\<close>

text \<open>The chords of the second version hand over events and at most one action.\<close>

definition tick_chords :: "'t layout \<Rightarrow> 't layout res" where
  "tick_chords l =
     (case l_chords_v2 l of
        None \<Rightarrow> Inr l
      | Some ch \<Rightarrow>
          and_then (tick_chv2 (of_nat (current_layer l)) ch) (\<lambda>(evs, ch1).
            case get_action_chv2 ch1 of (act, ch2) \<Rightarrow>
              let l1 = l\<lparr>l_chords_v2 := Some ch2, l_queue := wextend QUEUE_SIZE evs (l_queue l)\<rparr> in
              Inr (case act of
                     None \<Rightarrow> l1
                   | Some a \<Rightarrow>
                       lt_pause_input (l1\<lparr>l_action_queue :=
                         wpush ACTION_QUEUE_LEN a (l_action_queue l1)\<rparr>))))"

definition tick_timers :: "'t layout \<Rightarrow> 't layout" where
  "tick_timers l =
     l\<lparr>l_queue := map tick_qd (l_queue l),
       l_last_press := tick_lpt (l_last_press l),
       l_tap_dance_eager := (case l_tap_dance_eager l of
          None \<Rightarrow> None
        | Some tde \<Rightarrow> if tde_is_expired (tick_tde tde) then None else Some (tick_tde tde))\<rparr>"

definition tick_histories :: "'t layout \<Rightarrow> 't layout" where
  "tick_histories l =
     l\<lparr>l_hist_keys := tick_hist (l_hist_keys l), l_hist_inputs := tick_hist (l_hist_inputs l),
       l_hist_inputs_sans := tick_hist (l_hist_inputs_sans l)\<rparr>"

definition tick_one_shot :: "'t layout \<Rightarrow> ('t custom_event \<times> 't layout) res" where
  "tick_one_shot l =
     (case tick_osh (l_oneshot l) of
        (None, osh) \<Rightarrow> Inr (CNoEvent, l\<lparr>l_oneshot := osh\<rparr>)
      | (Some released, osh) \<Rightarrow>
          fold_res (\<lambda>c (custom, l). and_then (dequeue_release c l)
              (\<lambda>(ce, l'). Inr (custom_update custom ce, l')))
            released (CNoEvent, l\<lparr>l_oneshot := osh\<rparr>))"

text \<open>Without a waiting state one queued event is processed, unless input is paused.\<close>

definition tick_input :: "'t do_act \<Rightarrow> 't layout \<Rightarrow> ('t custom_event \<times> 't layout) res" where
  "tick_input rec l =
     (if l_extra_waiting l \<noteq> [] then Inr (CNoEvent, l)
      else if 0 < osh_pause_ticks (l_oneshot l) then
        Inr (CNoEvent, l\<lparr>l_oneshot := (l_oneshot l)
               \<lparr>osh_pause_ticks := sat_sub (osh_pause_ticks (l_oneshot l)) 1\<rparr>\<rparr>)
      else case l_queue l of
        [] \<Rightarrow> Inr (CNoEvent, l)
      | s # q \<Rightarrow> dequeue rec s (l\<lparr>l_queue := q\<rparr>))"

definition tick_waiting :: "'t do_act \<Rightarrow> 't layout \<Rightarrow> ('t custom_event \<times> 't layout) res" where
  "tick_waiting rec l =
     (case l_waiting l of
        None \<Rightarrow> tick_input rec l
      | Some w \<Rightarrow>
          and_then (tick_wt w (l_queue l) (l_action_queue l)) (\<lambda>(r, w', q, aq).
            let l1 = l\<lparr>l_waiting := Some w', l_queue := q, l_action_queue := aq\<rparr> in
            case r of
              None \<Rightarrow> Inr (CNoEvent, l1)
            | Some (wa, pq) \<Rightarrow> decide_waiting rec wa pq None l1))"

text \<open>The rest of a tick, once neither a queued release nor a queued action is left.\<close>

definition tick_main :: "'t do_act \<Rightarrow> 't layout \<Rightarrow> ('t custom_event \<times> 't layout) res" where
  "tick_main rec l =
     and_then (tick_one_shot (tick_histories (process_sequences (tick_timers l)))) (\<lambda>(custom0, l1).
     and_then (tick_waiting rec l1) (\<lambda>(ce, l2).
     and_then (process_extra_waitings rec (custom_update custom0 ce) l2) (\<lambda>(custom, l3).
       Inr (process_sequence_custom custom l3))))"

definition tick_layout :: "'t do_act \<Rightarrow> 't layout \<Rightarrow> ('t custom_event \<times> 't layout) res" where
  "tick_layout rec l =
     (case l_custom_releases l of
        v # q \<Rightarrow> Inr (CRelease v, l\<lparr>l_custom_releases := q\<rparr>)
      | [] \<Rightarrow>
          and_then (tick_chords l) (\<lambda>l0.
            let l1 = l0\<lparr>l_suppress := []\<rparr> in
            case l_action_queue l1 of
              (coord, delay, action, stack) # aq \<Rightarrow>
                run_fresh rec action coord delay stack (l1\<lparr>l_action_queue := aq\<rparr>)
            | [] \<Rightarrow> tick_main rec l1))"

section \<open>Inputs and runs\<close>

datatype input = InEvent event | InTick

fun layout_step :: "nat \<Rightarrow> input \<Rightarrow> 't layout \<Rightarrow> ('t custom_event \<times> 't layout) res" where
  "layout_step n (InEvent e) l = and_then (layout_event (do_action n) e l) (\<lambda>l'. Inr (CNoEvent, l'))"
| "layout_step n InTick l = tick_layout (do_action n) l"

definition layout_run :: "nat \<Rightarrow> input list \<Rightarrow> 't layout \<Rightarrow> 't layout res" where
  "layout_run n = fold_res (\<lambda>i l. and_then (layout_step n i l) (\<lambda>(_, l'). Inr l'))"

end
