(* ===== verification/OpenRecursion.thy ===== *)
theory OpenRecursion
  imports LayoutTick
begin

text \<open>
  \<open>do_action\<close> is mutually recursive with the queue of the layout and may not terminate (an action
  that repeats itself), so its model counts nested calls. This theory holds what is needed to
  reason about it once and for all: an invariant of one step is an invariant of every number
  of nested calls, and a result that is reached with some bound is reached with every larger
  one, so results do not depend on the bound.
\<close>

section \<open>Bounded nesting\<close>

definition preserves :: "('t layout \<Rightarrow> bool) \<Rightarrow> 't do_act \<Rightarrow> bool" where
  "preserves I rec \<longleftrightarrow>
     (\<forall>a c d b st cac l ce cac' l'.
        I l \<longrightarrow> rec a c d b st cac l = Inr (ce, cac', l') \<longrightarrow> I l')"

lemma preservesD: "preserves I rec \<Longrightarrow> rec a c d b st cac l = Inr (ce, cac', l') \<Longrightarrow> I l \<Longrightarrow> I l'"
  unfolding preserves_def by blast

text \<open>\<open>refines r r'\<close>: \<open>r'\<close> is the same result, or \<open>r\<close> is not a result yet.\<close>

definition refines :: "'a res \<Rightarrow> 'a res \<Rightarrow> bool" where
  "refines r r' \<longleftrightarrow> r = Inl OutOfFuel \<or> r = r'"

definition refines_act :: "'t do_act \<Rightarrow> 't do_act \<Rightarrow> bool" where
  "refines_act rec rec' \<longleftrightarrow>
     (\<forall>a c d b st cac l. refines (rec a c d b st cac l) (rec' a c d b st cac l))"

locale fueled =
  fixes step :: "'t do_act \<Rightarrow> 't do_act" and runs :: "nat \<Rightarrow> 't do_act"
  assumes runs_0: "runs 0 a c d b st cac l = Inl OutOfFuel"
    and runs_Suc: "runs (Suc n) a c d b st cac l = step (runs n) a c d b st cac l"
begin

lemma runs_step: "runs (Suc n) = step (runs n)"
  by (intro ext) (rule runs_Suc)

lemma runs_0_refines: "refines_act (runs 0) rec"
  by (simp add: refines_act_def refines_def runs_0)

end

locale fueled_invariant = fueled +
  fixes I :: "'t layout \<Rightarrow> bool"
  assumes step_preserves: "preserves I rec \<Longrightarrow> preserves I (step rec)"
begin

lemma runs_preserve: "preserves I (runs n)"
proof (induction n)
  case 0
  then show ?case by (simp add: preserves_def runs_0)
next
  case (Suc n)
  then show ?case using step_preserves [OF Suc] by (simp add: runs_step)
qed

end

locale fueled_monotone = fueled +
  assumes step_mono: "refines_act rec rec' \<Longrightarrow> refines_act (step rec) (step rec')"
begin

lemma runs_Suc_mono: "refines_act (runs n) (runs (Suc n))"
proof (induction n)
  case 0
  then show ?case by (rule runs_0_refines)
next
  case (Suc n)
  then show ?case using step_mono [OF Suc] by (simp add: runs_step)
qed

lemma runs_mono:
  assumes "runs n a c d b st cac l = r" and "r \<noteq> Inl OutOfFuel" and "n \<le> m"
  shows "runs m a c d b st cac l = r"
  using assms(3)
proof (induction m rule: dec_induct)
  case base
  then show ?case using assms(1) .
next
  case (step m)
  then show ?case
    using runs_Suc_mono [of m] assms(2) unfolding refines_act_def refines_def by metis
qed

text \<open>Two runs that both have a result agree, whatever their bounds.\<close>

lemma runs_deterministic:
  assumes "runs n a c d b st cac l = r" and "r \<noteq> Inl OutOfFuel"
    and "runs m a c d b st cac l = r'" and "r' \<noteq> Inl OutOfFuel"
  shows "r = r'"
  using runs_mono [OF assms(1,2), of "max n m"] runs_mono [OF assms(3,4), of "max n m"] by simp

end

section \<open>One step of \<open>do_action\<close> is monotone\<close>

named_theorems mono_intros

lemma refines_refl [mono_intros]: "refines r r"
  by (simp add: refines_def)

lemma refines_and_then [mono_intros]:
  "refines m m' \<Longrightarrow> (\<And>x. refines (f x) (f' x)) \<Longrightarrow> refines (and_then m f) (and_then m' f')"
  unfolding refines_def by (cases m) (auto, metis)

lemma refines_prod [mono_intros]:
  "(\<And>a b. refines (f a b) (f' a b)) \<Longrightarrow> refines (case_prod f x) (case_prod f' x)"
  by (cases x) simp

lemma refines_option [mono_intros]:
  "refines n n' \<Longrightarrow> (\<And>a. refines (f a) (f' a)) \<Longrightarrow> refines (case_option n f x) (case_option n' f' x)"
  by (cases x) auto

lemma refines_list [mono_intros]:
  "refines n n' \<Longrightarrow> (\<And>a as. refines (f a as) (f' a as)) \<Longrightarrow>
     refines (case_list n f x) (case_list n' f' x)"
  by (cases x) auto

lemma refines_if [mono_intros]:
  "refines x x' \<Longrightarrow> refines y y' \<Longrightarrow> refines (if b then x else y) (if b then x' else y')"
  by auto

lemma refines_fold_res [mono_intros]:
  "(\<And>x s. refines (f x s) (f' x s)) \<Longrightarrow> refines (fold_res f xs s) (fold_res f' xs s)"
  by (induction xs arbitrary: s) (auto intro!: mono_intros)

lemma refines_act_apply [mono_intros]:
  "refines_act rec rec' \<Longrightarrow> refines (rec a c d b st cac l) (rec' a c d b st cac l)"
  unfolding refines_act_def by blast

lemma mono_run_fresh [mono_intros]:
  "refines_act rec rec' \<Longrightarrow> refines (run_fresh rec a c d st l) (run_fresh rec' a c d st l)"
  unfolding run_fresh_def by (intro mono_intros)

lemma mono_waiting [mono_intros]:
  assumes "refines_act rec rec'"
  shows "refines (waiting_into_hold rec idx l) (waiting_into_hold rec' idx l)"
    and "refines (waiting_into_timeout rec idx l) (waiting_into_timeout rec' idx l)"
    and "refines (repeat_at rec a d st cs s) (repeat_at rec' a d st cs s)"
  unfolding waiting_into_hold_def waiting_into_timeout_def repeat_at_def
  by (intro mono_intros assms)+

lemma mono_waiting_into_tap [mono_intros]:
  "refines_act rec rec' \<Longrightarrow> refines (waiting_into_tap rec pq idx l) (waiting_into_tap rec' pq idx l)"
  unfolding waiting_into_tap_def by (intro mono_intros)

lemma mono_dequeue [mono_intros]:
  assumes "refines_act rec rec'"
  shows "refines (dequeue rec qd l) (dequeue rec' qd l)"
  unfolding dequeue_def dequeue_press_def
  by (cases "q_event qd"; simp; intro mono_intros assms)

lemma mono_event [mono_intros]:
  assumes "refines_act rec rec'"
  shows "refines (handle_overflow rec over l) (handle_overflow rec' over l)"
    and "refines (layout_event rec e l) (layout_event rec' e l)"
    and "refines (event_to_front rec e l) (event_to_front rec' e l)"
  unfolding layout_event_def event_to_front_def handle_overflow_def Let_def
  by (intro mono_intros assms)+

lemma mono_run_actions [mono_intros]:
  "refines_act rec rec' \<Longrightarrow> refines (run_actions rec acs b s) (run_actions rec' acs b s)"
  unfolding run_actions_def
  by (rule refines_fold_res, rename_tac x s, case_tac x, case_tac s) (simp, intro mono_intros)

lemma mono_do_tap_dance:
  assumes "refines_act rec rec'"
  shows "refines (do_tap_dance rec td c d st cac l) (do_tap_dance rec' td c d st cac l)"
  unfolding do_tap_dance_def Let_def
  by (cases "td_config td"; simp; intro mono_intros assms)

lemma mono_arms:
  assumes "refines_act rec rec'"
  shows "refines (do_src rec c d b cac l) (do_src rec' c d b cac l)"
    and "refines (do_repeat rec c d b cac l) (do_repeat rec' c d b cac l)"
    and "refines (do_hold_tap rec ht c d b st cac l) (do_hold_tap rec' ht c d b st cac l)"
    and "refines (do_one_shot rec os c d cac l) (do_one_shot rec' os c d cac l)"
    and "refines (do_multiple_actions rec v c d b st cac l) (do_multiple_actions rec' v c d b st cac l)"
    and "refines (do_fork rec f c d st cac l) (do_fork rec' f c d st cac l)"
    and "refines (do_switch rec sw c d b st cac l) (do_switch rec' sw c d b st cac l)"
  unfolding do_src_def do_repeat_def do_hold_tap_def do_one_shot_def do_multiple_actions_def
    do_fork_def do_switch_def Let_def
  by (intro mono_intros assms)+

lemma mono_do_resolved [mono_intros]:
  assumes "refines_act rec rec'"
  shows "refines (do_resolved rec a c d b st cac l) (do_resolved rec' a c d b st cac l)"
  unfolding do_resolved_def
  by (cases a; simp only: action.case;
      intro refines_refl mono_arms [OF assms] mono_do_tap_dance [OF assms])

lemma mono_do_action_step:
  "refines_act rec rec' \<Longrightarrow> refines_act (do_action_step rec) (do_action_step rec')"
  unfolding do_action_step_def
  by (subst refines_act_def, intro allI mono_intros)

interpretation action_runs: fueled_monotone do_action_step do_action
  by unfold_locales (simp_all add: mono_do_action_step)

end
