(* ===== verification/Capacity.thy ===== *)
theory Capacity
  imports OpenRecursion ChordPresses
begin

text \<open>
  The buffers of the layout never exceed their capacity, whatever the configuration and
  whatever the inputs: \<open>layout_wf\<close> is preserved by every operation. The recursion of \<open>do_action\<close> is
  dealt with by interpreting the locale \<open>fueled_invariant\<close>.
\<close>

section \<open>Chords\<close>

definition chords_wf :: "'t chords_v2 \<Rightarrow> bool" where
  "chords_wf c \<longleftrightarrow> length (c2_queue c) \<le> QUEUE_SIZE \<and> length (c2_active c) \<le> ACTIVE_CHORDS_LEN"

lemma chords_wf_push: "chords_wf c \<Longrightarrow> push_back_chv2 e c = (over, c') \<Longrightarrow> chords_wf c'"
  using wb.push_bound [of "c2_queue c" QUEUE_SIZE e]
  by (auto simp: push_back_chv2_def chords_wf_def split: prod.splits)

lemma get_action_achs_length: "length (snd (get_action_achs as)) = length as"
  by (induction as) (auto split: active_chord_status.splits prod.splits)

lemma chords_wf_get_action: "chords_wf c \<Longrightarrow> get_action_chv2 c = (a, c') \<Longrightarrow> chords_wf c'"
  using get_action_achs_length [of "c2_active c"]
  by (auto simp: get_action_chv2_def chords_wf_def split: prod.splits)

lemma length_fold_map: "length (fold (\<lambda>x as. case f x of Some j \<Rightarrow> map (g j) as | None \<Rightarrow> as) xs as) = length as"
  by (induction xs arbitrary: as) (auto split: option.splits)

lemma chords_wf_drain_without:
  "chords_wf c \<Longrightarrow> drain_without_new_activations dq c = (dq', c') \<Longrightarrow> chords_wf c'"
  by (auto simp: drain_without_new_activations_def chords_wf_def length_fold_map Let_def)

lemma chords_wf_drain_virtual:
  "chords_wf c \<Longrightarrow> drain_virtual_keys dq c = Inr (dq', c') \<Longrightarrow> chords_wf c'"
  by (auto simp: drain_virtual_keys_def chords_wf_def and_then_Inr_iff dest!: retain_res_subset)

lemma chords_wf_drain_releases:
  assumes "chords_wf c" and "drain_releases dq c = Inr (dq', c')"
  shows "chords_wf c'"
proof -
  obtain q presses achs where r: "retain_res drain_release_step (c2_queue c) ([], c2_active c, dq)
      = Inr (q, presses, achs, dq')" and c': "c' = c\<lparr>c2_queue := q, c2_active := achs\<rparr>"
    using assms(2) by (auto simp: drain_releases_def and_then_Inr_iff)
  have "length (fst (snd (presses, achs, dq'))) = length (c2_active c)"
    by (rule retain_res_invariant [OF r])
      (auto simp: and_then_Inr_iff split: event.splits if_splits)
  then show ?thesis
    using assms(1) retain_res_subset [OF r] by (auto simp: c' chords_wf_def)
qed

lemma chords_wf_update [simp]:
  "chords_wf (c\<lparr>c2_ignore := i\<rparr>) = chords_wf c"
  "chords_wf (c\<lparr>c2_until_change := i\<rparr>) = chords_wf c"
  "chords_wf (c\<lparr>c2_until_change := i, c2_prev_layer := y, c2_prev_queue_len := z\<rparr>) = chords_wf c"
  "chords_wf (snd (next_coord c)) = chords_wf c"
  by (simp_all add: chords_wf_def)

interpretation wf_presses: press_relation "\<lambda>c c'. chords_wf c \<longrightarrow> chords_wf c'"
proof unfold_locales
  fix c c1 c2 :: "'t chords_v2" and coord cch since rel
  assume n: "next_coord c = (coord, c1)" and a: "activate_chord cch since coord rel c1 = Inr c2"
  from a obtain x where "length (c2_active c1) < ACTIVE_CHORDS_LEN" "c2 = c1\<lparr>c2_active := c2_active c1 @ [x]\<rparr>"
    by (rule activate_chord_Inr)
  then show "chords_wf c \<longrightarrow> chords_wf c2"
    using next_coord_same [of c] n by (simp add: chords_wf_def)
next
  fix c c1 :: "'t chords_v2" and coord
  assume "next_coord c = (coord, c1)"
  then show "chords_wf c \<longrightarrow> chords_wf c1" using chords_wf_update(4) [of c] by simp
qed auto

lemma chords_wf_filter: "chords_wf c \<Longrightarrow> chords_wf (c\<lparr>c2_queue := filter P (c2_queue c)\<rparr>)"
  by (auto simp: chords_wf_def intro: order_trans [OF length_filter_le])

lemma process_presses_wf:
  assumes "process_presses layer c = Inr c'" and "chords_wf c"
  shows "chords_wf c'"
  using assms(1) by (rule wf_presses.R_process_presses) (use assms(2) chords_wf_filter in auto)

lemma drain_inputs_wf:
  assumes "drain_inputs dq layer c = Inr (dq', c')" and "chords_wf c"
  shows "chords_wf c'"
proof -
  let ?c = "c\<lparr>c2_until_change := 0, c2_prev_layer := layer,
                   c2_prev_queue_len := of_nat (length (c2_queue c))\<rparr>"
  have c: "chords_wf ?c" using assms(2) by simp
  consider "drain_without_new_activations dq c = (dq', c')"
    | "c' = c\<lparr>c2_until_change := sat_sub (c2_until_change c) 1\<rparr>"
    | dq1 c2 c3 where "drain_virtual_keys dq ?c = Inr (dq1, c2)"
      "drain_releases dq1 c2 = Inr (dq', c3)" "process_presses layer c3 = Inr c'"
    using assms(1)
    by (auto simp: drain_inputs_def Let_def and_then_Inr_iff split: if_splits)
  then show ?thesis
  proof cases
    case 1
    then show ?thesis using chords_wf_drain_without assms(2) by blast
  next
    case 2
    then show ?thesis using assms(2) by simp
  next
    case 3
    then show ?thesis
      using chords_wf_drain_virtual [OF c] chords_wf_drain_releases process_presses_wf by blast
  qed
qed

lemma chords_wf_map:
  "chords_wf c \<Longrightarrow> chords_wf (c\<lparr>c2_queue := map f (c2_queue c), c2_active := map g (c2_active c)\<rparr>)"
  by (simp add: chords_wf_def)

lemma tick_chv2_wf:
  assumes "tick_chv2 layer c = Inr (dq, c')" and "chords_wf c"
  shows "chords_wf c'"
proof -
  obtain dq1 c1 dq2 dq3 c2 where s: "drain_inputs [] layer
      (c\<lparr>c2_queue := map tick_qd (c2_queue c), c2_active := map tick_ach (c2_active c)\<rparr>) = Inr (dq1, c1)"
    "clear_released_chords dq2 c1 = Inr (dq3, c2)" "c' = c2\<lparr>c2_ignore := sat_sub (c2_ignore c2) 1\<rparr>"
    using assms(1) by (auto simp: tick_chv2_def Let_def and_then_Inr_iff)
  have "chords_wf c1" using drain_inputs_wf [OF s(1)] chords_wf_map [OF assms(2)] by simp
  then have "chords_wf c2" using s(2)
    by (auto simp: clear_released_chords_def and_then_Inr_iff chords_wf_def
        dest!: retain_res_subset)
  then show ?thesis using s(3) by simp
qed

section \<open>The invariant\<close>

definition layout_wf :: "'t layout \<Rightarrow> bool" where
  "layout_wf l \<longleftrightarrow>
     length (l_states l) \<le> STATES_LEN \<and> length (l_extra_waiting l) \<le> EXTRA_WAITING_LEN \<and>
     length (l_queue l) \<le> QUEUE_SIZE \<and> one_shot_wf (l_oneshot l) \<and>
     length (l_suppress l) \<le> SUPPRESS_LEN \<and> length (l_sequences l) \<le> ACTIVE_SEQUENCES_LEN \<and>
     length (l_action_queue l) \<le> ACTION_QUEUE_LEN \<and>
     length (l_custom_releases l) \<le> CUSTOM_EVENT_RELEASE_QUEUE_LEN \<and>
     history_wf (l_hist_keys l) \<and> history_wf (l_hist_inputs l) \<and>
     history_wf (l_hist_inputs_sans l) \<and> length (l_rpt_buf l) \<le> BUFCAP \<and>
     pred_option chords_wf (l_chords_v2 l)"

lemma layout_wf_blank: "layout_wf (blank_layout src layers t d)"
  by (simp add: blank_layout_def layout_wf_def)

lemma layout_wf_new: "layout_new src layers t d = Inr l \<Longrightarrow> layout_wf l"
  by (auto simp: layout_new_def layout_wf_blank split: if_splits)

lemma layout_wfD:
  assumes "layout_wf l"
  shows "length (l_states l) \<le> STATES_LEN" "length (l_queue l) \<le> QUEUE_SIZE"
    "one_shot_wf (l_oneshot l)" "length (l_suppress l) \<le> SUPPRESS_LEN"
    "length (l_sequences l) \<le> ACTIVE_SEQUENCES_LEN"
    "length (l_action_queue l) \<le> ACTION_QUEUE_LEN"
    "length (l_extra_waiting l) \<le> EXTRA_WAITING_LEN"
    "length (l_custom_releases l) \<le> CUSTOM_EVENT_RELEASE_QUEUE_LEN"
    "length (osh_keys (l_oneshot l)) \<le> ONE_SHOT_MAX_ACTIVE"
  using assms by (simp_all add: layout_wf_def one_shot_wf_def)

lemma layout_wf_chords: "layout_wf l \<Longrightarrow> l_chords_v2 l = Some ch \<Longrightarrow> chords_wf ch"
  by (simp add: layout_wf_def)

lemma wf_update [simp]:
  assumes "layout_wf l"
  shows "length sts \<le> STATES_LEN \<Longrightarrow> layout_wf (l\<lparr>l_states := sts\<rparr>)"
    "length q \<le> QUEUE_SIZE \<Longrightarrow> layout_wf (l\<lparr>l_queue := q\<rparr>)"
    "one_shot_wf os \<Longrightarrow> layout_wf (l\<lparr>l_oneshot := os\<rparr>)"
    "length s \<le> SUPPRESS_LEN \<Longrightarrow> layout_wf (l\<lparr>l_suppress := s\<rparr>)"
    "length sq \<le> ACTIVE_SEQUENCES_LEN \<Longrightarrow> layout_wf (l\<lparr>l_sequences := sq\<rparr>)"
    "length aq \<le> ACTION_QUEUE_LEN \<Longrightarrow> layout_wf (l\<lparr>l_action_queue := aq\<rparr>)"
    "length ws \<le> EXTRA_WAITING_LEN \<Longrightarrow> layout_wf (l\<lparr>l_extra_waiting := ws\<rparr>)"
    "length cr \<le> CUSTOM_EVENT_RELEASE_QUEUE_LEN \<Longrightarrow> layout_wf (l\<lparr>l_custom_releases := cr\<rparr>)"
    "chords_wf ch \<Longrightarrow> layout_wf (l\<lparr>l_chords_v2 := Some ch\<rparr>)"
  using assms by (simp_all add: layout_wf_def)

text \<open>The operations that cannot fail. They are one simplification each over these facts.\<close>

lemma wf_push_state [simp]: "layout_wf l \<Longrightarrow> layout_wf (push_state s l)"
  by (simp add: layout_wf_def push_state_def sp.push_bound)

lemma wf_push_historical_key [simp]: "layout_wf l \<Longrightarrow> layout_wf (push_historical_key kc l)"
  by (simp add: layout_wf_def push_historical_key_def)

lemma wf_last_press [simp]:
  "layout_wf (lt_update_coord c l) = layout_wf l"
  "layout_wf (lt_set_tap_hold_timeout t l) = layout_wf l"
  by (simp_all add: layout_wf_def lt_update_coord_def lt_set_tap_hold_timeout_def)

lemma wf_oneshot [simp]:
  "layout_wf l \<Longrightarrow> layout_wf (lt_press k l)"
  "layout_wf l \<Longrightarrow> layout_wf (lt_retain r l)"
  "layout_wf l \<Longrightarrow> layout_wf (lt_pause_input l)"
  by (simp_all add: layout_wf_def lt_press_def lt_retain_def lt_pause_input_def)

lemma wf_set_rpt [simp]: "layout_wf (set_rpt a l) = layout_wf l"
  by (simp add: layout_wf_def set_rpt_def)

lemma wf_press_unless [simp]: "layout_wf l \<Longrightarrow> layout_wf (press_unless_oneshot b c l)"
  by (simp add: press_unless_oneshot_def)

lemma wf_set_default_layer [simp]: "layout_wf (set_default_layer v l) = layout_wf l"
  by (simp add: layout_wf_def set_default_layer_def)

lemma wf_filter_states [simp]: "layout_wf l \<Longrightarrow> layout_wf (l\<lparr>l_states := filter P (l_states l)\<rparr>)"
  using layout_wfD(1) [of l] by (intro wf_update(1)) (auto intro: order_trans [OF length_filter_le])

lemma wf_seq_release_key [simp]: "layout_wf l \<Longrightarrow> layout_wf (seq_release_key kc l)"
  by (simp add: seq_release_key_def)

lemma wf_push_sequence [simp]: "layout_wf l \<Longrightarrow> layout_wf (push_sequence es l)"
  by (simp add: layout_wf_def push_sequence_def wb.push_bound)

lemma wf_irrelevant [simp]:
  "layout_wf (l\<lparr>l_pause_hist := b\<rparr>) = layout_wf l"
  "layout_wf (l\<lparr>l_hold_activated := h\<rparr>) = layout_wf l"
  "layout_wf (l\<lparr>l_tap_activated := h\<rparr>) = layout_wf l"
  "layout_wf (l\<lparr>l_exit_code := x\<rparr>) = layout_wf l"
  "layout_wf (l\<lparr>l_waiting := w\<rparr>) = layout_wf l"
  "layout_wf (l\<lparr>l_tap_dance_eager := t\<rparr>) = layout_wf l"
  by (simp_all add: layout_wf_def)

lemma wf_add_waiting [simp]: "layout_wf l \<Longrightarrow> layout_wf (add_waiting w l)"
  by (auto simp: layout_wf_def add_waiting_def wb.push_bound split: option.splits)

lemma length_remove_nth [simp]: "length (remove_nth i xs) = (if i < length xs then length xs - 1 else length xs)"
  by (auto simp: remove_nth_def)

lemma wf_remove_waiting [simp]: "layout_wf l \<Longrightarrow> layout_wf (remove_waiting idx l)"
  by (auto simp: layout_wf_def remove_waiting_def split: option.splits)

lemma first_index_less: "first_index x xs = Some i \<Longrightarrow> i < length xs"
  by (induction xs arbitrary: i) (auto split: if_splits)

lemma wf_exclude [simp]:
  "layout_wf l \<Longrightarrow> layout_wf (exclude_hold_or_timeout_from_history c l)"
  by (auto simp: layout_wf_def exclude_hold_or_timeout_from_history_def Let_def history_wf_def
      dest: first_index_less split: option.splits)

lemma wf_activated [simp]:
  "layout_wf (set_hold_activated w l) = layout_wf l"
  "layout_wf (set_tap_activated w l) = layout_wf l"
  "layout_wf (clear_quick_tap c l) = layout_wf l"
  "layout_wf (forget_quick_tap c l) = layout_wf l"
  by (simp_all add: set_hold_activated_def set_tap_activated_def clear_quick_tap_def
      forget_quick_tap_def split: waiting_config.split)

lemma wf_fold: "layout_wf l \<Longrightarrow> (\<And>x l. layout_wf l \<Longrightarrow> layout_wf (f x l)) \<Longrightarrow> layout_wf (fold f xs l)"
  by (induction xs arbitrary: l) auto

lemma length_fold_vpush: "length q \<le> cap \<Longrightarrow> length (fold (vpush cap) xs q) \<le> cap"
  by (induction xs arbitrary: q) (auto simp: sp.push_bound)

lemma wf_rpt_keys [simp]: "layout_wf l \<Longrightarrow> layout_wf (rpt_keys a osc kcs l)"
  by (simp add: layout_wf_def rpt_keys_def Let_def set_rpt_def length_fold_vpush)

lemma wf_record_press [simp]: "layout_wf l \<Longrightarrow> layout_wf (record_press e l)"
  by (auto simp: layout_wf_def record_press_def split: event.split)

lemma wf_tick_timers: "layout_wf l \<Longrightarrow> layout_wf (tick_timers l)"
  by (simp add: tick_timers_def layout_wf_def)

lemma wf_tick_histories: "layout_wf l \<Longrightarrow> layout_wf (tick_histories l)"
  by (simp add: tick_histories_def layout_wf_def)

declare layout_wfD [simp]

section \<open>The arms\<close>

lemma wf_do_noop [simp]: "layout_wf l \<Longrightarrow> layout_wf (do_noop b c l)"
  by (simp add: do_noop_def)

lemma wf_do_ignore [simp]: "layout_wf l \<Longrightarrow> layout_wf (do_ignore_events t c l)"
  by (simp add: do_ignore_events_def Let_def)

lemma wf_do_chords [simp]: "layout_wf l \<Longrightarrow> layout_wf (do_chords g c d st l)"
  by (simp add: do_chords_def)

lemma wf_do_key_code [simp]: "layout_wf l \<Longrightarrow> layout_wf (do_key_code kc c b l)"
  by (simp add: do_key_code_def Let_def)

lemma wf_push_multi_key: "layout_wf l \<Longrightarrow> layout_wf (push_multi_key c b kc l)"
  by (simp add: push_multi_key_def Let_def sp.push_bound)

lemma wf_do_multiple_key_codes [simp]: "layout_wf l \<Longrightarrow> layout_wf (do_multiple_key_codes v c b l)"
  by (simp add: do_multiple_key_codes_def Let_def wf_fold wf_push_multi_key)

lemma wf_do_sequences [simp]:
  "layout_wf l \<Longrightarrow> layout_wf (do_sequence es c b l)"
  "layout_wf l \<Longrightarrow> layout_wf (do_repeatable_sequence es c b l)"
  "layout_wf l \<Longrightarrow> layout_wf (do_cancel_sequences c b l)"
  by (simp_all add: do_sequence_def do_repeatable_sequence_def do_cancel_sequences_def wf_fold)

lemma wf_do_layers [simp]:
  "layout_wf l \<Longrightarrow> layout_wf (do_layer v c b l)"
  "layout_wf l \<Longrightarrow> layout_wf (do_default_layer v c b l)"
  by (simp_all add: do_layer_def do_default_layer_def Let_def)

lemma wf_do_custom: "layout_wf l \<Longrightarrow> do_custom v c d b st cac l = (ce, cac', l') \<Longrightarrow> layout_wf l'"
  by (auto simp: do_custom_def Let_def wb.push_bound split: if_splits)

lemma wf_do_release_state [simp]: "layout_wf l \<Longrightarrow> layout_wf (do_release_state rs c b l)"
  by (simp add: do_release_state_def)

section \<open>The recursive operations\<close>

lemma wf_run_fresh:
  "preserves layout_wf rec \<Longrightarrow> run_fresh rec a c d st l = Inr (ce, l') \<Longrightarrow> layout_wf l \<Longrightarrow> layout_wf l'"
  by (auto simp: run_fresh_def and_then_Inr_iff dest: preservesD)

lemma wf_waiting_into_hold:
  "preserves layout_wf rec \<Longrightarrow> waiting_into_hold rec idx l = Inr (ce, l') \<Longrightarrow> layout_wf l \<Longrightarrow> layout_wf l'"
  by (auto simp: waiting_into_hold_def and_then_Inr_iff split: option.splits dest: wf_run_fresh)

lemma wf_waiting_into_timeout:
  "preserves layout_wf rec \<Longrightarrow> waiting_into_timeout rec idx l = Inr (ce, l') \<Longrightarrow> layout_wf l \<Longrightarrow> layout_wf l'"
  by (auto simp: waiting_into_timeout_def and_then_Inr_iff split: option.splits dest: wf_run_fresh)

lemma wf_repeat_at:
  assumes "preserves layout_wf rec" and "repeat_at rec a d st cs (cac, l) = Inr (cac', l')"
    and "layout_wf l"
  shows "layout_wf l'"
proof -
  have "(\<lambda>(cac, l). layout_wf l) (cac', l')"
    by (rule fold_res_invariant [OF assms(2) [unfolded repeat_at_def]])
      (use assms(3) in \<open>auto simp: and_then_Inr_iff dest: preservesD [OF assms(1)]\<close>)
  then show ?thesis by simp
qed

lemma wf_waiting_into_tap:
  assumes "preserves layout_wf rec" and "waiting_into_tap rec pq idx l = Inr (ce, l')"
    and "layout_wf l"
  shows "layout_wf l'"
proof (cases "get_waiting idx l")
  case None
  then show ?thesis using assms by (simp add: waiting_into_tap_def)
next
  case (Some w)
  obtain delay l1 l3 where s: "run_fresh rec (w_tap w) (w_coord w) delay (w_layer_stack w)
      (remove_waiting idx (set_tap_activated w l)) = Inr (ce, l1)" "l' = lt_pause_input l3"
    and l3: "(case pq of None \<Rightarrow> Inr l1
             | Some cs \<Rightarrow>
                 and_then (fold_res (\<lambda>a. repeat_at rec a delay (w_layer_stack w) cs)
                             (tap_replicated (w_tap w)) (0, l1\<lparr>l_pause_hist := True\<rparr>))
                   (\<lambda>(_, l2). Inr (l2\<lparr>l_pause_hist := False\<rparr>))) = Inr l3"
    using assms(2) Some by (auto simp: waiting_into_tap_def and_then_Inr_iff)
  have l1: "layout_wf l1" using wf_run_fresh [OF assms(1) s(1)] assms(3) by simp
  have "layout_wf l3"
  proof (cases pq)
    case None
    then show ?thesis using l3 l1 by simp
  next
    case (Some cs)
    obtain cac l2 where f: "fold_res (\<lambda>a. repeat_at rec a delay (w_layer_stack w) cs)
        (tap_replicated (w_tap w)) (0, l1\<lparr>l_pause_hist := True\<rparr>) = Inr (cac, l2)"
      "l3 = l2\<lparr>l_pause_hist := False\<rparr>"
      using l3 Some by (auto simp: and_then_Inr_iff)
    have "(\<lambda>(cac, l). layout_wf l) (cac, l2)"
      by (rule fold_res_invariant [OF f(1)]) (use l1 wf_repeat_at [OF assms(1)] in auto)
    then show ?thesis using f(2) by simp
  qed
  then show ?thesis using s(2) by simp
qed

lemma st_release_queue_bound:
  "st_release c s (custom, q) = Inr (keep, custom', q') \<Longrightarrow>
     length q \<le> CUSTOM_EVENT_RELEASE_QUEUE_LEN \<Longrightarrow> length q' \<le> CUSTOM_EVENT_RELEASE_QUEUE_LEN"
proof (cases s)
  case (StCustom v coord)
  assume a: "st_release c s (custom, q) = Inr (keep, custom', q')"
    "length q \<le> CUSTOM_EVENT_RELEASE_QUEUE_LEN"
  then have "q' = q \<or> q' = wpush CUSTOM_EVENT_RELEASE_QUEUE_LEN v q"
    using StCustom by (auto simp: and_then_Inr_iff split: if_splits custom_event.splits)
  then show ?thesis using wb.push_bound [OF a(2)] a(2) by auto
qed auto

lemma wf_dequeue_release:
  assumes "dequeue_release c l = Inr (ce, l')" and "layout_wf l"
  shows "layout_wf l'"
proof -
  let ?I = "\<lambda>(custom :: 'a custom_event, q :: 'a list). length q \<le> CUSTOM_EVENT_RELEASE_QUEUE_LEN"
  obtain rel over osh where h: "osh_handle_release c (l_oneshot l) = ((rel, over), osh)"
    by (metis surj_pair)
  obtain sts e sts' q where r: "retain_res (if rel then release_flagged c
        else release_unless_retained (osh_retain osh) c) (l_states l) (CNoEvent, l_custom_releases l)
      = Inr (sts, e)"
    and o2: "(case over of None \<Rightarrow> Inr (sts, e) | Some c2 \<Rightarrow> retain_res (st_release c2) sts e)
      = Inr (sts', ce, q)"
    and l': "l' = l\<lparr>l_oneshot := osh, l_states := sts', l_custom_releases := q\<rparr>"
    using assms(1) h by (fastforce simp: dequeue_release_def and_then_Inr_iff)
  have rf: "?I e'" if "release_flagged c s e = Inr (keep, e')" "?I e" for s keep e e'
    using that st_release_queue_bound [of c s "fst e" "snd e" keep "fst e'" "snd e'"]
    by (auto simp: release_flagged_def split: if_splits)
  then have ru: "?I e'" if "release_unless_retained (osh_retain osh) c s e = Inr (keep, e')" "?I e" for s keep e e'
    using that by (cases s) auto
  have "?I e" by (rule retain_res_invariant [OF r]) (use assms(2) rf ru in \<open>auto split: if_splits\<close>)
  moreover have "?I (ce, q) \<and> length sts' \<le> length sts"
  proof (cases over)
    case None
    then show ?thesis using o2 calculation by simp
  next
    case (Some c2)
    have "?I (ce, q)"
      by (rule retain_res_invariant [OF o2 [unfolded Some, simplified]])
        (use calculation in \<open>auto dest: st_release_queue_bound\<close>)
    then show ?thesis using retain_res_subset [OF o2 [unfolded Some, simplified]] by simp
  qed
  moreover have "one_shot_wf osh" using one_shot_wf_release [of "l_oneshot l" c] h assms(2) by simp
  moreover have "length sts' \<le> STATES_LEN"
    using calculation(2) retain_res_subset [OF r] layout_wfD(1) [OF assms(2)] by linarith
  ultimately show ?thesis using assms(2) by (simp add: l')
qed

lemma wf_dequeue_press:
  assumes "preserves layout_wf rec" and "dequeue_press rec c since l = Inr (ce, l')"
    and "layout_wf l"
  shows "layout_wf l'"
proof (cases "l_tap_dance_eager l")
  case None
  then show ?thesis using assms(2,3)
    by (auto simp: dequeue_press_def and_then_Inr_iff dest: wf_run_fresh [OF assms(1)])
next
  case (Some tde)
  then obtain a st l1 where "run_fresh rec a c since st l1 = Inr (ce, l')"
    and "l1 = l \<or> (\<exists>t. l1 = l\<lparr>l_tap_dance_eager := Some t\<rparr>)"
    using assms(2) by (auto simp: dequeue_press_def and_then_Inr_iff split: if_splits)
  then show ?thesis using assms(3) by (auto dest: wf_run_fresh [OF assms(1)])
qed

lemma wf_dequeue:
  "preserves layout_wf rec \<Longrightarrow> dequeue rec qd l = Inr (ce, l') \<Longrightarrow> layout_wf l \<Longrightarrow> layout_wf l'"
  by (auto simp: dequeue_def split: event.splits dest: wf_dequeue_press wf_dequeue_release)

lemma wf_handle_overflow:
  assumes "preserves layout_wf rec" and "handle_overflow rec over l = Inr l'" and "layout_wf l"
  shows "layout_wf l'"
proof (cases over)
  case None
  then show ?thesis using assms by (simp add: handle_overflow_def)
next
  case (Some qd)
  obtain l1 ce where l1: "fold_res (\<lambda>idx l. and_then (waiting_into_hold rec idx l) (\<lambda>(_, l'). Inr l'))
      (None # map Some [0..<EXTRA_WAITING_LEN]) l = Inr l1" "dequeue rec qd l1 = Inr (ce, l')"
    using assms(2) Some by (auto simp: handle_overflow_def and_then_Inr_iff)
  have "layout_wf l1"
    by (rule fold_res_invariant [where I = layout_wf, OF l1(1) assms(3)])
      (use wf_waiting_into_hold [OF assms(1)] in \<open>auto simp: and_then_Inr_iff\<close>)
  then show ?thesis using wf_dequeue [OF assms(1) l1(2)] by simp
qed

lemma wf_push_queue: "push_queue e l = (over, l') \<Longrightarrow> layout_wf l \<Longrightarrow> layout_wf l'"
proof (cases "l_chords_v2 l")
  case None
  assume "push_queue e l = (over, l')" "layout_wf l"
  then show ?thesis using None using wb.push_bound [of "l_queue l" QUEUE_SIZE "queued_from e"]
    by (auto simp: push_queue_def split: prod.splits)
next
  case (Some ch)
  assume a: "push_queue e l = (over, l')" "layout_wf l"
  have "chords_wf ch" using layout_wf_chords [OF a(2) Some] .
  then show ?thesis using a Some
    by (auto simp: push_queue_def dest: chords_wf_push split: prod.splits)
qed

lemma wf_layout_event:
  assumes "preserves layout_wf rec" and "layout_event rec e l = Inr l'" and "layout_wf l"
  shows "layout_wf l'"
proof -
  obtain over l1 where p: "push_queue e (record_press e l) = (over, l1)" by fastforce
  then have "layout_wf l1" by (rule wf_push_queue) (simp add: assms(3))
  then show ?thesis using assms(2) p wf_handle_overflow [OF assms(1)] by (simp add: layout_event_def)
qed

lemma wf_event_to_front:
  assumes "preserves layout_wf rec" and "event_to_front rec e l = Inr l'" and "layout_wf l"
  shows "layout_wf l'"
proof -
  obtain q over where p: "wrap_push_front QUEUE_SIZE (queued_from e) (l_queue (record_press e l)) = (q, over)"
    by fastforce
  then have "length q \<le> QUEUE_SIZE"
    using wf.push_bound [of "l_queue (record_press e l)" QUEUE_SIZE "queued_from e"] assms(3) by simp
  then have "layout_wf ((record_press e l)\<lparr>l_queue := q\<rparr>)" using assms(3) by simp
  then show ?thesis using assms(2) p wf_handle_overflow [OF assms(1)]
    by (simp add: event_to_front_def Let_def)
qed

text \<open>The arms of the match that call back.\<close>

lemma wf_do_src:
  "preserves layout_wf rec \<Longrightarrow> layout_wf l \<Longrightarrow> do_src rec c d b cac l = Inr (ce, cac', l') \<Longrightarrow> layout_wf l'"
  unfolding do_src_def by (auto simp: and_then_Inr_iff split: if_splits dest: preservesD)

lemma wf_do_repeat:
  "preserves layout_wf rec \<Longrightarrow> layout_wf l \<Longrightarrow> do_repeat rec c d b cac l = Inr (ce, cac', l') \<Longrightarrow> layout_wf l'"
  unfolding do_repeat_def by (auto simp: and_then_Inr_iff split: option.splits dest: preservesD)

lemma wf_do_hold_tap:
  "preserves layout_wf rec \<Longrightarrow> layout_wf l \<Longrightarrow>
     do_hold_tap rec ht c d b st cac l = Inr (ce, cac', l') \<Longrightarrow> layout_wf l'"
  unfolding do_hold_tap_def by (auto simp: and_then_Inr_iff split: if_splits dest: preservesD)

lemma wf_activate_one_shot:
  assumes "activate_one_shot os c l = (over, l')" and "layout_wf l"
  shows "layout_wf l'"
proof -
  let ?l = "lt_press (OneShotKey c) (set_rpt (OneShot os) l)"
  have wf: "layout_wf ?l" using assms(2) by simp
  obtain ks where ks: "wrap_push_back ONE_SHOT_MAX_ACTIVE c (osh_keys (l_oneshot ?l)) = (ks, over)"
    and l': "l' = ?l\<lparr>l_oneshot := (l_oneshot ?l)\<lparr>osh_timeout := os_timeout os,
                osh_end_config := os_end_config os, osh_keys := ks\<rparr>\<rparr>"
    using assms(1) by (auto simp: activate_one_shot_def Let_def split: prod.splits)
  have "length ks \<le> ONE_SHOT_MAX_ACTIVE"
    using wb.push_bound [of "osh_keys (l_oneshot ?l)" ONE_SHOT_MAX_ACTIVE c] wf ks by simp
  moreover have "one_shot_wf (l_oneshot ?l)" using wf by simp
  ultimately show ?thesis
    unfolding l' using wf by (intro wf_update(3)) (simp_all add: one_shot_wf_def)
qed

lemma wf_do_one_shot:
  assumes "preserves layout_wf rec" and "layout_wf l"
    and "do_one_shot rec os c d cac l = Inr (ce, cac', l')"
  shows "layout_wf l'"
proof -
  obtain l1 where l1: "rec (os_action os) c d True [] cac (lt_update_coord c l) = Inr (ce, cac', l1)"
    using assms(3) by (auto simp: do_one_shot_def and_then_Inr_iff case_prod_unfold)
  obtain over l2 where l2: "activate_one_shot os c l1 = (over, l2)" by fastforce
  have l': "(case over of None \<Rightarrow> Inr l2
      | Some c \<Rightarrow> layout_event rec (Release (fst c) (snd c)) l2) = Inr l'"
    using assms(3) l1 l2 by (auto simp: do_one_shot_def and_then_Inr_iff)
  have "layout_wf l1" using preservesD [OF assms(1) l1] assms(2) by simp
  then have "layout_wf l2" by (rule wf_activate_one_shot [OF l2])
  then show ?thesis using l' by (auto dest: wf_layout_event [OF assms(1)] split: option.splits)
qed

lemma wf_do_tap_dance:
  assumes "preserves layout_wf rec" and "layout_wf l"
    and "do_tap_dance rec td c d st cac l = Inr (ce, cac', l')"
  shows "layout_wf l'"
proof (cases "td_config td")
  case Lazy
  then show ?thesis using assms(2,3) by (auto simp: do_tap_dance_def Let_def)
next
  case Eager
  then obtain a l1 where "rec a c d False st cac l1 = Inr (ce, cac', l')"
    "l1 = lt_update_coord c l \<or> (\<exists>t. l1 = (lt_update_coord c l)\<lparr>l_tap_dance_eager := t\<rparr>)"
    using assms(3) by (auto simp: do_tap_dance_def Let_def split: list.splits option.splits if_splits)
  then show ?thesis using assms(2) by (auto dest: preservesD [OF assms(1)])
qed

lemma wf_run_actions:
  assumes "preserves layout_wf rec" and "run_actions rec acs b (ce, cac, l) = Inr (ce', cac', l')"
    and "layout_wf l"
  shows "layout_wf l'"
proof -
  have "(\<lambda>(ce, cac, l). layout_wf l) (ce', cac', l')"
    by (rule fold_res_invariant [OF assms(2) [unfolded run_actions_def]])
      (use assms(3) in \<open>auto simp: and_then_Inr_iff dest: preservesD [OF assms(1)]\<close>)
  then show ?thesis by simp
qed

lemma wf_do_multiple_actions:
  assumes "preserves layout_wf rec" and "layout_wf l"
    and "do_multiple_actions rec v c d b st cac l = Inr (ce, cac', l')"
  shows "layout_wf l'"
  using assms(2,3)
  by (auto simp: do_multiple_actions_def and_then_Inr_iff dest: wf_run_actions [OF assms(1)])

lemma wf_do_fork:
  assumes "preserves layout_wf rec" and "layout_wf l"
    and "do_fork rec f c d st cac l = Inr (ce, cac', l')"
  shows "layout_wf l'"
  using assms(2,3) by (auto simp: do_fork_def and_then_Inr_iff dest: preservesD [OF assms(1)])

lemma wf_do_switch:
  assumes "preserves layout_wf rec" and "layout_wf l"
    and "do_switch rec sw c d b st cac l = Inr (ce, cac', l')"
  shows "layout_wf l'"
  using assms(2,3)
  by (auto simp: do_switch_def Let_def and_then_Inr_iff dest: wf_run_actions [OF assms(1)])

lemma wf_clear_flagged:
  assumes "clear_flagged l = Inr l'" and "layout_wf l"
  shows "layout_wf l'"
proof -
  obtain sts pause suppress where r: "retain_res clear_flagged_step (l_states l)
      (osh_pause_ticks (l_oneshot l), l_suppress l) = Inr (sts, pause, suppress)"
    and l': "l' = l\<lparr>l_states := sts, l_suppress := suppress,
                l_oneshot := (l_oneshot l)\<lparr>osh_pause_ticks := pause\<rparr>\<rparr>"
    using assms(1) by (auto simp: clear_flagged_def and_then_Inr_iff)
  have step: "length (snd e') \<le> SUPPRESS_LEN"
    if "clear_flagged_step s e = Inr (keep, e')" "length (snd e) \<le> SUPPRESS_LEN" for s :: "'a state" and keep e e'
    using that
    by (cases s; cases e) (auto simp: and_then_Inr_iff sp.push_bound split: if_splits)
  have "length (snd (pause, suppress)) \<le> SUPPRESS_LEN"
    by (rule retain_res_invariant [OF r]) (use assms(2) step in \<open>simp_all\<close>)
  moreover have "length sts \<le> STATES_LEN"
    using retain_res_subset [OF r] layout_wfD(1) [OF assms(2)] by linarith
  ultimately show ?thesis using assms(2) by (simp add: l')
qed

lemmas wf_arms = wf_do_src wf_do_repeat wf_do_hold_tap wf_do_one_shot wf_do_tap_dance
  wf_do_multiple_actions wf_do_fork wf_do_switch

lemma wf_do_resolved:
  assumes "preserves layout_wf rec" and "layout_wf l"
    and "do_resolved rec a c d b st cac l = Inr (ce, cac', l')"
  shows "layout_wf l'"
  using assms(2,3)
  by (cases a) (auto simp: do_resolved_def dest: wf_do_custom wf_arms [OF assms(1)])

lemma wf_do_action_step:
  assumes "preserves layout_wf rec"
  shows "preserves layout_wf (do_action_step rec)"
  unfolding preserves_def do_action_step_def
  by (auto simp: and_then_Inr_iff dest!: wf_clear_flagged intro: wf_do_resolved [OF assms])

interpretation capacity: fueled_invariant do_action_step do_action layout_wf
  by unfold_locales (rule wf_do_action_step)

section \<open>Ticks\<close>

lemma length_evict: "length (evict_events c n q) \<le> length q"
  by (induction c n q rule: evict_events.induct) auto

lemma length_take_chord_presses: "length (fst (take_chord_presses g w n q pq)) \<le> length q"
  by (induction g w n q pq rule: take_chord_presses.induct) (auto split: prod.splits)

lemma shrink_chord_inv:
  "I aq \<Longrightarrow> (\<And>m a aq. I aq \<Longrightarrow> I (push m a aq)) \<Longrightarrow> I (snd (shrink_chord g ks push start en aq))"
proof (induction g ks push start en aq rule: shrink_chord.induct)
  case (1 g ks push start en aq)
  then show ?case by (subst shrink_chord.simps) (auto split: option.splits)
qed

lemma decompose_loop_inv:
  "I aq \<Longrightarrow> (\<And>m a aq. I aq \<Longrightarrow> I (push m a aq)) \<Longrightarrow> I (decompose_loop g ks push start aq)"
proof (induction g ks push start aq rule: decompose_loop.induct)
  case (1 g ks push start aq)
  obtain en aq' where sc: "shrink_chord g ks push start (length ks - 1) aq = (en, aq')" by fastforce
  then have "I aq'" using shrink_chord_inv [of I aq push g ks start "length ks - 1"] 1(3,4) by simp
  then show ?case using 1 sc by (subst decompose_loop.simps) (auto split: option.splits)
qed

lemma decompose_bound:
  assumes "decompose_chord_into_action_queue g w q aq = Inr aq'" and "length aq \<le> ACTION_QUEUE_LEN"
  shows "length aq' \<le> ACTION_QUEUE_LEN"
proof -
  obtain ks dflt delay where "aq' = decompose_loop g ks (\<lambda>msk a. wpush ACTION_QUEUE_LEN
      (coord_for_chord g w q dflt msk, delay, a, [])) 0 aq"
    using assms(1) by (auto simp: decompose_chord_into_action_queue_def and_then_Inr_iff)
  then show ?thesis using assms(2)
    by (auto intro!: decompose_loop_inv [where I = "\<lambda>aq. length aq \<le> ACTION_QUEUE_LEN"] wb.push_bound)
qed

lemma handle_chord_bound:
  assumes "handle_chord g w q aq = Inr (r, w', q', aq')" and "length aq \<le> ACTION_QUEUE_LEN"
  shows "length q' \<le> length q \<and> length aq' \<le> ACTION_QUEUE_LEN"
  using assms length_take_chord_presses
  by (auto simp: handle_chord_def Let_def and_then_Inr_iff case_prod_unfold dest: decompose_bound
      split: if_splits option.splits)

lemma length_handle_tap_dance: "length (snd (handle_tap_dance n m w q)) \<le> length q"
  by (auto simp: handle_tap_dance_def evict_same_coord_events_def length_evict split: prod.splits)

lemma tick_wt_bound:
  assumes "tick_wt w q aq = Inr (r, w', q', aq')" and "length aq \<le> ACTION_QUEUE_LEN"
  shows "length q' \<le> length q \<and> length aq' \<le> ACTION_QUEUE_LEN"
proof (cases "w_config w")
  case (WcHoldTap htc)
  then show ?thesis using assms by (auto simp: tick_wt_def Let_def case_prod_unfold)
next
  case (WcTapDance tds)
  let ?w = "w\<lparr>w_timeout := sat_sub (w_timeout w) 1, w_ticks := sat_add (w_ticks w) 1\<rparr>"
  have "q' = snd (handle_tap_dance (tds_num_taps tds) (length (tds_actions tds)) ?w q) \<and> aq' = aq"
    using assms(1) WcTapDance
    by (auto simp: tick_wt_def tick_wt_tap_dance_def Let_def case_prod_unfold split: option.splits if_splits)
  then show ?thesis using length_handle_tap_dance assms(2) by metis
next
  case (WcChord g)
  then show ?thesis using assms
    by (auto simp: tick_wt_def and_then_Inr_iff dest: handle_chord_bound split: option.splits)
qed

lemma tick_extras_bound:
  "tick_extras i ws q aq = Inr (r, ws', q', aq') \<Longrightarrow> length aq \<le> ACTION_QUEUE_LEN \<Longrightarrow>
     length ws' = length ws \<and> length q' \<le> length q \<and> length aq' \<le> ACTION_QUEUE_LEN"
proof (induction i ws q aq arbitrary: r ws' q' aq' rule: tick_extras.induct)
  case (1 i q aq)
  then show ?case by simp
next
  case (2 i w ws q aq)
  obtain r1 w1 q1 aq1 where t: "tick_wt w q aq = Inr (r1, w1, q1, aq1)"
    using "2.prems"(1) by (auto simp: and_then_Inr_iff)
  note b = tick_wt_bound [OF t "2.prems"(2)]
  show ?case
  proof (cases r1)
    case (Some wa)
    then show ?thesis using "2.prems"(1) t b by (cases wa) auto
  next
    case None
    obtain r2 ws2 where e: "tick_extras (Suc i) ws q1 aq1 = Inr (r2, ws2, q', aq')" "ws' = w1 # ws2"
      using "2.prems"(1) t None by (auto simp: and_then_Inr_iff)
    have "length ws2 = length ws \<and> length q' \<le> length q1 \<and> length aq' \<le> ACTION_QUEUE_LEN"
      using "2.IH" [OF None e(1)] b by simp
    then show ?thesis using b e(2) by simp
  qed
qed

lemma wf_seq_event_step: "layout_wf l \<Longrightarrow> layout_wf (snd (seq_event_step e sq l))"
  by (cases e; simp; rename_tac ev; case_tac ev) (auto simp: seq_press_def)

lemma wf_seq_step: "layout_wf l \<Longrightarrow> layout_wf (snd (seq_step sq l))"
  by (auto simp: seq_step_def Let_def wf_seq_event_step split: option.splits list.splits)

lemma wf_process_sequences_loop: "layout_wf l \<Longrightarrow> layout_wf (process_sequences_loop n l)"
proof (induction n arbitrary: l)
  case 0
  then show ?case by simp
next
  case (Suc n)
  show ?case
  proof (cases "l_sequences l")
    case Nil
    then show ?thesis using Suc by simp
  next
    case (Cons sq rest)
    obtain sq' l1 where s: "seq_step sq (l\<lparr>l_sequences := rest\<rparr>) = (sq', l1)" by fastforce
    have "layout_wf (l\<lparr>l_sequences := rest\<rparr>)"
      using Suc.prems layout_wfD(5) [OF Suc.prems] Cons by simp
    then have "layout_wf l1" using wf_seq_step s by (metis snd_conv)
    then show ?thesis using Cons s by (auto intro!: Suc.IH simp: wb.push_bound)
  qed
qed

lemma wf_process_sequences: "layout_wf l \<Longrightarrow> layout_wf (process_sequences l)"
  by (auto simp: process_sequences_def Let_def wf_process_sequences_loop split: list.splits)

lemma length_seq_custom_step: "length (snd (seq_custom_step ss)) = length ss"
  by (induction ss) (auto split: state.splits prod.splits)

lemma wf_process_sequence_custom:
  assumes "process_sequence_custom custom l = (ce, l')" and "layout_wf l"
  shows "layout_wf l'"
proof -
  let ?ss = "filter (\<lambda>s. case s of Tombstone \<Rightarrow> False | _ \<Rightarrow> True) (l_states l)"
  have "l' = l \<or> l' = l\<lparr>l_states := snd (seq_custom_step ?ss)\<rparr>"
    using assms(1) by (auto simp: process_sequence_custom_def case_prod_unfold split: if_splits)
  moreover have "length (snd (seq_custom_step ?ss)) \<le> STATES_LEN"
    using layout_wfD(1) [OF assms(2)]
    unfolding length_seq_custom_step by (rule order_trans [OF length_filter_le])
  ultimately show ?thesis using assms(2) by auto
qed

lemma wf_tick_one_shot:
  assumes "tick_one_shot l = Inr (ce, l')" and "layout_wf l"
  shows "layout_wf l'"
proof -
  obtain r osh where t: "tick_osh (l_oneshot l) = (r, osh)" by fastforce
  then have "one_shot_wf osh"
    using one_shot_wf_tick [OF layout_wfD(3) [OF assms(2)]] by simp
  then have l1: "layout_wf (l\<lparr>l_oneshot := osh\<rparr>)" using assms(2) by simp
  show ?thesis
  proof (cases r)
    case None
    then show ?thesis using assms(1) t l1 by (simp add: tick_one_shot_def)
  next
    case (Some released)
    have f: "fold_res (\<lambda>c (custom, l). and_then (dequeue_release c l)
              (\<lambda>(ce, l'). Inr (custom_update custom ce, l'))) released (CNoEvent, l\<lparr>l_oneshot := osh\<rparr>)
        = Inr (ce, l')"
      using assms(1) t Some by (simp add: tick_one_shot_def)
    have "(\<lambda>(c, l). layout_wf l) (ce, l')"
      by (rule fold_res_invariant [OF f]) (use l1 in \<open>auto simp: and_then_Inr_iff dest: wf_dequeue_release\<close>)
    then show ?thesis by simp
  qed
qed

lemma wf_decide_waiting:
  assumes "preserves layout_wf rec" and "decide_waiting rec wa pq idx l = Inr (ce, l')"
    and "layout_wf l"
  shows "layout_wf l'"
  using assms(2,3)
  by (cases wa) (auto simp: decide_waiting_def dest: wf_waiting_into_hold [OF assms(1)]
      wf_waiting_into_tap [OF assms(1)] wf_waiting_into_timeout [OF assms(1)])

lemma wf_process_extra_waitings:
  assumes "preserves layout_wf rec" and "process_extra_waitings rec c l = Inr (ce, l')"
    and "layout_wf l"
  shows "layout_wf l'"
proof (cases c)
  case CNoEvent
  then obtain r ws q aq where t: "tick_extras 0 (l_extra_waiting l) (l_queue l) (l_action_queue l)
      = Inr (r, ws, q, aq)"
    and l': "(case r of None \<Rightarrow> Inr (c, l\<lparr>l_extra_waiting := ws, l_queue := q, l_action_queue := aq\<rparr>)
        | Some (i, wa, pq) \<Rightarrow> decide_waiting rec wa pq (Some i)
            (l\<lparr>l_extra_waiting := ws, l_queue := q, l_action_queue := aq\<rparr>)) = Inr (ce, l')"
    using assms(2) by (auto simp: process_extra_waitings_def Let_def and_then_Inr_iff)
  have b: "length ws \<le> EXTRA_WAITING_LEN" "length q \<le> QUEUE_SIZE" "length aq \<le> ACTION_QUEUE_LEN"
    using tick_extras_bound [OF t layout_wfD(6) [OF assms(3)]] layout_wfD(2,7) [OF assms(3)] by linarith+
  then have "layout_wf (l\<lparr>l_extra_waiting := ws, l_queue := q, l_action_queue := aq\<rparr>)"
    using assms(3) by simp
  then show ?thesis using l'
    by (auto dest: wf_decide_waiting [OF assms(1)] split: option.splits)
qed (use assms in \<open>auto simp: process_extra_waitings_def\<close>)

lemma wf_tick_input:
  assumes "preserves layout_wf rec" and "tick_input rec l = Inr (ce, l')" and "layout_wf l"
  shows "layout_wf l'"
proof (cases "l_queue l")
  case Nil
  then show ?thesis using assms(2,3) by (auto simp: tick_input_def split: if_splits)
next
  case (Cons s q)
  then have "length q \<le> QUEUE_SIZE" using layout_wfD(2) [OF assms(3)] by simp
  then have "layout_wf (l\<lparr>l_queue := q\<rparr>)" using assms(3) by simp
  then show ?thesis
    using assms(2,3) Cons wf_dequeue [OF assms(1)] by (auto simp: tick_input_def split: if_splits)
qed

lemma wf_tick_waiting:
  assumes "preserves layout_wf rec" and "tick_waiting rec l = Inr (ce, l')" and "layout_wf l"
  shows "layout_wf l'"
proof (cases "l_waiting l")
  case None
  then show ?thesis using assms(2) wf_tick_input [OF assms(1) _ assms(3)]
    by (simp add: tick_waiting_def)
next
  case (Some w)
  then obtain r w' q aq where t: "tick_wt w (l_queue l) (l_action_queue l) = Inr (r, w', q, aq)"
    and l': "(case r of None \<Rightarrow> Inr (CNoEvent, l\<lparr>l_waiting := Some w', l_queue := q, l_action_queue := aq\<rparr>)
        | Some (wa, pq) \<Rightarrow> decide_waiting rec wa pq None
            (l\<lparr>l_waiting := Some w', l_queue := q, l_action_queue := aq\<rparr>)) = Inr (ce, l')"
    using assms(2) by (auto simp: tick_waiting_def Let_def and_then_Inr_iff)
  have "length q \<le> QUEUE_SIZE" "length aq \<le> ACTION_QUEUE_LEN"
    using tick_wt_bound [OF t layout_wfD(6) [OF assms(3)]] layout_wfD(2) [OF assms(3)] by linarith+
  then have "layout_wf (l\<lparr>l_waiting := Some w', l_queue := q, l_action_queue := aq\<rparr>)"
    using assms(3) by simp
  then show ?thesis using l'
    by (auto dest: wf_decide_waiting [OF assms(1)] split: option.splits)
qed

lemma wf_tick_main:
  assumes "preserves layout_wf rec" and "tick_main rec l = Inr (ce, l')" and "layout_wf l"
  shows "layout_wf l'"
proof -
  obtain c0 l1 c1 l2 c2 l3 where
    1: "tick_one_shot (tick_histories (process_sequences (tick_timers l))) = Inr (c0, l1)" and
    2: "tick_waiting rec l1 = Inr (c1, l2)" and
    3: "process_extra_waitings rec (custom_update c0 c1) l2 = Inr (c2, l3)" and
    4: "process_sequence_custom c2 l3 = (ce, l')"
    using assms(2) by (auto simp: tick_main_def and_then_Inr_iff)
  have "layout_wf l1"
    using wf_tick_one_shot [OF 1] assms(3)
    by (simp add: wf_tick_histories wf_process_sequences wf_tick_timers)
  then have "layout_wf l3"
    using wf_process_extra_waitings [OF assms(1) 3] wf_tick_waiting [OF assms(1) 2] by simp
  then show ?thesis by (rule wf_process_sequence_custom [OF 4])
qed

lemma wf_tick_chords:
  assumes "tick_chords l = Inr l'" and "layout_wf l"
  shows "layout_wf l'"
proof (cases "l_chords_v2 l")
  case None
  then show ?thesis using assms by (simp add: tick_chords_def)
next
  case (Some ch)
  obtain evs ch1 where 1: "tick_chv2 (of_nat (current_layer l)) ch = Inr (evs, ch1)"
    using assms(1) Some by (auto simp: tick_chords_def and_then_Inr_iff)
  obtain act ch2 where 2: "get_action_chv2 ch1 = (act, ch2)" by fastforce
  have 3: "l' = (let l1 = l\<lparr>l_chords_v2 := Some ch2, l_queue := wextend QUEUE_SIZE evs (l_queue l)\<rparr> in
        case act of None \<Rightarrow> l1 | Some a \<Rightarrow>
          lt_pause_input (l1\<lparr>l_action_queue := wpush ACTION_QUEUE_LEN a (l_action_queue l1)\<rparr>))"
    using assms(1) Some 1 2 by (simp add: tick_chords_def Let_def)
  have "chords_wf ch2"
    using chords_wf_get_action [OF tick_chv2_wf [OF 1 layout_wf_chords [OF assms(2) Some]] 2] .
  then have "layout_wf (l\<lparr>l_chords_v2 := Some ch2, l_queue := wextend QUEUE_SIZE evs (l_queue l)\<rparr>)"
    using assms(2) wextend_bound [OF layout_wfD(2) [OF assms(2)]] by simp
  then show ?thesis
    using assms(2) by (auto simp: 3 Let_def wb.push_bound split: option.splits)
qed

lemma wf_tick_layout:
  assumes "preserves layout_wf rec" and "tick_layout rec l = Inr (ce, l')" and "layout_wf l"
  shows "layout_wf l'"
proof (cases "l_custom_releases l")
  case (Cons v q)
  then have "length q \<le> CUSTOM_EVENT_RELEASE_QUEUE_LEN" using layout_wfD(8) [OF assms(3)] by simp
  then show ?thesis using assms(2,3) Cons by (auto simp: tick_layout_def)
next
  case Nil
  then obtain l0 where l0: "tick_chords l = Inr l0"
    using assms(2) by (auto simp: tick_layout_def and_then_Inr_iff)
  let ?l = "l0\<lparr>l_suppress := []\<rparr>"
  have wf: "layout_wf ?l" using wf_tick_chords [OF l0 assms(3)] by simp
  show ?thesis
  proof (cases "l_action_queue ?l")
    case Nil2: Nil
    then show ?thesis
      using assms(2) Nil l0 wf_tick_main [OF assms(1) _ wf] by (simp add: tick_layout_def Let_def)
  next
    case (Cons a aq)
    then have "length aq \<le> ACTION_QUEUE_LEN" using layout_wfD(6) [OF wf] by simp
    then have "layout_wf (?l\<lparr>l_action_queue := aq\<rparr>)" using wf by simp
    then show ?thesis
      using assms(2) Nil l0 Cons
      by (cases a) (auto simp: tick_layout_def Let_def dest: wf_run_fresh [OF assms(1)])
  qed
qed

text \<open>The result: no input takes the layout out of its capacities.\<close>

lemma wf_layout_step:
  assumes "layout_step n i l = Inr (ce, l')" and "layout_wf l"
  shows "layout_wf l'"
  using assms wf_layout_event [OF capacity.runs_preserve] wf_tick_layout [OF capacity.runs_preserve]
  by (cases i) (auto simp: and_then_Inr_iff)

lemma wf_layout_run:
  assumes "layout_run n is l = Inr l'" and "layout_wf l"
  shows "layout_wf l'"
  by (rule fold_res_invariant [where I = layout_wf, OF assms(1) [unfolded layout_run_def] assms(2)])
    (auto simp: and_then_Inr_iff dest: wf_layout_step)

end
