(* ===== verification/KeyPaths.thy ===== *)
theory KeyPaths
  imports Capacity
begin

text \<open>
  What happens to a key from its press to its release, through \<open>event\<close>, \<open>tick\<close>, \<open>dequeue\<close> and
  \<open>do_action\<close> (\<open>keyberon/src/layout.rs\<close>).
\<close>

section \<open>Calm layouts\<close>

text \<open>No sequence, chord, one-shot, eager tap-dance or deferred action is under way.\<close>

fun plain_state :: "'t state \<Rightarrow> bool" where
  "plain_state (NormalKey kc c f) = (f = 0)"
| "plain_state (LayerModifier v c) = True"
| "plain_state (StCustom v c) = True"
| "plain_state (NoOpInput c) = True"
| "plain_state _ = False"

definition calm :: "'t layout \<Rightarrow> bool" where
  "calm l \<longleftrightarrow>
     l_chords_v2 l = None \<and> l_sequences l = [] \<and> osh_keys (l_oneshot l) = [] \<and>
     osh_pause_ticks (l_oneshot l) = 0 \<and> l_tap_dance_eager l = None \<and>
     l_action_queue l = [] \<and> l_custom_releases l = [] \<and> l_extra_waiting l = [] \<and>
     list_all plain_state (l_states l)"

text \<open>The part of a tick that only moves clocks.\<close>

definition clock :: "'t layout \<Rightarrow> 't layout" where
  "clock l = tick_histories (tick_timers (l\<lparr>l_suppress := []\<rparr>))"

lemma map_filter_None: "list_all (\<lambda>x. f x = None) xs \<Longrightarrow> List.map_filter f xs = []"
  by (induction xs) (auto simp: List.map_filter_simps)

lemma plain_repeating: "plain_state s \<Longrightarrow> repeating_sequence s = None"
  by (cases s) auto

lemma plain_no_repeating:
  "list_all plain_state sts \<Longrightarrow> List.map_filter repeating_sequence (rev sts) = []"
  by (rule map_filter_None) (auto simp: list_all_iff plain_repeating)

lemma plain_no_custom:
  "list_all plain_state sts \<Longrightarrow> seq_custom_step sts = (CNoEvent, sts)"
  by (induction sts) (auto split: state.splits)

lemma plain_no_tombstone:
  "list_all plain_state sts \<Longrightarrow> filter (\<lambda>s. case s of Tombstone \<Rightarrow> False | _ \<Rightarrow> True) sts = sts"
  by (induction sts) (auto split: state.splits)

lemma process_sequence_custom_plain:
  "list_all plain_state (l_states l) \<Longrightarrow> process_sequence_custom custom l = (custom, l)"
  by (cases custom) (auto simp: process_sequence_custom_def plain_no_custom plain_no_tombstone)

lemma process_sequences_calm: "calm l \<Longrightarrow> process_sequences l = l"
  by (auto simp: process_sequences_def calm_def plain_no_repeating)

lemma calm_clock [simp]: "calm l \<Longrightarrow> calm (clock l)"
  by (auto simp: calm_def clock_def tick_histories_def tick_timers_def)

text \<open>A tick of a calm layout looks at the waiting state or at the next queued event.\<close>

lemma tick_calm:
  assumes "calm l"
  shows "tick_layout rec l =
    and_then (tick_waiting rec (clock l)) (\<lambda>(ce, l2).
    and_then (process_extra_waitings rec ce l2) (\<lambda>(c, l3). Inr (process_sequence_custom c l3)))"
proof -
  have "calm (tick_timers (l\<lparr>l_suppress := []\<rparr>))"
    using assms by (auto simp: calm_def tick_timers_def)
  then have "process_sequences (tick_timers (l\<lparr>l_suppress := []\<rparr>)) = tick_timers (l\<lparr>l_suppress := []\<rparr>)"
    by (rule process_sequences_calm)
  then have "tick_one_shot (tick_histories (process_sequences (tick_timers (l\<lparr>l_suppress := []\<rparr>))))
      = Inr (CNoEvent, clock l)"
    using assms by (simp add: tick_one_shot_def clock_def tick_osh_def calm_def tick_histories_def tick_timers_def)
  then show ?thesis using assms
    by (simp add: tick_layout_def calm_def tick_chords_def tick_main_def)
qed

lemma process_extra_none:
  "l_extra_waiting l = [] \<Longrightarrow> process_extra_waitings rec ce l = Inr (ce, l)"
  by (cases ce) (auto simp: process_extra_waitings_def)

lemma tick_calm_done:
  assumes "calm l" and "tick_waiting rec (clock l) = Inr (ce, l2)"
    and "l_extra_waiting l2 = []" and "list_all plain_state (l_states l2)"
  shows "tick_layout rec l = Inr (ce, l2)"
  using assms by (simp add: tick_calm process_extra_none process_sequence_custom_plain)

text \<open>An empty queue: a calm layout idles.\<close>

lemma tick_idle:
  assumes "calm l" and "l_waiting l = None" and "l_queue l = []"
  shows "tick_layout rec l = Inr (CNoEvent, clock l)"
proof (rule tick_calm_done [OF assms(1)])
  show "tick_waiting rec (clock l) = Inr (CNoEvent, clock l)"
    using assms by (simp add: tick_waiting_def tick_input_def clock_def tick_timers_def
        tick_histories_def calm_def)
qed (use assms(1) in \<open>simp_all add: calm_def clock_def tick_timers_def tick_histories_def\<close>)

section \<open>Release\<close>

lemma release_flagged_keeps:
  "release_flagged c s e = Inr (keep, e') \<Longrightarrow>
     keep = (\<not> clear_on_next_release s \<and> st_coord s \<noteq> Some c)"
  unfolding release_flagged_def by (auto split: if_splits dest: st_release_keeps)

lemma dequeue_release_states:
  assumes "osh_keys (l_oneshot l) = []" and "dequeue_release c l = Inr (ce, l')"
  shows "l_states l' = filter (\<lambda>s. \<not> clear_on_next_release s \<and> st_coord s \<noteq> Some c) (l_states l)"
    and "l' = l\<lparr>l_states := l_states l', l_custom_releases := l_custom_releases l'\<rparr>"
proof -
  have h: "osh_handle_release c (l_oneshot l) = ((True, None), l_oneshot l)"
    using assms(1) by (simp add: osh_handle_release_def)
  obtain sts q where r: "retain_res (release_flagged c) (l_states l) (CNoEvent, l_custom_releases l)
      = Inr (sts, ce, q)" and l': "l' = l\<lparr>l_states := sts, l_custom_releases := q\<rparr>"
    using assms(2) h by (auto simp: dequeue_release_def and_then_Inr_iff)
  have "sts = filter (\<lambda>s. \<not> clear_on_next_release s \<and> st_coord s \<noteq> Some c) (l_states l)"
    by (rule retain_res_filter [OF r]) (rule release_flagged_keeps)
  then show "l_states l' = filter (\<lambda>s. \<not> clear_on_next_release s \<and> st_coord s \<noteq> Some c) (l_states l)"
    "l' = l\<lparr>l_states := l_states l', l_custom_releases := l_custom_releases l'\<rparr>"
    by (simp_all add: l')
qed

text \<open>A calm release always succeeds, and announces the first custom action of the key.\<close>

lemma plain_not_flagged: "plain_state s \<Longrightarrow> \<not> clear_on_next_release s"
  by (cases s) (auto simp: nkf_clear_on_next_release_def NORMAL_KEY_FLAG_CLEAR_ON_NEXT_RELEASE_def)

lemma retain_res_cong:
  "(\<And>x s. x \<in> set xs \<Longrightarrow> f x s = g x s) \<Longrightarrow> retain_res f xs s = retain_res g xs s"
  by (induction xs arbitrary: s) auto

lemma dequeue_release_calm:
  assumes "calm l" and "length (customs_at c (l_states l)) \<le> Suc CUSTOM_EVENT_RELEASE_QUEUE_LEN"
  shows "dequeue_release c l = Inr
    (case customs_at c (l_states l) of [] \<Rightarrow> CNoEvent | v # vs \<Rightarrow> CRelease v,
     l\<lparr>l_states := filter (\<lambda>s. st_coord s \<noteq> Some c) (l_states l),
       l_custom_releases := tl (customs_at c (l_states l))\<rparr>)"
proof -
  have h: "osh_handle_release c (l_oneshot l) = ((True, None), l_oneshot l)"
    using assms(1) by (simp add: osh_handle_release_def calm_def)
  have "retain_res (release_flagged c) (l_states l) (CNoEvent, [])
      = retain_res (st_release c) (l_states l) (CNoEvent, [])"
    by (rule retain_res_cong)
      (use assms(1) plain_not_flagged in \<open>auto simp: release_flagged_def calm_def list_all_iff\<close>)
  then show ?thesis
    using h assms retain_release_customs [OF assms(2)]
    by (simp add: dequeue_release_def calm_def)
qed

section \<open>A plain key\<close>

text \<open>The action a coordinate resolves to.\<close>

definition resolves_to :: "'t layout \<Rightarrow> kcoord \<Rightarrow> 't action \<Rightarrow> bool" where
  "resolves_to l c a \<longleftrightarrow>
     (\<exists>stack rest. trans_resolution_layer_order l = Inr stack \<and> resolve_coord l c stack = Inr (a, rest))"

text \<open>Only the configuration, the default layer and the held layers matter for it.\<close>

lemma resolve_layers_cong:
  "l_layers l' = l_layers l \<Longrightarrow> resolve_layers l' x y st = resolve_layers l x y st"
  by (induction st) (auto simp: layer_action_def intro!: arg_cong2 [of _ _ _ _ and_then] split: action.split)

lemma resolves_cong:
  assumes "l_layers l' = l_layers l" and "l_src_keys l' = l_src_keys l"
    and "l_default_layer l' = l_default_layer l" and "l_states l' = l_states l"
    and "l_trans_v2 l' = l_trans_v2 l" and "l_delegate_first l' = l_delegate_first l"
  shows "trans_resolution_layer_order l' = trans_resolution_layer_order l"
    and "resolve_coord l' c st = resolve_coord l c st"
proof -
  have "current_layer l' = current_layer l" "active_held_layers l' = active_held_layers l"
    using assms by (simp_all add: current_layer_def active_held_layers_def split: list.split)
  then show "trans_resolution_layer_order l' = trans_resolution_layer_order l"
    using assms by (simp add: trans_resolution_layer_order_def)
  show "resolve_coord l' c st = resolve_coord l c st"
    unfolding resolve_coord_def resolve_layers_cong [OF assms(1)] assms(1,2) ..
qed


section \<open>The first step of an action\<close>

lemma retain_id: "(\<And>x s. x \<in> set xs \<Longrightarrow> f x s = Inr (True, s)) \<Longrightarrow> retain_res f xs s = Inr (xs, s)"
  by (induction xs arbitrary: s) auto

lemma clear_flagged_plain:
  assumes "list_all plain_state (l_states l)"
  shows "clear_flagged l = Inr l"
proof -
  have "clear_flagged_step s e = Inr (True, e)" if "plain_state s" for s :: "'a state" and e
    using that
    by (cases s; cases e)
      (auto simp: nkf_clear_on_next_action_def NORMAL_KEY_FLAG_CLEAR_ON_NEXT_ACTION_def)
  then have "retain_res clear_flagged_step (l_states l) (osh_pause_ticks (l_oneshot l), l_suppress l)
      = Inr (l_states l, osh_pause_ticks (l_oneshot l), l_suppress l)"
    using assms by (intro retain_id) (auto simp: list_all_iff)
  then show ?thesis by (simp add: clear_flagged_def)
qed

lemma forget_quick_tap_same [simp]:
  "l_states (forget_quick_tap c l) = l_states l" "l_oneshot (forget_quick_tap c l) = l_oneshot l"
  "l_layers (forget_quick_tap c l) = l_layers l" "l_src_keys (forget_quick_tap c l) = l_src_keys l"
  "l_queue (forget_quick_tap c l) = l_queue l" "l_waiting (forget_quick_tap c l) = l_waiting l"
  "l_suppress (forget_quick_tap c l) = l_suppress l"
  "l_extra_waiting (forget_quick_tap c l) = l_extra_waiting l"
  "l_quick_tap_hold (forget_quick_tap c l) = l_quick_tap_hold l"
  "l_prior_idle (forget_quick_tap c l) = l_prior_idle l"
  by (simp_all add: forget_quick_tap_def lt_set_tap_hold_timeout_def)

lemma do_action_trans:
  assumes "resolve_coord l c stack = Inr (a, rest)" and "list_all plain_state (l_states l)"
  shows "do_action (Suc n) Trans c d b stack cac l
       = do_resolved (do_action n) a c d b rest cac (forget_quick_tap c l)"
  using assms by (simp add: do_action_step_def clear_flagged_plain)

lemma do_action_plain:
  assumes "a \<noteq> Trans" and "list_all plain_state (l_states l)"
  shows "do_action (Suc n) a c d b stack cac l
       = do_resolved (do_action n) a c d b stack cac (forget_quick_tap c l)"
  using assms by (cases a) (simp_all add: do_action_step_def clear_flagged_plain)

lemma osh_idle_press [simp]: "osh_keys os = [] \<Longrightarrow> osh_handle_press k os = ([], os)"
  by (cases k) simp_all

lemma do_key_code_idle:
  assumes "osh_keys (l_oneshot l) = []"
  shows "l_states (do_key_code kc c False l) = vpush STATES_LEN (NormalKey kc c 0) (l_states l)"
    and "l_oneshot (do_key_code kc c False l) = l_oneshot l"
    and "l_suppress (do_key_code kc c False l) = l_suppress l"
    and "l_waiting (do_key_code kc c False l) = l_waiting l"
    and "l_extra_waiting (do_key_code kc c False l) = l_extra_waiting l"
    and "l_queue (do_key_code kc c False l) = l_queue l"
    and "calm l \<Longrightarrow> calm (do_key_code kc c False l)"
  using assms sp.push_all [of plain_state "l_states l" "NormalKey kc c 0" STATES_LEN]
  by (auto simp: do_key_code_def Let_def push_state_def push_historical_key_def lt_update_coord_def
      lt_press_def rpt_keys_def set_rpt_def calm_def sat_push_def list_all_iff)


section \<open>Press and release of an idle layout\<close>

definition idle :: "'t layout \<Rightarrow> bool" where
  "idle l \<longleftrightarrow> calm l \<and> l_waiting l = None \<and> l_queue l = []"

lemma idle_event:
  assumes "l_chords_v2 l = None" and "l_queue l = []"
  shows "layout_event rec e l = Inr ((record_press e l)\<lparr>l_queue := [queued_from e]\<rparr>)"
proof -
  have "l_chords_v2 (record_press e l) = None" "l_queue (record_press e l) = []"
    using assms by (cases e; simp add: record_press_def)+
  then show ?thesis
    by (simp add: layout_event_def push_queue_def handle_overflow_def QUEUE_SIZE_def)
qed

lemma clock_same [simp]:
  "l_waiting (clock l) = l_waiting l" "l_queue (clock l) = map tick_qd (l_queue l)"
  "l_states (clock l) = l_states l" "l_oneshot (clock l) = l_oneshot l"
  "l_layers (clock l) = l_layers l" "l_src_keys (clock l) = l_src_keys l"
  "l_default_layer (clock l) = l_default_layer l" "l_trans_v2 (clock l) = l_trans_v2 l"
  "l_delegate_first (clock l) = l_delegate_first l" "l_extra_waiting (clock l) = l_extra_waiting l"
  "l_suppress (clock l) = []" "l_custom_releases (clock l) = l_custom_releases l"
  "l_quick_tap_hold (clock l) = l_quick_tap_hold l" "l_prior_idle (clock l) = l_prior_idle l"
  "l_last_press (clock l) = tick_lpt (l_last_press l)" "l_action_queue (clock l) = l_action_queue l"
  by (simp_all add: clock_def tick_histories_def tick_timers_def)

lemma record_press_same [simp]:
  "l_waiting (record_press e l) = l_waiting l" "l_queue (record_press e l) = l_queue l"
  "l_states (record_press e l) = l_states l" "l_oneshot (record_press e l) = l_oneshot l"
  "l_layers (record_press e l) = l_layers l" "l_src_keys (record_press e l) = l_src_keys l"
  "l_default_layer (record_press e l) = l_default_layer l"
  "l_trans_v2 (record_press e l) = l_trans_v2 l"
  "l_delegate_first (record_press e l) = l_delegate_first l"
  "l_quick_tap_hold (record_press e l) = l_quick_tap_hold l"
  "l_prior_idle (record_press e l) = l_prior_idle l"
  "l_last_press (record_press e l) = l_last_press l"
  by (cases e; simp add: record_press_def)+

lemma calm_record_press [simp]: "calm (record_press e l) = calm l"
  by (cases e) (simp_all add: record_press_def calm_def)

lemma calm_update [simp]:
  "calm (l\<lparr>l_queue := q\<rparr>) = calm l" "calm (l\<lparr>l_waiting := w\<rparr>) = calm l"
  "calm l \<Longrightarrow> calm (l\<lparr>l_action_queue := []\<rparr>)"
  "calm (l\<lparr>l_last_press := t'\<rparr>) = calm l"
  "calm (forget_quick_tap c l) = calm l" "calm (lt_update_coord c l) = calm l"
  "calm (lt_set_tap_hold_timeout t l) = calm l"
  by (simp_all add: calm_def forget_quick_tap_def lt_set_tap_hold_timeout_def lt_update_coord_def)

lemma calmD:
  assumes "calm l"
  shows "l_chords_v2 l = None" "osh_keys (l_oneshot l) = []" "l_extra_waiting l = []"
    "list_all plain_state (l_states l)" "osh_pause_ticks (l_oneshot l) = 0"
    "l_tap_dance_eager l = None" "l_custom_releases l = []" "l_action_queue l = []"
  using assms by (simp_all add: calm_def)

text \<open>The tick that takes the press of \<open>c\<close> off the queue executes the action of \<open>c\<close>.\<close>

lemma tick_press:
  assumes "calm l" and "l_waiting l = None" and "l_queue l = [q]" and "q_event q = Press i j"
    and "trans_resolution_layer_order l = Inr stack"
    and "resolve_coord l (i, j) stack = Inr (a, rest)"
    and "do_resolved (do_action n) a (i, j) (sat_add (q_since q) 1) False rest 0
           (forget_quick_tap (i, j) ((clock l)\<lparr>l_queue := []\<rparr>)) = Inr (ce, cac, l')"
    and "l_extra_waiting l' = []" and "list_all plain_state (l_states l')"
  shows "tick_layout (do_action (Suc n)) l = Inr (ce, l')"
proof (rule tick_calm_done [OF assms(1)])
  let ?l = "(clock l)\<lparr>l_queue := []\<rparr>"
  have t: "trans_resolution_layer_order ?l = Inr stack" "resolve_coord ?l (i, j) stack = Inr (a, rest)"
    using assms(5,6) resolves_cong [of ?l l] by simp_all
  have p: "list_all plain_state (l_states ?l)" using calmD(4) [OF assms(1)] by simp
  have "tick_waiting (do_action (Suc n)) (clock l)
      = dequeue_press (do_action (Suc n)) (i, j) (sat_add (q_since q) 1) ?l"
    using assms(2-4) calmD [OF calm_clock [OF assms(1)]]
    by (simp add: tick_waiting_def tick_input_def dequeue_def tick_qd_def)
  also have "\<dots> = Inr (ce, l')"
    using t calmD(6) [OF calm_clock [OF assms(1)]] do_action_trans [OF t(2) p] assms(7)
    by (simp add: dequeue_press_def run_fresh_def del: do_action.simps)
  finally show "tick_waiting (do_action (Suc n)) (clock l) = Inr (ce, l')" .
qed (use assms in auto)

lemma tick_release:
  assumes "calm l" and "l_waiting l = None" and "l_queue l = [q]" and "q_event q = Release i j"
    and "customs_at (i, j) (l_states l) = []"
  shows "tick_layout rec l
       = Inr (CNoEvent, (clock l)\<lparr>l_queue := [],
           l_states := filter (\<lambda>s. st_coord s \<noteq> Some (i, j)) (l_states l), l_custom_releases := []\<rparr>)"
proof (rule tick_calm_done [OF assms(1)])
  let ?l = "(clock l)\<lparr>l_queue := []\<rparr>"
  have "tick_waiting rec (clock l) = dequeue_release (i, j) ?l"
    using assms(2-4) calmD [OF calm_clock [OF assms(1)]]
    by (simp add: tick_waiting_def tick_input_def dequeue_def tick_qd_def)
  moreover have "calm ?l" using assms(1) by simp
  ultimately show "tick_waiting rec (clock l) = Inr (CNoEvent, (clock l)\<lparr>l_queue := [],
      l_states := filter (\<lambda>s. st_coord s \<noteq> Some (i, j)) (l_states l), l_custom_releases := []\<rparr>)"
    using dequeue_release_calm [of ?l "(i, j)"] assms(5) by simp
qed (use calmD [OF assms(1)] in \<open>auto simp: list_all_iff\<close>)

lemma layout_run_simps [simp]:
  "layout_run n [] l = Inr l"
  "layout_run n (InEvent e # is) l = and_then (layout_event (do_action n) e l) (layout_run n is)"
  "layout_run n (InTick # is) l = and_then (tick_layout (do_action n) l) (\<lambda>(_, l'). layout_run n is l')"
  by (simp_all add: layout_run_def and_then_assoc case_prod_unfold)

lemma customs_at_none: "\<forall>s \<in> set sts. st_coord s \<noteq> Some c \<Longrightarrow> customs_at c sts = []"
proof (induction sts)
  case (Cons s sts)
  then show ?case by (cases s) auto
qed simp

lemma customs_at_append_key:
  "\<forall>s \<in> set sts. st_coord s \<noteq> Some c \<Longrightarrow> customs_at c (sts @ [NormalKey kc c 0]) = []"
  by (simp add: customs_at_none)

text \<open>The press of a key that is bound to a key code, and the release of a key, each with its tick.\<close>

lemma plain_press:
  assumes "idle l" and "trans_resolution_layer_order l = Inr stack"
    and "resolve_coord l (i, j) stack = Inr (KeyCode kc, rest)" and "length (l_states l) < STATES_LEN"
  shows "\<exists>la l1. layout_event (do_action (Suc n)) (Press i j) l = Inr la
    \<and> tick_layout (do_action (Suc n)) la = Inr (CNoEvent, l1)
    \<and> l_states l1 = l_states l @ [NormalKey kc (i, j) 0] \<and> l_suppress l1 = [] \<and> idle l1"
proof -
  let ?la = "(record_press (Press i j) l)\<lparr>l_queue := [queued_from (Press i j)]\<rparr>"
  let ?lb = "forget_quick_tap (i, j) ((clock ?la)\<lparr>l_queue := []\<rparr>)"
  let ?l1 = "do_key_code kc (i, j) False ?lb"
  have c: "calm l" "l_waiting l = None" "l_queue l = []" using assms(1) by (simp_all add: idle_def)
  then have ca: "calm ?la" and cb: "calm ?lb" by simp_all
  have k: "l_states ?l1 = l_states l @ [NormalKey kc (i, j) 0]" "l_queue ?l1 = []"
    "l_waiting ?l1 = None" "l_suppress ?l1 = []" "calm ?l1"
    using do_key_code_idle [OF calmD(2) [OF cb], of kc "(i, j)"] c cb assms(4)
    by simp_all
  have "tick_layout (do_action (Suc n)) ?la = Inr (CNoEvent, ?l1)"
  proof (rule tick_press [OF ca])
    show "trans_resolution_layer_order ?la = Inr stack"
      "resolve_coord ?la (i, j) stack = Inr (KeyCode kc, rest)"
      using assms(2,3) resolves_cong [of ?la l] by simp_all
    show "do_resolved (do_action n) (KeyCode kc) (i, j)
        (sat_add (q_since (queued_from (Press i j))) 1) False rest 0 ?lb = Inr (CNoEvent, 0, ?l1)"
      by (simp add: do_resolved_def)
    show "l_extra_waiting ?l1 = []" "list_all plain_state (l_states ?l1)"
      using calmD [OF k(5)] by simp_all
  qed (use c in \<open>simp_all add: queued_from_def\<close>)
  then show ?thesis
    using idle_event [OF calmD(1) [OF c(1)] c(3), of "do_action (Suc n)" "Press i j"] k
    by (auto simp: idle_def simp del: do_action.simps)
qed

lemma plain_release:
  assumes "idle l" and "customs_at (i, j) (l_states l) = []"
  shows "\<exists>la l2. layout_event rec (Release i j) l = Inr la \<and> tick_layout rec la = Inr (CNoEvent, l2)
    \<and> l_states l2 = filter (\<lambda>s. st_coord s \<noteq> Some (i, j)) (l_states l) \<and> l_suppress l2 = [] \<and> idle l2"
proof -
  let ?la = "(record_press (Release i j) l)\<lparr>l_queue := [queued_from (Release i j)]\<rparr>"
  let ?l2 = "(clock ?la)\<lparr>l_queue := [],
       l_states := filter (\<lambda>s. st_coord s \<noteq> Some (i, j)) (l_states ?la), l_custom_releases := []\<rparr>"
  have c: "calm l" "l_waiting l = None" "l_queue l = []" using assms(1) by (simp_all add: idle_def)
  then have ca: "calm ?la" by simp
  have "tick_layout rec ?la = Inr (CNoEvent, ?l2)"
    by (rule tick_release [OF ca, of "queued_from (Release i j)"])
      (use c assms(2) in \<open>simp_all add: queued_from_def\<close>)
  moreover have "idle ?l2"
    using calm_clock [OF ca] c(2) calmD(4) [OF c(1)] by (auto simp: idle_def calm_def list_all_iff)
  ultimately show ?thesis
    using idle_event [OF calmD(1) [OF c(1)] c(3), of rec "Release i j"] by auto
qed

text \<open>Pressing a key bound to a key code and letting one tick pass makes exactly that key code
  active; releasing it and letting one tick pass restores the states as they were: no key stays
  pressed. This goes through the event queue, the layers, the action and the release.\<close>

theorem key_press_release:
  assumes "idle l" and "trans_resolution_layer_order l = Inr stack"
    and "resolve_coord l (i, j) stack = Inr (KeyCode kc, rest)"
    and "length (l_states l) < STATES_LEN" and "\<forall>s \<in> set (l_states l). st_coord s \<noteq> Some (i, j)"
  shows "\<exists>l1 l2. layout_run (Suc n) [InEvent (Press i j), InTick] l = Inr l1
    \<and> keycodes l1 = List.map_filter st_keycode (l_states l) @ [kc]
    \<and> layout_run (Suc n) [InEvent (Release i j), InTick] l1 = Inr l2
    \<and> l_states l2 = l_states l \<and> idle l2"
proof -
  obtain la l1 where p: "layout_event (do_action (Suc n)) (Press i j) l = Inr la"
    "tick_layout (do_action (Suc n)) la = Inr (CNoEvent, l1)"
    and s1: "l_states l1 = l_states l @ [NormalKey kc (i, j) 0]" "l_suppress l1 = []" and i1: "idle l1"
    using plain_press [OF assms(1-4), of n] by blast
  have "customs_at (i, j) (l_states l1) = []" using customs_at_append_key [OF assms(5)] s1 by simp
  then obtain lb l2 where r: "layout_event (do_action (Suc n)) (Release i j) l1 = Inr lb"
    "tick_layout (do_action (Suc n)) lb = Inr (CNoEvent, l2)"
    and s2: "l_states l2 = filter (\<lambda>s. st_coord s \<noteq> Some (i, j)) (l_states l1)" and i2: "idle l2"
    using plain_release [OF i1, of i j "do_action (Suc n)"] by blast
  have "keycodes l1 = List.map_filter st_keycode (l_states l) @ [kc]"
    using s1 by (simp add: keycodes_def List.map_filter_def)
  moreover have "l_states l2 = l_states l" using s2 s1 assms(5) by simp
  ultimately show ?thesis using p r i2 by (simp del: do_action.simps)
qed


section \<open>A hold-tap key\<close>

text \<open>The waiting state of a hold-tap key \<open>m\<close> ticks after it was created.\<close>

definition holding :: "'t waiting_state \<Rightarrow> nat \<Rightarrow> 't waiting_state \<Rightarrow> bool" where
  "holding w0 m w \<longleftrightarrow>
     w_coord w = w_coord w0 \<and> w_on_press_reset w = None \<and> w_delay w = w_delay w0 \<and>
     w_hold w = w_hold w0 \<and> w_tap w = w_tap w0 \<and> w_timeout_action w = w_timeout_action w0 \<and>
     w_config w = WcHoldTap HtDefault \<and> w_layer_stack w = w_layer_stack w0 \<and>
     unat (w_timeout w) = unat (w_timeout w0) - m \<and>
     unat (w_ticks w) = min 65535 (unat (w_ticks w0) + m) \<and>
     (w_prev_queue_len w = 0 \<or> w_prev_queue_len w = 0xFF)"

lemma sat_ops_u16:
  "unat (sat_sub (t :: u16) 1) = unat t - 1" "unat (sat_add (t :: u16) 1) = min 65535 (unat t + 1)"
  by (simp_all add: unat_sat_sub unat_sat_add)

lemma tick_wt_holding:
  assumes "holding w0 m w"
  shows "\<exists>w'. holding w0 (Suc m) w' \<and> tick_wt w [] aq = Inr
    (if unat (w_timeout w0) \<le> Suc m then Some (WaTimeout, None) else None, w', [], aq)"
proof -
  let ?w1 = "w\<lparr>w_timeout := sat_sub (w_timeout w) 1, w_ticks := sat_add (w_ticks w) 1\<rparr>"
  have t: "unat (w_timeout ?w1) = unat (w_timeout w0) - Suc m"
    using assms by (simp add: holding_def sat_ops_u16)
  then have z: "(w_timeout ?w1 = 0) = (unat (w_timeout w0) \<le> Suc m)"
    by (metis unat_eq_zero diff_is_0_eq)
  have "tick_wt w [] aq = Inr (if w_timeout ?w1 = 0 then Some (WaTimeout, None) else None,
      if w_prev_queue_len w = 0 \<and> w_timeout ?w1 \<noteq> 0 then ?w1 else ?w1\<lparr>w_prev_queue_len := 0\<rparr>, [], aq)"
    using assms
    by (auto simp: tick_wt_def Let_def handle_hold_tap_def holding_def hold_tap_reset_def
        queue_len_u8_def hold_tap_finish_def word_gt_0)
  moreover have "holding w0 (Suc m)
      (if w_prev_queue_len w = 0 \<and> w_timeout ?w1 \<noteq> 0 then ?w1 else ?w1\<lparr>w_prev_queue_len := 0\<rparr>)"
    using assms t by (auto simp: holding_def sat_ops_u16)
  ultimately show ?thesis using z by (intro exI conjI) (assumption, simp)
qed

lemma tick_wt_released:
  assumes "holding w0 m w" and "is_corresponding_release (w_coord w0) (q_event s)"
    and "w_delay w0 \<le> q_since s"
  shows "\<exists>w'. w_coord w' = w_coord w0 \<and> w_tap w' = w_tap w0 \<and> w_config w' = WcHoldTap HtDefault
    \<and> w_layer_stack w' = w_layer_stack w0 \<and> w_delay w' = w_delay w0
    \<and> unat (w_ticks w') = min 65535 (unat (w_ticks w0) + Suc m)
    \<and> tick_wt w [s] aq = Inr (Some (WaTap, None), w', [s], aq)"
proof -
  let ?w1 = "w\<lparr>w_timeout := sat_sub (w_timeout w) 1, w_ticks := sat_add (w_ticks w) 1,
    w_prev_queue_len := 1\<rparr>"
  have "sat_sub (w_delay w0) (q_since s) = 0" using assms(3) by (simp add: sat_sub_eq_0_iff)
  then have "tick_wt w [s] aq = Inr (Some (WaTap, None), ?w1, [s], aq)"
    using assms(1,2)
    by (auto simp: tick_wt_def Let_def handle_hold_tap_def holding_def hold_tap_reset_def
        queue_len_u8_def hold_tap_finish_def)
  then show ?thesis using assms(1)
    by (intro exI [of _ ?w1]) (auto simp: holding_def sat_ops_u16)
qed

text \<open>A layout that waits for the decision, \<open>m\<close> ticks after the key was taken off the queue.\<close>

definition on_hold :: "'t layout \<Rightarrow> 't waiting_state \<Rightarrow> nat \<Rightarrow> 't layout \<Rightarrow> bool" where
  "on_hold l0 w0 m l \<longleftrightarrow>
     calm l \<and> l_queue l = [] \<and> l_states l = l_states l0
     \<and> osh_pause_delay (l_oneshot l) = osh_pause_delay (l_oneshot l0)
     \<and> (\<exists>w. l_waiting l = Some w \<and> holding w0 m w)"

lemma on_hold_tick:
  assumes "on_hold l0 w0 m l" and "Suc m < unat (w_timeout w0)"
  shows "\<exists>l'. tick_layout rec l = Inr (CNoEvent, l') \<and> on_hold l0 w0 (Suc m) l'"
proof -
  obtain w where w: "l_waiting l = Some w" "holding w0 m w" using assms(1) by (auto simp: on_hold_def)
  have c: "calm l" "l_queue l = []" using assms(1) by (simp_all add: on_hold_def)
  obtain w' where w': "holding w0 (Suc m) w'" "tick_wt w [] (l_action_queue (clock l)) = Inr (None, w', [], l_action_queue (clock l))"
    using tick_wt_holding [OF w(2), of "l_action_queue (clock l)"] assms(2) by auto
  let ?l = "(clock l)\<lparr>l_waiting := Some w'\<rparr>"
  have "tick_layout rec l = Inr (CNoEvent, ?l)"
  proof (rule tick_calm_done [OF c(1)])
    show "tick_waiting rec (clock l) = Inr (CNoEvent, ?l)"
      using w w'(2) c(2) by (simp add: tick_waiting_def)
  qed (use calmD [OF c(1)] in simp_all)
  moreover have "on_hold l0 w0 (Suc m) ?l"
    using assms(1) w'(1) c by (simp add: on_hold_def)
  ultimately show ?thesis by blast
qed

lemma on_hold_ticks:
  assumes "on_hold l0 w0 0 l" and "m < unat (w_timeout w0)"
  shows "\<exists>l'. layout_run n (replicate m InTick) l = Inr l' \<and> on_hold l0 w0 m l'"
  using assms(2)
proof (induction m)
  case 0
  then show ?case using assms(1) by simp
next
  case (Suc m)
  then obtain l1 where l1: "layout_run n (replicate m InTick) l = Inr l1" "on_hold l0 w0 m l1" by auto
  obtain l2 where "tick_layout (do_action n) l1 = Inr (CNoEvent, l2)" "on_hold l0 w0 (Suc m) l2"
    using on_hold_tick [OF l1(2) Suc.prems] by blast
  moreover have "layout_run n (replicate m InTick @ [InTick]) l
      = and_then (layout_run n (replicate m InTick) l) (layout_run n [InTick])"
    unfolding layout_run_def by (rule fold_res_append)
  ultimately show ?case using l1(1) by (simp add: replicate_append_same)
qed

text \<open>The decision executes the action at the key's coordinate.\<close>

lemma waiting_delay_holding:
  assumes "w_config w = WcHoldTap HtDefault" and "unat (w_delay w) + unat (w_ticks w) < 65536"
  shows "waiting_delay w = Inr (w_delay w + w_ticks w)"
  using assms by (simp add: waiting_delay_def checked_add_def)

lemma exclude_same [simp]:
  "l_states (exclude_hold_or_timeout_from_history c l) = l_states l"
  "l_oneshot (exclude_hold_or_timeout_from_history c l) = l_oneshot l"
  "l_queue (exclude_hold_or_timeout_from_history c l) = l_queue l"
  "l_waiting (exclude_hold_or_timeout_from_history c l) = l_waiting l"
  "calm (exclude_hold_or_timeout_from_history c l) = calm l"
  by (auto simp: exclude_hold_or_timeout_from_history_def Let_def calm_def split: option.split)

lemma decided_same [simp]:
  "l_states (clear_quick_tap c l) = l_states l" "l_oneshot (clear_quick_tap c l) = l_oneshot l"
  "l_queue (clear_quick_tap c l) = l_queue l" "calm (clear_quick_tap c l) = calm l"
  "l_waiting (clear_quick_tap c l) = l_waiting l"
  "l_states (set_hold_activated w l) = l_states l" "l_oneshot (set_hold_activated w l) = l_oneshot l"
  "l_queue (set_hold_activated w l) = l_queue l" "calm (set_hold_activated w l) = calm l"
  "l_states (set_tap_activated w l) = l_states l" "l_oneshot (set_tap_activated w l) = l_oneshot l"
  "l_queue (set_tap_activated w l) = l_queue l" "calm (set_tap_activated w l) = calm l"
  by (simp_all add: clear_quick_tap_def lt_set_tap_hold_timeout_def set_hold_activated_def
      set_tap_activated_def calm_def split: waiting_config.split)

lemma do_key_code_action:
  assumes "calm l"
  shows "do_action (Suc n) (KeyCode kc) c d False st cac l
       = Inr (CNoEvent, cac, do_key_code kc c False (forget_quick_tap c l))"
  using do_action_plain [of "KeyCode kc" l n c d False st cac] calmD(4) [OF assms]
  by (simp add: do_resolved_def)


lemma on_hold_timeout:
  assumes "on_hold l0 w0 m l" and "Suc m = unat (w_timeout w0)"
    and "w_timeout_action w0 = KeyCode kc" and "unat (w_delay w0) + unat (w_ticks w0) + Suc m < 65536"
    and "length (l_states l0) < STATES_LEN"
  shows "\<exists>l'. tick_layout (do_action (Suc n)) l = Inr (CNoEvent, l') \<and> idle l'
    \<and> l_states l' = l_states l0 @ [NormalKey kc (w_coord w0) 0]"
proof -
  obtain w where w: "l_waiting l = Some w" "holding w0 m w" using assms(1) by (auto simp: on_hold_def)
  have c: "calm l" "l_queue l = []" "l_states l = l_states l0"
    using assms(1) by (simp_all add: on_hold_def)
  obtain w' where w': "holding w0 (Suc m) w'" "tick_wt w [] []
      = Inr (Some (WaTimeout, None), w', [], [])"
    using tick_wt_holding [OF w(2), of "[]"] assms(2) by auto
  have f: "w_config w' = WcHoldTap HtDefault" "w_timeout_action w' = KeyCode kc" "w_coord w' = w_coord w0"
    "unat (w_delay w') + unat (w_ticks w') < 65536"
    using w'(1) assms(3,4) by (auto simp: holding_def)
  let ?k = "w_coord w0"
  let ?lb = "forget_quick_tap ?k (clear_quick_tap ?k (remove_waiting None (set_hold_activated w'
      (exclude_hold_or_timeout_from_history ?k ((clock l)\<lparr>l_waiting := Some w', l_queue := [], l_action_queue := []\<rparr>)))))"
  let ?l' = "do_key_code kc ?k False ?lb"
  have cb: "calm ?lb" using c(1) by (simp add: remove_waiting_def)
  have k: "l_states ?l' = l_states l0 @ [NormalKey kc ?k 0]" "l_queue ?l' = []" "l_waiting ?l' = None"
    "calm ?l'"
    using do_key_code_idle [OF calmD(2) [OF cb], of kc ?k] cb c assms(5)
    by (simp_all add: remove_waiting_def)
  have "tick_waiting (do_action (Suc n)) (clock l) = Inr (CNoEvent, ?l')"
    using w(1) w'(2) c f calmD(8) [OF c(1)] waiting_delay_holding [OF f(1,4)]
      do_key_code_action [of "clear_quick_tap ?k (remove_waiting None (set_hold_activated w'
      (exclude_hold_or_timeout_from_history ?k ((clock l)\<lparr>l_waiting := Some w', l_queue := [], l_action_queue := []\<rparr>))))" n kc]
    by (simp add: tick_waiting_def decide_waiting_def waiting_into_timeout_def get_waiting_def
        run_fresh_def remove_waiting_def del: do_action.simps)
  then have "tick_layout (do_action (Suc n)) l = Inr (CNoEvent, ?l')"
    using calmD(3,4) [OF k(4)] by (intro tick_calm_done [OF c(1)])
  then show ?thesis using k by (auto simp: idle_def)
qed

lemma on_hold_released:
  assumes "on_hold l0 w0 m l" and "w_coord w0 = (i, j)"
    and "w_tap w0 = KeyCode kc" and "w_delay w0 = 1" and "unat (w_ticks w0) + Suc m < 65535"
    and "length (l_states l0) < STATES_LEN"
  shows "\<exists>l'. layout_run (Suc n) [InEvent (Release i j), InTick] l = Inr l'
    \<and> l_waiting l' = None \<and> l_queue l' = [\<lparr>q_event = Release i j, q_since = 1\<rparr>]
    \<and> l_states l' = l_states l0 @ [NormalKey kc (i, j) 0]
    \<and> osh_pause_ticks (l_oneshot l') = osh_pause_delay (l_oneshot l0)
    \<and> (osh_pause_delay (l_oneshot l0) = 0 \<longrightarrow> calm l')"
proof -
  obtain w where w: "l_waiting l = Some w" "holding w0 m w" using assms(1) by (auto simp: on_hold_def)
  have c: "calm l" "l_queue l = []" "l_states l = l_states l0"
    "osh_pause_delay (l_oneshot l) = osh_pause_delay (l_oneshot l0)"
    using assms(1) by (simp_all add: on_hold_def)
  let ?la = "(record_press (Release i j) l)\<lparr>l_queue := [queued_from (Release i j)]\<rparr>"
  let ?q = "\<lparr>q_event = Release i j, q_since = 1 :: u16\<rparr>"
  have q: "tick_qd (queued_from (Release i j)) = ?q"
    by (simp add: tick_qd_def queued_from_def sat_add_def)
  have ca: "calm ?la" using c(1) by simp
  obtain w' where w': "w_coord w' = (i, j)" "w_tap w' = KeyCode kc" "w_config w' = WcHoldTap HtDefault"
    "w_delay w' = 1" "unat (w_ticks w') = min 65535 (unat (w_ticks w0) + Suc m)"
    and t: "tick_wt w [?q] [] = Inr (Some (WaTap, None), w', [?q], [])"
    using tick_wt_released [OF w(2), of ?q "[]"] assms(2-4)
    by (auto simp: is_corresponding_release_def)
  have d: "unat (w_delay w') + unat (w_ticks w') < 65536" using w'(4,5) assms(5) by simp
  let ?lc = "remove_waiting None (set_tap_activated w' ((clock ?la)\<lparr>l_waiting := Some w', l_queue := [?q], l_action_queue := []\<rparr>))"
  let ?ld = "do_key_code kc (i, j) False (forget_quick_tap (i, j) ?lc)"
  let ?l' = "lt_pause_input ?ld"
  have cc: "calm ?lc" "l_queue ?lc = [?q]" "l_states ?lc = l_states l0" "l_oneshot ?lc = l_oneshot l"
    using ca c q by (simp_all add: remove_waiting_def)
  have k: "l_states ?ld = l_states l0 @ [NormalKey kc (i, j) 0]" "l_queue ?ld = [?q]"
    "l_waiting ?ld = None" "calm ?ld" "l_oneshot ?ld = l_oneshot l"
    using do_key_code_idle [of "forget_quick_tap (i, j) ?lc" kc "(i, j)"] cc assms(6) calmD(2) [OF c(1)]
    by (simp_all add: remove_waiting_def)
  have p: "l_states ?l' = l_states ?ld" "l_queue ?l' = l_queue ?ld" "l_waiting ?l' = None"
    "l_extra_waiting ?l' = []" "osh_pause_ticks (l_oneshot ?l') = osh_pause_delay (l_oneshot l0)"
    "osh_pause_delay (l_oneshot l0) = 0 \<Longrightarrow> calm ?l'"
    using k c(4) calmD(3) [OF k(4)] by (simp_all add: lt_pause_input_def) (simp add: calm_def)
  have "tick_waiting (do_action (Suc n)) (clock ?la) = Inr (CNoEvent, ?l')"
    using w(1) t c q w' calmD(8) [OF ca] waiting_delay_holding [OF w'(3) d] do_key_code_action [OF cc(1), of n kc]
    by (simp add: tick_waiting_def decide_waiting_def waiting_into_tap_def get_waiting_def
        run_fresh_def remove_waiting_def del: do_action.simps)
  then have "tick_layout (do_action (Suc n)) ?la = Inr (CNoEvent, ?l')"
  proof (rule tick_calm_done [OF ca])
    show "l_extra_waiting ?l' = []" by (rule p(4))
    show "list_all plain_state (l_states ?l')" using calmD(4) [OF k(4)] unfolding p(1) .
  qed
  then have "layout_run (Suc n) [InEvent (Release i j), InTick] l = Inr ?l'"
    using idle_event [OF calmD(1) [OF c(1)] c(2)] by (simp del: do_action.simps)
  moreover have "l_queue ?l' = [?q]" "l_states ?l' = l_states l0 @ [NormalKey kc (i, j) 0]"
    using p(1,2) k(1,2) by simp_all
  ultimately show ?thesis by (intro exI [of _ ?l'] conjI impI p(3,5,6)) assumption+
qed

text \<open>A hold-tap key without the quick-tap and typing-streak features.\<close>

definition basic_hold_tap :: "'t layout \<Rightarrow> 't hold_tap_action \<Rightarrow> bool" where
  "basic_hold_tap l ht \<longleftrightarrow>
     hta_config ht = HtDefault \<and> hta_on_press_reset_timeout_to ht = None \<and>
     hta_require_prior_idle ht = None \<and> l_prior_idle l = 0 \<and>
     hta_tap_hold_interval ht = 0 \<and> \<not> l_quick_tap_hold l"

lemma hold_tap_pressed:
  assumes "idle l" and "trans_resolution_layer_order l = Inr stack"
    and "resolve_coord l (i, j) stack = Inr (HoldTap ht, rest)" and "basic_hold_tap l ht"
  shows "\<exists>l1 w0. layout_run (Suc n) [InEvent (Press i j), InTick] l = Inr l1 \<and> on_hold l w0 0 l1
    \<and> w_coord w0 = (i, j) \<and> w_timeout w0 = hta_timeout ht \<and> w_delay w0 = 1 \<and> w_ticks w0 = 0
    \<and> w_tap w0 = hta_tap ht \<and> w_timeout_action w0 = hta_timeout_action ht"
proof -
  have c: "calm l" "l_waiting l = None" "l_queue l = []" using assms(1) by (simp_all add: idle_def)
  let ?la = "(record_press (Press i j) l)\<lparr>l_queue := [queued_from (Press i j)]\<rparr>"
  let ?lb = "forget_quick_tap (i, j) ((clock ?la)\<lparr>l_queue := []\<rparr>)"
  let ?w = "new_hold_tap_waiting ht (i, j) 1 rest ?lb"
  let ?l1 = "lt_update_coord (i, j) (lt_set_tap_hold_timeout 0 (?lb\<lparr>l_waiting := Some ?w\<rparr>))"
  have ca: "calm ?la" and cb: "calm ?lb" using c by simp_all
  have s: "l_waiting ?lb = None" "l_states ?lb = l_states l" "l_queue ?lb = []"
    "l_oneshot ?lb = l_oneshot l" "\<not> l_quick_tap_hold ?lb" "l_prior_idle ?lb = 0"
    using c assms(4)
    by (simp_all add: basic_hold_tap_def)
  have w: "w_coord ?w = (i, j)" "w_timeout ?w = hta_timeout ht" "w_delay ?w = 1" "w_ticks ?w = 0"
    "w_tap ?w = hta_tap ht" "w_timeout_action ?w = hta_timeout_action ht" "holding ?w 0 ?w"
    using s(5) assms(4) by (simp_all add: new_hold_tap_waiting_def basic_hold_tap_def holding_def)
  have k: "l_states ?l1 = l_states l" "l_queue ?l1 = []" "l_waiting ?l1 = Some ?w" "calm ?l1"
    "l_oneshot ?l1 = l_oneshot l"
    using s cb by (simp_all add: lt_update_coord_def lt_set_tap_hold_timeout_def)
  have "do_resolved (do_action n) (HoldTap ht) (i, j) 1 False rest 0 ?lb = Inr (CNoEvent, 0, ?l1)"
    using assms(4) s
    by (simp add: do_resolved_def do_hold_tap_def prior_idle_tap_def basic_hold_tap_def add_waiting_def)
  then have r: "do_resolved (do_action n) (HoldTap ht) (i, j)
      (sat_add (q_since (queued_from (Press i j))) 1) False rest 0 ?lb = Inr (CNoEvent, 0, ?l1)"
    by (simp add: queued_from_def sat_add_def)
  have "tick_layout (do_action (Suc n)) ?la = Inr (CNoEvent, ?l1)"
  proof (rule tick_press [OF ca _ _ _ _ _ r])
    show "trans_resolution_layer_order ?la = Inr stack"
      "resolve_coord ?la (i, j) stack = Inr (HoldTap ht, rest)"
      using assms(2,3) resolves_cong [of ?la l] by simp_all
    show "l_extra_waiting ?l1 = []" "list_all plain_state (l_states ?l1)"
      using calmD [OF k(4)] by simp_all
  qed (use c in \<open>simp_all add: queued_from_def\<close>)
  then have "layout_run (Suc n) [InEvent (Press i j), InTick] l = Inr ?l1"
    using idle_event [OF calmD(1) [OF c(1)] c(3)] by (simp del: do_action.simps)
  moreover have "on_hold l ?w 0 ?l1" using k w(7) by (simp add: on_hold_def)
  ultimately show ?thesis using w by blast
qed


lemma layout_run_append:
  "layout_run n (xs @ ys) l = and_then (layout_run n xs l) (layout_run n ys)"
  unfolding layout_run_def by (rule fold_res_append)

text \<open>C5: A basic hold-tap key that is held resolves to its timeout action at exactly the
  configured time: for fewer ticks than the timeout nothing is output, and at the tick that
  equals the timeout the action's key becomes active. The tick that takes the press off the
  queue comes first.\<close>

theorem hold_tap_timeout_exact:
  assumes "idle l" and "trans_resolution_layer_order l = Inr stack"
    and "resolve_coord l (i, j) stack = Inr (HoldTap ht, rest)" and "basic_hold_tap l ht"
    and "hta_timeout_action ht = KeyCode kc" and "0 < hta_timeout ht" and "hta_timeout ht < 65535"
    and "length (l_states l) < STATES_LEN"
  shows "(\<forall>m < unat (hta_timeout ht).
       \<exists>l1. layout_run (Suc n) (InEvent (Press i j) # InTick # replicate m InTick) l = Inr l1
         \<and> l_states l1 = l_states l)
    \<and> (\<exists>l2. layout_run (Suc n) (InEvent (Press i j) # InTick
             # replicate (unat (hta_timeout ht)) InTick) l = Inr l2
         \<and> l_states l2 = l_states l @ [NormalKey kc (i, j) 0] \<and> idle l2)"
proof -
  obtain l1 w0 where l1: "layout_run (Suc n) [InEvent (Press i j), InTick] l = Inr l1" "on_hold l w0 0 l1"
    and w0: "w_coord w0 = (i, j)" "w_timeout w0 = hta_timeout ht" "w_delay w0 = 1" "w_ticks w0 = 0"
      "w_timeout_action w0 = KeyCode kc"
    using hold_tap_pressed [OF assms(1-4)] assms(5) by metis
  have run: "layout_run (Suc n) (InEvent (Press i j) # InTick # is) l = layout_run (Suc n) is l1" for "is"
    using layout_run_append [of "Suc n" "[InEvent (Press i j), InTick]" "is" l] l1(1) by simp
  have "\<exists>l2. layout_run (Suc n) (replicate m InTick) l1 = Inr l2 \<and> l_states l2 = l_states l"
    if "m < unat (hta_timeout ht)" for m
    using on_hold_ticks [OF l1(2), of m "Suc n"] that w0(2) by (auto simp: on_hold_def)
  moreover have "\<exists>l2. layout_run (Suc n) (replicate (unat (hta_timeout ht)) InTick) l1 = Inr l2
      \<and> l_states l2 = l_states l @ [NormalKey kc (i, j) 0] \<and> idle l2"
  proof -
    obtain m where m: "unat (hta_timeout ht) = Suc m"
      using assms(6) by (cases "unat (hta_timeout ht)") (auto simp: unat_eq_zero)
    obtain l2 where l2: "layout_run (Suc n) (replicate m InTick) l1 = Inr l2" "on_hold l w0 m l2"
      using on_hold_ticks [OF l1(2), of m "Suc n"] m w0(2) by auto
    have "unat (w_delay w0) + unat (w_ticks w0) + Suc m < 65536"
      using w0 m assms(7) by (simp add: word_less_nat_alt)
    from on_hold_timeout [OF l2(2) _ w0(5) this assms(8), of n]
    obtain l3 where "tick_layout (do_action (Suc n)) l2 = Inr (CNoEvent, l3)"
      "l_states l3 = l_states l @ [NormalKey kc (i, j) 0]" "idle l3"
      using m w0(1,2) by auto
    then show ?thesis
      using l2(1) layout_run_append [of "Suc n" "replicate m InTick" "[InTick]" l1] m
      by (simp add: replicate_append_same del: do_action.simps)
  qed
  ultimately show ?thesis unfolding run by blast
qed

text \<open>A basic hold-tap key that is released before its timeout has passed resolves to its
  tap action: at the tick after the release the tap key becomes active, and without an
  input pause the next tick releases it.\<close>

theorem hold_tap_quick_release_taps:
  assumes "idle l" and "trans_resolution_layer_order l = Inr stack"
    and "resolve_coord l (i, j) stack = Inr (HoldTap ht, rest)" and "basic_hold_tap l ht"
    and "hta_tap ht = KeyCode kc" and "m < unat (hta_timeout ht)" and "m < 65534"
    and "length (l_states l) < STATES_LEN" and "\<forall>s \<in> set (l_states l). st_coord s \<noteq> Some (i, j)"
  shows "\<exists>l1. layout_run (Suc n) (InEvent (Press i j) # InTick # replicate m InTick
             @ [InEvent (Release i j), InTick]) l = Inr l1
    \<and> l_states l1 = l_states l @ [NormalKey kc (i, j) 0]
    \<and> (osh_pause_delay (l_oneshot l) = 0 \<longrightarrow>
         (\<exists>l2. layout_run (Suc n) [InTick] l1 = Inr l2 \<and> l_states l2 = l_states l \<and> idle l2))"
proof -
  obtain l1 w0 where l1: "layout_run (Suc n) [InEvent (Press i j), InTick] l = Inr l1" "on_hold l w0 0 l1"
    and w0: "w_coord w0 = (i, j)" "w_timeout w0 = hta_timeout ht" "w_delay w0 = 1" "w_ticks w0 = 0"
      "w_tap w0 = KeyCode kc"
    using hold_tap_pressed [OF assms(1-4)] assms(5) by metis
  obtain l2 where l2: "layout_run (Suc n) (replicate m InTick) l1 = Inr l2" "on_hold l w0 m l2"
    using on_hold_ticks [OF l1(2), of m "Suc n"] assms(6) w0(2) by auto
  have "unat (w_ticks w0) + Suc m < 65535" using w0(4) assms(7) by simp
  from on_hold_released [OF l2(2) w0(1,5,3) this assms(8), of n]
  obtain l3 where l3: "layout_run (Suc n) [InEvent (Release i j), InTick] l2 = Inr l3"
    "l_waiting l3 = None" "l_queue l3 = [\<lparr>q_event = Release i j, q_since = 1\<rparr>]"
    "l_states l3 = l_states l @ [NormalKey kc (i, j) 0]"
    "osh_pause_delay (l_oneshot l) = 0 \<longrightarrow> calm l3" by auto
  have run: "layout_run (Suc n) (InEvent (Press i j) # InTick # replicate m InTick
      @ [InEvent (Release i j), InTick]) l = Inr l3"
    using layout_run_append [of "Suc n" "[InEvent (Press i j), InTick]"
        "replicate m InTick @ [InEvent (Release i j), InTick]" l]
      layout_run_append [of "Suc n" "replicate m InTick" "[InEvent (Release i j), InTick]" l1]
      l1(1) l2(1) l3(1)
    by simp
  have "\<exists>l4. layout_run (Suc n) [InTick] l3 = Inr l4 \<and> l_states l4 = l_states l \<and> idle l4"
    if "calm l3"
  proof -
    have "customs_at (i, j) (l_states l3) = []"
      using customs_at_append_key [OF assms(9)] l3(4) by simp
    from tick_release [OF that l3(2,3) _ this, of "do_action (Suc n)"]
    have t: "tick_layout (do_action (Suc n)) l3 = Inr (CNoEvent, (clock l3)\<lparr>l_queue := [],
        l_states := filter (\<lambda>s. st_coord s \<noteq> Some (i, j)) (l_states l3), l_custom_releases := []\<rparr>)"
      (is "_ = Inr (_, ?l4)") by simp
    moreover have s: "l_states ?l4 = l_states l" using l3(4) assms(9) by simp
    moreover have "idle ?l4"
      using calm_clock [OF that] l3(2) s calmD(4) [of l] assms(1) by (simp add: idle_def calm_def)
    ultimately show ?thesis by (simp del: do_action.simps)
  qed
  then show ?thesis using run l3(4,5) by blast
qed

section \<open>An example configuration\<close>

text \<open>One layer: a plain key at column 0, a hold-tap key with a timeout of 3 ticks at column 1.\<close>

definition example_layout :: "nat layout" where
  "example_layout = blank_layout [KeyCode 30, KeyCode 31]
     [[[KeyCode 30, HoldTap (HoldTapAction 3 (KeyCode 29) (KeyCode 31) (KeyCode 42) HtDefault 0 None None)],
       [NoOp, NoOp]]] True False"

lemma example_idle: "idle example_layout"
  by (simp add: idle_def calm_def example_layout_def blank_layout_def one_shot_new_def)

lemma example_stack: "trans_resolution_layer_order example_layout = Inr [0]"
  by (simp add: trans_resolution_layer_order_def example_layout_def blank_layout_def
      active_held_layers_def MAX_ACTIVE_LAYERS_def List.map_filter_def)

lemma example_resolve:
  "resolve_coord example_layout (0, 0) [0] = Inr (KeyCode 30, [])"
  "resolve_coord example_layout (0, 1) [0]
     = Inr (HoldTap (HoldTapAction 3 (KeyCode 29) (KeyCode 31) (KeyCode 42) HtDefault 0 None None), [])"
  by (simp_all add: resolve_coord_def layer_action_def example_layout_def blank_layout_def Let_def)

lemma example_states: "l_states example_layout = []"
  by (simp add: example_layout_def blank_layout_def)

lemma example_basic:
  "basic_hold_tap example_layout
     (HoldTapAction 3 (KeyCode 29) (KeyCode 31) (KeyCode 42) HtDefault 0 None None)"
  by (simp add: basic_hold_tap_def example_layout_def blank_layout_def)

theorem key_press_release_witness:
  "\<exists>l1 l2. layout_run 1 [InEvent (Press 0 0), InTick] example_layout = Inr l1
    \<and> keycodes l1 = [30] \<and> layout_run 1 [InEvent (Release 0 0), InTick] l1 = Inr l2
    \<and> l_states l2 = [] \<and> idle l2"
  using key_press_release [OF example_idle example_stack example_resolve(1), of 0]
  by (simp add: example_states STATES_LEN_def List.map_filter_def del: layout_run_simps)

theorem hold_tap_timeout_exact_witness:
  "(\<exists>l1. layout_run 1 (InEvent (Press 0 1) # InTick # replicate 2 InTick) example_layout
        = Inr l1 \<and> l_states l1 = [])
    \<and> (\<exists>l2. layout_run 1 (InEvent (Press 0 1) # InTick # replicate 3 InTick) example_layout
        = Inr l2 \<and> l_states l2 = [NormalKey 42 (0, 1) 0] \<and> idle l2)"
  using hold_tap_timeout_exact [OF example_idle example_stack example_resolve(2) example_basic, of 42 0]
  by (simp add: example_states STATES_LEN_def del: layout_run_simps replicate.simps)

theorem hold_tap_quick_release_taps_witness:
  "\<exists>l1. layout_run 1 (InEvent (Press 0 1) # InTick # replicate 2 InTick
       @ [InEvent (Release 0 1), InTick]) example_layout = Inr l1
    \<and> l_states l1 = [NormalKey 31 (0, 1) 0]
    \<and> (\<exists>l2. layout_run 1 [InTick] l1 = Inr l2 \<and> l_states l2 = [] \<and> idle l2)"
  using hold_tap_quick_release_taps [OF example_idle example_stack example_resolve(2) example_basic, of 31 2 0]
  by (simp add: example_states STATES_LEN_def example_layout_def blank_layout_def one_shot_new_def
      del: layout_run_simps)

end
