(* ===== verification/Macros.thy ===== *)
theory Macros
  imports KeyPaths
begin

text \<open>
  Sequences (macros) that the layout plays back: every active sequence comes to an end within
  a number of ticks that can be read off its events, and every custom action in a sequence is
  announced as a press and then as a release, in order, one announcement per tick.
\<close>

section \<open>Sequences come to an end\<close>

text \<open>The number of ticks an event takes, and those that are left of a sequence.\<close>

fun event_ticks :: "'t seq_event \<Rightarrow> nat" where
  "event_ticks (SeqDelay d) = max 1 (unat d)"
| "event_ticks (SeqTap kc) = 2"
| "event_ticks _ = 1"

definition seq_ticks :: "'t sequence_state \<Rightarrow> nat" where
  "seq_ticks sq = unat (sq_delay sq) + (case sq_tapped sq of None \<Rightarrow> 0 | Some _ \<Rightarrow> 1)
     + sum_list (map event_ticks (sq_remaining sq))"

definition no_repeating :: "'t layout \<Rightarrow> bool" where
  "no_repeating l \<longleftrightarrow> (\<forall>s \<in> set (l_states l). repeating_sequence s = None)"

lemma event_step_ticks:
  assumes "seq_event_step (Some e) sq l = (sq', l')" and "sq_delay sq = 0" and "sq_tapped sq = None"
    and "sq_remaining sq' \<noteq> []"
  shows "seq_ticks sq' < event_ticks e + sum_list (map event_ticks (sq_remaining sq))"
proof (cases e)
  case (SeqDelay d)
  then show ?thesis
  proof (cases "0 < d")
    case True
    then have "unat (d - 1) < unat d" using unat_minus_one [of d] by (simp add: word_gt_0 unat_gt_0)
    then show ?thesis using assms SeqDelay True by (auto simp: seq_ticks_def)
  qed (use assms SeqDelay in \<open>auto simp: seq_ticks_def\<close>)
qed (use assms in \<open>auto simp: seq_ticks_def\<close>)

lemma seq_step_ticks:
  assumes "seq_step sq l = (sq', l')" and "sq_remaining sq' \<noteq> []"
  shows "seq_ticks sq' < seq_ticks sq"
proof (cases "0 < sq_delay sq")
  case True
  then show ?thesis using assms
    by (auto simp: seq_step_def seq_ticks_def unat_sat_sub word_gt_0 unat_gt_0)
next
  case nodelay: False
  then have d: "sq_delay sq = 0" by (simp add: word_gt_0)
  show ?thesis
  proof (cases "sq_tapped sq")
    case (Some kc)
    then show ?thesis using assms d by (auto simp: seq_step_def seq_ticks_def)
  next
    case None
    show ?thesis
    proof (cases "sq_remaining sq")
      case Nil
      have "sq_remaining (fst (seq_event_step e sq l)) = []" for e
        using Nil by (cases e; simp; rename_tac x; case_tac x) auto
      then show ?thesis using assms d None Nil by (auto simp: seq_step_def) (metis fst_conv)
    next
      case (Cons e es)
      then have "seq_event_step (Some e) (sq\<lparr>sq_cur_event := Some e, sq_remaining := es\<rparr>) l = (sq', l')"
        using assms(1) d None by (simp add: seq_step_def)
      from event_step_ticks [OF this] show ?thesis
        using d None Cons assms(2) by (simp add: seq_ticks_def)
    qed
  qed
qed

lemma event_step_states:
  assumes "no_repeating l"
  shows "no_repeating (snd (seq_event_step e sq l))"
    and "l_sequences (snd (seq_event_step e sq l)) = l_sequences l"
proof -
  have p: "no_repeating (push_state s l)" if "repeating_sequence s = None" for s
    using assms that by (auto simp: no_repeating_def push_state_def sat_push_def)
  have r: "no_repeating (l\<lparr>l_states := filter P (l_states l)\<rparr>)" for P
    using assms by (auto simp: no_repeating_def)
  have "no_repeating (snd (seq_event_step e sq l)) \<and> l_sequences (snd (seq_event_step e sq l)) = l_sequences l"
  proof (cases e)
    case (Some ev)
    then show ?thesis
    proof (cases ev)
      case (SeqRelease kc)
      then show ?thesis using Some r [of "seq_release kc"]
        by (simp add: seq_release_key_def no_repeating_def)
    qed (use Some assms p [of "FakeKey _"] p [of "SeqCustomPending _"] in \<open>auto simp: seq_press_def
        lt_press_def push_historical_key_def push_state_def no_repeating_def\<close>)
  qed (use assms in simp)
  then show "no_repeating (snd (seq_event_step e sq l))"
    "l_sequences (snd (seq_event_step e sq l)) = l_sequences l" by simp_all
qed

lemma seq_step_states:
  assumes "no_repeating l"
  shows "no_repeating (snd (seq_step sq l))" and "l_sequences (snd (seq_step sq l)) = l_sequences l"
  using assms event_step_states [OF assms]
  by (auto simp: seq_step_def Let_def seq_release_key_def no_repeating_def split: option.split list.split)

text \<open>The loop handles each of the old sequences once; those put back have less left.\<close>

lemma loop_ticks:
  assumes "no_repeating l" and "l_sequences l = old @ new" and "length old = k"
    and "length (old @ new) \<le> ACTIVE_SEQUENCES_LEN"
    and "\<forall>sq \<in> set old. seq_ticks sq \<le> n" and "\<forall>sq \<in> set new. seq_ticks sq < n"
  shows "no_repeating (process_sequences_loop k l)
    \<and> length (l_sequences (process_sequences_loop k l)) \<le> ACTIVE_SEQUENCES_LEN
    \<and> (\<forall>sq \<in> set (l_sequences (process_sequences_loop k l)). seq_ticks sq < n)"
  using assms
proof (induction k arbitrary: l old new)
  case 0
  then show ?case by simp
next
  case (Suc k)
  then obtain sq old' where old: "old = sq # old'" "length old' = k" by (cases old) auto
  let ?l = "l\<lparr>l_sequences := old' @ new\<rparr>"
  obtain sq' l' where s: "seq_step sq ?l = (sq', l')" by fastforce
  have nr: "no_repeating ?l" using Suc.prems(1) by (simp add: no_repeating_def)
  have l': "no_repeating l'" "l_sequences l' = old' @ new"
    using seq_step_states [OF nr, of sq] s by simp_all
  have room: "length (old' @ new) < ACTIVE_SEQUENCES_LEN" using Suc.prems(4) old by simp
  show ?case
  proof (cases "sq_remaining sq' = []")
    case True
    have "process_sequences_loop (Suc k) l = process_sequences_loop k l'"
      using Suc.prems(2) old s True by simp
    moreover have "length (old' @ new) \<le> ACTIVE_SEQUENCES_LEN" using room by simp
    ultimately show ?thesis using Suc.IH [OF l'(1,2) old(2)] Suc.prems(5,6) old by simp
  next
    case False
    let ?l2 = "l'\<lparr>l_sequences := (old' @ new) @ [sq']\<rparr>"
    have eq: "process_sequences_loop (Suc k) l = process_sequences_loop k ?l2"
      using Suc.prems(2) old s False l'(2) wrap_push_back_room [OF room, of sq'] by simp
    have "seq_ticks sq' < n"
      using seq_step_ticks [OF s False] Suc.prems(5) old by (simp add: less_le_trans)
    moreover have "no_repeating ?l2" using l'(1) by (simp add: no_repeating_def)
    ultimately show ?thesis
      unfolding eq using Suc.IH [of ?l2 old' "new @ [sq']"] old Suc.prems(4-6) by simp
  qed
qed

lemma process_sequences_ticks:
  assumes "no_repeating l" and "length (l_sequences l) \<le> ACTIVE_SEQUENCES_LEN"
    and "\<forall>sq \<in> set (l_sequences l). seq_ticks sq \<le> n"
  shows "no_repeating (process_sequences l)
    \<and> length (l_sequences (process_sequences l)) \<le> ACTIVE_SEQUENCES_LEN
    \<and> (\<forall>sq \<in> set (l_sequences (process_sequences l)). seq_ticks sq < n)"
proof -
  let ?l = "process_sequences_loop (length (l_sequences l)) l"
  have a: "no_repeating ?l" "length (l_sequences ?l) \<le> ACTIVE_SEQUENCES_LEN"
    "\<forall>sq \<in> set (l_sequences ?l). seq_ticks sq < n"
    using loop_ticks [OF assms(1), of "l_sequences l" "[]" "length (l_sequences l)" n] assms(2,3) by auto
  have "List.map_filter repeating_sequence (rev (l_states ?l)) = []"
    using a(1) by (intro map_filter_None) (simp add: no_repeating_def list_all_iff)
  then show ?thesis using a by (simp add: process_sequences_def Let_def)
qed

text \<open>C10: Macros terminate. Without a repeating macro being held, all active sequences have ended
  after as many calls of \<open>process_sequences\<close> (one per tick) as the longest of them has ticks
  left, plus one.\<close>

theorem sequences_finish:
  assumes "no_repeating l" and "length (l_sequences l) \<le> ACTIVE_SEQUENCES_LEN"
    and "\<forall>sq \<in> set (l_sequences l). seq_ticks sq \<le> n"
  shows "l_sequences ((process_sequences ^^ Suc n) l) = []"
  using assms
proof (induction n arbitrary: l)
  case 0
  have "\<forall>sq \<in> set (l_sequences (process_sequences l)). seq_ticks sq < 0"
    using process_sequences_ticks [OF 0] by simp
  then show ?case by (cases "l_sequences (process_sequences l)") auto
next
  case (Suc n)
  have "l_sequences ((process_sequences ^^ Suc n) (process_sequences l)) = []"
    using process_sequences_ticks [OF Suc.prems] by (intro Suc.IH) auto
  then show ?case by (simp only: funpow_Suc_right o_apply)
qed

theorem sequences_finish_witness:
  "l_sequences ((process_sequences ^^ 7)
     (example_layout\<lparr>l_sequences := [new_sequence [SeqTap 30, SeqDelay 3, SeqComplete]]\<rparr>)) = []"
  using sequences_finish [of "example_layout\<lparr>l_sequences := [new_sequence [SeqTap 30, SeqDelay 3, SeqComplete]]\<rparr>" 6]
  by (simp add: no_repeating_def example_states ACTIVE_SEQUENCES_LEN_def seq_ticks_def new_sequence_def
      numeral_eq_Suc)

section \<open>Custom actions of sequences\<close>

text \<open>\<open>n\<close> calls of \<open>process_sequence_custom\<close>, each at a tick without another custom event.\<close>

fun custom_ticks :: "nat \<Rightarrow> 't layout \<Rightarrow> 't custom_event list \<times> 't layout" where
  "custom_ticks 0 l = ([], l)"
| "custom_ticks (Suc n) l =
     (case process_sequence_custom CNoEvent l of (ce, l') \<Rightarrow>
        case custom_ticks n l' of (ces, l'') \<Rightarrow> (ce # ces, l''))"

fun pending_custom :: "'t state \<Rightarrow> 't option" where
  "pending_custom (SeqCustomPending v) = Some v"
| "pending_custom _ = None"

abbreviation not_tombstone :: "'t state \<Rightarrow> bool" where
  "not_tombstone s \<equiv> (case s of Tombstone \<Rightarrow> False | _ \<Rightarrow> True)"

definition step_states :: "'t state list \<Rightarrow> 't custom_event \<times> 't state list" where
  "step_states ss = seq_custom_step (filter not_tombstone ss)"

fun iter_states :: "nat \<Rightarrow> 't state list \<Rightarrow> 't custom_event list \<times> 't state list" where
  "iter_states 0 ss = ([], ss)"
| "iter_states (Suc n) ss =
     (case step_states ss of (ce, ss') \<Rightarrow> case iter_states n ss' of (ces, ss'') \<Rightarrow> (ce # ces, ss''))"

lemma custom_ticks_states:
  "custom_ticks n l = (fst (iter_states n (l_states l)), l\<lparr>l_states := snd (iter_states n (l_states l))\<rparr>)"
proof (induction n arbitrary: l)
  case 0
  then show ?case by simp
next
  case (Suc n)
  have "process_sequence_custom CNoEvent l
      = (fst (step_states (l_states l)), l\<lparr>l_states := snd (step_states (l_states l))\<rparr>)"
    by (cases "l_states l = []") (auto simp: process_sequence_custom_def step_states_def case_prod_unfold)
  then show ?case by (simp add: Suc case_prod_unfold)
qed

definition untouched :: "'t state \<Rightarrow> bool" where
  "untouched s \<longleftrightarrow> (case s of SeqCustomActive _ \<Rightarrow> False | Tombstone \<Rightarrow> False | _ \<Rightarrow> True)"

lemma iter_tombstone: "0 < n \<Longrightarrow> iter_states n (Tombstone # ss) = iter_states n ss"
  by (cases n) (simp_all add: step_states_def)

lemma step_other:
  assumes "untouched s" and "pending_custom s = None"
  shows "step_states (s # ss) = (fst (step_states ss), s # snd (step_states ss))"
  using assms by (cases s) (auto simp: step_states_def untouched_def case_prod_unfold)

lemma iter_other:
  assumes "untouched s" and "pending_custom s = None"
  shows "iter_states n (s # ss) = (fst (iter_states n ss), s # snd (iter_states n ss))"
  by (induction n arbitrary: ss) (simp_all add: step_other [OF assms] case_prod_unfold)

lemma iter_pending:
  "list_all untouched ss \<Longrightarrow>
     fst (iter_states (2 * length (List.map_filter pending_custom ss)) ss)
       = concat (map (\<lambda>v. [CPress v, CRelease v]) (List.map_filter pending_custom ss))
     \<and> filter not_tombstone (snd (iter_states (2 * length (List.map_filter pending_custom ss)) ss))
       = filter (\<lambda>s. pending_custom s = None) ss"
proof (induction ss)
  case Nil
  then show ?case by (simp add: List.map_filter_simps)
next
  case (Cons s ss)
  let ?k = "2 * length (List.map_filter pending_custom ss)"
  show ?case
  proof (cases "pending_custom s")
    case None
    have "not_tombstone s" using Cons.prems by (auto simp: untouched_def split: state.splits)
    moreover have "untouched s" using Cons.prems by simp
    ultimately show ?thesis
      using Cons None iter_other [of s ?k ss] by (simp add: List.map_filter_simps)
  next
    case (Some v)
    then have s: "s = SeqCustomPending v" by (cases s) auto
    have f: "filter not_tombstone ss = ss"
      using Cons.prems by (induction ss) (auto simp: untouched_def split: state.splits)
    have two: "iter_states (Suc (Suc n)) (s # ss) = (CPress v # CRelease v # fst (iter_states n (Tombstone # ss)),
        snd (iter_states n (Tombstone # ss)))" for n
      using f by (simp add: s step_states_def case_prod_unfold)
    show ?thesis
    proof (cases "?k = 0")
      case True
      then show ?thesis using Cons s f two [of 0] by (simp add: List.map_filter_simps numeral_2_eq_2)
    next
      case False
      then have "iter_states ?k (Tombstone # ss) = iter_states ?k ss" by (intro iter_tombstone) simp
      then show ?thesis using Cons s two [of ?k] by (simp add: List.map_filter_simps)
    qed
  qed
qed

text \<open>C11: Custom actions played by macros are announced exactly once each: with \<open>k\<close> of them
  pending, the next \<open>2 k\<close> ticks announce a press and then a release for each, in the order in
  which they were played, and afterwards none of them is left among the states while every
  other state still is.\<close>

theorem sequence_customs_announced:
  assumes "list_all untouched (l_states l)"
    and "vs = List.map_filter pending_custom (l_states l)"
    and "custom_ticks (2 * length vs) l = (ces, l')"
  shows "ces = concat (map (\<lambda>v. [CPress v, CRelease v]) vs)
    \<and> filter not_tombstone (l_states l') = filter (\<lambda>s. pending_custom s = None) (l_states l)"
  using iter_pending [OF assms(1)] assms(2,3) by (auto simp: custom_ticks_states)

theorem sequence_customs_announced_witness:
  "fst (custom_ticks 4 (example_layout\<lparr>l_states := [SeqCustomPending 7, FakeKey 30, SeqCustomPending 9]\<rparr>))
     = [CPress 7, CRelease 7, CPress 9, CRelease 9]"
proof -
  let ?l = "example_layout\<lparr>l_states := [SeqCustomPending 7, FakeKey 30, SeqCustomPending 9]\<rparr>"
  obtain ces l' where "custom_ticks 4 ?l = (ces, l')" by fastforce
  then show ?thesis
    using sequence_customs_announced [of ?l "[7, 9]" ces l']
    by (simp add: untouched_def List.map_filter_simps)
qed

end
