(* ===== verification/LayoutFacts.thy ===== *)
theory LayoutFacts
  imports KeyPaths
begin

text \<open>
  Properties of the layout as a whole: capacities, independence of the bound on nested calls,
  resolution of transparent keys, overflow of the event queue, one-shot releases, and the
  behaviour of \<open>Repeat\<close>.
\<close>

section \<open>Capacities\<close>



section \<open>The bound on nested calls\<close>

lemma mono_decide_waiting [mono_intros]:
  "refines_act rec rec' \<Longrightarrow>
     refines (decide_waiting rec wa pq idx l) (decide_waiting rec' wa pq idx l)"
  unfolding decide_waiting_def
  by (cases wa; simp only: waiting_action.case; intro mono_intros)

lemma mono_process_extra [mono_intros]:
  "refines_act rec rec' \<Longrightarrow>
     refines (process_extra_waitings rec c l) (process_extra_waitings rec' c l)"
  unfolding process_extra_waitings_def Let_def
  by (cases c; simp only: custom_event.case; intro mono_intros)

lemma mono_tick_waiting [mono_intros]:
  "refines_act rec rec' \<Longrightarrow> refines (tick_waiting rec l) (tick_waiting rec' l)"
  unfolding tick_waiting_def tick_input_def Let_def by (intro mono_intros)

lemma mono_tick_layout [mono_intros]:
  "refines_act rec rec' \<Longrightarrow> refines (tick_layout rec l) (tick_layout rec' l)"
  unfolding tick_layout_def tick_main_def Let_def by (intro mono_intros)

lemma runs_refine: "n \<le> m \<Longrightarrow> refines_act (do_action n) (do_action m)"
  unfolding refines_act_def refines_def using action_runs.runs_mono by metis

lemma mono_layout_step:
  assumes "n \<le> m"
  shows "refines (layout_step n i l) (layout_step m i l)"
  by (cases i; simp; intro mono_intros runs_refine [OF assms])

lemma mono_layout_run:
  assumes "n \<le> m"
  shows "refines (layout_run n is l) (layout_run m is l)"
  unfolding layout_run_def
  by (intro mono_intros mono_layout_step [OF assms])



section \<open>Transparent keys\<close>

text \<open>All layers have the same number of rows and columns, and there is one.\<close>

definition layers_ok :: "nat \<Rightarrow> nat \<Rightarrow> 't layout \<Rightarrow> bool" where
  "layers_ok rows cols l \<longleftrightarrow>
     l_layers l \<noteq> [] \<and> 0 < rows \<and> length (l_src_keys l) = cols \<and>
     (\<forall>layer \<in> set (l_layers l). length layer = rows \<and> (\<forall>row \<in> set layer. length row = cols))"

definition action_at :: "'t layout \<Rightarrow> kcoord \<Rightarrow> u16 \<Rightarrow> 't action" where
  "action_at l c k = l_layers l ! unat k ! unat (fst c) ! unat (snd c)"

lemma layer_action_ok:
  assumes "layers_ok rows cols l" and "unat (fst c) < rows" and "unat (snd c) < cols"
    and "unat k < length (l_layers l)"
  shows "layer_action l (unat k) (unat (fst c)) (unat (snd c)) = Inr (action_at l c k)"
proof -
  have "l_layers l ! unat k \<in> set (l_layers l)" using assms(4) by simp
  then have "length (l_layers l ! unat k) = rows"
    and r: "\<forall>row \<in> set (l_layers l ! unat k). length row = cols"
    using assms(1) by (auto simp: layers_ok_def)
  moreover have "length (l_layers l ! unat k ! unat (fst c)) = cols"
    using r assms(2) calculation(1) by simp
  ultimately show ?thesis using assms by (simp add: layer_action_def action_at_def)
qed

lemma resolve_layers_ok:
  assumes "layers_ok rows cols l" and "unat (fst c) < rows" and "unat (snd c) < cols"
    and "\<forall>k \<in> set stack. unat k < length (l_layers l)"
  shows "resolve_layers l (unat (fst c)) (unat (snd c)) stack = Inr
    (case dropWhile (\<lambda>k. action_at l c k = Trans) stack of
       [] \<Rightarrow> (None, []) | k # rest \<Rightarrow> (Some (action_at l c k), rest))"
  using assms(4)
proof (induction stack)
  case Nil
  then show ?case by simp
next
  case (Cons k stack)
  have "layer_action l (unat k) (unat (fst c)) (unat (snd c)) = Inr (action_at l c k)"
    using Cons.prems by (intro layer_action_ok [OF assms(1-3)]) simp
  then show ?case using Cons by (cases "action_at l c k") simp_all
qed

text \<open>With layers of equal shape, a coordinate inside it and existing layers on the stack,
  resolution never indexes out of range: it returns the first action on the stack of layers
  that is not transparent with the layers below it, and the source key, or nothing for a
  virtual key, when all are transparent.\<close>

theorem resolve_coord_first_opaque:
  assumes "layers_ok rows cols l" and "unat (fst c) < rows" and "unat (snd c) < cols"
    and "\<forall>k \<in> set stack. unat k < length (l_layers l)"
  shows "resolve_coord l c stack = Inr
    (case dropWhile (\<lambda>k. action_at l c k = Trans) stack of
       k # rest \<Rightarrow> (action_at l c k, rest)
     | [] \<Rightarrow> (if fst c = 0 then l_src_keys l ! unat (snd c) else NoOp, []))"
proof -
  obtain layer layers where ls: "l_layers l = layer # layers"
    using assms(1) by (cases "l_layers l") (auto simp: layers_ok_def)
  then have len: "length layer = rows" "\<forall>row \<in> set layer. length row = cols"
    using assms(1) by (auto simp: layers_ok_def)
  then obtain row rows' where row: "layer = row # rows'"
    using assms(1) by (cases layer) (auto simp: layers_ok_def)
  then have "length row = cols" "length (row # rows') = rows" using len by auto
  moreover have "length (l_src_keys l) = cols" using assms(1) by (simp add: layers_ok_def)
  moreover have "(unat (fst c) = 0) = (fst c = 0)" by (simp add: unat_eq_zero)
  ultimately show ?thesis
    using ls row assms(2,3) resolve_layers_ok [OF assms]
    by (cases "dropWhile (\<lambda>k. action_at l c k = Trans) stack") (simp_all add: resolve_coord_def Let_def del: dropWhile_eq_Nil_conv)
qed

text \<open>A transparent key on the held layer 1 shows the key of layer 0.\<close>

theorem resolve_coord_first_opaque_witness:
  "resolve_coord (blank_layout [KeyCode 1] [[[KeyCode 2]], [[Trans]]] True False) (0, 0) [1, 0]
     = Inr (KeyCode 2 :: nat action, [])"
  using resolve_coord_first_opaque [of 1 1 "blank_layout [KeyCode 1] [[[KeyCode 2]], [[Trans]]] True False"
      "(0, 0)" "[1, 0]"]
  by (simp add: layers_ok_def blank_layout_def action_at_def)

section \<open>The order of layers\<close>

text \<open>The layers a key press consults: the held layers, the most recently activated one
  first, then the default layer, and the first layer when delegation is on and neither the
  active nor the default layer is the first. With more than twelve held layers the press
  panics.\<close>

theorem layer_order:
  assumes "l_trans_v2 l" and "held = rev (map of_nat (List.map_filter get_layer (l_states l)))"
  shows "trans_resolution_layer_order l =
    (if 12 < length held then Inl Panic
     else if length held = 12 then Inr held
     else Inr (held @ [of_nat (l_default_layer l)]
       @ (if l_delegate_first l \<and> current_layer l \<noteq> 0 \<and> l_default_layer l \<noteq> 0 \<and> length held < 11
          then [0] else [])))"
  using assms
  by (auto simp: trans_resolution_layer_order_def active_held_layers_def MAX_ACTIVE_LAYERS_def
      sat_push_def Let_def)

theorem layer_order_witness:
  "trans_resolution_layer_order (example_layout\<lparr>l_states := replicate 13 (LayerModifier 1 (0, 5))\<rparr>)
     = Inl Panic"
  using layer_order [OF _ refl, of "example_layout\<lparr>l_states := replicate 13 (LayerModifier 1 (0, 5))\<rparr>"]
  by (simp add: example_layout_def blank_layout_def numeral_eq_Suc List.map_filter_simps)

section \<open>A full event queue\<close>

text \<open>The event queue is first in, first out even when it overflows: an event that meets a full
  queue (with no waiting key) goes to the end, and the oldest event is not lost but processed
  at once.\<close>

theorem full_queue_processes_oldest:
  assumes "l_chords_v2 l = None" and "l_queue l = q # qs" and "length (l_queue l) = QUEUE_SIZE"
    and "l_waiting l = None" and "l_extra_waiting l = []"
  shows "layout_event rec e l =
    and_then (dequeue rec q ((record_press e l)\<lparr>l_queue := qs @ [queued_from e]\<rparr>)) (\<lambda>(_, l'). Inr l')"
proof -
  let ?l = "(record_press e l)\<lparr>l_queue := qs @ [queued_from e]\<rparr>"
  have "l_chords_v2 (record_press e l) = None" "l_extra_waiting (record_press e l) = []"
    using assms by (cases e; simp add: record_press_def)+
  then have p: "push_queue e (record_press e l) = (Some q, ?l)"
    and w: "l_waiting ?l = None" "l_extra_waiting ?l = []"
    using assms by (simp_all add: push_queue_def wrap_push_back_def)
  have "waiting_into_hold rec idx ?l = Inr (CNoEvent, ?l)" for idx
    using w by (cases idx) (simp_all add: waiting_into_hold_def get_waiting_def nth_opt_def)
  then have "fold_res (\<lambda>idx l. and_then (waiting_into_hold rec idx l) (\<lambda>(_, l'). Inr l')) is ?l = Inr ?l" for "is"
    by (induction "is") simp_all
  then have "handle_overflow rec (Some q) ?l = and_then (dequeue rec q ?l) (\<lambda>(_, l'). Inr l')"
    unfolding handle_overflow_def option.case by (simp only: and_then_simps)
  then show ?thesis using p by (simp add: layout_event_def)
qed

definition full_layout :: "nat layout" where
  "full_layout = example_layout\<lparr>l_queue := replicate 32 (queued_from (Release 0 0))\<rparr>"

theorem full_queue_processes_oldest_witness:
  "layout_event (do_action 1) (Release 0 1) full_layout
     = and_then (dequeue (do_action 1) (queued_from (Release 0 0))
         (full_layout\<lparr>l_queue := replicate 31 (queued_from (Release 0 0)) @ [queued_from (Release 0 1)]\<rparr>))
         (\<lambda>(_, l'). Inr l')"
  using full_queue_processes_oldest [of full_layout "queued_from (Release 0 0)"
      "replicate 31 (queued_from (Release 0 0))" "do_action 1" "Release 0 1"]
  by (simp add: full_layout_def example_layout_def blank_layout_def QUEUE_SIZE_def record_press_def
      numeral_eq_Suc)

section \<open>Releases\<close>

text \<open>A release frees its key: with no one-shot key active, the release of a coordinate removes
  every state that belongs to the coordinate (and the keys flagged to be cleared by the next
  release) and no other state, and touches nothing else but the queue of custom releases.\<close>

theorem release_frees_coordinate:
  assumes "osh_keys (l_oneshot l) = []" and "dequeue_release c l = Inr (ce, l')"
  shows "l_states l' = filter (\<lambda>s. \<not> clear_on_next_release s \<and> st_coord s \<noteq> Some c) (l_states l)
    \<and> l' = l\<lparr>l_states := l_states l', l_custom_releases := l_custom_releases l'\<rparr>"
  using dequeue_release_states [OF assms] by blast

theorem release_frees_coordinate_witness:
  "\<exists>l'. dequeue_release (0, 0) (example_layout\<lparr>l_states := [NormalKey 30 (0, 0) 0, NormalKey 31 (0, 1) 0]\<rparr>)
      = Inr (CNoEvent, l') \<and> l_states l' = [NormalKey 31 (0, 1) 0]"
proof -
  let ?l = "example_layout\<lparr>l_states := [NormalKey 30 (0, 0) 0, NormalKey 31 (0, 1) 0]\<rparr>"
  have "calm ?l" using example_idle by (simp add: idle_def calm_def)
  from dequeue_release_calm [OF this, of "(0, 0)"]
  obtain l' where l': "dequeue_release (0, 0) ?l = Inr (CNoEvent, l')" by auto
  have "osh_keys (l_oneshot ?l) = []" by (simp add: example_layout_def blank_layout_def one_shot_new_def)
  from release_frees_coordinate [OF this l'] show ?thesis
    using l' by (simp add: nkf_clear_on_next_release_def NORMAL_KEY_FLAG_CLEAR_ON_NEXT_RELEASE_def)
qed

text \<open>The states at a one-shot key that its release leaves.\<close>

fun retained :: "one_shot_retainable list \<Rightarrow> 't state \<Rightarrow> bool" where
  "retained rs (NormalKey kc c f) = (RetainKeyCode c kc \<in> set rs)"
| "retained rs (LayerModifier v c) = (RetainLayer c (of_nat v) \<in> set rs)"
| "retained rs _ = False"

lemma release_unless_retained_keeps:
  "release_unless_retained rs c s e = Inr (keep, e') \<Longrightarrow>
     keep = (st_coord s \<noteq> Some c \<or> retained rs s)"
proof (cases s)
  case (StCustom v coord)
  assume "release_unless_retained rs c s e = Inr (keep, e')"
  then show ?thesis using StCustom release_flagged_keeps [of c s e keep e'] by simp
qed (auto simp: release_flagged_def)

text \<open>The release of an active one-shot key (while not all sixteen places for released ones
  are taken) leaves exactly the states of other coordinates and the key and layer states the
  one-shot action itself created: it stays active without being held.\<close>

theorem one_shot_release_retains:
  assumes "c \<in> set (osh_keys (l_oneshot l))"
    and "length (osh_released_keys (l_oneshot l)) < ONE_SHOT_MAX_ACTIVE"
    and "dequeue_release c l = Inr (ce, l')"
  shows "l_states l' = filter (\<lambda>s. st_coord s \<noteq> Some c \<or> retained (osh_retain (l_oneshot l)) s) (l_states l)
    \<and> osh_released_keys (l_oneshot l') = osh_released_keys (l_oneshot l) @ [c]
    \<and> osh_keys (l_oneshot l') = osh_keys (l_oneshot l)"
proof -
  let ?osh = "(l_oneshot l)\<lparr>osh_released_keys := osh_released_keys (l_oneshot l) @ [c]\<rparr>"
  have ne: "osh_keys (l_oneshot l) \<noteq> []" using assms(1) by auto
  have h: "osh_handle_release c (l_oneshot l) = ((False, None), ?osh)"
    using assms(1,2) ne by (simp add: osh_handle_release_def)
  obtain sts q where r: "retain_res (release_unless_retained (osh_retain (l_oneshot l)) c) (l_states l)
      (CNoEvent, l_custom_releases l) = Inr (sts, ce, q)"
    and l': "l' = l\<lparr>l_oneshot := ?osh, l_states := sts, l_custom_releases := q\<rparr>"
    using assms(3) h by (auto simp: dequeue_release_def and_then_Inr_iff)
  have "sts = filter (\<lambda>s. st_coord s \<noteq> Some c \<or> retained (osh_retain (l_oneshot l)) s) (l_states l)"
    by (rule retain_res_filter [OF r]) (rule release_unless_retained_keeps)
  then show ?thesis by (simp add: l')
qed

definition one_shot_layout :: "nat layout" where
  "one_shot_layout = example_layout
     \<lparr>l_states := [NormalKey 42 (0, 0) 0, NormalKey 30 (0, 0) 0],
      l_oneshot := one_shot_new\<lparr>osh_keys := [(0, 0)], osh_timeout := 100,
                     osh_retain := [RetainKeyCode (0, 0) 42]\<rparr>\<rparr>"

theorem one_shot_release_retains_witness:
  "\<exists>ce l'. dequeue_release (0, 0) one_shot_layout = Inr (ce, l') \<and> l_states l' = [NormalKey 42 (0, 0) 0]"
proof -
  obtain ce l' where "dequeue_release (0, 0) one_shot_layout = Inr (ce, l')"
    by (simp add: dequeue_release_def one_shot_layout_def osh_handle_release_def
        one_shot_new_def ONE_SHOT_MAX_ACTIVE_def)
  then show ?thesis
    using one_shot_release_retains [of "(0, 0)" one_shot_layout ce l']
    by (simp add: one_shot_layout_def one_shot_new_def ONE_SHOT_MAX_ACTIVE_def)
qed

section \<open>Repeat\<close>

text \<open>\<open>rpt-any\<close> never passes on a custom event: whatever action it repeats, the result of the
  nested call is discarded, so a repeated custom action is not announced as pressed.\<close>

theorem repeat_discards_custom_event:
  assumes "do_action n Repeat c d b stack cac l = Inr (ce, cac', l')"
  shows "ce = CNoEvent"
  using assms
  by (cases n)
    (auto simp: do_action_step_def do_resolved_def do_repeat_def and_then_Inr_iff split: option.splits)

theorem repeat_discards_custom_event_witness:
  "\<exists>cac l'. do_action 2 Repeat (0, 0) 0 False [] 0 (example_layout\<lparr>l_rpt_action := Some (Custom 5)\<rparr>)
     = Inr (CNoEvent, cac, l') \<and> l_states l' = [StCustom 5 (0, 0)]"
proof -
  have p: "list_all plain_state (l_states (example_layout\<lparr>l_rpt_action := Some (Custom 5)\<rparr>))"
    by (simp add: example_states)
  obtain ce cac l' where r: "do_action 2 Repeat (0, 0) 0 False [] 0
      (example_layout\<lparr>l_rpt_action := Some (Custom 5)\<rparr>) = Inr (ce, cac, l')"
    "l_states l' = [StCustom 5 (0, 0)]"
    by (simp add: numeral_2_eq_2 do_action_plain [OF _ p] do_action_plain example_states do_resolved_def
        do_repeat_def forget_quick_tap_def lt_set_tap_hold_timeout_def do_custom_def push_state_def
        set_rpt_def press_unless_oneshot_def lt_press_def lt_update_coord_def STATES_LEN_def sat_add_def
        example_layout_def blank_layout_def one_shot_new_def do_action_step_def clear_flagged_def
        REAL_KEY_ROW_def del: do_action.simps)
  then show ?thesis using repeat_discards_custom_event [OF r(1)] by blast
qed

lemma repeat_multi_diverges:
  assumes "l_rpt_action l = Some (MultipleActions [Repeat])" and "list_all plain_state (l_states l)"
  shows "do_action n Repeat c d b stack cac l = Inl OutOfFuel
    \<and> do_action n (MultipleActions [Repeat]) c d b stack cac l = Inl OutOfFuel"
  using assms
proof (induction n arbitrary: b stack cac l)
  case 0
  then show ?case by simp
next
  case (Suc n)
  let ?l = "forget_quick_tap c l"
  have rp: "l_rpt_action ?l = Some (MultipleActions [Repeat])"
    "l_rpt_action (lt_update_coord c ?l) = Some (MultipleActions [Repeat])"
    "list_all plain_state (l_states ?l)" "list_all plain_state (l_states (lt_update_coord c ?l))"
    using Suc.prems
    by (auto simp: forget_quick_tap_def lt_set_tap_hold_timeout_def lt_update_coord_def)
  have "do_action (Suc n) Repeat c d b stack cac l
      = do_repeat (do_action n) c d b cac ?l"
    using do_action_plain [of Repeat l n] Suc.prems(2) by (simp add: do_resolved_def)
  also have "\<dots> = Inl OutOfFuel" using rp Suc.IH [OF rp(1,3)] by (simp add: do_repeat_def)
  finally have 1: "do_action (Suc n) Repeat c d b stack cac l = Inl OutOfFuel" .
  have "do_action (Suc n) (MultipleActions [Repeat]) c d b stack cac l
      = do_multiple_actions (do_action n) [Repeat] c d b stack cac ?l"
    using do_action_plain [of "MultipleActions [Repeat]" l n] Suc.prems(2) by (simp add: do_resolved_def)
  also have "\<dots> = Inl OutOfFuel" using Suc.IH [OF rp(2,4)]
    by (simp add: do_multiple_actions_def run_actions_def)
  finally show ?case using 1 by simp
qed

text \<open>A \<open>rpt-any\<close> inside the action it repeats never returns: with \<open>(multi rpt-any)\<close> as the
  action to repeat, no number of nested calls of \<open>do_action\<close> is enough, so the code overflows
  its stack.\<close>

theorem nested_repeat_never_returns:
  assumes "l_rpt_action l = Some (MultipleActions [Repeat])" and "list_all plain_state (l_states l)"
  shows "do_action n Repeat c d b stack cac l = Inl OutOfFuel"
  using repeat_multi_diverges [OF assms] by blast

theorem nested_repeat_never_returns_witness:
  "do_action 100 Repeat (0, 0) 0 False [] 0
     (example_layout\<lparr>l_rpt_action := Some (MultipleActions [Repeat])\<rparr>) = Inl OutOfFuel"
  by (rule nested_repeat_never_returns) (simp_all add: example_states)

end
