(* ===== verification/TapHoldClosures.thy ===== *)
theory TapHoldClosures
  imports Waiting
begin

text \<open>
  The strategies of the \<open>tap-hold-*\<close> actions that take lists of keys or hands
  (\<open>parser/src/cfg/custom_tap_hold.rs\<close>): functions for \<open>HtCustom\<close> that look at the events queued
  behind a waiting hold-tap key. An \<open>OsCode\<close> is its number. Every function of the code is
  modelled by a recursion over the queue; the properties put them in terms of one scheme, the
  decision of the first press that decides.
\<close>

section \<open>Hands\<close>

datatype hand = HandLeft | HandRight | HandNeutral

text \<open>The two parallel slices, which \<open>parse_defhands\<close> fills together, as one list of pairs.\<close>

type_synonym hand_map = "(u16 \<times> hand) list"

definition hand_of :: "hand_map \<Rightarrow> u16 \<Rightarrow> hand" where
  "hand_of hm k = (case find (\<lambda>p. fst p = k) hm of Some p \<Rightarrow> snd p | None \<Rightarrow> HandNeutral)"

datatype decision_behavior = DecideTap | DecideHold | DecideIgnore

section \<open>The functions\<close>

text \<open>Whether the events behind a press contain its release.\<close>

definition released_in :: "u8 \<Rightarrow> u16 \<Rightarrow> queued list \<Rightarrow> bool" where
  "released_in i j q = list_ex (\<lambda>s. q_event s = Release i j) q"

type_synonym closure_result = "waiting_action option \<times> bool"

fun custom_tap_hold_release :: "u16 list \<Rightarrow> queued list \<Rightarrow> closure_result" where
  "custom_tap_hold_release keys [] = (None, False)"
| "custom_tap_hold_release keys (s # q) =
     (case q_event s of
        Press i j \<Rightarrow>
          if i = REAL_KEY_ROW \<and> j \<in> set keys then (Some WaTap, False)
          else if released_in i j q then (Some WaHold, False)
          else custom_tap_hold_release keys q
      | Release _ _ \<Rightarrow> custom_tap_hold_release keys q)"

fun custom_tap_hold_release_trigger_tap_release ::
  "u16 list \<Rightarrow> u16 list \<Rightarrow> queued list \<Rightarrow> closure_result" where
  "custom_tap_hold_release_trigger_tap_release on_press on_release [] = (None, False)"
| "custom_tap_hold_release_trigger_tap_release on_press on_release (s # q) =
     (case q_event s of
        Press i j \<Rightarrow>
          if i \<noteq> REAL_KEY_ROW then custom_tap_hold_release_trigger_tap_release on_press on_release q
          else if j \<in> set on_press then (Some WaTap, False)
          else if j \<in> set on_release \<and> released_in i j q then (Some WaTap, False)
          else if released_in i j q then (Some WaHold, False)
          else custom_tap_hold_release_trigger_tap_release on_press on_release q
      | Release _ _ \<Rightarrow> custom_tap_hold_release_trigger_tap_release on_press on_release q)"

fun custom_tap_hold_keys ::
  "u16 list \<Rightarrow> u16 list \<Rightarrow> u16 list \<Rightarrow> queued list \<Rightarrow> closure_result" where
  "custom_tap_hold_keys tap_press tap_release hold_press [] = (None, False)"
| "custom_tap_hold_keys tap_press tap_release hold_press (s # q) =
     (case q_event s of
        Press i j \<Rightarrow>
          if i \<noteq> REAL_KEY_ROW then custom_tap_hold_keys tap_press tap_release hold_press q
          else if j \<in> set tap_press then (Some WaTap, False)
          else if j \<in> set hold_press then (Some WaHold, False)
          else if j \<in> set tap_release \<and> released_in i j q then (Some WaTap, False)
          else if released_in i j q then (Some WaHold, False)
          else custom_tap_hold_keys tap_press tap_release hold_press q
      | Release _ _ \<Rightarrow> custom_tap_hold_keys tap_press tap_release hold_press q)"

fun custom_tap_hold_except :: "u16 list \<Rightarrow> queued list \<Rightarrow> closure_result" where
  "custom_tap_hold_except keys [] = (None, True)"
| "custom_tap_hold_except keys (s # q) =
     (case q_event s of
        Press i j \<Rightarrow> if j \<in> set keys then (Some WaTap, False) else (None, False)
      | Release _ _ \<Rightarrow> custom_tap_hold_except keys q)"

fun custom_tap_hold_tap_keys :: "u16 list \<Rightarrow> queued list \<Rightarrow> closure_result" where
  "custom_tap_hold_tap_keys keys [] = (None, False)"
| "custom_tap_hold_tap_keys keys (s # q) =
     (case q_event s of
        Press i j \<Rightarrow> if j \<in> set keys then (Some WaTap, False) else custom_tap_hold_tap_keys keys q
      | Release _ _ \<Rightarrow> custom_tap_hold_tap_keys keys q)"

text \<open>The options of the opposite-hand strategies. \<open>continue\<close> of the loops is the last argument.\<close>

record hand_options =
  ho_map :: hand_map
  ho_same :: decision_behavior
  ho_neutral :: decision_behavior
  ho_unknown :: decision_behavior
  ho_neutral_keys :: "u16 list"

fun behave :: "decision_behavior \<Rightarrow> closure_result \<Rightarrow> closure_result" where
  "behave DecideTap r = (Some WaTap, False)"
| "behave DecideHold r = (Some WaHold, False)"
| "behave DecideIgnore r = r"

fun opposite :: "hand \<Rightarrow> hand \<Rightarrow> bool" where
  "opposite HandLeft HandRight = True"
| "opposite HandRight HandLeft = True"
| "opposite _ _ = False"

fun same_hand :: "hand \<Rightarrow> hand \<Rightarrow> bool" where
  "same_hand HandLeft HandLeft = True"
| "same_hand HandRight HandRight = True"
| "same_hand _ _ = False"

fun custom_tap_hold_opposite_hand :: "hand_options \<Rightarrow> kcoord \<Rightarrow> queued list \<Rightarrow> closure_result" where
  "custom_tap_hold_opposite_hand ho coord [] = (None, False)"
| "custom_tap_hold_opposite_hand ho coord (s # q) =
     (case q_event s of
        Press i j \<Rightarrow>
          if i \<noteq> REAL_KEY_ROW then custom_tap_hold_opposite_hand ho coord q
          else if j \<in> set (ho_neutral_keys ho) then
            behave (ho_neutral ho) (custom_tap_hold_opposite_hand ho coord q)
          else if opposite (hand_of (ho_map ho) (snd coord)) (hand_of (ho_map ho) j) then
            (Some WaHold, False)
          else if same_hand (hand_of (ho_map ho) (snd coord)) (hand_of (ho_map ho) j) then
            behave (ho_same ho) (custom_tap_hold_opposite_hand ho coord q)
          else behave (ho_unknown ho) (custom_tap_hold_opposite_hand ho coord q)
      | Release _ _ \<Rightarrow> custom_tap_hold_opposite_hand ho coord q)"

fun custom_tap_hold_opposite_hand_release ::
  "hand_options \<Rightarrow> kcoord \<Rightarrow> queued list \<Rightarrow> closure_result" where
  "custom_tap_hold_opposite_hand_release ho coord [] = (None, False)"
| "custom_tap_hold_opposite_hand_release ho coord (s # q) =
     (case q_event s of
        Press i j \<Rightarrow>
          if i \<noteq> REAL_KEY_ROW then custom_tap_hold_opposite_hand_release ho coord q
          else if j \<in> set (ho_neutral_keys ho) then
            if released_in i j q
            then behave (ho_neutral ho) (custom_tap_hold_opposite_hand_release ho coord q)
            else custom_tap_hold_opposite_hand_release ho coord q
          else if same_hand (hand_of (ho_map ho) (snd coord)) (hand_of (ho_map ho) j) then
            behave (ho_same ho) (custom_tap_hold_opposite_hand_release ho coord q)
          else if opposite (hand_of (ho_map ho) (snd coord)) (hand_of (ho_map ho) j) then
            if released_in i j q then (Some WaHold, False)
            else custom_tap_hold_opposite_hand_release ho coord q
          else if released_in i j q
            then behave (ho_unknown ho) (custom_tap_hold_opposite_hand_release ho coord q)
            else custom_tap_hold_opposite_hand_release ho coord q
      | Release _ _ \<Rightarrow> custom_tap_hold_opposite_hand_release ho coord q)"

section \<open>The scheme\<close>

text \<open>A rule decides, or not, about a press, given whether its release is queued behind it.\<close>

type_synonym press_rule = "u8 \<Rightarrow> u16 \<Rightarrow> bool \<Rightarrow> waiting_action option"

fun first_decision :: "press_rule \<Rightarrow> queued list \<Rightarrow> waiting_action option" where
  "first_decision rule [] = None"
| "first_decision rule (s # q) =
     (case q_event s of
        Press i j \<Rightarrow>
          (case rule i j (released_in i j q) of
             Some wa \<Rightarrow> Some wa | None \<Rightarrow> first_decision rule q)
      | Release _ _ \<Rightarrow> first_decision rule q)"

text \<open>Position \<open>n\<close> of the queue is a press about which the rule decides.\<close>

definition rule_at :: "press_rule \<Rightarrow> queued list \<Rightarrow> nat \<Rightarrow> waiting_action option" where
  "rule_at rule q n =
     (case q_event (q ! n) of
        Press i j \<Rightarrow> rule i j (released_in i j (drop (Suc n) q)) | Release _ _ \<Rightarrow> None)"

lemma rule_at_Cons [simp]:
  "rule_at rule (s # q) 0 = (case q_event s of Press i j \<Rightarrow> rule i j (released_in i j q) | _ \<Rightarrow> None)"
  "rule_at rule (s # q) (Suc n) = rule_at rule q n"
  by (simp_all add: rule_at_def split: event.split)

lemma first_decision_None:
  "first_decision rule q = None \<longleftrightarrow> (\<forall>n < length q. rule_at rule q n = None)"
  by (induction q) (auto simp: less_Suc_eq_0_disj All_less_Suc2 split: event.split option.split)

lemma first_decision_Some:
  "first_decision rule q = Some wa \<longleftrightarrow>
     (\<exists>n < length q. rule_at rule q n = Some wa \<and> (\<forall>m < n. rule_at rule q m = None))"
proof (induction q)
  case Nil
  then show ?case by simp
next
  case (Cons s q)
  have "first_decision rule (s # q) =
      (case rule_at rule (s # q) 0 of Some wa \<Rightarrow> Some wa | None \<Rightarrow> first_decision rule q)"
    by (simp split: event.split)
  then show ?case
    by (cases "rule_at rule (s # q) 0") (auto simp: Cons Ex_less_Suc2 All_less_Suc2 simp del: rule_at_Cons(1))
qed

definition permissive_rule :: press_rule where
  "permissive_rule i j rel = (if rel then Some WaHold else None)"

definition release_rule :: "u16 list \<Rightarrow> press_rule" where
  "release_rule keys i j rel =
     (if i = REAL_KEY_ROW \<and> j \<in> set keys then Some WaTap else permissive_rule i j rel)"

definition keys_rule :: "u16 list \<Rightarrow> u16 list \<Rightarrow> u16 list \<Rightarrow> press_rule" where
  "keys_rule tap_press tap_release hold_press i j rel =
     (if i \<noteq> REAL_KEY_ROW then None
      else if j \<in> set tap_press then Some WaTap
      else if j \<in> set hold_press then Some WaHold
      else if rel then Some (if j \<in> set tap_release then WaTap else WaHold)
      else None)"

definition tap_keys_rule :: "u16 list \<Rightarrow> press_rule" where
  "tap_keys_rule keys i j rel = (if j \<in> set keys then Some WaTap else None)"

fun decided :: "decision_behavior \<Rightarrow> waiting_action option" where
  "decided DecideTap = Some WaTap"
| "decided DecideHold = Some WaHold"
| "decided DecideIgnore = None"

definition hand_rule :: "hand_options \<Rightarrow> u16 \<Rightarrow> press_rule" where
  "hand_rule ho col i j rel =
     (if i \<noteq> REAL_KEY_ROW then None
      else if j \<in> set (ho_neutral_keys ho) then decided (ho_neutral ho)
      else if opposite (hand_of (ho_map ho) col) (hand_of (ho_map ho) j) then Some WaHold
      else if same_hand (hand_of (ho_map ho) col) (hand_of (ho_map ho) j) then decided (ho_same ho)
      else decided (ho_unknown ho))"

definition hand_release_rule :: "hand_options \<Rightarrow> u16 \<Rightarrow> press_rule" where
  "hand_release_rule ho col i j rel =
     (if i = REAL_KEY_ROW \<and> j \<notin> set (ho_neutral_keys ho)
         \<and> same_hand (hand_of (ho_map ho) col) (hand_of (ho_map ho) j) then decided (ho_same ho)
      else if rel then hand_rule ho col i j rel else None)"

lemma behave_decided:
  "behave d r = (case decided d of Some wa \<Rightarrow> (Some wa, False) | None \<Rightarrow> r)"
  by (cases d) simp_all

lemma opposite_not_same: "opposite a b \<Longrightarrow> \<not> same_hand a b"
  by (cases a; cases b) simp_all


text \<open>The reason for deciding about same-hand keys when they are pressed: with the option that
  makes them taps, a same-hand key that is pressed first is a tap, whatever is pressed and
  released after it.\<close>

theorem same_hand_press_taps:
  assumes "ho_same ho = DecideTap" and "j \<notin> set (ho_neutral_keys ho)"
    and "same_hand (hand_of (ho_map ho) (snd coord)) (hand_of (ho_map ho) j)"
    and "\<forall>s \<in> set q1. \<not> is_press (q_event s)" and "q_event s = Press REAL_KEY_ROW j"
  shows "custom_tap_hold_opposite_hand_release ho coord (q1 @ s # q2) = (Some WaTap, False)"
  using assms(4)
proof (induction q1)
  case Nil
  then show ?case using assms by simp
next
  case (Cons r q1)
  then show ?case by (cases "q_event r") auto
qed

definition hands_example :: hand_options where
  "hands_example = \<lparr>ho_map = [(30, HandLeft), (31, HandLeft), (36, HandRight)], ho_same = DecideTap,
     ho_neutral = DecideIgnore, ho_unknown = DecideIgnore, ho_neutral_keys = [57]\<rparr>"

theorem same_hand_press_taps_witness:
  "custom_tap_hold_opposite_hand_release hands_example (0, 30)
     [queued_new_press 0 31, queued_new_press 0 36, queued_new_release 0 36] = (Some WaTap, False)"
  using same_hand_press_taps [of hands_example 31 "(0, 30)" "[]" "queued_new_press 0 31"
      "[queued_new_press 0 36, queued_new_release 0 36]"]
  by (simp add: hands_example_def hand_of_def queued_new_press_def REAL_KEY_ROW_def)

text \<open>A \<open>tap-hold-except-keys\<close> key is never decided by time alone: as long as neither a press of
  another key nor its own release is queued, no decision is taken, even when its time is up.\<close>

theorem except_keys_wait:
  assumes "w_on_press_reset w = None"
    and "\<forall>s \<in> set q. \<not> is_press (q_event s) \<and> \<not> is_corresponding_release (w_coord w) (q_event s)"
  shows "fst (handle_hold_tap (HtCustom (\<lambda>q c. custom_tap_hold_except keys q)) q w) = None"
proof -
  have "\<forall>s \<in> set q. \<not> is_press (q_event s) \<Longrightarrow> custom_tap_hold_except keys q = (None, True)" for q
    by (induction q) (auto split: event.split)
  then have "custom_tap_hold_except keys q = (None, True)" using assms(2) by simp
  moreover have "find (\<lambda>s. is_corresponding_release (w_coord w) (q_event s)) q = None"
    using assms(2) by (auto simp: find_None_iff)
  ultimately show ?thesis
    using assms(1) by (simp add: handle_hold_tap_def hold_tap_reset_def hold_tap_finish_def)
qed

definition expired_waiting :: "nat waiting_state" where
  "expired_waiting = \<lparr>w_coord = (0, 30), w_timeout = 0, w_on_press_reset = None, w_delay = 0,
     w_ticks = 200, w_hold = KeyCode 42, w_tap = KeyCode 30, w_timeout_action = KeyCode 42,
     w_config = WcHoldTap (HtCustom (\<lambda>q c. custom_tap_hold_except [31] q)), w_layer_stack = [],
     w_prev_queue_len = 0\<rparr>"

theorem except_keys_wait_witness:
  "fst (handle_hold_tap (HtCustom (\<lambda>q c. custom_tap_hold_except [31] q))
     [queued_new_release 0 36] expired_waiting) = None"
  using except_keys_wait [of expired_waiting "[queued_new_release 0 36]" "[31]"]
  by (simp add: expired_waiting_def queued_new_release_def is_corresponding_release_def)

end
