(* ===== verification/Overrides.thy ===== *)
theory Overrides
  imports States
begin

text \<open>
  Global key overrides (\<open>parser/src/cfg/key_override.rs\<close>): with certain modifiers pressed a key is
  replaced by another key with other modifiers. An \<open>OsCode\<close> and the \<open>KeyCode\<close> it is transmuted to
  are the same number. The hash map from input keys to their overrides is an association list.
\<close>

section \<open>Overrides\<close>

type_synonym oscode = u16

record override =
  ov_in :: oscode
  ov_out :: oscode
  ov_in_mods :: "oscode list"
  ov_out_mods :: "oscode list"
  ov_excluded_mods :: "oscode list option"
  ov_excluded_layers :: "u16 list option"

definition mask_for_key :: "oscode \<Rightarrow> u8 option" where
  "mask_for_key osc =
     (if osc = LCtrl then Some (push_bit 0 1)
      else if osc = LShift then Some (push_bit 1 1)
      else if osc = LAlt then Some (push_bit 2 1)
      else if osc = LGui then Some (push_bit 3 1)
      else if osc = RCtrl then Some (push_bit 4 1)
      else if osc = RShift then Some (push_bit 5 1)
      else if osc = RAlt then Some (push_bit 6 1)
      else if osc = RGui then Some (push_bit 7 1)
      else None)"

datatype override_error = NoInputKey | ManyInputKeys | NoOutputKey | ManyOutputKeys

definition override_try_new :: "oscode list \<Rightarrow> oscode list \<Rightarrow> override_error + override" where
  "override_try_new ins outs =
     (case filter (\<lambda>k. mask_for_key k = None) ins of
        [] \<Rightarrow> Inl NoInputKey
      | _ # _ # _ \<Rightarrow> Inl ManyInputKeys
      | [k] \<Rightarrow>
          (case filter (\<lambda>k. mask_for_key k = None) outs of
             [] \<Rightarrow> Inl NoOutputKey
           | _ # _ # _ \<Rightarrow> Inl ManyOutputKeys
           | [out] \<Rightarrow> Inr \<lparr>ov_in = k, ov_out = out, ov_in_mods = filter is_mod ins,
               ov_out_mods = filter is_mod outs, ov_excluded_mods = None, ov_excluded_layers = None\<rparr>))"

definition override_try_new_v2 ::
  "oscode list \<Rightarrow> oscode list \<Rightarrow> oscode list \<Rightarrow> u16 list \<Rightarrow> override_error + override" where
  "override_try_new_v2 ins outs excluded_mods excluded_layers =
     and_then (override_try_new ins outs) (\<lambda>o1.
       Inr (o1\<lparr>ov_excluded_mods := Some excluded_mods, ov_excluded_layers := Some excluded_layers\<rparr>))"

text \<open>The masks; a key that is no modifier makes \<open>expect\<close> panic.\<close>

definition or_mask :: "oscode \<Rightarrow> u8 \<Rightarrow> u8 res" where
  "or_mask osc acc = (case mask_for_key osc of Some m \<Rightarrow> Inr (acc OR m) | None \<Rightarrow> Inl Panic)"

definition get_mod_mask :: "override \<Rightarrow> u8 res" where
  "get_mod_mask ov = fold_res or_mask (ov_in_mods ov) 0"

definition get_excluded_mod_mask :: "override \<Rightarrow> u8 res" where
  "get_excluded_mod_mask ov =
     (case ov_excluded_mods ov of Some ms \<Rightarrow> fold_res or_mask ms 0 | None \<Rightarrow> Inr 0)"

definition push_new :: "'a \<Rightarrow> 'a list \<Rightarrow> 'a list" where
  "push_new x xs = (if x \<in> set xs then xs else xs @ [x])"

definition add_override_keys :: "override \<Rightarrow> oscode list \<Rightarrow> oscode list" where
  "add_override_keys ov add = push_new (ov_out ov) (fold push_new (ov_out_mods ov) add)"

definition add_removed_keys :: "override \<Rightarrow> oscode list \<Rightarrow> oscode list" where
  "add_removed_keys ov rem = push_new (ov_in ov) (fold push_new (ov_in_mods ov) rem)"

section \<open>The collection\<close>

type_synonym overrides = "(oscode \<times> override list) list"

fun entry_push :: "override \<Rightarrow> overrides \<Rightarrow> overrides" where
  "entry_push ov [] = [(ov_in ov, [ov])]"
| "entry_push ov ((k, ovs) # m) =
     (if k = ov_in ov then (k, ovs @ [ov]) # m else (k, ovs) # entry_push ov m)"

definition overrides_new :: "override list \<Rightarrow> overrides" where
  "overrides_new ovs = fold entry_push ovs []"

definition override_applies :: "u8 \<Rightarrow> u16 \<Rightarrow> override \<Rightarrow> bool res" where
  "override_applies active_mods layer ov =
     (if (case ov_excluded_layers ov of Some ls \<Rightarrow> layer \<in> set ls | None \<Rightarrow> False) then Inr False
      else
        and_then (get_mod_mask ov) (\<lambda>required.
        and_then (get_excluded_mod_mask ov) (\<lambda>excl.
          Inr (required AND active_mods = required \<and> excl AND active_mods = 0))))"

fun find_res :: "('a \<Rightarrow> bool res) \<Rightarrow> 'a list \<Rightarrow> 'a option res" where
  "find_res p [] = Inr None"
| "find_res p (x # xs) = and_then (p x) (\<lambda>b. if b then Inr (Some x) else find_res p xs)"

record override_states =
  ovs_mods :: u8
  ovs_remove :: "oscode list"
  ovs_add :: "oscode list"

definition override_states_new :: override_states where
  "override_states_new = \<lparr>ovs_mods = 0, ovs_remove = [], ovs_add = []\<rparr>"

text \<open>\<open>rfind\<close>: the last override of the key that applies.\<close>

definition update_keys ::
  "overrides \<Rightarrow> oscode \<Rightarrow> u16 \<Rightarrow> override_states \<Rightarrow> override_states res" where
  "update_keys ovs osc layer st =
     (case map_of ovs osc of
        None \<Rightarrow> Inr st
      | Some os \<Rightarrow>
          and_then (find_res (override_applies (ovs_mods st) layer) (rev os)) (\<lambda>r.
            case r of
              None \<Rightarrow> Inr st
            | Some ov \<Rightarrow> Inr (st\<lparr>ovs_add := add_override_keys ov (ovs_add st),
                                ovs_remove := add_removed_keys ov (ovs_remove st)\<rparr>)))"

definition override_update ::
  "overrides \<Rightarrow> u16 \<Rightarrow> oscode \<Rightarrow> override_states \<Rightarrow> override_states res" where
  "override_update ovs layer osc st =
     (case mask_for_key osc of
        Some m \<Rightarrow> Inr (st\<lparr>ovs_mods := ovs_mods st OR m\<rparr>)
      | None \<Rightarrow> update_keys ovs osc layer st)"

definition override_keys ::
  "overrides \<Rightarrow> keycode list \<Rightarrow> override_states \<Rightarrow> u16 \<Rightarrow> (keycode list \<times> override_states) res" where
  "override_keys ovs kcs st layer =
     (if ovs = [] then Inr (kcs, st)
      else
        and_then (fold_res (override_update ovs layer) kcs override_states_new) (\<lambda>st'.
          Inr (filter (\<lambda>kc. kc \<notin> set (ovs_remove st')) kcs @ ovs_add st', st')))"

definition output_non_mods_for_input_non_mod :: "overrides \<Rightarrow> oscode \<Rightarrow> oscode list" where
  "output_non_mods_for_input_non_mod ovs osc =
     (case map_of ovs osc of Some os \<Rightarrow> map ov_out os | None \<Rightarrow> [])"

text \<open>The states of removed keys that are no modifiers are marked for eager clearing.\<close>

fun mark_state :: "keycode \<Rightarrow> 't state \<Rightarrow> 't state" where
  "mark_state kc (NormalKey kc' c flags) =
     NormalKey kc' c (if kc = kc'
       then flags OR (NORMAL_KEY_FLAG_CLEAR_ON_NEXT_ACTION OR NORMAL_KEY_FLAG_CLEAR_ON_NEXT_RELEASE)
       else flags)"
| "mark_state kc s = s"

definition mark_overridden_nonmodkeys_for_eager_erasure ::
  "override_states \<Rightarrow> 't state list \<Rightarrow> 't state list" where
  "mark_overridden_nonmodkeys_for_eager_erasure st sts =
     fold (\<lambda>kc. map (mark_state kc)) (filter (\<lambda>k. \<not> is_mod k) (ovs_remove st)) sts"

end
