(* ===== verification/OverrideFacts.thy ===== *)
theory OverrideFacts
  imports Overrides
begin

text \<open>Properties of key overrides: which override applies, what replaces the keys, errors.\<close>

section \<open>Masks are sets of modifiers\<close>

definition mod_bit :: "oscode \<Rightarrow> nat option" where
  "mod_bit k =
     (if k = LCtrl then Some 0 else if k = LShift then Some 1 else if k = LAlt then Some 2
      else if k = LGui then Some 3 else if k = RCtrl then Some 4 else if k = RShift then Some 5
      else if k = RAlt then Some 6 else if k = RGui then Some 7 else None)"

lemma mask_for_key_mod_bit: "mask_for_key k = map_option (\<lambda>n. push_bit n 1) (mod_bit k)"
  by (simp add: mask_for_key_def mod_bit_def)

lemma mod_bit_is_mod: "is_mod k \<longleftrightarrow> mod_bit k \<noteq> None"
  by (simp add: is_mod_def mod_bit_def)

lemma mod_bit_inj: "mod_bit a = Some n \<Longrightarrow> mod_bit b = Some n \<Longrightarrow> a = b"
  by (auto simp: mod_bit_def split: if_splits)

lemma mod_bit_less: "mod_bit k = Some n \<Longrightarrow> n < 8"
  by (auto simp: mod_bit_def split: if_splits)

lemma mask_none: "mask_for_key k = None \<longleftrightarrow> \<not> is_mod k"
  by (simp add: mask_for_key_mod_bit mod_bit_is_mod)

definition has_mods :: "u8 \<Rightarrow> oscode set \<Rightarrow> bool" where
  "has_mods w M \<longleftrightarrow> (\<forall>n. bit w n \<longleftrightarrow> (\<exists>m \<in> M. mod_bit m = Some n))"

lemma has_mods_0: "has_mods 0 {}"
  by (simp add: has_mods_def)

lemma has_mods_or:
  assumes "has_mods w M" and "mask_for_key k = Some m"
  shows "has_mods (w OR m) (insert k M)"
proof -
  obtain i where i: "mod_bit k = Some i" "m = push_bit i 1"
    using assms(2) by (auto simp: mask_for_key_mod_bit)
  then have "bit m n \<longleftrightarrow> mod_bit k = Some n" for n
    using mod_bit_less [OF i(1)] by (auto simp: bit_exp_iff possible_bit_word)
  then show ?thesis using assms(1) by (auto simp: has_mods_def bit_or_iff)
qed

lemma has_mods_skip: "has_mods w M \<Longrightarrow> mask_for_key k = None \<Longrightarrow> has_mods w (insert k M)"
  by (auto simp: has_mods_def mask_for_key_mod_bit)

lemma or_masks_mods:
  "list_all is_mod ms \<Longrightarrow> has_mods w M \<Longrightarrow> \<exists>w'. fold_res or_mask ms w = Inr w' \<and> has_mods w' (set ms \<union> M)"
proof (induction ms arbitrary: w M)
  case Nil
  then show ?case by simp
next
  case (Cons k ms)
  obtain m where m: "mask_for_key k = Some m" using Cons.prems(1) mask_none [of k] by auto
  then show ?case
    using Cons.IH [OF _ has_mods_or [OF Cons.prems(2) m]] Cons.prems(1) by (simp add: or_mask_def)
qed

lemma has_mods_bit: "has_mods w M \<Longrightarrow> mod_bit k = Some n \<Longrightarrow> bit w n \<longleftrightarrow> k \<in> M"
  unfolding has_mods_def using mod_bit_inj by metis

text \<open>What the bits of one mask imply about another one, in terms of the sets.\<close>

lemma masks_all:
  assumes "has_mods a A" and "has_mods b B" and "\<forall>k \<in> A. is_mod k"
  shows "(\<forall>n. bit a n \<longrightarrow> P (bit b n)) \<longleftrightarrow> (\<forall>k \<in> A. P (k \<in> B))"
proof
  assume all: "\<forall>n. bit a n \<longrightarrow> P (bit b n)"
  show "\<forall>k \<in> A. P (k \<in> B)"
  proof
    fix k assume "k \<in> A"
    moreover from this obtain n where n: "mod_bit k = Some n" using assms(3) mod_bit_is_mod by auto
    ultimately have "bit a n" using has_mods_bit [OF assms(1) n] by simp
    then show "P (k \<in> B)" using all has_mods_bit [OF assms(2) n] by auto
  qed
next
  assume all: "\<forall>k \<in> A. P (k \<in> B)"
  show "\<forall>n. bit a n \<longrightarrow> P (bit b n)"
  proof (intro allI impI)
    fix n assume "bit a n"
    then obtain k where k: "k \<in> A" "mod_bit k = Some n" using assms(1) unfolding has_mods_def by blast
    then show "P (bit b n)" using all has_mods_bit [OF assms(2) k(2)] by auto
  qed
qed

lemma masks_subset:
  assumes "has_mods a A" and "has_mods b B" and "\<forall>k \<in> A. is_mod k"
  shows "a AND b = a \<longleftrightarrow> A \<subseteq> B"
proof -
  have "a AND b = a \<longleftrightarrow> (\<forall>n. bit a n \<longrightarrow> bit b n)"
    using bit_imp_le_length [of a] by (auto simp: bit_eq_iff bit_and_iff)
  then show ?thesis using masks_all [OF assms, of "\<lambda>x. x"] by auto
qed

lemma masks_disjoint:
  assumes "has_mods a A" and "has_mods b B" and "\<forall>k \<in> A. is_mod k"
  shows "a AND b = 0 \<longleftrightarrow> A \<inter> B = {}"
proof -
  have "a AND b = 0 \<longleftrightarrow> (\<forall>n. bit a n \<longrightarrow> \<not> bit b n)"
    using bit_imp_le_length [of a] by (auto simp: bit_eq_iff bit_and_iff)
  then show ?thesis using masks_all [OF assms, of Not] by auto
qed

section \<open>Which override applies\<close>

definition override_ok :: "override \<Rightarrow> bool" where
  "override_ok ov \<longleftrightarrow> list_all is_mod (ov_in_mods ov)
     \<and> list_all is_mod (case ov_excluded_mods ov of Some ms \<Rightarrow> ms | None \<Rightarrow> [])"

text \<open>The override is meant for this situation: all its modifiers are pressed, none of the excluded
  ones is, and the layer is not excluded.\<close>

definition meant_for :: "oscode set \<Rightarrow> u16 \<Rightarrow> override \<Rightarrow> bool" where
  "meant_for pressed layer ov \<longleftrightarrow>
     set (ov_in_mods ov) \<subseteq> pressed
     \<and> set (case ov_excluded_mods ov of Some ms \<Rightarrow> ms | None \<Rightarrow> []) \<inter> pressed = {}
     \<and> layer \<notin> set (case ov_excluded_layers ov of Some ls \<Rightarrow> ls | None \<Rightarrow> [])"

lemma override_applies_meant:
  assumes "override_ok ov" and "has_mods w M"
  shows "override_applies w layer ov = Inr (meant_for M layer ov)"
proof -
  obtain a where a: "get_mod_mask ov = Inr a" "has_mods a (set (ov_in_mods ov))"
    using or_masks_mods [OF _ has_mods_0] assms(1) by (fastforce simp: override_ok_def get_mod_mask_def)
  obtain b where b: "get_excluded_mod_mask ov = Inr b"
    "has_mods b (set (case ov_excluded_mods ov of Some ms \<Rightarrow> ms | None \<Rightarrow> []))"
    using or_masks_mods [OF _ has_mods_0] assms(1) has_mods_0
    by (fastforce simp: override_ok_def get_excluded_mod_mask_def split: option.splits)
  have "\<forall>k \<in> set (ov_in_mods ov). is_mod k"
    "\<forall>k \<in> set (case ov_excluded_mods ov of Some ms \<Rightarrow> ms | None \<Rightarrow> []). is_mod k"
    using assms(1) by (auto simp: override_ok_def list_all_iff)
  note m = masks_subset [OF a(2) assms(2) this(1)] masks_disjoint [OF b(2) assms(2) this(2)]
  show ?thesis
    using a(1) b(1) m by (auto simp: override_applies_def meant_for_def split: option.split)
qed

lemma find_res_find: "\<forall>x \<in> set xs. p x = Inr (P x) \<Longrightarrow> find_res p xs = Inr (find P xs)"
  by (induction xs) auto

lemma map_of_entry_push:
  "map_of (entry_push ov m) k =
     (if k = ov_in ov then Some (case map_of m k of Some os \<Rightarrow> os @ [ov] | None \<Rightarrow> [ov]) else map_of m k)"
  by (induction m rule: entry_push.induct [of _ ov, case_names Nil Cons]) auto

lemma map_of_overrides_new:
  "map_of (overrides_new ovs) k =
     (case filter (\<lambda>ov. ov_in ov = k) ovs of [] \<Rightarrow> None | os \<Rightarrow> Some os)"
proof -
  have "map_of (fold entry_push ovs m) k =
      (case map_of m k of
         Some os \<Rightarrow> Some (os @ filter (\<lambda>ov. ov_in ov = k) ovs)
       | None \<Rightarrow> (case filter (\<lambda>ov. ov_in ov = k) ovs of [] \<Rightarrow> None | os \<Rightarrow> Some os))" for m
    by (induction ovs arbitrary: m) (auto simp: map_of_entry_push split: option.split list.split)
  from this [of "[]"] show ?thesis by (simp add: overrides_new_def)
qed

lemma find_filter: "find P (filter Q xs) = find (\<lambda>x. Q x \<and> P x) xs"
  by (induction xs) auto

text \<open>The override that replaces a key: of those with this input key the last one that is meant for
  the situation.\<close>

definition override_for :: "override list \<Rightarrow> oscode set \<Rightarrow> u16 \<Rightarrow> oscode \<Rightarrow> override option" where
  "override_for ovs pressed layer k = find (\<lambda>ov. ov_in ov = k \<and> meant_for pressed layer ov) (rev ovs)"

lemma update_keys_for:
  assumes "list_all override_ok ovs" and "has_mods (ovs_mods st) M"
  shows "update_keys (overrides_new ovs) k layer st = Inr
    (case override_for ovs M layer k of
       None \<Rightarrow> st
     | Some ov \<Rightarrow> st\<lparr>ovs_add := add_override_keys ov (ovs_add st),
                     ovs_remove := add_removed_keys ov (ovs_remove st)\<rparr>)"
proof -
  have "find_res (override_applies (ovs_mods st) layer) (rev (filter (\<lambda>ov. ov_in ov = k) ovs))
      = Inr (find (meant_for M layer) (rev (filter (\<lambda>ov. ov_in ov = k) ovs)))"
    by (rule find_res_find) (use assms override_applies_meant in \<open>auto simp: list_all_iff\<close>)
  then have f: "find_res (override_applies (ovs_mods st) layer) (rev (filter (\<lambda>ov. ov_in ov = k) ovs))
      = Inr (override_for ovs M layer k)"
    by (simp add: override_for_def rev_filter find_filter)
  show ?thesis
  proof (cases "filter (\<lambda>ov. ov_in ov = k) ovs")
    case Nil
    then have "override_for ovs M layer k = None" using f by simp
    then show ?thesis using Nil by (simp add: update_keys_def map_of_overrides_new)
  next
    case (Cons ov os)
    then have "map_of (overrides_new ovs) k = Some (filter (\<lambda>ov. ov_in ov = k) ovs)"
      by (simp add: map_of_overrides_new)
    then show ?thesis using f by (simp add: update_keys_def split: option.split)
  qed
qed

section \<open>The keys after overriding\<close>

text \<open>The overrides that replace keys of a list, given the keys before it.\<close>

fun overrides_hit :: "override list \<Rightarrow> u16 \<Rightarrow> oscode set \<Rightarrow> oscode list \<Rightarrow> override list" where
  "overrides_hit ovs layer before [] = []"
| "overrides_hit ovs layer before (k # ks) =
     (if is_mod k then [] else case override_for ovs before layer k of Some ov \<Rightarrow> [ov] | None \<Rightarrow> [])
     @ overrides_hit ovs layer (insert k before) ks"

definition ov_inputs :: "override \<Rightarrow> oscode set" where
  "ov_inputs ov = insert (ov_in ov) (set (ov_in_mods ov))"

definition ov_outputs :: "override \<Rightarrow> oscode set" where
  "ov_outputs ov = insert (ov_out ov) (set (ov_out_mods ov))"

lemma set_fold_push_new: "set (fold push_new xs acc) = set xs \<union> set acc"
  by (induction xs arbitrary: acc) (auto simp: push_new_def)

lemma distinct_fold_push_new: "distinct acc \<Longrightarrow> distinct (fold push_new xs acc)"
  by (induction xs arbitrary: acc) (auto simp: push_new_def)

lemma add_keys_sets:
  "set (add_override_keys ov add) = ov_outputs ov \<union> set add"
  "set (add_removed_keys ov rem) = ov_inputs ov \<union> set rem"
  "distinct add \<Longrightarrow> distinct (add_override_keys ov add)"
  using set_fold_push_new [of "ov_out_mods ov" add] set_fold_push_new [of "ov_in_mods ov" rem]
    distinct_fold_push_new [of add "ov_out_mods ov"]
  by (auto simp: add_override_keys_def add_removed_keys_def push_new_def ov_outputs_def ov_inputs_def)

lemma override_updates_hit:
  assumes "list_all override_ok ovs"
  shows "has_mods (ovs_mods st) before \<Longrightarrow> distinct (ovs_add st) \<Longrightarrow>
    \<exists>st'. fold_res (override_update (overrides_new ovs) layer) kcs st = Inr st'
      \<and> set (ovs_remove st') = set (ovs_remove st) \<union> \<Union> (ov_inputs ` set (overrides_hit ovs layer before kcs))
      \<and> set (ovs_add st') = set (ovs_add st) \<union> \<Union> (ov_outputs ` set (overrides_hit ovs layer before kcs))
      \<and> distinct (ovs_add st')"
proof (induction kcs arbitrary: st before)
  case Nil
  then show ?case by simp
next
  case (Cons k kcs)
  show ?case
  proof (cases "mask_for_key k")
    case None
    let ?st = "case override_for ovs before layer k of
       None \<Rightarrow> st
     | Some ov \<Rightarrow> st\<lparr>ovs_add := add_override_keys ov (ovs_add st),
                     ovs_remove := add_removed_keys ov (ovs_remove st)\<rparr>"
    have "override_update (overrides_new ovs) layer k st = Inr ?st"
      using None update_keys_for [OF assms Cons.prems(1)] by (simp add: override_update_def)
    moreover have "has_mods (ovs_mods ?st) (insert k before)" "distinct (ovs_add ?st)"
      using has_mods_skip [OF Cons.prems(1) None] Cons.prems(2) add_keys_sets(3)
      by (auto split: option.split)
    moreover have "\<not> is_mod k" using None mask_none by simp
    ultimately show ?thesis
      using Cons.IH [of ?st "insert k before"]
      by (auto simp: add_keys_sets split: option.splits)
  next
    case (Some m)
    then have "is_mod k" using mask_none [of k] by simp
    moreover have "has_mods (ovs_mods (st\<lparr>ovs_mods := ovs_mods st OR m\<rparr>)) (insert k before)"
      using has_mods_or [OF Cons.prems(1) Some] by simp
    ultimately show ?thesis
      using Cons.IH [of "st\<lparr>ovs_mods := ovs_mods st OR m\<rparr>" "insert k before"] Cons.prems(2) Some
      by (simp add: override_update_def)
  qed
qed

text \<open>C24: What overriding does to the list of pressed keys. For every key that is no modifier the last
  override of that key is used all of whose modifiers come before the key in the list, none of
  whose excluded modifiers does, and whose excluded layers do not contain the active layer. The
  inputs of the overrides used, keys and modifiers, are removed, the other keys stay in their
  order, and behind them come the outputs of the overrides used, each once.\<close>

theorem override_keys_replaces:
  assumes "list_all override_ok ovs"
  shows "\<exists>added st'. override_keys (overrides_new ovs) kcs st layer
      = Inr (filter (\<lambda>k. k \<notin> \<Union> (ov_inputs ` set (overrides_hit ovs layer {} kcs))) kcs @ added, st')
    \<and> set added = \<Union> (ov_outputs ` set (overrides_hit ovs layer {} kcs)) \<and> distinct added"
    (is "\<exists>added st'. _ = Inr (filter (\<lambda>k. k \<notin> \<Union> (_ ` set ?hits)) _ @ _, _) \<and> _")
proof (cases "overrides_new ovs = []")
  case True
  then have "filter (\<lambda>ov. ov_in ov = k) ovs = []" for k
    using map_of_overrides_new [of ovs k] by (auto split: list.splits)
  then have "override_for ovs M layer k = None" for M k
    by (auto simp: override_for_def find_None_iff filter_empty_conv)
  then have "overrides_hit ovs layer M kcs = []" for M
    by (induction kcs arbitrary: M) auto
  then show ?thesis using True by (simp add: override_keys_def)
next
  case False
  obtain st' where "fold_res (override_update (overrides_new ovs) layer) kcs override_states_new = Inr st'"
    "set (ovs_remove st') = \<Union> (ov_inputs ` set ?hits)" "set (ovs_add st') = \<Union> (ov_outputs ` set ?hits)"
    "distinct (ovs_add st')"
    using override_updates_hit [OF assms(1), of override_states_new "{}" layer kcs] has_mods_0
    by (auto simp: override_states_new_def)
  then show ?thesis using False by (simp add: override_keys_def)
qed

definition shift_override :: override where
  "shift_override = \<lparr>ov_in = 2, ov_out = 30, ov_in_mods = [LShift], ov_out_mods = [LCtrl],
     ov_excluded_mods = Some [RAlt], ov_excluded_layers = None\<rparr>"

text \<open>Shift pressed before \<open>2\<close>: both are replaced. The other order: nothing happens.\<close>

theorem override_keys_replaces_witness:
  "\<exists>added st'. override_keys (overrides_new [shift_override]) [LShift, 57, 2] override_states_new 0
       = Inr ([57] @ added, st') \<and> set added = {30, LCtrl} \<and> distinct added"
  using override_keys_replaces [of "[shift_override]" "[LShift, 57, 2]" override_states_new 0]
  by (simp add: override_ok_def shift_override_def is_mod_def keycode_defs override_for_def meant_for_def
      ov_inputs_def ov_outputs_def)

section \<open>Construction\<close>

text \<open>An override that was constructed replaces what was written: its inputs and outputs are the
  keys of the two lists, it is meant for the situations in which the input modifiers are pressed,
  the excluded ones are not and the layer is not excluded, and it never makes the evaluation
  panic.\<close>

theorem constructed_override_meaning:
  assumes "override_try_new_v2 ins outs excl layers = Inr ov" and "list_all is_mod excl"
  shows "ov_inputs ov = set ins \<and> ov_outputs ov = set outs \<and> override_ok ov
    \<and> meant_for pressed layer ov =
        ((\<forall>k \<in> set ins. is_mod k \<longrightarrow> k \<in> pressed) \<and> (\<forall>k \<in> set excl. k \<notin> pressed) \<and> layer \<notin> set layers)"
proof -
  from assms(1) obtain k out where f: "filter (\<lambda>k. \<not> is_mod k) ins = [k]" "filter (\<lambda>k. \<not> is_mod k) outs = [out]"
    and ov: "ov = \<lparr>ov_in = k, ov_out = out, ov_in_mods = filter is_mod ins,
        ov_out_mods = filter is_mod outs, ov_excluded_mods = Some excl, ov_excluded_layers = Some layers\<rparr>"
    by (auto simp: override_try_new_v2_def override_try_new_def and_then_Inr_iff mask_none split: list.splits)
  have "set (filter (\<lambda>k. \<not> is_mod k) xs) = {x} \<Longrightarrow> insert x (set (filter is_mod xs)) = set xs"
    for x and xs :: "oscode list" by auto
  from this [of ins k] this [of outs out] f
  have "insert k (set (filter is_mod ins)) = set ins" "insert out (set (filter is_mod outs)) = set outs"
    by simp_all
  moreover have "override_ok ov" using assms(2) by (simp add: ov override_ok_def list_all_iff)
  ultimately show ?thesis by (auto simp: ov ov_inputs_def ov_outputs_def meant_for_def)
qed

theorem constructed_override_meaning_witness:
  "ov_inputs (shift_override\<lparr>ov_excluded_layers := Some []\<rparr>) = {LShift, 2}"
  using constructed_override_meaning [of "[LShift, 2]" "[LCtrl, 30]" "[RAlt]" "[]"
      "shift_override\<lparr>ov_excluded_layers := Some []\<rparr>"]
  by (simp add: override_try_new_v2_def override_try_new_def mask_none is_mod_def keycode_defs
      shift_override_def)

text \<open>Construction fails exactly when the inputs or the outputs do not contain exactly one key
  that is no modifier, and the error says which: none or several, inputs before outputs.\<close>

theorem override_construction_errors:
  "override_try_new ins outs = Inl e \<longleftrightarrow>
     e = (let i = length (filter (\<lambda>k. \<not> is_mod k) ins) in
          if i = 0 then NoInputKey else if i \<noteq> 1 then ManyInputKeys
          else if filter (\<lambda>k. \<not> is_mod k) outs = [] then NoOutputKey else ManyOutputKeys)
     \<and> \<not> (length (filter (\<lambda>k. \<not> is_mod k) ins) = 1 \<and> length (filter (\<lambda>k. \<not> is_mod k) outs) = 1)"
  by (auto simp: override_try_new_def mask_none Let_def length_Suc_conv split: list.split)

section \<open>Marking the states of removed keys\<close>

lemma or_absorb: "((f OR (a OR b)) AND a :: u8) = a" "((f OR (a OR b)) AND b :: u8) = b"
  by (auto simp: bit_eq_iff bit_and_iff bit_or_iff)

lemma mark_states_map: "fold (\<lambda>kc. map (mark_state kc)) ks sts = map (fold mark_state ks) sts"
  by (induction ks arbitrary: sts) simp_all

lemma mark_normal_key:
  "fold mark_state ks (NormalKey kc c f) = NormalKey kc c (if kc \<in> set ks
     then f OR (NORMAL_KEY_FLAG_CLEAR_ON_NEXT_ACTION OR NORMAL_KEY_FLAG_CLEAR_ON_NEXT_RELEASE) else f)"
  by (induction ks arbitrary: f) (simp_all add: or.assoc)

text \<open>After marking, the state of a key that an override removed (and that is no modifier) is
  cleared by the next action and by the next release of any key; the states of other keys are
  as before.\<close>

theorem marked_keys_cleared:
  assumes "i < length sts" and "sts ! i = NormalKey kc c flags"
  shows "\<exists>flags'. mark_overridden_nonmodkeys_for_eager_erasure st sts ! i = NormalKey kc c flags'
    \<and> (if kc \<in> set (ovs_remove st) \<and> \<not> is_mod kc
       then nkf_clear_on_next_action flags' \<and> clear_on_next_release (NormalKey kc c flags')
       else flags' = flags)"
  using assms mark_normal_key [of "filter (\<lambda>k. \<not> is_mod k) (ovs_remove st)" kc c flags]
  by (auto simp: mark_overridden_nonmodkeys_for_eager_erasure_def mark_states_map
      nkf_clear_on_next_action_def nkf_clear_on_next_release_def or_absorb)

theorem marked_keys_cleared_witness:
  "\<exists>flags'. mark_overridden_nonmodkeys_for_eager_erasure (override_states_new\<lparr>ovs_remove := [LShift, 2]\<rparr>)
      [NormalKey LShift (0, 42) 0, NormalKey 2 (0, 2) 0 :: nat state] ! 1 = NormalKey 2 (0, 2) flags'
     \<and> clear_on_next_release (NormalKey 2 (0, 2) flags' :: nat state)"
  using marked_keys_cleared [of 1 "[NormalKey LShift (0, 42) 0, NormalKey 2 (0, 2) 0 :: nat state]"
      2 "(0, 2)" 0 "override_states_new\<lparr>ovs_remove := [LShift, 2]\<rparr>"]
  by (auto simp: is_mod_def keycode_defs)

end
