(* ===== verification/SubsetMap.thy ===== *)
theory SubsetMap
  imports Prelude "HOL-Library.List_Lexorder"
begin

text \<open>
  The map whose keys are sets (\<open>parser/src/subset.rs\<close>): besides the value of a key it tells
  whether a key is a subset of a known key. Every known key is stored, with its value, under each
  of its members, in a vector sorted by the keys. The hash map is an association list, the order
  of keys is the lexicographic one of the library, and the binary search is that of the standard
  library's slices. The abstract view is the list of what was inserted.
\<close>

section \<open>Binary search\<close>

text \<open>\<open>slice::binary_search_by\<close>: \<open>Inr\<close> is \<open>Ok\<close>, the position of the key, \<open>Inl\<close> is \<open>Err\<close>, the
  position at which to insert it. \<open>base\<close> moves to the middle unless the element there is greater.\<close>

function search_loop :: "('k::linorder \<times> 'v) list \<Rightarrow> 'k \<Rightarrow> nat \<Rightarrow> nat \<Rightarrow> nat" where
  "search_loop vec key base sz =
     (if sz \<le> 1 then base
      else
        let half = sz div 2; mid = base + half in
        search_loop vec key (if key < fst (vec ! mid) then base else mid) (sz - half))"
  by auto
termination by (relation "measure (\<lambda>(vec, key, base, sz). sz)") auto

declare search_loop.simps [simp del]

definition binary_search :: "('k::linorder \<times> 'v) list \<Rightarrow> 'k \<Rightarrow> nat + nat" where
  "binary_search vec key =
     (if vec = [] then Inl 0
      else
        let base = search_loop vec key 0 (length vec) in
        if fst (vec ! base) = key then Inr base
        else Inl (if fst (vec ! base) < key then base + 1 else base))"

section \<open>The map\<close>

datatype 'v get_result = HasValue 'v | IsSubset | Neither

datatype existed = Existed | NotThere

type_synonym ('k, 'v) ssm = "('k \<times> ('k list \<times> 'v) list) list"

definition ssm_new :: "('k, 'v) ssm" where "ssm_new = []"

text \<open>\<open>entry(k).or_default()\<close>, changed by \<open>f\<close>.\<close>

fun entry_update :: "'k \<Rightarrow> ('w list \<Rightarrow> 'w list) \<Rightarrow> ('k \<times> 'w list) list \<Rightarrow> ('k \<times> 'w list) list" where
  "entry_update k f [] = [(k, f [])]"
| "entry_update k f ((k', w) # m) = (if k' = k then (k, f w) # m else (k', w) # entry_update k f m)"

definition entry_vec :: "('k \<times> 'w list) list \<Rightarrow> 'k \<Rightarrow> 'w list" where
  "entry_vec m k = (case map_of m k of Some w \<Rightarrow> w | None \<Rightarrow> [])"

definition store :: "'k::linorder list \<Rightarrow> 'v \<Rightarrow> ('k list \<times> 'v) list \<Rightarrow> ('k list \<times> 'v) list" where
  "store key val vec =
     (case binary_search vec key of
        Inr pos \<Rightarrow> vec[pos := (key, val)]
      | Inl pos \<Rightarrow> take pos vec @ (key, val) # drop pos vec)"

definition insert_step ::
  "'k::linorder list \<Rightarrow> 'v \<Rightarrow> 'k \<Rightarrow> ('k, 'v) ssm \<times> existed \<Rightarrow> ('k, 'v) ssm \<times> existed" where
  "insert_step key val k s =
     (entry_update k (store key val) (fst s),
      (case binary_search (entry_vec (fst s) k) key of Inr _ \<Rightarrow> Existed | Inl _ \<Rightarrow> snd s))"

definition ssm_insert_ksorted ::
  "'k::linorder list \<Rightarrow> 'v \<Rightarrow> ('k, 'v) ssm \<Rightarrow> ('k, 'v) ssm \<times> existed" where
  "ssm_insert_ksorted key val m = fold (insert_step key val) key (m, NotThere)"

definition ssm_insert :: "'k::linorder list \<Rightarrow> 'v \<Rightarrow> ('k, 'v) ssm \<Rightarrow> ('k, 'v) ssm \<times> existed" where
  "ssm_insert key val m = ssm_insert_ksorted (sort key) val m"

definition ssm_get_or_is_subset_ksorted :: "'k::linorder list \<Rightarrow> ('k, 'v) ssm \<Rightarrow> 'v get_result" where
  "ssm_get_or_is_subset_ksorted key m =
     (case key of
        [] \<Rightarrow> if m = [] then Neither else IsSubset
      | k # _ \<Rightarrow>
          (case map_of m k of
             None \<Rightarrow> Neither
           | Some vec \<Rightarrow>
               (case binary_search vec key of
                  Inr pos \<Rightarrow> HasValue (snd (vec ! pos))
                | Inl _ \<Rightarrow>
                    if list_ex (\<lambda>kv. list_all (\<lambda>x. x \<in> set (fst kv)) key) vec
                    then IsSubset else Neither)))"

definition ssm_get_or_is_subset :: "'k::linorder list \<Rightarrow> ('k, 'v) ssm \<Rightarrow> 'v get_result" where
  "ssm_get_or_is_subset key m = ssm_get_or_is_subset_ksorted (sort key) m"

section \<open>Binary search is correct\<close>

abbreviation strictly_sorted :: "('k::linorder \<times> 'v) list \<Rightarrow> bool" where
  "strictly_sorted vec \<equiv> sorted_wrt (<) (map fst vec)"

text \<open>What \<open>base\<close> and \<open>size\<close> mean: the key is not before \<open>base\<close>, and it is before \<open>base + size\<close>.\<close>

definition search_inv :: "('k::linorder \<times> 'v) list \<Rightarrow> 'k \<Rightarrow> nat \<Rightarrow> nat \<Rightarrow> bool" where
  "search_inv vec key base sz \<longleftrightarrow>
     0 < sz \<and> base + sz \<le> length vec
     \<and> (base = 0 \<or> fst (vec ! base) \<le> key)
     \<and> (base + sz = length vec \<or> key < fst (vec ! (base + sz)))"

lemma strictly_sorted_less:
  "strictly_sorted vec \<Longrightarrow> i < j \<Longrightarrow> j < length vec \<Longrightarrow> fst (vec ! i) < fst (vec ! j)"
  by (fastforce simp: sorted_wrt_iff_nth_less)

lemma search_inv_step:
  assumes "strictly_sorted vec" and "search_inv vec key base sz" and "1 < sz"
  shows "search_inv vec key (if key < fst (vec ! (base + sz div 2)) then base else base + sz div 2)
           (sz - sz div 2)"
proof (cases "key < fst (vec ! (base + sz div 2))")
  case True
  have "key < fst (vec ! (base + (sz - sz div 2)))" if "base + (sz - sz div 2) < length vec"
  proof (cases "sz - sz div 2 = sz div 2")
    case False
    then have "base + sz div 2 < base + (sz - sz div 2)" by linarith
    from strictly_sorted_less [OF assms(1) this that] True show ?thesis by simp
  qed (use True in simp)
  moreover have "base + (sz - sz div 2) \<le> length vec" using assms(2) by (auto simp: search_inv_def)
  ultimately have "base + (sz - sz div 2) = length vec \<or> key < fst (vec ! (base + (sz - sz div 2)))"
    by (metis le_neq_implies_less)
  then show ?thesis using assms True by (auto simp: search_inv_def)
next
  case False
  then show ?thesis using assms by (auto simp: search_inv_def)
qed

lemma search_loop_inv:
  assumes "strictly_sorted vec"
  shows "search_inv vec key base sz \<Longrightarrow> search_inv vec key (search_loop vec key base sz) 1"
proof (induction sz arbitrary: base rule: less_induct)
  case (less sz)
  show ?case
  proof (cases "sz \<le> 1")
    case True
    then have "sz = 1" using less.prems by (simp add: search_inv_def)
    then show ?thesis using less.prems by (simp add: search_loop.simps)
  next
    case False
    then show ?thesis
      using less.IH [OF _ search_inv_step [OF assms less.prems]]
      by (simp add: search_loop.simps [of vec key base sz] Let_def)
  qed
qed

text \<open>What the search finds: the position of the key, or the place where it belongs.\<close>

lemma binary_search_Ok:
  assumes "strictly_sorted vec" and "binary_search vec key = Inr pos"
  shows "pos < length vec \<and> fst (vec ! pos) = key"
proof -
  have "vec \<noteq> []" using assms(2) by (auto simp: binary_search_def)
  then have "search_inv vec key 0 (length vec)" by (simp add: search_inv_def)
  from search_loop_inv [OF assms(1) this] show ?thesis
    using assms(2) by (auto simp: binary_search_def search_inv_def Let_def split: if_splits)
qed

lemma binary_search_Err:
  assumes "strictly_sorted vec" and "binary_search vec key = Inl pos"
  shows "pos \<le> length vec \<and> (\<forall>kv \<in> set (take pos vec). fst kv < key)
     \<and> (\<forall>kv \<in> set (drop pos vec). key < fst kv)"
proof (cases "vec = []")
  case True
  then show ?thesis using assms(2) by (simp add: binary_search_def)
next
  case False
  then have "search_inv vec key 0 (length vec)" by (simp add: search_inv_def)
  define b where "b = search_loop vec key 0 (length vec)"
  have b: "b < length vec" "b = 0 \<or> fst (vec ! b) \<le> key" "b + 1 = length vec \<or> key < fst (vec ! (b + 1))"
    using search_loop_inv [OF assms(1) \<open>search_inv vec key 0 (length vec)\<close>]
    by (auto simp: search_inv_def b_def)
  have pos: "fst (vec ! b) \<noteq> key" "pos = (if fst (vec ! b) < key then b + 1 else b)"
    using assms(2) False by (auto simp: binary_search_def b_def Let_def split: if_splits)
  have 1: "fst (vec ! i) < key" if "i < pos" for i
  proof -
    have "fst (vec ! b) < key" using that pos b(2) by (auto split: if_splits)
    then show ?thesis using strictly_sorted_less [OF assms(1), of i b] that pos b(1)
      by (cases "i = b") (auto split: if_splits)
  qed
  have 2: "key < fst (vec ! i)" if "pos \<le> i" "i < length vec" for i
  proof -
    have "key < fst (vec ! pos)" using pos b that by (auto split: if_splits)
    then show ?thesis using strictly_sorted_less [OF assms(1), of pos i] that by (cases "i = pos") auto
  qed
  have "pos \<le> length vec" using pos b(1) by auto
  moreover have "\<forall>kv \<in> set (take pos vec). fst kv < key"
    using 1 by (metis in_set_conv_nth length_take min_less_iff_conj nth_take)
  moreover have "\<forall>kv \<in> set (drop pos vec). key < fst kv"
    using 2 \<open>pos \<le> length vec\<close> by (auto simp: all_set_conv_all_nth)
  ultimately show ?thesis by blast
qed

section \<open>The vectors\<close>

text \<open>A vector holds exactly the pairs of the partial function \<open>S\<close> with \<open>P\<close> on their keys.\<close>

lemma store_sorted:
  assumes "strictly_sorted vec"
  shows "strictly_sorted (store key val vec)"
proof (cases "binary_search vec key")
  case (Inl pos)
  from binary_search_Err [OF assms this] assms
  have "sorted_wrt (<) (map fst (take pos vec @ drop pos vec))" by simp
  then show ?thesis using Inl binary_search_Err [OF assms Inl]
    by (fastforce simp: store_def sorted_wrt_append simp del: append_take_drop_id)
next
  case (Inr pos)
  from binary_search_Ok [OF assms this] have "map fst (vec[pos := (key, val)]) = map fst vec"
    by (simp add: map_update list_update_same_conv)
  then show ?thesis using Inr assms by (simp add: store_def)
qed

lemma sorted_map_of_set:
  "strictly_sorted vec \<Longrightarrow> map_of vec k = Some v \<longleftrightarrow> (k, v) \<in> set vec"
  by (rule map_of_eq_Some_iff) (simp add: strict_sorted_iff)

lemma binary_search_known:
  assumes "strictly_sorted vec"
  shows "(\<exists>pos. binary_search vec key = Inr pos) \<longleftrightarrow> key \<in> fst ` set vec"
proof (cases "binary_search vec key")
  case (Inl pos)
  have "key \<notin> fst ` (set (take pos vec) \<union> set (drop pos vec))"
    using binary_search_Err [OF assms Inl] by (auto simp del: set_take_subset)
  then have "key \<notin> fst ` set (take pos vec @ drop pos vec)" by (simp only: set_append) simp
  then show ?thesis using Inl by simp
next
  case (Inr pos)
  then show ?thesis using binary_search_Ok [OF assms Inr] by (auto intro!: rev_image_eqI)
qed

lemma map_of_store:
  assumes "strictly_sorted vec"
  shows "map_of (store key val vec) = (map_of vec)(key \<mapsto> val)"
proof (cases "binary_search vec key")
  case (Inl pos)
  have "key \<notin> fst ` set (take pos vec)" using binary_search_Err [OF assms Inl] by fastforce
  then have "map_of (take pos vec) key = None" by (simp add: map_of_eq_None_iff)
  then have "map_of (take pos vec @ (key, val) # drop pos vec)
      = (map_of (take pos vec @ drop pos vec))(key \<mapsto> val)"
    by (auto simp: map_add_def fun_eq_iff simp del: append_take_drop_id split: option.split)
  then show ?thesis using Inl by (simp add: store_def)
next
  case (Inr pos)
  have p: "pos < length vec" "fst (vec ! pos) = key" using binary_search_Ok [OF assms Inr] by auto
  have d: "distinct (map fst vec)" using assms by (simp add: strict_sorted_iff)
  have "map fst (vec[pos := (key, val)]) = map fst vec"
    using p by (simp add: map_update list_update_same_conv)
  then have d': "distinct (map fst (vec[pos := (key, val)]))" using d by simp
  have "map_of (vec[pos := (key, val)]) k = ((map_of vec)(key \<mapsto> val)) k" for k
  proof (cases "k = key")
    case True
    have "(key, val) \<in> set (vec[pos := (key, val)])" using p by (simp add: set_update_memI)
    then show ?thesis using True d' by simp
  next
    case False
    have "map_of (vec[pos := (key, val)]) k = Some v \<longleftrightarrow> map_of vec k = Some v" for v
    proof -
      have "(k, v) \<in> set (vec[pos := (key, val)]) \<longleftrightarrow> (k, v) \<in> set vec"
        using p False by (auto simp: in_set_conv_nth nth_list_update split: if_splits)
          (metis fst_conv nth_list_update_neq)
      then show ?thesis using d d' by simp
    qed
    then show ?thesis using False
      by (cases "map_of vec k"; cases "map_of (vec[pos := (key, val)]) k") auto
  qed
  then show ?thesis using Inr by (auto simp: store_def)
qed

section \<open>The vectors of the map\<close>

text \<open>Every vector is sorted, and \<open>A k\<close> is what the vector of \<open>k\<close> holds. A vector is never empty.\<close>

definition holds :: "('k::linorder, 'v) ssm \<Rightarrow> ('k \<Rightarrow> 'k list \<rightharpoonup> 'v) \<Rightarrow> bool" where
  "holds m A \<longleftrightarrow>
     (\<forall>k. strictly_sorted (entry_vec m k) \<and> map_of (entry_vec m k) = A k)
     \<and> (\<forall>kw \<in> set m. snd kw \<noteq> [])"

lemma holdsD:
  assumes "holds m A"
  shows "strictly_sorted (entry_vec m k)" "map_of (entry_vec m k) = A k"
  using assms by (simp_all add: holds_def)

lemma holds_new: "holds ssm_new (\<lambda>k. Map.empty)"
  by (simp add: holds_def ssm_new_def entry_vec_def)

lemma map_of_entry_update:
  "map_of (entry_update k f m) k' = (if k' = k then Some (f (entry_vec m k)) else map_of m k')"
  by (induction m) (auto simp: entry_vec_def)

lemma entry_vec_update [simp]:
  "entry_vec (entry_update k f m) k' = (if k' = k then f (entry_vec m k) else entry_vec m k')"
  by (simp add: entry_vec_def map_of_entry_update)

lemma entry_update_nonempty:
  "(\<forall>kw \<in> set m. snd kw \<noteq> []) \<Longrightarrow> (\<And>w. f w \<noteq> []) \<Longrightarrow> \<forall>kw \<in> set (entry_update k f m). snd kw \<noteq> []"
  by (induction k f m rule: entry_update.induct) simp_all

lemma store_nonempty: "store key val w \<noteq> []"
  by (auto simp: store_def binary_search_def Let_def split: sum.split)

lemma holds_step:
  assumes "holds m A"
  shows "holds (fst (insert_step key val k (m, e))) (A(k := (A k)(key \<mapsto> val)))"
  using assms entry_update_nonempty [of m "store key val" k, OF _ store_nonempty]
  by (simp add: holds_def insert_step_def store_sorted map_of_store)

lemma step_existed:
  assumes "holds m A"
  shows "snd (insert_step key val k (m, e)) = Existed \<longleftrightarrow> A k key \<noteq> None \<or> e = Existed"
proof -
  have "A k key \<noteq> None \<longleftrightarrow> key \<in> fst ` set (entry_vec m k)"
    using holdsD(2) [OF assms, of k] by (metis map_of_eq_None_iff)
  also have "\<dots> \<longleftrightarrow> (\<exists>pos. binary_search (entry_vec m k) key = Inr pos)"
    by (rule binary_search_known [OF holdsD(1) [OF assms], symmetric])
  finally show ?thesis by (auto simp: insert_step_def split: sum.split)
qed

lemma holds_insert_steps:
  "holds m A \<Longrightarrow>
   holds (fst (fold (insert_step key val) ks (m, e)))
     (\<lambda>k. if k \<in> set ks then (A k)(key \<mapsto> val) else A k)
   \<and> (snd (fold (insert_step key val) ks (m, e)) = Existed \<longleftrightarrow>
        e = Existed \<or> (\<exists>k \<in> set ks. A k key \<noteq> None) \<or> \<not> distinct ks)"
proof (induction ks arbitrary: m A e)
  case Nil
  then show ?case by simp
next
  case (Cons k ks)
  obtain m' e' where s: "insert_step key val k (m, e) = (m', e')" by force
  have m': "holds m' (A(k := (A k)(key \<mapsto> val)))"
    and e': "e' = Existed \<longleftrightarrow> A k key \<noteq> None \<or> e = Existed"
    using holds_step [OF Cons.prems, of key val k e] step_existed [OF Cons.prems, of key val k e]
    by (simp_all add: s)
  have "(\<lambda>j. if j \<in> set ks then ((A(k := (A k)(key \<mapsto> val))) j)(key \<mapsto> val) else (A(k := (A k)(key \<mapsto> val))) j)
      = (\<lambda>j. if j \<in> set (k # ks) then (A j)(key \<mapsto> val) else A j)"
    by (auto simp: fun_eq_iff)
  then show ?case using Cons.IH [OF m', of e'] e' by (auto simp: s)
qed

section \<open>The abstract map\<close>

text \<open>What was inserted last with the same members, and which keys are known. An insertion of an
  empty key has no effect.\<close>

definition known :: "('k::linorder list \<times> 'v) list \<Rightarrow> 'k list \<rightharpoonup> 'v" where
  "known hist = map_of (rev (map (\<lambda>(key, v). (sort key, v)) (filter (\<lambda>kv. fst kv \<noteq> []) hist)))"

definition ssm_inserts :: "('k::linorder list \<times> 'v) list \<Rightarrow> ('k, 'v) ssm" where
  "ssm_inserts hist = fold (\<lambda>(key, v) m. fst (ssm_insert key v m)) hist ssm_new"

lemma known_snoc:
  "known (hist @ [(key, v)]) = (if key = [] then known hist else (known hist)(sort key \<mapsto> v))"
  by (simp add: known_def)

lemma known_Nil [simp]: "known hist [] = None"
proof -
  have "[] \<notin> fst ` set (map (\<lambda>(key, v). (sort key, v)) (filter (\<lambda>kv. fst kv \<noteq> []) hist))"
    by (auto dest: arg_cong [of _ _ length])
  then show ?thesis by (simp add: known_def map_of_eq_None_iff del: set_map)
qed

lemma dom_known: "dom (known hist) = {sort key | key v. (key, v) \<in> set hist \<and> key \<noteq> []}"
proof -
  have "dom (known hist) = (\<lambda>kv. sort (fst kv)) ` {kv \<in> set hist. fst kv \<noteq> []}"
    by (auto simp: known_def dom_map_of_conv_image_fst image_image case_prod_unfold)
  then show ?thesis by (simp add: setcompr_eq_image image_def)
qed

abbreviation containing :: "'k \<Rightarrow> 'k list set" where
  "containing k \<equiv> {key. k \<in> set key}"

lemma holds_inserts: "holds (ssm_inserts hist) (\<lambda>k. known hist |` containing k)"
proof (induction hist rule: rev_induct)
  case Nil
  show ?case using holds_new by (simp add: ssm_inserts_def known_def)
next
  case (snoc kv hist)
  obtain key v where kv: "kv = (key, v)" by force
  have "(\<lambda>k. if k \<in> set (sort key) then (known hist |` containing k)(sort key \<mapsto> v)
        else known hist |` containing k) = (\<lambda>k. known (hist @ [kv]) |` containing k)"
    by (auto simp: kv known_snoc fun_eq_iff restrict_map_def)
  moreover have "ssm_inserts (hist @ [kv])
      = fst (fold (insert_step (sort key) v) (sort key) (ssm_inserts hist, NotThere))"
    by (simp add: ssm_inserts_def kv ssm_insert_def ssm_insert_ksorted_def)
  ultimately show ?case
    using holds_insert_steps [OF snoc, of "sort key" v "sort key" NotThere] by simp
qed

lemma holds_empty:
  assumes "holds m A"
  shows "m = [] \<longleftrightarrow> (\<forall>k. A k = Map.empty)"
proof -
  have "m = [] \<longleftrightarrow> (\<forall>k. entry_vec m k = [])"
  proof
    assume e: "\<forall>k. entry_vec m k = []"
    show "m = []"
    proof (cases m)
      case (Cons kw m')
      then have "snd kw \<noteq> []" using assms by (simp add: holds_def)
      then show ?thesis using e [rule_format, of "fst kw"] Cons by (cases kw) (simp add: entry_vec_def)
    qed
  qed (simp add: entry_vec_def)
  also have "\<dots> \<longleftrightarrow> (\<forall>k. A k = Map.empty)"
    using holdsD(2) [OF assms] by (metis map_of_eq_empty_iff)
  finally show ?thesis .
qed

lemma known_containing:
  "known hist |` containing k = Map.empty \<longleftrightarrow> \<not> (\<exists>key v. (key, v) \<in> set hist \<and> k \<in> set key)"
proof -
  have "known hist |` containing k \<noteq> Map.empty \<longleftrightarrow> dom (known hist) \<inter> containing k \<noteq> {}"
    by (metis dom_eq_empty_conv dom_restrict)
  also have "\<dots> \<longleftrightarrow> (\<exists>key' v. (key', v) \<in> set hist \<and> key' \<noteq> [] \<and> k \<in> set (sort key'))"
    unfolding dom_known by blast
  finally show ?thesis by auto
qed

abbreviation known_superset :: "'k list \<Rightarrow> ('k list \<times> 'v) list \<Rightarrow> bool" where
  "known_superset key hist \<equiv> list_ex (\<lambda>(key', v). key' \<noteq> [] \<and> set key \<subseteq> set key') hist"

lemma vector_superset:
  assumes "k \<in> set key" and "map_of vec = known hist |` containing k"
  shows "list_ex (\<lambda>kv. list_all (\<lambda>x. x \<in> set (fst kv)) key) vec \<longleftrightarrow> known_superset key hist"
proof -
  have "list_ex (\<lambda>kv. list_all (\<lambda>x. x \<in> set (fst kv)) key) vec \<longleftrightarrow>
      (\<exists>key' \<in> dom (map_of vec). set key \<subseteq> set key')"
    unfolding dom_map_of_conv_image_fst list_ex_iff list_all_iff by blast
  also have "\<dots> \<longleftrightarrow> (\<exists>key' \<in> dom (known hist). set key \<subseteq> set key')"
    using assms by auto
  also have "\<dots> \<longleftrightarrow> (\<exists>key' v. (key', v) \<in> set hist \<and> key' \<noteq> [] \<and> set key \<subseteq> set (sort key'))"
    unfolding dom_known by blast
  also have "\<dots> \<longleftrightarrow> known_superset key hist"
    unfolding list_ex_iff set_sort by blast
  finally show ?thesis .
qed

lemma get_ksorted_Cons:
  "ssm_get_or_is_subset_ksorted (k # ks) m =
     (case binary_search (entry_vec m k) (k # ks) of
        Inr pos \<Rightarrow> HasValue (snd (entry_vec m k ! pos))
      | Inl _ \<Rightarrow> if list_ex (\<lambda>kv. list_all (\<lambda>x. x \<in> set (fst kv)) (k # ks)) (entry_vec m k)
          then IsSubset else Neither)"
proof (cases "map_of m k")
  case None
  then show ?thesis by (simp add: ssm_get_or_is_subset_ksorted_def entry_vec_def binary_search_def)
next
  case (Some vec)
  then have "entry_vec m k = vec" by (simp add: entry_vec_def)
  show ?thesis unfolding \<open>entry_vec m k = vec\<close>
    using Some by (simp add: ssm_get_or_is_subset_ksorted_def)
qed

lemma binary_search_map_of:
  assumes "strictly_sorted vec"
  shows "map_of vec key =
     (case binary_search vec key of Inr pos \<Rightarrow> Some (snd (vec ! pos)) | Inl _ \<Rightarrow> None)"
proof (cases "binary_search vec key")
  case (Inl pos)
  then show ?thesis using binary_search_known [OF assms, of key] by (simp add: map_of_eq_None_iff)
next
  case (Inr pos)
  then show ?thesis
    using binary_search_Ok [OF assms Inr] sorted_map_of_set [OF assms] by (simp add: nth_mem prod_eq_iff)
      (metis nth_mem prod.collapse)
qed

lemma lookup_inserts:
  "ssm_get_or_is_subset key (ssm_inserts hist) =
     (case known hist (sort key) of
        Some v \<Rightarrow> HasValue v
      | None \<Rightarrow>
          if list_ex (\<lambda>(key', v). key' \<noteq> [] \<and> set key \<subseteq> set key') hist then IsSubset else Neither)"
proof (cases "sort key")
  case Nil
  then have "key = []" by (metis set_empty set_sort)
  have "ssm_inserts hist = [] \<longleftrightarrow> \<not> (\<exists>key' v. (key', v) \<in> set hist \<and> key' \<noteq> [])"
    unfolding holds_empty [OF holds_inserts] known_containing
    by (metis list.set_intros(1) neq_Nil_conv set_empty equals0D)
  then show ?thesis using Nil \<open>key = []\<close>
    by (auto simp: ssm_get_or_is_subset_def ssm_get_or_is_subset_ksorted_def list_ex_iff)
next
  case (Cons k ks)
  let ?vec = "entry_vec (ssm_inserts hist) k"
  note holds = holdsD [OF holds_inserts [of hist], of k]
  have ss: "set (k # ks) = set key" using Cons by (metis set_sort)
  have "known hist (k # ks) = map_of ?vec (k # ks)" by (simp add: holds(2))
  then have "known hist (k # ks) =
      (case binary_search ?vec (k # ks) of Inr pos \<Rightarrow> Some (snd (?vec ! pos)) | Inl _ \<Rightarrow> None)"
    unfolding binary_search_map_of [OF holds(1)] .
  moreover have "list_ex (\<lambda>kv. list_all (\<lambda>x. x \<in> set (fst kv)) (k # ks)) ?vec \<longleftrightarrow> known_superset key hist"
    using vector_superset [OF list.set_intros(1) holds(2), of ks] unfolding ss .
  ultimately show ?thesis
    unfolding ssm_get_or_is_subset_def Cons get_ksorted_Cons
    by (cases "binary_search ?vec (k # ks)") simp_all
qed

text \<open>C25: Looking up a key after any insertions gives the value inserted last for a key with the
  same members; if there is none it tells whether the members of the key are among those of an
  inserted key. The order of members does not matter, and an insertion of an empty key counts
  for nothing.\<close>

theorem subset_map_lookup:
  "ssm_get_or_is_subset key (ssm_inserts hist) =
     (case known hist (sort key) of
        Some v \<Rightarrow> HasValue v
      | None \<Rightarrow>
          if list_ex (\<lambda>(key', v). key' \<noteq> [] \<and> set key \<subseteq> set key') hist then IsSubset else Neither)"
  by (rule lookup_inserts)

text \<open>An insertion reports that the key existed exactly when a key with the same members was
  inserted before, or when a member occurs twice in the key itself.\<close>

theorem subset_map_insert_existed:
  "snd (ssm_insert key val (ssm_inserts hist)) = Existed \<longleftrightarrow>
     known hist (sort key) \<noteq> None \<or> \<not> distinct key"
proof -
  have "(\<exists>k \<in> set (sort key). (known hist |` containing k) (sort key) \<noteq> None)
      \<longleftrightarrow> known hist (sort key) \<noteq> None"
  proof (cases key)
    case (Cons a list)
    then have "a \<in> set (sort key)" by (simp only: set_sort) simp
    then show ?thesis unfolding restrict_map_def by auto
  qed simp
  then show ?thesis
    using holds_insert_steps [OF holds_inserts [of hist], of "sort key" val "sort key" NotThere]
    by (simp add: ssm_insert_def ssm_insert_ksorted_def)
qed

end
