(* ===== verification/Zippychord.thy ===== *)
theory Zippychord
  imports SubsetMap Keys
begin

text \<open>
  Zippychord (\<open>src/kanata/output_logic/zippychord.rs\<close>, with the types and the input keys of
  \<open>parser/src/cfg/zippychord.rs\<close>): the keys on their way to the operating system are watched, and
  when all keys of a chord are held, what was typed is erased and the output of the chord is
  typed. The functions return the events they send. The character counts are integers checked
  to be in the range of \<open>i16\<close>.
\<close>

section \<open>Keys, outputs and chords\<close>

definition KEY_ESC :: u16 where "KEY_ESC = 1"
definition KEY_BACKSPACE :: u16 where "KEY_BACKSPACE = 14"
definition KEY_DELETE :: u16 where "KEY_DELETE = 111"
definition KEY_SPACE :: u16 where "KEY_SPACE = 57"

definition is_zippy_ignored :: "u16 \<Rightarrow> bool" where
  "is_zippy_ignored k \<longleftrightarrow>
     k = LShift \<or> k = RShift \<or> k = LGui \<or> k = RGui \<or> k = LCtrl \<or> k = RCtrl \<or> k = LAlt \<or> k = RAlt
     \<or> k = KEY_ESC \<or> k = KEY_BACKSPACE \<or> k = KEY_DELETE"

datatype zch_output =
  Lowercase u16 | Uppercase u16 | AltGr u16 | ShiftAltGr u16
| NoEraseLowercase u16 | NoEraseUppercase u16 | NoEraseAltGr u16 | NoEraseShiftAltGr u16

fun osc_and_is_noerase :: "zch_output \<Rightarrow> u16 \<times> bool" where
  "osc_and_is_noerase (Lowercase k) = (k, False)"
| "osc_and_is_noerase (Uppercase k) = (k, False)"
| "osc_and_is_noerase (AltGr k) = (k, False)"
| "osc_and_is_noerase (ShiftAltGr k) = (k, False)"
| "osc_and_is_noerase (NoEraseLowercase k) = (k, True)"
| "osc_and_is_noerase (NoEraseUppercase k) = (k, True)"
| "osc_and_is_noerase (NoEraseAltGr k) = (k, True)"
| "osc_and_is_noerase (NoEraseShiftAltGr k) = (k, True)"

definition zo_osc :: "zch_output \<Rightarrow> u16" where
  "zo_osc x = fst (osc_and_is_noerase x)"

definition output_char_count :: "zch_output \<Rightarrow> int" where
  "output_char_count x =
     (if zo_osc x = KEY_BACKSPACE then - 1 else if snd (osc_and_is_noerase x) then 0 else 1)"

text \<open>\<open>i16\<close> arithmetic: leaving the range panics.\<close>

definition chk16 :: "int \<Rightarrow> int res" where
  "chk16 x = (if - 32768 \<le> x \<and> x \<le> 32767 then Inr x else Inl Panic)"

definition display_len :: "zch_output list \<Rightarrow> int res" where
  "display_len outs = fold_res (\<lambda>x len. chk16 (len + output_char_count x)) outs 0"

text \<open>A chord's output and the chords that may follow it; the maps are those of \<open>subset.rs\<close>.\<close>

datatype zch_chord_output =
  ZchChordOutput (zc_output: "zch_output list")
    (zc_followups: "(u16 \<times> (u16 list \<times> zch_chord_output) list) list option")

type_synonym zch_possible_chords = "(u16, zch_chord_output) ssm"

datatype smart_space_cfg = SmartSpaceFull | AddSpaceOnly | SmartSpaceDisabled

record zch_config =
  zcfg_ticks_wait_enable :: u16
  zcfg_ticks_chord_deadline :: u16
  zcfg_smart_space :: smart_space_cfg
  zcfg_smart_space_punctuation :: "zch_output list"

section \<open>Dynamic state\<close>

datatype zch_enabled_state = Enabled | WaitEnable | Disabled

datatype zch_last_press = IsChord | NotChord

datatype zch_smart_space_state = SpaceInactive | SpaceSent

record zch_dyn =
  zd_input_keys :: "u16 list"
  zd_enabled_state :: zch_enabled_state
  zd_prioritized_chords :: "zch_possible_chords option"
  zd_prior_activation_output_count :: int
  zd_characters_to_delete :: int
  zd_prior_activation :: "zch_chord_output option"
  zd_ticks_since_state_change :: u16
  zd_ticks_until_enabled :: u16
  zd_ticks_until_disable :: u16
  zd_same_hold_activation_count :: u16
  zd_is_caps_word_active :: bool
  zd_is_lsft_active :: bool
  zd_is_rsft_active :: bool
  zd_is_altgr_active :: bool
  zd_last_press :: zch_last_press
  zd_smart_space_state :: zch_smart_space_state

text \<open>\<open>ZchSortedChord::zch_insert\<close>: the keys are sorted and distinct; the binary search is that of
  the keys paired with nothing.\<close>

definition zchik_insert :: "u16 \<Rightarrow> u16 list \<Rightarrow> u16 list" where
  "zchik_insert k ks =
     (case binary_search (map (\<lambda>x. (x, ())) ks) k of
        Inr pos \<Rightarrow> ks
      | Inl pos \<Rightarrow> take pos ks @ k # drop pos ks)"

definition zchik_remove :: "u16 \<Rightarrow> u16 list \<Rightarrow> u16 list" where
  "zchik_remove k ks = filter (\<lambda>x. x \<noteq> k) ks"

definition zchd_clear_history :: "zch_dyn \<Rightarrow> zch_dyn" where
  "zchd_clear_history d =
     d\<lparr>zd_characters_to_delete := 0, zd_prioritized_chords := None, zd_prior_activation := None,
       zd_prior_activation_output_count := 0\<rparr>"

definition zchd_soft_reset :: "zch_dyn \<Rightarrow> zch_dyn" where
  "zchd_soft_reset d =
     zchd_clear_history (d\<lparr>zd_last_press := NotChord, zd_enabled_state := Disabled, zd_input_keys := [],
       zd_ticks_since_state_change := 0, zd_ticks_until_disable := 0, zd_ticks_until_enabled := 0,
       zd_smart_space_state := SpaceInactive\<rparr>)"

definition zchd_reset :: "zch_dyn \<Rightarrow> zch_dyn" where
  "zchd_reset d =
     (zchd_soft_reset d)\<lparr>zd_is_caps_word_active := False, zd_is_lsft_active := False,
       zd_is_rsft_active := False, zd_is_altgr_active := False, zd_last_press := IsChord,
       zd_enabled_state := Enabled\<rparr>"

definition zch_dyn_default :: zch_dyn where
  "zch_dyn_default =
     \<lparr>zd_input_keys = [], zd_enabled_state = Enabled, zd_prioritized_chords = None,
      zd_prior_activation_output_count = 0, zd_characters_to_delete = 0, zd_prior_activation = None,
      zd_ticks_since_state_change = 0, zd_ticks_until_enabled = 0, zd_ticks_until_disable = 0,
      zd_same_hold_activation_count = 0, zd_is_caps_word_active = False, zd_is_lsft_active = False,
      zd_is_rsft_active = False, zd_is_altgr_active = False, zd_last_press = IsChord,
      zd_smart_space_state = SpaceInactive\<rparr>"

definition TICKS_UNTIL_FORCE_STATE_RESET :: u16 where "TICKS_UNTIL_FORCE_STATE_RESET = 10000"

definition zchd_tick_enabled :: "zch_dyn \<Rightarrow> zch_dyn" where
  "zchd_tick_enabled d =
     (case zd_enabled_state d of
        WaitEnable \<Rightarrow>
          let d = d\<lparr>zd_ticks_until_enabled := sat_sub (zd_ticks_until_enabled d) 1\<rparr> in
          if zd_ticks_until_enabled d = 0
          then d\<lparr>zd_enabled_state := Enabled, zd_ticks_until_disable := 0\<rparr> else d
      | Enabled \<Rightarrow>
          if zd_ticks_until_disable d > 0 then
            let d = d\<lparr>zd_ticks_until_disable := sat_sub (zd_ticks_until_disable d) 1\<rparr> in
            if zd_ticks_until_disable d = 0 then zchd_soft_reset d else d
          else d
      | Disabled \<Rightarrow> d)"

definition zchd_tick :: "bool \<Rightarrow> zch_dyn \<Rightarrow> zch_dyn res" where
  "zchd_tick caps d =
     and_then (checked_add (zd_ticks_since_state_change d) 1) (\<lambda>t.
       let d = zchd_tick_enabled (d\<lparr>zd_ticks_since_state_change := t, zd_is_caps_word_active := caps\<rparr>) in
       Inr (if zd_ticks_since_state_change d > TICKS_UNTIL_FORCE_STATE_RESET then zchd_reset d else d))"

definition zchd_state_change :: "zch_config \<Rightarrow> zch_dyn \<Rightarrow> zch_dyn" where
  "zchd_state_change cfg d =
     d\<lparr>zd_ticks_since_state_change := 0, zd_ticks_until_enabled := zcfg_ticks_wait_enable cfg\<rparr>"

definition zchd_activate_chord_deadline :: "u16 \<Rightarrow> zch_dyn \<Rightarrow> zch_dyn" where
  "zchd_activate_chord_deadline deadline d =
     (if zd_ticks_until_disable d = 0 then d\<lparr>zd_ticks_until_disable := deadline\<rparr> else d)"

definition zchd_is_idle :: "zch_dyn \<Rightarrow> bool" where
  "zchd_is_idle d \<longleftrightarrow> zd_enabled_state d = Enabled \<and> zd_input_keys d = []"

definition zchd_press_key :: "u16 \<Rightarrow> zch_dyn \<Rightarrow> zch_dyn" where
  "zchd_press_key k d = d\<lparr>zd_input_keys := zchik_insert k (zd_input_keys d)\<rparr>"

definition zchd_release_key :: "u16 \<Rightarrow> zch_dyn \<Rightarrow> zch_dyn" where
  "zchd_release_key k d0 =
     (let d = d0\<lparr>zd_input_keys := zchik_remove k (zd_input_keys d0)\<rparr> in
      case (zd_last_press d, zd_input_keys d = []) of
        (NotChord, True) \<Rightarrow> zchd_clear_history (d\<lparr>zd_enabled_state := WaitEnable\<rparr>)
      | (NotChord, False) \<Rightarrow> zchd_soft_reset d
      | (IsChord, True) \<Rightarrow>
          (if zd_prioritized_chords d = None then zchd_clear_history d else d)
            \<lparr>zd_characters_to_delete := 0, zd_ticks_until_disable := 0, zd_enabled_state := Enabled,
              zd_same_hold_activation_count := 0\<rparr>
      | (IsChord, False) \<Rightarrow> d\<lparr>zd_ticks_until_disable := 0\<rparr>)"

section \<open>Output\<close>

datatype kb_event = KbPress u16 | KbRelease u16

definition tap :: "u16 \<Rightarrow> kb_event list" where
  "tap k = [KbPress k, KbRelease k]"

definition type_osc :: "u16 \<Rightarrow> zch_dyn \<Rightarrow> kb_event list" where
  "type_osc k d = (if k \<in> set (zd_input_keys d) then [KbRelease k, KbPress k] else [KbPress k, KbRelease k])"

definition sft_during_activation :: "bool \<Rightarrow> zch_dyn \<Rightarrow> bool" where
  "sft_during_activation released d \<longleftrightarrow>
     \<not> zd_is_caps_word_active d \<and> (released \<or> \<not> zd_is_lsft_active d \<and> \<not> zd_is_rsft_active d)"

definition maybe_press_sft_during_activation :: "bool \<Rightarrow> zch_dyn \<Rightarrow> kb_event list" where
  "maybe_press_sft_during_activation released d =
     (if sft_during_activation released d then [KbPress LShift] else [])"

definition maybe_release_sft_during_activation :: "bool \<Rightarrow> zch_dyn \<Rightarrow> kb_event list" where
  "maybe_release_sft_during_activation released d =
     (if sft_during_activation released d then [KbRelease LShift] else [])"

definition type_with_sft :: "bool \<Rightarrow> zch_dyn \<Rightarrow> u16 \<Rightarrow> kb_event list" where
  "type_with_sft released d k =
     maybe_press_sft_during_activation released d @ type_osc k d @ maybe_release_sft_during_activation released d"

definition send_output :: "bool \<Rightarrow> zch_dyn \<Rightarrow> zch_output \<Rightarrow> kb_event list" where
  "send_output released d x =
     (case x of
        Lowercase k \<Rightarrow> type_osc k d
      | NoEraseLowercase k \<Rightarrow> type_osc k d
      | Uppercase k \<Rightarrow> type_with_sft released d k
      | NoEraseUppercase k \<Rightarrow> type_with_sft released d k
      | AltGr k \<Rightarrow> KbPress RAlt # type_osc k d @ [KbRelease RAlt]
      | NoEraseAltGr k \<Rightarrow> KbPress RAlt # type_osc k d @ [KbRelease RAlt]
      | ShiftAltGr k \<Rightarrow> KbPress RAlt # type_with_sft released d k @ [KbRelease RAlt]
      | NoEraseShiftAltGr k \<Rightarrow> KbPress RAlt # type_with_sft released d k @ [KbRelease RAlt])"

text \<open>The shift keys that are held are released after the first output.\<close>

definition release_sft :: "zch_dyn \<Rightarrow> kb_event list" where
  "release_sft d =
     (if zd_is_lsft_active d then [KbRelease LShift] else [])
     @ (if zd_is_rsft_active d then [KbRelease RShift] else [])"

fun send_outputs :: "bool \<Rightarrow> zch_output list \<Rightarrow> zch_dyn \<Rightarrow> (kb_event list \<times> zch_dyn) res" where
  "send_outputs released [] d = Inr ([], d)"
| "send_outputs released (x # xs) d =
     and_then (chk16 (zd_characters_to_delete d + output_char_count x)) (\<lambda>n.
     and_then
       (send_outputs (released \<or> \<not> zd_is_caps_word_active d) xs (d\<lparr>zd_characters_to_delete := n\<rparr>)) (\<lambda>(evs, d').
       Inr (send_output released d x
            @ (if \<not> released \<and> \<not> zd_is_caps_word_active d then release_sft d else []) @ evs, d')))"

section \<open>Presses and releases\<close>

fun common_prefix :: "zch_output list \<Rightarrow> zch_output list \<Rightarrow> nat" where
  "common_prefix (p # ps) (c # cs) =
     (if zo_osc p = KEY_BACKSPACE \<or> zo_osc c = KEY_BACKSPACE \<or> p \<noteq> c then 0
      else Suc (common_prefix ps cs))"
| "common_prefix _ _ = 0"

definition activation_prefix :: "bool \<Rightarrow> zch_chord_output \<Rightarrow> zch_dyn \<Rightarrow> int res" where
  "activation_prefix prioritized a d =
     (if \<not> prioritized \<and> zd_same_hold_activation_count d = 0 then Inr 0
      else
        (case zd_prior_activation d of
           None \<Rightarrow> Inr 0
         | Some p \<Rightarrow> chk16 (int (common_prefix (zc_output p) (zc_output a)))))"

text \<open>Erasing what was typed; an empty output erases nothing and types the key.\<close>

definition erase_typed ::
  "bool \<Rightarrow> zch_chord_output \<Rightarrow> int \<Rightarrow> u16 \<Rightarrow> zch_dyn \<Rightarrow> (kb_event list \<times> zch_dyn) res" where
  "erase_typed prioritized a prefix k d =
     (if zc_output a \<noteq> [] then
        and_then (chk16 (zd_characters_to_delete d + (if prioritized then zd_prior_activation_output_count d else 0)))
          (\<lambda>x.
        and_then (chk16 (x - prefix)) (\<lambda>n.
        and_then (display_len (zc_output a)) (\<lambda>len.
          Inr (concat (replicate (nat n) (tap KEY_BACKSPACE)),
               d\<lparr>zd_characters_to_delete := 0, zd_prior_activation_output_count := len\<rparr>))))
      else
        and_then (chk16 (zd_characters_to_delete d + 1)) (\<lambda>c.
        and_then (chk16 (zd_prior_activation_output_count d + int (length (zd_input_keys d)))) (\<lambda>n.
          Inr ([KbPress k], d\<lparr>zd_characters_to_delete := c, zd_prior_activation_output_count := n\<rparr>))))"

definition wants_smart_space :: "zch_config \<Rightarrow> zch_chord_output \<Rightarrow> bool" where
  "wants_smart_space cfg a \<longleftrightarrow>
     zcfg_smart_space cfg \<noteq> SmartSpaceDisabled \<and> zc_output a \<noteq> []
     \<and> zo_osc (last (zc_output a)) \<noteq> KEY_SPACE \<and> zo_osc (last (zc_output a)) \<noteq> KEY_BACKSPACE"

definition smart_space :: "zch_config \<Rightarrow> zch_chord_output \<Rightarrow> zch_dyn \<Rightarrow> (kb_event list \<times> zch_dyn) res" where
  "smart_space cfg a d =
     (if wants_smart_space cfg a then
        and_then (chk16 (zd_prior_activation_output_count d + 1)) (\<lambda>n.
        and_then (chk16 (zd_characters_to_delete d + 1)) (\<lambda>c.
          Inr (tap KEY_SPACE,
               d\<lparr>zd_smart_space_state :=
                   (if zcfg_smart_space cfg = SmartSpaceFull then SpaceSent else zd_smart_space_state d),
                 zd_prior_activation_output_count := n, zd_characters_to_delete := c\<rparr>)))
      else Inr ([], d))"

definition press_sft :: "zch_dyn \<Rightarrow> kb_event list" where
  "press_sft d =
     (if zd_is_caps_word_active d then []
      else (if zd_is_lsft_active d then [KbPress LShift] else [])
           @ (if zd_is_rsft_active d then [KbPress RShift] else []))"

definition altgr_around :: "zch_chord_output \<Rightarrow> zch_dyn \<Rightarrow> kb_event \<Rightarrow> kb_event list" where
  "altgr_around a d ev = (if zd_is_altgr_active d \<and> zc_output a \<noteq> [] then [ev] else [])"

text \<open>A chord is activated (\<open>HasValue\<close>).\<close>

definition activate_chord ::
  "zch_config \<Rightarrow> bool \<Rightarrow> zch_chord_output \<Rightarrow> u16 \<Rightarrow> zch_dyn \<Rightarrow> (kb_event list \<times> zch_dyn) res" where
  "activate_chord cfg prioritized a k d =
     and_then (activation_prefix prioritized a d) (\<lambda>prefix.
     and_then (checked_add (zd_same_hold_activation_count d) 1) (\<lambda>count.
     and_then (erase_typed prioritized a prefix k
       (d\<lparr>zd_prior_activation := Some a, zd_same_hold_activation_count := count,
          zd_ticks_until_disable := zcfg_ticks_chord_deadline cfg\<rparr>)) (\<lambda>(ev1, d1).
     and_then (send_outputs False (drop (nat prefix) (zc_output a))
       (d1\<lparr>zd_prioritized_chords := zc_followups a\<rparr>)) (\<lambda>(ev2, d2).
     and_then (smart_space cfg a d2) (\<lambda>(ev3, d3).
       Inr (ev1 @ altgr_around a d (KbRelease RAlt) @ ev2 @ ev3 @ press_sft d3 @ altgr_around a d3 (KbPress RAlt),
            d3\<lparr>zd_last_press := IsChord\<rparr>))))))"

record zch_state =
  zs_dyn :: zch_dyn
  zs_chords :: zch_possible_chords
  zs_cfg :: zch_config

definition zch_configure :: "zch_possible_chords \<times> zch_config \<Rightarrow> zch_state \<Rightarrow> zch_state" where
  "zch_configure cfg s = s\<lparr>zs_chords := fst cfg, zs_cfg := snd cfg, zs_dyn := zchd_reset (zs_dyn s)\<rparr>"

text \<open>A punctuation key erases the smart space.\<close>

definition punctuation_of :: "zch_dyn \<Rightarrow> u16 \<Rightarrow> zch_output" where
  "punctuation_of d k =
     (case (zd_is_lsft_active d \<or> zd_is_rsft_active d, zd_is_altgr_active d) of
        (False, False) \<Rightarrow> Lowercase k
      | (True, False) \<Rightarrow> Uppercase k
      | (False, True) \<Rightarrow> AltGr k
      | (True, True) \<Rightarrow> ShiftAltGr k)"

definition erase_smart_space :: "zch_config \<Rightarrow> u16 \<Rightarrow> zch_dyn \<Rightarrow> (kb_event list \<times> zch_dyn) res" where
  "erase_smart_space cfg k d =
     (if zd_smart_space_state d = SpaceSent \<and> punctuation_of d k \<in> set (zcfg_smart_space_punctuation cfg)
      then and_then (chk16 (zd_characters_to_delete d - 1)) (\<lambda>n.
        Inr (tap KEY_BACKSPACE, d\<lparr>zd_characters_to_delete := n\<rparr>))
      else Inr ([], d))"

definition lookup_chord :: "zch_possible_chords \<Rightarrow> zch_dyn \<Rightarrow> bool \<times> zch_chord_output get_result" where
  "lookup_chord chords d =
     (case zd_prioritized_chords d of
        None \<Rightarrow> (False, ssm_get_or_is_subset_ksorted (zd_input_keys d) chords)
      | Some pchords \<Rightarrow>
          (case ssm_get_or_is_subset_ksorted (zd_input_keys d) pchords of
             HasValue a \<Rightarrow> (True, HasValue a)
           | _ \<Rightarrow> (False, ssm_get_or_is_subset_ksorted (zd_input_keys d) chords)))"

text \<open>A press while zippychord is enabled.\<close>

definition press_enabled ::
  "zch_possible_chords \<Rightarrow> zch_config \<Rightarrow> u16 \<Rightarrow> zch_dyn \<Rightarrow> (kb_event list \<times> zch_dyn) res" where
  "press_enabled chords cfg k d0 =
     (let d = zchd_press_key k (zchd_state_change cfg
                (zchd_activate_chord_deadline (zcfg_ticks_chord_deadline cfg) d0)) in
      case lookup_chord chords d of
        (prioritized, HasValue a) \<Rightarrow> activate_chord cfg prioritized a k d
      | (_, IsSubset) \<Rightarrow>
          and_then (chk16 (zd_characters_to_delete d + 1)) (\<lambda>n.
            Inr ([KbPress k], d\<lparr>zd_last_press := NotChord, zd_characters_to_delete := n\<rparr>))
      | (_, Neither) \<Rightarrow> Inr ([KbPress k], zchd_soft_reset d))"

definition zch_press_key :: "u16 \<Rightarrow> zch_state \<Rightarrow> (kb_event list \<times> zch_state) res" where
  "zch_press_key k s =
     (let d = zs_dyn s in
      if zs_chords s = [] then Inr ([KbPress k], s)
      else if k = LShift then Inr ([KbPress k], s\<lparr>zs_dyn := d\<lparr>zd_is_lsft_active := True\<rparr>\<rparr>)
      else if k = RShift then Inr ([KbPress k], s\<lparr>zs_dyn := d\<lparr>zd_is_rsft_active := True\<rparr>\<rparr>)
      else if k = RAlt then Inr ([KbPress k], s\<lparr>zs_dyn := d\<lparr>zd_is_altgr_active := True\<rparr>\<rparr>)
      else if is_zippy_ignored k then Inr ([KbPress k], s)
      else
        and_then (erase_smart_space (zs_cfg s) k d) (\<lambda>(ev1, d1).
          let d1 = d1\<lparr>zd_smart_space_state := SpaceInactive\<rparr> in
          if zd_enabled_state d1 \<noteq> Enabled then Inr (ev1 @ [KbPress k], s\<lparr>zs_dyn := d1\<rparr>)
          else
            and_then (press_enabled (zs_chords s) (zs_cfg s) k d1) (\<lambda>(ev2, d2).
              Inr (ev1 @ ev2, s\<lparr>zs_dyn := d2\<rparr>))))"

definition zch_release_key :: "u16 \<Rightarrow> zch_state \<Rightarrow> kb_event list \<times> zch_state" where
  "zch_release_key k s =
     (if zs_chords s = [] then ([KbRelease k], s)
      else
        let d = zs_dyn s;
            d = (if k = LShift then d\<lparr>zd_is_lsft_active := False\<rparr>
                 else if k = RShift then d\<lparr>zd_is_rsft_active := False\<rparr>
                 else if k = RAlt then d\<lparr>zd_is_altgr_active := False\<rparr>
                 else d) in
        if is_zippy_ignored k then ([KbRelease k], s\<lparr>zs_dyn := d\<rparr>)
        else ([KbRelease k], s\<lparr>zs_dyn := zchd_release_key k (zchd_state_change (zs_cfg s) d)\<rparr>))"

definition zch_tick :: "bool \<Rightarrow> zch_state \<Rightarrow> zch_state res" where
  "zch_tick caps s = and_then (zchd_tick caps (zs_dyn s)) (\<lambda>d. Inr (s\<lparr>zs_dyn := d\<rparr>))"

end
