(* ===== verification/Output.thy ===== *)
theory Output
  imports Zippychord
begin

text \<open>
  What is sent to the operating system (\<open>src/kanata/output_logic.rs\<close>): keys in the ignorable range
  are dropped, the codes of mouse buttons and of the wheel become mouse events, and everything
  else goes through zippychord. The state machines above it return the list of the calls they
  make, a list of \<open>out_call\<close>; \<open>perform\<close> is what such a call sends. Writing to the operating system is
  taken to succeed.
\<close>

definition KEY_IGNORE_MIN :: u16 where "KEY_IGNORE_MIN = 0x2a4"
definition KEY_IGNORE_MAX :: u16 where "KEY_IGNORE_MAX = 0x2ad"

definition BTN_LEFT :: u16 where "BTN_LEFT = 272"
definition BTN_RIGHT :: u16 where "BTN_RIGHT = 273"
definition BTN_MIDDLE :: u16 where "BTN_MIDDLE = 274"
definition BTN_SIDE :: u16 where "BTN_SIDE = 275"
definition BTN_EXTRA :: u16 where "BTN_EXTRA = 276"

definition MouseWheelUp :: u16 where "MouseWheelUp = 745"
definition MouseWheelDown :: u16 where "MouseWheelDown = 746"
definition MouseWheelLeft :: u16 where "MouseWheelLeft = 747"
definition MouseWheelRight :: u16 where "MouseWheelRight = 748"

lemmas mouse_code_defs =
  BTN_LEFT_def BTN_RIGHT_def BTN_MIDDLE_def BTN_SIDE_def BTN_EXTRA_def
  MouseWheelUp_def MouseWheelDown_def MouseWheelLeft_def MouseWheelRight_def

definition HI_RES_SCROLL_UNITS_IN_LO_RES :: u16 where "HI_RES_SCROLL_UNITS_IN_LO_RES = 120"

datatype btn = BtnLeft | BtnRight | BtnMid | BtnForward | BtnBackward

datatype wheel_direction = WheelUp | WheelDown | WheelLeft | WheelRight

datatype os_event =
    KeyEvent kb_event | KeyRepeat u16 | ClickBtn btn | ReleaseBtn btn | Scroll wheel_direction u16
  | SendUnicode u32 | SetMousePos u16 u16 | WriteCode u32 bool

definition osc_to_btn :: "u16 \<Rightarrow> btn option" where
  "osc_to_btn k =
     (if k = BTN_LEFT then Some BtnLeft
      else if k = BTN_RIGHT then Some BtnRight
      else if k = BTN_MIDDLE then Some BtnMid
      else if k = BTN_EXTRA then Some BtnForward
      else if k = BTN_SIDE then Some BtnBackward
      else None)"

definition osc_to_wheel_direction :: "u16 \<Rightarrow> wheel_direction option" where
  "osc_to_wheel_direction k =
     (if k = MouseWheelUp then Some WheelUp
      else if k = MouseWheelDown then Some WheelDown
      else if k = MouseWheelLeft then Some WheelLeft
      else if k = MouseWheelRight then Some WheelRight
      else None)"

definition is_ignored :: "u16 \<Rightarrow> bool" where
  "is_ignored k \<longleftrightarrow> KEY_IGNORE_MIN \<le> k \<and> k \<le> KEY_IGNORE_MAX"

definition write_key_repeat :: "u16 \<Rightarrow> os_event list" where
  "write_key_repeat k = (if is_ignored k then [] else [KeyRepeat k])"

definition press_key :: "u16 \<Rightarrow> zch_state \<Rightarrow> (os_event list \<times> zch_state) res" where
  "press_key k z =
     (if is_ignored k then Inr ([], z)
      else case osc_to_btn k of
        Some b \<Rightarrow> Inr ([ClickBtn b], z)
      | None \<Rightarrow>
          (case osc_to_wheel_direction k of
             Some d \<Rightarrow> Inr ([Scroll d HI_RES_SCROLL_UNITS_IN_LO_RES], z)
           | None \<Rightarrow> and_then (zch_press_key k z) (\<lambda>(evs, z'). Inr (map KeyEvent evs, z'))))"

definition release_key :: "u16 \<Rightarrow> zch_state \<Rightarrow> (os_event list \<times> zch_state) res" where
  "release_key k z =
     (if is_ignored k then Inr ([], z)
      else case osc_to_btn k of
        Some b \<Rightarrow> Inr ([ReleaseBtn b], z)
      | None \<Rightarrow>
          (case osc_to_wheel_direction k of
             Some d \<Rightarrow> Inr ([], z)
           | None \<Rightarrow> (case zch_release_key k z of (evs, z') \<Rightarrow> Inr (map KeyEvent evs, z'))))"

text \<open>The calls: \<open>press_key\<close>, \<open>release_key\<close> and \<open>write_key\<close> above, the methods of \<open>KbdOut\<close>, and the tick
  of zippychord.\<close>

datatype out_call =
    CallPress u16 | CallRelease u16 | CallRepeat u16 | DirectPress u16 | DirectRelease u16
  | OtherOutput os_event | CallZippyTick bool

fun perform :: "out_call \<Rightarrow> zch_state \<Rightarrow> (os_event list \<times> zch_state) res" where
  "perform (CallPress k) z = press_key k z"
| "perform (CallRelease k) z = release_key k z"
| "perform (CallRepeat k) z = Inr (write_key_repeat k, z)"
| "perform (DirectPress k) z = Inr ([KeyEvent (KbPress k)], z)"
| "perform (DirectRelease k) z = Inr ([KeyEvent (KbRelease k)], z)"
| "perform (OtherOutput e) z = Inr ([e], z)"
| "perform (CallZippyTick caps) z = and_then (zch_tick caps z) (\<lambda>z'. Inr ([], z'))"

fun perform_all :: "out_call list \<Rightarrow> zch_state \<Rightarrow> (os_event list \<times> zch_state) res" where
  "perform_all [] z = Inr ([], z)"
| "perform_all (c # cs) z =
     and_then (perform c z) (\<lambda>(e1, z1). and_then (perform_all cs z1) (\<lambda>(e2, z2). Inr (e1 @ e2, z2)))"

lemma perform_all_append:
  "perform_all (as @ bs) z =
     and_then (perform_all as z) (\<lambda>(e1, z1). and_then (perform_all bs z1) (\<lambda>(e2, z2). Inr (e1 @ e2, z2)))"
proof (induction as arbitrary: z)
  case Nil
  then show ?case by (cases "perform_all bs z") auto
next
  case (Cons a as)
  show ?case
  proof (cases "perform a z")
    case (Inr x)
    obtain e1 z1 where x: "x = (e1, z1)" by (cases x)
    show ?thesis
    proof (cases "perform_all as z1")
      case I: (Inr y)
      obtain e2 z2 where y: "y = (e2, z2)" by (cases y)
      show ?thesis
        by (cases "perform_all bs z2") (auto simp: Cons.IH Inr x I y)
    qed (simp add: Cons.IH Inr x)
  qed simp
qed

section \<open>Keys that are down\<close>

text \<open>Which keys a list of calls leaves down, when every call is for a plain key.\<close>

fun call_down :: "out_call \<Rightarrow> u16 set \<Rightarrow> u16 set" where
  "call_down (CallPress k) D = insert k D"
| "call_down (CallRelease k) D = D - {k}"
| "call_down (DirectPress k) D = insert k D"
| "call_down (DirectRelease k) D = D - {k}"
| "call_down _ D = D"

definition calls_down :: "out_call list \<Rightarrow> u16 set \<Rightarrow> u16 set" where
  "calls_down cs D = fold call_down cs D"

lemma calls_down_simps [simp]:
  "calls_down [] D = D"
  "calls_down (c # cs) D = calls_down cs (call_down c D)"
  "calls_down (as @ bs) D = calls_down bs (calls_down as D)"
  by (simp_all add: calls_down_def)

definition tap_call :: "u16 \<Rightarrow> out_call list" where
  "tap_call k = [CallPress k, CallRelease k]"

lemma call_down_mono: "D \<subseteq> E \<Longrightarrow> call_down c D \<subseteq> call_down c E"
  by (cases c) auto

lemma calls_down_mono: "D \<subseteq> E \<Longrightarrow> calls_down cs D \<subseteq> calls_down cs E"
  by (induction cs arbitrary: D E) (simp_all add: call_down_mono)

lemma calls_down_releases:
  "calls_down (map CallRelease ks) D = D - set ks"
  by (induction ks arbitrary: D) auto

lemma calls_down_subset:
  assumes "\<forall>c\<in>set cs. \<forall>k. c = CallPress k \<or> c = DirectPress k \<longrightarrow> k \<in> A" "D \<subseteq> A"
  shows "calls_down cs D \<subseteq> A"
  using assms
proof (induction cs arbitrary: D)
  case (Cons c cs)
  then have "call_down c D \<subseteq> A" by (cases c) auto
  with Cons show ?case by simp
qed simp

lemma calls_down_taps: "calls_down (concat (map tap_call ks)) D = D - set ks"
  by (induction ks arbitrary: D) (auto simp: tap_call_def)

end
