(* ===== verification/Sequences.thy ===== *)
theory Sequences
  imports LayoutTick Output
begin

text \<open>
  Sequences (\<open>src/kanata/sequences.rs\<close>, \<open>parser/src/trie.rs\<close>, \<open>parser/src/sequences.rs\<close>): after a leader key
  the keys that are typed are looked up in a trie of configured sequences, and a completed
  sequence taps its virtual key. The trie is kept in a map of the library \<open>patricia_tree\<close>, whose
  \<open>iter_prefix\<close> is an argument of the lookup here; the state machine has the lookup as its argument.
\<close>

section \<open>Constants\<close>

definition MASK_KEYCODES :: u16 where "MASK_KEYCODES = 0x03FF"
definition MASK_MODDED :: u16 where "MASK_MODDED = 0xFC00"
definition KEY_OVERLAP :: keycode where "KEY_OVERLAP = ErrorRollOver"
definition KEY_OVERLAP_MARKER :: u16 where "KEY_OVERLAP_MARKER = 0x0400"

definition mod_mask_for_keycode :: "keycode \<Rightarrow> u16" where
  "mod_mask_for_keycode kc =
     (if kc = LShift \<or> kc = RShift then 0x8000
      else if kc = LCtrl \<or> kc = RCtrl then 0x4000
      else if kc = LAlt then 0x2000
      else if kc = RAlt then 0x1000
      else if kc = LGui \<or> kc = RGui then 0x0800
      else if kc = ErrorRollOver then KEY_OVERLAP_MARKER
      else 0)"

definition get_mod_mask_for_cur_keys :: "keycode list \<Rightarrow> u16" where
  "get_mod_mask_for_cur_keys ks = fold (\<lambda>v a. a OR mod_mask_for_keycode v) ks 0"

section \<open>The trie\<close>

datatype 'v trie_result = NotInTrie | InTrie | TrieValue 'v

text \<open>\<open>cast_slice\<close> on a little-endian machine.\<close>

definition cast_slice :: "u16 list \<Rightarrow> u8 list" where
  "cast_slice ks = concat (map (\<lambda>k. [ucast k, ucast (drop_bit 8 k)]) ks)"

definition key_len :: "u16 list \<Rightarrow> nat" where
  "key_len ks = length ks * 2"

definition get_or_descendant_exists ::
  "(u8 list \<Rightarrow> (u8 list \<times> 'v) list) \<Rightarrow> u16 list \<Rightarrow> 'v trie_result" where
  "get_or_descendant_exists iter_prefix ks =
     (case iter_prefix (cast_slice ks) of
        [] \<Rightarrow> NotInTrie
      | (k, v) # _ \<Rightarrow> if length k = key_len ks then TrieValue v else InTrie)"

section \<open>The state\<close>

datatype sequence_input_mode = HiddenSuppressed | HiddenDelayType | VisibleBackspaced

record key_seq =
  ks_raw_oscs :: "u16 list"
  ks_sequence :: "u16 list"
  ks_overlapped :: "u16 list"
  ks_input_mode :: sequence_input_mode
  ks_ticks_until_timeout :: u16
  ks_timeout :: u16
  ks_active :: bool
  ks_noerase_count :: u16

definition key_seq_new :: key_seq where
  "key_seq_new = \<lparr>ks_raw_oscs = [], ks_sequence = [], ks_overlapped = [],
     ks_input_mode = HiddenSuppressed, ks_ticks_until_timeout = 0, ks_timeout = 0,
     ks_active = False, ks_noerase_count = 0\<rparr>"

definition ks_activate :: "sequence_input_mode \<Rightarrow> u16 \<Rightarrow> key_seq \<Rightarrow> key_seq" where
  "ks_activate mode timeout s =
     s\<lparr>ks_input_mode := mode, ks_timeout := timeout, ks_ticks_until_timeout := timeout,
       ks_raw_oscs := [], ks_sequence := [], ks_overlapped := [], ks_active := True,
       ks_noerase_count := 0\<rparr>"

definition cancel_sequence :: "key_seq \<Rightarrow> out_call list \<times> key_seq" where
  "cancel_sequence s =
     (case ks_input_mode s of
        HiddenDelayType \<Rightarrow> concat (map tap_call (ks_raw_oscs s))
      | _ \<Rightarrow> [],
      s\<lparr>ks_active := False\<rparr>)"

definition add_noerase :: "u16 \<Rightarrow> key_seq \<Rightarrow> key_seq res" where
  "add_noerase n s =
     and_then (checked_add (ks_noerase_count s) n) (\<lambda>c. Inr (s\<lparr>ks_noerase_count := c\<rparr>))"

text \<open>\<open>Kanata::tick_sequence_state\<close>; the counter is decreased without a check for zero.\<close>

definition tick_sequence_state :: "key_seq \<Rightarrow> (out_call list \<times> key_seq) res" where
  "tick_sequence_state s =
     (if ks_active s then
        and_then (checked_sub (ks_ticks_until_timeout s) 1) (\<lambda>t.
          let s = s\<lparr>ks_ticks_until_timeout := t\<rparr> in
          Inr (if t = 0 then cancel_sequence s else ([], s)))
      else Inr ([], s))"

section \<open>Completing a sequence\<close>

datatype end_sequence_type = EndStandard | EndOverlap

text \<open>Visible keys are erased; the modifiers that are pressed are released first.\<close>

definition releases_for_erasing :: "'t state \<Rightarrow> keycode option" where
  "releases_for_erasing s =
     (case s of
        NormalKey kc _ _ \<Rightarrow>
          if kc = LCtrl \<or> kc = RCtrl \<or> kc = LAlt \<or> kc = RAlt \<or> kc = LGui \<or> kc = RGui then Some kc else None
      | _ \<Rightarrow> None)"

fun erase_sequence :: "u16 list \<Rightarrow> u16 \<Rightarrow> out_call list \<times> u16" where
  "erase_sequence [] n = ([], n)"
| "erase_sequence (k # ks) n =
     (if k = KEY_OVERLAP_MARKER then erase_sequence ks n
      else
        let osc = k AND MASK_KEYCODES in
        if is_mod osc \<or> is_ignored osc then erase_sequence ks n
        else if 0 < n then erase_sequence ks (n - 1)
        else
          (case erase_sequence ks n of
             (cs, n') \<Rightarrow> (DirectPress KEY_BACKSPACE # DirectRelease KEY_BACKSPACE # cs, n')))"

text \<open>The states of the keys of the sequence are dropped.\<close>

definition drop_key_states :: "u16 list \<Rightarrow> 't state list \<Rightarrow> 't state list" where
  "drop_key_states sq sts =
     fold (\<lambda>k. filter (\<lambda>s. case s of NormalKey kc _ _ \<Rightarrow> k AND MASK_KEYCODES \<noteq> kc | _ \<Rightarrow> True))
       (filter (\<lambda>k. k \<noteq> KEY_OVERLAP_MARKER) sq) sts"

definition do_successful_sequence_termination ::
  "'t do_act \<Rightarrow> u8 \<Rightarrow> u16 \<Rightarrow> end_sequence_type \<Rightarrow> key_seq \<Rightarrow> 't layout
     \<Rightarrow> (out_call list \<times> key_seq \<times> 't layout) res" where
  "do_successful_sequence_termination rec i j ty s l =
     (let s1 = s\<lparr>ks_active := False\<rparr>;
          sq = (case ty of EndStandard \<Rightarrow> ks_sequence s1 | EndOverlap \<Rightarrow> ks_overlapped s1);
          (cs, s2, l2) =
            (case ks_input_mode s1 of
               VisibleBackspaced \<Rightarrow>
                 (case erase_sequence sq (ks_noerase_count s1) of
                    (er, n) \<Rightarrow>
                      (map CallRelease (List.map_filter releases_for_erasing (l_states l)) @ er,
                       s1\<lparr>ks_noerase_count := n\<rparr>,
                       l\<lparr>l_states := filter (\<lambda>st. releases_for_erasing st = None) (l_states l)\<rparr>))
             | _ \<Rightarrow> ([], s1, l));
          l3 = l2\<lparr>l_states := drop_key_states sq (l_states l2)\<rparr> in
      and_then (event_to_front rec (Release i j) l3) (\<lambda>l4.
      and_then (event_to_front rec (Press i j) l4) (\<lambda>l5.
        Inr (cs, s2, l5))))"

section \<open>A key press\<close>

text \<open>What is pushed: the left variant of a modifier, with the modifiers that are held.\<close>

definition pushed_into_seq :: "u16 \<Rightarrow> u16 \<Rightarrow> u16" where
  "pushed_into_seq osc mod_mask =
     (if osc = RShift then LShift else if osc = RGui then LGui else if osc = RCtrl then LCtrl else osc)
       OR mod_mask"

text \<open>
  The standard sequence was not found: from its end, modifiers are removed (or only the marks of
  overlapping) and the marks of an ended overlap dropped, until it is found. The flag is \<open>True\<close>
  when it never is. The last result of the lookup is returned too.
\<close>

fun backtrack ::
  "(u16 list \<Rightarrow> 'v trie_result) \<Rightarrow> bool \<Rightarrow> nat \<Rightarrow> u16 list \<Rightarrow> 'v trie_result
     \<Rightarrow> bool \<times> u16 list \<times> 'v trie_result" where
  "backtrack look modcancel 0 sq r = (True, sq, r)"
| "backtrack look modcancel (Suc i) sq r =
     (let sq' = (if sq ! i = KEY_OVERLAP_MARKER then remove_nth i sq
                 else if modcancel then sq[i := sq ! i AND MASK_KEYCODES]
                 else sq[i := sq ! i AND NOT KEY_OVERLAP_MARKER]);
          r' = look sq' in
      if r' \<noteq> NotInTrie then (False, sq', r') else backtrack look modcancel i sq' r')"

definition standard_step ::
  "(u16 list \<Rightarrow> 'v trie_result) \<Rightarrow> bool \<Rightarrow> u16 list \<Rightarrow> bool \<times> u16 list \<times> 'v trie_result" where
  "standard_step look modcancel sq =
     (let r = look sq in
      if r = NotInTrie then backtrack look modcancel (length sq) sq r else (False, sq, r))"

text \<open>The overlapped sequence was not found: its tail is replaced.\<close>

definition overlap_step ::
  "(u16 list \<Rightarrow> 'v trie_result) \<Rightarrow> u16 \<Rightarrow> u16 list \<Rightarrow> bool \<times> u16 list \<times> 'v trie_result" where
  "overlap_step look pushed osq =
     (let r = look osq in
      if r \<noteq> NotInTrie then (False, osq, r)
      else
        let o1 = butlast osq @ [KEY_OVERLAP_MARKER, (pushed AND MASK_KEYCODES) OR KEY_OVERLAP_MARKER];
            r1 = look o1 in
        if r1 \<noteq> NotInTrie then (False, o1, r1)
        else
          let o2 = butlast osq @ [KEY_OVERLAP_MARKER, pushed];
              r2 = look o2 in
          if r2 \<noteq> NotInTrie then (False, o2, r2)
          else if pushed AND MASK_KEYCODES = pushed then (True, o2, r2)
          else
            let o3 = butlast osq @ [KEY_OVERLAP_MARKER, pushed AND MASK_KEYCODES];
                r3 = look o3 in
            (r3 = NotInTrie, o3, r3))"

fun drop_front :: "(u16 list \<Rightarrow> 'v trie_result) \<Rightarrow> u16 list \<Rightarrow> 'v trie_result \<Rightarrow> u16 list \<times> 'v trie_result" where
  "drop_front look [] r = ([], r)"
| "drop_front look (k # ks) r = (if r = NotInTrie then drop_front look ks (look ks) else (k # ks, r))"

text \<open>An invalid track is filled from the valid one; if both are invalid the sequence is tried
  without its first keys, and cancelled if that fails.\<close>

definition reconcile ::
  "(u16 list \<Rightarrow> 'v trie_result) \<Rightarrow> bool \<times> u16 list \<times> 'v trie_result \<Rightarrow> bool \<times> u16 list \<times> 'v trie_result
     \<Rightarrow> key_seq \<Rightarrow> out_call list \<times> 'v trie_result \<times> 'v trie_result \<times> key_seq" where
  "reconcile look std ovl s =
     (case (std, ovl) of
        ((False, sq, r), (False, osq, ro)) \<Rightarrow> ([], r, ro, s\<lparr>ks_sequence := sq, ks_overlapped := osq\<rparr>)
      | ((False, sq, r), (True, osq, ro)) \<Rightarrow> ([], r, look sq, s\<lparr>ks_sequence := sq, ks_overlapped := sq\<rparr>)
      | ((True, sq, r), (False, osq, ro)) \<Rightarrow>
          let sq' = (if osq \<noteq> [] \<and> last osq \<noteq> KEY_OVERLAP_MARKER \<and> KEY_OVERLAP_MARKER \<le> last osq
                     then osq @ [KEY_OVERLAP_MARKER] else osq) in
          ([], look sq', ro, s\<lparr>ks_sequence := sq', ks_overlapped := osq\<rparr>)
      | ((True, sq, r), (True, osq, ro)) \<Rightarrow>
          (case drop_front look sq r of
             (sq', r') \<Rightarrow>
               let s' = s\<lparr>ks_sequence := sq', ks_overlapped := osq\<rparr> in
               if r' = NotInTrie \<or> sq' = [] then
                 (case cancel_sequence s' of (cs, s'') \<Rightarrow> (cs, r', ro, s''))
               else ([], r', ro, s')))"

definition finish_press ::
  "'t do_act \<Rightarrow> (u16 list \<Rightarrow> (u8 \<times> u16) trie_result) \<Rightarrow> (u8 \<times> u16) trie_result \<Rightarrow> (u8 \<times> u16) trie_result
     \<Rightarrow> key_seq \<Rightarrow> 't layout \<Rightarrow> (out_call list \<times> key_seq \<times> 't layout) res" where
  "finish_press rec look r ro s l =
     (case ro of
        TrieValue (i, j) \<Rightarrow> do_successful_sequence_termination rec i j EndOverlap s l
      | _ \<Rightarrow>
          (case r of
             TrieValue (i, j) \<Rightarrow>
               let s' = s\<lparr>ks_overlapped := ks_overlapped s @ [KEY_OVERLAP_MARKER]\<rparr> in
               (case look (ks_overlapped s') of
                  TrieValue (oi, oj) \<Rightarrow> do_successful_sequence_termination rec oi oj EndOverlap s' l
                | _ \<Rightarrow> do_successful_sequence_termination rec i j EndStandard s' l)
           | _ \<Rightarrow> Inr ([], s, l)))"

definition do_sequence_press_logic ::
  "'t do_act \<Rightarrow> (u16 list \<Rightarrow> (u8 \<times> u16) trie_result) \<Rightarrow> bool \<Rightarrow> keycode \<Rightarrow> u16 \<Rightarrow> key_seq \<Rightarrow> 't layout
     \<Rightarrow> (out_call list \<times> key_seq \<times> 't layout) res" where
  "do_sequence_press_logic rec look modcancel k mod_mask s l =
     (let pushed = pushed_into_seq k mod_mask;
          s1 = s\<lparr>ks_ticks_until_timeout := ks_timeout s, ks_raw_oscs := ks_raw_oscs s @ [k]\<rparr>;
          visible = (case ks_input_mode s of VisibleBackspaced \<Rightarrow> [CallPress k] | _ \<Rightarrow> []);
          std = standard_step look modcancel (ks_sequence s @ [pushed]);
          ovl = overlap_step look pushed
                  (ks_overlapped s @ [(pushed AND MASK_KEYCODES) OR KEY_OVERLAP_MARKER]);
          (cs, r, ro, s2) = reconcile look std ovl s1 in
      and_then (finish_press rec look r ro s2 l) (\<lambda>(cs', s3, l').
        Inr (visible @ cs @ cs', s3, l')))"

end
