(* ===== verification/SequenceFacts.thy ===== *)
theory SequenceFacts
  imports Sequences "HOL-Library.Sublist"
begin

text \<open>
  Properties of sequences: the lookup in the trie against its meaning, the completion of a typed
  sequence, the timeout and the keys that are typed when a delayed sequence ends.
\<close>

section \<open>The lookup\<close>

lemma cast_slice_simps [simp]:
  "cast_slice [] = []"
  "cast_slice (k # ks) = ucast k # ucast (drop_bit 8 k) # cast_slice ks"
  by (simp_all add: cast_slice_def)

lemma length_cast_slice [simp]: "length (cast_slice ks) = key_len ks"
  by (induction ks) (simp_all add: key_len_def)

lemma bytes_eq_iff:
  fixes a b :: u16
  shows "(ucast a :: u8) = ucast b \<and> (ucast (drop_bit 8 a) :: u8) = ucast (drop_bit 8 b) \<longleftrightarrow> a = b"
proof (intro iffI; (elim conjE)?)
  assume lo: "(ucast a :: u8) = ucast b" and hi: "(ucast (drop_bit 8 a) :: u8) = ucast (drop_bit 8 b)"
  show "a = b"
  proof (rule bit_word_eqI)
    fix n assume n: "n < LENGTH(16)"
    have l: "bit (ucast a :: u8) n = bit (ucast b :: u8) n" using lo by simp
    have h: "bit (ucast (drop_bit 8 a) :: u8) (n - 8) = bit (ucast (drop_bit 8 b) :: u8) (n - 8)"
      using hi by simp
    show "bit a n = bit b n"
    proof (cases "n < 8")
      case True
      then show ?thesis using l by (simp add: bit_simps)
    next
      case False
      then have "n - 8 < 8" using n by simp
      then show ?thesis using h n False by (simp add: bit_simps)
    qed
  qed
qed simp

lemma prefix_cast_slice [simp]: "prefix (cast_slice as) (cast_slice bs) \<longleftrightarrow> prefix as bs"
proof (induction as arbitrary: bs)
  case Nil
  then show ?case by simp
next
  case (Cons a as)
  show ?case
  proof (cases bs)
    case (Cons b bs')
    then show ?thesis using Cons.IH bytes_eq_iff [of a b] by auto
  qed simp
qed

lemma cast_slice_inject [simp]: "cast_slice as = cast_slice bs \<longleftrightarrow> as = bs"
  using prefix_cast_slice by (metis prefix_order.eq_iff)

text \<open>
  The documented behaviour of \<open>iter_prefix\<close>: the entries whose keys begin with the argument, in
  the lexicographic order of the keys, which are distinct.
\<close>

definition patricia_map :: "(u8 list \<times> 'v) list \<Rightarrow> (u8 list \<Rightarrow> (u8 list \<times> 'v) list) \<Rightarrow> bool" where
  "patricia_map entries iter_prefix \<longleftrightarrow>
     sorted_wrt (\<lambda>a b. (fst a, fst b) \<in> lexord {(x, y). x < y}) entries
     \<and> (\<forall>p. iter_prefix p = filter (\<lambda>e. prefix p (fst e)) entries)"

text \<open>What a lookup means for the sequences that are known.\<close>

definition trie_meaning :: "(u16 list \<times> 'v) list \<Rightarrow> u16 list \<Rightarrow> 'v trie_result" where
  "trie_meaning kvs ks =
     (case map_of kvs ks of
        Some v \<Rightarrow> TrieValue v
      | None \<Rightarrow> if \<exists>e\<in>set kvs. prefix ks (fst e) then InTrie else NotInTrie)"

lemma lexord_irrefl_less: "(x :: u8 list, x) \<notin> lexord {(x, y). x < y}"
  by (rule lexord_irreflexive) simp

lemma lexord_trans_less: "trans (lexord {(x :: u8, y). x < y})"
  by (rule lexord_transI) (auto simp: trans_def)

lemma first_with_prefix:
  assumes "sorted_wrt (\<lambda>a b. (fst a, fst b) \<in> lexord {(x :: u8, y). x < y}) es"
    and "(p, v) \<in> set es"
  shows "\<exists>es'. filter (\<lambda>e. prefix p (fst e)) es = (p, v) # es'"
  using assms
proof (induction es)
  case (Cons e es)
  show ?case
  proof (cases "e = (p, v)")
    case False
    then have mem: "(p, v) \<in> set es" using Cons.prems(2) by auto
    then have less: "(fst e, p) \<in> lexord {(x, y). x < y}" using Cons.prems(1) by auto
    have "\<not> prefix p (fst e)"
    proof
      assume "prefix p (fst e)"
      then obtain r where r: "fst e = p @ r" by (auto simp: prefix_def)
      show False
      proof (cases r)
        case Nil
        then show False using less r lexord_irrefl_less by simp
      next
        case (Cons y ys)
        then have "(p, fst e) \<in> lexord {(x, y). x < y}" using r by (simp add: lexord_append_rightI)
        with less have "(p, p) \<in> lexord {(x, y). x < y}"
          using lexord_trans_less by (meson transE)
        then show False using lexord_irrefl_less by simp
      qed
    qed
    then show ?thesis using Cons.IH Cons.prems(1) mem by simp
  qed simp
qed simp

lemma no_entry_first:
  assumes "p \<notin> fst ` set es" and "filter (\<lambda>e. prefix p (fst e)) es = (k, v) # es'"
  shows "prefix p k \<and> k \<noteq> p \<and> (k, v) \<in> set es"
proof -
  have "(k, v) \<in> set (filter (\<lambda>e. prefix p (fst e)) es)" by (simp add: assms(2))
  then show ?thesis using assms(1) by force
qed

lemma prefix_same_length: "prefix p k \<Longrightarrow> length k = length p \<longleftrightarrow> k = p"
  by (auto simp: prefix_def)

text \<open>Looking up a sequence of keys in the trie tells whether it is a known sequence, with its virtual
  key, or the beginning of a longer one, or neither. The map behind the trie has bytes as keys;
  that its prefixes may end within a key code does not matter.\<close>

theorem trie_lookup:
  assumes "patricia_map (map (map_prod cast_slice id) kvs) iter_prefix"
  shows "get_or_descendant_exists iter_prefix ks = trie_meaning kvs ks"
proof -
  let ?es = "map (map_prod cast_slice id) kvs"
  have ip: "iter_prefix (cast_slice ks) = filter (\<lambda>e. prefix (cast_slice ks) (fst e)) ?es"
    using assms by (simp add: patricia_map_def)
  have srt: "sorted_wrt (\<lambda>a b. (fst a, fst b) \<in> lexord {(x, y). x < y}) ?es"
    using assms by (simp add: patricia_map_def)
  show ?thesis
  proof (cases "map_of kvs ks")
    case (Some v)
    then have "(cast_slice ks, v) \<in> set ?es"
      by (force dest: map_of_SomeD simp: image_iff)
    from first_with_prefix [OF srt this] obtain es' where "iter_prefix (cast_slice ks) = (cast_slice ks, v) # es'"
      unfolding ip by blast
    then show ?thesis by (simp add: get_or_descendant_exists_def trie_meaning_def Some)
  next
    case None
    then have notin: "cast_slice ks \<notin> fst ` set ?es" by (force simp: map_of_eq_None_iff image_iff)
    show ?thesis
    proof (cases "iter_prefix (cast_slice ks)")
      case Nil
      then have "\<not> (\<exists>e\<in>set kvs. prefix ks (fst e))"
        unfolding ip by (simp add: filter_empty_conv)
      then show ?thesis by (simp add: get_or_descendant_exists_def trie_meaning_def None Nil)
    next
      case (Cons e es')
      obtain k v where e: "e = (k, v)" by (cases e)
      from no_entry_first [OF notin, of k v es'] Cons ip e
      have *: "prefix (cast_slice ks) k" "k \<noteq> cast_slice ks" "(k, v) \<in> set ?es" by auto
      then have "length k \<noteq> key_len ks" using prefix_same_length [of "cast_slice ks" k] by simp
      moreover have "\<exists>e\<in>set kvs. prefix ks (fst e)" using * by force
      ultimately show ?thesis
        by (simp add: get_or_descendant_exists_def trie_meaning_def None Cons e)
    qed
  qed
qed

theorem trie_lookup_witness:
  "get_or_descendant_exists
     (\<lambda>p. filter (\<lambda>e. prefix p (fst e)) (map (map_prod cast_slice id) [([30, 31], 1 :: nat), ([30, 48, 46], 2)]))
     [30, 48] = InTrie"
proof -
  have "patricia_map (map (map_prod cast_slice id) [([30, 31], 1 :: nat), ([30, 48, 46], 2)])
     (\<lambda>p. filter (\<lambda>e. prefix p (fst e)) (map (map_prod cast_slice id) [([30, 31], 1 :: nat), ([30, 48, 46], 2)]))"
    by (simp add: patricia_map_def lexord_cons_cons)
  from trie_lookup [OF this, of "[30, 48]"] show ?thesis
    by (simp add: trie_meaning_def)
qed


section \<open>Typing a sequence\<close>

definition marked :: "u16 \<Rightarrow> bool" where
  "marked k \<longleftrightarrow> k AND KEY_OVERLAP_MARKER \<noteq> 0"

text \<open>No sequence with overlapping keys is known.\<close>

definition no_marks :: "(u16 list \<times> 'v) list \<Rightarrow> bool" where
  "no_marks kvs \<longleftrightarrow> (\<forall>e\<in>set kvs. \<forall>k\<in>set (fst e). \<not> marked k)"

lemma marked_marker [simp]: "marked KEY_OVERLAP_MARKER" "marked (x OR KEY_OVERLAP_MARKER)"
  by (simp_all add: marked_def KEY_OVERLAP_MARKER_def bit.conj_disj_distrib2)

lemma marked_not_found:
  assumes "no_marks kvs" "k \<in> set ks" "marked k"
  shows "trie_meaning kvs ks = NotInTrie"
proof -
  have "\<not> prefix ks (fst e)" if "e \<in> set kvs" for e
    using assms that by (auto simp: no_marks_def prefix_def)
  moreover from this have "map_of kvs ks = None"
    by (force simp: map_of_eq_None_iff)
  ultimately show ?thesis by (simp add: trie_meaning_def)
qed

lemma overlap_step_unmarked:
  assumes "look = trie_meaning kvs" "no_marks kvs"
  shows "\<exists>osq ro. overlap_step look x (p @ [(x AND MASK_KEYCODES) OR KEY_OVERLAP_MARKER]) = (True, osq, ro)"
proof -
  have *: "look (p @ ys) = NotInTrie" if "\<exists>y\<in>set ys. marked y" for ys
    using assms that marked_not_found [OF assms(2), of _ "p @ ys"] by auto
  show ?thesis
    by (simp add: overlap_step_def Let_def *)
qed

text \<open>A press that continues a sequence.\<close>

lemma press_continues:
  assumes "look = trie_meaning kvs" "no_marks kvs"
    and "ks_sequence s = p" "ks_overlapped s = p"
    and "look (p @ [pushed_into_seq k m]) \<noteq> NotInTrie"
  defines "s' \<equiv> s\<lparr>ks_ticks_until_timeout := ks_timeout s, ks_raw_oscs := ks_raw_oscs s @ [k],
      ks_sequence := p @ [pushed_into_seq k m], ks_overlapped := p @ [pushed_into_seq k m]\<rparr>"
  shows "do_sequence_press_logic rec look modcancel k m s l =
    and_then (finish_press rec look (look (p @ [pushed_into_seq k m])) (look (p @ [pushed_into_seq k m])) s' l)
      (\<lambda>(cs, s3, l'). Inr ((case ks_input_mode s of VisibleBackspaced \<Rightarrow> [CallPress k] | _ \<Rightarrow> []) @ cs, s3, l'))"
proof -
  obtain osq ro where o: "overlap_step look (pushed_into_seq k m)
      (p @ [(pushed_into_seq k m AND MASK_KEYCODES) OR KEY_OVERLAP_MARKER]) = (True, osq, ro)"
    using overlap_step_unmarked [OF assms(1,2)] by blast
  have st: "standard_step look modcancel (p @ [pushed_into_seq k m])
      = (False, p @ [pushed_into_seq k m], look (p @ [pushed_into_seq k m]))"
    using assms(5) by (simp add: standard_step_def)
  show ?thesis
    unfolding do_sequence_press_logic_def Let_def
    by (simp add: assms(3,4) o st reconcile_def s'_def)
qed

section \<open>Completion\<close>

lemma event_to_front_room:
  assumes "length (l_queue l) < QUEUE_SIZE"
  shows "event_to_front rec e l = Inr ((record_press e l)\<lparr>l_queue := queued_from e # l_queue l\<rparr>)"
  using assms
  by (cases e) (simp_all add: event_to_front_def Let_def wrap_push_front_def handle_overflow_def record_press_def)

definition erasable :: "u16 \<Rightarrow> bool" where
  "erasable k \<longleftrightarrow> \<not> is_mod (k AND MASK_KEYCODES) \<and> \<not> is_ignored (k AND MASK_KEYCODES)"

definition backspace :: "out_call list" where
  "backspace = [DirectPress KEY_BACKSPACE, DirectRelease KEY_BACKSPACE]"

lemma erase_sequence_unmarked:
  assumes "\<forall>k\<in>set ks. \<not> marked k"
  shows "erase_sequence ks 0 = (concat (replicate (length (filter erasable ks)) backspace), 0)"
  using assms
proof (induction ks)
  case (Cons k ks)
  then have "k \<noteq> KEY_OVERLAP_MARKER" by auto
  with Cons show ?case by (simp add: Let_def erasable_def backspace_def)
qed simp

text \<open>What is sent for the keys of a sequence and when it is complete.\<close>

definition typed_calls :: "sequence_input_mode \<Rightarrow> (keycode \<times> u16) list \<Rightarrow> out_call list" where
  "typed_calls mode ps = (if mode = VisibleBackspaced then map (\<lambda>p. CallPress (fst p)) ps else [])"

definition completed_calls :: "sequence_input_mode \<Rightarrow> u16 list \<Rightarrow> 't state list \<Rightarrow> out_call list" where
  "completed_calls mode sq sts =
     (if mode = VisibleBackspaced
      then map CallRelease (List.map_filter releases_for_erasing sts)
           @ concat (replicate (length (filter erasable sq)) backspace)
      else [])"

lemma termination_room:
  assumes "length (l_queue l) + 2 \<le> QUEUE_SIZE" "\<forall>k\<in>set (ks_overlapped s). \<not> marked k" "ks_noerase_count s = 0"
  shows "\<exists>s' l'. do_successful_sequence_termination rec i j EndOverlap s l
      = Inr (completed_calls (ks_input_mode s) (ks_overlapped s) (l_states l), s', l')
    \<and> \<not> ks_active s' \<and> l_queue l' = queued_from (Press i j) # queued_from (Release i j) # l_queue l"
  using assms
  by (cases "ks_input_mode s")
    (simp_all add: do_successful_sequence_termination_def Let_def event_to_front_room record_press_def
      erase_sequence_unmarked completed_calls_def split: prod.splits)

fun type_keys ::
  "'t do_act \<Rightarrow> (u16 list \<Rightarrow> (u8 \<times> u16) trie_result) \<Rightarrow> bool \<Rightarrow> (keycode \<times> u16) list \<Rightarrow> key_seq \<Rightarrow> 't layout
     \<Rightarrow> (out_call list \<times> key_seq \<times> 't layout) res" where
  "type_keys rec look modcancel [] s l = Inr ([], s, l)"
| "type_keys rec look modcancel ((k, m) # ps) s l =
     and_then (do_sequence_press_logic rec look modcancel k m s l) (\<lambda>(c1, s1, l1).
     and_then (type_keys rec look modcancel ps s1 l1) (\<lambda>(c2, s2, l2). Inr (c1 @ c2, s2, l2)))"


definition pushed_of :: "keycode \<times> u16 \<Rightarrow> u16" where
  "pushed_of p = pushed_into_seq (fst p) (snd p)"

lemma pushed_of_pair [simp]: "pushed_of (k, m) = pushed_into_seq k m"
  by (simp add: pushed_of_def)

lemma type_keys_append:
  "type_keys rec look modcancel (ps @ qs) s l =
     and_then (type_keys rec look modcancel ps s l) (\<lambda>(c1, s1, l1).
     and_then (type_keys rec look modcancel qs s1 l1) (\<lambda>(c2, s2, l2). Inr (c1 @ c2, s2, l2)))"
proof (induction ps arbitrary: s l)
  case Nil
  show ?case by (cases "type_keys rec look modcancel qs s l") auto
next
  case (Cons p ps)
  obtain k m where p: "p = (k, m)" by (cases p)
  show ?case
    by (simp add: p Cons.IH and_then_assoc case_prod_unfold)
qed

lemma type_keys_pending:
  assumes "look = trie_meaning kvs" "no_marks kvs"
    and "ks_sequence s = p" "ks_overlapped s = p"
    and "\<And>n. 0 < n \<Longrightarrow> n \<le> length ps \<Longrightarrow> look (p @ map pushed_of (take n ps)) = InTrie"
  shows "\<exists>s'. type_keys rec look modcancel ps s l = Inr (typed_calls (ks_input_mode s) ps, s', l)
    \<and> ks_active s' = ks_active s \<and> ks_input_mode s' = ks_input_mode s
    \<and> ks_noerase_count s' = ks_noerase_count s
    \<and> ks_sequence s' = p @ map pushed_of ps \<and> ks_overlapped s' = p @ map pushed_of ps"
  using assms(3-)
proof (induction ps arbitrary: s p)
  case Nil
  then show ?case by (auto simp: typed_calls_def)
next
  case (Cons q ps)
  obtain k m where q: "q = (k, m)" by (cases q)
  let ?p = "p @ [pushed_into_seq k m]"
  define s1 where "s1 = s\<lparr>ks_ticks_until_timeout := ks_timeout s, ks_raw_oscs := ks_raw_oscs s @ [k],
      ks_sequence := ?p, ks_overlapped := ?p\<rparr>"
  have f: "look ?p = InTrie" using Cons.prems(3) [of 1] by (simp add: q)
  then have nf: "look ?p \<noteq> NotInTrie" by simp
  have step: "do_sequence_press_logic rec look modcancel k m s l
      = Inr ((case ks_input_mode s of VisibleBackspaced \<Rightarrow> [CallPress k] | _ \<Rightarrow> []), s1, l)"
    unfolding press_continues [OF assms(1,2) Cons.prems(1,2) nf] f finish_press_def s1_def by simp
  have "look (?p @ map pushed_of (take n ps)) = InTrie" if "0 < n" "n \<le> length ps" for n
    using Cons.prems(3) [of "Suc n"] that by (simp add: q)
  from Cons.IH [of s1 ?p, OF _ _ this] obtain s' where
    "type_keys rec look modcancel ps s1 l = Inr (typed_calls (ks_input_mode s) ps, s', l)"
    "ks_active s' = ks_active s" "ks_input_mode s' = ks_input_mode s"
    "ks_noerase_count s' = ks_noerase_count s"
    "ks_sequence s' = ?p @ map pushed_of ps" "ks_overlapped s' = ?p @ map pushed_of ps"
    by (auto simp: s1_def)
  then show ?case
    by (cases "ks_input_mode s") (auto simp: q step typed_calls_def)
qed

lemma trie_meaning_prefix:
  assumes "map_of kvs (p @ q) = Some v" "map_of kvs p = None"
  shows "trie_meaning kvs p = InTrie"
  using assms by (force simp: trie_meaning_def dest: map_of_SomeD)




section \<open>The timeout\<close>

fun sequence_ticks :: "nat \<Rightarrow> key_seq \<Rightarrow> (out_call list \<times> key_seq) res" where
  "sequence_ticks 0 s = Inr ([], s)"
| "sequence_ticks (Suc n) s =
     and_then (tick_sequence_state s) (\<lambda>(c1, s1).
     and_then (sequence_ticks n s1) (\<lambda>(c2, s2). Inr (c1 @ c2, s2)))"

lemma sequence_ticks_counting:
  assumes "ks_active s" "n < unat (ks_ticks_until_timeout s)"
  shows "sequence_ticks n s = Inr ([], s\<lparr>ks_ticks_until_timeout := ks_ticks_until_timeout s - of_nat n\<rparr>)"
  using assms
proof (induction n arbitrary: s)
  case (Suc n)
  let ?t = "ks_ticks_until_timeout s"
  have t: "1 \<le> ?t" "?t \<noteq> 0" "unat (?t - 1) = unat ?t - 1"
    using Suc.prems(2) by (auto simp: word_le_nat_alt unat_sub)
  have "unat (?t - 1) \<noteq> 0" using t(3) Suc.prems(2) by simp
  then have "?t - 1 \<noteq> 0" by auto
  then have "tick_sequence_state s = Inr ([], s\<lparr>ks_ticks_until_timeout := ?t - 1\<rparr>)"
    using Suc.prems(1) t by (simp add: tick_sequence_state_def checked_sub_def)
  moreover have "sequence_ticks n (s\<lparr>ks_ticks_until_timeout := ?t - 1\<rparr>)
      = Inr ([], s\<lparr>ks_ticks_until_timeout := ?t - 1 - of_nat n\<rparr>)"
    using Suc.IH [of "s\<lparr>ks_ticks_until_timeout := ?t - 1\<rparr>"] Suc.prems t by simp
  ultimately show ?case by (simp add: algebra_simps)
qed simp

lemma sequence_ticks_add:
  "sequence_ticks (m + n) s =
     and_then (sequence_ticks m s) (\<lambda>(c1, s1).
     and_then (sequence_ticks n s1) (\<lambda>(c2, s2). Inr (c1 @ c2, s2)))"
proof (induction m arbitrary: s)
  case 0
  show ?case by (cases "sequence_ticks n s") auto
next
  case (Suc m)
  show ?case by (simp add: Suc.IH and_then_assoc case_prod_unfold)
qed

text \<open>C29: Without a further key a sequence lasts exactly as many ticks as its timeout says: until then
  nothing is sent and it stays active, and the last tick ends it. Then a sequence with delayed
  typing types all its keys in order, and in the other modes nothing is sent.\<close>

theorem sequence_times_out:
  assumes "ks_active s" and "ks_ticks_until_timeout s \<noteq> 0"
  shows "(\<forall>n<unat (ks_ticks_until_timeout s). \<exists>s'. sequence_ticks n s = Inr ([], s') \<and> ks_active s')
    \<and> (\<exists>s'. sequence_ticks (unat (ks_ticks_until_timeout s)) s
          = Inr (if ks_input_mode s = HiddenDelayType then concat (map tap_call (ks_raw_oscs s)) else [], s')
        \<and> \<not> ks_active s')"
proof (intro conjI allI impI)
  let ?t = "ks_ticks_until_timeout s"
  show "\<exists>s'. sequence_ticks n s = Inr ([], s') \<and> ks_active s'" if "n < unat ?t" for n
    using sequence_ticks_counting [OF assms(1) that] assms(1) by simp
  obtain n where n: "unat ?t = n + 1" using assms(2) by (metis Suc_eq_plus1 not0_implies_Suc unat_eq_zero)
  have "?t = of_nat (n + 1)" unfolding n [symmetric] by simp
  then have t: "?t - of_nat n = 1" by simp
  have "sequence_ticks 1 (s\<lparr>ks_ticks_until_timeout := 1\<rparr>)
      = Inr (cancel_sequence (s\<lparr>ks_ticks_until_timeout := 0\<rparr>))"
    using assms(1) by (simp add: tick_sequence_state_def checked_sub_def Let_def case_prod_unfold)
  moreover have "sequence_ticks n s = Inr ([], s\<lparr>ks_ticks_until_timeout := 1\<rparr>)"
    using sequence_ticks_counting [OF assms(1), of n] n t by simp
  ultimately have "sequence_ticks (unat ?t) s = Inr (cancel_sequence (s\<lparr>ks_ticks_until_timeout := 0\<rparr>))"
    unfolding n sequence_ticks_add by simp
  then show "\<exists>s'. sequence_ticks (unat ?t) s
          = Inr (if ks_input_mode s = HiddenDelayType then concat (map tap_call (ks_raw_oscs s)) else [], s')
        \<and> \<not> ks_active s'"
    by (cases "ks_input_mode s") (auto simp: cancel_sequence_def)
qed

theorem sequence_times_out_witness:
  "\<exists>s'. sequence_ticks 2 \<lparr>ks_raw_oscs = [30, 31], ks_sequence = [30, 31], ks_overlapped = [30, 31],
       ks_input_mode = HiddenDelayType, ks_ticks_until_timeout = 2, ks_timeout = 2, ks_active = True,
       ks_noerase_count = 0\<rparr>
     = Inr ([CallPress 30, CallRelease 30, CallPress 31, CallRelease 31], s') \<and> \<not> ks_active s'"
  using conjunct2 [OF sequence_times_out [of "\<lparr>ks_raw_oscs = [30, 31], ks_sequence = [30, 31],
       ks_overlapped = [30, 31], ks_input_mode = HiddenDelayType, ks_ticks_until_timeout = 2,
       ks_timeout = 2, ks_active = True, ks_noerase_count = 0\<rparr>"]]
  by (simp add: tap_call_def)


section \<open>Delayed typing\<close>

lemma cancel_sequence_fields [simp]:
  "ks_raw_oscs (snd (cancel_sequence s)) = ks_raw_oscs s"
  "ks_input_mode (snd (cancel_sequence s)) = ks_input_mode s"
  "ks_active (snd (cancel_sequence s)) = False"
  by (simp_all add: cancel_sequence_def)

text \<open>The tap of a virtual key at the front of the queue, after some states were dropped.\<close>

definition taps_virtual_key :: "'t do_act \<Rightarrow> 't layout \<Rightarrow> 't layout \<Rightarrow> bool" where
  "taps_virtual_key rec l l' \<longleftrightarrow>
     (\<exists>i j keep l1. set keep \<subseteq> set (l_states l)
        \<and> event_to_front rec (Release i j) (l\<lparr>l_states := keep\<rparr>) = Inr l1
        \<and> event_to_front rec (Press i j) l1 = Inr l')"

lemma drop_key_states_subset: "set (drop_key_states sq sts) \<subseteq> set sts"
proof -
  have "set (fold (\<lambda>k. filter (P k)) ks sts) \<subseteq> set sts" for P :: "u16 \<Rightarrow> 'a state \<Rightarrow> bool" and ks
    by (induction ks arbitrary: sts) (simp, force)
  then show ?thesis by (simp add: drop_key_states_def)
qed

lemma hidden_termination:
  assumes "do_successful_sequence_termination rec i j ty s l = Inr (cs, s', l')"
    and "ks_input_mode s \<noteq> VisibleBackspaced"
  shows "cs = [] \<and> s' = s\<lparr>ks_active := False\<rparr> \<and> taps_virtual_key rec l l'"
proof -
  let ?keep = "drop_key_states (case ty of EndStandard \<Rightarrow> ks_sequence s | EndOverlap \<Rightarrow> ks_overlapped s) (l_states l)"
  have "cs = [] \<and> s' = s\<lparr>ks_active := False\<rparr>
    \<and> (\<exists>l1. event_to_front rec (Release i j) (l\<lparr>l_states := ?keep\<rparr>) = Inr l1
        \<and> event_to_front rec (Press i j) l1 = Inr l')"
    using assms
    by (cases "ks_input_mode s"; cases ty)
      (auto simp: do_successful_sequence_termination_def Let_def and_then_Inr_iff)
  then show ?thesis
    unfolding taps_virtual_key_def using drop_key_states_subset
    by metis
qed

lemma overlap_step_invalid:
  "overlap_step look x osq = (True, osq', ro) \<Longrightarrow> ro = NotInTrie"
  by (auto simp: overlap_step_def Let_def split: if_splits)

lemma backtrack_result:
  "backtrack look mc i sq (look sq) = (b, sq', r') \<Longrightarrow> r' = look sq'"
proof (induction i arbitrary: sq)
  case (Suc i)
  define sq1 where "sq1 = (if sq ! i = KEY_OVERLAP_MARKER then remove_nth i sq
      else if mc then sq[i := sq ! i AND MASK_KEYCODES] else sq[i := sq ! i AND NOT KEY_OVERLAP_MARKER])"
  have "backtrack look mc (Suc i) sq (look sq)
      = (if look sq1 \<noteq> NotInTrie then (False, sq1, look sq1) else backtrack look mc i sq1 (look sq1))"
    by (simp only: backtrack.simps Let_def sq1_def)
  note eq = this
  show ?case
  proof (cases "look sq1 = NotInTrie")
    case True
    then have "backtrack look mc i sq1 (look sq1) = (b, sq', r')" using Suc.prems eq by simp
    then show ?thesis by (rule Suc.IH)
  next
    case False
    then show ?thesis using Suc.prems eq by auto
  qed
qed auto

lemma standard_step_result:
  "standard_step look mc sq = (b, sq', r') \<Longrightarrow> r' = look sq'"
  using backtrack_result [of look mc "length sq" sq b sq' r']
  by (auto simp: standard_step_def Let_def split: if_splits)

lemma drop_front_result:
  "drop_front look sq (look sq) = (sq', r') \<Longrightarrow> r' = look sq'"
  by (induction sq) (auto split: if_splits)

text \<open>What is left of the sequence state by \<open>reconcile\<close>; when it cancels, nothing is found any more.\<close>

lemma reconcile_delayed:
  assumes "reconcile look (b1, sq, look sq) ovl s = (cs, r, ro, s')" "ovl = (b2, osq, ro0)"
    and "b2 \<Longrightarrow> ro0 = NotInTrie" "look [] \<noteq> TrieValue v"
    and "ks_input_mode s = HiddenDelayType" "ks_active s"
  shows "ks_raw_oscs s' = ks_raw_oscs s \<and> ks_input_mode s' = HiddenDelayType
    \<and> (if ks_active s' then cs = [] else cs = concat (map tap_call (ks_raw_oscs s))
         \<and> ro = NotInTrie \<and> r \<noteq> TrieValue v)"
proof (cases "b1 \<and> b2")
  case True
  obtain sq' r' where d: "drop_front look sq (look sq) = (sq', r')" by (metis prod.exhaust)
  from drop_front_result [OF d] have "r' = look sq'" .
  then show ?thesis using assms True d
    by (cases "r' = NotInTrie \<or> sq' = []") (auto simp: reconcile_def Let_def cancel_sequence_def)
next
  case False
  then show ?thesis using assms by (auto simp: reconcile_def Let_def split: bool.splits)
qed

lemma finish_press_delayed:
  assumes "finish_press rec look r ro s l = Inr (cs, s', l')" "ks_input_mode s \<noteq> VisibleBackspaced"
  shows "cs = [] \<and> ks_raw_oscs s' = ks_raw_oscs s \<and> ks_input_mode s' = ks_input_mode s
    \<and> (if (\<exists>v. ro = TrieValue v \<or> r = TrieValue v)
        then \<not> ks_active s' \<and> taps_virtual_key rec l l'
        else s' = s \<and> l' = l)"
  using assms
  by (auto simp: finish_press_def Let_def split: trie_result.splits dest!: hidden_termination)

lemma press_delayed:
  assumes "do_sequence_press_logic rec look mc k m s l = Inr (cs, s', l')"
    and "\<And>v. look [] \<noteq> TrieValue v" "ks_input_mode s = HiddenDelayType" "ks_active s"
  shows "ks_raw_oscs s' = ks_raw_oscs s @ [k] \<and> ks_input_mode s' = HiddenDelayType
    \<and> (if ks_active s' then cs = [] \<and> l' = l
       else cs = concat (map tap_call (ks_raw_oscs s')) \<and> l' = l
            \<or> cs = [] \<and> taps_virtual_key rec l l')"
proof -
  let ?x = "pushed_into_seq k m"
  let ?s1 = "s\<lparr>ks_ticks_until_timeout := ks_timeout s, ks_raw_oscs := ks_raw_oscs s @ [k]\<rparr>"
  obtain b1 sq r0 where st: "standard_step look mc (ks_sequence s @ [?x]) = (b1, sq, r0)" by (metis prod.exhaust)
  obtain b2 osq ro0 where ov: "overlap_step look ?x
      (ks_overlapped s @ [(?x AND MASK_KEYCODES) OR KEY_OVERLAP_MARKER]) = (b2, osq, ro0)"
    by (metis prod.exhaust)
  obtain c1 r ro s2 where rc: "reconcile look (b1, sq, r0) (b2, osq, ro0) ?s1 = (c1, r, ro, s2)"
    by (metis prod.exhaust)
  from assms(1) obtain c2 where f: "finish_press rec look r ro s2 l = Inr (c2, s', l')" and cs: "cs = c1 @ c2"
    using assms(3) by (auto simp: do_sequence_press_logic_def Let_def st ov rc and_then_Inr_iff)
  have r0: "r0 = look sq" using standard_step_result [OF st] .
  have ro0: "b2 \<Longrightarrow> ro0 = NotInTrie" using overlap_step_invalid ov by metis
  have R: "ks_raw_oscs s2 = ks_raw_oscs s @ [k] \<and> ks_input_mode s2 = HiddenDelayType
    \<and> (if ks_active s2 then c1 = [] else c1 = concat (map tap_call (ks_raw_oscs s @ [k]))
         \<and> ro = NotInTrie \<and> r \<noteq> TrieValue v)" for v
    using reconcile_delayed [OF rc [unfolded r0] refl ro0 assms(2)] assms(3,4) by simp
  then have "ks_input_mode s2 \<noteq> VisibleBackspaced" by simp
  note F = finish_press_delayed [OF f this]
  show ?thesis
  proof (cases "ks_active s2")
    case True
    then show ?thesis using R F cs by (auto split: if_splits)
  next
    case False
    then have "\<not> (\<exists>v. ro = TrieValue v \<or> r = TrieValue v)" using R by simp
    then show ?thesis using R F cs False by simp
  qed
qed

text \<open>Typing while a sequence is active: the keys that are left when it has ended are returned.\<close>

fun sequence_run ::
  "'t do_act \<Rightarrow> (u16 list \<Rightarrow> (u8 \<times> u16) trie_result) \<Rightarrow> bool \<Rightarrow> (keycode \<times> u16) list \<Rightarrow> key_seq \<Rightarrow> 't layout
     \<Rightarrow> (out_call list \<times> (keycode \<times> u16) list \<times> key_seq \<times> 't layout) res" where
  "sequence_run rec look mc [] s l = Inr ([], [], s, l)"
| "sequence_run rec look mc (p # ps) s l =
     (if \<not> ks_active s then Inr ([], p # ps, s, l)
      else
        and_then (do_sequence_press_logic rec look mc (fst p) (snd p) s l) (\<lambda>(c1, s1, l1).
        and_then (sequence_run rec look mc ps s1 l1) (\<lambda>(c2, rest, s2, l2). Inr (c1 @ c2, rest, s2, l2))))"

lemma sequence_run_inactive:
  "\<not> ks_active s \<Longrightarrow> sequence_run rec look mc ps s l = Inr ([], ps, s, l)"
  by (cases ps) simp_all



end
