(* ===== verification/CustomActions.thy ===== *)
theory CustomActions
  imports Output Sequences
begin

text \<open>
  The custom actions the layout reports (\<open>parser/src/custom_action.rs\<close>) and caps-word
  (\<open>src/kanata/caps_word.rs\<close>). Characters and \<open>f32\<close> values, which are only handed on, are their bit
  patterns; \<open>OsCode\<close> and \<open>KeyCode\<close> are numbers.
\<close>

section \<open>Custom actions\<close>

type_synonym f32_bits = u32

datatype simple_sexpr = SimpleAtom string | SimpleList "simple_sexpr list"

datatype fake_key_action = FakePress | FakeRelease | FakeTap | FakeToggle

record fake_key_on_idle =
  fki_coord :: kcoord
  fki_action :: fake_key_action
  fki_idle_duration :: u16

record fake_key_hold =
  fkh_coord :: kcoord
  fkh_hold_duration :: u16

record mwheel_inertial =
  mwi_initial_velocity :: f32_bits
  mwi_maximum_velocity :: f32_bits
  mwi_acceleration_multiplier :: f32_bits
  mwi_deceleration_multiplier :: f32_bits

datatype move_direction = MoveUp | MoveDown | MoveLeft | MoveRight

datatype caps_word_repress = CapsOverwrite | CapsToggle

record caps_word_cfg =
  cwc_keys_to_capitalize :: "keycode list"
  cwc_keys_nonterminal :: "keycode list"
  cwc_timeout :: u16
  cwc_repress_behaviour :: caps_word_repress

datatype log_level = LogDebug | LogInfo | LogWarn | LogError | LogNone

datatype custom_action =
    Cmd "string list"
  | CmdLog log_level log_level "string list"
  | CmdOutputKeys "string list"
  | PushMessage "simple_sexpr list"
  | Unicode u32
  | Mouse btn
  | MouseTap btn
  | FakeKeyOnPress kcoord fake_key_action
  | FakeKeyOnRelease kcoord fake_key_action
  | FakeKeyOnIdle fake_key_on_idle
  | FakeKeyOnPhysicalIdle fake_key_on_idle
  | FakeKeyHoldForDuration fake_key_hold
  | DelayOnPress u16
  | DelayOnRelease u16
  | MWheel wheel_direction u16 u16 "mwheel_inertial option"
  | MWheelNotch wheel_direction
  | MoveMouse move_direction u16 u16
  | MoveMouseAccel move_direction u16 u16 u16 u16
  | MoveMouseSpeed u16
  | SequenceCancel
  | SequenceLeader u16 sequence_input_mode
  | SequenceNoerase u16
  | LiveReload
  | LiveReloadNext
  | LiveReloadPrev
  | LiveReloadNum u16
  | LiveReloadFile string
  | RepeatKey
  | CancelMacroOnRelease
  | CancelMacroOnNextPress u32
  | DynamicMacroRecord u16
  | DynamicMacroRecordStop u16
  | DynamicMacroPlay u16
  | SendArbitraryCode u16
  | CapsWord caps_word_cfg
  | SetMouse u16 u16
  | Unmodded "keycode list" u8
  | Unshifted "keycode list"
  | ReverseReleaseOrder
  | ClipboardSet string
  | ClipboardCmdSet "string list"
  | ClipboardSave u16
  | ClipboardRestore u16
  | ClipboardSaveSet u16 string
  | ClipboardSaveCmdSet u16 "string list"
  | ClipboardSaveSwap u16 u16

section \<open>Caps-word\<close>

record caps_word_state =
  cw_keys_to_capitalize :: "keycode list"
  cw_keys_nonterminal :: "keycode list"
  cw_timeout :: u16
  cw_timeout_ticks :: u16

datatype caps_word_next = CapsActive | CapsEnd

definition caps_word_new :: "caps_word_cfg \<Rightarrow> caps_word_state" where
  "caps_word_new cfg =
     \<lparr>cw_keys_to_capitalize = cwc_keys_to_capitalize cfg, cw_keys_nonterminal = cwc_keys_nonterminal cfg,
      cw_timeout = cwc_timeout cfg, cw_timeout_ticks = cwc_timeout cfg\<rparr>"

definition tick_maybe_add_lsft ::
  "keycode list \<Rightarrow> caps_word_state \<Rightarrow> caps_word_next \<times> keycode list \<times> caps_word_state" where
  "tick_maybe_add_lsft keys cw =
     (if cw_timeout_ticks cw = 0 then (CapsEnd, keys, cw)
      else if \<exists>kc\<in>set keys. kc \<notin> set (cw_keys_to_capitalize cw) \<and> kc \<notin> set (cw_keys_nonterminal cw)
      then (CapsEnd, keys, cw)
      else
        let keys' = (if keys \<noteq> [] \<and> last keys \<in> set (cw_keys_to_capitalize cw) then LShift # keys else keys);
            ticks = (if keys' \<noteq> [] then cw_timeout cw else cw_timeout_ticks cw) in
        (CapsActive, keys', cw\<lparr>cw_timeout_ticks := sat_sub ticks 1\<rparr>))"

end
