(* ===== verification/DynamicMacro.thy ===== *)
theory DynamicMacro
  imports Keys
begin

text \<open>
  Dynamic macros (\<open>src/kanata/dynamic_macro.rs\<close>): recording what is typed, and replaying it with
  the recorded delays or with constant ones; and the part of the processing loop
  (\<open>Kanata::tick_ms\<close> in \<open>src/kanata/mod.rs\<close>) that feeds the replayed events to the layout.
  The order in which a hash set is iterated is the parameter \<open>arb\<close> of the definitions that
  iterate over one.
\<close>

section \<open>Data\<close>

datatype macro_item = ItemPress u16 u16 | ItemRelease u16 u16 | EndMacro u16

datatype waiting_type = PressWaits | ReleaseWaits

record record_state =
  rs_id :: u16
  rs_waiting :: "(u16 \<times> waiting_type) option"
  rs_items :: "macro_item list"
  rs_delay :: u16

record replay_state =
  rp_active :: "u16 set"
  rp_delay :: u16
  rp_items :: "macro_item list"

type_synonym replay_event = "event \<times> u16"

datatype delay_behaviour = ConstantDelay | RecordedDelay

type_synonym saved_macro = "u16 \<times> macro_item list"

section \<open>Recording\<close>

definition record_state_new :: "u16 \<Rightarrow> record_state" where
  "record_state_new i = \<lparr>rs_id = i, rs_waiting = None, rs_items = [], rs_delay = 0\<rparr>"

text \<open>The keys that are pressed and not released, in the order of their presses.\<close>

fun note_item :: "macro_item \<Rightarrow> u16 list \<Rightarrow> u16 list" where
  "note_item (ItemPress k d) ks = (if k \<in> set ks then ks else ks @ [k])"
| "note_item (ItemRelease k d) ks = removeAll k ks"
| "note_item (EndMacro i) ks = ks"

definition unreleased :: "macro_item list \<Rightarrow> u16 list" where
  "unreleased items = fold note_item items []"

definition add_release_for_all_unreleased_presses ::
  "(u16 list \<Rightarrow> u16 list) \<Rightarrow> macro_item list \<Rightarrow> macro_item list" where
  "add_release_for_all_unreleased_presses arb items =
     items @ map (\<lambda>k. ItemRelease k 0) (arb (unreleased items))"

text \<open>\<open>waiting_event.take()\<close>, and the event is pushed with the time since then.\<close>

definition push_waiting :: "record_state \<Rightarrow> record_state" where
  "push_waiting s =
     (case rs_waiting s of
        None \<Rightarrow> s
      | Some (k, PressWaits) \<Rightarrow> s\<lparr>rs_waiting := None, rs_items := rs_items s @ [ItemPress k (rs_delay s)]\<rparr>
      | Some (k, ReleaseWaits) \<Rightarrow> s\<lparr>rs_waiting := None, rs_items := rs_items s @ [ItemRelease k (rs_delay s)]\<rparr>)"

definition add_event :: "u16 \<Rightarrow> waiting_type \<Rightarrow> record_state \<Rightarrow> record_state" where
  "add_event k ty s = (push_waiting s)\<lparr>rs_delay := 0, rs_waiting := Some (k, ty)\<rparr>"

definition tick_record_state :: "record_state option \<Rightarrow> record_state option" where
  "tick_record_state rs = map_option (\<lambda>s. s\<lparr>rs_delay := sat_add (rs_delay s) 1\<rparr>) rs"

text \<open>\<open>macro_items.remove(len - 1)\<close> panics when there is no item.\<close>

definition remove_last :: "macro_item list \<Rightarrow> macro_item list res" where
  "remove_last items = (if items = [] then Inl Panic else Inr (butlast items))"

definition begin_record_macro ::
  "(u16 list \<Rightarrow> u16 list) \<Rightarrow> u16 \<Rightarrow> record_state option \<Rightarrow> (record_state option \<times> saved_macro option) res" where
  "begin_record_macro arb i rs =
     (case rs of
        None \<Rightarrow> Inr (Some (record_state_new i), None)
      | Some s \<Rightarrow>
          and_then (remove_last (rs_items (push_waiting s))) (\<lambda>items.
            Inr (if rs_id s = i then None else Some (record_state_new i),
                 Some (rs_id s, add_release_for_all_unreleased_presses arb items))))"

definition record_press ::
  "(u16 list \<Rightarrow> u16 list) \<Rightarrow> u16 \<Rightarrow> u16 \<Rightarrow> record_state option \<Rightarrow> record_state option \<times> saved_macro option" where
  "record_press arb k max_presses rs =
     (case rs of
        None \<Rightarrow> (None, None)
      | Some s \<Rightarrow>
          if length (rs_items s) > unat max_presses * 2
          then (None, Some (rs_id s, add_release_for_all_unreleased_presses arb (rs_items s)))
          else (Some (add_event k PressWaits s), None))"

definition record_release :: "u16 \<Rightarrow> record_state option \<Rightarrow> record_state option" where
  "record_release k rs = map_option (add_event k ReleaseWaits) rs"

definition stop_macro ::
  "(u16 list \<Rightarrow> u16 list) \<Rightarrow> u16 \<Rightarrow> record_state option \<Rightarrow> (record_state option \<times> saved_macro option) res" where
  "stop_macro arb n rs =
     (case rs of
        None \<Rightarrow> Inr (None, None)
      | Some s \<Rightarrow>
          and_then (remove_last (rs_items (push_waiting s))) (\<lambda>items.
            Inr (None, Some (rs_id s,
              add_release_for_all_unreleased_presses arb (take (length items - unat n) items)))))"

section \<open>Replaying\<close>

text \<open>The recorded delay is what is left to wait and part of the event; a constant delay is five
  ticks.\<close>

definition replay_item ::
  "delay_behaviour \<Rightarrow> event \<Rightarrow> u16 \<Rightarrow> replay_state \<Rightarrow> replay_state option \<times> replay_event option" where
  "replay_item b ev d s =
     (case b of
        ConstantDelay \<Rightarrow> (Some s, Some (ev, 0))
      | RecordedDelay \<Rightarrow> (Some (s\<lparr>rp_delay := d\<rparr>), Some (ev, d)))"

definition tick_replay_state ::
  "delay_behaviour \<Rightarrow> replay_state option \<Rightarrow> replay_state option \<times> replay_event option" where
  "tick_replay_state b rp =
     (case rp of
        None \<Rightarrow> (None, None)
      | Some s0 \<Rightarrow>
          let s = s0\<lparr>rp_delay := sat_sub (rp_delay s0) 1\<rparr> in
          if rp_delay s \<noteq> 0 then (Some s, None)
          else
            (case rp_items s of
               [] \<Rightarrow> (None, None)
             | i # is \<Rightarrow>
                 let s = s\<lparr>rp_delay := 5, rp_items := is\<rparr> in
                 (case i of
                    ItemPress k d \<Rightarrow> replay_item b (Press 0 k) d s
                  | ItemRelease k d \<Rightarrow> replay_item b (Release 0 k) d s
                  | EndMacro m \<Rightarrow> (Some (s\<lparr>rp_active := rp_active s - {m}\<rparr>), None))))"

definition play_macro ::
  "u16 \<Rightarrow> (u16 \<rightharpoonup> macro_item list) \<Rightarrow> replay_state option \<Rightarrow> replay_state option" where
  "play_macro i recorded rp =
     (case rp of
        None \<Rightarrow> map_option (\<lambda>items. \<lparr>rp_active = {i}, rp_delay = 0, rp_items = items\<rparr>) (recorded i)
      | Some s \<Rightarrow>
          if i \<in> rp_active s then Some s
          else
            (case recorded i of
               None \<Rightarrow> Some s
             | Some items \<Rightarrow>
                 Some (s\<lparr>rp_active := insert i (rp_active s),
                         rp_items := items @ EndMacro i # rp_items s\<rparr>)))"

section \<open>The processing loop\<close>

text \<open>\<open>Kanata::tick_ms\<close>, as far as the replay is concerned: what \<open>tick_states\<close> does to the replay is
  to play the macros \<open>plays n\<close>, the custom actions reported in tick \<open>n\<close>. The events go to
  the layout, with the number of the tick before which they happen. The state is the replay, the
  number of ticks done and the events.\<close>

record loop_state =
  lp_replay :: "replay_state option"
  lp_ticks :: nat
  lp_events :: "(nat \<times> event) list"

definition tick_states_replay ::
  "(u16 \<rightharpoonup> macro_item list) \<Rightarrow> (nat \<Rightarrow> u16 list) \<Rightarrow> loop_state \<Rightarrow> loop_state" where
  "tick_states_replay recorded plays l =
     l\<lparr>lp_replay := fold (\<lambda>i. play_macro i recorded) (plays (lp_ticks l)) (lp_replay l),
       lp_ticks := lp_ticks l + 1\<rparr>"

fun tick_ms_first ::
  "(u16 \<rightharpoonup> macro_item list) \<Rightarrow> (nat \<Rightarrow> u16 list) \<Rightarrow> delay_behaviour \<Rightarrow> nat \<Rightarrow> u16 \<Rightarrow> loop_state
     \<Rightarrow> u16 \<times> loop_state" where
  "tick_ms_first recorded plays b 0 extra l = (extra, l)"
| "tick_ms_first recorded plays b (Suc n) extra l =
     (let l = tick_states_replay recorded plays l in
      case tick_replay_state b (lp_replay l) of
        (rp, None) \<Rightarrow> tick_ms_first recorded plays b n extra (l\<lparr>lp_replay := rp\<rparr>)
      | (rp, Some (ev, d)) \<Rightarrow>
          tick_ms_first recorded plays b n (sat_add extra d)
            (l\<lparr>lp_replay := rp, lp_events := lp_events l @ [(lp_ticks l, ev)]\<rparr>))"

text \<open>The second loop; \<open>True\<close> when it is left with the error \<open>overshot to next event\<close>, and the
  event is lost.\<close>

fun tick_ms_extra ::
  "(u16 \<rightharpoonup> macro_item list) \<Rightarrow> (nat \<Rightarrow> u16 list) \<Rightarrow> delay_behaviour \<Rightarrow> nat \<Rightarrow> loop_state
     \<Rightarrow> bool \<times> loop_state" where
  "tick_ms_extra recorded plays b 0 l = (False, l)"
| "tick_ms_extra recorded plays b (Suc n) l =
     (let l = tick_states_replay recorded plays l in
      case tick_replay_state b (lp_replay l) of
        (rp, None) \<Rightarrow> tick_ms_extra recorded plays b n (l\<lparr>lp_replay := rp\<rparr>)
      | (rp, Some _) \<Rightarrow> (True, l\<lparr>lp_replay := rp\<rparr>))"

definition tick_ms ::
  "(u16 \<rightharpoonup> macro_item list) \<Rightarrow> (nat \<Rightarrow> u16 list) \<Rightarrow> delay_behaviour \<Rightarrow> u128 \<Rightarrow> loop_state
     \<Rightarrow> bool \<times> loop_state" where
  "tick_ms recorded plays b ms l =
     (case tick_ms_first recorded plays b (unat ms) 0 l of
        (extra, l') \<Rightarrow> tick_ms_extra recorded plays b (unat (sat_sub extra (ucast ms))) l')"

end
