(* ===== verification/Processing.thy ===== *)
theory Processing
  imports CustomActions Overrides DynamicMacro
begin

text \<open>
  The processing of key states (\<open>src/kanata/mod.rs\<close>, \<open>src/kanata/key_repeat.rs\<close>): one tick of the layout
  gives the keys that should be down and a custom action; unmodding, overrides and caps-word
  change the keys; what differs from the previous tick is released and pressed, or typed into an
  active sequence; then the custom action is carried out. The state is a record of the fields of
  \<open>Kanata\<close> this needs. Scrolling, mouse movement, the clipboard, commands, messages and the log are left
  out; the environment is three fields: the lookup in the trie of sequences, whether a
  configuration file exists, and the arbitrary order of a hash set. \<open>n\<close> bounds the nesting of
  actions in the layout.
\<close>

section \<open>State\<close>

record kanata =
  k_key_outputs :: "(u16 \<rightharpoonup> u16 list) list"
  k_layout :: "custom_action layout"
  k_cur_keys :: "keycode list"
  k_prev_keys :: "keycode list"
  k_prev_layer :: nat
  k_cfg_paths :: "string list"
  k_cur_cfg_idx :: nat
  k_sequence_backtrack_modcancel :: bool
  k_sequence_always_on :: bool
  k_sequence_input_mode :: sequence_input_mode
  k_sequence_timeout :: u16
  k_sequence_state :: key_seq
  k_sequences :: "u16 list \<Rightarrow> (u8 \<times> u16) trie_result"
  k_dynamic_macros :: "u16 \<rightharpoonup> macro_item list"
  k_replay_state :: "replay_state option"
  k_record_state :: "record_state option"
  k_overrides :: overrides
  k_override_states :: override_states
  k_live_reload_requested :: bool
  k_caps_word :: "caps_word_state option"
  k_waiting_for_idle :: "fake_key_on_idle list"
  k_waiting_for_physical_idle :: "fake_key_on_idle list"
  k_vkeys_pending_release :: "(kcoord \<times> u16) list"
  k_ticks_since_idle :: u16
  k_ticks_since_physical_idle :: u16
  k_override_release_on_activation :: bool
  k_dynamic_macro_max_presses :: u16
  k_replay_behaviour :: delay_behaviour
  k_unmodded_keys :: "keycode list"
  k_unmodded_mods :: u8
  k_unshifted_keys :: "keycode list"
  k_last_pressed_key :: keycode
  k_max_key_timing_check :: u16
  k_macro_on_press_cancel_duration :: u32
  k_path_exists :: "string \<Rightarrow> bool"
  k_hash_order :: "u16 list \<Rightarrow> u16 list"

type_synonym step_result = "(out_call list \<times> kanata) res"

text \<open>Running one step after another, with the calls of both.\<close>

definition then_step :: "step_result \<Rightarrow> (kanata \<Rightarrow> step_result) \<Rightarrow> step_result" where
  "then_step m f = and_then m (\<lambda>(cs, k). and_then (f k) (\<lambda>(cs', k'). Inr (cs @ cs', k')))"

section \<open>Virtual keys\<close>

definition states_has_coord :: "'t state list \<Rightarrow> kcoord \<Rightarrow> bool" where
  "states_has_coord sts c \<longleftrightarrow> (\<exists>s\<in>set sts. st_coord s = Some c)"

definition handle_fakekey_action ::
  "'t do_act \<Rightarrow> fake_key_action \<Rightarrow> kcoord \<Rightarrow> 't layout \<Rightarrow> 't layout res" where
  "handle_fakekey_action rec a c l =
     (let press = layout_event rec (Press (fst c) (snd c));
          release = layout_event rec (Release (fst c) (snd c)) in
      case a of
        FakePress \<Rightarrow> press l
      | FakeRelease \<Rightarrow> release l
      | FakeTap \<Rightarrow> and_then (press l) release
      | FakeToggle \<Rightarrow> if states_has_coord (l_states l) c then release l else press l)"

text \<open>Changing the layout inside the state.\<close>

definition on_layout :: "(custom_action layout \<Rightarrow> custom_action layout res) \<Rightarrow> kanata \<Rightarrow> step_result" where
  "on_layout f k = and_then (f (k_layout k)) (\<lambda>l. Inr ([], k\<lparr>k_layout := l\<rparr>))"

section \<open>Early custom actions and the list of keys\<close>

text \<open>The flag asks for the releases in reverse order.\<close>

definition early_custom :: "custom_action custom_event \<Rightarrow> kanata \<Rightarrow> (bool \<times> kanata) res" where
  "early_custom ce k =
     (case ce of
        CPress (Unmodded keys mods) \<Rightarrow>
          Inr (False, k\<lparr>k_unmodded_keys := k_unmodded_keys k @ keys, k_unmodded_mods := mods\<rparr>)
      | CPress (Unshifted keys) \<Rightarrow>
          Inr (False, k\<lparr>k_unshifted_keys := k_unshifted_keys k @ keys\<rparr>)
      | CPress (SequenceNoerase c) \<Rightarrow>
          if ks_active (k_sequence_state k) then
            and_then (add_noerase c (k_sequence_state k)) (\<lambda>s. Inr (False, k\<lparr>k_sequence_state := s\<rparr>))
          else Inr (False, k)
      | CRelease (Unmodded keys mods) \<Rightarrow>
          Inr (False, k\<lparr>k_unmodded_keys := filter (\<lambda>x. x \<notin> set keys) (k_unmodded_keys k)\<rparr>)
      | CRelease (Unshifted keys) \<Rightarrow>
          Inr (False, k\<lparr>k_unshifted_keys := filter (\<lambda>x. x \<notin> set keys) (k_unshifted_keys k)\<rparr>)
      | CRelease ReverseReleaseOrder \<Rightarrow> Inr (True, k)
      | _ \<Rightarrow> Inr (False, k))"

definition unmod_keycodes :: "u8 \<Rightarrow> keycode list" where
  "unmod_keycodes mods =
     map snd (filter (\<lambda>(i, kc). bit mods i)
       [(0, LShift), (1, RShift), (2, LAlt), (3, RAlt), (4, LCtrl), (5, RCtrl), (6, LGui), (7, RGui)])"

definition unmod_keys :: "kanata \<Rightarrow> kanata" where
  "unmod_keys k =
     (if k_unmodded_keys k \<noteq> [] then
        k\<lparr>k_cur_keys := filter (\<lambda>x. x \<notin> set (unmod_keycodes (k_unmodded_mods k))) (k_cur_keys k)
             @ k_unmodded_keys k\<rparr>
      else k)"

definition unshift_keys :: "kanata \<Rightarrow> kanata" where
  "unshift_keys k =
     (if k_unshifted_keys k \<noteq> [] then
        k\<lparr>k_cur_keys := filter (\<lambda>x. x \<noteq> LShift \<and> x \<noteq> RShift) (k_cur_keys k) @ k_unshifted_keys k\<rparr>
      else k)"

definition apply_overrides :: "kanata \<Rightarrow> kanata res" where
  "apply_overrides k =
     and_then (override_keys (k_overrides k) (k_cur_keys k) (k_override_states k)
                 (of_nat (current_layer (k_layout k)))) (\<lambda>(keys, st).
       let marked = mark_overridden_nonmodkeys_for_eager_erasure st (l_states (k_layout k));
           states = (if k_override_release_on_activation k
                     then fold (\<lambda>removed. filter (st_release_state (RsKeyCode removed)))
                            (filter (\<lambda>x. \<not> is_mod x) (ovs_remove st)) marked
                     else marked) in
       Inr (k\<lparr>k_cur_keys := keys, k_override_states := st,
              k_layout := (k_layout k)\<lparr>l_states := states\<rparr>\<rparr>))"

definition apply_caps_word :: "kanata \<Rightarrow> kanata" where
  "apply_caps_word k =
     (case k_caps_word k of
        None \<Rightarrow> k
      | Some cw \<Rightarrow>
          (case tick_maybe_add_lsft (k_cur_keys k) cw of
             (next, keys, cw') \<Rightarrow>
               k\<lparr>k_cur_keys := keys, k_caps_word := (if next = CapsEnd then None else Some cw')\<rparr>))"

text \<open>The keys of this tick.\<close>

definition compute_keys :: "custom_action custom_event \<Rightarrow> kanata \<Rightarrow> (bool \<times> kanata) res" where
  "compute_keys ce k =
     and_then (early_custom ce (k\<lparr>k_cur_keys := k_cur_keys k @ keycodes (k_layout k)\<rparr>)) (\<lambda>(rev_order, k1).
     and_then (apply_overrides (unshift_keys (unmod_keys k1))) (\<lambda>k2.
       Inr (rev_order, apply_caps_word k2)))"

section \<open>Releases and presses\<close>

definition release_old_keys :: "bool \<Rightarrow> kanata \<Rightarrow> out_call list" where
  "release_old_keys rev_order k =
     map CallRelease (filter (\<lambda>x. x \<notin> set (k_cur_keys k))
       (if rev_order then rev (k_prev_keys k) else k_prev_keys k))"

text \<open>When the last key is released, an overlap ends.\<close>

definition end_overlap :: "nat \<Rightarrow> kanata \<Rightarrow> step_result" where
  "end_overlap n k =
     (if k_cur_keys k = [] \<and> k_prev_keys k \<noteq> [] \<and> ks_active (k_sequence_state k) then
        let s = (k_sequence_state k)\<lparr>ks_overlapped := ks_overlapped (k_sequence_state k) @ [KEY_OVERLAP_MARKER]\<rparr> in
        (case k_sequences k (ks_overlapped s) of
           TrieValue (i, j) \<Rightarrow>
             and_then (do_successful_sequence_termination (do_action n) i j EndOverlap s (k_layout k))
               (\<lambda>(cs, s', l'). Inr (cs, k\<lparr>k_sequence_state := s', k_layout := l'\<rparr>))
         | NotInTrie \<Rightarrow> Inr ([], k\<lparr>k_sequence_state := s\<lparr>ks_overlapped := ks_sequence s\<rparr>\<rparr>)
         | InTrie \<Rightarrow> Inr ([], k\<lparr>k_sequence_state := s\<rparr>))
      else Inr ([], k))"

definition press_new_key :: "nat \<Rightarrow> keycode list \<Rightarrow> keycode \<Rightarrow> kanata \<Rightarrow> step_result" where
  "press_new_key n cur_keys x k0 =
     (let k1 = k0\<lparr>k_prev_keys := k_prev_keys k0 @ [x], k_last_pressed_key := x\<rparr>;
          k2 = (if k_sequence_always_on k1 \<and> \<not> ks_active (k_sequence_state k1)
                then k1\<lparr>k_sequence_state := ks_activate (k_sequence_input_mode k1) (k_sequence_timeout k1)
                          (k_sequence_state k1)\<rparr>
                else k1) in
      if ks_active (k_sequence_state k2) then
        and_then (do_sequence_press_logic (do_action n) (k_sequences k2) (k_sequence_backtrack_modcancel k2) x
                    (get_mod_mask_for_cur_keys cur_keys) (k_sequence_state k2) (k_layout k2))
          (\<lambda>(cs, s', l'). Inr (cs, k2\<lparr>k_sequence_state := s', k_layout := l'\<rparr>))
      else Inr ([CallPress x], k2))"

fun press_new_keys :: "nat \<Rightarrow> keycode list \<Rightarrow> keycode list \<Rightarrow> kanata \<Rightarrow> step_result" where
  "press_new_keys n cur_keys [] k = Inr ([], k)"
| "press_new_keys n cur_keys (x # xs) k =
     (if x \<in> set (k_prev_keys k) then press_new_keys n cur_keys xs k
      else then_step (press_new_key n cur_keys x k) (press_new_keys n cur_keys xs))"

section \<open>Custom actions\<close>

text \<open>\<open>CustomAction::Repeat\<close> types the last key again, with shift when caps-word asks for it.\<close>

definition repeat_last_key :: "kanata \<Rightarrow> out_call list \<times> kanata" where
  "repeat_last_key k =
     (let x = k_last_pressed_key k;
          (caps, k') =
            (case k_caps_word k of
               Some cw \<Rightarrow>
                 if LShift \<notin> set (k_cur_keys k) then
                   (case tick_maybe_add_lsft (k_cur_keys k @ [x]) cw of
                      (next, keys, cw') \<Rightarrow>
                        (length keys > length (k_cur_keys k) + 1,
                         k\<lparr>k_cur_keys := keys, k_caps_word := Some cw'\<rparr>))
                 else (False, k)
             | None \<Rightarrow> (False, k)) in
      ((if caps then [CallPress LShift] else []) @ [CallRelease x, CallPress x, CallRelease x]
         @ (if caps then [DirectRelease LShift] else []), k'))"

text \<open>The requests to reload a configuration file; \<open>False\<close> when the file does not exist.\<close>

definition request_live_reload :: "kanata \<Rightarrow> kanata" where
  "request_live_reload k = k\<lparr>k_live_reload_requested := True\<rparr>"

definition request_live_reload_next :: "kanata \<Rightarrow> kanata" where
  "request_live_reload_next k =
     k\<lparr>k_live_reload_requested := True,
       k_cur_cfg_idx := (if k_cur_cfg_idx k = length (k_cfg_paths k) - 1 then 0 else k_cur_cfg_idx k + 1)\<rparr>"

definition request_live_reload_prev :: "kanata \<Rightarrow> kanata" where
  "request_live_reload_prev k =
     k\<lparr>k_live_reload_requested := True,
       k_cur_cfg_idx := (if k_cur_cfg_idx k = 0 then length (k_cfg_paths k) - 1 else k_cur_cfg_idx k - 1)\<rparr>"

definition request_live_reload_num :: "nat \<Rightarrow> kanata \<Rightarrow> bool \<times> kanata" where
  "request_live_reload_num i k =
     (if length (k_cfg_paths k) \<le> i then (False, k)
      else (True, k\<lparr>k_live_reload_requested := True, k_cur_cfg_idx := i\<rparr>))"

definition request_live_reload_file :: "string \<Rightarrow> kanata \<Rightarrow> bool \<times> kanata" where
  "request_live_reload_file path k =
     (if \<not> k_path_exists k path then (False, k)
      else (True, k\<lparr>k_live_reload_requested := True, k_cfg_paths := k_cfg_paths k @ [path],
                    k_cur_cfg_idx := length (k_cfg_paths k @ [path]) - 1\<rparr>))"

definition save_macro :: "saved_macro option \<Rightarrow> kanata \<Rightarrow> kanata" where
  "save_macro m k =
     (case m of None \<Rightarrow> k | Some (i, items) \<Rightarrow> k\<lparr>k_dynamic_macros := (k_dynamic_macros k)(i \<mapsto> items)\<rparr>)"

definition hold_for_duration :: "nat \<Rightarrow> fake_key_hold \<Rightarrow> kanata \<Rightarrow> step_result" where
  "hold_for_duration n h k =
     (let c = fkh_coord h; d = fkh_hold_duration h in
      if c \<in> fst ` set (k_vkeys_pending_release k) then
        Inr ([], k\<lparr>k_vkeys_pending_release :=
                    map (\<lambda>(c', d'). (c', if c' = c then d else d')) (k_vkeys_pending_release k)\<rparr>)
      else
        on_layout (layout_event (do_action n) (Press (fst c) (snd c)))
          (k\<lparr>k_vkeys_pending_release := k_vkeys_pending_release k @ [(c, d)]\<rparr>))"

definition cancel_macros :: "custom_action layout \<Rightarrow> custom_action layout" where
  "cancel_macros l =
     l\<lparr>l_sequences := [],
       l_states := filter (\<lambda>s. case s of FakeKey _ \<Rightarrow> False | RepeatingSequence _ _ \<Rightarrow> False | _ \<Rightarrow> True) (l_states l)\<rparr>"

text \<open>The press of a custom action, after the keys; the flag is the live reload it requests.\<close>

definition press_custom :: "nat \<Rightarrow> custom_action \<Rightarrow> kanata \<Rightarrow> (bool \<times> out_call list \<times> kanata) res" where
  "press_custom n a k =
     (let quiet = (\<lambda>k'. Inr (False, [], k'));
          plain = (\<lambda>m. and_then m (\<lambda>(cs, k'). Inr (False, cs, k'))) in
      case a of
        Unicode c \<Rightarrow> Inr (False, [OtherOutput (SendUnicode c)], k)
      | Mouse b \<Rightarrow> Inr (False, [OtherOutput (ClickBtn b)], k)
      | MouseTap b \<Rightarrow> Inr (False, [OtherOutput (ClickBtn b), OtherOutput (ReleaseBtn b)], k)
      | MWheelNotch d \<Rightarrow> Inr (False, [OtherOutput (Scroll d HI_RES_SCROLL_UNITS_IN_LO_RES)], k)
      | SetMouse x y \<Rightarrow> Inr (False, [OtherOutput (SetMousePos x y)], k)
      | SendArbitraryCode c \<Rightarrow> Inr (False, [OtherOutput (WriteCode (ucast c) True)], k)
      | LiveReload \<Rightarrow> Inr (True, [], request_live_reload k)
      | LiveReloadNext \<Rightarrow> Inr (True, [], request_live_reload_next k)
      | LiveReloadPrev \<Rightarrow> Inr (True, [], request_live_reload_prev k)
      | LiveReloadNum i \<Rightarrow> (case request_live_reload_num (unat i) k of (b, k') \<Rightarrow> Inr (b, [], k'))
      | LiveReloadFile p \<Rightarrow> (case request_live_reload_file p k of (b, k') \<Rightarrow> Inr (b, [], k'))
      | FakeKeyOnPress c act \<Rightarrow> plain (on_layout (handle_fakekey_action (do_action n) act c) k)
      | SequenceCancel \<Rightarrow>
          if ks_active (k_sequence_state k) then
            (case cancel_sequence (k_sequence_state k) of
               (cs, s) \<Rightarrow> Inr (False, cs, k\<lparr>k_sequence_state := s\<rparr>))
          else quiet k
      | SequenceLeader timeout mode \<Rightarrow>
          if \<not> ks_active (k_sequence_state k) \<or> mode = HiddenSuppressed
          then quiet (k\<lparr>k_sequence_state := ks_activate mode timeout (k_sequence_state k)\<rparr>)
          else quiet k
      | RepeatKey \<Rightarrow> (case repeat_last_key k of (cs, k') \<Rightarrow> Inr (False, cs, k'))
      | DynamicMacroRecord i \<Rightarrow>
          and_then (begin_record_macro (k_hash_order k) i (k_record_state k)) (\<lambda>(rs, m).
            quiet (save_macro m (k\<lparr>k_record_state := rs\<rparr>)))
      | DynamicMacroRecordStop c \<Rightarrow>
          and_then (stop_macro (k_hash_order k) c (k_record_state k)) (\<lambda>(rs, m).
            quiet (save_macro m (k\<lparr>k_record_state := rs\<rparr>)))
      | DynamicMacroPlay i \<Rightarrow>
          quiet (k\<lparr>k_replay_state := play_macro i (k_dynamic_macros k) (k_replay_state k)\<rparr>)
      | CancelMacroOnNextPress d \<Rightarrow> quiet (k\<lparr>k_macro_on_press_cancel_duration := d\<rparr>)
      | CapsWord cfg \<Rightarrow>
          quiet (k\<lparr>k_caps_word :=
            (case (cwc_repress_behaviour cfg, k_caps_word k) of
               (CapsToggle, Some _) \<Rightarrow> None
             | _ \<Rightarrow> Some (caps_word_new cfg))\<rparr>)
      | FakeKeyOnIdle f \<Rightarrow>
          quiet (k\<lparr>k_ticks_since_idle := 0, k_waiting_for_idle := push_new f (k_waiting_for_idle k)\<rparr>)
      | FakeKeyOnPhysicalIdle f \<Rightarrow>
          quiet (k\<lparr>k_ticks_since_physical_idle := 0,
                   k_waiting_for_physical_idle := push_new f (k_waiting_for_physical_idle k)\<rparr>)
      | FakeKeyHoldForDuration h \<Rightarrow> plain (hold_for_duration n h k)
      | _ \<Rightarrow> quiet k)"

definition release_custom :: "nat \<Rightarrow> custom_action \<Rightarrow> kanata \<Rightarrow> step_result" where
  "release_custom n a k =
     (case a of
        Mouse b \<Rightarrow> Inr ([OtherOutput (ReleaseBtn b)], k)
      | FakeKeyOnRelease c act \<Rightarrow> on_layout (handle_fakekey_action (do_action n) act c) k
      | CancelMacroOnRelease \<Rightarrow>
          Inr ([], k\<lparr>k_layout := cancel_macros (k_layout k), k_macro_on_press_cancel_duration := 0\<rparr>)
      | SendArbitraryCode c \<Rightarrow> Inr ([OtherOutput (WriteCode (ucast c) False)], k)
      | _ \<Rightarrow> Inr ([], k))"

definition late_custom ::
  "nat \<Rightarrow> custom_action custom_event \<Rightarrow> kanata \<Rightarrow> (bool \<times> out_call list \<times> kanata) res" where
  "late_custom n ce k =
     (case ce of
        CPress a \<Rightarrow> press_custom n a k
      | CRelease a \<Rightarrow> and_then (release_custom n a k) (\<lambda>(cs, k'). Inr (False, cs, k'))
      | CNoEvent \<Rightarrow> Inr (False, [], k))"

section \<open>A tick\<close>

text \<open>The key events of a tick, once the layout was ticked and the keys are computed.\<close>

definition send_key_changes :: "nat \<Rightarrow> bool \<Rightarrow> kanata \<Rightarrow> step_result" where
  "send_key_changes n rev_order k =
     then_step (Inr (release_old_keys rev_order k, k)) (\<lambda>k1.
     then_step (end_overlap n k1) (\<lambda>k2. press_new_keys n (k_cur_keys k2) (k_cur_keys k2) k2))"

definition handle_keystate_changes :: "nat \<Rightarrow> kanata \<Rightarrow> (bool \<times> out_call list \<times> kanata) res" where
  "handle_keystate_changes n k =
     and_then (tick_layout (do_action n) (k_layout k)) (\<lambda>(ce, l).
     and_then (compute_keys ce (k\<lparr>k_layout := l\<rparr>)) (\<lambda>(rev_order, k1).
     and_then (send_key_changes n rev_order k1) (\<lambda>(cs1, k2).
     and_then (late_custom n ce k2) (\<lambda>(reload, cs2, k3).
       Inr (reload, cs1 @ cs2, k3\<lparr>k_prev_layer := current_layer (k_layout k3)\<rparr>)))))"

definition tick_sequences :: "kanata \<Rightarrow> step_result" where
  "tick_sequences k =
     and_then (tick_sequence_state (k_sequence_state k)) (\<lambda>(cs, s). Inr (cs, k\<lparr>k_sequence_state := s\<rparr>))"

text \<open>The actions that wait for idling: those that are due are carried out in turn.\<close>

definition run_idle_actions ::
  "nat \<Rightarrow> u16 \<Rightarrow> fake_key_on_idle list \<Rightarrow> custom_action layout \<Rightarrow> custom_action layout res" where
  "run_idle_actions n ticks fs l =
     fold_res (\<lambda>f. handle_fakekey_action (do_action n) (fki_action f) (fki_coord f))
       (filter (\<lambda>f. fki_idle_duration f \<le> ticks) fs) l"

definition tick_idle_timeout :: "nat \<Rightarrow> kanata \<Rightarrow> step_result" where
  "tick_idle_timeout n k =
     on_layout (run_idle_actions n (k_ticks_since_idle k) (k_waiting_for_idle k))
       (k\<lparr>k_waiting_for_idle :=
            filter (\<lambda>f. \<not> fki_idle_duration f \<le> k_ticks_since_idle k) (k_waiting_for_idle k)\<rparr>)"

definition tick_physical_idle_timeout :: "nat \<Rightarrow> kanata \<Rightarrow> step_result" where
  "tick_physical_idle_timeout n k =
     on_layout (run_idle_actions n (k_ticks_since_physical_idle k) (k_waiting_for_physical_idle k))
       (k\<lparr>k_waiting_for_physical_idle :=
            filter (\<lambda>f. \<not> fki_idle_duration f \<le> k_ticks_since_physical_idle k)
              (k_waiting_for_physical_idle k)\<rparr>)"

definition tick_held_vkeys :: "nat \<Rightarrow> kanata \<Rightarrow> step_result" where
  "tick_held_vkeys n k =
     (let ticked = map (\<lambda>(c, d). (c, sat_sub d 1)) (k_vkeys_pending_release k) in
      on_layout (fold_res (\<lambda>(c, d). layout_event (do_action n) (Release (fst c) (snd c)))
                   (filter (\<lambda>(c, d). d = 0) ticked))
        (k\<lparr>k_vkeys_pending_release := filter (\<lambda>(c, d). d \<noteq> 0) ticked\<rparr>))"

definition tick_counters :: "kanata \<Rightarrow> kanata" where
  "tick_counters k =
     k\<lparr>k_macro_on_press_cancel_duration := sat_sub (k_macro_on_press_cancel_duration k) 1,
       k_record_state := tick_record_state (k_record_state k)\<rparr>"

definition rotate_keys :: "kanata \<Rightarrow> kanata" where
  "rotate_keys k = k\<lparr>k_prev_keys := k_cur_keys k, k_cur_keys := []\<rparr>"

definition tick_states :: "nat \<Rightarrow> kanata \<Rightarrow> step_result" where
  "tick_states n k =
     and_then (handle_keystate_changes n k) (\<lambda>(reload, cs, k1).
       then_step (Inr (cs, k1\<lparr>k_live_reload_requested := k_live_reload_requested k1 \<or> reload\<rparr>)) (\<lambda>k2.
       then_step (tick_sequences k2) (\<lambda>k3.
       then_step (tick_idle_timeout n k3) (\<lambda>k4.
       then_step (tick_physical_idle_timeout n k4) (\<lambda>k5.
       then_step (Inr ([CallZippyTick (k_caps_word k5 \<noteq> None)], rotate_keys (tick_counters k5)))
         (tick_held_vkeys n))))))"

section \<open>Inputs\<close>

datatype key_value = KvPress | KvRelease | KvRepeat | KvTap | KvWakeUp

record key_event =
  ke_code :: u16
  ke_value :: key_value
  ke_device :: "u8 option"

definition DEVICE_HISTORY_LEN :: nat where "DEVICE_HISTORY_LEN = 8"

text \<open>Key repeat: the last possible output of the key that is pressed is repeated.\<close>

definition is_current :: "kanata \<Rightarrow> u16 \<Rightarrow> bool" where
  "is_current k x \<longleftrightarrow> x \<in> set (k_cur_keys k) \<or> x \<in> set (k_unshifted_keys k) \<or> x \<in> set (k_unmodded_keys k)"

definition repeat_output :: "kanata \<Rightarrow> nat \<Rightarrow> u16 \<Rightarrow> u16 option" where
  "repeat_output k layer code =
     (case (k_key_outputs k ! layer) code of
        None \<Rightarrow> None
      | Some outs \<Rightarrow> List.find (is_current k) (rev outs))"

fun repeat_in_layers :: "kanata \<Rightarrow> nat list \<Rightarrow> u16 \<Rightarrow> u16 option res" where
  "repeat_in_layers k [] code = Inr None"
| "repeat_in_layers k (layer # layers) code =
     (if length (k_key_outputs k) \<le> layer then Inl Panic
      else case repeat_output k layer code of
        Some x \<Rightarrow> Inr (Some x)
      | None \<Rightarrow> repeat_in_layers k layers code)"

definition handle_repeat_actual :: "u16 \<Rightarrow> kanata \<Rightarrow> step_result" where
  "handle_repeat_actual code k =
     (if ks_active (k_sequence_state k) \<and> ks_input_mode (k_sequence_state k) \<noteq> VisibleBackspaced
      then Inr ([], k)
      else
        and_then (override_keys (k_overrides k) (k_cur_keys k @ keycodes (k_layout k)) (k_override_states k)
                    (of_nat (current_layer (k_layout k)))) (\<lambda>(keys, st).
        let k1 = k\<lparr>k_cur_keys := keys, k_override_states := st\<rparr> in
        and_then (trans_resolution_layer_order (k_layout k1)) (\<lambda>layers.
        and_then (repeat_in_layers k1 (map unat layers @ [l_default_layer (k_layout k1)]) code) (\<lambda>r.
          case r of
            Some x \<Rightarrow> Inr ([CallRepeat x], k1)
          | None \<Rightarrow> Inr (if is_current k1 code then [CallRepeat code] else [], k1)))))"

definition handle_repeat :: "u16 \<Rightarrow> kanata \<Rightarrow> step_result" where
  "handle_repeat code k =
     and_then (handle_repeat_actual code k) (\<lambda>(cs, k'). Inr (cs, k'\<lparr>k_cur_keys := []\<rparr>))"

definition input_press :: "nat \<Rightarrow> u16 \<Rightarrow> kanata \<Rightarrow> step_result" where
  "input_press n code k =
     (case DynamicMacro.record_press (k_hash_order k) code (k_dynamic_macro_max_presses k) (k_record_state k) of
        (rs, m) \<Rightarrow>
          let k1 = save_macro m (k\<lparr>k_record_state := rs\<rparr>);
              k2 = (if 0 < k_macro_on_press_cancel_duration k1
                    then k1\<lparr>k_macro_on_press_cancel_duration := 0, k_layout := cancel_macros (k_layout k1)\<rparr>
                    else k1) in
          on_layout (layout_event (do_action n) (Press 0 code)) k2)"

definition handle_input_event :: "nat \<Rightarrow> key_event \<Rightarrow> kanata \<Rightarrow> step_result" where
  "handle_input_event n ev k0 =
     (let code = ke_code ev;
          k1 = (if ke_value ev = KvPress
                then k0\<lparr>k_layout := (k_layout k0)\<lparr>l_device_history :=
                       fst (wrap_push_front DEVICE_HISTORY_LEN (ke_device ev) (l_device_history (k_layout k0)))\<rparr>\<rparr>
                else k0);
          k = k1\<lparr>k_ticks_since_idle := 0\<rparr>;
          press = layout_event (do_action n) (Press 0 code);
          release = layout_event (do_action n) (Release 0 code) in
      case ke_value ev of
        KvPress \<Rightarrow> input_press n code k
      | KvRelease \<Rightarrow> on_layout release (k\<lparr>k_record_state := record_release code (k_record_state k)\<rparr>)
      | KvRepeat \<Rightarrow> handle_repeat code k
      | KvTap \<Rightarrow> then_step (on_layout press k) (on_layout release)
      | KvWakeUp \<Rightarrow> Inr ([], k))"

section \<open>Idling\<close>

text \<open>Scrolling and mouse movement, which would prevent idling too, are not in the model.\<close>

definition is_idle :: "bool \<Rightarrow> kanata \<Rightarrow> bool" where
  "is_idle zippy_idle k \<longleftrightarrow>
     (let l = k_layout k;
          pressed_keys_means_not_idle = (k_waiting_for_idle k \<noteq> [] \<or> k_live_reload_requested k) in
      l_queue l = [] \<and> zippy_idle \<and> l_waiting l = None \<and> lpt_timeout (l_last_press l) = 0
      \<and> (osh_timeout (l_oneshot l) = 0 \<or> osh_keys (l_oneshot l) = [])
      \<and> l_sequences l = [] \<and> l_tap_dance_eager l = None \<and> l_action_queue l = []
      \<and> l_custom_releases l = [] \<and> \<not> ks_active (k_sequence_state k)
      \<and> k_macro_on_press_cancel_duration k = 0 \<and> k_replay_state k = None \<and> k_caps_word k = None
      \<and> k_vkeys_pending_release k = []
      \<and> \<not> (\<exists>s\<in>set (l_states l). case s of
             SeqCustomPending _ \<Rightarrow> True | SeqCustomActive _ \<Rightarrow> True
           | NormalKey _ _ _ \<Rightarrow> pressed_keys_means_not_idle | _ \<Rightarrow> False)
      \<and> (case l_chords_v2 l of None \<Rightarrow> True | Some ch \<Rightarrow> is_idle_chv2 ch))"

text \<open>Whether the loop may wait for the next input instead of ticking. The second argument tells whether
  no physical key is pressed.\<close>

definition can_block_update_idle_waiting ::
  "bool \<Rightarrow> bool \<Rightarrow> u16 \<Rightarrow> kanata \<Rightarrow> bool \<times> kanata" where
  "can_block_update_idle_waiting zippy_idle nothing_pressed ms_elapsed k =
     (let idle = is_idle zippy_idle k;
          counting = (k_waiting_for_idle k \<noteq> [] \<or> k_live_reload_requested k);
          k1 = (if \<not> idle then k\<lparr>k_ticks_since_idle := 0\<rparr>
                else if counting then k\<lparr>k_ticks_since_idle := sat_add (k_ticks_since_idle k) ms_elapsed\<rparr>
                else k);
          counting_physical = (k_waiting_for_physical_idle k1 \<noteq> []);
          k2 = (if \<not> counting_physical then k1
                else if nothing_pressed
                then k1\<lparr>k_ticks_since_physical_idle := sat_add (k_ticks_since_physical_idle k1) ms_elapsed\<rparr>
                else k1\<lparr>k_ticks_since_physical_idle := 0\<rparr>);
          passed_max_timing_check =
            (case iter_hevents (l_hist_keys (k_layout k2)) of
               [] \<Rightarrow> True | he # _ \<Rightarrow> k_max_key_timing_check k2 \<le> he_ticks he);
          accepts = (case l_chords_v2 (k_layout k2) of None \<Rightarrow> True | Some ch \<Rightarrow> accepts_chords_chv2 ch) in
      (idle \<and> \<not> counting \<and> \<not> counting_physical \<and> passed_max_timing_check \<and> accepts, k2))"

end
