(* ===== verification/ProcessingFacts.thy ===== *)
theory ProcessingFacts
  imports Processing
begin

text \<open>
  Properties of the processing of key states: no key stays down for the operating system that is
  not among the current keys, and without sequences the keys that are down are exactly these.
\<close>

section \<open>Calls that leave at most some keys down\<close>

definition adds :: "u16 set \<Rightarrow> out_call list \<Rightarrow> bool" where
  "adds K cs \<longleftrightarrow> (\<forall>D. calls_down cs D \<subseteq> D \<union> K)"

named_theorems adds_intros

lemma adds_Nil [adds_intros, simp]: "adds K []"
  by (simp add: adds_def)

lemma adds_append [adds_intros]:
  assumes "adds K as" "adds K bs" shows "adds K (as @ bs)"
proof -
  have "calls_down bs (calls_down as D) \<subseteq> D \<union> K" for D
    using assms calls_down_mono [of "calls_down as D" "D \<union> K" bs] unfolding adds_def by blast
  then show ?thesis by (simp add: adds_def)
qed

lemma adds_mono: "adds K cs \<Longrightarrow> K \<subseteq> L \<Longrightarrow> adds L cs"
  unfolding adds_def by blast

lemma adds_empty [adds_intros]: "adds {} cs \<Longrightarrow> adds K cs"
  by (rule adds_mono) auto

lemma adds_no_press:
  "\<forall>c\<in>set cs. \<forall>k. c \<noteq> CallPress k \<and> c \<noteq> DirectPress k \<Longrightarrow> adds {} cs"
  unfolding adds_def using calls_down_subset [of cs] by auto

lemma adds_press: "k \<in> K \<Longrightarrow> adds K [CallPress k]"
  by (auto simp: adds_def)

lemma adds_taps: "adds {} (concat (map tap_call ks))"
  by (auto simp: adds_def calls_down_taps)

lemma adds_direct_tap: "adds {} cs \<Longrightarrow> adds {} (DirectPress k # DirectRelease k # cs)"
  using adds_append [of "{}" "[DirectPress k, DirectRelease k]" cs] by (simp add: adds_def)

lemma adds_erase: "adds {} (fst (erase_sequence ks n))"
  by (induction ks n rule: erase_sequence.induct)
    (auto simp: Let_def adds_direct_tap split: prod.splits)

lemma adds_cancel: "adds {} (fst (cancel_sequence s))"
  by (auto simp: cancel_sequence_def adds_taps split: sequence_input_mode.splits)


lemma adds_erased: "erase_sequence ks n = (cs, m) \<Longrightarrow> adds {} cs"
  using adds_erase [of ks n] by simp

lemma adds_releases: "adds {} (map CallRelease ks)"
  by (rule adds_no_press) auto

lemma adds_termination:
  "do_successful_sequence_termination rec i j ty s l = Inr (cs, s', l') \<Longrightarrow> adds {} cs"
  by (auto simp: do_successful_sequence_termination_def Let_def and_then_Inr_iff
      intro!: adds_append adds_releases dest: adds_erased split: sequence_input_mode.splits prod.splits)

lemma adds_reconcile:
  "reconcile look std ovl s = (cs, r, ro, s') \<Longrightarrow> adds {} cs"
  using adds_cancel
  by (auto simp: reconcile_def Let_def split: prod.splits bool.splits if_splits)
    (metis fst_conv)+

lemma adds_finish:
  "finish_press rec look r ro s l = Inr (cs, s', l') \<Longrightarrow> adds {} cs"
  by (auto simp: finish_press_def Let_def dest: adds_termination split: trie_result.splits prod.splits)

lemma adds_sequence_press:
  assumes "do_sequence_press_logic rec look mc k m s l = Inr (cs, s', l')" "k \<in> K"
  shows "adds K cs"
proof -
  from assms(1) obtain c1 c2 where
    c: "adds {} c1" "adds {} c2"
    and cs: "cs = (case ks_input_mode s of VisibleBackspaced \<Rightarrow> [CallPress k] | _ \<Rightarrow> []) @ c1 @ c2"
    by (auto simp: do_sequence_press_logic_def Let_def and_then_Inr_iff split: prod.splits
        dest!: adds_finish adds_reconcile)
  have "adds K (case ks_input_mode s of VisibleBackspaced \<Rightarrow> [CallPress k] | _ \<Rightarrow> [])"
    using assms(2) by (cases "ks_input_mode s") (simp_all add: adds_press)
  then show ?thesis unfolding cs by (intro adds_append) (simp_all add: c adds_empty)
qed

section \<open>The steps of a tick\<close>

lemma then_step_Inr_iff:
  "then_step m f = Inr (cs, k') \<longleftrightarrow>
     (\<exists>c1 k1 c2. m = Inr (c1, k1) \<and> f k1 = Inr (c2, k') \<and> cs = c1 @ c2)"
  by (auto simp: then_step_def and_then_Inr_iff case_prod_unfold)

lemma on_layout_Inr_iff:
  "on_layout f k = Inr (cs, k') \<longleftrightarrow> cs = [] \<and> (\<exists>l. f (k_layout k) = Inr l \<and> k' = k\<lparr>k_layout := l\<rparr>)"
  by (auto simp: on_layout_def and_then_Inr_iff)

lemma end_overlap_step:
  assumes "end_overlap n k = Inr (cs, k')"
  shows "adds {} cs \<and> k_cur_keys k' = k_cur_keys k \<and> k_prev_keys k' = k_prev_keys k"
  using assms
  by (auto simp: end_overlap_def Let_def and_then_Inr_iff dest: adds_termination
      split: if_splits trie_result.splits prod.splits)

lemma press_new_key_step:
  assumes "press_new_key n cur x k = Inr (cs, k')"
  shows "adds {x} cs \<and> k_cur_keys k' = k_cur_keys k"
  using assms
  by (auto simp: press_new_key_def Let_def and_then_Inr_iff adds_press
      dest: adds_sequence_press [of _ _ _ _ _ _ _ _ _ _ "{x}"] split: if_splits)

lemma press_new_keys_step:
  "press_new_keys n cur xs k = Inr (cs, k') \<Longrightarrow> adds (set xs) cs \<and> k_cur_keys k' = k_cur_keys k"
proof (induction xs arbitrary: k cs)
  case (Cons x xs)
  show ?case
  proof (cases "x \<in> set (k_prev_keys k)")
    case True
    then show ?thesis using Cons by (auto intro: adds_mono)
  next
    case False
    with Cons.prems obtain c1 k1 c2 where
      "press_new_key n cur x k = Inr (c1, k1)" "press_new_keys n cur xs k1 = Inr (c2, k')" "cs = c1 @ c2"
      by (auto simp: then_step_Inr_iff)
    then have "adds {x} c1" "adds (set xs) c2" "k_cur_keys k' = k_cur_keys k" "cs = c1 @ c2"
      using Cons.IH press_new_key_step by fastforce+
    then show ?thesis by (auto intro!: adds_append elim: adds_mono)
  qed
qed simp

lemma release_old_keys_down:
  "calls_down (release_old_keys r k) D = D - (set (k_prev_keys k) - set (k_cur_keys k))"
  by (auto simp: release_old_keys_def calls_down_releases)

lemma send_key_changes_down:
  assumes "send_key_changes n r k = Inr (cs, k')" "D \<subseteq> set (k_prev_keys k)"
  shows "calls_down cs D \<subseteq> set (k_cur_keys k') \<and> k_cur_keys k' = k_cur_keys k"
proof -
  from assms(1) obtain c1 k1 c2 where
    o: "end_overlap n k = Inr (c1, k1)" and p: "press_new_keys n (k_cur_keys k1) (k_cur_keys k1) k1 = Inr (c2, k')"
    and cs: "cs = release_old_keys r k @ c1 @ c2"
    by (auto simp: send_key_changes_def then_step_Inr_iff)
  from end_overlap_step [OF o] press_new_keys_step [OF p]
  have a: "adds (set (k_cur_keys k)) (c1 @ c2)" and k: "k_cur_keys k' = k_cur_keys k"
    by (auto intro: adds_append adds_empty)
  have "calls_down (release_old_keys r k) D \<subseteq> set (k_cur_keys k)"
    using assms(2) by (auto simp: release_old_keys_down)
  then show ?thesis using a k unfolding cs adds_def by (metis calls_down_simps(3) sup.absorb2)
qed


lemma early_custom_keeps:
  "early_custom ce k = Inr (r, k') \<Longrightarrow> k_prev_keys k' = k_prev_keys k \<and> k_cur_keys k' = k_cur_keys k
     \<and> k_sequence_always_on k' = k_sequence_always_on k
     \<and> (ks_active (k_sequence_state k') \<longleftrightarrow> ks_active (k_sequence_state k))"
  by (auto simp: early_custom_def and_then_Inr_iff add_noerase_def
      split: custom_event.splits custom_action.splits if_splits)

lemma unmod_keeps [simp]:
  "k_prev_keys (unshift_keys (unmod_keys k)) = k_prev_keys k"
  "k_sequence_always_on (unshift_keys (unmod_keys k)) = k_sequence_always_on k"
  "k_sequence_state (unshift_keys (unmod_keys k)) = k_sequence_state k"
  by (simp_all add: unshift_keys_def unmod_keys_def)

lemma overrides_keep:
  "apply_overrides k = Inr k' \<Longrightarrow> k_prev_keys k' = k_prev_keys k
     \<and> k_sequence_always_on k' = k_sequence_always_on k \<and> k_sequence_state k' = k_sequence_state k"
  by (auto simp: apply_overrides_def and_then_Inr_iff Let_def)

lemma caps_word_keeps [simp]:
  "k_prev_keys (apply_caps_word k) = k_prev_keys k"
  "k_sequence_always_on (apply_caps_word k) = k_sequence_always_on k"
  "k_sequence_state (apply_caps_word k) = k_sequence_state k"
  by (simp_all add: apply_caps_word_def split: option.splits prod.splits)

lemma compute_keys_keeps:
  assumes "compute_keys ce k = Inr (r, k')"
  shows "k_prev_keys k' = k_prev_keys k \<and> k_sequence_always_on k' = k_sequence_always_on k
     \<and> (ks_active (k_sequence_state k') \<longleftrightarrow> ks_active (k_sequence_state k))"
proof -
  from assms obtain k1 k2 where
    e: "early_custom ce (k\<lparr>k_cur_keys := k_cur_keys k @ keycodes (k_layout k)\<rparr>) = Inr (r, k1)"
    and o: "apply_overrides (unshift_keys (unmod_keys k1)) = Inr k2" and k': "k' = apply_caps_word k2"
    by (auto simp: compute_keys_def and_then_Inr_iff)
  show ?thesis using early_custom_keeps [OF e] overrides_keep [OF o] by (simp add: k')
qed

lemma caps_keeps_keys: "tick_maybe_add_lsft keys cw = (next, keys', cw') \<Longrightarrow> set keys \<subseteq> set keys'"
  by (auto simp: tick_maybe_add_lsft_def Let_def split: if_splits)

lemma repeat_last_key_step:
  "repeat_last_key k = (cs, k') \<Longrightarrow> adds {} cs \<and> set (k_cur_keys k) \<subseteq> set (k_cur_keys k')"
  by (auto simp: repeat_last_key_def Let_def adds_def dest!: caps_keeps_keys
      split: option.splits prod.splits if_splits)

lemma adds_other [simp]: "adds {} [OtherOutput e]" "adds {} [OtherOutput e, OtherOutput e']"
  by (simp_all add: adds_def)

lemma adds_cancelled: "cancel_sequence s = (cs, s') \<Longrightarrow> adds {} cs"
  using adds_cancel [of s] by simp

lemma save_macro_keeps [simp]: "k_cur_keys (save_macro m k) = k_cur_keys k"
  by (simp add: save_macro_def split: option.splits prod.splits)

lemma hold_for_duration_step:
  "hold_for_duration n h k = Inr (cs, k') \<Longrightarrow> cs = [] \<and> k_cur_keys k' = k_cur_keys k"
  by (auto simp: hold_for_duration_def Let_def on_layout_Inr_iff split: if_splits)

lemma request_keeps [simp]:
  "k_cur_keys (request_live_reload k) = k_cur_keys k"
  "k_cur_keys (request_live_reload_next k) = k_cur_keys k"
  "k_cur_keys (request_live_reload_prev k) = k_cur_keys k"
  by (simp_all add: request_live_reload_def request_live_reload_next_def request_live_reload_prev_def)

lemma request_cfg_keeps:
  "request_live_reload_num i k = (b, k') \<Longrightarrow> k_cur_keys k' = k_cur_keys k \<and> k_sequence_state k' = k_sequence_state k"
  "request_live_reload_file p k = (b, k') \<Longrightarrow> k_cur_keys k' = k_cur_keys k \<and> k_sequence_state k' = k_sequence_state k"
  by (auto simp: request_live_reload_num_def request_live_reload_file_def split: if_splits)

lemma press_custom_step:
  assumes "press_custom n a k = Inr (b, cs, k')"
  shows "adds {} cs \<and> set (k_cur_keys k) \<subseteq> set (k_cur_keys k')"
proof (cases a)
  case RepeatKey
  with assms show ?thesis
    by (auto simp: press_custom_def dest!: repeat_last_key_step split: prod.splits)
next
  case SequenceCancel
  with assms show ?thesis
    by (auto simp: press_custom_def dest: adds_cancelled split: prod.splits if_splits)
next
  case (FakeKeyHoldForDuration h)
  with assms show ?thesis
    by (auto simp: press_custom_def and_then_Inr_iff dest: hold_for_duration_step)
next
  case (DynamicMacroRecord i)
  with assms show ?thesis by (auto simp: press_custom_def and_then_Inr_iff)
next
  case (DynamicMacroRecordStop i)
  with assms show ?thesis by (auto simp: press_custom_def and_then_Inr_iff)
next
  case (LiveReloadNum i)
  with assms show ?thesis by (auto simp: press_custom_def dest: request_cfg_keeps split: prod.splits)
next
  case (LiveReloadFile p)
  with assms show ?thesis by (auto simp: press_custom_def dest: request_cfg_keeps split: prod.splits)
next
  case (FakeKeyOnPress c act)
  with assms show ?thesis by (auto simp: press_custom_def and_then_Inr_iff on_layout_Inr_iff)
qed (use assms in \<open>auto simp: press_custom_def split: if_splits\<close>)

lemma release_custom_step:
  "release_custom n a k = Inr (cs, k') \<Longrightarrow> adds {} cs \<and> k_cur_keys k' = k_cur_keys k"
  by (cases a) (auto simp: release_custom_def on_layout_Inr_iff)

lemma late_custom_step:
  "late_custom n ce k = Inr (b, cs, k') \<Longrightarrow> adds {} cs \<and> set (k_cur_keys k) \<subseteq> set (k_cur_keys k')"
  by (cases ce) (auto simp: late_custom_def and_then_Inr_iff dest: press_custom_step release_custom_step)

lemma handle_keystate_changes_down:
  assumes "handle_keystate_changes n k = Inr (b, cs, k')" "D \<subseteq> set (k_prev_keys k)"
  shows "calls_down cs D \<subseteq> set (k_cur_keys k')"
proof -
  from assms(1) obtain ce l r k1 c1 k2 c2 k3 where
    "compute_keys ce (k\<lparr>k_layout := l\<rparr>) = Inr (r, k1)"
    and send: "send_key_changes n r k1 = Inr (c1, k2)"
    and late: "late_custom n ce k2 = Inr (b, c2, k3)"
    and cs: "cs = c1 @ c2" and k': "k_cur_keys k' = k_cur_keys k3"
    by (auto simp: handle_keystate_changes_def and_then_Inr_iff)
  then have "k_prev_keys k1 = k_prev_keys k" by (auto dest: compute_keys_keeps)
  then have "D \<subseteq> set (k_prev_keys k1)" using assms(2) by simp
  from send_key_changes_down [OF send this] have "calls_down c1 D \<subseteq> set (k_cur_keys k2)" by blast
  with late_custom_step [OF late] show ?thesis
    unfolding cs k' adds_def by (metis Un_empty_right calls_down_simps(3) order_trans)
qed

lemma tick_sequences_step:
  "tick_sequences k = Inr (cs, k') \<Longrightarrow> adds {} cs \<and> k_cur_keys k' = k_cur_keys k"
  using adds_cancel
  by (auto simp: tick_sequences_def tick_sequence_state_def Let_def and_then_Inr_iff split: if_splits)
    (metis fst_conv)

lemma idle_steps:
  "tick_idle_timeout n k = Inr (cs, k') \<Longrightarrow> cs = [] \<and> k_cur_keys k' = k_cur_keys k \<and> k_prev_keys k' = k_prev_keys k"
  "tick_physical_idle_timeout n k = Inr (cs, k') \<Longrightarrow> cs = [] \<and> k_cur_keys k' = k_cur_keys k \<and> k_prev_keys k' = k_prev_keys k"
  "tick_held_vkeys n k = Inr (cs, k') \<Longrightarrow> cs = [] \<and> k_cur_keys k' = k_cur_keys k \<and> k_prev_keys k' = k_prev_keys k"
  by (auto simp: tick_idle_timeout_def tick_physical_idle_timeout_def tick_held_vkeys_def on_layout_Inr_iff Let_def)

lemma tick_states_stages:
  assumes "tick_states n k = Inr (cs, k')"
  obtains b c1 k1 c2 k2 where
    "handle_keystate_changes n k = Inr (b, c1, k1)"
    "tick_sequences (k1\<lparr>k_live_reload_requested := k_live_reload_requested k1 \<or> b\<rparr>) = Inr (c2, k2)"
    "k_prev_keys k' = k_cur_keys k2" "k_cur_keys k' = []"
    "\<exists>caps. cs = c1 @ c2 @ [CallZippyTick caps]"
proof -
  from assms obtain b c1 k1 c2 k2 c3 k3 c4 k4 c5 where
    h: "handle_keystate_changes n k = Inr (b, c1, k1)"
    and t: "tick_sequences (k1\<lparr>k_live_reload_requested := k_live_reload_requested k1 \<or> b\<rparr>) = Inr (c2, k2)"
    and i: "tick_idle_timeout n k2 = Inr (c3, k3)" "tick_physical_idle_timeout n k3 = Inr (c4, k4)"
      "tick_held_vkeys n (rotate_keys (tick_counters k4)) = Inr (c5, k')"
    and cs: "cs = c1 @ c2 @ c3 @ c4 @ [CallZippyTick (k_caps_word k4 \<noteq> None)] @ c5"
    by (auto simp: tick_states_def then_step_Inr_iff and_then_Inr_iff)
  from idle_steps(1) [OF i(1)] idle_steps(2) [OF i(2)] idle_steps(3) [OF i(3)]
  have "k_prev_keys k' = k_cur_keys k2" "k_cur_keys k' = []" "cs = c1 @ c2 @ [CallZippyTick (k_caps_word k4 \<noteq> None)]"
    by (simp_all add: rotate_keys_def tick_counters_def cs)
  with h t that show ?thesis by blast
qed

lemma tick_states_down:
  assumes "tick_states n k = Inr (cs, k')" "D \<subseteq> set (k_prev_keys k)"
  shows "calls_down cs D \<subseteq> set (k_prev_keys k')"
proof -
  from assms(1) obtain b c1 k1 c2 k2 where
    h: "handle_keystate_changes n k = Inr (b, c1, k1)"
    and t: "tick_sequences (k1\<lparr>k_live_reload_requested := k_live_reload_requested k1 \<or> b\<rparr>) = Inr (c2, k2)"
    and p: "k_prev_keys k' = k_cur_keys k2" and cs: "\<exists>caps. cs = c1 @ c2 @ [CallZippyTick caps]"
    by (rule tick_states_stages)
  have "calls_down c1 D \<subseteq> set (k_cur_keys k2)"
    using handle_keystate_changes_down [OF h assms(2)] tick_sequences_step [OF t] by simp
  then have "calls_down c2 (calls_down c1 D) \<subseteq> set (k_cur_keys k2)"
    using tick_sequences_step [OF t] unfolding adds_def by (metis Un_empty_right order_trans)
  then show ?thesis using cs by (auto simp: p)
qed


section \<open>Runs of the processing loop\<close>

text \<open>The loop handles input events and ticks in turn; the calls of all of them are collected.\<close>

datatype proc_input = ProcEvent key_event | ProcTick

fun proc_step :: "nat \<Rightarrow> proc_input \<Rightarrow> kanata \<Rightarrow> step_result" where
  "proc_step n (ProcEvent ev) k = handle_input_event n ev k"
| "proc_step n ProcTick k = tick_states n k"

fun proc_run :: "nat \<Rightarrow> proc_input list \<Rightarrow> kanata \<Rightarrow> step_result" where
  "proc_run n [] k = Inr ([], k)"
| "proc_run n (i # is) k = then_step (proc_step n i k) (proc_run n is)"

lemma handle_repeat_actual_step:
  assumes "handle_repeat_actual code k = Inr (cs, k')"
  shows "calls_down cs D = D \<and> k_prev_keys k' = k_prev_keys k"
proof (cases "ks_active (k_sequence_state k) \<and> ks_input_mode (k_sequence_state k) \<noteq> VisibleBackspaced")
  case False
  then obtain keys st r where
    "(case r of Some x \<Rightarrow> Inr ([CallRepeat x], k\<lparr>k_cur_keys := keys, k_override_states := st\<rparr>)
      | None \<Rightarrow> Inr (if is_current (k\<lparr>k_cur_keys := keys, k_override_states := st\<rparr>) code then [CallRepeat code] else [],
          k\<lparr>k_cur_keys := keys, k_override_states := st\<rparr>)) = (Inr (cs, k') :: step_result)"
    using assms unfolding handle_repeat_actual_def if_not_P [OF False]
    by (elim and_then_InrE) (simp only: Let_def prod.case_eq_if and_then_Inr_iff, blast)
  then show ?thesis by (auto split: option.splits if_splits)
qed (use assms in \<open>simp add: handle_repeat_actual_def\<close>)

lemma handle_repeat_step:
  assumes "handle_repeat code k = Inr (cs, k')"
  shows "calls_down cs D = D \<and> k_prev_keys k' = k_prev_keys k"
  using assms handle_repeat_actual_step [of code k]
  by (auto simp: handle_repeat_def and_then_Inr_iff)

lemma input_press_step:
  "input_press n code k = Inr (cs, k') \<Longrightarrow> cs = [] \<and> k_prev_keys k' = k_prev_keys k"
  by (auto simp: input_press_def Let_def on_layout_Inr_iff save_macro_def
      split: prod.splits option.splits if_splits)

lemma handle_input_event_step:
  assumes "handle_input_event n ev k = Inr (cs, k')"
  shows "calls_down cs D = D \<and> k_prev_keys k' = k_prev_keys k"
proof (cases "ke_value ev")
  case KvPress
  with assms show ?thesis by (auto simp: handle_input_event_def Let_def dest!: input_press_step)
next
  case KvRepeat
  with assms show ?thesis by (auto simp: handle_input_event_def Let_def dest!: handle_repeat_step)
qed (use assms in \<open>auto simp: handle_input_event_def Let_def on_layout_Inr_iff then_step_Inr_iff\<close>)

text \<open>C2: Whatever is typed and configured, and however events and ticks interleave, every key that
  is left down for the operating system is one of the keys the last tick found pressed: no press is
  ever without its release. This holds with sequences, overrides, unmodding, caps-word, dynamic macros and
  cancelled macros.\<close>

theorem keys_down_are_current:
  assumes "proc_run n is k = Inr (cs, k')" and "D \<subseteq> set (k_prev_keys k)"
  shows "calls_down cs D \<subseteq> set (k_prev_keys k')"
  using assms
proof (induction "is" arbitrary: k cs D)
  case (Cons i "is")
  then obtain c1 k1 c2 where s: "proc_step n i k = Inr (c1, k1)"
    and r: "proc_run n is k1 = Inr (c2, k')" and cs: "cs = c1 @ c2"
    by (auto simp: then_step_Inr_iff)
  have "calls_down c1 D \<subseteq> set (k_prev_keys k1)"
  proof (cases i)
    case (ProcEvent ev)
    with s handle_input_event_step [of n ev k c1 k1 D] Cons.prems(2) show ?thesis by simp
  next
    case ProcTick
    with s tick_states_down [of n k c1 k1 D] Cons.prems(2) show ?thesis by simp
  qed
  from Cons.IH [OF r this] show ?case by (simp add: cs)
qed simp

section \<open>Without sequences the keys that are down are exact\<close>

lemma press_new_keys_exact:
  assumes "press_new_keys n cur xs k = Inr (cs, k')"
    and "\<not> ks_active (k_sequence_state k)" and "\<not> k_sequence_always_on k"
  shows "calls_down cs D = D \<union> (set xs - set (k_prev_keys k)) \<and> \<not> ks_active (k_sequence_state k')"
  using assms
proof (induction xs arbitrary: k cs D)
  case (Cons x xs)
  show ?case
  proof (cases "x \<in> set (k_prev_keys k)")
    case True
    then show ?thesis using Cons.prems Cons.IH [of k cs D] by auto
  next
    case False
    let ?k = "k\<lparr>k_prev_keys := k_prev_keys k @ [x], k_last_pressed_key := x\<rparr>"
    have "press_new_key n cur x k = Inr ([CallPress x], ?k)"
      using Cons.prems by (simp add: press_new_key_def Let_def)
    then obtain c2 where r: "press_new_keys n cur xs ?k = Inr (c2, k')" and cs: "cs = CallPress x # c2"
      using Cons.prems(1) False by (auto simp: then_step_Inr_iff)
    show ?thesis using Cons.IH [OF r, of "insert x D"] Cons.prems(2,3) False by (auto simp: cs)
  qed
qed simp

lemma send_key_changes_exact:
  assumes "send_key_changes n r k = Inr (cs, k')"
    and "\<not> ks_active (k_sequence_state k)" and "\<not> k_sequence_always_on k"
  shows "calls_down cs (set (k_prev_keys k)) = set (k_cur_keys k') \<and> \<not> ks_active (k_sequence_state k')
    \<and> k_cur_keys k' = k_cur_keys k"
proof -
  have "end_overlap n k = Inr ([], k)" using assms(2) by (simp add: end_overlap_def)
  then obtain c2 where p: "press_new_keys n (k_cur_keys k) (k_cur_keys k) k = Inr (c2, k')"
    and cs: "cs = release_old_keys r k @ c2"
    using assms(1) by (auto simp: send_key_changes_def then_step_Inr_iff)
  show ?thesis
    using press_new_keys_exact [OF p assms(2,3)] press_new_keys_step [OF p]
    by (auto simp: cs release_old_keys_down)
qed

text \<open>A sequence that is inactive or has just begun types nothing when it is cancelled.\<close>

definition nothing_typed :: "kanata \<Rightarrow> bool" where
  "nothing_typed k \<longleftrightarrow> ks_active (k_sequence_state k) \<longrightarrow> ks_raw_oscs (k_sequence_state k) = []"

lemma nothing_typed_inactive: "\<not> ks_active (k_sequence_state k) \<Longrightarrow> nothing_typed k"
  by (simp add: nothing_typed_def)

lemma save_macro_sequence [simp]: "k_sequence_state (save_macro m k) = k_sequence_state k"
  by (simp add: save_macro_def split: option.splits prod.splits)

lemma press_custom_exact:
  assumes "press_custom n a k = Inr (b, cs, k')" and "a \<noteq> RepeatKey"
    and "\<not> ks_active (k_sequence_state k)"
  shows "calls_down cs D = D \<and> nothing_typed k' \<and> k_cur_keys k' = k_cur_keys k"
proof (cases a)
  case (FakeKeyHoldForDuration h)
  with assms show ?thesis
    by (auto simp: press_custom_def and_then_Inr_iff hold_for_duration_def Let_def on_layout_Inr_iff
        nothing_typed_def split: if_splits)
next
  case (LiveReloadNum i)
  with assms show ?thesis
    by (auto simp: press_custom_def nothing_typed_def dest: request_cfg_keeps split: prod.splits)
next
  case (LiveReloadFile p)
  with assms show ?thesis
    by (auto simp: press_custom_def nothing_typed_def dest: request_cfg_keeps split: prod.splits)
next
  case (FakeKeyOnPress c act)
  with assms show ?thesis
    by (auto simp: press_custom_def and_then_Inr_iff on_layout_Inr_iff nothing_typed_def)
next
  case (SequenceLeader t m)
  with assms show ?thesis by (auto simp: press_custom_def ks_activate_def nothing_typed_def)
qed (use assms in \<open>auto simp: press_custom_def and_then_Inr_iff nothing_typed_def request_live_reload_def
      request_live_reload_next_def request_live_reload_prev_def split: if_splits\<close>)

lemma release_custom_exact:
  "release_custom n a k = Inr (cs, k') \<Longrightarrow> calls_down cs D = D \<and> k_sequence_state k' = k_sequence_state k
     \<and> k_cur_keys k' = k_cur_keys k"
  by (cases a) (auto simp: release_custom_def on_layout_Inr_iff)

lemma late_custom_exact:
  assumes "late_custom n ce k = Inr (b, cs, k')" and "ce \<noteq> CPress RepeatKey"
    and "\<not> ks_active (k_sequence_state k)"
  shows "calls_down cs D = D \<and> nothing_typed k' \<and> k_cur_keys k' = k_cur_keys k"
proof (cases ce)
  case (CPress a)
  with assms press_custom_exact show ?thesis by (auto simp: late_custom_def)
next
  case (CRelease a)
  with assms release_custom_exact show ?thesis
    by (fastforce simp: late_custom_def and_then_Inr_iff nothing_typed_def)
qed (use assms in \<open>simp add: late_custom_def nothing_typed_def\<close>)

lemma tick_sequences_exact:
  "tick_sequences k = Inr (cs, k') \<Longrightarrow> nothing_typed k \<Longrightarrow> cs = []"
  by (auto simp: tick_sequences_def tick_sequence_state_def cancel_sequence_def Let_def and_then_Inr_iff
      nothing_typed_def split: if_splits sequence_input_mode.splits)

text \<open>C3: Without an active sequence, a tick brings the keys that are down from exactly those of the last
  tick to exactly those it computes, unless it types the last key again: nothing that should be down is missing.\<close>

theorem keys_down_exact:
  assumes "tick_states n k = Inr (cs, k')"
    and "\<not> ks_active (k_sequence_state k)" and "\<not> k_sequence_always_on k"
    and "\<forall>l. tick_layout (do_action n) (k_layout k) \<noteq> Inr (CPress RepeatKey, l)"
  shows "calls_down cs (set (k_prev_keys k)) = set (k_prev_keys k')"
proof -
  from assms(1) obtain b c1 k1 c2 k2 where
    h: "handle_keystate_changes n k = Inr (b, c1, k1)"
    and t: "tick_sequences (k1\<lparr>k_live_reload_requested := k_live_reload_requested k1 \<or> b\<rparr>) = Inr (c2, k2)"
    and p: "k_prev_keys k' = k_cur_keys k2" and "\<exists>caps. cs = c1 @ c2 @ [CallZippyTick caps]"
    by (rule tick_states_stages)
  then obtain caps where cs: "cs = c1 @ c2 @ [CallZippyTick caps]" by blast
  from h obtain ce l r ka d1 kb d2 kc where
    ce: "tick_layout (do_action n) (k_layout k) = Inr (ce, l)"
    and ka: "compute_keys ce (k\<lparr>k_layout := l\<rparr>) = Inr (r, ka)"
    and send: "send_key_changes n r ka = Inr (d1, kb)"
    and late: "late_custom n ce kb = Inr (b, d2, kc)"
    and c1: "c1 = d1 @ d2" and k1: "k1 = kc\<lparr>k_prev_layer := current_layer (k_layout kc)\<rparr>"
    by (auto simp: handle_keystate_changes_def and_then_Inr_iff)
  have keep: "k_prev_keys ka = k_prev_keys k" "\<not> ks_active (k_sequence_state ka)" "\<not> k_sequence_always_on ka"
    using compute_keys_keeps [OF ka] assms(2,3) by simp_all
  note s = send_key_changes_exact [OF send keep(2,3), unfolded keep(1)]
  have "ce \<noteq> CPress RepeatKey" using assms(4) ce by blast
  from late_custom_exact [OF late this] s
  have "calls_down d2 (calls_down d1 (set (k_prev_keys k))) = set (k_cur_keys kc)" "nothing_typed kc" by simp_all
  moreover from this have "c2 = []"
    using tick_sequences_exact [OF t] by (simp add: k1 nothing_typed_def)
  moreover have "k_cur_keys k2 = k_cur_keys kc" using tick_sequences_step [OF t] by (simp add: k1)
  ultimately show ?thesis by (simp add: cs p c1)
qed

end
