(* ===== verification/LoopFacts.thy ===== *)
theory LoopFacts
  imports ProcessingFacts KeyPaths
begin

text \<open>
  The processing loop and the layout together (\<open>src/kanata/mod.rs\<close>). Idling (\<open>is_idle\<close>,
  \<open>can_block_update_idle_waiting\<close>): when the loop stops ticking it misses nothing, unless a hold-tap key waits
  behind another one. Typing: what the loop sends from the press of a physical key to its release.
\<close>

section \<open>Settled states\<close>

text \<open>The keys a tick of an idle layout would compute are those that are down already.\<close>

definition settled :: "kanata \<Rightarrow> bool" where
  "settled k \<longleftrightarrow> calm (k_layout k) \<and> k_cur_keys k = [] \<and>
     (\<exists>k1. compute_keys CNoEvent (k\<lparr>k_layout := clock (k_layout k)\<rparr>) = Inr (False, k1) \<and>
        set (k_cur_keys k1) = set (k_prev_keys k) \<and> l_states (k_layout k1) = l_states (k_layout k))"

text \<open>What \<open>can_block_update_idle_waiting\<close> checks about the state of the loop.\<close>

definition at_rest :: "kanata \<Rightarrow> bool" where
  "at_rest k \<longleftrightarrow> l_waiting (k_layout k) = None \<and> l_queue (k_layout k) = []
     \<and> \<not> ks_active (k_sequence_state k) \<and> \<not> k_sequence_always_on k \<and> k_caps_word k = None
     \<and> k_waiting_for_idle k = [] \<and> k_waiting_for_physical_idle k = [] \<and> k_vkeys_pending_release k = []
     \<and> k_macro_on_press_cancel_duration k = 0 \<and> k_replay_state k = None \<and> \<not> k_live_reload_requested k
     \<and> lpt_timeout (l_last_press (k_layout k)) = 0"

lemma blocked_at_rest:
  "fst (can_block_update_idle_waiting z np ms k) \<Longrightarrow> \<not> k_sequence_always_on k \<Longrightarrow> at_rest k"
  by (auto simp: can_block_update_idle_waiting_def is_idle_def at_rest_def Let_def split: if_splits)

lemma at_rest_idle: "at_rest k \<Longrightarrow> calm (k_layout k) \<Longrightarrow> is_idle True k"
  by (auto simp: at_rest_def is_idle_def Let_def calm_def list_all_iff split: state.splits dest!: bspec)

section \<open>Computing the keys again\<close>

lemma clock_current_layer [simp]: "current_layer (clock l) = current_layer l"
  by (simp add: current_layer_def active_held_layers_def split: list.split)

lemma keycodes_clock [simp]: "keycodes (clock (clock l)) = keycodes (clock l)"
  by (simp add: keycodes_def)

text \<open>Overriding depends on the remembered state only when there are no overrides at all.\<close>

lemma override_keys_again:
  "override_keys ovs ks st layer = Inr (ks', st') \<Longrightarrow> override_keys ovs ks st' layer = Inr (ks', st')"
  by (auto simp: override_keys_def)

lemma compute_noevent:
  "compute_keys CNoEvent k =
     and_then (apply_overrides (unshift_keys (unmod_keys (k\<lparr>k_cur_keys := k_cur_keys k @ keycodes (k_layout k)\<rparr>))))
       (\<lambda>k2. Inr (False, apply_caps_word k2))"
  by (simp add: compute_keys_def early_custom_def)

text \<open>The keys before the overrides.\<close>

definition unmodded :: "kanata \<Rightarrow> keycode list" where
  "unmodded k = k_cur_keys (unshift_keys (unmod_keys (k\<lparr>k_cur_keys := keycodes (k_layout k)\<rparr>)))"

lemma unmodded_eq:
  "unshift_keys (unmod_keys (k\<lparr>k_cur_keys := keycodes (k_layout k)\<rparr>)) = k\<lparr>k_cur_keys := unmodded k\<rparr>"
  by (simp add: unmodded_def unshift_keys_def unmod_keys_def)

lemma unmodded_cong:
  assumes "k_unmodded_keys k' = k_unmodded_keys k" "k_unmodded_mods k' = k_unmodded_mods k"
    "k_unshifted_keys k' = k_unshifted_keys k" "keycodes (k_layout k') = keycodes (k_layout k)"
  shows "unmodded k' = unmodded k"
  using assms by (simp add: unmodded_def unshift_keys_def unmod_keys_def)

text \<open>The states after the overrides were applied.\<close>

definition overridden_states :: "kanata \<Rightarrow> override_states \<Rightarrow> custom_action state list" where
  "overridden_states k st =
     (if k_override_release_on_activation k
      then fold (\<lambda>removed. filter (st_release_state (RsKeyCode removed))) (filter (\<lambda>x. \<not> is_mod x) (ovs_remove st))
             (mark_overridden_nonmodkeys_for_eager_erasure st (l_states (k_layout k)))
      else mark_overridden_nonmodkeys_for_eager_erasure st (l_states (k_layout k)))"

lemma compute_at_rest:
  assumes "k_cur_keys k = []" and "k_caps_word k = None"
    and "compute_keys CNoEvent k = Inr (r, k1)" and "l_states (k_layout k1) = l_states (k_layout k)"
  obtains keys st where
    "override_keys (k_overrides k) (unmodded k) (k_override_states k) (of_nat (current_layer (k_layout k))) = Inr (keys, st)"
    "r = False" "k1 = k\<lparr>k_cur_keys := keys, k_override_states := st\<rparr>"
    "overridden_states k st = l_states (k_layout k)"
proof -
  from assms(3) obtain k2 where o: "apply_overrides (k\<lparr>k_cur_keys := unmodded k\<rparr>) = Inr k2"
    and r: "r = False" and k1: "k1 = apply_caps_word k2"
    using assms(1) by (auto simp: compute_noevent unmodded_eq and_then_Inr_iff)
  from o obtain keys st where
    ov: "override_keys (k_overrides k) (unmodded k) (k_override_states k) (of_nat (current_layer (k_layout k))) = Inr (keys, st)"
    and k2: "k2 = k\<lparr>k_cur_keys := keys, k_override_states := st, k_layout := (k_layout k)\<lparr>l_states := overridden_states k st\<rparr>\<rparr>"
    by (auto simp: apply_overrides_def overridden_states_def and_then_Inr_iff Let_def)
  have "apply_caps_word k2 = k2" using assms(2) by (simp add: apply_caps_word_def k2)
  then have "overridden_states k st = l_states (k_layout k)" using assms(4) by (simp add: k1 k2)
  moreover from this have "k1 = k\<lparr>k_cur_keys := keys, k_override_states := st\<rparr>"
    using \<open>apply_caps_word k2 = k2\<close> by (simp add: k1 k2)
  ultimately show ?thesis using that ov r by blast
qed

lemma compute_at_restI:
  assumes "k_cur_keys k = []" and "k_caps_word k = None"
    and "override_keys (k_overrides k) (unmodded k) (k_override_states k) (of_nat (current_layer (k_layout k))) = Inr (keys, st)"
    and "overridden_states k st = l_states (k_layout k)"
  shows "compute_keys CNoEvent k = Inr (False, k\<lparr>k_cur_keys := keys, k_override_states := st\<rparr>)"
  using assms
  by (simp add: compute_noevent unmodded_eq apply_overrides_def overridden_states_def apply_caps_word_def Let_def)

section \<open>A tick at rest\<close>

lemma press_old_keys: "set xs \<subseteq> set (k_prev_keys k) \<Longrightarrow> press_new_keys n cur xs k = Inr ([], k)"
  by (induction xs) simp_all

lemma send_nothing:
  assumes "set (k_cur_keys k) = set (k_prev_keys k)" and "\<not> ks_active (k_sequence_state k)"
  shows "send_key_changes n r k = Inr ([], k)"
  using assms by (simp add: send_key_changes_def release_old_keys_def end_overlap_def then_step_def press_old_keys)

text \<open>What follows the custom action in a tick, when nothing is pending.\<close>

lemma rest_of_tick:
  assumes "handle_keystate_changes n k = Inr (b, cs, k1)" and "k_sequence_state k1 = k_sequence_state k"
    and "\<not> ks_active (k_sequence_state k)" and "k_waiting_for_idle k1 = []" "k_waiting_for_physical_idle k1 = []"
    and "k_vkeys_pending_release k1 = []"
  shows "tick_states n k = Inr (cs @ [CallZippyTick (k_caps_word k1 \<noteq> None)],
     rotate_keys (tick_counters (k1\<lparr>k_live_reload_requested := k_live_reload_requested k1 \<or> b\<rparr>)))"
  using assms
  by (simp add: tick_states_def then_step_def tick_sequences_def tick_sequence_state_def on_layout_def
      tick_idle_timeout_def tick_physical_idle_timeout_def run_idle_actions_def tick_held_vkeys_def Let_def
      tick_counters_def rotate_keys_def)

lemma settled_tick:
  assumes "settled k" and "at_rest k"
  shows "\<exists>k'. tick_states n k = Inr ([CallZippyTick False], k') \<and> settled k' \<and> at_rest k'
     \<and> set (k_prev_keys k') = set (k_prev_keys k)"
proof -
  let ?l = "clock (k_layout k)"
  let ?k = "k\<lparr>k_layout := ?l\<rparr>"
  from assms have c: "calm (k_layout k)" "k_cur_keys k = []" "k_caps_word k = None"
    by (simp_all add: settled_def at_rest_def)
  from assms(1) obtain k1 where "compute_keys CNoEvent ?k = Inr (False, k1)"
    and cur: "set (k_cur_keys k1) = set (k_prev_keys k)" and "l_states (k_layout k1) = l_states (k_layout k)"
    by (auto simp: settled_def)
  then obtain keys st where
    ov: "override_keys (k_overrides k) (unmodded ?k) (k_override_states k) (of_nat (current_layer ?l)) = Inr (keys, st)"
    and k1: "k1 = ?k\<lparr>k_cur_keys := keys, k_override_states := st\<rparr>"
    and sts: "overridden_states ?k st = l_states (k_layout k)"
    using compute_at_rest [of ?k False k1] c by auto
  let ?k2 = "k1\<lparr>k_prev_layer := current_layer ?l\<rparr>"
  have "tick_layout (do_action n) (k_layout k) = Inr (CNoEvent, ?l)"
    using tick_idle [OF c(1)] assms(2) by (simp add: at_rest_def)
  moreover have "compute_keys CNoEvent ?k = Inr (False, k1)"
    using compute_at_restI [of ?k keys st] c ov sts by (simp add: k1)
  moreover have "send_key_changes n False k1 = Inr ([], k1)"
    using send_nothing [of k1] cur assms(2) by (simp add: k1 at_rest_def)
  ultimately have h: "handle_keystate_changes n k = Inr (False, [], ?k2)"
    by (simp add: handle_keystate_changes_def late_custom_def k1)
  let ?k' = "rotate_keys (tick_counters ?k2)"
  have tick: "tick_states n k = Inr ([CallZippyTick False], ?k')"
    using rest_of_tick [OF h] assms(2) by (simp add: k1 at_rest_def)
  have rest: "at_rest ?k'"
    using assms(2) by (simp add: at_rest_def k1 rotate_keys_def tick_counters_def tick_lpt_def sat_sub_def)
  let ?k3 = "?k'\<lparr>k_layout := clock ?l\<rparr>"
  have "unmodded ?k3 = unmodded ?k"
    by (rule unmodded_cong) (simp_all add: k1 rotate_keys_def tick_counters_def)
  then have "override_keys (k_overrides ?k3) (unmodded ?k3) (k_override_states ?k3)
      (of_nat (current_layer (k_layout ?k3))) = Inr (keys, st)"
    using override_keys_again [OF ov] by (simp add: k1 rotate_keys_def tick_counters_def)
  moreover have "overridden_states ?k3 st = l_states (k_layout ?k3)"
    using sts by (cases "k_override_release_on_activation k")
      (simp_all add: overridden_states_def k1 rotate_keys_def tick_counters_def)
  ultimately have "compute_keys CNoEvent ?k3 = Inr (False, ?k3\<lparr>k_cur_keys := keys, k_override_states := st\<rparr>)"
    using compute_at_restI [of ?k3 keys st] c by (simp add: k1 rotate_keys_def tick_counters_def)
  moreover have "k_layout ?k' = ?l" "k_prev_keys ?k' = keys" "k_cur_keys ?k' = []"
    by (simp_all add: k1 rotate_keys_def tick_counters_def)
  ultimately have "settled ?k'" using c by (simp add: settled_def)
  moreover have "set (k_prev_keys ?k') = set (k_prev_keys k)"
    using cur by (simp add: k1 rotate_keys_def tick_counters_def)
  ultimately show ?thesis using tick rest by blast
qed

lemma settled_ticks:
  assumes "settled k" and "at_rest k"
  shows "\<exists>k'. proc_run n (replicate m ProcTick) k = Inr (replicate m (CallZippyTick False), k')
     \<and> settled k' \<and> at_rest k' \<and> set (k_prev_keys k') = set (k_prev_keys k)"
  using assms
proof (induction m arbitrary: k)
  case (Suc m)
  from settled_tick [OF Suc.prems, of n] obtain k1 where
    t: "tick_states n k = Inr ([CallZippyTick False], k1)" "settled k1" "at_rest k1"
    and p: "set (k_prev_keys k1) = set (k_prev_keys k)" by blast
  from Suc.IH [OF t(2,3)] p t(1) show ?case by (auto simp: then_step_def)
qed auto


section \<open>Plain typing\<close>

text \<open>No feature that changes the keys of the layout is in use.\<close>

definition plain_typing :: "kanata \<Rightarrow> bool" where
  "plain_typing k \<longleftrightarrow> k_cur_keys k = [] \<and> k_overrides k = [] \<and> ovs_remove (k_override_states k) = []
     \<and> k_unmodded_keys k = [] \<and> k_unshifted_keys k = [] \<and> k_caps_word k = None
     \<and> \<not> ks_active (k_sequence_state k) \<and> \<not> k_sequence_always_on k \<and> k_waiting_for_idle k = []
     \<and> k_waiting_for_physical_idle k = [] \<and> k_vkeys_pending_release k = [] \<and> k_record_state k = None
     \<and> k_macro_on_press_cancel_duration k = 0"

text \<open>The keys a tick presses: those that were not pressed, each once.\<close>

fun new_keys :: "keycode list \<Rightarrow> keycode list \<Rightarrow> keycode list" where
  "new_keys prev [] = []"
| "new_keys prev (x # xs) = (if x \<in> set prev then new_keys prev xs else x # new_keys (prev @ [x]) xs)"

lemma press_new_keys_plain:
  assumes "\<not> ks_active (k_sequence_state k)" and "\<not> k_sequence_always_on k"
  shows "\<exists>prev x. press_new_keys n cur xs k
    = Inr (map CallPress (new_keys (k_prev_keys k) xs), k\<lparr>k_prev_keys := prev, k_last_pressed_key := x\<rparr>)"
  using assms
proof (induction xs arbitrary: k)
  case Nil
  show ?case by (intro exI [of _ "k_prev_keys k"] exI [of _ "k_last_pressed_key k"]) simp
next
  case (Cons x xs)
  let ?k = "k\<lparr>k_prev_keys := k_prev_keys k @ [x], k_last_pressed_key := x\<rparr>"
  have "press_new_key n cur x k = Inr ([CallPress x], ?k)"
    using Cons.prems by (simp add: press_new_key_def Let_def)
  moreover obtain prev y where "press_new_keys n cur xs ?k
      = Inr (map CallPress (new_keys (k_prev_keys ?k) xs), ?k\<lparr>k_prev_keys := prev, k_last_pressed_key := y\<rparr>)"
    using Cons.IH [of ?k] Cons.prems by auto
  ultimately show ?case
    using Cons.IH [OF Cons.prems] by (auto simp: then_step_def)
qed

lemma compute_plain:
  assumes "plain_typing k"
  shows "compute_keys CNoEvent k = Inr (False, k\<lparr>k_cur_keys := keycodes (k_layout k)\<rparr>)"
  using assms
  by (simp add: plain_typing_def compute_noevent unmod_keys_def unshift_keys_def apply_overrides_def
      override_keys_def apply_caps_word_def mark_overridden_nonmodkeys_for_eager_erasure_def Let_def)

lemma tick_plain:
  assumes "plain_typing k" and "tick_layout (do_action n) (k_layout k) = Inr (CNoEvent, l)"
  shows "\<exists>k'. tick_states n k = Inr (map CallRelease (filter (\<lambda>x. x \<notin> set (keycodes l)) (k_prev_keys k))
      @ map CallPress (new_keys (k_prev_keys k) (keycodes l)) @ [CallZippyTick False], k')
    \<and> plain_typing k' \<and> k_layout k' = l \<and> k_prev_keys k' = keycodes l"
proof -
  let ?k = "k\<lparr>k_layout := l\<rparr>"
  let ?k1 = "?k\<lparr>k_cur_keys := keycodes l\<rparr>"
  have p: "plain_typing ?k" using assms(1) by (simp add: plain_typing_def)
  have "end_overlap n ?k1 = Inr ([], ?k1)" using assms(1) by (simp add: end_overlap_def plain_typing_def)
  moreover obtain prev x where "press_new_keys n (keycodes l) (keycodes l) ?k1
      = Inr (map CallPress (new_keys (k_prev_keys k) (keycodes l)), ?k1\<lparr>k_prev_keys := prev, k_last_pressed_key := x\<rparr>)"
    using press_new_keys_plain [of ?k1 n "keycodes l" "keycodes l"] assms(1) by (auto simp: plain_typing_def)
  ultimately have h: "handle_keystate_changes n k
      = Inr (False, map CallRelease (filter (\<lambda>x. x \<notin> set (keycodes l)) (k_prev_keys k))
          @ map CallPress (new_keys (k_prev_keys k) (keycodes l)),
        ?k1\<lparr>k_prev_keys := prev, k_last_pressed_key := x, k_prev_layer := current_layer l\<rparr>)"
    using assms(2) compute_plain [OF p]
    by (simp add: handle_keystate_changes_def send_key_changes_def then_step_def release_old_keys_def late_custom_def)
  show ?thesis
    using rest_of_tick [OF h] assms(1)
    by (auto simp: plain_typing_def rotate_keys_def tick_counters_def tick_record_state_def sat_sub_def)
qed

text \<open>Inputs of physical keys.\<close>

definition press_input :: "u16 \<Rightarrow> proc_input" where
  "press_input code = ProcEvent \<lparr>ke_code = code, ke_value = KvPress, ke_device = None\<rparr>"

definition release_input :: "u16 \<Rightarrow> proc_input" where
  "release_input code = ProcEvent \<lparr>ke_code = code, ke_value = KvRelease, ke_device = None\<rparr>"

lemma press_input_step:
  assumes "plain_typing k"
    and "layout_event (do_action n) (Press 0 code) ((k_layout k)\<lparr>l_device_history := h\<rparr>) = Inr l"
    and "h = fst (wrap_push_front DEVICE_HISTORY_LEN None (l_device_history (k_layout k)))"
  shows "proc_step n (press_input code) k = Inr ([], k\<lparr>k_layout := l, k_ticks_since_idle := 0\<rparr>)"
  using assms
  by (simp add: press_input_def handle_input_event_def input_press_def DynamicMacro.record_press_def
      save_macro_def on_layout_def plain_typing_def Let_def)

lemma release_input_step:
  assumes "plain_typing k" and "layout_event (do_action n) (Release 0 code) (k_layout k) = Inr l"
  shows "proc_step n (release_input code) k = Inr ([], k\<lparr>k_layout := l, k_ticks_since_idle := 0\<rparr>)"
  using assms
  by (simp add: release_input_def handle_input_event_def record_release_def on_layout_def plain_typing_def Let_def)

lemma new_keys_append: "new_keys prev (xs @ ys) = new_keys prev xs @ new_keys (prev @ new_keys prev xs) ys"
  by (induction prev xs rule: new_keys.induct) simp_all

lemma new_keys_old: "set xs \<subseteq> set prev \<Longrightarrow> new_keys prev xs = []"
  by (induction xs) simp_all

text \<open>C1: Typing a key through the whole program: while other keys are held, the press of a physical key that the
  active layers bind to a key code makes the next tick send exactly the press of this code, its
  release makes the next tick send exactly the release, and then the layout and the loop are as
  idle as before.\<close>

theorem key_tap_sent:
  assumes "plain_typing k" and "idle (k_layout k)"
    and "trans_resolution_layer_order (k_layout k) = Inr stack"
    and "resolve_coord (k_layout k) (0, code) stack = Inr (KeyCode kc, rest)"
    and "length (l_states (k_layout k)) < STATES_LEN"
    and "\<forall>s \<in> set (l_states (k_layout k)). st_coord s \<noteq> Some (0, code)"
    and "k_prev_keys k = List.map_filter st_keycode (l_states (k_layout k))" and "kc \<notin> set (k_prev_keys k)"
  shows "\<exists>k'. proc_run (Suc n) [press_input code, ProcTick, release_input code, ProcTick] k
      = Inr ([CallPress kc, CallZippyTick False, CallRelease kc, CallZippyTick False], k')
    \<and> l_states (k_layout k') = l_states (k_layout k) \<and> idle (k_layout k') \<and> plain_typing k'
    \<and> k_prev_keys k' = k_prev_keys k"
proof -
  let ?h = "fst (wrap_push_front DEVICE_HISTORY_LEN None (l_device_history (k_layout k)))"
  let ?l = "(k_layout k)\<lparr>l_device_history := ?h\<rparr>"
  have "idle ?l" using assms(2) by (simp add: idle_def calm_def)
  moreover have "trans_resolution_layer_order ?l = Inr stack" "resolve_coord ?l (0, code) stack = Inr (KeyCode kc, rest)"
    using assms(3,4) resolves_cong [of ?l "k_layout k"] by simp_all
  ultimately obtain la l1 where
    p: "layout_event (do_action (Suc n)) (Press 0 code) ?l = Inr la"
      "tick_layout (do_action (Suc n)) la = Inr (CNoEvent, l1)"
    and s1: "l_states l1 = l_states (k_layout k) @ [NormalKey kc (0, code) 0]" "l_suppress l1 = []" and i1: "idle l1"
    using plain_press [of ?l stack 0 code kc rest n] assms(5) by auto
  let ?ka = "k\<lparr>k_layout := la, k_ticks_since_idle := 0\<rparr>"
  have ka: "plain_typing ?ka" using assms(1) by (simp add: plain_typing_def)
  have kc1: "keycodes l1 = k_prev_keys k @ [kc]"
    using s1 assms(7) by (simp add: keycodes_def List.map_filter_def)
  obtain k1 where t1: "tick_states (Suc n) ?ka = Inr ([CallPress kc, CallZippyTick False], k1)"
    and k1: "plain_typing k1" "k_layout k1 = l1" "k_prev_keys k1 = k_prev_keys k @ [kc]"
    using tick_plain [OF ka, of "Suc n" l1] p(2) assms(8) by (auto simp: kc1 new_keys_append new_keys_old simp del: do_action.simps)
  have "customs_at (0, code) (l_states l1) = []" using customs_at_append_key [OF assms(6)] s1 by simp
  then obtain lb l2 where r: "layout_event (do_action (Suc n)) (Release 0 code) l1 = Inr lb"
      "tick_layout (do_action (Suc n)) lb = Inr (CNoEvent, l2)"
    and s2: "l_states l2 = filter (\<lambda>s. st_coord s \<noteq> Some (0, code)) (l_states l1)" "l_suppress l2 = []" and i2: "idle l2"
    using plain_release [OF i1, of 0 code "do_action (Suc n)"] by blast
  have s2': "l_states l2 = l_states (k_layout k)" using s2(1) s1 assms(6) by simp
  then have kc2: "keycodes l2 = k_prev_keys k" using s2(2) assms(7) by (simp add: keycodes_def List.map_filter_def)
  let ?kb = "k1\<lparr>k_layout := lb, k_ticks_since_idle := 0\<rparr>"
  have kb: "plain_typing ?kb" using k1(1) by (simp add: plain_typing_def)
  have "new_keys (k_prev_keys k @ [kc]) (k_prev_keys k) = []" by (rule new_keys_old) auto
  then obtain k2 where t2: "tick_states (Suc n) ?kb = Inr ([CallRelease kc, CallZippyTick False], k2)"
    and k2: "plain_typing k2" "k_layout k2 = l2" "k_prev_keys k2 = k_prev_keys k"
    using tick_plain [OF kb, of "Suc n" l2] r(2) assms(8) k1(3)
    by (auto simp: kc2 new_keys_old simp del: do_action.simps)
  have "proc_step (Suc n) (press_input code) k = Inr ([], ?ka)"
    by (rule press_input_step [OF assms(1) p(1) refl])
  moreover have "proc_step (Suc n) (release_input code) k1 = Inr ([], ?kb)"
    using release_input_step [OF k1(1), of "Suc n" code lb] r(1) k1(2) by (simp del: do_action.simps)
  ultimately show ?thesis
    using t1 t2 k2 s2' i2 by (auto simp: then_step_def simp del: do_action.simps)
qed

section \<open>Examples\<close>

definition example_kanata :: "custom_action layout \<Rightarrow> keycode list \<Rightarrow> kanata" where
  "example_kanata l prev = \<lparr>k_key_outputs = [], k_layout = l, k_cur_keys = [], k_prev_keys = prev,
     k_prev_layer = 0, k_cfg_paths = [''kanata.kbd''], k_cur_cfg_idx = 0,
     k_sequence_backtrack_modcancel = True, k_sequence_always_on = False,
     k_sequence_input_mode = HiddenSuppressed, k_sequence_timeout = 1000, k_sequence_state = key_seq_new,
     k_sequences = (\<lambda>_. NotInTrie), k_dynamic_macros = Map.empty, k_replay_state = None,
     k_record_state = None, k_overrides = [], k_override_states = override_states_new,
     k_live_reload_requested = False, k_caps_word = None, k_waiting_for_idle = [],
     k_waiting_for_physical_idle = [], k_vkeys_pending_release = [], k_ticks_since_idle = 0,
     k_ticks_since_physical_idle = 0, k_override_release_on_activation = False,
     k_dynamic_macro_max_presses = 128, k_replay_behaviour = RecordedDelay, k_unmodded_keys = [],
     k_unmodded_mods = 0, k_unshifted_keys = [], k_last_pressed_key = 0, k_max_key_timing_check = 0,
     k_macro_on_press_cancel_duration = 0, k_path_exists = (\<lambda>_. False), k_hash_order = id\<rparr>"

definition two_keys :: "custom_action layout" where
  "two_keys = blank_layout [KeyCode 30, KeyCode 31] [[[KeyCode 30, KeyCode 31], [NoOp, NoOp]]] True False"

lemma two_keys_facts:
  "idle two_keys" "l_states two_keys = []" "trans_resolution_layer_order two_keys = Inr [0]"
  "resolve_coord two_keys (0, 1) [0] = Inr (KeyCode 31, [])" "l_suppress two_keys = []"
  by (simp_all add: two_keys_def blank_layout_def idle_def calm_def one_shot_new_def
      trans_resolution_layer_order_def active_held_layers_def MAX_ACTIVE_LAYERS_def List.map_filter_def
      resolve_coord_def layer_action_def Let_def)

lemma example_plain: "plain_typing (example_kanata l prev)"
  by (simp add: plain_typing_def example_kanata_def override_states_new_def key_seq_new_def)

lemma example_kanata_sel [simp]:
  "k_layout (example_kanata l prev) = l" "k_prev_keys (example_kanata l prev) = prev"
  "k_cur_keys (example_kanata l prev) = []" "\<not> k_sequence_always_on (example_kanata l prev)"
  by (simp_all add: example_kanata_def)

text \<open>A key of the last tick that is not pressed any more.\<close>

lemma two_keys_tick:
  "tick_layout (do_action 1) two_keys = Inr (CNoEvent, clock two_keys)"
  "\<exists>k'. tick_states 1 (example_kanata two_keys [31]) = Inr ([CallRelease 31, CallZippyTick False], k')"
proof -
  show t: "tick_layout (do_action 1) two_keys = Inr (CNoEvent, clock two_keys)"
    by (rule tick_idle) (use two_keys_facts(1) in \<open>simp_all add: idle_def\<close>)
  have "keycodes (clock two_keys) = []" using two_keys_facts by (simp add: keycodes_def List.map_filter_def)
  then show "\<exists>k'. tick_states 1 (example_kanata two_keys [31]) = Inr ([CallRelease 31, CallZippyTick False], k')"
    using tick_plain [OF example_plain [of two_keys "[31]"], of 1 "clock two_keys"] t
    by (auto simp del: do_action.simps)
qed

theorem key_tap_sent_witness:
  "\<exists>k'. proc_run 1 [press_input 1, ProcTick, release_input 1, ProcTick] (example_kanata two_keys [])
      = Inr ([CallPress 31, CallZippyTick False, CallRelease 31, CallZippyTick False], k')
    \<and> k_prev_keys k' = []"
  using key_tap_sent [OF example_plain [of two_keys "[]"], of "[0]" 1 31 "[]" 0] two_keys_facts
  by (auto simp: STATES_LEN_def List.map_filter_def simp del: proc_run.simps)


theorem keys_down_are_current_witness:
  "\<exists>k'. proc_run 1 [ProcTick] (example_kanata two_keys [31]) = Inr ([CallRelease 31, CallZippyTick False], k')
    \<and> calls_down [CallRelease 31, CallZippyTick False] {31} \<subseteq> set (k_prev_keys k')"
proof -
  obtain k' where r: "proc_run 1 [ProcTick] (example_kanata two_keys [31])
      = Inr ([CallRelease 31, CallZippyTick False], k')"
    using two_keys_tick(2) by (auto simp: then_step_def)
  from keys_down_are_current [OF r, of "{31}"] r show ?thesis by auto
qed

theorem keys_down_exact_witness:
  "\<exists>k'. tick_states 1 (example_kanata two_keys [31]) = Inr ([CallRelease 31, CallZippyTick False], k')
    \<and> calls_down [CallRelease 31, CallZippyTick False] {31} = set (k_prev_keys k')"
proof -
  obtain k' where r: "tick_states 1 (example_kanata two_keys [31]) = Inr ([CallRelease 31, CallZippyTick False], k')"
    using two_keys_tick(2) by blast
  from keys_down_exact [OF r] two_keys_tick(1) r show ?thesis
    by (auto simp: key_seq_new_def example_kanata_def simp del: do_action.simps)
qed

section \<open>A hold-tap key that waits behind another one\<close>

text \<open>The second of two hold-tap keys of one switch, when the first was decided: it has one tick left.\<close>

definition second_hold_tap :: "custom_action waiting_state" where
  "second_hold_tap = \<lparr>w_coord = (0, 0), w_timeout = 1, w_on_press_reset = None, w_delay = 0,
     w_ticks = 4, w_hold = KeyCode 51, w_tap = KeyCode 40, w_timeout_action = KeyCode 51,
     w_config = WcHoldTap HtDefault, w_layer_stack = [0], w_prev_queue_len = 0xFF\<rparr>"

definition still_waiting :: "custom_action layout" where
  "still_waiting = two_keys\<lparr>l_extra_waiting := [second_hold_tap], l_states := [NormalKey 50 (0, 0) 0]\<rparr>"

lemma still_waiting_tick:
  "\<exists>l. tick_layout (do_action 1) still_waiting = Inr (CNoEvent, l)
     \<and> l_states l = [NormalKey 50 (0, 0) 0, NormalKey 51 (0, 0) 0] \<and> l_suppress l = []"
  by (simp add: still_waiting_def two_keys_def second_hold_tap_def blank_layout_def tick_layout_def tick_chords_def
     tick_main_def tick_timers_def tick_histories_def
     process_sequences_def tick_one_shot_def tick_osh_def one_shot_new_def tick_waiting_def tick_input_def process_extra_waitings_def
     tick_wt_def Let_def handle_hold_tap_def queue_len_u8_def hold_tap_reset_def hold_tap_finish_def decide_waiting_def waiting_into_timeout_def
     get_waiting_def waiting_delay_def run_fresh_def do_action_step_def do_resolved_def do_key_code_def
     sat_ops_u16 sat_sub_def checked_add_def checked_sub_def clear_flagged_def do_key_code_def push_state_def push_historical_key_def
     nth_opt_def sat_add_def waiting_delay_def remove_waiting_def set_hold_activated_def exclude_hold_or_timeout_from_history_def
     clear_quick_tap_def lt_update_coord_def lt_press_def rpt_keys_def set_rpt_def forget_quick_tap_def STATES_LEN_def
     process_sequence_custom_def history_new_def tick_hist_def lt_set_tap_hold_timeout_def tick_lpt_def
     nkf_clear_on_next_action_def NORMAL_KEY_FLAG_CLEAR_ON_NEXT_ACTION_def)

text \<open>\<open>is_idle\<close> does not look at the hold-tap keys that wait behind another one: the loop may block although the
  next tick would press a key. Such a state is reached by a switch with two hold-tap keys, where the
  first falls through, when the first is decided.\<close>

lemma blocks_before_second_hold_tap:
  "fst (can_block_update_idle_waiting True False 1 (example_kanata still_waiting [50]))
    \<and> (\<exists>k'. tick_states 1 (example_kanata still_waiting [50]) = Inr ([CallPress 51, CallZippyTick False], k'))"
proof -
  obtain l where l: "tick_layout (do_action 1) still_waiting = Inr (CNoEvent, l)"
    "l_states l = [NormalKey 50 (0, 0) 0, NormalKey 51 (0, 0) 0]" "l_suppress l = []"
    using still_waiting_tick by blast
  then have "keycodes l = [50, 51]" by (simp add: keycodes_def List.map_filter_simps)
  then have "\<exists>k'. tick_states 1 (example_kanata still_waiting [50]) = Inr ([CallPress 51, CallZippyTick False], k')"
    using tick_plain [OF example_plain [of still_waiting "[50]"], of 1 l] l(1) by (auto simp del: do_action.simps)
  then show ?thesis
    by (simp add: can_block_update_idle_waiting_def is_idle_def example_kanata_def still_waiting_def two_keys_def
        blank_layout_def one_shot_new_def key_seq_new_def iter_hevents_def history_new_def Let_def)
qed

end
