(* ===== verification/DynamicMacroFacts.thy ===== *)
theory DynamicMacroFacts
  imports DynamicMacro
begin

text \<open>Properties of dynamic macros: the timing of a replay, recording, and nesting.\<close>

section \<open>The processing loop does not overshoot\<close>

text \<open>One tick of the loop, without regard to how the loop groups the ticks.\<close>

definition replay_tick ::
  "(u16 \<rightharpoonup> macro_item list) \<Rightarrow> (nat \<Rightarrow> u16 list) \<Rightarrow> delay_behaviour \<Rightarrow> loop_state \<Rightarrow> loop_state" where
  "replay_tick recorded plays b l =
     (let l = tick_states_replay recorded plays l in
      case tick_replay_state b (lp_replay l) of
        (rp, None) \<Rightarrow> l\<lparr>lp_replay := rp\<rparr>
      | (rp, Some (ev, d)) \<Rightarrow> l\<lparr>lp_replay := rp, lp_events := lp_events l @ [(lp_ticks l, ev)]\<rparr>)"

text \<open>In how many ticks the next item of the replay is due.\<close>

definition due :: "replay_state option \<Rightarrow> nat" where
  "due rp = (case rp of None \<Rightarrow> 1 | Some s \<Rightarrow> max 1 (unat (rp_delay s)))"

lemma due_pos [simp]: "0 < due rp"
  by (cases rp) (simp_all add: due_def)

lemma due_play [simp]: "due (play_macro i recorded rp) = due rp"
  by (auto simp: due_def play_macro_def split: option.split)

lemma due_plays [simp]: "due (fold (\<lambda>i. play_macro i recorded) is rp) = due rp"
  by (induction "is" arbitrary: rp) simp_all

lemma sat_sub_1_pos: "sat_sub (a :: u16) 1 \<noteq> 0 \<longleftrightarrow> 1 < unat a"
  by (auto simp: sat_sub_eq_0_iff word_le_nat_alt)

lemma tick_replay_waits:
  assumes "1 < due rp"
  shows "\<exists>s. rp = Some s \<and> tick_replay_state b rp = (Some (s\<lparr>rp_delay := sat_sub (rp_delay s) 1\<rparr>), None)"
  using assms by (auto simp: due_def tick_replay_state_def sat_sub_1_pos Let_def split: option.splits)

lemma tick_replay_due:
  assumes "tick_replay_state b rp = (rp', r)"
  shows "(1 < due rp \<longrightarrow> due rp' = due rp - 1 \<and> r = None)
    \<and> (r = None \<or> (\<exists>ev d. r = Some (ev, d) \<and> unat d \<le> due rp'))"
proof (cases "1 < due rp")
  case True
  then obtain s where s: "rp = Some s" by (auto simp: due_def split: option.splits)
  then show ?thesis using True assms tick_replay_waits [OF True, of b]
    by (auto simp: due_def unat_simps)
next
  case False
  then show ?thesis using assms
    by (auto simp: tick_replay_state_def replay_item_def due_def Let_def
        split: option.splits list.splits macro_item.splits delay_behaviour.splits if_splits)
qed

text \<open>After \<open>k\<close> ticks of the first loop the next item is not due before all extra ticks are done.\<close>

lemma tick_ms_first_extra:
  assumes "tick_ms_first recorded plays b n extra l = (extra', l')"
    and "unat extra < k + due (lp_replay l)"
  shows "l' = (replay_tick recorded plays b ^^ n) l \<and> unat extra' < k + n + due (lp_replay l')"
  using assms
proof (induction n arbitrary: extra l k)
  case 0
  then show ?case by simp
next
  case (Suc n)
  let ?l = "tick_states_replay recorded plays l"
  have due_l: "due (lp_replay ?l) = due (lp_replay l)"
    by (simp add: tick_states_replay_def)
  obtain rp r where t: "tick_replay_state b (lp_replay ?l) = (rp, r)" by force
  note d = tick_replay_due [OF t, unfolded due_l]
  show ?case
  proof (cases r)
    case None
    have "unat extra < k + 1 + due rp"
      using d Suc.prems(2) due_pos [of rp] by (cases "1 < due (lp_replay l)") auto
    moreover have "replay_tick recorded plays b l = ?l\<lparr>lp_replay := rp\<rparr>"
      by (simp add: replay_tick_def t None)
    ultimately show ?thesis
      using Suc.IH [of extra "?l\<lparr>lp_replay := rp\<rparr>" "k + 1"] Suc.prems(1) t None
      by (auto simp: funpow_Suc_right Let_def simp del: funpow.simps)
  next
    case (Some x)
    then obtain ev e where x: "r = Some (ev, e)" by (cases x) auto
    then have "unat extra + unat e < k + 1 + due rp"
      using d Suc.prems(2) by auto
    then have "unat (sat_add extra e) < k + 1 + due rp" by (simp add: unat_simps)
    moreover have "replay_tick recorded plays b l
        = ?l\<lparr>lp_replay := rp, lp_events := lp_events ?l @ [(lp_ticks ?l, ev)]\<rparr>"
      by (simp add: replay_tick_def t x Let_def)
    ultimately show ?thesis
      using Suc.IH [of "sat_add extra e" "?l\<lparr>lp_replay := rp, lp_events := lp_events ?l @ [(lp_ticks ?l, ev)]\<rparr>" "k + 1"]
        Suc.prems(1) t x
      by (auto simp: funpow_Suc_right Let_def simp del: funpow.simps)
  qed
qed

lemma tick_ms_extra_waits:
  "n < due (lp_replay l) \<Longrightarrow>
   tick_ms_extra recorded plays b n l = (False, (replay_tick recorded plays b ^^ n) l)"
proof (induction n arbitrary: l)
  case 0
  then show ?case by simp
next
  case (Suc n)
  let ?l = "tick_states_replay recorded plays l"
  have due_l: "due (lp_replay ?l) = due (lp_replay l)"
    by (simp add: tick_states_replay_def)
  obtain rp r where t: "tick_replay_state b (lp_replay ?l) = (rp, r)" by force
  have "due rp = due (lp_replay l) - 1" "r = None"
    using tick_replay_due [OF t, unfolded due_l] Suc.prems by auto
  moreover from this have "replay_tick recorded plays b l = ?l\<lparr>lp_replay := rp\<rparr>"
    by (simp add: replay_tick_def t)
  ultimately show ?case using Suc.IH [of "?l\<lparr>lp_replay := rp\<rparr>"] Suc.prems t
    by (simp add: funpow_Suc_right Let_def del: funpow.simps)
qed

text \<open>C31: However the processing loop groups its ticks, the replay proceeds tick by tick: the extra
  ticks that make up for the delays between replayed events never reach the next event (the
  branch the code calls broken), whatever macros are played meanwhile, so long as less than
  65536 milliseconds passed at once.\<close>

theorem tick_ms_tick_by_tick:
  assumes "unat ms < 65536"
  shows "\<exists>n \<ge> unat ms. tick_ms recorded plays b ms l = (False, (replay_tick recorded plays b ^^ n) l)"
proof -
  obtain extra l' where f: "tick_ms_first recorded plays b (unat ms) 0 l = (extra, l')" by force
  have first: "l' = (replay_tick recorded plays b ^^ unat ms) l"
    "unat extra < unat ms + due (lp_replay l')"
    using tick_ms_first_extra [OF f, of 0] by auto
  have ms: "unat (ucast ms :: u16) = unat ms"
    using assms by (simp add: unsigned_ucast_eq take_bit_nat_eq_self)
  have "x - y < z" if "x < y + z" "0 < z" for x y z :: nat
    using that by linarith
  from this [OF first(2) due_pos] have n: "unat (sat_sub extra (ucast ms)) < due (lp_replay l')"
    by (simp only: unat_simps ms)
  let ?n = "unat (sat_sub extra (ucast ms)) + unat ms"
  have "tick_ms recorded plays b ms l = (False, (replay_tick recorded plays b ^^ ?n) l)"
    using tick_ms_extra_waits [OF n] first(1) f by (simp add: tick_ms_def funpow_add)
  then show ?thesis by (intro exI [of _ ?n]) simp
qed

text \<open>A replay caught up with after eight milliseconds at once.\<close>

theorem tick_ms_tick_by_tick_witness:
  "\<exists>n \<ge> 8. tick_ms Map.empty (\<lambda>_. []) RecordedDelay 8
       \<lparr>lp_replay = Some \<lparr>rp_active = {1}, rp_delay = 0, rp_items = [ItemPress 30 20]\<rparr>,
        lp_ticks = 0, lp_events = []\<rparr>
     = (False, (replay_tick Map.empty (\<lambda>_. []) RecordedDelay ^^ n)
       \<lparr>lp_replay = Some \<lparr>rp_active = {1}, rp_delay = 0, rp_items = [ItemPress 30 20]\<rparr>,
        lp_ticks = 0, lp_events = []\<rparr>)"
  using tick_ms_tick_by_tick [of 8 Map.empty "\<lambda>_. []" RecordedDelay
      "\<lparr>lp_replay = Some \<lparr>rp_active = {1}, rp_delay = 0, rp_items = [ItemPress 30 20]\<rparr>,
        lp_ticks = 0, lp_events = []\<rparr>"] by simp

section \<open>The timing of a replay\<close>

fun item_time :: "delay_behaviour \<Rightarrow> macro_item \<Rightarrow> nat" where
  "item_time RecordedDelay (ItemPress k d) = max 1 (unat d)"
| "item_time RecordedDelay (ItemRelease k d) = max 1 (unat d)"
| "item_time _ _ = 5"

fun item_event :: "macro_item \<Rightarrow> event option" where
  "item_event (ItemPress k d) = Some (Press 0 k)"
| "item_event (ItemRelease k d) = Some (Release 0 k)"
| "item_event (EndMacro i) = None"

text \<open>When the events of the items happen, from the time of the first on.\<close>

fun schedule :: "delay_behaviour \<Rightarrow> nat \<Rightarrow> macro_item list \<Rightarrow> (nat \<times> event) list" where
  "schedule b t [] = []"
| "schedule b t (i # is) =
     (case item_event i of None \<Rightarrow> [] | Some ev \<Rightarrow> [(t, ev)]) @ schedule b (t + item_time b i) is"

definition total_time :: "delay_behaviour \<Rightarrow> macro_item list \<Rightarrow> nat" where
  "total_time b items = sum_list (map (item_time b) items)"

lemma replay_tick_waiting:
  assumes "lp_replay l = Some s" and "1 < unat (rp_delay s)"
  shows "replay_tick recorded (\<lambda>_. []) b l =
    l\<lparr>lp_replay := Some (s\<lparr>rp_delay := rp_delay s - 1\<rparr>), lp_ticks := lp_ticks l + 1\<rparr>"
proof -
  have "tick_replay_state b (Some s) = (Some (s\<lparr>rp_delay := sat_sub (rp_delay s) 1\<rparr>), None)"
    using tick_replay_waits [of "Some s" b] assms(2) by (simp add: due_def)
  moreover have "sat_sub (rp_delay s) 1 = rp_delay s - 1"
    using assms(2) by (simp add: sat_sub_def word_less_nat_alt)
  ultimately show ?thesis using assms(1) by (simp add: replay_tick_def tick_states_replay_def)
qed

lemma unat_minus_1: "0 < unat (a :: u16) \<Longrightarrow> unat (a - 1) = unat a - 1"
  by (simp add: unat_sub word_le_nat_alt)

lemma replay_wait:
  "lp_replay l = Some s \<Longrightarrow> n < unat (rp_delay s) \<or> n = 0 \<Longrightarrow>
   (replay_tick recorded (\<lambda>_. []) b ^^ n) l =
     l\<lparr>lp_replay := Some (s\<lparr>rp_delay := rp_delay s - of_nat n\<rparr>), lp_ticks := lp_ticks l + n\<rparr>"
proof (induction n arbitrary: l s)
  case 0
  then show ?case by simp
next
  case (Suc n)
  let ?s = "s\<lparr>rp_delay := rp_delay s - 1\<rparr>"
  have "replay_tick recorded (\<lambda>_. []) b l = l\<lparr>lp_replay := Some ?s, lp_ticks := lp_ticks l + 1\<rparr>"
    using Suc.prems by (intro replay_tick_waiting) auto
  moreover have "n < unat (rp_delay ?s) \<or> n = 0"
    using Suc.prems(2) by (auto simp: unat_minus_1)
  ultimately show ?case
    using Suc.IH [of "l\<lparr>lp_replay := Some ?s, lp_ticks := lp_ticks l + 1\<rparr>" ?s]
    by (simp add: funpow_Suc_right algebra_simps del: funpow.simps)
qed

lemma replay_due_tick:
  assumes "lp_replay l = Some s" and "unat (rp_delay s) \<le> 1"
  shows "replay_tick recorded (\<lambda>_. []) b l =
    (case rp_items s of
       [] \<Rightarrow> l\<lparr>lp_replay := None, lp_ticks := lp_ticks l + 1\<rparr>
     | i # is \<Rightarrow>
         l\<lparr>lp_replay := Some
             \<lparr>rp_active = (case i of EndMacro m \<Rightarrow> rp_active s - {m} | _ \<Rightarrow> rp_active s),
              rp_delay = (case i of ItemPress k d \<Rightarrow> if b = RecordedDelay then d else 5
                | ItemRelease k d \<Rightarrow> if b = RecordedDelay then d else 5 | EndMacro m \<Rightarrow> 5),
              rp_items = is\<rparr>,
           lp_ticks := lp_ticks l + 1,
           lp_events := lp_events l @
             (case item_event i of None \<Rightarrow> [] | Some ev \<Rightarrow> [(lp_ticks l + 1, ev)])\<rparr>)"
proof -
  have "sat_sub (rp_delay s) 1 = 0" using assms(2) by (simp add: sat_sub_eq_0_iff word_le_nat_alt)
  then show ?thesis using assms(1)
    by (simp add: replay_tick_def tick_states_replay_def tick_replay_state_def replay_item_def Let_def
        split: list.split macro_item.split delay_behaviour.split)
qed

text \<open>From the tick in which an item is due on, all items are replayed at their times.\<close>

lemma replay_schedule:
  "lp_replay l = Some s \<Longrightarrow> unat (rp_delay s) \<le> 1 \<Longrightarrow>
   (replay_tick recorded (\<lambda>_. []) b ^^ (total_time b (rp_items s) + 1)) l =
     l\<lparr>lp_replay := None, lp_ticks := lp_ticks l + total_time b (rp_items s) + 1,
       lp_events := lp_events l @ schedule b (lp_ticks l + 1) (rp_items s)\<rparr>"
proof (induction "rp_items s" arbitrary: l s)
  case Nil
  then have "rp_items s = []" by simp
  then show ?case using replay_due_tick [OF Nil.prems, of recorded b] by (simp add: total_time_def)
next
  case (Cons i "is")
  have items: "rp_items s = i # is" using Cons(2) by simp
  let ?f = "replay_tick recorded (\<lambda>_. []) b"
  define l1 where "l1 = ?f l"
  obtain s1 where l1: "l1 = l\<lparr>lp_replay := Some s1, lp_ticks := lp_ticks l + 1,
      lp_events := lp_events l @ (case item_event i of None \<Rightarrow> [] | Some ev \<Rightarrow> [(lp_ticks l + 1, ev)])\<rparr>"
    and s1: "rp_items s1 = is" "max 1 (unat (rp_delay s1)) = item_time b i"
    using replay_due_tick [OF Cons.prems, of recorded b] items
    by (cases i; cases b) (auto simp: l1_def)
  let ?n = "item_time b i - 1"
  define s2 where "s2 = s1\<lparr>rp_delay := rp_delay s1 - of_nat ?n\<rparr>"
  have "(?f ^^ ?n) l1 = l1\<lparr>lp_replay := Some s2, lp_ticks := lp_ticks l1 + ?n\<rparr>"
    unfolding s2_def by (rule replay_wait) (use s1 in \<open>auto simp: l1\<close>)
  moreover have "unat (rp_delay s2) \<le> 1"
  proof (cases "unat (rp_delay s1) = 0")
    case True
    then show ?thesis using s1(2) by (simp add: s2_def)
  next
    case False
    then have "?n = unat (rp_delay s1 - 1)"
      using s1(2) unat_minus_1 [of "rp_delay s1"] by simp
    then have "of_nat ?n = rp_delay s1 - 1" by (simp only: of_nat_unat ucast_id)
    then show ?thesis by (simp add: s2_def)
  qed
  moreover have "rp_items s2 = is" by (simp add: s2_def s1)
  ultimately have rest: "(?f ^^ (total_time b is + 1)) ((?f ^^ ?n) l1) =
      l1\<lparr>lp_replay := None, lp_ticks := lp_ticks l1 + ?n + total_time b is + 1,
         lp_events := lp_events l1 @ schedule b (lp_ticks l1 + ?n + 1) is\<rparr>"
    using Cons(1) [of s2 "l1\<lparr>lp_replay := Some s2, lp_ticks := lp_ticks l1 + ?n\<rparr>"] by simp
  have "0 < item_time b i" by (cases i; cases b) auto
  then have "total_time b (rp_items s) + 1 = (total_time b is + 1) + (?n + 1)"
    by (simp add: items total_time_def)
  then have "(?f ^^ (total_time b (rp_items s) + 1)) l = (?f ^^ (total_time b is + 1)) ((?f ^^ ?n) l1)"
    by (simp only: funpow_add o_apply l1_def funpow_swap1 funpow.simps One_nat_def id_apply)
  then show ?case using rest \<open>0 < item_time b i\<close>
    by (simp add: l1 items total_time_def add.assoc split: option.split)
qed

text \<open>C32: Playing a recorded macro replays exactly its events in order, each at the time that the
  delays before it make (the recorded ones, but at least one tick each, or five ticks each),
  and then ends.\<close>

theorem played_macro_schedule:
  assumes "recorded i = Some items"
  shows "(replay_tick recorded (\<lambda>_. []) b ^^ (total_time b items + 1))
      \<lparr>lp_replay = play_macro i recorded None, lp_ticks = 0, lp_events = []\<rparr>
    = \<lparr>lp_replay = None, lp_ticks = total_time b items + 1, lp_events = schedule b 1 items\<rparr>"
  using assms replay_schedule [of "\<lparr>lp_replay = play_macro i recorded None, lp_ticks = 0, lp_events = []\<rparr>"
      "\<lparr>rp_active = {i}, rp_delay = 0, rp_items = items\<rparr>" b recorded]
  by (simp add: play_macro_def)

theorem played_macro_schedule_witness:
  "(replay_tick [1 \<mapsto> [ItemPress 30 20, ItemRelease 30 0]] (\<lambda>_. []) RecordedDelay ^^ 22)
      \<lparr>lp_replay = play_macro 1 [1 \<mapsto> [ItemPress 30 20, ItemRelease 30 0]] None, lp_ticks = 0, lp_events = []\<rparr>
    = \<lparr>lp_replay = None, lp_ticks = 22, lp_events = [(1, Press 0 30), (21, Release 0 30)]\<rparr>"
  using played_macro_schedule [of "[1 \<mapsto> [ItemPress 30 20, ItemRelease 30 0]]" 1
      "[ItemPress 30 20, ItemRelease 30 0]" RecordedDelay]
  by (simp add: total_time_def)

section \<open>What is recorded\<close>

text \<open>Something is typed: presses and releases, each followed by a number of ticks.\<close>

type_synonym typing = "(u16 \<times> waiting_type \<times> nat) list"

fun record_one ::
  "(u16 list \<Rightarrow> u16 list) \<Rightarrow> u16 \<Rightarrow> u16 \<times> waiting_type \<times> nat \<Rightarrow> record_state option \<Rightarrow> record_state option" where
  "record_one arb mx (k, PressWaits, n) rs = (tick_record_state ^^ n) (fst (record_press arb k mx rs))"
| "record_one arb mx (k, ReleaseWaits, n) rs = (tick_record_state ^^ n) (record_release k rs)"

definition record_typing ::
  "(u16 list \<Rightarrow> u16 list) \<Rightarrow> u16 \<Rightarrow> typing \<Rightarrow> record_state option \<Rightarrow> record_state option" where
  "record_typing arb mx es rs = fold (record_one arb mx) es rs"

fun typed_item :: "u16 \<times> waiting_type \<times> nat \<Rightarrow> macro_item" where
  "typed_item (k, PressWaits, n) = ItemPress k (of_nat (min n 65535))"
| "typed_item (k, ReleaseWaits, n) = ItemRelease k (of_nat (min n 65535))"

fun typed_event :: "u16 \<times> waiting_type \<times> nat \<Rightarrow> event" where
  "typed_event (k, PressWaits, n) = Press 0 k"
| "typed_event (k, ReleaseWaits, n) = Release 0 k"

lemma unat_small: "n < 65536 \<Longrightarrow> unat (of_nat n :: u16) = n"
  by (simp add: unsigned_of_nat take_bit_nat_eq_self)

lemma tick_record_Some:
  "tick_record_state (Some s) = Some (s\<lparr>rs_delay := sat_add (rs_delay s) 1\<rparr>)"
  by (simp add: tick_record_state_def)

lemma tick_record_delay:
  "(tick_record_state ^^ n) (Some s) = Some (s\<lparr>rs_delay := of_nat (min (unat (rs_delay s) + n) 65535)\<rparr>)"
proof (induction n)
  case 0
  have "unat (rs_delay s) \<le> 65535" using unsigned_less [of "rs_delay s", where ?'a = nat] by simp
  then show ?case by simp
next
  case (Suc n)
  have "sat_add (of_nat (min (unat (rs_delay s) + n) 65535)) 1
      = (of_nat (min (unat (rs_delay s) + Suc n) 65535) :: u16)"
  proof (rule word_eqI_unat)
    have small: "unat (of_nat (min m 65535) :: u16) = min m 65535" for m by (rule unat_small) simp
    show "unat (sat_add (of_nat (min (unat (rs_delay s) + n) 65535)) (1 :: u16))
        = unat (of_nat (min (unat (rs_delay s) + Suc n) 65535) :: u16)"
      by (simp only: unat_simps small) simp
  qed
  note delay = this
  have "(tick_record_state ^^ Suc n) (Some s)
      = Some (s\<lparr>rs_delay := sat_add (of_nat (min (unat (rs_delay s) + n) 65535)) 1\<rparr>)"
    by (simp add: Suc tick_record_Some)
  then show ?case by (simp only: delay)
qed

text \<open>The recording after an event: it waits, and everything before it is an item.\<close>

definition recording :: "u16 \<Rightarrow> typing \<Rightarrow> record_state" where
  "recording i es =
     (if es = [] then record_state_new i
      else \<lparr>rs_id = i,
            rs_waiting = (case last es of (k, ty, n) \<Rightarrow> Some (k, ty)),
            rs_items = map typed_item (butlast es),
            rs_delay = (case last es of (k, ty, n) \<Rightarrow> of_nat (min n 65535))\<rparr>)"

lemma push_waiting_recording: "rs_items (push_waiting (recording i es)) = map typed_item es"
proof (cases es rule: rev_cases)
  case Nil
  then show ?thesis by (simp add: recording_def record_state_new_def push_waiting_def)
next
  case (snoc es' e)
  obtain k ty n where e: "e = (k, ty, n)" by (cases e)
  then show ?thesis using snoc by (cases ty) (simp_all add: recording_def push_waiting_def)
qed

lemma recording_id: "rs_id (recording i es) = i" "rs_id (push_waiting s) = rs_id s"
  by (simp_all add: recording_def record_state_new_def push_waiting_def
      split: option.split prod.split waiting_type.split)

lemma add_event_recording:
  "(tick_record_state ^^ n) (Some (add_event k ty (recording i es))) = Some (recording i (es @ [(k, ty, n)]))"
  by (simp add: tick_record_delay add_event_def)
    (simp add: recording_def [of i "es @ [(k, ty, n)]"] push_waiting_recording recording_id)

lemma record_typing_recording:
  assumes "length es \<le> 2 * unat mx + 2"
  shows "record_typing arb mx es (Some (record_state_new i)) = Some (recording i es)"
  using assms
proof (induction es rule: rev_induct)
  case Nil
  then show ?case by (simp add: record_typing_def recording_def)
next
  case (snoc e es)
  obtain k ty n where e: "e = (k, ty, n)" by (cases e)
  have "\<not> length (rs_items (recording i es)) > unat mx * 2"
    using snoc.prems by (auto simp: recording_def record_state_new_def)
  then show ?case using snoc e
    by (cases ty) (simp_all add: record_typing_def record_press_def record_release_def add_event_recording)
qed

text \<open>The times of the events that were typed.\<close>

fun typing_times :: "nat \<Rightarrow> typing \<Rightarrow> (nat \<times> event) list" where
  "typing_times t [] = []"
| "typing_times t (e # es) = (t, typed_event e) # typing_times (t + snd (snd e)) es"

lemma schedule_append:
  "schedule b t (xs @ ys) = schedule b t xs @ schedule b (t + total_time b xs) ys"
  by (induction xs arbitrary: t) (simp_all add: total_time_def add.assoc)

lemma schedule_typed:
  "\<forall>e \<in> set es. 0 < snd (snd e) \<and> snd (snd e) < 65536 \<Longrightarrow>
   schedule RecordedDelay t (map typed_item es) = typing_times t es
   \<and> total_time RecordedDelay (map typed_item es) = sum_list (map (\<lambda>e. snd (snd e)) es)"
proof (induction es arbitrary: t)
  case Nil
  then show ?case by (simp add: total_time_def)
next
  case (Cons e es)
  obtain k ty n where e: "e = (k, ty, n)" by (cases e)
  then have "item_time RecordedDelay (typed_item e) = n" "item_event (typed_item e) = Some (typed_event e)"
    using Cons.prems by (cases ty; simp add: unat_small)+
  then show ?case using Cons e by (simp add: total_time_def)
qed

lemma schedule_releases:
  "schedule RecordedDelay t (map (\<lambda>k. ItemRelease k 0) ks)
    = zip [t..<t + length ks] (map (Release 0) ks)"
  by (induction ks arbitrary: t) (simp_all add: upt_rec)

text \<open>C33: What was typed while recording is what is replayed: typing \<open>es\<close> and then the key that
  stops the recording saves a macro, and playing it with the recorded delays gives the same
  events with the same times between them, and then the releases of the keys that were still
  pressed, one per tick. The exceptions are events in the same millisecond, which are replayed
  one per tick, pauses beyond 65 seconds, and recordings above the limit.\<close>

theorem record_replay_roundtrip:
  assumes "length es \<le> 2 * unat mx + 1"
    and "\<forall>e \<in> set es. 0 < snd (snd e) \<and> snd (snd e) < 65536"
    and "ks = arb (unreleased (map typed_item es))"
    and "t = 1 + sum_list (map (\<lambda>e. snd (snd e)) es)"
  shows "\<exists>items n. begin_record_macro arb i None = Inr (Some (record_state_new i), None)
     \<and> stop_macro arb 0 (record_typing arb mx (es @ [(k, PressWaits, j)]) (Some (record_state_new i)))
        = Inr (None, Some (i, items))
     \<and> (replay_tick [i \<mapsto> items] (\<lambda>_. []) RecordedDelay ^^ n)
          \<lparr>lp_replay = play_macro i [i \<mapsto> items] None, lp_ticks = 0, lp_events = []\<rparr>
        = \<lparr>lp_replay = None, lp_ticks = n,
           lp_events = typing_times 1 es @ zip [t..<t + length ks] (map (Release 0) ks)\<rparr>"
proof -
  let ?items = "add_release_for_all_unreleased_presses arb (map typed_item es)"
  have "stop_macro arb 0 (record_typing arb mx (es @ [(k, PressWaits, j)]) (Some (record_state_new i)))
      = Inr (None, Some (i, ?items))"
    using assms(1) by (simp add: record_typing_recording stop_macro_def push_waiting_recording remove_last_def
        and_then_def recording_id butlast_append)
  moreover have "schedule RecordedDelay 1 ?items
      = typing_times 1 es @ zip [t..<t + length ks] (map (Release 0) ks)"
    using schedule_typed [OF assms(2)] assms(3,4)
    by (simp add: add_release_for_all_unreleased_presses_def schedule_append schedule_releases)
  ultimately show ?thesis
    using played_macro_schedule [of "[i \<mapsto> ?items]" i ?items RecordedDelay]
    by (intro exI [of _ ?items] exI [of _ "total_time RecordedDelay ?items + 1"])
      (simp add: begin_record_macro_def)
qed

text \<open>Typing and releasing \<open>a\<close>, with the stop key pressed 90 ticks later.\<close>

theorem record_replay_roundtrip_witness:
  "\<exists>items n. begin_record_macro id 1 None = Inr (Some (record_state_new 1), None)
     \<and> stop_macro id 0 (record_typing id 100 ([(30, PressWaits, 50), (31, PressWaits, 40)] @ [(60, PressWaits, 3)])
          (Some (record_state_new 1))) = Inr (None, Some (1, items))
     \<and> (replay_tick [1 \<mapsto> items] (\<lambda>_. []) RecordedDelay ^^ n)
          \<lparr>lp_replay = play_macro 1 [1 \<mapsto> items] None, lp_ticks = 0, lp_events = []\<rparr>
        = \<lparr>lp_replay = None, lp_ticks = n,
           lp_events = typing_times 1 [(30, PressWaits, 50), (31, PressWaits, 40)]
             @ zip [91..<91 + length [30 :: u16, 31]] (map (Release 0) [30, 31])\<rparr>"
  by (rule record_replay_roundtrip) (simp_all add: unreleased_def)

section \<open>When a recording panics\<close>

text \<open>Stopping a recording (or starting the next one) panics exactly when nothing was typed since
  it began: the key that stops it is expected to be the last item. This happens when the
  actions come from a virtual key or a macro, or from one key that does both.\<close>

theorem recording_panics:
  assumes "length es \<le> 2 * unat mx + 2"
  shows "(stop_macro arb n (record_typing arb mx es (Some (record_state_new i))) = Inl Panic \<longleftrightarrow> es = [])
    \<and> (begin_record_macro arb j (record_typing arb mx es (Some (record_state_new i))) = Inl Panic \<longleftrightarrow> es = [])"
  using assms
  by (simp_all add: record_typing_recording stop_macro_def begin_record_macro_def push_waiting_recording
      remove_last_def and_then_def)

theorem recording_panics_witness:
  "(stop_macro id 0 (record_typing id 100 [] (Some (record_state_new 1))) = Inl Panic \<longleftrightarrow> ([] :: typing) = [])
   \<and> (begin_record_macro id 2 (record_typing id 100 [] (Some (record_state_new 1))) = Inl Panic
      \<longleftrightarrow> ([] :: typing) = [])"
  by (rule recording_panics) simp

section \<open>Every saved macro releases its keys\<close>

text \<open>The recorder with the saved macros, and what happens to it in \<open>Kanata\<close>: input events, ticks,
  and the three actions. A result is inserted into the map of macros.\<close>

type_synonym recorder = "record_state option \<times> (u16 \<rightharpoonup> macro_item list)"

fun save :: "record_state option \<times> saved_macro option \<Rightarrow> (u16 \<rightharpoonup> macro_item list) \<Rightarrow> recorder" where
  "save (rs, None) m = (rs, m)"
| "save (rs, Some (i, items)) m = (rs, m(i \<mapsto> items))"

inductive recorder_step ::
  "(u16 list \<Rightarrow> u16 list) \<Rightarrow> u16 \<Rightarrow> recorder \<Rightarrow> recorder \<Rightarrow> bool" for arb mx where
  Press_input: "recorder_step arb mx (rs, m) (save (record_press arb k mx rs) m)"
| Release_input: "recorder_step arb mx (rs, m) (record_release k rs, m)"
| Tick: "recorder_step arb mx (rs, m) (tick_record_state rs, m)"
| Begin: "begin_record_macro arb i rs = Inr r \<Longrightarrow> recorder_step arb mx (rs, m) (save r m)"
| Stop: "stop_macro arb n rs = Inr r \<Longrightarrow> recorder_step arb mx (rs, m) (save r m)"

definition is_end :: "macro_item \<Rightarrow> bool" where
  "is_end i \<longleftrightarrow> (case i of EndMacro _ \<Rightarrow> True | _ \<Rightarrow> False)"

text \<open>Every press of the items is followed by a release of its key, and no item ends a macro.\<close>

definition released_macro :: "macro_item list \<Rightarrow> bool" where
  "released_macro items \<longleftrightarrow>
     (\<forall>xs k d ys. items = xs @ ItemPress k d # ys \<longrightarrow> (\<exists>d'. ItemRelease k d' \<in> set ys))
     \<and> (\<forall>i \<in> set items. \<not> is_end i)"

lemma unreleased_snoc: "unreleased (items @ [i]) = note_item i (unreleased items)"
  by (simp add: unreleased_def)

lemma unreleased_press:
  "items = xs @ ItemPress k d # ys \<Longrightarrow> k \<in> set (unreleased items) \<or> (\<exists>d'. ItemRelease k d' \<in> set ys)"
proof (induction ys arbitrary: items rule: rev_induct)
  case Nil
  then show ?case using unreleased_snoc [of xs "ItemPress k d"] by simp
next
  case (snoc i ys)
  then have "k \<in> set (unreleased (xs @ ItemPress k d # ys)) \<or> (\<exists>d'. ItemRelease k d' \<in> set ys)" by simp
  moreover have "unreleased items = note_item i (unreleased (xs @ ItemPress k d # ys))"
    using snoc.prems unreleased_snoc [of "xs @ ItemPress k d # ys" i] by simp
  ultimately show ?case by (cases i) auto
qed

lemma released_macro_add:
  assumes "\<And>ks. set (arb ks) = set ks" and "\<forall>i \<in> set items. \<not> is_end i"
  shows "released_macro (add_release_for_all_unreleased_presses arb items)"
  unfolding released_macro_def
proof (intro conjI allI impI)
  fix xs k d ys
  let ?rel = "map (\<lambda>k. ItemRelease k 0) (arb (unreleased items))"
  assume "add_release_for_all_unreleased_presses arb items = xs @ ItemPress k d # ys"
  then have e: "items @ ?rel = xs @ ItemPress k d # ys"
    by (simp add: add_release_for_all_unreleased_presses_def)
  have "ItemPress k d \<notin> set ?rel" by auto
  moreover from e obtain us where "items = xs @ us \<and> us @ ?rel = ItemPress k d # ys
      \<or> items @ us = xs \<and> ?rel = us @ ItemPress k d # ys"
    by (auto simp: append_eq_append_conv2)
  ultimately have us: "items = xs @ us" "us @ ?rel = ItemPress k d # ys"
    by (metis in_set_conv_decomp)+
  then obtain zs where "us = ItemPress k d # zs"
    using \<open>ItemPress k d \<notin> set ?rel\<close> by (cases us) auto
  with us have z: "items = xs @ ItemPress k d # zs" "ys = zs @ ?rel" by auto
  have "(\<exists>d'. ItemRelease k d' \<in> set zs) \<or> k \<in> set (unreleased items)"
    using unreleased_press [OF z(1)] by blast
  then show "\<exists>d'. ItemRelease k d' \<in> set ys" using assms(1) z(2) by auto
next
  show "\<forall>i \<in> set (add_release_for_all_unreleased_presses arb items). \<not> is_end i"
    using assms(2) by (auto simp: add_release_for_all_unreleased_presses_def is_end_def)
qed

definition no_ends :: "record_state option \<Rightarrow> bool" where
  "no_ends rs \<longleftrightarrow> (\<forall>s. rs = Some s \<longrightarrow> (\<forall>i \<in> set (rs_items s). \<not> is_end i))"

lemma no_ends_push: "no_ends (Some s) \<Longrightarrow> no_ends (Some (push_waiting s))"
  by (auto simp: no_ends_def push_waiting_def is_end_def split: option.split waiting_type.split)

lemma no_ends_add: "no_ends (Some s) \<Longrightarrow> no_ends (Some (add_event k ty s))"
  using no_ends_push [of s] by (simp add: no_ends_def add_event_def)

lemma remove_last_items: "remove_last items = Inr items' \<Longrightarrow> set items' \<subseteq> set items"
  by (auto simp: remove_last_def split: if_splits dest: in_set_butlastD)

text \<open>A result keeps the recorder free of end markers, and what it saves releases its keys.\<close>

definition good_result :: "record_state option \<times> saved_macro option \<Rightarrow> bool" where
  "good_result r \<longleftrightarrow> no_ends (fst r) \<and> (\<forall>i items. snd r = Some (i, items) \<longrightarrow> released_macro items)"

definition good_recorder :: "recorder \<Rightarrow> bool" where
  "good_recorder r \<longleftrightarrow> no_ends (fst r) \<and> (\<forall>items \<in> ran (snd r). released_macro items)"

lemma good_save:
  assumes "good_result r" and "good_recorder (rs, m)"
  shows "good_recorder (save r m)"
proof -
  obtain rs' sv where r: "r = (rs', sv)" by force
  show ?thesis
  proof (cases sv)
    case None
    then show ?thesis using assms r by (simp add: good_recorder_def good_result_def)
  next
    case (Some p)
    obtain i items where p: "p = (i, items)" by force
    have "released_macro items'" if "items' \<in> ran (m(i \<mapsto> items))" for items'
      using that assms r Some p by (auto simp: good_recorder_def good_result_def ran_def split: if_splits)
    then show ?thesis using assms r Some p by (simp add: good_recorder_def good_result_def)
  qed
qed

lemma no_ends_new: "no_ends (Some (record_state_new i))" "no_ends None"
  by (simp_all add: no_ends_def record_state_new_def)

lemma good_saved:
  assumes "\<And>ks. set (arb ks) = set ks" and "no_ends (Some s)" and "no_ends rs'"
    and "set items \<subseteq> set (rs_items s)"
  shows "good_result (rs', Some (i, add_release_for_all_unreleased_presses arb items))"
  using released_macro_add [OF assms(1), of items] assms(2-4) by (auto simp: good_result_def no_ends_def)

lemma good_press:
  assumes "\<And>ks. set (arb ks) = set ks" and "no_ends rs"
  shows "good_result (record_press arb k mx rs)"
  using good_saved [OF assms(1)] assms(2) no_ends_add no_ends_new
  by (auto simp: record_press_def split: option.split) (simp add: good_result_def)+

lemma good_begin:
  assumes "\<And>ks. set (arb ks) = set ks" and "no_ends rs" and "begin_record_macro arb i rs = Inr r"
  shows "good_result r"
proof (cases rs)
  case None
  then show ?thesis using assms(3) no_ends_new by (auto simp: begin_record_macro_def good_result_def)
next
  case (Some s)
  have "no_ends (Some (push_waiting s))" using assms(2) Some no_ends_push by simp
  then show ?thesis
    using assms(3) Some good_saved [OF assms(1)] no_ends_new remove_last_items
    by (auto simp: begin_record_macro_def and_then_Inr_iff)
qed

lemma good_stop:
  assumes "\<And>ks. set (arb ks) = set ks" and "no_ends rs" and "stop_macro arb n rs = Inr r"
  shows "good_result r"
proof (cases rs)
  case None
  then show ?thesis using assms(3) no_ends_new by (auto simp: stop_macro_def good_result_def)
next
  case (Some s)
  have s: "no_ends (Some (push_waiting s))" using assms(2) Some no_ends_push by simp
  from assms(3) Some obtain items where i: "remove_last (rs_items (push_waiting s)) = Inr items"
    "r = (None, Some (rs_id s, add_release_for_all_unreleased_presses arb (take (length items - unat n) items)))"
    by (auto simp: stop_macro_def and_then_Inr_iff)
  have "set (take (length items - unat n) items) \<subseteq> set (rs_items (push_waiting s))"
    using remove_last_items [OF i(1)] set_take_subset by (rule order_trans [rotated])
  then show ?thesis unfolding i(2) by (rule good_saved [OF assms(1) s no_ends_new(2)])
qed

text \<open>Every macro the recorder ever saves releases each key it presses, after the press, so that
  no key is held down when a replay ends; and it contains no end marker, which only a nested
  replay adds.\<close>

theorem saved_macros_release_keys:
  assumes "\<And>ks. set (arb ks) = set ks"
    and "(recorder_step arb mx)\<^sup>*\<^sup>* (None, Map.empty) (rs, m)" and "m i = Some items"
  shows "released_macro items"
proof -
  have "good_recorder r" if "(recorder_step arb mx)\<^sup>*\<^sup>* (None, Map.empty) r" for r
    using that
  proof (induction rule: rtranclp_induct)
    case base
    then show ?case by (simp add: good_recorder_def no_ends_def)
  next
    case (step r r')
    from step.hyps(2) step.IH show ?case
    proof (induction)
      case (Press_input rs m k)
      then show ?case using good_press [OF assms(1)] by (intro good_save) (auto simp: good_recorder_def)
    next
      case (Release_input rs m k)
      then show ?case
        by (cases rs) (auto simp: record_release_def good_recorder_def dest: no_ends_add)
    next
      case (Tick rs m)
      then show ?case by (auto simp: tick_record_state_def no_ends_def good_recorder_def)
    next
      case (Begin i rs r m)
      then show ?case
        by (intro good_save good_begin [OF assms(1) _ Begin.hyps]) (auto simp: good_recorder_def)
    next
      case (Stop n rs r m)
      then show ?case
        by (intro good_save good_stop [OF assms(1) _ Stop.hyps]) (auto simp: good_recorder_def)
    qed
  qed
  from this [OF assms(2)] assms(3) show ?thesis by (auto simp: good_recorder_def intro: ranI)
qed

text \<open>A recording in which key 30 is pressed and the key that stops it follows at once.\<close>

lemma recorded_example:
  "(recorder_step id 100)\<^sup>*\<^sup>* (None, Map.empty) (None, [1 \<mapsto> [ItemPress 30 0, ItemRelease 30 0]])"
proof -
  let ?s0 = "Some (record_state_new 1)"
  let ?s1 = "fst (record_press id 30 100 ?s0)"
  let ?s2 = "fst (record_press id 60 100 ?s1)"
  let ?step = "recorder_step id 100"
  have "?step (None, Map.empty) (save (?s0, None) Map.empty)"
    by (rule recorder_step.Begin [of id 1]) (simp add: begin_record_macro_def)
  then have 1: "?step (None, Map.empty) (?s0, Map.empty)" by simp
  have "?step (?s0, Map.empty) (save (record_press id 30 100 ?s0) Map.empty)" by (rule recorder_step.Press_input)
  then have 2: "?step (?s0, Map.empty) (?s1, Map.empty)"
    by (simp add: record_press_def record_state_new_def add_event_def push_waiting_def)
  have "?step (?s1, Map.empty) (save (record_press id 60 100 ?s1) Map.empty)" by (rule recorder_step.Press_input)
  then have 3: "?step (?s1, Map.empty) (?s2, Map.empty)"
    by (simp add: record_press_def record_state_new_def add_event_def push_waiting_def)
  have "?step (?s2, Map.empty) (save (None, Some (1, [ItemPress 30 0, ItemRelease 30 0])) Map.empty)"
    by (rule recorder_step.Stop [of id 0])
      (simp add: record_press_def record_state_new_def add_event_def push_waiting_def stop_macro_def
        remove_last_def and_then_def add_release_for_all_unreleased_presses_def unreleased_def)
  then have 4: "?step (?s2, Map.empty) (None, [1 \<mapsto> [ItemPress 30 0, ItemRelease 30 0]])" by simp
  from 1 have "?step\<^sup>*\<^sup>* (None, Map.empty) (?s0, Map.empty)" by blast
  also note 2 also note 3 also note 4
  finally show ?thesis .
qed

theorem saved_macros_release_keys_witness:
  "released_macro [ItemPress 30 0, ItemRelease 30 0]"
  by (rule saved_macros_release_keys [OF _ recorded_example]) simp_all

section \<open>Nested replays\<close>

text \<open>A replay is driven by ticks and by the macros played, also by what is replayed. The map of
  macros may change in between; its macros have no end markers.\<close>

inductive replay_step :: "delay_behaviour \<Rightarrow> replay_state option \<Rightarrow> replay_state option \<Rightarrow> bool" for b where
  Replay_tick: "replay_step b rp (fst (tick_replay_state b rp))"
| Replay_play: "\<forall>items \<in> ran recorded. \<forall>i \<in> set items. \<not> is_end i \<Longrightarrow>
    replay_step b rp (play_macro m recorded rp)"

fun open_macros :: "macro_item list \<Rightarrow> u16 list" where
  "open_macros [] = []"
| "open_macros (EndMacro m # is) = m # open_macros is"
| "open_macros (i # is) = open_macros is"

lemma open_macros_append: "open_macros (xs @ ys) = open_macros xs @ open_macros ys"
  by (induction xs rule: open_macros.induct) simp_all

lemma open_macros_no_end: "\<forall>i \<in> set is. \<not> is_end i \<Longrightarrow> open_macros is = []"
  by (induction "is" rule: open_macros.induct) (simp_all add: is_end_def)

definition nested :: "replay_state \<Rightarrow> u16 \<Rightarrow> bool" where
  "nested s root \<longleftrightarrow> rp_active s = insert root (set (open_macros (rp_items s)))
     \<and> distinct (root # open_macros (rp_items s))"

lemma nested_new:
  assumes "\<forall>items \<in> ran recorded. \<forall>i \<in> set items. \<not> is_end i" and "recorded m = Some items"
  shows "\<exists>root. nested \<lparr>rp_active = {m}, rp_delay = 0, rp_items = items\<rparr> root"
proof -
  have "\<forall>i \<in> set items. \<not> is_end i" using assms by (auto intro: ranI)
  then show ?thesis by (simp add: nested_def open_macros_no_end)
qed

lemma nested_tick:
  assumes "nested s root" and "fst (tick_replay_state b (Some s)) = Some s'"
  shows "nested s' root"
  using assms
  by (auto simp: tick_replay_state_def replay_item_def nested_def Let_def
      split: if_splits list.splits macro_item.splits delay_behaviour.splits)

lemma nested_play:
  assumes "nested s root" and "\<forall>items \<in> ran recorded. \<forall>i \<in> set items. \<not> is_end i"
    and "play_macro m recorded (Some s) = Some s'"
  shows "nested s' root"
proof (cases "m \<in> rp_active s \<or> recorded m = None")
  case True
  then show ?thesis using assms by (auto simp: play_macro_def split: if_splits)
next
  case False
  then obtain items where m: "recorded m = Some items" "m \<notin> rp_active s" by auto
  then have "\<forall>i \<in> set items. \<not> is_end i" using assms(2) by (auto intro: ranI)
  then show ?thesis using assms m
    by (auto simp: play_macro_def nested_def open_macros_append open_macros_no_end)
qed

text \<open>The macros that may not be played again are exactly those whose replay has begun and not
  ended: the outermost one and those whose end markers are still ahead, and none of them is
  being replayed twice. So a macro never replays itself, directly or through others.\<close>

theorem nested_replays_distinct:
  assumes "(replay_step b)\<^sup>*\<^sup>* None (Some s)"
  shows "\<exists>root. rp_active s = insert root (set (open_macros (rp_items s)))
     \<and> distinct (root # open_macros (rp_items s))"
proof -
  have "\<exists>root. nested s root" if "(replay_step b)\<^sup>*\<^sup>* None rp" "rp = Some s" for rp s
    using that
  proof (induction arbitrary: s rule: rtranclp_induct)
    case base
    then show ?case by simp
  next
    case (step rp rp')
    show ?case
    proof (cases rp)
      case None
      with step.hyps(2) step.prems show ?thesis
        by cases (auto simp: tick_replay_state_def play_macro_def nested_new)
    next
      case (Some s0)
      then obtain root where root: "nested s0 root" using step.IH by blast
      from step.hyps(2) have "nested s root"
      proof cases
        case Replay_tick
        then show ?thesis using nested_tick [OF root] Some step.prems by metis
      next
        case (Replay_play recorded m)
        then show ?thesis using nested_play [OF root] Some step.prems by metis
      qed
      then show ?thesis ..
    qed
  qed
  from this [OF assms] show ?thesis unfolding nested_def by blast
qed

lemma replaying_example:
  "(replay_step ConstantDelay)\<^sup>*\<^sup>* None
     (Some \<lparr>rp_active = {1}, rp_delay = 5, rp_items = []\<rparr>)"
proof -
  have "replay_step ConstantDelay None (play_macro 1 [1 \<mapsto> [ItemPress 30 0]] None)"
    by (rule replay_step.Replay_play) (simp add: is_end_def)
  moreover have "replay_step ConstantDelay (play_macro 1 [1 \<mapsto> [ItemPress 30 0]] None)
      (fst (tick_replay_state ConstantDelay (play_macro 1 [1 \<mapsto> [ItemPress 30 0]] None)))"
    by (rule replay_step.Replay_tick)
  ultimately show ?thesis
    by (simp add: play_macro_def tick_replay_state_def replay_item_def Let_def)
qed

theorem nested_replays_distinct_witness:
  "\<exists>root. {1} = insert root (set (open_macros [])) \<and> distinct (root # open_macros [])"
  using nested_replays_distinct [OF replaying_example] by simp

end
