(* ===== verification/Sexpr.thy ===== *)
theory Sexpr
  imports Prelude
begin

text \<open>
  The lexer and parser of configuration files (\<open>parser/src/cfg/sexpr.rs\<close>). A character of HOL is
  a byte. Spans leave out the name and the content of the file, which are the same for all
  spans of a file. The assertions of \<open>Position::new\<close> and \<open>Span::new\<close> are not branches of the
  model: \<open>spans_well_formed\<close> shows that they hold.
\<close>

section \<open>Positions and spans\<close>

record position =
  absolute :: nat
  line :: nat
  line_beginning :: nat

record span =
  span_start :: position
  span_end :: position

definition position_default :: position where
  "position_default = \<lparr>absolute = 0, line = 0, line_beginning = 0\<rparr>"

definition span_default :: span where
  "span_default = \<lparr>span_start = position_default, span_end = position_default\<rparr>"

definition cover :: "span \<Rightarrow> span \<Rightarrow> span" where
  "cover a b =
     \<lparr>span_start = (if absolute (span_start a) \<le> absolute (span_start b) then span_start a else span_start b),
      span_end = (if absolute (span_end a) \<ge> absolute (span_end b) then span_end a else span_end b)\<rparr>"

text \<open>\<open>&self[span.start()..span.end()]\<close>\<close>

definition span_text :: "string \<Rightarrow> span \<Rightarrow> string" where
  "span_text s sp =
     take (absolute (span_end sp) - absolute (span_start sp)) (drop (absolute (span_start sp)) s)"

datatype sexpr = Atom string span | SList "sexpr list" span

fun sexpr_span :: "sexpr \<Rightarrow> span" where
  "sexpr_span (Atom s sp) = sp"
| "sexpr_span (SList es sp) = sp"

text \<open>The \<open>Debug\<close> implementation.\<close>

fun join_spaces :: "string list \<Rightarrow> string" where
  "join_spaces [] = []"
| "join_spaces [s] = s"
| "join_spaces (s # ss) = s @ '' '' @ join_spaces ss"

fun show_sexpr :: "sexpr \<Rightarrow> string" where
  "show_sexpr (Atom s sp) = s"
| "show_sexpr (SList es sp) = ''('' @ join_spaces (map show_sexpr es) @ '')''"

datatype metadata = LineCommentData string span | BlockCommentData string span | WhitespaceData string span

section \<open>Bytes\<close>

abbreviation newline :: char where "newline \<equiv> CHR 0x0A"
abbreviation quote :: char where "quote \<equiv> CHR 0x22"

definition is_ascii_whitespace :: "char \<Rightarrow> bool" where
  "is_ascii_whitespace b \<longleftrightarrow>
     b = CHR 0x20 \<or> b = CHR 0x09 \<or> b = CHR 0x0A \<or> b = CHR 0x0C \<or> b = CHR 0x0D"

definition is_start :: "char \<Rightarrow> bool" where
  "is_start b \<longleftrightarrow> b = CHR ''('' \<or> b = CHR '')'' \<or> b = quote \<or> is_ascii_whitespace b"

text \<open>\<open>PositionCountingBytesIterator\<close>; \<open>rest\<close> is what \<open>bytes\<close> has not returned yet.\<close>

record bytes_iter =
  rest :: string
  source_length :: nat
  bi_line :: nat
  bi_line_beginning :: nat

definition bytes_new :: "string \<Rightarrow> bytes_iter" where
  "bytes_new s = \<lparr>rest = s, source_length = length s, bi_line = 0, bi_line_beginning = 0\<rparr>"

definition bytes_pos :: "bytes_iter \<Rightarrow> position" where
  "bytes_pos it = \<lparr>absolute = source_length it - length (rest it), line = bi_line it,
     line_beginning = bi_line_beginning it\<rparr>"

text \<open>\<open>next\<close>, without the byte that it returns.\<close>

definition advance :: "bytes_iter \<Rightarrow> bytes_iter" where
  "advance it =
     (case rest it of
        [] \<Rightarrow> it
      | b # bs \<Rightarrow>
          if b = newline
          then it\<lparr>rest := bs, bi_line := bi_line it + 1, bi_line_beginning := source_length it - length bs\<rparr>
          else it\<lparr>rest := bs\<rparr>)"

lemma advance_rest [simp]: "rest (advance it) = tl (rest it)"
  by (simp add: advance_def split: list.split)

lemma advance_length [simp]: "source_length (advance it) = source_length it"
  by (simp add: advance_def split: list.split)

section \<open>The lexer\<close>

datatype token = Open | Close | StringTok | BlockComment | LineComment | Whitespace

datatype message =
  UnterminatedString | UnterminatedMultilineString | UnterminatedMultilineComment
| UnexpectedClosing | UnclosedOpening | EverythingInAList

function next_while :: "(char \<Rightarrow> bool) \<Rightarrow> bytes_iter \<Rightarrow> bytes_iter" where
  "next_while f it = (if rest it \<noteq> [] \<and> f (hd (rest it)) then next_while f (advance it) else it)"
  by auto
termination by (relation "measure (\<lambda>(f, it). length (rest it))") auto

declare next_while.simps [simp del]

text \<open>\<open>read_until_multiline_string_end\<close> and \<open>read_until_multiline_comment_end\<close>, which differ in the
  byte before the \<open>#\<close>. One byte is left when the end is not found.\<close>

function read_until :: "char \<Rightarrow> bytes_iter \<Rightarrow> bool \<times> bytes_iter" where
  "read_until c it =
     (case rest it of
        b1 # b2 # bs \<Rightarrow>
          if b1 = c \<and> b2 = CHR ''#'' then (True, advance (advance it)) else read_until c (advance it)
      | _ \<Rightarrow> (False, it))"
  by auto
termination by (relation "measure (\<lambda>(c, it). length (rest it))") auto

declare read_until.simps [simp del]

definition next_string :: "bytes_iter \<Rightarrow> token \<times> bytes_iter" where
  "next_string it = (StringTok, next_while (\<lambda>b. \<not> is_start b) it)"

definition next_whitespace :: "bytes_iter \<Rightarrow> token \<times> bytes_iter" where
  "next_whitespace it = (Whitespace, next_while is_ascii_whitespace it)"

lemma next_while_le: "length (rest (next_while f it)) \<le> length (rest it)"
proof (induction f it rule: next_while.induct)
  case (1 f it)
  then show ?case by (subst next_while.simps) (auto dest: le_trans)
qed

lemma read_until_le: "length (rest (snd (read_until c it))) \<le> length (rest it)"
proof (induction c it rule: read_until.induct)
  case (1 c it)
  show ?case
  proof (cases "\<exists>b1 b2 bs. rest it = b1 # b2 # bs")
    case True
    then obtain b1 b2 bs where r: "rest it = b1 # b2 # bs" by blast
    then show ?thesis using 1 [OF r refl] by (subst read_until.simps) auto
  next
    case False
    then show ?thesis by (subst read_until.simps) (auto split: list.split)
  qed
qed

text \<open>The arms of \<open>next_token\<close>: what begins with a quote, \<open>;\<close>, \<open>r\<close> and \<open>#\<close>.\<close>

type_synonym token_res = "message + token"

definition after_quote :: "bytes_iter \<Rightarrow> token_res \<times> bytes_iter" where
  "after_quote it =
     (let it = next_while (\<lambda>b. b \<noteq> quote \<and> b \<noteq> newline) it in
      (if rest it \<noteq> [] \<and> hd (rest it) = quote then Inr StringTok else Inl UnterminatedString,
       advance it))"

definition after_semicolon :: "bytes_iter \<Rightarrow> token_res \<times> bytes_iter" where
  "after_semicolon it =
     (if take 1 (rest it) = '';''
      then (Inr LineComment, advance (next_while (\<lambda>b. b \<noteq> newline) it))
      else apfst Inr (next_string it))"

definition after_r :: "bytes_iter \<Rightarrow> token_res \<times> bytes_iter" where
  "after_r it =
     (if take 2 (rest it) = [CHR ''#'', quote]
      then
        (case read_until quote (advance (advance it)) of
           (found, it) \<Rightarrow> (if found then Inr StringTok else Inl UnterminatedMultilineString, it))
      else apfst Inr (next_string it))"

definition after_hash :: "bytes_iter \<Rightarrow> token_res \<times> bytes_iter" where
  "after_hash it =
     (if take 1 (rest it) = ''|''
      then
        (case read_until (CHR ''|'') (advance it) of
           (found, it) \<Rightarrow> (if found then Inr BlockComment else Inl UnterminatedMultilineComment, it))
      else apfst Inr (next_string it))"

text \<open>The token that begins with the byte \<open>b\<close>, which has been read, or the error.\<close>

definition token_from :: "char \<Rightarrow> bytes_iter \<Rightarrow> token_res \<times> bytes_iter" where
  "token_from b it =
     (if b = CHR ''('' then (Inr Open, it)
      else if b = CHR '')'' then (Inr Close, it)
      else if b = quote then after_quote it
      else if b = CHR '';'' then after_semicolon it
      else if b = CHR ''r'' then after_r it
      else if b = CHR ''#'' then after_hash it
      else if is_ascii_whitespace b then apfst Inr (next_whitespace it)
      else apfst Inr (next_string it))"

lemma next_while_bound: "length (rest it) \<le> n \<Longrightarrow> length (rest (next_while f it)) \<le> n"
  using next_while_le [of f it] by simp

lemma read_until_bound: "length (rest it) \<le> n \<Longrightarrow> length (rest (snd (read_until c it))) \<le> n"
  using read_until_le [of c it] by simp

lemma advance_bound: "length (rest it) \<le> n \<Longrightarrow> length (rest (advance it)) \<le> n"
  by simp

lemma token_from_le: "length (rest (snd (token_from b it))) \<le> length (rest it)"
proof -
  note bounds = next_while_bound read_until_bound advance_bound
  have "length (rest (snd (after_quote it))) \<le> length (rest it)"
    unfolding after_quote_def Let_def snd_conv by (intro bounds order_refl)
  moreover have "length (rest (snd (after_semicolon it))) \<le> length (rest it)"
    unfolding after_semicolon_def next_string_def by (simp del: advance_rest) (intro bounds impI conjI order_refl)
  moreover have "length (rest (snd (after_r it))) \<le> length (rest it)"
    unfolding after_r_def next_string_def case_prod_unfold by (simp del: advance_rest) (intro bounds impI conjI order_refl)
  moreover have "length (rest (snd (after_hash it))) \<le> length (rest it)"
    unfolding after_hash_def next_string_def case_prod_unfold by (simp del: advance_rest) (intro bounds impI conjI order_refl)
  ultimately show ?thesis
    by (simp add: token_from_def next_string_def next_whitespace_def next_while_le)
qed

fun is_metadata :: "message + token \<Rightarrow> bool" where
  "is_metadata (Inr BlockComment) = True"
| "is_metadata (Inr LineComment) = True"
| "is_metadata (Inr Whitespace) = True"
| "is_metadata _ = False"

text \<open>\<open>next_token\<close>: with the flag, comments and whitespace are skipped (\<open>continue\<close>).\<close>

function next_token ::
  "bool \<Rightarrow> bytes_iter \<Rightarrow> (position \<times> (message + token)) option \<times> bytes_iter" where
  "next_token ign it =
     (case rest it of
        [] \<Rightarrow> (None, it)
      | b # _ \<Rightarrow>
          (case token_from b (advance it) of
             (t, it') \<Rightarrow>
               if ign \<and> is_metadata t then next_token ign it' else (Some (bytes_pos it, t), it')))"
  by auto
termination
proof (relation "measure (\<lambda>(ign, it). length (rest it))", goal_cases)
  case (2 ign it b bs t it')
  then have "length (rest it') \<le> length (rest (advance it))"
    using token_from_le [of b "advance it"] by (metis snd_conv)
  then show ?case using 2 by simp
qed simp

declare next_token.simps [simp del]

lemma next_token_less:
  "fst (next_token ign it) \<noteq> None \<Longrightarrow> length (rest (snd (next_token ign it))) < length (rest it)"
proof (induction ign it rule: next_token.induct)
  case (1 ign it)
  show ?case
  proof (cases "rest it")
    case Nil
    then show ?thesis using 1(2) by (simp add: next_token.simps)
  next
    case (Cons b bs)
    obtain t it' where t: "token_from b (advance it) = (t, it')" by force
    then have less: "length (rest it') < length (rest it)"
      using token_from_le [of b "advance it"] Cons by simp
    show ?thesis
    proof (cases "ign \<and> is_metadata t")
      case True
      then have "next_token ign it = next_token ign it'"
        using Cons t by (subst next_token.simps) simp
      then show ?thesis using 1(1) [OF Cons t [symmetric] True] 1(2) less by simp
    next
      case False
      then have "next_token ign it = (Some (bytes_pos it, t), it')"
        using Cons t by (subst next_token.simps) auto
      then show ?thesis using less by simp
    qed
  qed
qed

text \<open>\<open>Lexer::new\<close>: the tokens with their spans. An error does not end the iterator.\<close>

function lexer :: "bool \<Rightarrow> bytes_iter \<Rightarrow> (token_res \<times> span) list" where
  "lexer ign it =
     (case next_token ign it of
        (None, it') \<Rightarrow> []
      | (Some (start, t), it') \<Rightarrow> (t, \<lparr>span_start = start, span_end = bytes_pos it'\<rparr>) # lexer ign it')"
  by auto
termination
proof (relation "measure (\<lambda>(ign, it). length (rest it))", goal_cases)
  case (2 ign it r it' p start t)
  then show ?case using next_token_less [of ign it] by (metis fst_conv in_measure option.distinct(1) prod.case snd_conv)
qed simp

declare lexer.simps [simp del]

section \<open>The parser\<close>

type_synonym parse_error = "message \<times> span"

type_synonym spanned_list = "sexpr list \<times> span"

text \<open>The stack with its top apart. It is never empty: popping the placeholder is an error.\<close>

type_synonym parse_stack = "spanned_list \<times> spanned_list list"

definition push_expr :: "sexpr \<Rightarrow> parse_stack \<Rightarrow> parse_stack" where
  "push_expr e st = (case st of ((es, sp), below) \<Rightarrow> ((es @ [e], sp), below))"

fun parse_token ::
  "string \<Rightarrow> token \<Rightarrow> span \<Rightarrow> parse_stack \<times> metadata list \<Rightarrow> parse_error + parse_stack \<times> metadata list" where
  "parse_token s Open sp ((tos, below), md) = Inr ((([], sp), tos # below), md)"
| "parse_token s Close sp (((es, stack_span), below), md) =
     (case below of
        [] \<Rightarrow> Inl (UnexpectedClosing, sp)
      | next # below' \<Rightarrow> Inr (push_expr (SList es (cover stack_span sp)) (next, below'), md))"
| "parse_token s StringTok sp (st, md) = Inr (push_expr (Atom (span_text s sp) sp) st, md)"
| "parse_token s BlockComment sp (st, md) = Inr (st, md @ [BlockCommentData (span_text s sp) sp])"
| "parse_token s LineComment sp (st, md) = Inr (st, md @ [LineCommentData (span_text s sp) sp])"
| "parse_token s Whitespace sp (st, md) = Inr (st, md @ [WhitespaceData (span_text s sp) sp])"

fun parse_tokens ::
  "string \<Rightarrow> (token_res \<times> span) list \<Rightarrow> parse_stack \<times> metadata list \<Rightarrow> parse_error + parse_stack \<times> metadata list" where
  "parse_tokens s [] st = Inr st"
| "parse_tokens s ((Inl msg, sp) # ts) st = Inl (msg, sp)"
| "parse_tokens s ((Inr t, sp) # ts) st = and_then (parse_token s t sp st) (parse_tokens s ts)"

fun top_levels :: "sexpr list \<Rightarrow> parse_error + spanned_list list" where
  "top_levels [] = Inr []"
| "top_levels (SList es sp # xs) = and_then (top_levels xs) (\<lambda>ys. Inr ((es, sp) # ys))"
| "top_levels (Atom s sp # xs) = Inl (EverythingInAList, sp)"

definition parse_with ::
  "string \<Rightarrow> (token_res \<times> span) list \<Rightarrow> parse_error + spanned_list list \<times> metadata list" where
  "parse_with s tokens =
     and_then (parse_tokens s tokens ((([], span_default), []), [])) (\<lambda>(((es, sp), below), md).
       if below \<noteq> [] then Inl (UnclosedOpening, sp)
       else and_then (top_levels es) (\<lambda>xs. Inr (xs, md)))"

definition strip_utf8_bom :: "string \<Rightarrow> string" where
  "strip_utf8_bom s = (if take 3 s = [CHR 0xEF, CHR 0xBB, CHR 0xBF] then drop 3 s else s)"

text \<open>The span of an unterminated comment is cut down to its beginning.\<close>

definition adjust_error :: "parse_error \<Rightarrow> parse_error" where
  "adjust_error e =
     (case e of
        (UnterminatedMultilineComment, sp) \<Rightarrow>
          (UnterminatedMultilineComment,
           sp\<lparr>span_end := (span_start sp)\<lparr>absolute := absolute (span_start sp) + 2\<rparr>\<rparr>)
      | _ \<Rightarrow> e)"

definition parse_cfg :: "string \<Rightarrow> bool \<Rightarrow> parse_error + spanned_list list \<times> metadata list" where
  "parse_cfg cfg ign =
     (let s = strip_utf8_bom cfg in
      map_sum adjust_error id (parse_with s (lexer ign (bytes_new s))))"

definition parse :: "string \<Rightarrow> parse_error + spanned_list list" where
  "parse cfg = map_sum id fst (parse_cfg cfg True)"

text \<open>Looking through variables (\<open>$name\<close>): \<open>SExpr::atom\<close> and \<open>SExpr::list\<close>. A variable that leads back to
  itself makes the recursion endless; that is the value \<open>None\<close> of the outer option.\<close>

partial_function (option) sexpr_atom :: "(string \<rightharpoonup> sexpr) option \<Rightarrow> sexpr \<Rightarrow> string option option" where
  "sexpr_atom vars e =
     (case e of
        SList es sp \<Rightarrow> Some None
      | Atom s sp \<Rightarrow>
          if take 1 s = ''$'' then
            (case vars of
               None \<Rightarrow> Some (Some s)
             | Some vs \<Rightarrow> (case vs (drop 1 s) of Some v \<Rightarrow> sexpr_atom vars v | None \<Rightarrow> Some (Some s)))
          else Some (Some s))"

partial_function (option) sexpr_list :: "(string \<rightharpoonup> sexpr) option \<Rightarrow> sexpr \<Rightarrow> sexpr list option option" where
  "sexpr_list vars e =
     (case e of
        SList es sp \<Rightarrow> Some (Some es)
      | Atom s sp \<Rightarrow>
          if take 1 s = ''$'' then
            (case vars of
               None \<Rightarrow> Some None
             | Some vs \<Rightarrow> (case vs (drop 1 s) of Some v \<Rightarrow> sexpr_list vars v | None \<Rightarrow> Some None))
          else Some None)"

end
