(* ===== verification/SexprFacts.thy ===== *)
theory SexprFacts
  imports Sexpr
begin

text \<open>
  Properties of the configuration reader: what is printed is read back, spans lie in the file where
  the text is, comments do not matter, and which files are accepted.
\<close>

section \<open>The iterator\<close>

text \<open>The iterator before position \<open>n\<close> of the file.\<close>

definition last_line_start :: "string \<Rightarrow> nat" where
  "last_line_start s = length s - length (takeWhile (\<lambda>b. b \<noteq> newline) (rev s))"

definition iter_at :: "string \<Rightarrow> nat \<Rightarrow> bytes_iter" where
  "iter_at s n =
     \<lparr>rest = drop n s, source_length = length s,
      bi_line = length (filter (\<lambda>b. b = newline) (take n s)), bi_line_beginning = last_line_start (take n s)\<rparr>"

definition pos_at :: "string \<Rightarrow> nat \<Rightarrow> position" where
  "pos_at s n =
     \<lparr>absolute = n, line = length (filter (\<lambda>b. b = newline) (take n s)),
      line_beginning = last_line_start (take n s)\<rparr>"

lemma rest_iter_at [simp]: "rest (iter_at s n) = drop n s"
  by (simp add: iter_at_def)

lemma absolute_pos_at [simp]: "absolute (pos_at s n) = n"
  by (simp add: pos_at_def)

lemma bytes_new_at: "bytes_new s = iter_at s 0"
  by (simp add: bytes_new_def iter_at_def last_line_start_def)

lemma bytes_pos_at: "n \<le> length s \<Longrightarrow> bytes_pos (iter_at s n) = pos_at s n"
  by (simp add: bytes_pos_def iter_at_def pos_at_def)

lemma advance_at:
  assumes "n < length s"
  shows "advance (iter_at s n) = iter_at s (Suc n)"
proof -
  have d: "drop n s = s ! n # drop (Suc n) s" using assms by (simp add: Cons_nth_drop_Suc)
  show ?thesis
    using assms by (simp add: advance_def iter_at_def d take_Suc_conv_app_nth last_line_start_def)
qed

lemma advance_at_end: "length s \<le> n \<Longrightarrow> advance (iter_at s n) = iter_at s n"
  by (simp add: advance_def iter_at_def)

lemma next_while_at:
  "n \<le> length s \<Longrightarrow> next_while f (iter_at s n) = iter_at s (n + length (takeWhile f (drop n s)))"
proof (induction "length s - n" arbitrary: n)
  case 0
  then show ?case by (subst next_while.simps) simp
next
  case (Suc m)
  then have n: "n < length s" by simp
  then have d: "drop n s = s ! n # drop (Suc n) s" by (simp add: Cons_nth_drop_Suc)
  show ?case
  proof (cases "f (s ! n)")
    case True
    have "next_while f (iter_at s n) = next_while f (iter_at s (Suc n))"
      using True n d by (subst next_while.simps) (simp add: advance_at)
    also have "\<dots> = iter_at s (Suc n + length (takeWhile f (drop (Suc n) s)))"
      using Suc n by (intro Suc.hyps(1)) simp_all
    finally show ?thesis using True d by simp
  next
    case False
    then show ?thesis using d by (subst next_while.simps) simp
  qed
qed

text \<open>What an operation may do to the iterator: it goes forward.\<close>

definition forward :: "string \<Rightarrow> nat \<Rightarrow> bytes_iter \<Rightarrow> bool" where
  "forward s n it \<longleftrightarrow> (\<exists>m. n \<le> m \<and> m \<le> length s \<and> it = iter_at s m)"

lemma forward_refl: "n \<le> length s \<Longrightarrow> forward s n (iter_at s n)"
  by (auto simp: forward_def)

lemma forward_advance: "forward s n it \<Longrightarrow> forward s n (advance it)"
proof -
  assume "forward s n it"
  then obtain m where m: "n \<le> m" "m \<le> length s" "it = iter_at s m" by (auto simp: forward_def)
  then show ?thesis
    by (cases "m < length s") (auto simp: advance_at advance_at_end forward_def intro: exI [of _ "Suc m"])
qed

lemma forward_next_while: "forward s n it \<Longrightarrow> forward s n (next_while f it)"
proof -
  assume "forward s n it"
  then obtain m where m: "n \<le> m" "m \<le> length s" "it = iter_at s m" by (auto simp: forward_def)
  moreover have "m + length (takeWhile f (drop m s)) \<le> length s"
    using m(2) length_takeWhile_le [of f "drop m s"] by simp
  ultimately show ?thesis unfolding forward_def
    by (intro exI [of _ "m + length (takeWhile f (drop m s))"]) (simp add: next_while_at)
qed

lemma forward_read_until: "forward s n it \<Longrightarrow> forward s n (snd (read_until c it))"
proof (induction c it rule: read_until.induct)
  case (1 c it)
  show ?case
  proof (cases "\<exists>b1 b2 bs. rest it = b1 # b2 # bs")
    case True
    then obtain b1 b2 bs where r: "rest it = b1 # b2 # bs" by blast
    then show ?thesis using 1(1) [OF r refl] 1(2) forward_advance by (subst read_until.simps) auto
  next
    case False
    then show ?thesis using 1(2) by (subst read_until.simps) (auto split: list.split)
  qed
qed

lemma forward_token: "forward s n it \<Longrightarrow> forward s n (snd (token_from b it))"
  by (simp add: token_from_def after_quote_def after_semicolon_def after_r_def after_hash_def
      next_string_def next_whitespace_def Let_def case_prod_unfold forward_advance forward_next_while
      forward_read_until)

text \<open>A token of the lexer: where it begins and ends.\<close>

lemma next_token_at:
  assumes "next_token ign (iter_at s n) = (Some (start, t), it')" and "n \<le> length s"
  shows "\<exists>k m. n \<le> k \<and> k < m \<and> m \<le> length s \<and> start = pos_at s k \<and> it' = iter_at s m
     \<and> token_from (s ! k) (iter_at s (Suc k)) = (t, it') \<and> (ign \<longrightarrow> \<not> is_metadata t) \<and> (\<not> ign \<longrightarrow> k = n)"
  using assms
proof (induction "length s - n" arbitrary: n rule: less_induct)
  case less
  have n: "n < length s"
    using less.prems by (cases "n = length s") (auto simp: next_token.simps)
  then have d: "drop n s = s ! n # drop (Suc n) s" by (simp add: Cons_nth_drop_Suc)
  obtain t1 it1 where t1: "token_from (s ! n) (iter_at s (Suc n)) = (t1, it1)" by force
  have "forward s (Suc n) (snd (token_from (s ! n) (iter_at s (Suc n))))"
    using n by (intro forward_token forward_refl) simp
  then obtain m where m: "Suc n \<le> m" "m \<le> length s" "it1 = iter_at s m"
    using t1 by (auto simp: forward_def)
  have step: "next_token ign (iter_at s n) =
      (if ign \<and> is_metadata t1 then next_token ign it1 else (Some (pos_at s n, t1), it1))"
    using n d t1 by (subst next_token.simps) (simp add: advance_at bytes_pos_at)
  show ?case
  proof (cases "ign \<and> is_metadata t1")
    case True
    then have "next_token ign (iter_at s m) = (Some (start, t), it')" using step less.prems m by simp
    from less.hyps [OF _ this] m n show ?thesis using True by (meson Suc_leD diff_less_mono2 less_le_trans order_trans lessI)
  next
    case False
    then have "start = pos_at s n \<and> t = t1 \<and> it' = it1" using step less.prems(1) by auto
    then show ?thesis using False m n t1 by (intro exI [of _ n] exI [of _ m]) auto
  qed
qed

lemma next_token_end: "next_token ign (iter_at s (length s)) = (None, iter_at s (length s))"
  by (simp add: next_token.simps)

lemma lexer_step:
  assumes "n < length s" and "token_from (s ! n) (iter_at s (Suc n)) = (t, iter_at s m)" and "m \<le> length s"
    and "ign \<longrightarrow> \<not> is_metadata t"
  shows "lexer ign (iter_at s n) = (t, \<lparr>span_start = pos_at s n, span_end = pos_at s m\<rparr>) # lexer ign (iter_at s m)"
proof -
  have d: "drop n s = s ! n # drop (Suc n) s" using assms(1) by (simp add: Cons_nth_drop_Suc)
  have "next_token ign (iter_at s n) = (Some (pos_at s n, t), iter_at s m)"
    using assms d by (subst next_token.simps) (auto simp: advance_at bytes_pos_at)
  then show ?thesis using assms(3) by (subst lexer.simps) (simp add: bytes_pos_at)
qed

lemma lexer_skip:
  assumes "n < length s" and "token_from (s ! n) (iter_at s (Suc n)) = (t, it)" and "is_metadata t"
  shows "lexer True (iter_at s n) = lexer True it"
proof -
  have d: "drop n s = s ! n # drop (Suc n) s" using assms(1) by (simp add: Cons_nth_drop_Suc)
  have "next_token True (iter_at s n) = next_token True it"
    using assms d by (subst next_token.simps) (auto simp: advance_at)
  then show ?thesis by (simp add: lexer.simps [of True "iter_at s n"] lexer.simps [of True it])
qed

lemma lexer_end: "lexer ign (iter_at s (length s)) = []"
  by (subst lexer.simps) (simp add: next_token_end)

section \<open>Reading what was printed\<close>

text \<open>The atoms: a word (that does not begin a comment), a string, a multiline string.\<close>

definition word_atom :: "string \<Rightarrow> bool" where
  "word_atom a \<longleftrightarrow> a \<noteq> [] \<and> list_all (\<lambda>c. \<not> is_start c) a \<and> take 2 a \<noteq> '';;'' \<and> take 2 a \<noteq> ''#|''"

definition string_atom :: "string \<Rightarrow> bool" where
  "string_atom a \<longleftrightarrow>
     (\<exists>body. a = quote # body @ [quote] \<and> list_all (\<lambda>c. c \<noteq> quote \<and> c \<noteq> newline) body)"

text \<open>The text up to the first \<open>c#\<close>.\<close>

fun ends_first :: "char \<Rightarrow> string \<Rightarrow> bool" where
  "ends_first c (b1 # b2 # bs) = (if b1 = c \<and> b2 = CHR ''#'' then bs = [] else ends_first c (b2 # bs))"
| "ends_first c _ = False"

definition multiline_atom :: "string \<Rightarrow> bool" where
  "multiline_atom a \<longleftrightarrow> (\<exists>body. a = [CHR ''r'', CHR ''#'', quote] @ body \<and> ends_first quote body)"

definition atom_ok :: "string \<Rightarrow> bool" where
  "atom_ok a \<longleftrightarrow> word_atom a \<or> string_atom a \<or> multiline_atom a"

lemma read_until_at:
  "ends_first c body \<Longrightarrow> drop n s = body @ r \<Longrightarrow>
   read_until c (iter_at s n) = (True, iter_at s (n + length body))"
proof (induction c body arbitrary: n rule: ends_first.induct)
  case (1 c b1 b2 bs)
  have len: "Suc (Suc n) \<le> length s" using arg_cong [OF 1(3), of length] by simp
  have d: "drop (Suc n) s = b2 # bs @ r" using 1(3) by (metis append_Cons drop_Suc list.sel(3) tl_drop)
  show ?case
  proof (cases "b1 = c \<and> b2 = CHR ''#''")
    case True
    then show ?thesis using 1(2,3) len by (subst read_until.simps) (simp add: advance_at)
  next
    case False
    then have "read_until c (iter_at s (Suc n)) = (True, iter_at s (Suc n + length (b2 # bs)))"
      using 1(2) d by (intro 1(1)) auto
    then show ?thesis using False 1(3) len by (subst read_until.simps) (auto simp: advance_at)
  qed
qed simp_all

text \<open>What may follow an atom: nothing, a blank or a closing parenthesis.\<close>

definition delimiter :: "string \<Rightarrow> bool" where
  "delimiter r \<longleftrightarrow> r = [] \<or> hd r = CHR '' '' \<or> hd r = CHR '')''"

lemma delimiter_start: "delimiter r \<Longrightarrow> takeWhile (\<lambda>b. \<not> is_start b) r = []"
  by (cases r) (auto simp: delimiter_def is_start_def is_ascii_whitespace_def)

lemma drop_Suc_eq: "drop n s = b # bs \<Longrightarrow> n < length s \<and> s ! n = b \<and> drop (Suc n) s = bs"
  by (metis Cons_nth_drop_Suc drop_all linorder_not_le list.inject list.simps(3))

lemma next_string_at:
  assumes "drop n s = w @ r" and "list_all (\<lambda>c. \<not> is_start c) w" and "delimiter r" and "n \<le> length s"
  shows "next_string (iter_at s n) = (StringTok, iter_at s (n + length w))"
proof -
  have "takeWhile (\<lambda>b. \<not> is_start b) (w @ r) = w"
    using assms(2,3) by (simp add: takeWhile_append list_all_iff delimiter_start)
  then show ?thesis using assms by (simp add: next_string_def next_while_at)
qed

lemma word_token:
  assumes "word_atom a" and "drop n s = a @ r" and "delimiter r"
  shows "token_from (s ! n) (iter_at s (Suc n)) = (Inr StringTok, iter_at s (n + length a))"
proof -
  obtain b w where a: "a = b # w" using assms(1) by (cases a) (auto simp: word_atom_def)
  have d: "n < length s" "s ! n = b" "drop (Suc n) s = w @ r"
    using drop_Suc_eq [of n s b "w @ r"] assms(2) a by simp_all
  have b: "\<not> is_start b" "list_all (\<lambda>c. \<not> is_start c) w"
    using assms(1) by (simp_all add: a word_atom_def)
  have str: "next_string (iter_at s (Suc n)) = (StringTok, iter_at s (n + length a))"
    using next_string_at [OF d(3) b(2) assms(3)] d(1) a by simp
  have r: "take 1 (w @ r) \<noteq> [c]" if "c \<noteq> CHR '' ''" "c \<noteq> CHR '')''" "take 2 a \<noteq> [b, c]" for c
    using that assms(3) a by (cases w; cases r) (auto simp: delimiter_def)
  have "b \<noteq> CHR '';'' \<or> take 1 (w @ r) \<noteq> '';''" "b \<noteq> CHR ''#'' \<or> take 1 (w @ r) \<noteq> ''|''"
    using r [of "CHR '';''"] r [of "CHR ''|''"] assms(1) a by (auto simp: word_atom_def)
  moreover have "take 2 (w @ r) \<noteq> [CHR ''#'', quote]"
    using b(2) assms(3) by (cases w; cases "tl w"; cases r; auto simp: delimiter_def is_start_def)
  ultimately show ?thesis
    using b(1) d str
    by (auto simp: token_from_def is_start_def after_semicolon_def after_r_def after_hash_def)
qed

lemma string_token:
  assumes "string_atom a" and "drop n s = a @ r"
  shows "token_from (s ! n) (iter_at s (Suc n)) = (Inr StringTok, iter_at s (n + length a))"
proof -
  obtain body where a: "a = quote # body @ [quote]"
    and body: "list_all (\<lambda>c. c \<noteq> quote \<and> c \<noteq> newline) body"
    using assms(1) by (auto simp: string_atom_def)
  have d: "n < length s" "s ! n = quote" "drop (Suc n) s = body @ quote # r"
    using drop_Suc_eq [of n s quote "body @ quote # r"] assms(2) a by simp_all
  have len: "Suc n + length body < length s" using arg_cong [OF d(3), of length] by simp
  have "takeWhile (\<lambda>b. b \<noteq> quote \<and> b \<noteq> newline) (body @ quote # r) = body"
    using body by (simp add: takeWhile_append list_all_iff)
  then have w: "next_while (\<lambda>b. b \<noteq> quote \<and> b \<noteq> newline) (iter_at s (Suc n)) = iter_at s (Suc n + length body)"
    using d by (simp add: next_while_at)
  have "drop (Suc n + length body) s = quote # r"
    using d(3) by (metis append_eq_conv_conj drop_drop add.commute)
  then show ?thesis using d w len a
    by (simp add: token_from_def after_quote_def advance_at Let_def)
qed

lemma multiline_token:
  assumes "multiline_atom a" and "drop n s = a @ r"
  shows "token_from (s ! n) (iter_at s (Suc n)) = (Inr StringTok, iter_at s (n + length a))"
proof -
  obtain body where a: "a = [CHR ''r'', CHR ''#'', quote] @ body" and body: "ends_first quote body"
    using assms(1) by (auto simp: multiline_atom_def)
  have d: "n < length s" "s ! n = CHR ''r''" "drop (Suc n) s = CHR ''#'' # quote # body @ r"
    using drop_Suc_eq [of n s "CHR ''r''" "CHR ''#'' # quote # body @ r"] assms(2) a by simp_all
  have len: "Suc (Suc (Suc n)) \<le> length s" using arg_cong [OF d(3), of length] d(1) by simp
  have "drop (Suc (Suc (Suc n))) s = body @ r" using d(3) by (metis drop_Suc list.sel(3) tl_drop)
  from read_until_at [OF body this] show ?thesis
    using d len a by (simp add: token_from_def after_r_def advance_at numeral_2_eq_2)
qed

lemma atom_token:
  assumes "atom_ok a" and "drop n s = a @ r" and "delimiter r"
  shows "lexer True (iter_at s n) =
    (Inr StringTok, \<lparr>span_start = pos_at s n, span_end = pos_at s (n + length a)\<rparr>) # lexer True (iter_at s (n + length a))"
proof -
  have "a \<noteq> []" using assms(1) by (auto simp: atom_ok_def word_atom_def string_atom_def multiline_atom_def)
  then have "n < length s" "n + length a \<le> length s"
    using arg_cong [OF assms(2), of length] by (auto simp: less_diff_conv neq_Nil_conv)
  moreover have "token_from (s ! n) (iter_at s (Suc n)) = (Inr StringTok, iter_at s (n + length a))"
    using assms word_token string_token multiline_token unfolding atom_ok_def by blast
  ultimately show ?thesis by (intro lexer_step) simp_all
qed

lemma paren_token:
  assumes "drop n s = b # r" and "b = CHR ''('' \<and> t = Open \<or> b = CHR '')'' \<and> t = Close"
  shows "lexer ign (iter_at s n) =
    (Inr t, \<lparr>span_start = pos_at s n, span_end = pos_at s (Suc n)\<rparr>) # lexer ign (iter_at s (Suc n))"
  using drop_Suc_eq [OF assms(1)] assms(2) by (intro lexer_step) (auto simp: token_from_def)

text \<open>What begins neither with whitespace nor with a delimiter after one blank.\<close>

lemma blank_token:
  assumes "drop n s = CHR '' '' # r" and "r = [] \<or> \<not> is_ascii_whitespace (hd r)"
  shows "lexer True (iter_at s n) = lexer True (iter_at s (Suc n))"
proof -
  have d: "n < length s" "s ! n = CHR '' ''" "drop (Suc n) s = r" using drop_Suc_eq [OF assms(1)] by simp_all
  have "takeWhile is_ascii_whitespace r = []" using assms(2) by (cases r) auto
  then have "token_from (s ! n) (iter_at s (Suc n)) = (Inr Whitespace, iter_at s (Suc n))"
    using d by (simp add: token_from_def next_whitespace_def next_while_at is_ascii_whitespace_def)
  then show ?thesis using d(1) by (intro lexer_skip) auto
qed

text \<open>The expressions that can be printed, and what is left of one without its spans.\<close>

fun sexpr_ok :: "sexpr \<Rightarrow> bool" where
  "sexpr_ok (Atom a sp) = atom_ok a"
| "sexpr_ok (SList es sp) = list_all sexpr_ok es"

fun strip_spans :: "sexpr \<Rightarrow> sexpr" where
  "strip_spans (Atom a sp) = Atom a span_default"
| "strip_spans (SList es sp) = SList (map strip_spans es) span_default"

lemma show_sexpr_start:
  "sexpr_ok e \<Longrightarrow> show_sexpr e \<noteq> [] \<and> \<not> is_ascii_whitespace (hd (show_sexpr e))"
proof (cases e)
  case (Atom a sp)
  assume "sexpr_ok e"
  then consider "word_atom a" | "string_atom a" | "multiline_atom a" using Atom by (auto simp: atom_ok_def)
  then show ?thesis
  proof cases
    case 1
    then show ?thesis using Atom by (cases a) (simp_all add: word_atom_def is_start_def)
  qed (use Atom in \<open>auto simp: string_atom_def multiline_atom_def is_ascii_whitespace_def\<close>)
qed (simp add: is_ascii_whitespace_def)

definition push_exprs :: "sexpr list \<Rightarrow> parse_stack \<Rightarrow> parse_stack" where
  "push_exprs es st = fold push_expr es st"

lemma push_exprs_eq: "push_exprs es ((xs, sp), below) = ((xs @ es, sp), below)"
  by (induction es arbitrary: xs) (simp_all add: push_exprs_def push_expr_def)

text \<open>Reading a printed text has the effect of pushing the expressions.\<close>

definition reads :: "string \<Rightarrow> nat \<Rightarrow> nat \<Rightarrow> sexpr list \<Rightarrow> bool" where
  "reads s n m es \<longleftrightarrow>
     (\<exists>es'. map strip_spans es' = map strip_spans es \<and>
       (\<forall>st md. parse_tokens s (lexer True (iter_at s n)) (st, md)
          = parse_tokens s (lexer True (iter_at s m)) (push_exprs es' st, md)))"

lemma reads_append:
  assumes "reads s n m es1" and "reads s m k es2"
  shows "reads s n k (es1 @ es2)"
proof -
  obtain xs ys where "map strip_spans xs = map strip_spans es1" "map strip_spans ys = map strip_spans es2"
    "\<forall>st md. parse_tokens s (lexer True (iter_at s n)) (st, md)
        = parse_tokens s (lexer True (iter_at s m)) (push_exprs xs st, md)"
    "\<forall>st md. parse_tokens s (lexer True (iter_at s m)) (st, md)
        = parse_tokens s (lexer True (iter_at s k)) (push_exprs ys st, md)"
    using assms unfolding reads_def by blast
  then show ?thesis
    unfolding reads_def by (intro exI [of _ "xs @ ys"]) (simp add: push_exprs_def)
qed

lemma reads_atom:
  assumes "atom_ok a" and "drop n s = a @ r" and "delimiter r"
  shows "reads s n (n + length a) [Atom a sp]"
proof -
  let ?sp = "\<lparr>span_start = pos_at s n, span_end = pos_at s (n + length a)\<rparr>"
  have "span_text s ?sp = a" using assms(2) by (simp add: span_text_def)
  then show ?thesis
    unfolding reads_def atom_token [OF assms]
    by (intro exI [of _ "[Atom a ?sp]"]) (simp add: and_then_def push_exprs_def)
qed

lemma drop_append: "drop n s = a @ r \<Longrightarrow> drop (n + length a) s = r"
  by (metis add.commute append_eq_conv_conj drop_drop)

lemma reads_list:
  assumes "drop n s = CHR ''('' # b @ CHR '')'' # r" and "reads s (Suc n) (Suc n + length b) es"
  shows "reads s n (n + length b + 2) [SList es sp]"
proof -
  have b: "drop (Suc n) s = b @ CHR '')'' # r" using drop_Suc_eq [OF assms(1)] by blast
  then have c: "drop (Suc n + length b) s = CHR '')'' # r" by (rule drop_append)
  obtain es' where es': "map strip_spans es' = map strip_spans es"
    "\<And>st md. parse_tokens s (lexer True (iter_at s (Suc n))) (st, md)
        = parse_tokens s (lexer True (iter_at s (Suc n + length b))) (push_exprs es' st, md)"
    using assms(2) unfolding reads_def by blast
  let ?open = "\<lparr>span_start = pos_at s n, span_end = pos_at s (Suc n)\<rparr>"
  let ?close = "\<lparr>span_start = pos_at s (Suc n + length b), span_end = pos_at s (Suc (Suc n + length b))\<rparr>"
  let ?e = "SList es' (cover ?open ?close)"
  have "parse_tokens s (lexer True (iter_at s n)) (st, md)
      = parse_tokens s (lexer True (iter_at s (n + length b + 2))) (push_exprs [?e] st, md)" for st md
  proof -
    obtain es0 sp0 below where st: "st = ((es0, sp0), below)" by (metis prod.collapse)
    have "parse_tokens s (lexer True (iter_at s n)) (st, md)
        = parse_tokens s (lexer True (iter_at s (Suc n))) ((([], ?open), (es0, sp0) # below), md)"
      by (simp add: paren_token [OF assms(1), of Open] and_then_def st)
    also have "\<dots> = parse_tokens s (lexer True (iter_at s (Suc n + length b))) (((es', ?open), (es0, sp0) # below), md)"
      unfolding es'(2) push_exprs_eq by simp
    also have "\<dots> = parse_tokens s (lexer True (iter_at s (Suc (Suc n + length b)))) (push_exprs [?e] st, md)"
      using paren_token [OF c, of Close True] by (simp add: and_then_def st push_exprs_def)
    finally show ?thesis by simp
  qed
  then show ?thesis using es'(1) unfolding reads_def by (intro exI [of _ "[?e]"]) simp
qed

lemma reads_empty: "reads s n n []"
  unfolding reads_def by (intro exI [of _ "[]"]) (simp add: push_exprs_def)

lemma reads_blank:
  assumes "drop n s = CHR '' '' # r" and "r = [] \<or> \<not> is_ascii_whitespace (hd r)"
  shows "reads s n (Suc n) []"
  using blank_token [OF assms] unfolding reads_def by (intro exI [of _ "[]"]) (simp add: push_exprs_def)

lemma join_spaces_start:
  "list_all sexpr_ok (e # es) \<Longrightarrow> \<not> is_ascii_whitespace (hd (join_spaces (map show_sexpr (e # es)) @ r))"
  using show_sexpr_start [of e] by (cases es) auto

lemma reads_joined:
  assumes "\<And>e n r. e \<in> set es \<Longrightarrow> drop n s = show_sexpr e @ r \<Longrightarrow> delimiter r \<Longrightarrow>
      reads s n (n + length (show_sexpr e)) [e]"
    and "list_all sexpr_ok es" and "drop n s = join_spaces (map show_sexpr es) @ r" and "delimiter r"
  shows "reads s n (n + length (join_spaces (map show_sexpr es))) es"
  using assms
proof (induction es arbitrary: n)
  case Nil
  then show ?case by (simp add: reads_empty)
next
  case (Cons e es)
  show ?case
  proof (cases es)
    case Nil
    then show ?thesis using Cons.prems(1) [of e n r] Cons.prems(3,4) by simp
  next
    case (Cons e2 es2)
    let ?j = "join_spaces (map show_sexpr es)"
    have split: "join_spaces (map show_sexpr (e # es)) = show_sexpr e @ '' '' @ ?j"
      using Cons by simp
    have d: "drop n s = show_sexpr e @ CHR '' '' # ?j @ r" using Cons.prems(3) split by simp
    let ?k = "n + length (show_sexpr e)"
    have k: "drop ?k s = CHR '' '' # ?j @ r" using drop_append [OF d] .
    have 1: "reads s n ?k [e]" using Cons.prems(1) [OF _ d] by (simp add: delimiter_def)
    have 2: "reads s ?k (Suc ?k) []"
      using reads_blank [OF k] join_spaces_start [of e2 es2 r] Cons.prems(2) Cons by simp
    have 3: "reads s (Suc ?k) (Suc ?k + length ?j) es"
      using drop_Suc_eq [OF k] Cons.prems by (intro Cons.IH) auto
    from reads_append [OF reads_append [OF 1 2] 3] show ?thesis unfolding split by (simp add: add.assoc)
  qed
qed

lemma reads_sexpr:
  "sexpr_ok e \<Longrightarrow> drop n s = show_sexpr e @ r \<Longrightarrow> delimiter r \<Longrightarrow> reads s n (n + length (show_sexpr e)) [e]"
proof (induction e arbitrary: n r)
  case (Atom a sp)
  then show ?case by (simp add: reads_atom)
next
  case (SList es sp)
  let ?j = "join_spaces (map show_sexpr es)"
  have d: "drop n s = CHR ''('' # ?j @ CHR '')'' # r" using SList.prems(2) by simp
  have "reads s (Suc n) (Suc n + length ?j) es"
  proof (rule reads_joined)
    show "drop (Suc n) s = ?j @ CHR '')'' # r" using drop_Suc_eq [OF d] by blast
    show "list_all sexpr_ok es" using SList.prems(1) by simp
    show "delimiter (CHR '')'' # r)" by (simp add: delimiter_def)
    fix e n r
    assume "e \<in> set es" "drop n s = show_sexpr e @ r" "delimiter r"
    then show "reads s n (n + length (show_sexpr e)) [e]"
      using SList.IH SList.prems(1) by (simp add: list_all_iff)
  qed
  from reads_list [OF d this] show ?case by simp
qed

fun is_list :: "sexpr \<Rightarrow> bool" where
  "is_list (SList es sp) = True"
| "is_list (Atom a sp) = False"

lemma top_levels_lists:
  "list_all is_list es \<Longrightarrow> \<exists>xs. top_levels es = Inr xs \<and> map (\<lambda>(ys, sp). SList ys sp) xs = es"
proof (induction es)
  case (Cons e es)
  then show ?case by (cases e) (auto simp: and_then_def)
qed simp

text \<open>C34: What the printer of expressions writes, the parser reads: parsing printed lists gives the same
  lists, apart from the spans, if their atoms are words, strings or multiline strings.\<close>

theorem show_parse_roundtrip:
  assumes "list_all sexpr_ok es" and "list_all is_list es"
  shows "\<exists>xs. parse (join_spaces (map show_sexpr es)) = Inr xs
     \<and> map (\<lambda>(ys, sp). strip_spans (SList ys sp)) xs = map strip_spans es"
proof -
  let ?s = "join_spaces (map show_sexpr es)"
  have "reads ?s 0 (0 + length ?s) es"
    using assms(1) reads_sexpr by (intro reads_joined [where r = "[]"]) (auto simp: list_all_iff delimiter_def)
  then obtain es' where es': "map strip_spans es' = map strip_spans es"
    "parse_tokens ?s (lexer True (bytes_new ?s)) ((([], span_default), []), [])
      = Inr (((es', span_default), []), [])"
    by (auto simp: reads_def lexer_end bytes_new_at push_exprs_eq)
  have "list_all is_list es'"
  proof -
    have l: "is_list (strip_spans e) = is_list e" for e by (cases e) simp_all
    have "list_all is_list (map strip_spans es')" unfolding es'(1) using assms(2) by (simp add: list.pred_map l comp_def)
    then show ?thesis by (simp add: list.pred_map l comp_def)
  qed
  then obtain xs where xs: "top_levels es' = Inr xs" "map (\<lambda>(ys, sp). SList ys sp) xs = es'"
    using top_levels_lists by blast
  have bom: "strip_utf8_bom ?s = ?s"
  proof (cases es)
    case (Cons e es1)
    then obtain ys sp where "e = SList ys sp" using assms(2) by (cases e) auto
    then show ?thesis using Cons by (cases es1) (simp_all add: strip_utf8_bom_def)
  qed (simp add: strip_utf8_bom_def)
  have "parse ?s = Inr xs"
    by (simp add: parse_def parse_cfg_def bom parse_with_def es'(2) and_then_def xs(1) Let_def)
  moreover have "map (\<lambda>(ys, sp). strip_spans (SList ys sp)) xs = map strip_spans es'"
    unfolding xs(2) [symmetric] by (simp add: case_prod_unfold)
  ultimately show ?thesis using es'(1) by metis
qed

theorem show_parse_roundtrip_witness:
  "\<exists>xs. parse (join_spaces (map show_sexpr
      [SList [Atom ''defsrc'' span_default, SList [] span_default, Atom ''a'' span_default] span_default])) = Inr xs
     \<and> map (\<lambda>(ys, sp). strip_spans (SList ys sp)) xs = map strip_spans
      [SList [Atom ''defsrc'' span_default, SList [] span_default, Atom ''a'' span_default] span_default]"
  by (rule show_parse_roundtrip)
    (simp_all add: atom_ok_def word_atom_def is_start_def is_ascii_whitespace_def)

section \<open>Comments and whitespace\<close>

lemma lexer_Cons:
  assumes "n < length s"
  shows "\<exists>t m. n < m \<and> m \<le> length s \<and> token_from (s ! n) (iter_at s (Suc n)) = (t, iter_at s m)
    \<and> lexer False (iter_at s n) = (t, \<lparr>span_start = pos_at s n, span_end = pos_at s m\<rparr>) # lexer False (iter_at s m)
    \<and> lexer True (iter_at s n) =
        (if is_metadata t then lexer True (iter_at s m)
         else (t, \<lparr>span_start = pos_at s n, span_end = pos_at s m\<rparr>) # lexer True (iter_at s m))"
proof -
  obtain t it where t: "token_from (s ! n) (iter_at s (Suc n)) = (t, it)" by force
  have "forward s (Suc n) (snd (token_from (s ! n) (iter_at s (Suc n))))"
    using assms by (intro forward_token forward_refl) simp
  then obtain m where m: "Suc n \<le> m" "m \<le> length s" "it = iter_at s m" using t by (auto simp: forward_def)
  then have t': "token_from (s ! n) (iter_at s (Suc n)) = (t, iter_at s m)" using t by simp
  show ?thesis
    using lexer_step [OF assms t' m(2)] lexer_skip [OF assms t'] m t'
    by (intro exI [of _ t] exI [of _ m]) auto
qed

lemma lexer_induct [consumes 1, case_names End Token]:
  assumes "n \<le> length s" and "P (length s)"
    and "\<And>n m t. n < m \<Longrightarrow> m \<le> length s \<Longrightarrow> token_from (s ! n) (iter_at s (Suc n)) = (t, iter_at s m) \<Longrightarrow>
      lexer False (iter_at s n) = (t, \<lparr>span_start = pos_at s n, span_end = pos_at s m\<rparr>) # lexer False (iter_at s m) \<Longrightarrow>
      lexer True (iter_at s n) =
        (if is_metadata t then lexer True (iter_at s m)
         else (t, \<lparr>span_start = pos_at s n, span_end = pos_at s m\<rparr>) # lexer True (iter_at s m)) \<Longrightarrow>
      P m \<Longrightarrow> P n"
  shows "P n"
  using assms(1)
proof (induction "length s - n" arbitrary: n rule: less_induct)
  case less
  show ?case
  proof (cases "n = length s")
    case False
    then have "n < length s" using less.prems by simp
    from lexer_Cons [OF this] show ?thesis
      using less.hyps assms(3) by (metis diff_less_mono2 less_le_trans)
  qed (simp add: assms(2))
qed

lemma lexer_filter:
  "n \<le> length s \<Longrightarrow>
   lexer True (iter_at s n) = filter (\<lambda>p. \<not> is_metadata (fst p)) (lexer False (iter_at s n))"
  by (induction n rule: lexer_induct) (simp_all add: lexer_end)

lemma parse_tokens_filter:
  "map_sum id fst (parse_tokens s (filter (\<lambda>p. \<not> is_metadata (fst p)) ts) (st, md))
    = map_sum id fst (parse_tokens s ts (st, md'))"
proof (induction ts arbitrary: st md md')
  case (Cons x ts)
  obtain t sp where x: "x = (t, sp)" by force
  obtain es sp0 below where st: "st = ((es, sp0), below)" by (metis prod.collapse)
  show ?case
  proof (cases t)
    case (Inr t)
    then show ?thesis using Cons.IH x st by (cases t) (auto simp: and_then_def split: list.split)
  qed (simp add: x)
qed simp

lemma parse_with_filter:
  "map_sum id fst (parse_with s (filter (\<lambda>p. \<not> is_metadata (fst p)) ts)) = map_sum id fst (parse_with s ts)"
proof -
  note parse_tokens_filter [of s ts "(([], span_default), [])" "[]" "[]"]
  then show ?thesis
    by (cases "parse_tokens s ts ((([], span_default), []), [])";
        cases "parse_tokens s (filter (\<lambda>p. \<not> is_metadata (fst p)) ts) ((([], span_default), []), [])")
      (auto simp: parse_with_def and_then_def split: sum.split)
qed

text \<open>Whether comments and whitespace are skipped or collected makes no difference to the
  expressions, their spans and the errors; and no byte of the file is lost: the texts of all
  tokens, one after the other, are the file.\<close>

theorem comments_ignored_and_kept:
  "map_sum id fst (parse_cfg cfg True) = map_sum id fst (parse_cfg cfg False)
   \<and> concat (map (\<lambda>(t, sp). span_text s sp) (lexer False (bytes_new s))) = s"
proof
  show "map_sum id fst (parse_cfg cfg True) = map_sum id fst (parse_cfg cfg False)"
  proof -
    let ?s = "strip_utf8_bom cfg"
    have "map_sum id fst (parse_with ?s (lexer True (bytes_new ?s)))
        = map_sum id fst (parse_with ?s (lexer False (bytes_new ?s)))"
      unfolding bytes_new_at by (simp add: lexer_filter parse_with_filter)
    then show ?thesis
      by (cases "parse_with ?s (lexer True (bytes_new ?s))"; cases "parse_with ?s (lexer False (bytes_new ?s))")
        (simp_all add: parse_cfg_def Let_def)
  qed
  have "concat (map (\<lambda>(t, sp). span_text s sp) (lexer False (iter_at s n))) = drop n s" if "n \<le> length s" for n
    using that
  proof (induction n rule: lexer_induct)
    case (Token n m t)
    then have "take (m - n) (drop n s) @ drop m s = drop n s"
      by (metis append_take_drop_id drop_drop le_add_diff_inverse2 less_imp_le)
    then show ?case using Token by (simp add: span_text_def)
  qed (simp add: lexer_end)
  then show "concat (map (\<lambda>(t, sp). span_text s sp) (lexer False (bytes_new s))) = s"
    by (simp add: bytes_new_at)
qed

section \<open>Which files are accepted\<close>

text \<open>The parentheses are balanced, and there are only lists at the outermost level.\<close>

fun balanced :: "nat \<Rightarrow> token list \<Rightarrow> bool" where
  "balanced d [] = (d = 0)"
| "balanced d (Open # ts) = balanced (Suc d) ts"
| "balanced d (Close # ts) = (0 < d \<and> balanced (d - 1) ts)"
| "balanced d (StringTok # ts) = (0 < d \<and> balanced d ts)"
| "balanced d (t # ts) = balanced d ts"

fun result_tokens :: "(token_res \<times> span) list \<Rightarrow> token list option" where
  "result_tokens [] = Some []"
| "result_tokens ((Inl e, sp) # ts) = None"
| "result_tokens ((Inr t, sp) # ts) = map_option ((#) t) (result_tokens ts)"

text \<open>The placeholder at the bottom of the stack.\<close>

definition outermost :: "parse_stack \<Rightarrow> sexpr list" where
  "outermost st = fst (last (fst st # snd st))"

lemma top_levels_ok: "(\<exists>xs. top_levels es = Inr xs) \<longleftrightarrow> list_all is_list es"
proof (induction es rule: top_levels.induct)
  case (2 es sp xs)
  then show ?case by (cases "top_levels xs") (auto simp: and_then_def)
qed simp_all

definition accepts :: "parse_error + parse_stack \<times> metadata list \<Rightarrow> bool" where
  "accepts r \<longleftrightarrow> (\<exists>st md. r = Inr (st, md) \<and> snd st = [] \<and> list_all is_list (outermost st))"

lemma accepts_Inl [simp]: "\<not> accepts (Inl e)"
  by (simp add: accepts_def)

lemma outermost_push:
  "outermost (push_expr e st) = (if snd st = [] then outermost st @ [e] else outermost st)"
  by (cases st) (auto simp: outermost_def push_expr_def case_prod_unfold)

lemma outermost_atom_rejected:
  "\<not> list_all is_list (outermost st) \<Longrightarrow> \<not> accepts (parse_tokens s ts (st, md))"
proof (induction ts arbitrary: st md)
  case (Cons x ts)
  obtain es sp0 below where st: "st = ((es, sp0), below)" by (metis prod.collapse)
  show ?case
  proof (cases x)
    case (Pair t sp)
    show ?thesis
    proof (cases t)
      case (Inr t)
      have "\<not> list_all is_list (outermost st')" if "parse_token s t sp (st, md) = Inr (st', md')" for st' md'
        using that Cons.prems st
        by (cases t) (auto simp: push_expr_def outermost_def split: list.splits if_splits)
      note rejected = this
      show ?thesis
      proof (cases "parse_token s t sp (st, md)")
        case tok: (Inr r)
        obtain st' md' where r: "r = (st', md')" by (rule prod.exhaust)
        have "\<not> accepts (parse_tokens s ts (st', md'))" using rejected tok r by (intro Cons.IH) simp
        then show ?thesis using Pair Inr tok r by (simp add: and_then_def)
      qed (simp add: Pair Inr and_then_def)
    qed (simp add: Pair accepts_def)
  qed
qed (simp add: accepts_def)

lemma parse_tokens_accepts:
  "list_all is_list (outermost st) \<Longrightarrow>
   accepts (parse_tokens s ts (st, md)) \<longleftrightarrow>
     (\<exists>toks. result_tokens ts = Some toks \<and> balanced (length (snd st)) toks)"
proof (induction ts arbitrary: st md)
  case Nil
  then show ?case by (auto simp: accepts_def)
next
  case (Cons x ts)
  obtain es sp0 below where st: "st = ((es, sp0), below)" by (metis prod.collapse)
  obtain t sp where x: "x = (t, sp)" by force
  show ?case
  proof (cases t)
    case (Inl e)
    then show ?thesis by (simp add: x accepts_def)
  next
    case (Inr t)
    show ?thesis
    proof (cases "t = StringTok \<and> below = []")
      case True
      let ?st' = "push_expr (Atom (span_text s sp) sp) st"
      have "\<not> list_all is_list (outermost ?st')" using True st by (simp add: outermost_push)
      then have "\<not> accepts (parse_tokens s ts (?st', md))" by (rule outermost_atom_rejected)
      then show ?thesis using True st x Inr by (auto simp: and_then_def)
    next
      case False
      then show ?thesis
        using Cons.IH Cons.prems st x Inr
        by (cases t)
          (auto simp: and_then_def outermost_def push_expr_def split: list.splits if_splits)
    qed
  qed
qed

text \<open>C35: A file is accepted exactly when all its tokens are well-formed, its parentheses are balanced
  and it consists of lists.\<close>

theorem parse_accepts:
  "(\<exists>xs. parse cfg = Inr xs) \<longleftrightarrow>
     (\<exists>toks. result_tokens (lexer True (bytes_new (strip_utf8_bom cfg))) = Some toks \<and> balanced 0 toks)"
proof -
  let ?s = "strip_utf8_bom cfg"
  let ?r = "parse_tokens ?s (lexer True (bytes_new ?s)) ((([], span_default), []), [])"
  have "(\<exists>xs. parse cfg = Inr xs) \<longleftrightarrow> (\<exists>x. parse_with ?s (lexer True (bytes_new ?s)) = Inr x)"
    by (cases "parse_with ?s (lexer True (bytes_new ?s))") (simp_all add: parse_def parse_cfg_def Let_def)
  also have "\<dots> \<longleftrightarrow> accepts ?r"
  proof (cases ?r)
    case (Inr r)
    obtain es sp below md where "r = (((es, sp), below), md)" by (metis prod.collapse)
    then show ?thesis using Inr top_levels_ok [of es]
      by (cases "top_levels es") (auto simp: parse_with_def and_then_def accepts_def outermost_def)
  qed (simp add: parse_with_def and_then_def accepts_def)
  also have "\<dots> \<longleftrightarrow> (\<exists>toks. result_tokens (lexer True (bytes_new ?s)) = Some toks \<and> balanced 0 toks)"
    using parse_tokens_accepts [of "(([], span_default), [])" ?s "lexer True (bytes_new ?s)" "[]"]
    by (simp add: outermost_def)
  finally show ?thesis .
qed

section \<open>Spans\<close>

definition span_at :: "string \<Rightarrow> nat \<Rightarrow> nat \<Rightarrow> span" where
  "span_at s n m = \<lparr>span_start = pos_at s n, span_end = pos_at s m\<rparr>"

text \<open>Where an expression is in the file: the text of an atom is what its span covers, a list
  is from its opening to its closing parenthesis with its elements in between.\<close>

inductive located :: "string \<Rightarrow> nat \<Rightarrow> nat \<Rightarrow> sexpr \<Rightarrow> bool" for s where
  located_atom: "n < m \<Longrightarrow> m \<le> length s \<Longrightarrow> span_text s (span_at s n m) = a \<Longrightarrow>
    located s n m (Atom a (span_at s n m))"
| located_list: "n < m \<Longrightarrow> m < length s \<Longrightarrow> s ! n = CHR ''('' \<Longrightarrow> s ! m = CHR '')'' \<Longrightarrow>
    \<forall>e \<in> set es. \<exists>i j. n < i \<and> j \<le> m \<and> located s i j e \<Longrightarrow>
    located s n (Suc m) (SList es (span_at s n (Suc m)))"

text \<open>The lists on the stack have begun, one inside the other; their elements are where they belong.\<close>

fun stack_ok :: "string \<Rightarrow> nat \<Rightarrow> spanned_list list \<Rightarrow> bool" where
  "stack_ok s n [] = False"
| "stack_ok s n [(es, sp)] = (\<forall>e \<in> set es. \<exists>i j. j \<le> n \<and> located s i j e)"
| "stack_ok s n ((es, sp) # f # fs) =
     (\<exists>k < n. sp = span_at s k (Suc k) \<and> s ! k = CHR ''('' \<and>
        (\<forall>e \<in> set es. \<exists>i j. k < i \<and> j \<le> n \<and> located s i j e) \<and> stack_ok s k (f # fs))"

lemma stack_ok_mono: "stack_ok s n fs \<Longrightarrow> n \<le> m \<Longrightarrow> stack_ok s m fs"
proof (induction s n fs rule: stack_ok.induct)
  case (2 s n es sp)
  then show ?case by simp (meson order_trans)
next
  case (3 s n es sp f fs)
  then obtain k where k: "k < n" "sp = span_at s k (Suc k) \<and> s ! k = CHR ''(''"
    "\<forall>e \<in> set es. \<exists>i j. k < i \<and> j \<le> n \<and> located s i j e" "stack_ok s k (f # fs)" by auto
  have "k < m" using k(1) 3(3) by simp
  moreover have "\<forall>e \<in> set es. \<exists>i j. k < i \<and> j \<le> m \<and> located s i j e"
    using k(3) 3(3) by (meson order_trans)
  ultimately show ?case using k(2,4) by auto
qed simp

lemma stack_ok_push:
  assumes "stack_ok s n ((es, sp) # fs)" and "located s i j e" and "n \<le> i" and "j \<le> m" and "n \<le> m"
  shows "stack_ok s m ((es @ [e], sp) # fs)"
proof (cases fs)
  case Nil
  then show ?thesis using stack_ok_mono [OF assms(1,5)] assms(2,4) by auto
next
  case (Cons f fs')
  from assms(1) Cons obtain k where k: "k < n" "sp = span_at s k (Suc k)"
    "s ! k = CHR ''(''" "\<forall>e \<in> set es. \<exists>i j. k < i \<and> j \<le> n \<and> located s i j e" "stack_ok s k (f # fs')"
    by auto
  have "\<forall>e' \<in> set (es @ [e]). \<exists>i j. k < i \<and> j \<le> m \<and> located s i j e'"
  proof
    fix e' assume "e' \<in> set (es @ [e])"
    then consider "e' \<in> set es" | "e' = e" by auto
    then show "\<exists>i j. k < i \<and> j \<le> m \<and> located s i j e'"
    proof cases
      case 1
      then obtain i' j' where "k < i'" "j' \<le> n" "located s i' j' e'" using k(4) by blast
      then show ?thesis using assms(5) by (intro exI [of _ i'] exI [of _ j']) simp
    next
      case 2
      then show ?thesis using k(1) assms(2,3,4) by (intro exI [of _ i] exI [of _ j]) auto
    qed
  qed
  moreover have "k < m" using k(1) assms(5) by simp
  ultimately show ?thesis unfolding Cons stack_ok.simps using k(2,3,5) by blast
qed

lemma token_open:
  assumes "token_from b it = (Inr t, it')"
  shows "t = Open \<Longrightarrow> b = CHR ''('' \<and> it' = it" and "t = Close \<Longrightarrow> b = CHR '')'' \<and> it' = it"
  using assms
  by (auto simp: token_from_def after_quote_def after_semicolon_def after_r_def after_hash_def
      next_string_def next_whitespace_def Let_def case_prod_unfold split: if_splits)

lemma iter_at_inj: "n \<le> length s \<Longrightarrow> m \<le> length s \<Longrightarrow> iter_at s n = iter_at s m \<Longrightarrow> n = m"
  by (drule arg_cong [of _ _ "\<lambda>it. length (rest it)"]) simp

lemma stack_ok_token:
  assumes "stack_ok s n (fst st # snd st)" and "n < m" and "m \<le> length s"
    and "token_from (s ! n) (iter_at s (Suc n)) = (Inr t, iter_at s m)"
    and "parse_token s t (span_at s n m) (st, md) = Inr (st', md')"
  shows "stack_ok s m (fst st' # snd st')"
proof -
  obtain es sp below where st: "st = ((es, sp), below)" by (metis prod.collapse)
  have mono: "stack_ok s m (fst st # snd st)" using stack_ok_mono [OF assms(1)] assms(2) by simp
  show ?thesis
  proof (cases t)
    case Open
    then have "s ! n = CHR ''(''" "m = Suc n"
      using token_open(1) [OF assms(4)] iter_at_inj [of "Suc n" s m] assms(2,3) by auto
    then show ?thesis using assms(1,5) Open st by (auto intro!: exI [of _ n])
  next
    case Close
    then have c: "s ! n = CHR '')''" "m = Suc n"
      using token_open(2) [OF assms(4)] iter_at_inj [of "Suc n" s m] assms(2,3) by auto
    from assms(5) Close st obtain es2 sp2 fs where b: "below = (es2, sp2) # fs"
      "st' = push_expr (SList es (cover sp (span_at s n m))) ((es2, sp2), fs)"
      by (auto split: list.splits)
    from assms(1) st b obtain k where k: "k < n" "sp = span_at s k (Suc k)" "s ! k = CHR ''(''"
      "\<forall>e \<in> set es. \<exists>i j. k < i \<and> j \<le> n \<and> located s i j e" "stack_ok s k ((es2, sp2) # fs)" by auto
    have "cover sp (span_at s n m) = span_at s k (Suc n)"
      using k(1,2) c(2) by (simp add: cover_def span_at_def)
    moreover have "located s k (Suc n) (SList es (span_at s k (Suc n)))"
      using k c assms(3) by (intro located_list) auto
    ultimately show ?thesis
      using stack_ok_push [OF k(5), of k "Suc n"] b(2) c(2) k(1) by (simp add: push_expr_def)
  next
    case StringTok
    have "located s n m (Atom (span_text s (span_at s n m)) (span_at s n m))"
      using assms(2,3) by (intro located_atom) auto
    then show ?thesis
      using stack_ok_push [of s n es sp below n m] assms(1,2,5) StringTok st by (auto simp: push_expr_def)
  qed (use assms(5) mono in simp_all)
qed

lemma parse_tokens_located:
  "n \<le> length s \<Longrightarrow> stack_ok s n (fst st # snd st) \<Longrightarrow>
   parse_tokens s (lexer ign (iter_at s n)) (st, md) = Inr (st', md') \<Longrightarrow>
   stack_ok s (length s) (fst st' # snd st')"
proof (induction n arbitrary: st md rule: lexer_induct)
  case End
  then show ?case by (simp add: lexer_end)
next
  case (Token n m t)
  show ?case
  proof (cases "ign \<and> is_metadata t")
    case True
    then have "parse_tokens s (lexer ign (iter_at s m)) (st, md) = Inr (st', md')"
      using Token.prems(2) Token.hyps by simp
    then show ?thesis
      using Token.IH [of st md] stack_ok_mono [OF Token.prems(1), of m] Token.hyps(1) by simp
  next
    case False
    then have l: "lexer ign (iter_at s n) = (t, span_at s n m) # lexer ign (iter_at s m)"
      using Token.hyps by (cases ign) (simp_all add: span_at_def)
    show ?thesis
    proof (cases t)
      case (Inr t')
      obtain st1 md1 where p: "parse_token s t' (span_at s n m) (st, md) = Inr (st1, md1)"
        "parse_tokens s (lexer ign (iter_at s m)) (st1, md1) = Inr (st', md')"
        using Token.prems(2) l Inr by (auto simp: and_then_Inr_iff)
      from stack_ok_token [OF Token.prems(1) Token.hyps(1,2) Token.hyps(3) [unfolded Inr] p(1)] p(2)
      show ?thesis by (rule Token.IH)
    qed (use Token.prems(2) l in simp)
  qed
qed

lemma top_levels_members: "top_levels es = Inr xs \<Longrightarrow> (ys, sp) \<in> set xs \<Longrightarrow> SList ys sp \<in> set es"
  by (induction es arbitrary: xs rule: top_levels.induct) (auto simp: and_then_Inr_iff)


section \<open>Variables\<close>

text \<open>One step of looking through variables.\<close>

definition var_step :: "(string \<rightharpoonup> sexpr) \<Rightarrow> sexpr \<Rightarrow> sexpr \<Rightarrow> bool" where
  "var_step vs e e' \<longleftrightarrow> (\<exists>s sp. e = Atom s sp \<and> take 1 s = ''$'' \<and> vs (drop 1 s) = Some e')"

lemma atom_steps:
  "\<not> (\<exists>e'. (var_step vs ^^ n) e e') \<Longrightarrow> sexpr_atom (Some vs) e \<noteq> None"
proof (induction n arbitrary: e)
  case 0
  then show ?case by simp
next
  case (Suc n)
  show ?case
  proof (cases "\<exists>e'. var_step vs e e'")
    case True
    then obtain e' where e': "var_step vs e e'" ..
    then have "\<not> (\<exists>e''. (var_step vs ^^ n) e' e'')"
      using Suc.prems by (metis relpowp_Suc_I2)
    then have "sexpr_atom (Some vs) e' \<noteq> None" by (rule Suc.IH)
    moreover have "sexpr_atom (Some vs) e = sexpr_atom (Some vs) e'"
      using e' by (subst sexpr_atom.simps) (auto simp: var_step_def)
    ultimately show ?thesis by simp
  next
    case False
    then show ?thesis
      by (subst sexpr_atom.simps) (auto simp: var_step_def split: sexpr.split option.split)
  qed
qed

lemma atom_returns:
  assumes "sexpr_atom (Some vs) e = Some r"
  shows "\<exists>n. \<not> (\<exists>e'. (var_step vs ^^ n) e e')"
proof -
  have "vars = Some vs \<longrightarrow> (\<exists>n. \<not> (\<exists>e'. (var_step vs ^^ n) e e'))" if "sexpr_atom vars e = Some r" for vars
    using _ that
  proof (rule sexpr_atom.raw_induct)
    fix atom vars e r
    assume IH: "\<And>vars e r. atom vars e = Some r \<Longrightarrow> vars = Some vs \<longrightarrow> (\<exists>n. \<not> (\<exists>e'. (var_step vs ^^ n) e e'))"
      and body: "(case e of
          Atom s sp \<Rightarrow>
            if take 1 s = ''$'' then
              (case vars of None \<Rightarrow> Some (Some s)
               | Some vs \<Rightarrow> (case vs (drop 1 s) of None \<Rightarrow> Some (Some s) | Some v \<Rightarrow> atom vars v))
            else Some (Some s)
        | SList es sp \<Rightarrow> Some None) = Some r"
    show "vars = Some vs \<longrightarrow> (\<exists>n. \<not> (\<exists>e'. (var_step vs ^^ n) e e'))"
    proof
      assume v: "vars = Some vs"
      show "\<exists>n. \<not> (\<exists>e'. (var_step vs ^^ n) e e')"
      proof (cases "\<exists>e'. var_step vs e e'")
        case True
        then obtain e' where e': "var_step vs e e'" ..
        then have "atom vars e' = Some r" using body v by (auto simp: var_step_def)
        then obtain n where n: "\<not> (\<exists>e''. (var_step vs ^^ n) e' e'')" using IH v by blast
        have "e1 = e'" if "var_step vs e e1" for e1 using that e' by (auto simp: var_step_def)
        then have "\<not> (\<exists>e''. (var_step vs ^^ Suc n) e e'')"
          using n by (metis relpowp_Suc_D2)
        then show ?thesis ..
      next
        case False
        then have "\<not> (\<exists>e'. (var_step vs ^^ Suc 0) e e')" by (auto simp: OO_def)
        then show ?thesis ..
      qed
    qed
  qed
  then show ?thesis using assms by blast
qed

text \<open>Reading an atom through the variables does not return exactly when the variables lead on
  without end, as they do from a variable that is defined as itself.\<close>

theorem variable_cycle_never_returns:
  "(sexpr_atom (Some vs) e = None \<longleftrightarrow> (\<forall>n. \<exists>e'. (var_step vs ^^ n) e e'))
   \<and> sexpr_atom (Some [''a'' \<mapsto> Atom ''$a'' sp]) (Atom ''$a'' sp') = None"
proof -
  have iff: "sexpr_atom (Some vs) e = None \<longleftrightarrow> (\<forall>n. \<exists>e'. (var_step vs ^^ n) e e')" for vs e
    using atom_steps atom_returns by (metis option.exhaust)
  have "\<exists>e'. (var_step [''a'' \<mapsto> Atom ''$a'' sp] ^^ n) (Atom ''$a'' sp') e'" for n
  proof (induction n)
    case (Suc n)
    have "var_step [''a'' \<mapsto> Atom ''$a'' sp] (Atom ''$a'' x) (Atom ''$a'' sp)" for x
      by (simp add: var_step_def)
    then have "(var_step [''a'' \<mapsto> Atom ''$a'' sp] ^^ n) (Atom ''$a'' sp) (Atom ''$a'' sp)" for n
      by (induction n) auto
    then show ?case using \<open>\<And>x. var_step [''a'' \<mapsto> Atom ''$a'' sp] (Atom ''$a'' x) (Atom ''$a'' sp)\<close>
      by (metis relpowp_Suc_I2)
  qed auto
  then show ?thesis using iff by blast
qed


end
