(* ===== verification/ZippychordFacts.thy ===== *)
theory ZippychordFacts
  imports Zippychord
begin

text \<open>
  Properties of zippychord. What the events do to a text is the semantics of the first part; the
  keys that are down are that of the second.
\<close>

section \<open>What is seen\<close>

text \<open>A text field: the characters, each a key with the state of shift and of altgr, and the
  modifiers that are down.\<close>

record screen =
  sc_text :: "(u16 \<times> bool \<times> bool) list"
  sc_lsft :: bool
  sc_rsft :: bool
  sc_altgr :: bool

fun see :: "kb_event \<Rightarrow> screen \<Rightarrow> screen" where
  "see (KbPress k) sc =
     (if k = LShift then sc\<lparr>sc_lsft := True\<rparr>
      else if k = RShift then sc\<lparr>sc_rsft := True\<rparr>
      else if k = RAlt then sc\<lparr>sc_altgr := True\<rparr>
      else if k = KEY_BACKSPACE then sc\<lparr>sc_text := butlast (sc_text sc)\<rparr>
      else if is_zippy_ignored k then sc
      else sc\<lparr>sc_text := sc_text sc @ [(k, sc_lsft sc \<or> sc_rsft sc, sc_altgr sc)]\<rparr>)"
| "see (KbRelease k) sc =
     (if k = LShift then sc\<lparr>sc_lsft := False\<rparr>
      else if k = RShift then sc\<lparr>sc_rsft := False\<rparr>
      else if k = RAlt then sc\<lparr>sc_altgr := False\<rparr>
      else sc)"

definition shown :: "kb_event list \<Rightarrow> screen \<Rightarrow> screen" where
  "shown evs sc = fold see evs sc"

lemma shown_simps [simp]:
  "shown [] sc = sc" "shown (e # evs) sc = shown evs (see e sc)"
  "shown (xs @ ys) sc = shown ys (shown xs sc)"
  by (simp_all add: shown_def)

text \<open>The character that an output is meant to be.\<close>

fun is_upper :: "zch_output \<Rightarrow> bool" where
  "is_upper (Uppercase k) = True"
| "is_upper (ShiftAltGr k) = True"
| "is_upper _ = False"

fun is_altgr :: "zch_output \<Rightarrow> bool" where
  "is_altgr (AltGr k) = True"
| "is_altgr (ShiftAltGr k) = True"
| "is_altgr _ = False"

definition output_char :: "bool \<Rightarrow> zch_output \<Rightarrow> u16 \<times> bool \<times> bool" where
  "output_char sft x = (zo_osc x, sft \<or> is_upper x, is_altgr x)"

text \<open>An output with a shift key held is capitalised.\<close>

fun rendered :: "bool \<Rightarrow> zch_output list \<Rightarrow> (u16 \<times> bool \<times> bool) list" where
  "rendered sft [] = []"
| "rendered sft (x # xs) = output_char sft x # map (output_char False) xs"

text \<open>Outputs that are one character each.\<close>

definition plain_output :: "zch_output \<Rightarrow> bool" where
  "plain_output x \<longleftrightarrow> \<not> snd (osc_and_is_noerase x) \<and> \<not> is_zippy_ignored (zo_osc x)"

lemma see_key:
  assumes "\<not> is_zippy_ignored k"
  shows "see (KbPress k) sc = sc\<lparr>sc_text := sc_text sc @ [(k, sc_lsft sc \<or> sc_rsft sc, sc_altgr sc)]\<rparr>"
    "see (KbRelease k) sc = sc"
  using assms by (auto simp: is_zippy_ignored_def)

lemma shown_type_osc:
  assumes "\<not> is_zippy_ignored k"
  shows "shown (type_osc k d) sc = sc\<lparr>sc_text := sc_text sc @ [(k, sc_lsft sc \<or> sc_rsft sc, sc_altgr sc)]\<rparr>"
  using see_key [OF assms] by (simp add: type_osc_def del: see.simps)

lemma mods_distinct:
  "LShift \<noteq> RShift" "LShift \<noteq> RAlt" "RShift \<noteq> RAlt" "RShift \<noteq> LShift" "RAlt \<noteq> LShift" "RAlt \<noteq> RShift"
  by (simp_all add: LShift_def RShift_def RAlt_def)

text \<open>The modifiers of the screen are those the state knows of, or the shift keys have been released.\<close>

definition mods_agree :: "bool \<Rightarrow> zch_dyn \<Rightarrow> screen \<Rightarrow> bool" where
  "mods_agree released d sc \<longleftrightarrow>
     \<not> sc_altgr sc \<and> sc_lsft sc = (zd_is_lsft_active d \<and> \<not> released)
     \<and> sc_rsft sc = (zd_is_rsft_active d \<and> \<not> released)"

lemma shown_type_with_sft:
  assumes "\<not> is_zippy_ignored k" and "\<not> zd_is_caps_word_active d"
    and "sc_lsft sc = (zd_is_lsft_active d \<and> \<not> released)" and "sc_rsft sc = (zd_is_rsft_active d \<and> \<not> released)"
  shows "shown (type_with_sft released d k) sc = sc\<lparr>sc_text := sc_text sc @ [(k, True, sc_altgr sc)]\<rparr>"
  using assms
  by (cases "sft_during_activation released d")
    (auto simp: type_with_sft_def maybe_press_sft_during_activation_def maybe_release_sft_during_activation_def
      sft_during_activation_def shown_type_osc mods_distinct)

lemma shown_send_output:
  assumes "plain_output x" and "\<not> zd_is_caps_word_active d" and "mods_agree released d sc"
  shows "shown (send_output released d x) sc = sc\<lparr>sc_text := sc_text sc @ [output_char (sc_lsft sc \<or> sc_rsft sc) x]\<rparr>"
  using assms
  by (cases x)
    (auto simp: send_output_def plain_output_def zo_osc_def output_char_def shown_type_osc shown_type_with_sft
      mods_agree_def mods_distinct)

lemma shown_release_sft:
  assumes "mods_agree False d sc"
  shows "shown (release_sft d) sc = sc\<lparr>sc_lsft := False, sc_rsft := False\<rparr>"
  using assms by (cases sc) (auto simp: release_sft_def mods_agree_def mods_distinct)

lemma mods_agree_cong:
  "mods_agree released (d\<lparr>zd_characters_to_delete := n\<rparr>) sc = mods_agree released d sc"
  "mods_agree released d (sc\<lparr>sc_text := t\<rparr>) = mods_agree released d sc"
  by (simp_all add: mods_agree_def)

lemma shown_send_outputs:
  "send_outputs released xs d = Inr (evs, d') \<Longrightarrow> list_all plain_output xs \<Longrightarrow>
   \<not> zd_is_caps_word_active d \<Longrightarrow> mods_agree released d sc \<Longrightarrow>
   shown evs sc = sc\<lparr>sc_text := sc_text sc @ rendered (sc_lsft sc \<or> sc_rsft sc) xs,
       sc_lsft := sc_lsft sc \<and> xs = [], sc_rsft := sc_rsft sc \<and> xs = []\<rparr>
   \<and> (\<exists>n. d' = d\<lparr>zd_characters_to_delete := n\<rparr>)"
proof (induction xs arbitrary: released d evs sc)
  case Nil
  then show ?case by (auto intro!: exI [of _ "zd_characters_to_delete d"])
next
  case (Cons x xs)
  obtain n evs' where n: "chk16 (zd_characters_to_delete d + output_char_count x) = Inr n"
    and rest: "send_outputs True xs (d\<lparr>zd_characters_to_delete := n\<rparr>) = Inr (evs', d')"
    and evs: "evs = send_output released d x @ (if released then [] else release_sft d) @ evs'"
    using Cons.prems(1,3) by (auto simp: and_then_Inr_iff)
  let ?sc1 = "sc\<lparr>sc_text := sc_text sc @ [output_char (sc_lsft sc \<or> sc_rsft sc) x]\<rparr>"
  let ?sc2 = "?sc1\<lparr>sc_lsft := False, sc_rsft := False\<rparr>"
  have 1: "shown (send_output released d x) sc = ?sc1"
    using Cons.prems by (intro shown_send_output) simp_all
  have 2: "shown (if released then [] else release_sft d) ?sc1 = ?sc2"
    using Cons.prems(4) shown_release_sft [of d ?sc1] by (cases sc) (auto simp: mods_agree_def)
  have "mods_agree True (d\<lparr>zd_characters_to_delete := n\<rparr>) ?sc2"
    using Cons.prems(4) by (simp add: mods_agree_def)
  from Cons.IH [OF rest _ _ this] Cons.prems(2,3)
  have 3: "shown evs' ?sc2 = ?sc2\<lparr>sc_text := sc_text ?sc2 @ rendered False xs\<rparr>"
    and d': "\<exists>n. d' = d\<lparr>zd_characters_to_delete := n\<rparr>" by simp_all
  have "rendered False xs = map (output_char False) xs" by (cases xs) simp_all
  then show ?case using d' by (simp add: evs 1 2 3)
qed

text \<open>Backspaces erase the last characters.\<close>

lemma shown_tap_backspace: "shown (tap KEY_BACKSPACE) sc = sc\<lparr>sc_text := butlast (sc_text sc)\<rparr>"
  by (simp add: tap_def KEY_BACKSPACE_def LShift_def RShift_def RAlt_def)

lemma shown_backspaces:
  "sc_text sc = base @ junk \<Longrightarrow>
   shown (concat (replicate (length junk) (tap KEY_BACKSPACE))) sc = sc\<lparr>sc_text := base\<rparr>"
proof (induction junk arbitrary: sc rule: rev_induct)
  case (snoc x junk)
  have "sc_text (shown (tap KEY_BACKSPACE) sc) = base @ junk"
    using snoc.prems by (simp add: shown_tap_backspace butlast_append)
  from snoc.IH [OF this] show ?case by (simp add: shown_tap_backspace)
qed (simp add: shown_def)

definition mods_shown :: "zch_dyn \<Rightarrow> screen \<Rightarrow> bool" where
  "mods_shown d sc \<longleftrightarrow>
     sc_lsft sc = zd_is_lsft_active d \<and> sc_rsft sc = zd_is_rsft_active d \<and> sc_altgr sc = zd_is_altgr_active d"

lemma shown_erase:
  assumes "erase_typed prioritized a (int c) k d = Inr (evs, d')" and "zc_output a \<noteq> []"
    and "sc_text sc = base @ typed"
    and "int c + int (length typed)
      = zd_characters_to_delete d + (if prioritized then zd_prior_activation_output_count d else 0)"
  shows "shown evs sc = sc\<lparr>sc_text := base\<rparr>
    \<and> (\<exists>n. d' = d\<lparr>zd_characters_to_delete := 0, zd_prior_activation_output_count := n\<rparr>)"
proof -
  let ?n = "zd_characters_to_delete d + (if prioritized then zd_prior_activation_output_count d else 0) - int c"
  have "evs = concat (replicate (nat ?n) (tap KEY_BACKSPACE))"
    using assms(1,2) by (auto simp: erase_typed_def and_then_Inr_iff chk16_def split: if_splits)
  moreover have "nat ?n = length typed" using assms(4) by linarith
  ultimately have "evs = concat (replicate (length typed) (tap KEY_BACKSPACE))" by simp
  moreover have "\<exists>n. d' = d\<lparr>zd_characters_to_delete := 0, zd_prior_activation_output_count := n\<rparr>"
    using assms(1,2) by (auto simp: erase_typed_def and_then_Inr_iff)
  ultimately show ?thesis using shown_backspaces [OF assms(3)] by simp
qed

lemma common_prefix_le: "common_prefix ps cs \<le> length cs"
  by (induction ps cs rule: common_prefix.induct) auto

lemma activation_prefix_le:
  "activation_prefix prioritized a d = Inr (int c) \<Longrightarrow> c \<le> length (zc_output a)"
  using common_prefix_le [of "zc_output (the (zd_prior_activation d))" "zc_output a"]
  by (auto simp: activation_prefix_def chk16_def split: if_splits option.splits)

lemma rendered_False: "rendered False xs = map (output_char False) xs"
  by (cases xs) simp_all

lemma shown_press_sft:
  assumes "\<not> zd_is_caps_word_active d"
    and "sc_lsft sc \<longrightarrow> zd_is_lsft_active d" and "sc_rsft sc \<longrightarrow> zd_is_rsft_active d"
  shows "shown (press_sft d) sc = sc\<lparr>sc_lsft := zd_is_lsft_active d, sc_rsft := zd_is_rsft_active d\<rparr>"
  using assms by (cases sc) (auto simp: press_sft_def mods_distinct)

lemma shown_altgr:
  assumes "zc_output a \<noteq> []" and "zd_is_altgr_active d \<or> sc_altgr sc = zd_is_altgr_active d"
  shows "shown (altgr_around a d (KbPress RAlt)) sc = sc\<lparr>sc_altgr := zd_is_altgr_active d\<rparr>"
    "sc_altgr sc = zd_is_altgr_active d \<Longrightarrow>
     shown (altgr_around a d (KbRelease RAlt)) sc = sc\<lparr>sc_altgr := False\<rparr>"
  using assms by (cases sc; auto simp: altgr_around_def mods_distinct)+

lemma shown_activate:
  assumes "activate_chord cfg prioritized a k d = Inr (evs, d')"
    and "zcfg_smart_space cfg = SmartSpaceDisabled" and "\<not> zd_is_caps_word_active d"
    and "zc_output a \<noteq> []" and "list_all plain_output (zc_output a)"
    and "activation_prefix prioritized a d = Inr (int c)"
    and "mods_shown d sc" and "sc_text sc = base @ map (output_char False) (take c (zc_output a)) @ typed"
    and "int c + int (length typed)
      = zd_characters_to_delete d + (if prioritized then zd_prior_activation_output_count d else 0)"
    and "c = 0 \<or> \<not> sc_lsft sc \<and> \<not> sc_rsft sc"
  shows "sc_text (shown evs sc) = base @ rendered (sc_lsft sc \<or> sc_rsft sc) (zc_output a)
    \<and> mods_shown d (shown evs sc)"
proof -
  let ?keep = "base @ map (output_char False) (take c (zc_output a))"
  obtain count ev1 d1 ev2 d2 where e1: "erase_typed prioritized a (int c) k
        (d\<lparr>zd_prior_activation := Some a, zd_same_hold_activation_count := count,
          zd_ticks_until_disable := zcfg_ticks_chord_deadline cfg\<rparr>) = Inr (ev1, d1)"
    and e2: "send_outputs False (drop c (zc_output a)) (d1\<lparr>zd_prioritized_chords := zc_followups a\<rparr>) = Inr (ev2, d2)"
    and evs: "evs = ev1 @ altgr_around a d (KbRelease RAlt) @ ev2 @ press_sft d2 @ altgr_around a d2 (KbPress RAlt)"
    using assms(1,2,6) by (auto simp: activate_chord_def and_then_Inr_iff smart_space_def wants_smart_space_def)
  have s1: "shown ev1 sc = sc\<lparr>sc_text := ?keep\<rparr>"
    and d1: "zd_is_caps_word_active d1 = zd_is_caps_word_active d" "zd_is_lsft_active d1 = zd_is_lsft_active d"
      "zd_is_rsft_active d1 = zd_is_rsft_active d" "zd_is_altgr_active d1 = zd_is_altgr_active d"
    using shown_erase [OF e1 assms(4), of sc ?keep typed] assms(8,9) by (cases prioritized; auto)+
  let ?sc1 = "sc\<lparr>sc_text := ?keep, sc_altgr := False\<rparr>"
  have s2: "shown (altgr_around a d (KbRelease RAlt)) (sc\<lparr>sc_text := ?keep\<rparr>) = ?sc1"
    using shown_altgr(2) [OF assms(4)] assms(7) by (simp add: mods_shown_def)
  have "mods_agree False (d1\<lparr>zd_prioritized_chords := zc_followups a\<rparr>) ?sc1"
    using assms(7) d1 by (simp add: mods_agree_def mods_shown_def)
  moreover have "list_all plain_output (drop c (zc_output a))"
    using assms(5) by (metis append_take_drop_id list_all_append)
  ultimately have s3: "shown ev2 ?sc1 = ?sc1\<lparr>sc_text := ?keep @ rendered (sc_lsft sc \<or> sc_rsft sc) (drop c (zc_output a)),
      sc_lsft := sc_lsft sc \<and> drop c (zc_output a) = [], sc_rsft := sc_rsft sc \<and> drop c (zc_output a) = []\<rparr>"
    and d2: "\<exists>n. d2 = d1\<lparr>zd_prioritized_chords := zc_followups a, zd_characters_to_delete := n\<rparr>"
    using shown_send_outputs [OF e2, of ?sc1] assms(3) d1 by simp_all
  have "?keep @ rendered (sc_lsft sc \<or> sc_rsft sc) (drop c (zc_output a))
      = base @ rendered (sc_lsft sc \<or> sc_rsft sc) (zc_output a)"
  proof (cases "c = 0")
    case False
    then show ?thesis using assms(10) by (simp add: rendered_False flip: map_append)
  qed simp
  moreover have "shown evs sc = sc\<lparr>sc_text := ?keep @ rendered (sc_lsft sc \<or> sc_rsft sc) (drop c (zc_output a)),
      sc_lsft := zd_is_lsft_active d, sc_rsft := zd_is_rsft_active d, sc_altgr := zd_is_altgr_active d\<rparr>"
    using assms(3,4,7) d1 d2
    by (auto simp: evs s1 s2 s3 shown_press_sft shown_altgr(1) mods_shown_def)
  ultimately show ?thesis by (simp add: mods_shown_def)
qed

lemma lookup_chord_cong:
  assumes "zd_input_keys d = zd_input_keys d'" and "zd_prioritized_chords d = zd_prioritized_chords d'"
  shows "lookup_chord chords d = lookup_chord chords d'"
  unfolding lookup_chord_def assms ..


section \<open>No key is left down\<close>

fun down_after :: "kb_event \<Rightarrow> u16 set \<Rightarrow> u16 set" where
  "down_after (KbPress k) D = insert k D"
| "down_after (KbRelease k) D = D - {k}"

text \<open>The events leave only keys of \<open>H\<close> down.\<close>

definition leaves_down :: "u16 set \<Rightarrow> kb_event list \<Rightarrow> bool" where
  "leaves_down H evs \<longleftrightarrow> (\<forall>D. D \<subseteq> H \<longrightarrow> fold down_after evs D \<subseteq> H)"

lemma leaves_down_Nil [simp]: "leaves_down H []"
  by (simp add: leaves_down_def)

lemma leaves_down_append [intro]: "leaves_down H xs \<Longrightarrow> leaves_down H ys \<Longrightarrow> leaves_down H (xs @ ys)"
  by (simp add: leaves_down_def)

lemma leaves_down_release [simp]: "leaves_down H [KbRelease k]"
  by (auto simp: leaves_down_def)

lemma leaves_down_press: "k \<in> H \<Longrightarrow> leaves_down H [KbPress k]"
  by (auto simp: leaves_down_def)

lemma leaves_down_Cons:
  "leaves_down H evs \<Longrightarrow> leaves_down H (KbRelease k # evs)"
  "leaves_down H evs \<Longrightarrow> k \<in> H \<Longrightarrow> leaves_down H (KbPress k # evs)"
  using leaves_down_append [OF leaves_down_release] leaves_down_append [OF leaves_down_press] by fastforce+

text \<open>A key pressed before and released after some events.\<close>

lemma leaves_down_around:
  assumes "leaves_down (insert k H) evs"
  shows "leaves_down H (KbPress k # evs @ [KbRelease k])"
  unfolding leaves_down_def
proof (intro allI impI)
  fix D assume "D \<subseteq> H"
  then have "insert k D \<subseteq> insert k H" by (rule insert_mono)
  with assms have "fold down_after evs (insert k D) \<subseteq> insert k H"
    unfolding leaves_down_def by blast
  then show "fold down_after (KbPress k # evs @ [KbRelease k]) D \<subseteq> H" by (simp add: Diff_subset_conv)
qed

lemma leaves_down_tap: "leaves_down H (tap k)"
  using leaves_down_around [of k H "[]"] by (simp add: tap_def)

lemma leaves_down_taps: "leaves_down H (concat (replicate n (tap k)))"
  by (induction n) (auto intro: leaves_down_tap)

lemma leaves_down_type: "set (zd_input_keys d) \<subseteq> H \<Longrightarrow> leaves_down H (type_osc k d)"
  using leaves_down_append [OF leaves_down_release [of H k] leaves_down_press [of k H]] leaves_down_tap [of H k]
  by (auto simp: type_osc_def tap_def)

lemma leaves_down_type_with_sft:
  assumes "set (zd_input_keys d) \<subseteq> H"
  shows "leaves_down H (type_with_sft released d k)"
proof -
  have "leaves_down (insert LShift H) (type_osc k d)" using assms by (intro leaves_down_type) auto
  from leaves_down_around [OF this] show ?thesis
    using leaves_down_type [OF assms]
    by (auto simp: type_with_sft_def maybe_press_sft_during_activation_def maybe_release_sft_during_activation_def)
qed

lemma leaves_down_send_output:
  assumes "set (zd_input_keys d) \<subseteq> H"
  shows "leaves_down H (send_output released d x)"
proof -
  have "set (zd_input_keys d) \<subseteq> insert RAlt H" using assms by auto
  then show ?thesis
    using assms
    by (cases x)
      (auto simp: send_output_def intro: leaves_down_type leaves_down_type_with_sft
        leaves_down_around [OF leaves_down_type] leaves_down_around [OF leaves_down_type_with_sft])
qed

lemma leaves_down_release_sft: "leaves_down H (release_sft d)"
  by (simp add: release_sft_def leaves_down_Cons)

lemma leaves_down_send_outputs:
  "send_outputs released xs d = Inr (evs, d') \<Longrightarrow> set (zd_input_keys d) \<subseteq> H \<Longrightarrow>
   leaves_down H evs \<and> (\<exists>n. d' = d\<lparr>zd_characters_to_delete := n\<rparr>)"
proof (induction xs arbitrary: released d evs)
  case Nil
  then show ?case by (auto intro!: exI [of _ "zd_characters_to_delete d"])
next
  case (Cons x xs)
  obtain n evs' where
    rest: "send_outputs (released \<or> \<not> zd_is_caps_word_active d) xs (d\<lparr>zd_characters_to_delete := n\<rparr>) = Inr (evs', d')"
    and evs: "evs = send_output released d x
      @ (if \<not> released \<and> \<not> zd_is_caps_word_active d then release_sft d else []) @ evs'"
    using Cons.prems(1) by (auto simp: and_then_Inr_iff)
  have "leaves_down H (if \<not> released \<and> \<not> zd_is_caps_word_active d then release_sft d else [])"
    by (simp add: leaves_down_release_sft)
  moreover have "leaves_down H evs'" "\<exists>n. d' = d\<lparr>zd_characters_to_delete := n\<rparr>"
    using Cons.IH [OF rest] Cons.prems(2) by auto
  ultimately show ?case
    unfolding evs using leaves_down_send_output [OF Cons.prems(2)] by (auto intro!: leaves_down_append)
qed

text \<open>The keys the state knows of are held by the user.\<close>

definition knows_held :: "u16 set \<Rightarrow> zch_dyn \<Rightarrow> bool" where
  "knows_held H d \<longleftrightarrow> set (zd_input_keys d) \<subseteq> H - {k. is_zippy_ignored k} \<and> (zd_is_lsft_active d \<longrightarrow> LShift \<in> H)
     \<and> (zd_is_rsft_active d \<longrightarrow> RShift \<in> H) \<and> (zd_is_altgr_active d \<longrightarrow> RAlt \<in> H)"

lemma knows_held_reset:
  "knows_held H d \<Longrightarrow> knows_held H (zchd_soft_reset d)" "knows_held H d \<Longrightarrow> knows_held H (zchd_clear_history d)"
  "knows_held H (zchd_reset d)"
  by (simp_all add: knows_held_def zchd_soft_reset_def zchd_clear_history_def zchd_reset_def)

lemma set_zchik_insert: "set (zchik_insert k ks) \<subseteq> insert k (set ks)"
  by (auto simp: zchik_insert_def dest: in_set_takeD in_set_dropD split: sum.split)

lemma activate_leaves_down:
  assumes "activate_chord cfg prioritized a k d = Inr (evs, d')" and "knows_held H d" and "k \<in> H"
  shows "leaves_down H evs \<and> knows_held H d'"
proof -
  obtain prefix count ev1 d1 ev2 d2 ev3 d3 where e1: "erase_typed prioritized a prefix k
        (d\<lparr>zd_prior_activation := Some a, zd_same_hold_activation_count := count,
          zd_ticks_until_disable := zcfg_ticks_chord_deadline cfg\<rparr>) = Inr (ev1, d1)"
    and e2: "send_outputs False (drop (nat prefix) (zc_output a)) (d1\<lparr>zd_prioritized_chords := zc_followups a\<rparr>) = Inr (ev2, d2)"
    and e3: "smart_space cfg a d2 = Inr (ev3, d3)"
    and evs: "evs = ev1 @ altgr_around a d (KbRelease RAlt) @ ev2 @ ev3 @ press_sft d3 @ altgr_around a d3 (KbPress RAlt)"
    and d': "d' = d3\<lparr>zd_last_press := IsChord\<rparr>"
    using assms(1) by (auto simp: activate_chord_def and_then_Inr_iff case_prod_unfold)
  have 1: "leaves_down H ev1 \<and> knows_held H d1"
    using e1 assms(2,3)
    by (auto simp: erase_typed_def and_then_Inr_iff knows_held_def intro: leaves_down_taps leaves_down_press
        split: if_splits)
  have 2: "leaves_down H ev2 \<and> knows_held H d2"
  proof -
    have "set (zd_input_keys d1) \<subseteq> H" using 1 by (auto simp: knows_held_def)
    then have "leaves_down H ev2 \<and> (\<exists>n. d2 = d1\<lparr>zd_prioritized_chords := zc_followups a, zd_characters_to_delete := n\<rparr>)"
      using leaves_down_send_outputs [OF e2, of H] by simp
    then show ?thesis using 1 by (auto simp: knows_held_def)
  qed
  have 3: "leaves_down H ev3 \<and> knows_held H d3"
    using e3 2 by (auto simp: smart_space_def and_then_Inr_iff knows_held_def intro: leaves_down_tap split: if_splits)
  have "leaves_down H (press_sft d3)"
    using 3 by (simp add: press_sft_def knows_held_def leaves_down_Cons)
  moreover have "leaves_down H (altgr_around a d (KbRelease RAlt))" "leaves_down H (altgr_around a d3 (KbPress RAlt))"
    using 3 by (auto simp: altgr_around_def knows_held_def intro: leaves_down_press)
  ultimately show ?thesis
    using 1 2 3 by (auto simp: evs d' knows_held_def intro!: leaves_down_append)
qed

lemma press_leaves_down:
  assumes "zch_press_key k s = Inr (evs, s')" and "knows_held H (zs_dyn s)"
  shows "leaves_down (insert k H) evs \<and> knows_held (insert k H) (zs_dyn s')"
proof -
  let ?H = "insert k H"
  have held: "knows_held ?H (zs_dyn s)" using assms(2) by (auto simp: knows_held_def)
  have k: "leaves_down ?H [KbPress k]" by (rule leaves_down_press) simp
  show ?thesis
  proof (cases "zs_chords s = [] \<or> k = LShift \<or> k = RShift \<or> k = RAlt \<or> is_zippy_ignored k")
    case True
    then show ?thesis using assms(1) held k
      by (auto simp: zch_press_key_def Let_def knows_held_def split: if_splits)
  next
    case False
    then obtain ev1 d1 where e1: "erase_smart_space (zs_cfg s) k (zs_dyn s) = Inr (ev1, d1)"
      and rest: "(if zd_enabled_state d1 \<noteq> Enabled
          then Inr (ev1 @ [KbPress k], s\<lparr>zs_dyn := d1\<lparr>zd_smart_space_state := SpaceInactive\<rparr>\<rparr>)
          else and_then (press_enabled (zs_chords s) (zs_cfg s) k (d1\<lparr>zd_smart_space_state := SpaceInactive\<rparr>))
            (\<lambda>(ev2, d2). Inr (ev1 @ ev2, s\<lparr>zs_dyn := d2\<rparr>))) = Inr (evs, s')"
      using assms(1) by (auto simp: zch_press_key_def Let_def and_then_Inr_iff)
    have 1: "leaves_down ?H ev1 \<and> knows_held ?H (d1\<lparr>zd_smart_space_state := SpaceInactive\<rparr>)"
      using e1 held
      by (auto simp: erase_smart_space_def and_then_Inr_iff knows_held_def intro: leaves_down_tap split: if_splits)
    show ?thesis
    proof (cases "zd_enabled_state d1 = Enabled")
      case False
      then show ?thesis using rest 1 k by (auto intro!: leaves_down_append)
    next
      case True
      let ?d = "zchd_press_key k (zchd_state_change (zs_cfg s)
          (zchd_activate_chord_deadline (zcfg_ticks_chord_deadline (zs_cfg s)) (d1\<lparr>zd_smart_space_state := SpaceInactive\<rparr>)))"
      from True rest obtain ev2 d2 where
        p: "press_enabled (zs_chords s) (zs_cfg s) k (d1\<lparr>zd_smart_space_state := SpaceInactive\<rparr>) = Inr (ev2, d2)"
        and out: "evs = ev1 @ ev2" "s' = s\<lparr>zs_dyn := d2\<rparr>"
        by (auto simp: and_then_Inr_iff)
      have d: "knows_held ?H ?d"
        using 1 set_zchik_insert [of k "zd_input_keys d1"] \<open>\<not> (zs_chords s = [] \<or> k = LShift \<or> k = RShift \<or> k = RAlt \<or> is_zippy_ignored k)\<close>
        by (auto simp: knows_held_def zchd_press_key_def zchd_state_change_def zchd_activate_chord_deadline_def)
      obtain prio r where l: "lookup_chord (zs_chords s) ?d = (prio, r)" by force
      have "leaves_down ?H ev2 \<and> knows_held ?H d2"
      proof (cases r)
        case (HasValue a)
        then have "activate_chord (zs_cfg s) prio a k ?d = Inr (ev2, d2)"
          using p l by (simp add: press_enabled_def Let_def)
        then show ?thesis using d by (rule activate_leaves_down) simp
      next
        case IsSubset
        then show ?thesis using p l d k
          by (auto simp: press_enabled_def Let_def and_then_Inr_iff knows_held_def)
      next
        case Neither
        then show ?thesis using p l d k knows_held_reset by (auto simp: press_enabled_def Let_def)
      qed
      then show ?thesis using 1 out by (auto intro!: leaves_down_append)
    qed
  qed
qed

lemma release_leaves_down:
  assumes "zch_release_key k s = (evs, s')" and "knows_held H (zs_dyn s)" and "zs_chords s \<noteq> []"
  shows "evs = [KbRelease k] \<and> knows_held (H - {k}) (zs_dyn s')"
proof (cases "is_zippy_ignored k")
  case True
  then show ?thesis using assms
    by (auto simp: zch_release_key_def Let_def knows_held_def mods_distinct split: if_splits)
next
  case False
  then have k: "k \<noteq> LShift" "k \<noteq> RShift" "k \<noteq> RAlt" by (auto simp: is_zippy_ignored_def)
  let ?d = "zchd_state_change (zs_cfg s) (zs_dyn s)"
  have "evs = [KbRelease k]" "zs_dyn s' = zchd_release_key k ?d"
    using assms(1,3) False k by (auto simp: zch_release_key_def Let_def)
  moreover have "knows_held (H - {k}) (?d\<lparr>zd_input_keys := zchik_remove k (zd_input_keys ?d)\<rparr>)"
    using assms(2) k by (auto simp: knows_held_def zchd_state_change_def zchik_remove_def)
  then have "knows_held (H - {k}) (zchd_release_key k ?d)"
    by (auto simp: zchd_release_key_def Let_def knows_held_def zchd_clear_history_def zchd_soft_reset_def
        split: zch_last_press.split bool.split)
  ultimately show ?thesis by simp
qed

lemma tick_knows_held:
  assumes "zchd_tick caps d = Inr d'" and "knows_held H d"
  shows "knows_held H d'"
proof -
  obtain t where d': "d' = (let d1 = zchd_tick_enabled (d\<lparr>zd_ticks_since_state_change := t, zd_is_caps_word_active := caps\<rparr>)
      in if zd_ticks_since_state_change d1 > TICKS_UNTIL_FORCE_STATE_RESET then zchd_reset d1 else d1)"
    using assms(1) by (auto simp: zchd_tick_def and_then_Inr_iff Let_def)
  have "knows_held H (zchd_tick_enabled (d\<lparr>zd_ticks_since_state_change := t, zd_is_caps_word_active := caps\<rparr>))"
    using assms(2)
    by (auto simp: zchd_tick_enabled_def Let_def knows_held_def zchd_soft_reset_def zchd_clear_history_def
        split: zch_enabled_state.split)
  then show ?thesis using knows_held_reset by (simp add: d' Let_def)
qed

text \<open>What happens to zippychord: keys are pressed and released, and time passes.\<close>

datatype zch_input = PressIn u16 | ReleaseIn u16 | TickIn bool

fun zch_step :: "zch_input \<Rightarrow> zch_state \<Rightarrow> (kb_event list \<times> zch_state) res" where
  "zch_step (PressIn k) s = zch_press_key k s"
| "zch_step (ReleaseIn k) s = Inr (zch_release_key k s)"
| "zch_step (TickIn caps) s = and_then (zch_tick caps s) (\<lambda>s. Inr ([], s))"

fun zch_run :: "zch_input list \<Rightarrow> zch_state \<Rightarrow> (kb_event list \<times> zch_state) res" where
  "zch_run [] s = Inr ([], s)"
| "zch_run (i # is) s =
     and_then (zch_step i s) (\<lambda>(ev, s). and_then (zch_run is s) (\<lambda>(evs, s). Inr (ev @ evs, s)))"

fun held_after :: "zch_input \<Rightarrow> u16 set \<Rightarrow> u16 set" where
  "held_after (PressIn k) H = insert k H"
| "held_after (ReleaseIn k) H = H - {k}"
| "held_after (TickIn caps) H = H"

lemma press_chords:
  assumes "zch_press_key k s = Inr (ev, s')"
  shows "zs_chords s' = zs_chords s"
proof (cases "zs_chords s = [] \<or> k = LShift \<or> k = RShift \<or> k = RAlt \<or> is_zippy_ignored k")
  case True
  then show ?thesis using assms by (auto simp: zch_press_key_def Let_def split: if_splits)
next
  case False
  then obtain ev1 d1 where "(if zd_enabled_state d1 \<noteq> Enabled
      then Inr (ev1 @ [KbPress k], s\<lparr>zs_dyn := d1\<lparr>zd_smart_space_state := SpaceInactive\<rparr>\<rparr>)
      else and_then (press_enabled (zs_chords s) (zs_cfg s) k (d1\<lparr>zd_smart_space_state := SpaceInactive\<rparr>))
        (\<lambda>(ev2, d2). Inr (ev1 @ ev2, s\<lparr>zs_dyn := d2\<rparr>))) = Inr (ev, s')"
    using assms by (auto simp: zch_press_key_def Let_def and_then_Inr_iff)
  then show ?thesis by (auto simp: and_then_Inr_iff split: if_splits)
qed

lemma release_chords: "zs_chords (snd (zch_release_key k s)) = zs_chords s"
  by (simp add: zch_release_key_def Let_def)

lemma step_chords: "zch_step i s = Inr (ev, s') \<Longrightarrow> zs_chords s' = zs_chords s"
proof (cases i)
  case (ReleaseIn k)
  assume "zch_step i s = Inr (ev, s')"
  then show ?thesis using ReleaseIn release_chords [of k s] by simp
qed (auto simp: zch_tick_def and_then_Inr_iff dest: press_chords)

lemma step_down:
  assumes "zch_step i s = Inr (ev, s')" and "zs_chords s = [] \<or> knows_held H (zs_dyn s)" and "D \<subseteq> H"
  shows "(zs_chords s' = [] \<or> knows_held (held_after i H) (zs_dyn s')) \<and> fold down_after ev D \<subseteq> held_after i H"
proof (cases "zs_chords s = []")
  case True
  then have "zs_chords s' = []" using step_chords [OF assms(1)] by simp
  moreover have "zch_press_key k s = Inr ([KbPress k], s)" "zch_release_key k s = ([KbRelease k], s)" for k
    using True by (simp_all add: zch_press_key_def zch_release_key_def)
  ultimately show ?thesis using assms(1,3) by (cases i) (auto simp: and_then_Inr_iff)
next
  case False
  then have held: "knows_held H (zs_dyn s)" using assms(2) by simp
  show ?thesis
  proof (cases i)
    case (PressIn k)
    then have "leaves_down (insert k H) ev \<and> knows_held (insert k H) (zs_dyn s')"
      using press_leaves_down [OF _ held, of k ev s'] assms(1) by simp
    moreover have "D \<subseteq> insert k H" using assms(3) by auto
    ultimately show ?thesis using PressIn by (simp add: leaves_down_def)
  next
    case (ReleaseIn k)
    then show ?thesis using release_leaves_down [OF _ held False, of k ev s'] assms(1,3) by auto
  next
    case (TickIn caps)
    then show ?thesis using tick_knows_held [OF _ held, of caps] assms(1,3)
      by (auto simp: zch_tick_def and_then_Inr_iff)
  qed
qed

lemma run_down:
  "zch_run is s = Inr (evs, s') \<Longrightarrow> zs_chords s = [] \<or> knows_held H (zs_dyn s) \<Longrightarrow> D \<subseteq> H \<Longrightarrow>
   fold down_after evs D \<subseteq> fold held_after is H"
proof (induction "is" arbitrary: s H D evs)
  case (Cons i "is")
  obtain ev s1 evs1 where 1: "zch_step i s = Inr (ev, s1)" "zch_run is s1 = Inr (evs1, s')" "evs = ev @ evs1"
    using Cons.prems(1) by (auto simp: and_then_Inr_iff)
  from step_down [OF 1(1) Cons.prems(2,3)] Cons.IH [OF 1(2)] show ?case by (simp add: 1(3))
qed simp

text \<open>C40: Whatever is pressed, released and activated, the keys that are down for the operating system
  are keys that the user holds: no key that a chord types, no backspace and no modifier is left
  down.\<close>

theorem no_key_left_down:
  assumes "zch_run is (zch_configure cfg \<lparr>zs_dyn = zch_dyn_default, zs_chords = [], zs_cfg = cfg0\<rparr>) = Inr (evs, s')"
  shows "fold down_after evs {} \<subseteq> fold held_after is {}"
  by (rule run_down [OF assms])
    (simp_all add: zch_configure_def zchd_reset_def zchd_soft_reset_def zchd_clear_history_def zch_dyn_default_def
      knows_held_def)

section \<open>Three overlapping chords\<close>

text \<open>Chords of two, three and four keys, each containing the one before, whose outputs begin alike.\<close>

definition word_chord :: "u16 list \<Rightarrow> zch_chord_output" where
  "word_chord ks = ZchChordOutput (map Lowercase ks) None"

definition overlap_cfg :: zch_config where
  "overlap_cfg = \<lparr>zcfg_ticks_wait_enable = 500, zcfg_ticks_chord_deadline = 500,
     zcfg_smart_space = SmartSpaceDisabled, zcfg_smart_space_punctuation = []\<rparr>"

definition overlap_chords :: zch_possible_chords where
  "overlap_chords = ssm_inserts
     [([30, 31], word_chord [16, 17, 18]), ([30, 31, 32], word_chord [16, 17, 19]),
      ([30, 31, 32, 33], word_chord [16, 17, 20])]"

lemma lookup_sorted:
  assumes "sorted ks"
  shows "ssm_get_or_is_subset_ksorted ks (ssm_inserts hist) =
    (case known hist ks of
       Some v \<Rightarrow> HasValue v
     | None \<Rightarrow> if list_ex (\<lambda>(key', v). key' \<noteq> [] \<and> set ks \<subseteq> set key') hist then IsSubset else Neither)"
  using lookup_inserts [of ks hist] assms by (simp add: ssm_get_or_is_subset_def sorted_sort_id)

lemma overlap_lookup:
  "ssm_get_or_is_subset_ksorted [30] overlap_chords = IsSubset"
  "ssm_get_or_is_subset_ksorted [30, 31] overlap_chords = HasValue (word_chord [16, 17, 18])"
  "ssm_get_or_is_subset_ksorted [30, 31, 32] overlap_chords = HasValue (word_chord [16, 17, 19])"
  "ssm_get_or_is_subset_ksorted [30, 31, 32, 33] overlap_chords = HasValue (word_chord [16, 17, 20])"
  by (simp_all add: overlap_chords_def lookup_sorted known_def)

lemma overlap_insert:
  "zchik_insert 30 [] = [30]" "zchik_insert 31 [30] = [30, 31]" "zchik_insert 32 [30, 31] = [30, 31, 32]"
  "zchik_insert 33 [30, 31, 32] = [30, 31, 32, 33]"
  by (simp_all add: zchik_insert_def binary_search_def search_loop.simps)

definition overlap_at :: "zch_dyn \<Rightarrow> zch_state" where
  "overlap_at d = \<lparr>zs_dyn = d, zs_chords = overlap_chords, zs_cfg = overlap_cfg\<rparr>"

lemma overlap_chords_nonempty: "overlap_chords \<noteq> []"
  using overlap_lookup(1) by (auto simp: ssm_get_or_is_subset_ksorted_def)

lemmas press_defs = zch_press_key_def overlap_at_def overlap_chords_nonempty is_zippy_ignored_def
  LShift_def RShift_def LCtrl_def RCtrl_def LAlt_def RAlt_def LGui_def RGui_def KEY_ESC_def KEY_BACKSPACE_def
  KEY_DELETE_def erase_smart_space_def press_enabled_def zchd_press_key_def zchd_state_change_def
  zchd_activate_chord_deadline_def lookup_chord_def overlap_cfg_def overlap_insert overlap_lookup
  zch_dyn_default_def chk16_def

definition dyn1 :: zch_dyn where
  "dyn1 = zch_dyn_default\<lparr>zd_input_keys := [30], zd_characters_to_delete := 1, zd_ticks_until_enabled := 500,
     zd_ticks_until_disable := 500, zd_last_press := NotChord\<rparr>"

lemma overlap_press1: "zch_press_key 30 (overlap_at zch_dyn_default) = Inr ([KbPress 30], overlap_at dyn1)"
  by (simp add: press_defs dyn1_def)

lemmas activation_defs = activate_chord_def activation_prefix_def checked_add_def erase_typed_def display_len_def
  word_chord_def output_char_count_def zo_osc_def smart_space_def wants_smart_space_def altgr_around_def
  press_sft_def send_output_def type_osc_def release_sft_def tap_def

definition dyn2 :: zch_dyn where
  "dyn2 = dyn1\<lparr>zd_input_keys := [30, 31], zd_characters_to_delete := 3, zd_prior_activation_output_count := 3,
     zd_prior_activation := Some (word_chord [16, 17, 18]), zd_same_hold_activation_count := 1,
     zd_last_press := IsChord\<rparr>"

lemma overlap_press2:
  "zch_press_key 31 (overlap_at dyn1) =
     Inr (tap 14 @ tap 16 @ tap 17 @ tap 18, overlap_at dyn2)"
  by (simp add: press_defs dyn1_def dyn2_def activation_defs)

definition dyn3 :: zch_dyn where
  "dyn3 = dyn2\<lparr>zd_input_keys := [30, 31, 32], zd_characters_to_delete := 1,
     zd_prior_activation := Some (word_chord [16, 17, 19]), zd_same_hold_activation_count := 2\<rparr>"

lemma overlap_press3:
  "zch_press_key 32 (overlap_at dyn2) = Inr (tap 14 @ tap 19, overlap_at dyn3)"
  by (simp add: press_defs dyn1_def dyn2_def dyn3_def activation_defs)

definition dyn4 :: zch_dyn where
  "dyn4 = dyn3\<lparr>zd_input_keys := [30, 31, 32, 33],
     zd_prior_activation := Some (word_chord [16, 17, 20]), zd_same_hold_activation_count := 3\<rparr>"

lemma overlap_press4:
  "zch_press_key 33 (overlap_at dyn3) = Inr (tap 20, overlap_at dyn4)"
  by (simp add: press_defs dyn1_def dyn2_def dyn3_def dyn4_def activation_defs)

fun zch_presses :: "u16 list \<Rightarrow> zch_state \<Rightarrow> (kb_event list \<times> zch_state) res" where
  "zch_presses [] s = Inr ([], s)"
| "zch_presses (k # ks) s =
     and_then (zch_press_key k s) (\<lambda>(ev, s). and_then (zch_presses ks s) (\<lambda>(evs, s). Inr (ev @ evs, s)))"

definition empty_screen :: screen where
  "empty_screen = \<lparr>sc_text = [], sc_lsft = False, sc_rsft = False, sc_altgr = False\<rparr>"

definition text_after :: "u16 list \<Rightarrow> u16 list option" where
  "text_after ks =
     (case zch_presses ks (overlap_at zch_dyn_default) of
        Inr (evs, s) \<Rightarrow> Some (map fst (sc_text (shown evs empty_screen))) | Inl _ \<Rightarrow> None)"

text \<open>The third of three overlapping chords does not replace the second one's output: after its
  activation only the characters that were typed anew are counted, not the common beginning that
  was kept, so too few are erased. Two overlapping chords are right.\<close>

theorem third_overlapping_chord_keeps_output:
  "text_after [30, 31] = Some [16, 17, 18]
   \<and> text_after [30, 31, 32] = Some [16, 17, 19]
   \<and> text_after [30, 31, 32, 33] = Some [16, 17, 19, 20]"
  by (simp_all add: text_after_def overlap_press1 overlap_press2 overlap_press3 overlap_press4 tap_def empty_screen_def
      is_zippy_ignored_def LShift_def RShift_def LCtrl_def RCtrl_def LAlt_def RAlt_def LGui_def RGui_def
      KEY_ESC_def KEY_BACKSPACE_def KEY_DELETE_def)


theorem no_key_left_down_witness:
  "fold down_after ([KbPress 30] @ (tap 14 @ tap 16 @ tap 17 @ tap 18) @ [KbRelease 30]) {} \<subseteq> {31}"
proof -
  have "zch_configure (overlap_chords, overlap_cfg) \<lparr>zs_dyn = zch_dyn_default, zs_chords = [], zs_cfg = overlap_cfg\<rparr>
      = overlap_at zch_dyn_default"
    by (simp add: zch_configure_def overlap_at_def zchd_reset_def zchd_soft_reset_def zchd_clear_history_def
        zch_dyn_default_def)
  moreover have "fst (zch_release_key 30 (overlap_at dyn2)) = [KbRelease 30]"
    by (simp add: zch_release_key_def Let_def)
  then obtain s' where "zch_release_key 30 (overlap_at dyn2) = ([KbRelease 30], s')"
    by (cases "zch_release_key 30 (overlap_at dyn2)") simp
  ultimately have "zch_run [PressIn 30, PressIn 31, ReleaseIn 30]
      (zch_configure (overlap_chords, overlap_cfg) \<lparr>zs_dyn = zch_dyn_default, zs_chords = [], zs_cfg = overlap_cfg\<rparr>)
      = Inr ([KbPress 30] @ (tap 14 @ tap 16 @ tap 17 @ tap 18) @ [KbRelease 30], s')"
    by (simp add: overlap_press1 overlap_press2)
  from no_key_left_down [OF this] show ?thesis by (simp add: subset_iff)
qed

end
