(* ===== verification/CfgHelpers.thy ===== *)
theory CfgHelpers
  imports Sexpr Sequences
begin

text \<open>
  What the parsers of the configuration share (\<open>parser/src/cfg/mod.rs\<close>, \<open>parser/src/cfg/vars.rs\<close>): results,
  the atoms and lists behind variables, numbers, lists of keys and the prefixes of chords such as \<open>C-S-\<close>.
  An error is the one value \<open>Rejected\<close>, without its message. A lookup in the table of key names
  (\<open>str_to_oscode\<close>) is the argument \<open>osc\<close>.
\<close>

section \<open>Results\<close>

text \<open>The parser returns an error, panics, or does not return (its stack overflows).\<close>

datatype cfg_fault = Rejected | ParserPanic | NeverReturns

type_synonym 'a cfg_res = "cfg_fault + 'a"

definition or_reject :: "'a option \<Rightarrow> 'a cfg_res" where
  "or_reject x = (case x of None \<Rightarrow> Inl Rejected | Some y \<Rightarrow> Inr y)"

definition reject_unless :: "bool \<Rightarrow> unit cfg_res" where
  "reject_unless b = (if b then Inr () else Inl Rejected)"

lemma or_reject_simps [simp]:
  "or_reject None = Inl Rejected" "or_reject (Some y) = Inr y" "or_reject x = Inr y \<longleftrightarrow> x = Some y"
  by (auto simp: or_reject_def split: option.splits)

lemma reject_unless_simps [simp]:
  "reject_unless True = Inr ()" "reject_unless False = Inl Rejected" "reject_unless b = Inr u \<longleftrightarrow> b"
  by (auto simp: reject_unless_def)

text \<open>\<open>map\<close> and \<open>collect\<close> on results, and \<open>try_fold\<close> that pushes to a vector.\<close>

fun map_res :: "('a \<Rightarrow> 'e + 'b) \<Rightarrow> 'a list \<Rightarrow> 'e + 'b list" where
  "map_res f [] = Inr []"
| "map_res f (x # xs) = and_then (f x) (\<lambda>y. and_then (map_res f xs) (\<lambda>ys. Inr (y # ys)))"

lemma map_res_Inr:
  "map_res f xs = Inr ys \<longleftrightarrow> list_all2 (\<lambda>x y. f x = Inr y) xs ys"
proof (induction xs arbitrary: ys)
  case (Cons x xs)
  then show ?case by (cases ys) (auto simp: and_then_Inr_iff)
qed auto

lemma map_res_cong [fundef_cong]:
  "xs = ys \<Longrightarrow> (\<And>x. x \<in> set ys \<Longrightarrow> f x = g x) \<Longrightarrow> map_res f xs = map_res g ys"
  by (induction xs arbitrary: ys) auto

section \<open>Atoms and lists\<close>

type_synonym cfg_vars = "string \<rightharpoonup> sexpr"

definition atom_of :: "cfg_vars \<Rightarrow> sexpr \<Rightarrow> string option cfg_res" where
  "atom_of vs e = (case sexpr_atom (Some vs) e of None \<Rightarrow> Inl NeverReturns | Some r \<Rightarrow> Inr r)"

definition list_of :: "cfg_vars \<Rightarrow> sexpr \<Rightarrow> sexpr list option cfg_res" where
  "list_of vs e = (case sexpr_list (Some vs) e of None \<Rightarrow> Inl NeverReturns | Some r \<Rightarrow> Inr r)"

definition need_atom :: "cfg_vars \<Rightarrow> sexpr \<Rightarrow> string cfg_res" where
  "need_atom vs e = and_then (atom_of vs e) or_reject"

definition need_list :: "cfg_vars \<Rightarrow> sexpr \<Rightarrow> sexpr list cfg_res" where
  "need_list vs e = and_then (list_of vs e) or_reject"

text \<open>Without variables (\<open>atom(None)\<close>, \<open>list(None)\<close>).\<close>

fun plain_atom :: "sexpr \<Rightarrow> string option" where
  "plain_atom (Atom s sp) = Some s"
| "plain_atom (SList es sp) = None"

fun plain_list :: "sexpr \<Rightarrow> sexpr list option" where
  "plain_list (Atom s sp) = None"
| "plain_list (SList es sp) = Some es"

lemma plain_atom_list: "sexpr_atom None e = Some (plain_atom e)" "sexpr_list None e = Some (plain_list e)"
  by (cases e; simp add: sexpr_atom.simps sexpr_list.simps)+

lemma of_list_simps [simp]:
  "atom_of vs (SList es sp) = Inr None" "list_of vs (SList es sp) = Inr (Some es)"
  by (simp_all add: atom_of_def list_of_def sexpr_atom.simps sexpr_list.simps)

lemma of_atom_simps [simp]:
  "take 1 s \<noteq> ''$'' \<Longrightarrow> atom_of vs (Atom s sp) = Inr (Some s)"
  "take 1 s \<noteq> ''$'' \<Longrightarrow> list_of vs (Atom s sp) = Inr None"
  by (simp_all add: atom_of_def list_of_def sexpr_atom.simps sexpr_list.simps)

definition check_first_expr :: "sexpr list \<Rightarrow> string \<Rightarrow> sexpr list cfg_res" where
  "check_first_expr es name =
     (case es of
        [] \<Rightarrow> Inl Rejected
      | e # es' \<Rightarrow> and_then (or_reject (plain_atom e)) (\<lambda>a. if a = name then Inr es' else Inl Rejected))"

section \<open>Numbers\<close>

text \<open>\<open>str::parse\<close> for an unsigned type with \<open>m\<close> values: a \<open>+\<close> may come first.\<close>

definition is_digit :: "char \<Rightarrow> bool" where
  "is_digit c \<longleftrightarrow> of_char c \<in> {48 .. 57 :: nat}"

definition digits_value :: "string \<Rightarrow> nat" where
  "digits_value s = fold (\<lambda>c n. 10 * n + (of_char c - 48)) s 0"

definition parse_number :: "nat \<Rightarrow> string \<Rightarrow> nat option" where
  "parse_number m s =
     (let ds = (if take 1 s = ''+'' then drop 1 s else s) in
      if ds \<noteq> [] \<and> list_all is_digit ds \<and> digits_value ds < m then Some (digits_value ds) else None)"

definition parse_u16 :: "cfg_vars \<Rightarrow> sexpr \<Rightarrow> u16 cfg_res" where
  "parse_u16 vs e =
     and_then (atom_of vs e) (\<lambda>a.
       or_reject (map_option of_nat (Option.bind a (parse_number (2 ^ 16)))))"

definition parse_non_zero_u16 :: "cfg_vars \<Rightarrow> sexpr \<Rightarrow> u16 cfg_res" where
  "parse_non_zero_u16 vs e =
     and_then (atom_of vs e) (\<lambda>a.
       case Option.bind a (parse_number (2 ^ 16)) of
         Some n \<Rightarrow> if 1 \<le> n then Inr (of_nat n) else Inl Rejected
       | None \<Rightarrow> Inl Rejected)"

definition parse_u8_with_range :: "cfg_vars \<Rightarrow> sexpr \<Rightarrow> u8 \<Rightarrow> u8 \<Rightarrow> u8 cfg_res" where
  "parse_u8_with_range vs e lo hi =
     and_then (atom_of vs e) (\<lambda>a.
       case Option.bind a (parse_number (2 ^ 8)) of
         Some n \<Rightarrow>
           if \<not> lo \<le> hi then Inl ParserPanic
           else if lo \<le> of_nat n \<and> of_nat n \<le> hi then Inr (of_nat n) else Inl Rejected
       | None \<Rightarrow> Inl Rejected)"

lemma parse_number_less: "parse_number m s = Some n \<Longrightarrow> n < m"
  by (auto simp: parse_number_def Let_def split: if_splits)

lemma parse_non_zero_u16_pos:
  assumes "parse_non_zero_u16 vs e = Inr t"
  shows "0 < t"
proof -
  obtain n where "1 \<le> n" "n < 65536" "t = of_nat n"
    using assms parse_number_less
    by (auto simp: parse_non_zero_u16_def and_then_Inr_iff split: option.splits if_splits bind_splits)
  then have "unat t = n" by (simp add: unat_of_nat)
  then show ?thesis using \<open>1 \<le> n\<close> by (auto simp: word_gt_0)
qed

section \<open>Lists of keys\<close>

definition parse_key_list :: "(string \<rightharpoonup> u16) \<Rightarrow> cfg_vars \<Rightarrow> sexpr \<Rightarrow> u16 list cfg_res" where
  "parse_key_list osc vs e =
     and_then (need_list vs e) (map_res (\<lambda>key. and_then (need_atom vs key) (\<lambda>a. or_reject (osc a))))"

section \<open>Prefixes of chords\<close>

text \<open>The symbols in UTF-8: the marks of the left and of the right side, and the modifiers.\<close>

definition LEFT_SIDE :: string where "LEFT_SIDE = [CHR 0xE2, CHR 0x80, CHR 0xB9]"
definition RIGHT_SIDE :: string where "RIGHT_SIDE = [CHR 0xE2, CHR 0x80, CHR 0xBA]"
definition SYM_SHIFT :: string where "SYM_SHIFT = [CHR 0xE2, CHR 0x87, CHR 0xA7]"
definition SYM_HELM :: string where "SYM_HELM = [CHR 0xE2, CHR 0x8E, CHR 0x88]"
definition SYM_CARET :: string where "SYM_CARET = [CHR 0xE2, CHR 0x8C, CHR 0x83]"
definition SYM_DIAMOND :: string where "SYM_DIAMOND = [CHR 0xE2, CHR 0x97, CHR 0x86]"
definition SYM_COMMAND :: string where "SYM_COMMAND = [CHR 0xE2, CHR 0x8C, CHR 0x98]"
definition SYM_FOUR :: string where "SYM_FOUR = [CHR 0xE2, CHR 0x9D, CHR 0x96]"
definition SYM_ALT :: string where "SYM_ALT = [CHR 0xE2, CHR 0x8E, CHR 0x87]"
definition SYM_OPTION :: string where "SYM_OPTION = [CHR 0xE2, CHR 0x8C, CHR 0xA5]"

lemmas symbol_defs = LEFT_SIDE_def RIGHT_SIDE_def SYM_SHIFT_def SYM_HELM_def SYM_CARET_def SYM_DIAMOND_def
  SYM_COMMAND_def SYM_FOUR_def SYM_ALT_def SYM_OPTION_def

definition KEYMODI :: "(string \<times> keycode) list" where
  "KEYMODI =
    [(''S-'', LShift), (LEFT_SIDE @ SYM_SHIFT, LShift), (SYM_SHIFT @ RIGHT_SIDE, RShift), (''RS-'', RShift),
     (''C-'', LCtrl), (LEFT_SIDE @ SYM_HELM, LCtrl), (LEFT_SIDE @ SYM_CARET, LCtrl),
     (SYM_HELM @ RIGHT_SIDE, RCtrl), (SYM_CARET @ RIGHT_SIDE, RCtrl), (''RC-'', RCtrl),
     (''M-'', LGui), (LEFT_SIDE @ SYM_DIAMOND, LGui), (LEFT_SIDE @ SYM_COMMAND, LGui),
     (LEFT_SIDE @ SYM_FOUR, LGui), (SYM_DIAMOND @ RIGHT_SIDE, RGui), (SYM_COMMAND @ RIGHT_SIDE, RGui),
     (SYM_FOUR @ RIGHT_SIDE, RGui), (''RM-'', RGui), (LEFT_SIDE @ SYM_ALT, LAlt), (''A-'', LAlt),
     (LEFT_SIDE @ SYM_OPTION, LAlt), (''AG-'', RAlt), (''RA-'', RAlt), (SYM_ALT @ RIGHT_SIDE, RAlt),
     (SYM_OPTION @ RIGHT_SIDE, RAlt), (SYM_HELM, LCtrl), (SYM_OPTION, LAlt), (SYM_ALT, LAlt),
     (SYM_DIAMOND, LGui), (SYM_COMMAND, LGui), (SYM_FOUR, LGui), (''O-'', KEY_OVERLAP)]"

text \<open>\<open>str::strip_prefix\<close>\<close>

definition strip_prefix :: "string \<Rightarrow> string \<Rightarrow> string option" where
  "strip_prefix p s = (if take (length p) s = p then Some (drop (length p) s) else None)"

text \<open>One pass over the table: every prefix is tried once, on what the previous ones have left.\<close>

fun mod_pass :: "(string \<times> keycode) list \<Rightarrow> keycode list \<Rightarrow> string \<Rightarrow> (keycode list \<times> string) cfg_res" where
  "mod_pass [] ks rem = Inr (ks, rem)"
| "mod_pass ((p, kc) # ps) ks rem =
     (case strip_prefix p rem of
        None \<Rightarrow> mod_pass ps ks rem
      | Some rem' \<Rightarrow> if kc \<in> set ks then Inl Rejected else mod_pass ps (ks @ [kc]) rem')"

lemma mod_pass_length: "mod_pass ps ks rem = Inr (ks', rem') \<Longrightarrow> length rem' \<le> length rem"
proof (induction ps arbitrary: ks rem)
  case (Cons p ps)
  obtain q kc where "p = (q, kc)" by (cases p)
  then show ?case using Cons
    by (auto simp: strip_prefix_def split: if_splits dest!: Cons.IH)
qed simp

lemma mod_pass_progress:
  assumes "mod_pass ps ks rem = Inr (ks', rem')" and "\<forall>(p, kc) \<in> set ps. p \<noteq> []"
  shows "length rem' < length rem \<or> (ks', rem') = (ks, rem)"
  using assms
proof (induction ps arbitrary: ks rem)
  case (Cons p ps)
  obtain q kc where p: "p = (q, kc)" by (cases p)
  show ?case
  proof (cases "strip_prefix q rem")
    case None
    then show ?thesis using Cons p by auto
  next
    case (Some r)
    then have "length r < length rem" using Cons.prems(2) p
      by (auto simp: strip_prefix_def split: if_splits)
         (metis diff_less length_0_conv length_greater_0_conv list.size(3) take_Nil)
    moreover have "length rem' \<le> length r"
      using Cons.prems(1) Some p by (auto dest: mod_pass_length split: if_splits)
    ultimately show ?thesis by simp
  qed
qed simp

lemma KEYMODI_nonempty: "\<forall>(p, kc) \<in> set KEYMODI. p \<noteq> []"
  by (simp add: KEYMODI_def symbol_defs)

text \<open>\<open>found_none\<close> is that the pass has left everything as it was.\<close>

function mod_prefixes :: "keycode list \<Rightarrow> string \<Rightarrow> (keycode list \<times> string) cfg_res" where
  "mod_prefixes ks rem =
     (case mod_pass KEYMODI ks rem of
        Inl e \<Rightarrow> Inl e
      | Inr (ks', rem') \<Rightarrow> if rem' = rem then Inr (ks', rem') else mod_prefixes ks' rem')"
  by auto
termination
proof (relation "measure (length \<circ> snd)", goal_cases)
  case (2 ks rem r ks' rem')
  then show ?case using mod_pass_progress [of KEYMODI ks rem ks' rem'] KEYMODI_nonempty by auto
qed simp

declare mod_prefixes.simps [simp del]

definition parse_mod_prefix :: "string \<Rightarrow> (keycode list \<times> string) cfg_res" where
  "parse_mod_prefix mods = mod_prefixes [] mods"

text \<open>The symbols of the right side are read only at the beginning of a pass: after \<open>A-\<close> the
  control symbol without a side is found first, and the mark of the side is left over.\<close>

lemma right_side_after_prefix:
  "parse_mod_prefix (SYM_HELM @ RIGHT_SIDE @ ''A-a'') = Inr ([RCtrl, LAlt], ''a'')"
  "parse_mod_prefix (''A-'' @ SYM_HELM @ RIGHT_SIDE @ ''a'') = Inr ([LAlt, LCtrl], RIGHT_SIDE @ ''a'')"
  by (simp_all add: parse_mod_prefix_def mod_prefixes.simps [of _ "_ # _"] KEYMODI_def symbol_defs
      strip_prefix_def keycode_defs KEY_OVERLAP_def)

end
