(* ===== verification/Variables.thy ===== *)
theory Variables
  imports Sexpr CfgHelpers
begin

text \<open>
  Variables (\<open>parser/src/cfg/vars.rs\<close>): \<open>defvar\<close>, and \<open>concat\<close> lists, which are replaced by the string of all
  atoms in them. A list that leads back to itself makes \<open>push_all_atoms\<close> recurse without end: that is the
  value \<open>None\<close>.
\<close>

section \<open>Strings\<close>

text \<open>\<open>trim_atom_quotes\<close> (\<open>parser/src/cfg/str_ext.rs\<close>)\<close>

definition strip_suffix :: "string \<Rightarrow> string \<Rightarrow> string option" where
  "strip_suffix p s = map_option rev (strip_prefix (rev p) (rev s))"

definition unwrap_or :: "'a option \<Rightarrow> 'a \<Rightarrow> 'a" where
  "unwrap_or x d = (case x of None \<Rightarrow> d | Some y \<Rightarrow> y)"

definition trim_atom_quotes :: "string \<Rightarrow> string" where
  "trim_atom_quotes s =
     (case strip_prefix [CHR ''r'', CHR ''#'', quote] s of
        Some a \<Rightarrow> unwrap_or (strip_suffix [quote, CHR ''#''] a) a
      | None \<Rightarrow> unwrap_or (strip_suffix [quote] (unwrap_or (strip_prefix [quote] s) s)) s)"

section \<open>Concatenation\<close>

partial_function (option) push_all_atoms :: "cfg_vars \<Rightarrow> sexpr list \<Rightarrow> string \<Rightarrow> string option" where
  "push_all_atoms vs es acc =
     (case es of
        [] \<Rightarrow> Some acc
      | e # es' \<Rightarrow>
          (case sexpr_atom (Some vs) e of
             None \<Rightarrow> None
           | Some (Some a) \<Rightarrow> push_all_atoms vs es' (acc @ trim_atom_quotes a)
           | Some None \<Rightarrow>
               (case sexpr_list (Some vs) e of
                  None \<Rightarrow> None
                | Some (Some l) \<Rightarrow> Option.bind (push_all_atoms vs l acc) (push_all_atoms vs es')
                | Some None \<Rightarrow> push_all_atoms vs es' acc)))"

definition is_concat :: "sexpr list \<Rightarrow> bool" where
  "is_concat l \<longleftrightarrow> l \<noteq> [] \<and> plain_atom (hd l) = Some ''concat''"

definition parse_list_var :: "cfg_vars \<Rightarrow> sexpr list \<Rightarrow> span \<Rightarrow> sexpr cfg_res" where
  "parse_list_var vs l sp =
     (if is_concat l then
        (case push_all_atoms vs (tl l) '''' of
           None \<Rightarrow> Inl NeverReturns
         | Some s \<Rightarrow> Inr (Atom s sp))
      else Inr (SList l sp))"

section \<open>\<open>defvar\<close>\<close>

fun parse_var_pairs :: "sexpr list \<Rightarrow> cfg_vars \<Rightarrow> cfg_vars cfg_res" where
  "parse_var_pairs [] vs = Inr vs"
| "parse_var_pairs [e] vs = Inl Rejected"
| "parse_var_pairs (e # v # es) vs =
     (case e of
        SList l sp \<Rightarrow> Inl Rejected
      | Atom name sp \<Rightarrow>
          and_then (case v of Atom s sp' \<Rightarrow> Inr v | SList l sp' \<Rightarrow> parse_list_var vs l sp') (\<lambda>x.
            if vs name \<noteq> None then Inl Rejected else parse_var_pairs es (vs(name \<mapsto> x))))"

definition parse_vars :: "sexpr list list \<Rightarrow> cfg_vars cfg_res" where
  "parse_vars exprs =
     fold_res (\<lambda>e vs. and_then (check_first_expr e ''defvar'') (\<lambda>es. parse_var_pairs es vs)) exprs Map.empty"

section \<open>Concatenation without variables\<close>

fun all_atoms :: "sexpr list \<Rightarrow> string list" where
  "all_atoms [] = []"
| "all_atoms (Atom s sp # es) = s # all_atoms es"
| "all_atoms (SList l sp # es) = all_atoms l @ all_atoms es"

lemma push_all_atoms_plain:
  "push_all_atoms Map.empty es acc = Some (acc @ concat (map trim_atom_quotes (all_atoms es)))"
  by (induction es arbitrary: acc rule: all_atoms.induct)
     (simp_all add: push_all_atoms.simps sexpr_atom.simps sexpr_list.simps)

lemma parse_list_var_plain:
  "parse_list_var Map.empty l sp =
     Inr (if is_concat l then Atom (concat (map trim_atom_quotes (all_atoms (tl l)))) sp else SList l sp)"
  by (simp add: parse_list_var_def push_all_atoms_plain)


end
