(* ===== verification/Templates.thy ===== *)
theory Templates
  imports Variables
begin

text \<open>
  Templates (\<open>parser/src/cfg/deftemplate.rs\<close>): the definitions are collected and validated, then every
  \<open>template-expand\<close> is replaced by the content of its template, with the parameters substituted and the
  conditionals evaluated, until a pass finds none. A pass collects its replacements and applies them
  from the last to the first. The number of nested calls and passes of \<open>expand\<close> is bounded by the
  argument \<open>n\<close>, because they may not end. Warnings and hints for the language server are left out.
\<close>

section \<open>Definitions\<close>

record template =
  tp_name :: string
  tp_vars :: "string list"
  tp_vars_substitute_names :: "string list"
  tp_content :: "sexpr list"

definition is_expand_word :: "string \<Rightarrow> bool" where
  "is_expand_word s \<longleftrightarrow> s = ''template-expand'' \<or> s = ''t!''"

fun visit_validate_all_atoms_peek_next ::
  "(string \<Rightarrow> sexpr option \<Rightarrow> unit cfg_res) \<Rightarrow> sexpr list \<Rightarrow> unit cfg_res" where
  "visit_validate_all_atoms_peek_next visit [] = Inr ()"
| "visit_validate_all_atoms_peek_next visit (Atom s sp # es) =
     and_then (visit s (if es = [] then None else Some (hd es))) (\<lambda>_.
       visit_validate_all_atoms_peek_next visit es)"
| "visit_validate_all_atoms_peek_next visit (SList l sp # es) =
     and_then (visit_validate_all_atoms_peek_next visit l) (\<lambda>_.
       visit_validate_all_atoms_peek_next visit es)"

definition validate_atom :: "template list \<Rightarrow> string \<Rightarrow> sexpr option \<Rightarrow> unit cfg_res" where
  "validate_atom tps s next_expr =
     (if s = ''deftemplate'' then Inl Rejected
      else if is_expand_word s then
        (case Option.bind next_expr plain_atom of
           Some name \<Rightarrow> reject_unless (\<exists>t\<in>set tps. tp_name t = name)
         | None \<Rightarrow> Inr ())
      else Inr ())"

definition nth_expr :: "nat \<Rightarrow> sexpr list \<Rightarrow> sexpr option" where
  "nth_expr i es = (if i < length es then Some (es ! i) else None)"

definition define_template :: "sexpr list \<Rightarrow> template list \<Rightarrow> template list cfg_res" where
  "define_template l tps =
     (if Option.bind (nth_expr 0 l) plain_atom \<noteq> Some ''deftemplate'' then Inr tps
      else
        and_then (or_reject (Option.bind (nth_expr 1 l) plain_atom)) (\<lambda>name.
          if \<exists>t\<in>set tps. tp_name t = name then Inl Rejected
          else
            and_then (or_reject (Option.bind (nth_expr 2 l) plain_list)) (\<lambda>v.
            and_then (map_res (\<lambda>e. or_reject (plain_atom e)) v) (\<lambda>vars.
            and_then (visit_validate_all_atoms_peek_next (validate_atom tps) (drop 3 l)) (\<lambda>_.
              Inr (tps @ [\<lparr>tp_name = name, tp_vars = vars,
                           tp_vars_substitute_names = map (\<lambda>v. ''$'' @ v) vars, tp_content = drop 3 l\<rparr>]))))))"

section \<open>Conditionals\<close>

definition strings_compare_replacement :: "string \<Rightarrow> sexpr list \<Rightarrow> sexpr list option cfg_res" where
  "strings_compare_replacement operation l =
     (if Option.bind (nth_expr 0 l) plain_atom = Some operation then
        and_then (or_reject (Option.bind (nth_expr 1 l) plain_atom)) (\<lambda>a.
        and_then (or_reject (Option.bind (nth_expr 2 l) plain_atom)) (\<lambda>b.
          if operation = ''if-equal'' \<and> a = b \<or> operation = ''if-not-equal'' \<and> a \<noteq> b
          then Inr (Some (drop 3 l)) else Inr (Some [])))
      else Inr None)"

definition string_list_compare_replacement :: "string \<Rightarrow> sexpr list \<Rightarrow> sexpr list option cfg_res" where
  "string_list_compare_replacement operation l =
     (if Option.bind (nth_expr 0 l) plain_atom = Some operation then
        and_then (or_reject (Option.bind (nth_expr 1 l) plain_atom)) (\<lambda>a.
        and_then (or_reject (Option.bind (nth_expr 2 l) plain_list)) (\<lambda>b.
          let in_list = a \<in> set (all_atoms b) in
          if operation = ''if-in-list'' \<and> in_list \<or> operation = ''if-not-in-list'' \<and> \<not> in_list
          then Inr (Some (drop 3 l)) else Inr (Some [])))
      else Inr None)"

definition conditional_replacement :: "sexpr list \<Rightarrow> sexpr list option cfg_res" where
  "conditional_replacement l =
     and_then (strings_compare_replacement ''if-equal'' l) (\<lambda>r. if r \<noteq> None then Inr r else
     and_then (strings_compare_replacement ''if-not-equal'' l) (\<lambda>r. if r \<noteq> None then Inr r else
     and_then (string_list_compare_replacement ''if-in-list'' l) (\<lambda>r. if r \<noteq> None then Inr r else
       string_list_compare_replacement ''if-not-in-list'' l)))"

text \<open>A replacement is the index of an expression and what takes its place.\<close>

type_synonym replacements = "(nat \<times> sexpr list) list"

definition apply_replacements :: "replacements \<Rightarrow> sexpr list \<Rightarrow> sexpr list" where
  "apply_replacements rs es =
     fold (\<lambda>(i, xs) es. take i es @ xs @ drop (Suc i) es) (rev (sort_key fst rs)) es"

text \<open>The loop over the expressions from index \<open>i\<close> on: the expressions with the lists in them changed,
  the replacements, and whether a list in them has changed.\<close>

fun evaluate_scan :: "nat \<Rightarrow> sexpr list \<Rightarrow> (sexpr list \<times> replacements \<times> bool) cfg_res" where
  "evaluate_scan i [] = Inr ([], [], False)"
| "evaluate_scan i (Atom s sp # es) =
     and_then (evaluate_scan (Suc i) es) (\<lambda>(es', rs, b). Inr (Atom s sp # es', rs, b))"
| "evaluate_scan i (SList l sp # es) =
     and_then (conditional_replacement l) (\<lambda>r.
       case r of
         Some xs \<Rightarrow>
           and_then (evaluate_scan (Suc i) es) (\<lambda>(es', rs, b). Inr (SList l sp # es', (i, xs) # rs, b))
       | None \<Rightarrow>
           and_then (evaluate_scan 0 l) (\<lambda>(l', rs', b').
           and_then (evaluate_scan (Suc i) es) (\<lambda>(es', rs, b).
             Inr (SList (apply_replacements rs' l') sp # es', rs, b \<or> b' \<or> rs' \<noteq> []))))"

definition evaluate_conditionals :: "sexpr list \<Rightarrow> (sexpr list \<times> bool) cfg_res" where
  "evaluate_conditionals es =
     and_then (evaluate_scan 0 es) (\<lambda>(es', rs, b). Inr (apply_replacements rs es', b \<or> rs \<noteq> []))"

section \<open>The replacements of a pass\<close>

text \<open>Replacements with increasing indices replace each expression by itself or by its replacement.\<close>

definition indices_from :: "nat \<Rightarrow> replacements \<Rightarrow> bool" where
  "indices_from i rs \<longleftrightarrow> sorted_wrt (<) (map fst rs) \<and> (\<forall>r\<in>set rs. i \<le> fst r)"

lemma indices_from_simps [simp]:
  "indices_from i []"
  "indices_from i ((j, xs) # rs) \<longleftrightarrow> i \<le> j \<and> indices_from (Suc j) rs"
  by (fastforce simp: indices_from_def Suc_le_eq)+

lemma indices_from_mono: "indices_from i rs \<Longrightarrow> j \<le> i \<Longrightarrow> indices_from j rs"
  by (fastforce simp: indices_from_def)

fun splice_from :: "nat \<Rightarrow> replacements \<Rightarrow> sexpr list \<Rightarrow> sexpr list" where
  "splice_from i rs [] = []"
| "splice_from i [] (e # es) = e # es"
| "splice_from i ((j, xs) # rs) (e # es) =
     (if j = i then xs @ splice_from (Suc i) rs es else e # splice_from (Suc i) ((j, xs) # rs) es)"

lemma splice_from_skip [simp]:
  "indices_from (Suc i) rs \<Longrightarrow> splice_from i rs (e # es) = e # splice_from (Suc i) rs es"
  by (cases rs; cases es) auto

definition replace_step :: "nat \<times> sexpr list \<Rightarrow> sexpr list \<Rightarrow> sexpr list" where
  "replace_step = (\<lambda>(i, xs) es. take i es @ xs @ drop (Suc i) es)"

lemma fold_replace_step:
  assumes "indices_from (length pre) rs" and "\<forall>r\<in>set rs. fst r < length pre + length es"
  shows "fold replace_step (rev rs) (pre @ es) = pre @ splice_from (length pre) rs es"
  using assms
proof (induction es arbitrary: pre rs)
  case Nil
  then have "rs = []" by (cases rs) (auto simp: indices_from_def)
  then show ?case by simp
next
  case (Cons e es)
  show ?case
  proof (cases "\<exists>xs rs'. rs = (length pre, xs) # rs'")
    case True
    then obtain xs rs' where rs: "rs = (length pre, xs) # rs'" by blast
    then have "fold replace_step (rev rs') ((pre @ [e]) @ es)
        = (pre @ [e]) @ splice_from (length (pre @ [e])) rs' es"
      using Cons.prems by (intro Cons.IH) auto
    then show ?thesis by (simp add: rs replace_step_def)
  next
    case False
    then have s: "indices_from (Suc (length pre)) rs" using Cons.prems(1)
      by (cases rs) (auto simp: le_less)
    then have "fold replace_step (rev rs) ((pre @ [e]) @ es)
        = (pre @ [e]) @ splice_from (length (pre @ [e])) rs es"
      using Cons.prems by (intro Cons.IH) auto
    then show ?thesis using s by simp
  qed
qed

lemma apply_replacements_splice:
  assumes "indices_from 0 rs" and "\<forall>r\<in>set rs. fst r < length es"
  shows "apply_replacements rs es = splice_from 0 rs es"
proof -
  have "sorted (map fst rs)" using assms(1) by (simp add: indices_from_def strict_sorted_iff)
  then have "sort_key fst rs = rs" by (rule sort_key_id_if_sorted)
  then show ?thesis
    using fold_replace_step [of "[]" rs es] assms
    by (simp add: apply_replacements_def replace_step_def)
qed

text \<open>What one evaluation of the conditionals does, without indices.\<close>

fun conditional_pass :: "sexpr list \<Rightarrow> (sexpr list \<times> bool) cfg_res" where
  "conditional_pass [] = Inr ([], False)"
| "conditional_pass (Atom s sp # es) =
     and_then (conditional_pass es) (\<lambda>(es', b). Inr (Atom s sp # es', b))"
| "conditional_pass (SList l sp # es) =
     and_then (conditional_replacement l) (\<lambda>r.
       case r of
         Some xs \<Rightarrow> and_then (conditional_pass es) (\<lambda>(es', b). Inr (xs @ es', True))
       | None \<Rightarrow>
           and_then (conditional_pass l) (\<lambda>(l', b').
           and_then (conditional_pass es) (\<lambda>(es', b). Inr (SList l' sp # es', b \<or> b'))))"

lemma evaluate_scan_pass:
  "conditional_pass es = map_sum id (\<lambda>(es', rs, b). (splice_from i rs es', b \<or> rs \<noteq> [])) (evaluate_scan i es)
   \<and> (\<forall>es' rs b. evaluate_scan i es = Inr (es', rs, b) \<longrightarrow>
        indices_from i rs \<and> length es' = length es \<and> (\<forall>r\<in>set rs. fst r < i + length es))"
proof (induction i es rule: evaluate_scan.induct)
  case (1 i)
  then show ?case by simp
next
  case (2 i s sp es)
  then show ?case
    by (cases "evaluate_scan (Suc i) es") (auto intro: indices_from_mono)
next
  case (3 i l sp es)
  have IHl: "conditional_pass l = map_sum id (\<lambda>(es', rs, b). (splice_from 0 rs es', b \<or> rs \<noteq> [])) (evaluate_scan 0 l)"
      "\<forall>es' rs b. evaluate_scan 0 l = Inr (es', rs, b) \<longrightarrow>
        indices_from 0 rs \<and> length es' = length l \<and> (\<forall>r\<in>set rs. fst r < length l)"
    using 3 by (auto simp: id_def)
  have IHe: "conditional_pass es = map_sum id (\<lambda>(es', rs, b). (splice_from (Suc i) rs es', b \<or> rs \<noteq> [])) (evaluate_scan (Suc i) es)"
      "\<forall>es' rs b. evaluate_scan (Suc i) es = Inr (es', rs, b) \<longrightarrow>
        indices_from (Suc i) rs \<and> length es' = length es \<and> (\<forall>r\<in>set rs. fst r < Suc i + length es)"
    using 3 by (auto simp: id_def)
  have a: "apply_replacements rs l' = splice_from 0 rs l'" if "evaluate_scan 0 l = Inr (l', rs, b)" for l' rs b
    using IHl(2) that by (intro apply_replacements_splice) auto
  consider f where "conditional_replacement l = Inl f" | "conditional_replacement l = Inr None"
    | xs where "conditional_replacement l = Inr (Some xs)"
    by (cases "conditional_replacement l") auto
  then show ?case
  proof cases
    case 2
    show ?thesis
    proof (cases "evaluate_scan 0 l")
      case (Inl f)
      then show ?thesis using 2 IHl(1) by simp
    next
      case (Inr x)
      then obtain l' rs' b' where l: "evaluate_scan 0 l = Inr (l', rs', b')" by (cases x) auto
      then have pl: "conditional_pass l = Inr (apply_replacements rs' l', b' \<or> rs' \<noteq> [])"
        using IHl(1) a by simp
      show ?thesis
      proof (cases "evaluate_scan (Suc i) es")
        case (Inl f)
        then show ?thesis using 2 l pl IHe(1) by simp
      next
        case (Inr y)
        then obtain es' rs b where e: "evaluate_scan (Suc i) es = Inr (es', rs, b)" by (cases y) auto
        then have "indices_from (Suc i) rs \<and> length es' = length es \<and> (\<forall>r\<in>set rs. fst r < Suc i + length es)"
          using IHe(2) by blast
        then show ?thesis using 2 l pl e IHe(1) by (auto intro: indices_from_mono)
      qed
    qed
  next
    case 3
    then show ?thesis using IHe
      by (cases "evaluate_scan (Suc i) es") (fastforce intro: indices_from_mono)+
  qed simp
qed

lemma evaluate_conditionals_pass: "evaluate_conditionals es = conditional_pass es"
proof -
  have "evaluate_conditionals es
      = map_sum id (\<lambda>(es', rs, b). (splice_from 0 rs es', b \<or> rs \<noteq> [])) (evaluate_scan 0 es)"
    using evaluate_scan_pass [of es 0]
    by (cases "evaluate_scan 0 es") (auto simp: evaluate_conditionals_def apply_replacements_splice)
  then show ?thesis using evaluate_scan_pass [of es 0] by simp
qed

section \<open>The loop over the conditionals\<close>

text \<open>A pass that replaces something makes the expressions smaller, so the loop ends.\<close>

fun exprs_size :: "sexpr list \<Rightarrow> nat" where
  "exprs_size [] = 0"
| "exprs_size (Atom s sp # es) = Suc (exprs_size es)"
| "exprs_size (SList l sp # es) = Suc (exprs_size l + exprs_size es)"

lemma exprs_size_append [simp]: "exprs_size (xs @ ys) = exprs_size xs + exprs_size ys"
  by (induction xs rule: exprs_size.induct) auto

lemma exprs_size_drop: "exprs_size (drop n xs) \<le> exprs_size xs"
proof -
  have "exprs_size xs = exprs_size (take n xs) + exprs_size (drop n xs)"
    by (metis append_take_drop_id exprs_size_append)
  then show ?thesis by simp
qed

lemma replacement_is_tail:
  "strings_compare_replacement operation l = Inr (Some xs) \<Longrightarrow> xs = drop 3 l \<or> xs = []"
  "string_list_compare_replacement operation l = Inr (Some xs) \<Longrightarrow> xs = drop 3 l \<or> xs = []"
  by (auto simp: strings_compare_replacement_def string_list_compare_replacement_def and_then_Inr_iff
      Let_def split: if_splits)

lemma conditional_is_tail:
  assumes "conditional_replacement l = Inr (Some xs)"
  shows "xs = drop 3 l \<or> xs = []"
  using assms replacement_is_tail [of _ l xs]
  by (auto simp: conditional_replacement_def and_then_Inr_iff split: if_splits)

lemma conditional_pass_size:
  "conditional_pass es = Inr (es', b) \<Longrightarrow>
     exprs_size es' \<le> exprs_size es \<and> (b \<longrightarrow> exprs_size es' < exprs_size es) \<and> (\<not> b \<longrightarrow> es' = es)"
proof (induction es arbitrary: es' b rule: conditional_pass.induct)
  case (3 l sp es)
  from 3(4) obtain r where r: "conditional_replacement l = Inr r"
    by (auto simp: and_then_Inr_iff)
  show ?case
  proof (cases r)
    case None
    with 3(4) r obtain l' b' es1 b1 where l: "conditional_pass l = Inr (l', b')"
      and e: "conditional_pass es = Inr (es1, b1)" "es' = SList l' sp # es1" "b = (b1 \<or> b')"
      by (auto simp: and_then_Inr_iff)
    show ?thesis using 3(1) [OF l] 3(2) [OF e(1)] e by auto
  next
    case (Some xs)
    with 3(4) r obtain es1 b1 where e: "conditional_pass es = Inr (es1, b1)" "es' = xs @ es1" "b"
      by (auto simp: and_then_Inr_iff)
    have "exprs_size xs \<le> exprs_size l"
      using conditional_is_tail [of l xs] exprs_size_drop [of 3 l] r Some by auto
    then show ?thesis using 3(2) [OF e(1)] e by auto
  qed
qed (auto simp: and_then_Inr_iff)

function evaluate_all_conditionals :: "sexpr list \<Rightarrow> sexpr list cfg_res" where
  "evaluate_all_conditionals es =
     (case evaluate_conditionals es of
        Inl f \<Rightarrow> Inl f
      | Inr (es', b) \<Rightarrow> if b then evaluate_all_conditionals es' else Inr es')"
  by auto
termination
  by (relation "measure exprs_size") (auto simp: evaluate_conditionals_pass dest!: conditional_pass_size)

declare evaluate_all_conditionals.simps [simp del]

section \<open>Expansion\<close>

text \<open>\<open>visit_mut_all_atoms\<close> with the substitution of the variables: the first name counts.\<close>

fun index_of :: "'a \<Rightarrow> 'a list \<Rightarrow> nat option" where
  "index_of x [] = None"
| "index_of x (y # ys) = (if x = y then Some 0 else map_option Suc (index_of x ys))"

fun substitute :: "string list \<Rightarrow> sexpr list \<Rightarrow> sexpr list \<Rightarrow> sexpr list" where
  "substitute names args [] = []"
| "substitute names args (Atom s sp # es) =
     (case index_of s names of None \<Rightarrow> Atom s sp | Some i \<Rightarrow> args ! i) # substitute names args es"
| "substitute names args (SList l sp # es) =
     SList (substitute names args l) sp # substitute names args es"

text \<open>\<open>visit_mut_all_lists\<close> with \<open>parse_list_var\<close>: a list is visited again until it does not change.\<close>

fun concat_lists :: "sexpr list \<Rightarrow> sexpr list cfg_res" where
  "concat_lists [] = Inr []"
| "concat_lists (Atom s sp # es) = and_then (concat_lists es) (\<lambda>es'. Inr (Atom s sp # es'))"
| "concat_lists (SList l sp # es) =
     and_then (parse_list_var Map.empty l sp) (\<lambda>e.
     and_then (case e of Atom s sp' \<Rightarrow> Inr e | SList l' sp' \<Rightarrow> and_then (concat_lists l) (\<lambda>l'. Inr (SList l' sp)))
       (\<lambda>e'. and_then (concat_lists es) (\<lambda>es'. Inr (e' # es'))))"

definition is_expand :: "sexpr list \<Rightarrow> bool" where
  "is_expand l \<longleftrightarrow> (\<exists>s. Option.bind (nth_expr 0 l) plain_atom = Some s \<and> is_expand_word s)"

lemma is_expand_code [code]:
  "is_expand l \<longleftrightarrow> (case Option.bind (nth_expr 0 l) plain_atom of None \<Rightarrow> False | Some s \<Rightarrow> is_expand_word s)"
  by (auto simp: is_expand_def split: option.splits)

definition instantiate_template :: "template \<Rightarrow> sexpr list \<Rightarrow> sexpr list cfg_res" where
  "instantiate_template t args =
     and_then (concat_lists (substitute (tp_vars_substitute_names t) args (tp_content t)))
       evaluate_all_conditionals"

definition expand_call :: "template list \<Rightarrow> sexpr list \<Rightarrow> sexpr list cfg_res" where
  "expand_call tps l =
     and_then (or_reject (Option.bind (nth_expr 1 l) plain_atom)) (\<lambda>name.
     and_then (or_reject (find (\<lambda>t. tp_name t = name) tps)) (\<lambda>t.
       if length l - 2 \<noteq> length (tp_vars t) then Inl Rejected
       else instantiate_template t (drop 2 l)))"

fun expand_scan ::
  "(sexpr list \<Rightarrow> sexpr list cfg_res) \<Rightarrow> template list \<Rightarrow> nat \<Rightarrow> sexpr list
     \<Rightarrow> (sexpr list \<times> replacements) cfg_res" where
  "expand_scan rec tps i [] = Inr ([], [])"
| "expand_scan rec tps i (Atom s sp # es) =
     and_then (expand_scan rec tps (Suc i) es) (\<lambda>(es', rs). Inr (Atom s sp # es', rs))"
| "expand_scan rec tps i (SList l sp # es) =
     (if is_expand l then
        and_then (expand_call tps l) (\<lambda>xs.
        and_then (expand_scan rec tps (Suc i) es) (\<lambda>(es', rs). Inr (SList l sp # es', (i, xs) # rs)))
      else
        and_then (rec l) (\<lambda>l'.
        and_then (expand_scan rec tps (Suc i) es) (\<lambda>(es', rs). Inr (SList l' sp # es', rs))))"

fun expand :: "nat \<Rightarrow> template list \<Rightarrow> sexpr list \<Rightarrow> sexpr list cfg_res" where
  "expand 0 tps es = Inl NeverReturns"
| "expand (Suc n) tps es =
     and_then (expand_scan (expand n tps) tps 0 es) (\<lambda>(es', rs).
       if rs = [] then Inr es' else expand n tps (apply_replacements rs es'))"

definition expand_templates :: "nat \<Rightarrow> spanned_list list \<Rightarrow> spanned_list list cfg_res" where
  "expand_templates n tls =
     and_then (fold_res (\<lambda>(l, sp). define_template l) tls []) (\<lambda>tps.
     and_then (expand n tps (map (\<lambda>(l, sp). SList l sp) tls))
       (map_res (\<lambda>e. case e of Atom s sp \<Rightarrow> Inl Rejected | SList l sp \<Rightarrow> Inr (l, sp))))"

end
