(* ===== verification/TemplateFacts.thy ===== *)
theory TemplateFacts
  imports Templates "HOL-Library.Sublist" "HOL-Library.Multiset_Order" "HOL-Library.Product_Lexorder"
begin

text \<open>
  Properties of templates: the expansion ends, and gives what expanding every call by itself gives,
  when the words that call templates occur only where they call one; otherwise it may not end.
\<close>

section \<open>The meaning of an expansion\<close>

definition both :: "sexpr list cfg_res \<Rightarrow> sexpr list cfg_res \<Rightarrow> sexpr list cfg_res" where
  "both r r' = (case (r, r') of (Inr xs, Inr ys) \<Rightarrow> Inr (xs @ ys) | _ \<Rightarrow> Inl Rejected)"

text \<open>Every call is replaced by the expansion of the template's instance, and every other list is
  expanded in its place; the whole is rejected if a part is.\<close>

inductive expands :: "template list \<Rightarrow> sexpr \<Rightarrow> sexpr list cfg_res \<Rightarrow> bool"
  and expands_all :: "template list \<Rightarrow> sexpr list \<Rightarrow> sexpr list cfg_res \<Rightarrow> bool" for tps where
  atom: "expands tps (Atom s sp) (Inr [Atom s sp])"
| inner: "\<not> is_expand l \<Longrightarrow> expands_all tps l r \<Longrightarrow> expands tps (SList l sp) (map_sum id (\<lambda>l'. [SList l' sp]) r)"
| call: "is_expand l \<Longrightarrow> expand_call tps l = Inr xs \<Longrightarrow> expands_all tps xs r \<Longrightarrow> expands tps (SList l sp) r"
| bad_call: "is_expand l \<Longrightarrow> expand_call tps l = Inl f \<Longrightarrow> expands tps (SList l sp) (Inl f)"
| none: "expands_all tps [] (Inr [])"
| more: "expands tps e r \<Longrightarrow> expands_all tps es r' \<Longrightarrow> expands_all tps (e # es) (both r r')"

inductive_cases expands_AtomE: "expands tps (Atom s sp) r"
inductive_cases expands_SListE: "expands tps (SList l sp) r"
inductive_cases expands_all_NilE: "expands_all tps [] r"
inductive_cases expands_all_ConsE: "expands_all tps (e # es) r"

lemma expands_unique:
  "expands tps e r \<Longrightarrow> expands tps e r' \<Longrightarrow> r = r'"
  "expands_all tps es r \<Longrightarrow> expands_all tps es r' \<Longrightarrow> r = r'"
proof (induction arbitrary: r' and r' rule: expands_expands_all.inducts)
  case (atom s sp)
  then show ?case by (rule expands_AtomE) simp
next
  case none
  then show ?case by (rule expands_all_NilE) simp
next
  case (inner l r sp)
  from inner.prems show ?case by (rule expands_SListE) (use inner.IH inner(1) in blast)+
next
  case (call l xs r sp)
  from call.prems show ?case
  proof (rule expands_SListE)
    fix xs' assume "expand_call tps l = Inr xs'" "expands_all tps xs' r'"
    then show ?thesis using call(2) call.IH by simp
  qed (use call(1,2) in auto)
next
  case (bad_call l f sp)
  from bad_call.prems show ?case by (rule expands_SListE) (use bad_call(1,2) in auto)
next
  case (more e r es r')
  from more.prems show ?case by (rule expands_all_ConsE) (use more.IH in blast)
qed

section \<open>Where the words that call templates may occur\<close>

definition is_reserved :: "string \<Rightarrow> bool" where
  "is_reserved s \<longleftrightarrow> is_expand_word s \<or> s = ''concat''"

text \<open>No string with this piece is one of these words.\<close>

definition distinctive :: "string \<Rightarrow> bool" where
  "distinctive p \<longleftrightarrow> take 1 p \<noteq> ''$'' \<and>
     (\<forall>w\<in>{''template-expand'', ''t!'', ''concat''}. \<not> sublist (trim_atom_quotes p) w)"

definition starts_with_atom :: "(string \<Rightarrow> bool) \<Rightarrow> sexpr list \<Rightarrow> bool" where
  "starts_with_atom P l \<longleftrightarrow> (\<exists>s. Option.bind (nth_expr 0 l) plain_atom = Some s \<and> P s)"

text \<open>
  A call names its template; \<open>concat\<close> has a distinctive piece; and elsewhere these words do not
  occur.
\<close>

fun ok_exprs :: "sexpr list \<Rightarrow> bool" where
  "ok_exprs [] = True"
| "ok_exprs (Atom s sp # es) = (\<not> is_reserved s \<and> ok_exprs es)"
| "ok_exprs (SList l sp # es) =
     ((case l of
         Atom s sp' # l' \<Rightarrow>
           if is_expand_word s then
             (case l' of Atom name sp'' # args \<Rightarrow> take 1 name \<noteq> ''$'' \<and> ok_exprs args | _ \<Rightarrow> False)
           else if s = ''concat'' then
             (\<exists>e\<in>set l'. case e of Atom p sp'' \<Rightarrow> distinctive p | SList m sp'' \<Rightarrow> False) \<and> ok_exprs l'
           else ok_exprs l
       | _ \<Rightarrow> ok_exprs l) \<and> ok_exprs es)"

text \<open>The lists of an expression that is in order.\<close>

definition ok_list :: "sexpr list \<Rightarrow> bool" where
  "ok_list l \<longleftrightarrow> ok_exprs [SList l span_default]"

lemma ok_exprs_SList: "ok_exprs (SList l sp # es) \<longleftrightarrow> ok_list l \<and> ok_exprs es"
  by (simp add: ok_list_def)

lemma ok_listE:
  assumes "ok_list l"
  obtains (call) s sp name sp' args where "l = Atom s sp # Atom name sp' # args" "is_expand_word s"
      "take 1 name \<noteq> ''$''" "ok_exprs args"
    | (concat) sp l' p sp' where "l = Atom ''concat'' sp # l'" "Atom p sp' \<in> set l'" "distinctive p" "ok_exprs l'"
    | (plain) "ok_exprs l"
proof (cases l rule: ok_exprs.cases)
  case (2 s sp l')
  consider "is_expand_word s" | "s = ''concat''" | "\<not> is_reserved s" by (auto simp: is_reserved_def)
  then show ?thesis
  proof cases
    case 1
    then show ?thesis using assms 2 call
      by (cases l' rule: ok_exprs.cases) (auto simp: ok_list_def)
  next
    case 2
    then obtain e where e: "e \<in> set l'" "case e of Atom p sp'' \<Rightarrow> distinctive p | SList m sp'' \<Rightarrow> False" "ok_exprs l'"
      using assms \<open>l = Atom s sp # l'\<close> by (auto simp: ok_list_def is_expand_word_def)
    then obtain p sp' where "e = Atom p sp'" "distinctive p" by (cases e rule: sexpr.exhaust) simp_all
    then show ?thesis using 2 \<open>l = Atom s sp # l'\<close> e concat by blast
  next
    case 3
    then show ?thesis using assms 2 plain by (auto simp: ok_list_def is_reserved_def)
  qed
qed (use assms plain in \<open>auto simp: ok_list_def\<close>)

lemma is_expand_word_concat [simp]: "\<not> is_expand_word ''concat''"
  by (simp add: is_expand_word_def)

lemma ok_list_call: "is_expand_word s \<Longrightarrow>
    ok_list (Atom s sp # Atom name sp' # args) \<longleftrightarrow> take 1 name \<noteq> ''$'' \<and> ok_exprs args"
  by (simp add: ok_list_def)

lemma ok_list_concat: "ok_list (Atom ''concat'' sp # l) \<longleftrightarrow>
    (\<exists>p sp'. Atom p sp' \<in> set l \<and> distinctive p) \<and> ok_exprs l"
proof -
  have "(\<exists>e\<in>set l. case e of Atom p sp'' \<Rightarrow> distinctive p | SList m sp'' \<Rightarrow> False)
      \<longleftrightarrow> (\<exists>p sp'. Atom p sp' \<in> set l \<and> distinctive p)"
    by (rule iffI; elim bexE exE conjE; split sexpr.splits) auto
  then show ?thesis by (simp add: ok_list_def)
qed

lemma ok_list_plain: "ok_exprs l \<Longrightarrow> ok_list l"
  by (cases l rule: ok_exprs.cases) (auto simp: ok_list_def is_reserved_def)

lemma ok_exprs_append [simp]: "ok_exprs (xs @ ys) \<longleftrightarrow> ok_exprs xs \<and> ok_exprs ys"
  by (induction xs rule: ok_exprs.induct) (auto simp: ok_exprs_SList simp del: ok_exprs.simps(3))

lemma ok_exprs_drop: "ok_exprs xs \<Longrightarrow> ok_exprs (drop n xs)"
  by (metis append_take_drop_id ok_exprs_append)

lemma ok_exprs_nth: "ok_exprs xs \<Longrightarrow> i < length xs \<Longrightarrow> ok_exprs [xs ! i]"
  by (metis append_Cons append_Nil id_take_nth_drop ok_exprs_append)

declare ok_exprs.simps(3) [simp del]
declare ok_exprs_SList [simp]

lemma plain_not_expand: "ok_exprs l \<Longrightarrow> \<not> is_expand l"
  by (cases l rule: ok_exprs.cases) (auto simp: is_expand_def nth_expr_def is_reserved_def)

lemma plain_not_concat: "ok_exprs l \<Longrightarrow> \<not> is_concat l"
  by (cases l rule: ok_exprs.cases) (auto simp: is_concat_def is_reserved_def)

section \<open>Instances of templates are in order\<close>

lemma index_of_less: "index_of x xs = Some i \<Longrightarrow> i < length xs"
  by (induction xs arbitrary: i) (auto split: if_splits)

lemma index_of_None: "index_of x xs = None \<longleftrightarrow> x \<notin> set xs"
  by (induction xs) auto

definition var_names :: "string list \<Rightarrow> bool" where
  "var_names names \<longleftrightarrow> (\<forall>s\<in>set names. take 1 s = ''$'')"

lemma not_var_name: "var_names names \<Longrightarrow> take 1 s \<noteq> ''$'' \<Longrightarrow> index_of s names = None"
  by (auto simp: index_of_None var_names_def)

lemma reserved_no_var: "is_reserved s \<Longrightarrow> take 1 s \<noteq> ''$''"
  by (auto simp: is_reserved_def is_expand_word_def)

lemma in_substitute: "Atom p sp \<in> set es \<Longrightarrow> index_of p names = None \<Longrightarrow> Atom p sp \<in> set (substitute names args es)"
  by (induction es rule: ok_exprs.induct) auto

lemma ok_induct [consumes 1, case_names none atom call concat plain]:
  assumes "ok_exprs es" and "P []"
    and "\<And>s sp es. \<not> is_reserved s \<Longrightarrow> ok_exprs es \<Longrightarrow> P es \<Longrightarrow> P (Atom s sp # es)"
    and "\<And>s sp name sp' args sp'' es. is_expand_word s \<Longrightarrow> take 1 name \<noteq> ''$'' \<Longrightarrow> ok_exprs args \<Longrightarrow> P args
           \<Longrightarrow> ok_exprs es \<Longrightarrow> P es \<Longrightarrow> P (SList (Atom s sp # Atom name sp' # args) sp'' # es)"
    and "\<And>sp l p sp' sp'' es. Atom p sp' \<in> set l \<Longrightarrow> distinctive p \<Longrightarrow> ok_exprs l \<Longrightarrow> P l
           \<Longrightarrow> ok_exprs es \<Longrightarrow> P es \<Longrightarrow> P (SList (Atom ''concat'' sp # l) sp'' # es)"
    and "\<And>l sp es. ok_exprs l \<Longrightarrow> P l \<Longrightarrow> ok_exprs es \<Longrightarrow> P es \<Longrightarrow> P (SList l sp # es)"
  shows "P es"
  using assms(1)
proof (induction es rule: measure_induct_rule [of exprs_size])
  case (less es)
  show ?case
  proof (cases es rule: ok_exprs.cases)
    case (2 s sp es')
    then show ?thesis using less assms(3) by simp
  next
    case (3 l sp es')
    then have l: "ok_list l" and es': "ok_exprs es'" "P es'" using less by simp_all
    from l show ?thesis
    proof (cases rule: ok_listE)
      case (call s sp' name sp'' args)
      then show ?thesis using less.IH [of args] es' assms(4) 3 by simp
    next
      case (concat sp' l' p sp'')
      then show ?thesis using less.IH [of l'] es' assms(5) 3 by simp
    next
      case plain
      then show ?thesis using less.IH [of l] es' assms(6) 3 by simp
    qed
  qed (use assms(2) in simp)
qed

text \<open>How deep calls of template number \<open>j\<close> are nested. Unknown templates come after the known ones.\<close>

definition rank :: "template list \<Rightarrow> string \<Rightarrow> nat" where
  "rank tps name = (case index_of name (map tp_name tps) of None \<Rightarrow> length tps | Some i \<Rightarrow> i)"

definition called :: "template list \<Rightarrow> sexpr list \<Rightarrow> nat option" where
  "called tps l =
     (if is_expand l then map_option (rank tps) (Option.bind (nth_expr 1 l) plain_atom) else None)"

fun depth :: "template list \<Rightarrow> nat \<Rightarrow> sexpr list \<Rightarrow> nat" where
  "depth tps j [] = 0"
| "depth tps j (Atom s sp # es) = depth tps j es"
| "depth tps j (SList l sp # es) =
     max ((if called tps l = Some j then 1 else 0) + depth tps j l) (depth tps j es)"

lemma depth_append [simp]: "depth tps j (xs @ ys) = max (depth tps j xs) (depth tps j ys)"
  by (induction xs rule: ok_exprs.induct) auto

lemma depth_drop: "depth tps j (drop n xs) \<le> depth tps j xs"
  by (metis append_take_drop_id depth_append max.cobounded2)

lemma depth_nth: "i < length xs \<Longrightarrow> depth tps j [xs ! i] \<le> depth tps j xs"
proof -
  assume "i < length xs"
  then have "xs = take i xs @ [xs ! i] @ drop (Suc i) xs" by (simp add: id_take_nth_drop)
  then show ?thesis by (metis depth_append max.cobounded1 max.cobounded2 max.coboundedI2)
qed

lemma is_expand_simps [simp]:
  "is_expand (Atom s sp # es) \<longleftrightarrow> is_expand_word s" "\<not> is_expand []" "\<not> is_expand (SList l sp # es)"
  by (simp_all add: is_expand_def nth_expr_def)

lemma called_simps [simp]:
  "is_expand_word s \<Longrightarrow> called tps (Atom s sp # Atom name sp' # args) = Some (rank tps name)"
  "\<not> is_expand l \<Longrightarrow> called tps l = None"
  by (simp_all add: called_def nth_expr_def)

lemma reserved_simps [simp]:
  "is_expand_word s \<Longrightarrow> is_reserved s" "is_reserved ''concat''" "is_expand_word s \<Longrightarrow> s \<noteq> ''concat''"
  by (auto simp: is_reserved_def is_expand_word_def)

lemma not_reserved [simp]: "\<not> is_reserved s \<Longrightarrow> \<not> is_expand_word s"
  by (auto simp: is_reserved_def)

lemma called_plain [simp]: "ok_exprs l \<Longrightarrow> called tps l = None"
  by (simp add: plain_not_expand)

lemma substitute_ok:
  assumes "var_names names" and "length args = length names" and "ok_exprs args"
    and "ok_exprs es"
  shows "ok_exprs (substitute names args es)
    \<and> (depth tps j es = 0 \<longrightarrow> depth tps j (substitute names args es) \<le> depth tps j args)"
  using assms(4)
proof (induction rule: ok_induct)
  case (atom s sp es)
  show ?case
  proof (cases "index_of s names")
    case None
    then show ?thesis using atom by simp
  next
    case (Some i)
    then have "i < length args" using index_of_less assms(2) by fastforce
    then have "ok_exprs ([args ! i] @ substitute names args es)"
      "depth tps j [args ! i] \<le> depth tps j args"
      using assms(3) atom.IH by (simp_all only: ok_exprs_append ok_exprs_nth depth_nth simp_thms)
    moreover have "substitute names args (Atom s sp # es) = [args ! i] @ substitute names args es"
      using Some by simp
    ultimately show ?thesis using atom.IH by (simp only: depth_append) simp
  qed
next
  case (call s sp name sp' args' sp'' es)
  have "index_of s names = None" "index_of name names = None"
    using assms(1) call.hyps reserved_no_var not_var_name by simp_all
  then show ?case using call by (simp add: ok_list_call)
next
  case (concat sp l p sp' sp'' es)
  have "index_of ''concat'' names = None" "index_of p names = None"
    using assms(1) concat.hyps not_var_name by (simp_all add: distinctive_def)
  then have "substitute names args (Atom ''concat'' sp # l) = Atom ''concat'' sp # substitute names args l"
    "Atom p sp' \<in> set (substitute names args l)"
    using in_substitute concat.hyps(1) by simp_all
  then show ?case using concat by (auto simp: ok_list_concat)
next
  case (plain l sp es)
  then show ?case by (auto simp: ok_list_plain)
qed simp

lemma concat_with_piece:
  assumes "Atom p sp \<in> set l" and "distinctive p"
  shows "\<not> is_reserved (concat (map trim_atom_quotes (all_atoms l)))"
proof -
  have "p \<in> set (all_atoms l)" using assms(1) by (induction l rule: all_atoms.induct) auto
  then obtain xs ys where "all_atoms l = xs @ p # ys" by (meson split_list)
  then have "sublist (trim_atom_quotes p) (concat (map trim_atom_quotes (all_atoms l)))"
    by (auto simp: sublist_def)
  then show ?thesis using assms(2)
    by (auto simp: distinctive_def is_reserved_def is_expand_word_def)
qed

lemma is_concat_simps [simp]:
  "is_concat (Atom s sp # l) \<longleftrightarrow> s = ''concat''" "\<not> is_concat []" "\<not> is_concat (SList l' sp # l)"
  by (simp_all add: is_concat_def)

lemma concat_lists_ok:
  "ok_exprs es \<Longrightarrow> \<exists>es'. concat_lists es = Inr es' \<and> ok_exprs es' \<and> depth tps j es' \<le> depth tps j es"
proof (induction rule: ok_induct)
  case (call s sp name sp' args' sp'' es)
  then show ?case by (auto simp: parse_list_var_plain ok_list_call)
next
  case (concat sp l p sp' sp'' es)
  then show ?case using concat_with_piece by (auto simp: parse_list_var_plain)
next
  case (plain l sp es)
  then show ?case by (auto simp: parse_list_var_plain plain_not_concat ok_list_plain)
qed auto

lemma conditional_head:
  assumes "Option.bind (nth_expr 0 l) plain_atom
    \<notin> Some ` {''if-equal'', ''if-not-equal'', ''if-in-list'', ''if-not-in-list''}"
  shows "conditional_replacement l = Inr None"
  using assms by (auto simp: conditional_replacement_def strings_compare_replacement_def
      string_list_compare_replacement_def)

lemma conditional_errors: "conditional_replacement l = Inl f \<Longrightarrow> f = Rejected"
  by (auto simp: conditional_replacement_def strings_compare_replacement_def or_reject_def Let_def
      string_list_compare_replacement_def and_then_Inl_iff split: if_splits option.splits)

definition rejected_or :: "('a \<Rightarrow> bool) \<Rightarrow> 'a cfg_res \<Rightarrow> bool" where
  "rejected_or P r \<longleftrightarrow> (case r of Inl f \<Rightarrow> f = Rejected | Inr x \<Rightarrow> P x)"

lemma rejected_or_simps [simp]:
  "rejected_or P (Inl f) \<longleftrightarrow> f = Rejected" "rejected_or P (Inr x) \<longleftrightarrow> P x"
  by (simp_all add: rejected_or_def)

lemma rejected_or_and_then:
  "rejected_or P m \<Longrightarrow> (\<And>x. P x \<Longrightarrow> rejected_or Q (f x)) \<Longrightarrow> rejected_or Q (and_then m f)"
  by (cases m) auto

lemma conditional_pass_ok:
  "ok_exprs es \<Longrightarrow>
     rejected_or (\<lambda>(es', b). ok_exprs es' \<and> (\<forall>j. depth tps j es' \<le> depth tps j es)) (conditional_pass es)"
proof (induction rule: ok_induct)
  case (atom s sp es)
  then show ?case by (auto intro!: rejected_or_and_then [OF atom.IH])
next
  case (call s sp name sp' args sp'' es)
  have "conditional_replacement (Atom s sp # Atom name sp' # args) = Inr None"
    using call.hyps(1) by (intro conditional_head) (auto simp: nth_expr_def is_expand_word_def)
  then show ?case
    using call.IH call.hyps
    by (cases "conditional_pass args"; cases "conditional_pass es")
       (auto simp: ok_list_call simp del: max.bounded_iff intro!: max.mono)
next
  case (concat sp l p sp' sp'' es)
  have c: "conditional_replacement (Atom ''concat'' sp # l) = Inr None"
    by (intro conditional_head) (auto simp: nth_expr_def)
  have "Atom p sp' \<in> set l'" if "conditional_pass l = Inr (l', b)" for l' b
    using that concat.hyps(1)
    by (induction l arbitrary: l' b rule: conditional_pass.induct)
       (auto simp: and_then_Inr_iff split: option.splits)
  then have "ok_list (Atom ''concat'' sp # l')" if "conditional_pass l = Inr (l', b)" "ok_exprs l'" for l' b
    using that concat.hyps(2) by (auto simp: ok_list_concat)
  then show ?case
    using c concat.IH concat.hyps
    by (cases "conditional_pass l"; cases "conditional_pass es")
       (auto simp del: max.bounded_iff intro!: max.mono)
next
  case (plain l sp es)
  show ?case
  proof (cases "conditional_replacement l")
    case (Inl f)
    then show ?thesis using conditional_errors by simp
  next
    case (Inr r)
    show ?thesis
    proof (cases r)
      case None
      then show ?thesis using Inr plain
        by (cases "conditional_pass l"; cases "conditional_pass es")
           (auto simp: ok_list_plain simp del: max.bounded_iff intro!: max.mono)
    next
      case (Some xs)
      have "ok_exprs xs" "depth tps j xs \<le> depth tps j l" for j
        using conditional_is_tail [of l xs] ok_exprs_drop [OF plain.hyps(1), of 3] depth_drop [of tps j 3 l]
          Inr Some by auto
      then show ?thesis using Inr Some plain
        by (cases "conditional_pass es") (auto simp: plain_not_expand simp del: max.bounded_iff intro!: max.mono)
    qed
  qed
qed simp

lemma evaluate_all_ok:
  "ok_exprs es \<Longrightarrow>
     rejected_or (\<lambda>es'. ok_exprs es' \<and> (\<forall>j. depth tps j es' \<le> depth tps j es)) (evaluate_all_conditionals es)"
proof (induction es rule: evaluate_all_conditionals.induct)
  case (1 es)
  show ?case
  proof (cases "conditional_pass es")
    case (Inl f)
    then show ?thesis using conditional_pass_ok [OF 1(2), of tps]
      by (simp add: evaluate_all_conditionals.simps [of es] evaluate_conditionals_pass)
  next
    case (Inr x)
    then obtain es' b where x: "conditional_pass es = Inr (es', b)" by (cases x) auto
    then have ok: "ok_exprs es'" "\<And>j. depth tps j es' \<le> depth tps j es"
      using conditional_pass_ok [OF 1(2), of tps] by auto
    have e: "evaluate_all_conditionals es = (if b then evaluate_all_conditionals es' else Inr es')"
      by (simp add: evaluate_all_conditionals.simps [of es] evaluate_conditionals_pass x)
    show ?thesis
    proof (cases b)
      case True
      then have "rejected_or (\<lambda>es''. ok_exprs es'' \<and> (\<forall>j. depth tps j es'' \<le> depth tps j es'))
          (evaluate_all_conditionals es')"
        using 1(1) [of "(es', b)" es' b] x ok by (simp add: evaluate_conditionals_pass)
      then show ?thesis using e True ok(2)
        by (cases "evaluate_all_conditionals es'") (auto intro: order_trans)
    next
      case False
      then show ?thesis using e ok by simp
    qed
  qed
qed

lemma instantiate_ok:
  assumes "var_names (tp_vars_substitute_names t)" and "length args = length (tp_vars_substitute_names t)"
    and "ok_exprs args" and "ok_exprs (tp_content t)"
  shows "rejected_or (\<lambda>xs. ok_exprs xs \<and>
      (\<forall>j. depth tps j (tp_content t) = 0 \<longrightarrow> depth tps j xs \<le> depth tps j args)) (instantiate_template t args)"
proof -
  let ?s = "substitute (tp_vars_substitute_names t) args (tp_content t)"
  have s: "ok_exprs ?s" "\<And>j. depth tps j (tp_content t) = 0 \<longrightarrow> depth tps j ?s \<le> depth tps j args"
    using substitute_ok [OF assms] by simp_all
  obtain c where c: "concat_lists ?s = Inr c" "ok_exprs c" "\<And>j. depth tps j c \<le> depth tps j ?s"
    using concat_lists_ok [OF s(1), of tps] by (metis sum.inject(2))
  have "depth tps j xs \<le> depth tps j args"
    if "depth tps j (tp_content t) = 0" "depth tps j xs \<le> depth tps j c" for j xs
    using s(2) c(3) that by (meson order_trans)
  then show ?thesis
    using evaluate_all_ok [OF c(2), of tps]
    by (cases "evaluate_all_conditionals c") (auto simp: instantiate_template_def c(1))
qed

section \<open>Templates that only call earlier ones\<close>

definition templates_ok :: "template list \<Rightarrow> bool" where
  "templates_ok tps \<longleftrightarrow>
     (\<forall>i<length tps. var_names (tp_vars_substitute_names (tps ! i))
        \<and> length (tp_vars_substitute_names (tps ! i)) = length (tp_vars (tps ! i))
        \<and> ok_exprs (tp_content (tps ! i)) \<and> (\<forall>j\<ge>i. depth tps j (tp_content (tps ! i)) = 0))"

lemma find_rank:
  "find (\<lambda>t. tp_name t = name) tps = Some t \<Longrightarrow> rank tps name < length tps \<and> tps ! rank tps name = t"
proof (induction tps)
  case (Cons u tps)
  show ?case
  proof (cases "tp_name u = name")
    case False
    then have "find (\<lambda>t. tp_name t = name) tps = Some t" using Cons.prems by simp
    from Cons.IH [OF this] False show ?thesis by (auto simp: rank_def split: option.splits)
  qed (use Cons.prems in \<open>simp add: rank_def\<close>)
qed simp

lemma expand_call_ok:
  assumes "templates_ok tps" and "ok_exprs args"
  shows "rejected_or (\<lambda>xs. rank tps name < length tps \<and> ok_exprs xs
      \<and> (\<forall>j\<ge>rank tps name. depth tps j xs \<le> depth tps j args))
    (expand_call tps (Atom s sp # Atom name sp' # args))"
proof (cases "find (\<lambda>t. tp_name t = name) tps")
  case (Some t)
  note r = find_rank [OF Some]
  then have t: "var_names (tp_vars_substitute_names t)" "ok_exprs (tp_content t)"
      "length (tp_vars_substitute_names t) = length (tp_vars t)"
      "\<And>j. rank tps name \<le> j \<Longrightarrow> depth tps j (tp_content t) = 0"
    using assms(1) by (auto simp: templates_ok_def)
  show ?thesis
  proof (cases "length args = length (tp_vars t)")
    case True
    then show ?thesis using instantiate_ok [OF t(1) _ assms(2) t(2), of tps] t(3,4) r Some
      by (cases "instantiate_template t args") (auto simp: expand_call_def nth_expr_def)
  qed (use Some in \<open>simp add: expand_call_def nth_expr_def\<close>)
qed (simp add: expand_call_def nth_expr_def)

section \<open>What decreases\<close>

fun no_calls :: "sexpr list \<Rightarrow> bool" where
  "no_calls [] = True"
| "no_calls (Atom s sp # es) = no_calls es"
| "no_calls (SList l sp # es) = (\<not> is_expand l \<and> no_calls l \<and> no_calls es)"

lemma no_calls_append [simp]: "no_calls (xs @ ys) \<longleftrightarrow> no_calls xs \<and> no_calls ys"
  by (induction xs rule: no_calls.induct) auto

text \<open>The calls of an expression with how deep they are nested, those of later templates counting more.\<close>

definition calls :: "template list \<Rightarrow> sexpr list \<Rightarrow> nat multiset" where
  "calls tps es = (\<Sum>j\<in>{..length tps}. replicate_mset (depth tps j es) j)"

lemma count_calls: "count (calls tps es) j = (if j \<le> length tps then depth tps j es else 0)"
  by (simp add: calls_def count_sum sum.delta')

lemma calls_mono: "(\<And>j. depth tps j xs \<le> depth tps j ys) \<Longrightarrow> calls tps xs \<le> calls tps ys"
  by (rule subset_eq_imp_le_multiset) (simp add: subseteq_mset_def count_calls)

lemma calls_less:
  assumes "i \<le> length tps" and "depth tps i xs < depth tps i ys"
    and "\<And>j. i \<le> j \<Longrightarrow> depth tps j xs \<le> depth tps j ys"
  shows "calls tps xs < calls tps ys"
proof -
  have "calls tps xs \<noteq> calls tps ys"
    using assms(1,2) count_calls [of tps xs i] count_calls [of tps ys i] by auto
  moreover have "\<exists>x>y. count (calls tps xs) x < count (calls tps ys) x"
    if "count (calls tps ys) y < count (calls tps xs) y" for y
    using that assms by (intro exI [of _ i]) (auto simp: count_calls not_le [symmetric] split: if_splits)
  ultimately show ?thesis by (simp add: less_multiset\<^sub>H\<^sub>O)
qed

lemma rank_le: "rank tps name \<le> length tps"
  using index_of_less [of name "map tp_name tps"] by (fastforce simp: rank_def split: option.splits)

lemma no_calls_depth: "no_calls es \<Longrightarrow> depth tps j es = 0"
  by (induction es rule: no_calls.induct) auto

lemma depth_no_calls: "ok_exprs es \<Longrightarrow> (\<And>j. j \<le> length tps \<Longrightarrow> depth tps j es = 0) \<Longrightarrow> no_calls es"
proof (induction rule: ok_induct)
  case (call s sp name sp' args sp'' es)
  then show ?case using call.prems [OF rank_le, of name] by simp
next
  case (plain l sp es)
  then show ?case by (simp add: plain_not_expand)
qed auto

lemma calls_empty: "ok_exprs es \<Longrightarrow> calls tps es = {#} \<longleftrightarrow> no_calls es"
proof
  assume ok: "ok_exprs es" and "calls tps es = {#}"
  then have "depth tps j es = 0" if "j \<le> length tps" for j
    using that count_calls [of tps es j] by simp
  then show "no_calls es" using depth_no_calls [OF ok] by blast
qed (simp add: multiset_eq_iff count_calls no_calls_depth)

definition weight :: "template list \<Rightarrow> sexpr \<Rightarrow> nat multiset \<times> nat" where
  "weight tps e = (calls tps [e], if no_calls [e] then 0 else exprs_size [e])"

definition weights :: "template list \<Rightarrow> sexpr list \<Rightarrow> (nat multiset \<times> nat) multiset" where
  "weights tps es = mset (map (weight tps) es)"

lemma weights_simps [simp]:
  "weights tps [] = {#}" "weights tps (e # es) = add_mset (weight tps e) (weights tps es)"
  "weights tps (xs @ ys) = weights tps xs + weights tps ys"
  by (simp_all add: weights_def)

lemma weights_less:
  assumes "\<And>x. x \<in> set xs \<Longrightarrow> weight tps x < weight tps e" and "e \<in> set es"
  shows "weights tps xs < weights tps es"
proof -
  have "weights tps xs < {#weight tps e#}"
    using assms(1) by (intro ex_gt_imp_less_multiset) (auto simp: weights_def)
  also have "\<dots> \<le> weights tps es"
    using assms(2) by (intro subset_eq_imp_le_multiset) (simp add: weights_def)
  finally show ?thesis .
qed

section \<open>A pass\<close>

text \<open>A pass without indices; the flag tells whether it has replaced a call.\<close>

fun expand_pass ::
  "(sexpr list \<Rightarrow> sexpr list cfg_res) \<Rightarrow> template list \<Rightarrow> sexpr list \<Rightarrow> (sexpr list \<times> bool) cfg_res" where
  "expand_pass rec tps [] = Inr ([], False)"
| "expand_pass rec tps (Atom s sp # es) =
     and_then (expand_pass rec tps es) (\<lambda>(es', b). Inr (Atom s sp # es', b))"
| "expand_pass rec tps (SList l sp # es) =
     (if is_expand l then
        and_then (expand_call tps l) (\<lambda>xs.
        and_then (expand_pass rec tps es) (\<lambda>(es', b). Inr (xs @ es', True)))
      else
        and_then (rec l) (\<lambda>l'.
        and_then (expand_pass rec tps es) (\<lambda>(es', b). Inr (SList l' sp # es', b))))"

lemma expand_scan_pass:
  "expand_pass rec tps es = map_sum id (\<lambda>(es', rs). (splice_from i rs es', rs \<noteq> [])) (expand_scan rec tps i es)
   \<and> (\<forall>es' rs. expand_scan rec tps i es = Inr (es', rs) \<longrightarrow>
        indices_from i rs \<and> length es' = length es \<and> (\<forall>r\<in>set rs. fst r < i + length es))"
proof (induction rec tps i es rule: expand_scan.induct)
  case (3 rec tps i l sp es)
  have IH: "expand_pass rec tps es
        = map_sum id (\<lambda>(es', rs). (splice_from (Suc i) rs es', rs \<noteq> [])) (expand_scan rec tps (Suc i) es)"
      "\<And>es' rs. expand_scan rec tps (Suc i) es = Inr (es', rs) \<Longrightarrow>
        indices_from (Suc i) rs \<and> length es' = length es \<and> (\<forall>r\<in>set rs. fst r < Suc i + length es)"
    using 3 by (cases "is_expand l"; auto simp: id_def)+
  show ?case
  proof (cases "expand_scan rec tps (Suc i) es")
    case (Inl f)
    then show ?thesis using IH(1)
      by (cases "is_expand l"; cases "expand_call tps l"; cases "rec l") auto
  next
    case (Inr x)
    then obtain es' rs where x: "expand_scan rec tps (Suc i) es = Inr (es', rs)" by (cases x) auto
    then have "indices_from (Suc i) rs" "length es' = length es" "\<forall>r\<in>set rs. fst r < Suc (i + length es)"
      using IH(2) by auto
    then show ?thesis using IH(1) x
      by (cases "is_expand l"; cases "expand_call tps l"; cases "rec l") (auto intro: indices_from_mono)
  qed
next
  case (2 rec tps i s sp es)
  then show ?case
    by (cases "expand_scan rec tps (Suc i) es") (auto intro: indices_from_mono)
qed simp

lemma expand_Suc:
  "expand (Suc n) tps es =
     and_then (expand_pass (expand n tps) tps es) (\<lambda>(es', b). if b then expand n tps es' else Inr es')"
proof (cases "expand_scan (expand n tps) tps 0 es")
  case (Inl f)
  then show ?thesis using expand_scan_pass [of "expand n tps" tps es 0] by simp
next
  case (Inr x)
  then obtain es' rs where x: "expand_scan (expand n tps) tps 0 es = Inr (es', rs)" by (cases x) auto
  then have "apply_replacements rs es' = splice_from 0 rs es'"
    using expand_scan_pass [of "expand n tps" tps es 0] by (intro apply_replacements_splice) auto
  moreover have "splice_from 0 [] es' = es'" by (cases es') simp_all
  ultimately show ?thesis using x expand_scan_pass [of "expand n tps" tps es 0] by auto
qed

declare expand.simps(2) [simp del]

lemma expand_pass_cong:
  assumes "\<And>l sp. SList l sp \<in> set es \<Longrightarrow> \<not> is_expand l \<Longrightarrow> rec l = rec' l"
  shows "expand_pass rec tps es = expand_pass rec' tps es"
  using assms
proof (induction es rule: no_calls.induct)
  case (3 l sp es)
  then have "\<not> is_expand l \<Longrightarrow> rec l = rec' l" "expand_pass rec tps es = expand_pass rec' tps es" by auto
  then show ?case by simp
qed auto

lemma expand_Atom: "expand n tps (Atom s sp # es) = map_sum id ((#) (Atom s sp)) (expand n tps es)"
proof (induction n arbitrary: es)
  case (Suc n)
  then show ?case
    by (cases "expand_pass (expand n tps) tps es") (auto simp: expand_Suc)
qed simp

lemma no_calls_pass:
  assumes "no_calls es" and "\<And>l sp. SList l sp \<in> set es \<Longrightarrow> rec l = Inr l"
  shows "expand_pass rec tps es = Inr (es, False)"
  using assms
proof (induction es rule: no_calls.induct)
  case (3 l sp es)
  then have "rec l = Inr l" "expand_pass rec tps es = Inr (es, False)" by auto
  then show ?case using 3 by simp
qed auto

lemma no_calls_member: "no_calls es \<Longrightarrow> SList l sp \<in> set es \<Longrightarrow> no_calls l \<and> \<not> is_expand l \<and> exprs_size l < exprs_size es"
  by (induction es rule: no_calls.induct) auto

lemma expand_no_calls: "no_calls es \<Longrightarrow> exprs_size es < n \<Longrightarrow> expand n tps es = Inr es"
proof (induction n arbitrary: es)
  case (Suc n)
  have "expand_pass (expand n tps) tps es = Inr (es, False)"
    using Suc.prems no_calls_member by (intro no_calls_pass Suc.IH) fastforce+
  then show ?case by (simp add: expand_Suc)
qed simp

lemma expand_no_calls_or_fuel: "no_calls es \<Longrightarrow> expand n tps es = Inr es \<or> expand n tps es = Inl NeverReturns"
proof (induction n arbitrary: es)
  case (Suc n)
  have "expand_pass (expand n tps) tps es = Inr (es, False) \<or> expand_pass (expand n tps) tps es = Inl NeverReturns"
    using Suc.prems
  proof (induction es rule: no_calls.induct)
    case (3 l sp es)
    then show ?case using Suc.IH [of l] by auto
  qed auto
  then show ?case by (auto simp: expand_Suc)
qed simp

section \<open>The expansion ends and is the one that is meant\<close>

lemma both_simps [simp]:
  "both (Inr xs) (Inr ys) = Inr (xs @ ys)" "both (Inl f) r = Inl Rejected" "both r (Inl f) = Inl Rejected"
  by (simp_all add: both_def split: sum.splits)

lemma both_assoc: "both (both a b) c = both a (both b c)"
  by (cases a; cases b; cases c) simp_all

lemma expands_all_rejected: "expands_all tps es r \<Longrightarrow> rejected_or (\<lambda>_. True) r"
  by (cases rule: expands_all.cases) (auto simp: both_def split: sum.splits)

lemma both_Nil: "rejected_or (\<lambda>_. True) r \<Longrightarrow> both (Inr []) r = r"
  by (cases r) simp_all

lemma expands_all_append:
  "expands_all tps (xs @ ys) r \<Longrightarrow> \<exists>r1 r2. expands_all tps xs r1 \<and> expands_all tps ys r2 \<and> r = both r1 r2"
proof (induction xs arbitrary: r)
  case Nil
  then show ?case using both_Nil expands_all_rejected by (force intro: expands_expands_all.none)
next
  case (Cons e xs)
  then obtain a b where a: "expands tps e a" "expands_all tps (xs @ ys) b" "r = both a b"
    by (auto elim: expands_all_ConsE)
  then obtain r1 r2 where "expands_all tps xs r1" "expands_all tps ys r2" "b = both r1 r2"
    using Cons.IH by blast
  then show ?case using a both_assoc by (metis expands_expands_all.more)
qed

lemma expands_no_calls: "no_calls es \<Longrightarrow> expands_all tps es (Inr es)"
proof (induction es rule: no_calls.induct)
  case (2 s sp es)
  then show ?case
    using expands_expands_all.more [OF expands_expands_all.atom [of tps s sp], of es "Inr es"] by simp
next
  case (3 l sp es)
  then have "expands tps (SList l sp) (map_sum id (\<lambda>l'. [SList l' sp]) (Inr l))"
    by (intro expands_expands_all.inner) auto
  then show ?case using expands_expands_all.more [of tps "SList l sp" "Inr [SList l sp]" es "Inr es"] 3 by simp
qed (simp add: expands_expands_all.none)

lemma expands_all_exists:
  assumes "\<And>e. e \<in> set es \<Longrightarrow> \<exists>r. expands tps e r"
  shows "\<exists>r. expands_all tps es r"
  using assms
proof (induction es)
  case (Cons e es)
  then obtain r r' where "expands tps e r" "expands_all tps es r'" by force
  then show ?case by (blast intro: expands_expands_all.more)
qed (blast intro: expands_expands_all.none)

text \<open>What a pass keeps and what it makes smaller, when the lists in it are expanded as they should be.\<close>

definition inner_done :: "template list \<Rightarrow> (sexpr list \<Rightarrow> sexpr list cfg_res) \<Rightarrow> sexpr list \<Rightarrow> bool" where
  "inner_done tps f es \<longleftrightarrow>
     (\<forall>l sp. SList l sp \<in> set es \<longrightarrow> \<not> is_expand l \<longrightarrow>
        expands_all tps l (f l) \<and> rejected_or (\<lambda>out. ok_list out \<and> \<not> is_expand out \<and> no_calls out) (f l))"

lemma inner_done_simps [simp]:
  "inner_done tps f []" "inner_done tps f (Atom s sp # es) \<longleftrightarrow> inner_done tps f es"
  "inner_done tps f (SList l sp # es) \<longleftrightarrow> inner_done tps f es \<and> (\<not> is_expand l \<longrightarrow>
     expands_all tps l (f l) \<and> rejected_or (\<lambda>out. ok_list out \<and> \<not> is_expand out \<and> no_calls out) (f l))"
  by (auto simp: inner_done_def)

lemma weight_no_calls: "no_calls [e] \<Longrightarrow> weight tps e = ({#}, 0)"
proof -
  assume n: "no_calls [e]"
  then have "calls tps [e] = {#}" by (simp add: multiset_eq_iff count_calls no_calls_depth)
  then show ?thesis using n by (simp add: weight_def)
qed

lemma depth_member: "x \<in> set xs \<Longrightarrow> depth tps j [x] \<le> depth tps j xs"
  by (metis depth_nth in_set_conv_nth)

lemma call_weight:
  assumes "templates_ok tps" and "ok_exprs args" and "is_expand_word s"
    and "expand_call tps (Atom s sp # Atom name sp' # args) = Inr xs" and "x \<in> set xs"
  shows "weight tps x < weight tps (SList (Atom s sp # Atom name sp' # args) sp'')"
proof -
  have r: "rank tps name < length tps" "\<And>j. rank tps name \<le> j \<Longrightarrow> depth tps j xs \<le> depth tps j args"
    using expand_call_ok [OF assms(1,2), of name s sp sp'] assms(4) by auto
  have x: "depth tps j [x] \<le> depth tps j args" if "rank tps name \<le> j" for j
    using depth_member [OF assms(5), of tps j] r(2) [OF that] by simp
  have "calls tps [x] < calls tps [SList (Atom s sp # Atom name sp' # args) sp'']"
    using r(1) x assms(3) by (intro calls_less [of "rank tps name"]) (auto simp: less_Suc_eq_le le_SucI)
  then show ?thesis by (simp add: weight_def less_prod_def)
qed

definition pass_meant :: "template list \<Rightarrow> sexpr list \<Rightarrow> (sexpr list \<times> bool) cfg_res \<Rightarrow> bool" where
  "pass_meant tps es p \<longleftrightarrow>
     (case p of
        Inl x \<Rightarrow> x = Rejected \<and> (\<forall>R. expands_all tps es R \<longrightarrow> R = Inl Rejected)
      | Inr (es', b) \<Rightarrow>
          (\<forall>R. expands_all tps es' R \<longrightarrow> expands_all tps es R) \<and> ok_exprs es'
          \<and> weights tps es' \<le> weights tps es \<and> (b \<longrightarrow> weights tps es' < weights tps es)
          \<and> (\<not> b \<longrightarrow> no_calls es'))"

lemma pass_meant_simps [simp]:
  "pass_meant tps es (Inl x) \<longleftrightarrow> x = Rejected \<and> (\<forall>R. expands_all tps es R \<longrightarrow> R = Inl Rejected)"
  "pass_meant tps es (Inr (es', b)) \<longleftrightarrow>
     (\<forall>R. expands_all tps es' R \<longrightarrow> expands_all tps es R) \<and> ok_exprs es'
     \<and> weights tps es' \<le> weights tps es \<and> (b \<longrightarrow> weights tps es' < weights tps es)
     \<and> (\<not> b \<longrightarrow> no_calls es')"
  by (simp_all add: pass_meant_def)

lemma expands_all_Cons_rejected:
  "expands_all tps (e # es) R \<Longrightarrow> (\<And>r. expands tps e r \<Longrightarrow> r = Inl Rejected) \<Longrightarrow> R = Inl Rejected"
  "expands_all tps (e # es) R \<Longrightarrow> (\<And>r. expands_all tps es r \<Longrightarrow> r = Inl Rejected) \<Longrightarrow> R = Inl Rejected"
proof -
  assume "expands_all tps (e # es) R" and r: "\<And>r. expands tps e r \<Longrightarrow> r = Inl Rejected"
  then obtain a b where "expands tps e a" "R = both a b" by (auto elim: expands_all_ConsE)
  moreover from this have "a = Inl Rejected" using r by blast
  ultimately show "R = Inl Rejected" by simp
next
  assume "expands_all tps (e # es) R" and r: "\<And>r. expands_all tps es r \<Longrightarrow> r = Inl Rejected"
  then obtain a b where "expands_all tps es b" "R = both a b" by (auto elim: expands_all_ConsE)
  moreover from this have "b = Inl Rejected" using r by blast
  ultimately show "R = Inl Rejected" by simp
qed

text \<open>An expression that a pass turns into the expressions \<open>xs\<close>, with what they expand to.\<close>

lemma pass_meant_piece:
  assumes "pass_meant tps es p"
    and "\<And>R. expands_all tps xs R \<Longrightarrow> expands tps e R" and "ok_exprs xs"
    and "if b' then weights tps xs < {#weight tps e#} else weights tps xs \<le> {#weight tps e#} \<and> no_calls xs"
  shows "pass_meant tps (e # es) (and_then p (\<lambda>(es', b). Inr (xs @ es', b \<or> b')))"
proof (cases p)
  case (Inl x)
  then show ?thesis using assms(1) expands_all_Cons_rejected(2) [of tps e es] by auto
next
  case (Inr q)
  then obtain es' b where p: "p = Inr (es', b)" by (cases q) auto
  have e: "expands_all tps (e # es) R" if R: "expands_all tps (xs @ es') R" for R
  proof -
    obtain r1 r2 where "expands_all tps xs r1" "expands_all tps es' r2" "R = both r1 r2"
      using expands_all_append [OF R] by blast
    then show ?thesis using assms(1,2) p by (auto intro: expands_expands_all.more)
  qed
  have w: "weights tps es' \<le> weights tps es" "b \<longrightarrow> weights tps es' < weights tps es"
    "weights tps xs \<le> {#weight tps e#}"
    using assms(1,4) p by (auto split: if_splits)
  have le: "weights tps xs + weights tps es' \<le> {#weight tps e#} + weights tps es"
    using w by (intro add_mono)
  have "weights tps xs + weights tps es' < {#weight tps e#} + weights tps es" if "b \<or> b'"
  proof (cases b)
    case True
    then show ?thesis using w by (intro add_le_less_mono) auto
  next
    case False
    then show ?thesis using w assms(4) that by (intro add_less_le_mono) auto
  qed
  then show ?thesis using assms(1,3,4) p e le by (auto split: if_splits)
qed

lemma pass_meaning:
  assumes "templates_ok tps" and "ok_exprs es" and "inner_done tps f es"
  shows "pass_meant tps es (expand_pass f tps es)"
  using assms(2,3)
proof (induction es rule: no_calls.induct)
  case (2 s sp es)
  then have "pass_meant tps es (expand_pass f tps es)" by simp
  moreover have "expands tps (Atom s sp) R" if "expands_all tps [Atom s sp] R" for R
  proof -
    have "R = Inr [Atom s sp]"
      by (rule expands_unique(2) [OF that]) (rule expands_no_calls, simp)
    then show ?thesis by (simp add: expands_expands_all.atom)
  qed
  ultimately have "pass_meant tps (Atom s sp # es)
      (and_then (expand_pass f tps es) (\<lambda>(es', b). Inr ([Atom s sp] @ es', b \<or> False)))"
    using 2 by (intro pass_meant_piece) auto
  then show ?case by simp
next
  case (3 l sp es)
  then have es: "pass_meant tps es (expand_pass f tps es)" "ok_exprs es" "ok_list l"
    by simp_all
  show ?case
  proof (cases "is_expand l")
    case True
    from es(3) True obtain s sp1 name sp2 args where l: "l = Atom s sp1 # Atom name sp2 # args"
      "is_expand_word s" "ok_exprs args"
      by (cases rule: ok_listE) (auto simp: plain_not_expand)
    note c = expand_call_ok [OF assms(1) l(3), of name s sp1 sp2]
    show ?thesis
    proof (cases "expand_call tps l")
      case (Inl x)
      then have x: "x = Rejected" using c l by simp
      have "expands tps (SList l sp) r \<Longrightarrow> r = Inl Rejected" for r
        by (erule expands_SListE) (use Inl True x in auto)
      then show ?thesis using Inl True x expands_all_Cons_rejected(1) by simp
    next
      case (Inr xs)
      have "pass_meant tps (SList l sp # es)
          (and_then (expand_pass f tps es) (\<lambda>(es', b). Inr (xs @ es', b \<or> True)))"
        using es(1)
      proof (rule pass_meant_piece)
        show "expands tps (SList l sp) R" if "expands_all tps xs R" for R
          using expands_expands_all.call [OF True Inr that] .
        show "ok_exprs xs" using c Inr l by simp
        have "weights tps xs < weights tps [SList l sp]"
          using call_weight [OF assms(1) l(3,2)] Inr l(1) by (intro weights_less [of xs tps "SList l sp"]) auto
        then show "if True then weights tps xs < {#weight tps (SList l sp)#}
            else weights tps xs \<le> {#weight tps (SList l sp)#} \<and> no_calls xs" by simp
      qed
      then show ?thesis using Inr True by simp
    qed
  next
    case False
    then have fl: "expands_all tps l (f l)" "rejected_or (\<lambda>out. ok_list out \<and> \<not> is_expand out \<and> no_calls out) (f l)"
      using 3(4) by simp_all
    show ?thesis
    proof (cases "f l")
      case (Inl x)
      then have x: "x = Rejected" using fl(2) by simp
      have "expands tps (SList l sp) r \<Longrightarrow> r = Inl Rejected" for r
        by (erule expands_SListE) (use False x Inl fl(1) expands_unique(2) [of tps l] in fastforce)+
      then show ?thesis using Inl False x expands_all_Cons_rejected(1) by simp
    next
      case (Inr l')
      then have l': "ok_list l'" "no_calls l'" "\<not> is_expand l'" using fl(2) by simp_all
      have i: "expands tps (SList l sp) (Inr [SList l' sp])"
        using expands_expands_all.inner [OF False fl(1), of sp] Inr by simp
      have n: "no_calls [SList l' sp] \<longleftrightarrow> \<not> is_expand l'" using l' by simp
      have "pass_meant tps (SList l sp # es)
          (and_then (expand_pass f tps es) (\<lambda>(es', b). Inr ([SList l' sp] @ es', b \<or> False)))"
        using es(1)
      proof (rule pass_meant_piece)
        show "expands tps (SList l sp) R" if R: "expands_all tps [SList l' sp] R" for R
        proof -
          have "R = Inr [SList l' sp]"
            by (rule expands_unique(2) [OF R]) (rule expands_no_calls, simp add: l')
          then show ?thesis using i by simp
        qed
        show "ok_exprs [SList l' sp]" using l' by simp
        show "if False then weights tps [SList l' sp] < {#weight tps (SList l sp)#}
            else weights tps [SList l' sp] \<le> {#weight tps (SList l sp)#} \<and> no_calls [SList l' sp]" 
          using weight_no_calls [of "SList l' sp" tps] n l'(2,3) le_multiset_empty_left [of "calls tps [SList l sp]"]
          by (auto simp: weight_def less_eq_prod_def le_less)
      qed
      then show ?thesis using Inr False by simp
    qed
  qed
qed (simp add: expands_expands_all.none)

lemma finitely_many_limits:
  fixes P :: "nat \<Rightarrow> 'a \<Rightarrow> bool"
  assumes "\<And>x. x \<in> set xs \<Longrightarrow> \<exists>n0. \<forall>n\<ge>n0. P n x"
  shows "\<exists>N. \<forall>n\<ge>N. \<forall>x\<in>set xs. P n x"
  using assms
proof (induction xs)
  case (Cons x xs)
  obtain n0 where n0: "\<forall>n\<ge>n0. P n x" using Cons.prems [of x] by auto
  obtain N where N: "\<forall>n\<ge>N. \<forall>x\<in>set xs. P n x" using Cons.IH Cons.prems by auto
  have "\<forall>n\<ge>max n0 N. \<forall>y\<in>set (x # xs). P n y" using n0 N by auto
  then show ?case by blast
qed simp

text \<open>The expansion of a list that is not a call, from those of its elements.\<close>

definition settles :: "template list \<Rightarrow> sexpr list \<Rightarrow> sexpr list cfg_res \<Rightarrow> bool" where
  "settles tps es r \<longleftrightarrow> expands_all tps es r \<and> (\<exists>n0. \<forall>n\<ge>n0. expand n tps es = r)"

lemma settles_Atom:
  assumes "settles tps es r"
  shows "settles tps (Atom s sp # es) (map_sum id ((#) (Atom s sp)) r)"
proof -
  have "expands_all tps (Atom s sp # es) (both (Inr [Atom s sp]) r)"
    using assms by (auto simp: settles_def intro: expands_expands_all.more expands_expands_all.atom)
  moreover have "both (Inr [Atom s sp]) r = map_sum id ((#) (Atom s sp)) r"
    using assms expands_all_rejected [of tps es r] by (cases r) (auto simp: settles_def)
  ultimately show ?thesis using assms by (auto simp: settles_def expand_Atom)
qed

lemma weight_inside:
  assumes "x \<in> set l" and "\<not> no_calls l" and "ok_list l"
  shows "weight tps x < weight tps (SList l sp)"
proof -
  have e: "calls tps [SList l sp] \<noteq> {#}" "\<not> no_calls [SList l sp]"
    using calls_empty [of "[SList l sp]" tps] assms(2,3) by simp_all
  show ?thesis
  proof (cases "no_calls [x]")
    case True
    then show ?thesis using e weight_no_calls [OF True, of tps]
      by (simp add: weight_def less_prod_def nonempty_has_size)
  next
    case False
    have "depth tps j [x] \<le> depth tps j [SList l sp]" for j
      using depth_member [OF assms(1), of tps j] by simp
    then have "calls tps [x] \<le> calls tps [SList l sp]" by (rule calls_mono)
    moreover have "exprs_size [x] < exprs_size [SList l sp]"
      using split_list [OF assms(1)] exprs_size_append by (cases x) (force simp: exprs_size_append [of _ "_ # _"])+
    moreover have "weight tps x = (calls tps [x], exprs_size [x])"
        "weight tps (SList l sp) = (calls tps [SList l sp], exprs_size [SList l sp])"
      using False e(2) by (simp_all add: weight_def del: no_calls.simps)
    ultimately show ?thesis by (auto simp: less_prod_def le_less)
  qed
qed

lemma ok_member: "ok_exprs es \<Longrightarrow> SList l sp \<in> set es \<Longrightarrow> ok_list l"
  by (induction es rule: no_calls.induct) auto

lemma expands_keeps_atoms:
  "expands_all tps es (Inr out) \<Longrightarrow> Atom s sp \<in> set es \<Longrightarrow> Atom s sp \<in> set out"
proof (induction es arbitrary: out)
  case (Cons e es)
  from Cons.prems(1) obtain a b where ab: "expands tps e (Inr a)" "expands_all tps es (Inr b)" "out = a @ b"
    by (auto elim!: expands_all_ConsE simp: both_def split: sum.splits)
  show ?case
  proof (cases "e = Atom s sp")
    case True
    then show ?thesis using ab by (auto elim: expands_AtomE)
  next
    case False
    then show ?thesis using Cons.IH [OF ab(2)] Cons.prems(2) ab(3) by auto
  qed
qed simp

text \<open>The lists in an expression settle when those of smaller weights do.\<close>

lemma inner_settles:
  assumes IH: "\<And>xs. weights tps xs < weights tps es \<Longrightarrow> ok_exprs xs
      \<Longrightarrow> \<exists>r. settles tps xs r \<and> rejected_or (\<lambda>out. ok_exprs out \<and> no_calls out) r"
    and ok: "ok_exprs es" and l: "SList l sp \<in> set es" "\<not> is_expand l"
  shows "\<exists>r. settles tps l r \<and> rejected_or (\<lambda>out. ok_list out \<and> \<not> is_expand out \<and> no_calls out) r"
proof (cases "no_calls l")
  case True
  have "\<forall>n\<ge>Suc (exprs_size l). expand n tps l = Inr l" using expand_no_calls [OF True] by simp
  then have "settles tps l (Inr l)" using expands_no_calls [OF True] by (auto simp: settles_def)
  then show ?thesis using True l ok_member [OF ok l(1)] by (intro exI [of _ "Inr l"]) simp
next
  case False
  note okl = ok_member [OF ok l(1)]
  have smaller: "weights tps xs < weights tps es" if "set xs \<subseteq> set l" for xs
    using that weight_inside [OF _ False okl] l(1) by (intro weights_less [of xs tps "SList l sp"]) auto
  from okl show ?thesis
  proof (cases rule: ok_listE)
    case (call s sp name sp' args)
    then show ?thesis using l(2) by simp
  next
    case (concat sp' l' p sp'')
    obtain r where r: "settles tps l' r" "rejected_or (\<lambda>out. ok_exprs out \<and> no_calls out) r"
      using IH [OF smaller concat(4)] concat(1) by auto
    have "Atom p sp'' \<in> set out" if "r = Inr out" for out
      using expands_keeps_atoms [of tps l' out] r(1) concat(2) that by (simp add: settles_def)
    then have "rejected_or (\<lambda>out. ok_list out \<and> \<not> is_expand out \<and> no_calls out)
        (map_sum id ((#) (Atom ''concat'' sp')) r)"
      using r(2) concat(3) by (cases r) (auto simp: ok_list_concat)
    then show ?thesis using settles_Atom [OF r(1)] concat(1) by blast
  next
    case plain
    obtain r where "settles tps l r" "rejected_or (\<lambda>out. ok_exprs out \<and> no_calls out) r"
      using IH [OF smaller plain] by auto
    then show ?thesis by (intro exI [of _ r]) (cases r; simp add: ok_list_plain plain_not_expand)
  qed
qed

text \<open>And every expression has an expansion.\<close>

lemma expands_exists:
  assumes tps: "templates_ok tps"
    and IH: "\<And>xs. weights tps xs < weights tps es \<Longrightarrow> ok_exprs xs
      \<Longrightarrow> \<exists>r. settles tps xs r \<and> rejected_or (\<lambda>out. ok_exprs out \<and> no_calls out) r"
    and ok: "ok_exprs es"
  shows "\<exists>R. expands_all tps es R"
proof (rule expands_all_exists)
  fix e assume e: "e \<in> set es"
  show "\<exists>r. expands tps e r"
  proof (cases e)
    case (Atom s sp)
    then show ?thesis by (blast intro: expands_expands_all.atom)
  next
    case (SList l sp)
    show ?thesis
    proof (cases "is_expand l")
      case True
      have "ok_list l" using ok_member [OF ok] e SList by blast
      then obtain s sp1 name sp2 args where l: "l = Atom s sp1 # Atom name sp2 # args"
        "is_expand_word s" "ok_exprs args"
        using True by (cases rule: ok_listE) (auto simp: plain_not_expand)
      show ?thesis
      proof (cases "expand_call tps l")
        case (Inl f)
        then show ?thesis using expands_expands_all.bad_call [OF True] SList by blast
      next
        case (Inr xs)
        have "weights tps xs < weights tps es"
          using call_weight [OF tps l(3,2)] Inr l(1) e SList by (intro weights_less [of xs tps e]) auto
        moreover have "ok_exprs xs" using expand_call_ok [OF tps l(3), of name s sp1 sp2] Inr l(1) by simp
        ultimately show ?thesis using IH [of xs] expands_expands_all.call [OF True Inr] SList
          by (auto simp: settles_def)
      qed
    next
      case False
      have "SList l sp \<in> set es" using e SList by simp
      then obtain r where "settles tps l r" using inner_settles [OF IH ok _ False] by blast
      then show ?thesis using expands_expands_all.inner [OF False, of tps r sp] SList
        by (auto simp: settles_def)
    qed
  qed
qed

lemma expand_settles:
  assumes "templates_ok tps"
  shows "ok_exprs es \<Longrightarrow> \<exists>r. settles tps es r \<and> rejected_or (\<lambda>out. ok_exprs out \<and> no_calls out) r"
proof (induction es rule: measure_induct_rule [of "weights tps"])
  case (less es)
  have inner: "\<exists>r. settles tps l r \<and> rejected_or (\<lambda>out. ok_list out \<and> \<not> is_expand out \<and> no_calls out) r"
    if "SList l sp \<in> set es" "\<not> is_expand l" for l sp
    using less.IH less.prems that by (rule inner_settles)
  define f where "f l = (THE r. expands_all tps l r)" for l
  have f: "expands_all tps l (f l)" "rejected_or (\<lambda>out. ok_list out \<and> \<not> is_expand out \<and> no_calls out) (f l)"
      "\<exists>n0. \<forall>n\<ge>n0. expand n tps l = f l" if l: "SList l sp \<in> set es" "\<not> is_expand l" for l sp
  proof -
    obtain r where r: "settles tps l r" "rejected_or (\<lambda>out. ok_list out \<and> \<not> is_expand out \<and> no_calls out) r"
      using inner [OF l] by blast
    then have "f l = r" unfolding f_def settles_def by (blast intro: the_equality expands_unique(2))
    then show "expands_all tps l (f l)" "\<exists>n0. \<forall>n\<ge>n0. expand n tps l = f l"
      "rejected_or (\<lambda>out. ok_list out \<and> \<not> is_expand out \<and> no_calls out) (f l)"
      using r by (auto simp: settles_def)
  qed
  then have dn: "inner_done tps f es" by (auto simp: inner_done_def)
  have "\<exists>N. \<forall>n\<ge>N. \<forall>e\<in>set es. case e of Atom s sp \<Rightarrow> True | SList l sp \<Rightarrow> \<not> is_expand l \<longrightarrow> expand n tps l = f l"
  proof (rule finitely_many_limits)
    fix e assume "e \<in> set es"
    show "\<exists>n0. \<forall>n\<ge>n0. case e of Atom s sp \<Rightarrow> True | SList l sp \<Rightarrow> \<not> is_expand l \<longrightarrow> expand n tps l = f l"
    proof (cases e)
      case (SList l sp)
      then show ?thesis using f(3) [of l sp] \<open>e \<in> set es\<close> by (cases "is_expand l") simp_all
    qed simp
  qed
  then obtain N where N: "\<And>n l sp. N \<le> n \<Longrightarrow> SList l sp \<in> set es \<Longrightarrow> \<not> is_expand l \<Longrightarrow> expand n tps l = f l"
    by fastforce
  have pass: "expand_pass (expand n tps) tps es = expand_pass f tps es" if "N \<le> n" for n
    using N [OF that] by (intro expand_pass_cong)
  note m = pass_meaning [OF assms less.prems dn]
  have ex: "\<exists>R. expands_all tps es R" using assms less.IH less.prems by (rule expands_exists)
  show ?case
  proof (cases "expand_pass f tps es")
    case (Inl x)
    then have "expands_all tps es (Inl Rejected)" using m ex by auto
    moreover have "expand n tps es = Inl Rejected" if "Suc N \<le> n" for n
      using that pass [of "n - 1"] Inl m by (cases n) (simp_all add: expand_Suc)
    ultimately show ?thesis unfolding settles_def by (intro exI [of _ "Inl Rejected"]) auto
  next
    case (Inr q)
    then obtain es' b where p: "expand_pass f tps es = Inr (es', b)" by (cases q) auto
    show ?thesis
    proof (cases b)
      case True
      then obtain r n0 where r: "expands_all tps es' r" "\<forall>n\<ge>n0. expand n tps es' = r"
          "rejected_or (\<lambda>out. ok_exprs out \<and> no_calls out) r"
        using less.IH [of es'] m p by (auto simp: settles_def)
      have "expand n tps es = r" if "Suc (max N n0) \<le> n" for n
        using that pass [of "n - 1"] p True r(2) by (cases n) (simp_all add: expand_Suc)
      then show ?thesis using r(1,3) m p unfolding settles_def by (intro exI [of _ r]) auto
    next
      case False
      have "expand n tps es = Inr es'" if "Suc N \<le> n" for n
        using that pass [of "n - 1"] p False by (cases n) (simp_all add: expand_Suc)
      moreover have "expands_all tps es (Inr es')" "ok_exprs es'" "no_calls es'"
        using m p False expands_no_calls by auto
      ultimately show ?thesis unfolding settles_def by (intro exI [of _ "Inr es'"]) auto
    qed
  qed
qed

section \<open>Collected templates are in order\<close>

lemma rank_append: "rank tps name < length tps \<Longrightarrow> rank (tps @ ts) name = rank tps name"
proof -
  have "index_of x (xs @ ys) = index_of x xs" if "index_of x xs \<noteq> None" for x :: string and xs ys
    using that by (induction xs) (auto split: if_splits)
  moreover assume "rank tps name < length tps"
  then have "index_of name (map tp_name tps) \<noteq> None" by (auto simp: rank_def split: option.splits)
  ultimately show "rank (tps @ ts) name = rank tps name" by (auto simp: rank_def)
qed

lemma rank_known: "t \<in> set tps \<Longrightarrow> rank tps (tp_name t) < length tps"
proof -
  assume "t \<in> set tps"
  then have "find (\<lambda>u. tp_name u = tp_name t) tps \<noteq> None" by (auto simp: find_None_iff)
  then show ?thesis using find_rank [of "tp_name t" tps] by blast
qed

lemma depth_append_templates:
  assumes "i \<le> length tps" and "\<And>j. i \<le> j \<Longrightarrow> depth tps j es = 0" and "i \<le> j"
  shows "depth (tps @ ts) j es = 0"
  using assms(2)
proof (induction es rule: no_calls.induct)
  case (3 l sp es)
  then have z: "depth tps k l = 0" "depth tps k es = 0" "called tps l \<noteq> Some k" if "i \<le> k" for k
    using that by (fastforce split: if_splits)+
  have "called (tps @ ts) l = called tps l"
  proof (cases "called tps l")
    case (Some r)
    then have "r < length tps" using z(3) [of r] assms(1) by linarith
    then show ?thesis using Some rank_append by (auto simp: called_def split: if_splits)
  qed (auto simp: called_def)
  then show ?case using 3 z assms(3) by simp
qed auto

lemma validated_depth:
  "ok_exprs es \<Longrightarrow> visit_validate_all_atoms_peek_next (validate_atom tps) es = Inr () \<Longrightarrow> length tps \<le> j
    \<Longrightarrow> depth (tps @ ts) j es = 0"
proof (induction rule: ok_induct)
  case (call s sp name sp' args sp'' es)
  then obtain t where "t \<in> set tps" "tp_name t = name"
    by (auto simp: and_then_Inr_iff validate_atom_def split: if_splits)
  then have "rank (tps @ ts) name < length tps" using rank_known rank_append by metis
  then show ?case using call by (auto simp: and_then_Inr_iff)
qed (auto simp: and_then_Inr_iff plain_not_expand)

lemma map_res_length: "map_res f xs = Inr ys \<Longrightarrow> length ys = length xs"
  by (induction xs arbitrary: ys) (auto simp: and_then_Inr_iff)

lemma define_template_ok:
  assumes "templates_ok tps" and "ok_list l" and "define_template l tps = Inr tps'"
  shows "templates_ok tps'"
proof (cases "Option.bind (nth_expr 0 l) plain_atom = Some ''deftemplate''")
  case True
  then obtain name vars where t: "visit_validate_all_atoms_peek_next (validate_atom tps) (drop 3 l) = Inr ()"
      "tps' = tps @ [\<lparr>tp_name = name, tp_vars = vars,
        tp_vars_substitute_names = map (\<lambda>v. ''$'' @ v) vars, tp_content = drop 3 l\<rparr>]"
    using assms(3) by (auto simp: define_template_def and_then_Inr_iff split: if_splits)
  from assms(2) have "ok_exprs l"
    by (cases rule: ok_listE) (use True in \<open>auto simp: nth_expr_def is_expand_word_def\<close>)
  then have ok: "ok_exprs (drop 3 l)" by (rule ok_exprs_drop)
  show ?thesis unfolding templates_ok_def
  proof (intro allI impI)
    fix i assume i: "i < length tps'"
    show "var_names (tp_vars_substitute_names (tps' ! i))
        \<and> length (tp_vars_substitute_names (tps' ! i)) = length (tp_vars (tps' ! i))
        \<and> ok_exprs (tp_content (tps' ! i)) \<and> (\<forall>j\<ge>i. depth tps' j (tp_content (tps' ! i)) = 0)"
    proof (cases "i < length tps")
      case True
      then show ?thesis using assms(1) t(2) depth_append_templates [of i tps]
        by (auto simp: templates_ok_def nth_append)
    next
      case False
      then have "i = length tps" using i t(2) by simp
      then show ?thesis using t ok validated_depth [OF ok t(1)] by (auto simp: var_names_def)
    qed
  qed
next
  case False
  then show ?thesis using assms by (simp add: define_template_def)
qed

definition as_exprs :: "spanned_list list \<Rightarrow> sexpr list" where
  "as_exprs tls = map (\<lambda>(l, sp). SList l sp) tls"

lemma collected_ok:
  assumes "ok_exprs (as_exprs tls)" and "fold_res (\<lambda>(l, sp). define_template l) tls [] = Inr tps"
  shows "templates_ok tps"
  using assms(2)
proof (rule fold_res_invariant [where I = templates_ok])
  show "templates_ok []" by (simp add: templates_ok_def)
  fix x tps1 tps2
  assume "x \<in> set tls" "templates_ok tps1" "(case x of (l, sp) \<Rightarrow> define_template l) tps1 = Inr tps2"
  moreover have "ok_list (fst x)"
    using ok_member [OF assms(1), of "fst x" "snd x"] \<open>x \<in> set tls\<close>
    by (force simp: as_exprs_def case_prod_unfold)
  ultimately show "templates_ok tps2" using define_template_ok [of tps1 "fst x" tps2] by (simp add: case_prod_unfold)
qed

lemma define_template_errors: "define_template l tps = Inl f \<Longrightarrow> f = Rejected"
proof -
  have "visit_validate_all_atoms_peek_next (validate_atom tps) es = Inl f \<Longrightarrow> f = Rejected" for es
    by (induction es rule: no_calls.induct)
       (auto simp: and_then_Inl_iff validate_atom_def reject_unless_def split: if_splits option.splits)
  moreover have "map_res (\<lambda>e. or_reject (plain_atom e)) es = Inl f \<Longrightarrow> f = Rejected" for es
    by (induction es) (auto simp: and_then_Inl_iff or_reject_def split: option.splits)
  ultimately show "define_template l tps = Inl f \<Longrightarrow> f = Rejected"
    by (auto simp: define_template_def and_then_Inl_iff or_reject_def split: if_splits option.splits)
qed

text \<open>C36: 
  A configuration in which the words that call templates occur only where they call one, and in which
  \<open>concat\<close> cannot make them up: the expansion ends, with an error or with what is meant, and no call
  of a template is left.
\<close>

theorem templates_expand:
  assumes "ok_exprs (as_exprs tls)"
  shows "\<exists>r. (\<exists>n0. \<forall>n\<ge>n0. expand_templates n tls = r)
    \<and> (r = Inl Rejected \<or>
       (\<exists>tps out. r = Inr out \<and> fold_res (\<lambda>(l, sp). define_template l) tls [] = Inr tps
         \<and> expands_all tps (as_exprs tls) (Inr (as_exprs out)) \<and> no_calls (as_exprs out)))"
proof (cases "fold_res (\<lambda>(l, sp). define_template l) tls []")
  case (Inl f)
  have "fold_res (\<lambda>(l, sp). define_template l) tls tps = Inl f \<Longrightarrow> f = Rejected" for tps
    using define_template_errors
    by (induction tls arbitrary: tps) (auto simp: and_then_Inl_iff)
  then have "\<forall>n\<ge>0. expand_templates n tls = Inl Rejected" using Inl by (simp add: expand_templates_def)
  then show ?thesis by blast
next
  case (Inr tps)
  obtain R n0 where R: "expands_all tps (as_exprs tls) R" "\<And>n. n0 \<le> n \<Longrightarrow> expand n tps (as_exprs tls) = R"
      "rejected_or (\<lambda>out. ok_exprs out \<and> no_calls out) R"
    using expand_settles [OF collected_ok [OF assms Inr] assms] by (auto simp: settles_def)
  let ?top = "map_res (\<lambda>e. case e of Atom s sp \<Rightarrow> Inl Rejected | SList l sp \<Rightarrow> Inr (l, sp))"
  have e: "expand_templates n tls = and_then R ?top" if "n0 \<le> n" for n
    using R(2) [OF that] Inr by (simp add: expand_templates_def as_exprs_def)
  have top: "?top es = Inl Rejected \<or> (\<exists>out. ?top es = Inr out \<and> es = as_exprs out)" for es
    by (induction es) (auto simp: as_exprs_def and_then_Inl_iff split: sexpr.splits)
  show ?thesis
  proof (cases R)
    case (Inl f)
    then show ?thesis using e R(3) by auto
  next
    case es: (Inr es)
    then consider "?top es = Inl Rejected" | out where "?top es = Inr out" "es = as_exprs out"
      using top by blast
    then show ?thesis
    proof cases
      case 1
      then show ?thesis using e es by auto
    next
      case 2
      then show ?thesis using e es R(1,3) Inr by auto
    qed
  qed
qed

section \<open>Words out of place\<close>

text \<open>A parameter that is the word \<open>t!\<close>: the expansion is the same call again.\<close>

abbreviation word :: "string \<Rightarrow> sexpr" where "word s \<equiv> Atom s span_default"
abbreviation slist :: "sexpr list \<Rightarrow> sexpr" where "slist l \<equiv> SList l span_default"

definition endless_example :: "spanned_list list" where
  "endless_example =
     [([word ''deftemplate'', word ''a'', slist [word ''x''], slist [word ''$x'', word ''a'', word ''$x'']], span_default),
      ([word ''t!'', word ''a'', word ''t!''], span_default)]"

lemma expansion_never_ends: "expand_templates n endless_example = Inl NeverReturns"
proof -
  let ?t = "\<lparr>tp_name = ''a'', tp_vars = [''x''], tp_vars_substitute_names = [''$x''],
      tp_content = [slist [word ''$x'', word ''a'', word ''$x'']]\<rparr>"
  let ?d = "[word ''deftemplate'', word ''a'', slist [word ''x''], slist [word ''$x'', word ''a'', word ''$x'']]"
  let ?c = "[word ''t!'', word ''a'', word ''t!'']"
  have d: "fold_res (\<lambda>(l, sp). define_template l) endless_example [] = Inr [?t]"
    by (simp add: endless_example_def define_template_def nth_expr_def validate_atom_def is_expand_word_def)
  have c: "expand_call [?t] ?c = Inr [slist ?c]"
    by (simp add: expand_call_def nth_expr_def instantiate_template_def parse_list_var_plain
        evaluate_all_conditionals.simps evaluate_conditionals_pass conditional_replacement_def
        strings_compare_replacement_def string_list_compare_replacement_def)
  have "expand n [?t] [slist ?d, slist ?c] = Inl NeverReturns" for n
  proof (induction n)
    case (Suc n)
    have "expand n [?t] ?d = Inr ?d \<or> expand n [?t] ?d = Inl NeverReturns"
      by (rule expand_no_calls_or_fuel) (simp add: is_expand_word_def)
    then show ?case
    proof
      assume "expand n [?t] ?d = Inr ?d"
      then show ?thesis using Suc.IH c by (simp add: expand_Suc is_expand_word_def)
    next
      assume "expand n [?t] ?d = Inl NeverReturns"
      then show ?thesis by (simp add: expand_Suc is_expand_word_def)
    qed
  qed simp
  then show ?thesis using d by (simp add: expand_templates_def endless_example_def)
qed

text \<open>A template whose content is the word \<open>t!\<close>: the call it becomes part of is not expanded.\<close>

definition leftover_example :: "spanned_list list" where
  "leftover_example =
     [([word ''deftemplate'', word ''b'', slist [], word ''t!''], span_default),
      ([slist [word ''t!'', word ''b''], word ''b''], span_default)]"

lemma expansion_leaves_call:
  "expand_templates 4 leftover_example =
     Inr [hd leftover_example, ([word ''t!'', word ''b''], span_default)]"
proof -
  let ?t = "\<lparr>tp_name = ''b'', tp_vars = [], tp_vars_substitute_names = [], tp_content = [word ''t!'']\<rparr>"
  have d: "fold_res (\<lambda>(l, sp). define_template l) leftover_example [] = Inr [?t]"
    by (simp add: leftover_example_def define_template_def nth_expr_def validate_atom_def is_expand_word_def)
  have c: "expand_call [?t] [word ''t!'', word ''b''] = Inr [word ''t!'']"
    by (simp add: expand_call_def nth_expr_def instantiate_template_def
        evaluate_all_conditionals.simps evaluate_conditionals_pass)
  show ?thesis
    using c by (simp add: expand_templates_def d, simp add: leftover_example_def eval_nat_numeral expand_Suc
        is_expand_word_def)
qed

text \<open>A template with a parameter and a conditional, called twice in one list.\<close>

definition pair_config :: "spanned_list list" where
  "pair_config =
     [([word ''deftemplate'', word ''twice'', slist [word ''x''],
        slist [word ''if-equal'', word ''$x'', word ''a'', word ''b''], word ''$x''], span_default),
      ([word ''defsrc'', slist [word ''t!'', word ''twice'', word ''a''],
        slist [word ''t!'', word ''twice'', word ''c'']], span_default)]"

lemma pair_config_in_order: "ok_exprs (as_exprs pair_config)"
  by (simp add: as_exprs_def pair_config_def ok_list_def ok_exprs.simps(3) is_expand_word_def is_reserved_def
      del: ok_exprs_SList)

theorem templates_expand_witness:
  "\<exists>r n0. \<forall>n\<ge>n0. expand_templates n pair_config = r \<and> r \<noteq> Inl NeverReturns"
  using templates_expand [OF pair_config_in_order] by auto

end
