(* ===== verification/MacroParser.thy ===== *)
theory MacroParser
  imports CfgHelpers CustomActions
begin

text \<open>
  The parser of macros (\<open>parser/src/cfg/macro.rs\<close>). \<open>parse_action\<close> is the argument \<open>pa\<close>; the number of
  nested lists is bounded by \<open>n\<close>, because a variable may hold a list that contains it.
\<close>

section \<open>Items of a macro\<close>

text \<open>\<open>while !remainder.is_empty()\<close>: every item takes at least one expression, so \<open>length es\<close> rounds are enough.\<close>

fun items_within :: "nat \<Rightarrow> (sexpr list \<Rightarrow> ('a list \<times> sexpr list) cfg_res) \<Rightarrow> sexpr list \<Rightarrow> 'a list cfg_res" where
  "items_within k item [] = Inr []"
| "items_within 0 item (e # es) = Inl NeverReturns"
| "items_within (Suc k) item (e # es) =
     and_then (item (e # es)) (\<lambda>(evs, rem).
     and_then (items_within k item rem) (\<lambda>evs'. Inr (evs @ evs')))"

definition while_items :: "(sexpr list \<Rightarrow> ('a list \<times> sexpr list) cfg_res) \<Rightarrow> sexpr list \<Rightarrow> 'a list cfg_res" where
  "while_items item es = items_within (length es) item es"

definition parse_mods_held_for_submacro :: "cfg_vars \<Rightarrow> sexpr \<Rightarrow> (keycode list \<times> string) cfg_res" where
  "parse_mods_held_for_submacro vs e =
     and_then (need_atom vs e) (\<lambda>mods.
     and_then (parse_mod_prefix mods) (\<lambda>(ks, unparsed).
       if ks = [] then Inl Rejected else Inr (ks, unparsed)))"

text \<open>With \<open>MacroNumberParseMode::Delay\<close> a number is a delay.\<close>

definition macro_delay :: "cfg_vars \<Rightarrow> sexpr \<Rightarrow> 't seq_event option cfg_res" where
  "macro_delay vs e =
     and_then (atom_of vs e) (\<lambda>a.
       case a of
         None \<Rightarrow> Inr None
       | Some s \<Rightarrow>
           (case parse_non_zero_u16 vs e of
              Inr d \<Rightarrow> Inr (Some (SeqDelay (ucast d)))
            | Inl Rejected \<Rightarrow> if list_all is_digit s then Inl Rejected else Inr None
            | Inl f \<Rightarrow> Inl f))"

text \<open>What is not an action: a list of items, or modifiers that are held for a list of items.\<close>

definition macro_submacro ::
  "(sexpr list \<Rightarrow> ('t seq_event list \<times> sexpr list) cfg_res) \<Rightarrow> cfg_vars \<Rightarrow> sexpr \<Rightarrow> sexpr list
     \<Rightarrow> ('t seq_event list \<times> sexpr list) cfg_res" where
  "macro_submacro item vs e rem =
     and_then (list_of vs e) (\<lambda>l.
       case l of
         Some submacro \<Rightarrow> and_then (while_items item submacro) (\<lambda>evs. Inr (evs, rem))
       | None \<Rightarrow>
           and_then (parse_mods_held_for_submacro vs e) (\<lambda>(held_mods, unparsed).
           and_then (list_of vs (Atom unparsed (sexpr_span e))) (\<lambda>l'.
           and_then
             (case l' of
                Some submacro \<Rightarrow> Inr (submacro, rem)
              | None \<Rightarrow>
                  if unparsed \<noteq> [] then Inl Rejected
                  else
                    (case rem of
                       [] \<Rightarrow> Inl Rejected
                     | e' # rem' \<Rightarrow> and_then (need_list vs e') (\<lambda>submacro. Inr (submacro, rem'))))
             (\<lambda>(submacro, rem').
               and_then (while_items item submacro) (\<lambda>evs.
                 Inr (map SeqPress held_mods @ evs @ map SeqRelease held_mods, rem'))))))"

definition macro_action ::
  "(sexpr list \<Rightarrow> ('t seq_event list \<times> sexpr list) cfg_res) \<Rightarrow> (sexpr \<Rightarrow> 't action cfg_res) \<Rightarrow> cfg_vars
     \<Rightarrow> sexpr \<Rightarrow> sexpr list \<Rightarrow> ('t seq_event list \<times> sexpr list) cfg_res" where
  "macro_action item pa vs e rem =
     (case pa e of
        Inr (KeyCode kc) \<Rightarrow> Inr ([SeqPress kc, SeqRelease kc], rem)
      | Inr (MultipleKeyCodes kcs) \<Rightarrow> Inr (map SeqPress kcs @ map SeqRelease (rev kcs), rem)
      | Inr (Custom c) \<Rightarrow> Inr ([SeqCustom c], rem)
      | Inr _ \<Rightarrow> Inl Rejected
      | Inl Rejected \<Rightarrow> macro_submacro item vs e rem
      | Inl f \<Rightarrow> Inl f)"

fun parse_macro_item_impl ::
  "(sexpr \<Rightarrow> 't action cfg_res) \<Rightarrow> cfg_vars \<Rightarrow> nat \<Rightarrow> bool \<Rightarrow> sexpr list
     \<Rightarrow> ('t seq_event list \<times> sexpr list) cfg_res" where
  "parse_macro_item_impl pa vs 0 delays acs = Inl NeverReturns"
| "parse_macro_item_impl pa vs (Suc n) delays [] = Inl ParserPanic"
| "parse_macro_item_impl pa vs (Suc n) delays (e # rem) =
     and_then (if delays then macro_delay vs e else Inr None) (\<lambda>d.
       case d of
         Some ev \<Rightarrow> Inr ([ev], rem)
       | None \<Rightarrow> macro_action (parse_macro_item_impl pa vs n True) pa vs e rem)"

definition parse_macro_item ::
  "(sexpr \<Rightarrow> 't action cfg_res) \<Rightarrow> cfg_vars \<Rightarrow> nat \<Rightarrow> sexpr list \<Rightarrow> ('t seq_event list \<times> sexpr list) cfg_res" where
  "parse_macro_item pa vs n = parse_macro_item_impl pa vs n True"

section \<open>The actions\<close>

datatype repeat_macro = RepeatYes | RepeatNo

fun event_key :: "'t seq_event \<Rightarrow> keycode option" where
  "event_key (SeqTap kc) = Some kc"
| "event_key (SeqPress kc) = Some kc"
| "event_key (SeqRelease kc) = Some kc"
| "event_key _ = None"

definition macro_events ::
  "(sexpr \<Rightarrow> 't action cfg_res) \<Rightarrow> cfg_vars \<Rightarrow> nat \<Rightarrow> sexpr list \<Rightarrow> 't seq_event list cfg_res" where
  "macro_events pa vs n ac_params =
     (if ac_params = [] then Inl Rejected
      else
        and_then (while_items (parse_macro_item pa vs n) ac_params) (\<lambda>evs.
          if \<exists>e\<in>set evs. event_key e = Some KEY_OVERLAP then Inl Rejected else Inr (evs @ [SeqComplete])))"

definition parse_macro ::
  "(sexpr \<Rightarrow> 't action cfg_res) \<Rightarrow> cfg_vars \<Rightarrow> nat \<Rightarrow> repeat_macro \<Rightarrow> sexpr list \<Rightarrow> 't action cfg_res" where
  "parse_macro pa vs n rpt ac_params =
     and_then (macro_events pa vs n ac_params) (\<lambda>evs.
       Inr (case rpt of RepeatNo \<Rightarrow> Sequence evs | RepeatYes \<Rightarrow> RepeatableSequence evs))"

definition macro_sequence_event_total_duration :: "'t seq_event list \<Rightarrow> u32" where
  "macro_sequence_event_total_duration evs =
     fold (\<lambda>e d. sat_add d (case e of SeqDelay d' \<Rightarrow> d' | _ \<Rightarrow> 1)) evs 0"

definition parse_macro_release_cancel ::
  "(sexpr \<Rightarrow> custom_action action cfg_res) \<Rightarrow> cfg_vars \<Rightarrow> nat \<Rightarrow> repeat_macro \<Rightarrow> sexpr list
     \<Rightarrow> custom_action action cfg_res" where
  "parse_macro_release_cancel pa vs n rpt ac_params =
     and_then (parse_macro pa vs n rpt ac_params) (\<lambda>m.
       Inr (MultipleActions [m, Custom CancelMacroOnRelease]))"

definition macro_duration :: "'t action \<Rightarrow> u32 cfg_res" where
  "macro_duration a =
     (case a of
        Sequence evs \<Rightarrow> Inr (macro_sequence_event_total_duration evs)
      | RepeatableSequence evs \<Rightarrow> Inr (macro_sequence_event_total_duration evs)
      | _ \<Rightarrow> Inl ParserPanic)"

definition parse_macro_cancel_on_next_press ::
  "(sexpr \<Rightarrow> custom_action action cfg_res) \<Rightarrow> cfg_vars \<Rightarrow> nat \<Rightarrow> repeat_macro \<Rightarrow> sexpr list
     \<Rightarrow> custom_action action cfg_res" where
  "parse_macro_cancel_on_next_press pa vs n rpt ac_params =
     and_then (parse_macro pa vs n rpt ac_params) (\<lambda>m.
     and_then (macro_duration m) (\<lambda>d.
       Inr (MultipleActions [m, Custom (CancelMacroOnNextPress d)])))"

definition parse_macro_cancel_on_next_press_cancel_on_release ::
  "(sexpr \<Rightarrow> custom_action action cfg_res) \<Rightarrow> cfg_vars \<Rightarrow> nat \<Rightarrow> repeat_macro \<Rightarrow> sexpr list
     \<Rightarrow> custom_action action cfg_res" where
  "parse_macro_cancel_on_next_press_cancel_on_release pa vs n rpt ac_params =
     and_then (parse_macro pa vs n rpt ac_params) (\<lambda>m.
     and_then (macro_duration m) (\<lambda>d.
       Inr (MultipleActions [m, Custom CancelMacroOnRelease, Custom (CancelMacroOnNextPress d)])))"

definition parse_macro_record_stop_truncate :: "cfg_vars \<Rightarrow> sexpr list \<Rightarrow> custom_action action cfg_res" where
  "parse_macro_record_stop_truncate vs ac_params =
     (case ac_params of
        [e] \<Rightarrow> and_then (parse_u16 vs e) (\<lambda>k. Inr (Custom (DynamicMacroRecordStop k)))
      | _ \<Rightarrow> Inl Rejected)"

section \<open>The shape of the events\<close>

text \<open>The events of an item are those of a tree: a delay or a custom action, a key, a chord, a list of
  items, and modifiers that are held during a list of items.\<close>

datatype 't macro_tree =
    MEvent "'t seq_event"
  | MTap keycode
  | MChord "keycode list"
  | MGroup "'t macro_tree list"
  | MHeld "keycode list" "'t macro_tree list"

fun tree_events :: "'t macro_tree \<Rightarrow> 't seq_event list" where
  "tree_events (MEvent e) = [e]"
| "tree_events (MTap kc) = [SeqPress kc, SeqRelease kc]"
| "tree_events (MChord kcs) = map SeqPress kcs @ map SeqRelease (rev kcs)"
| "tree_events (MGroup ts) = concat (map tree_events ts)"
| "tree_events (MHeld ms ts) = map SeqPress ms @ concat (map tree_events ts) @ map SeqRelease ms"

fun proper_tree :: "'t macro_tree \<Rightarrow> bool" where
  "proper_tree (MEvent e) \<longleftrightarrow> event_key e = None"
| "proper_tree (MTap kc) \<longleftrightarrow> True"
| "proper_tree (MChord kcs) \<longleftrightarrow> True"
| "proper_tree (MGroup ts) \<longleftrightarrow> (\<forall>t\<in>set ts. proper_tree t)"
| "proper_tree (MHeld ms ts) \<longleftrightarrow> ms \<noteq> [] \<and> (\<forall>t\<in>set ts. proper_tree t)"

definition item_tree :: "(sexpr list \<Rightarrow> ('t seq_event list \<times> sexpr list) cfg_res) \<Rightarrow> bool" where
  "item_tree item \<longleftrightarrow> (\<forall>acs evs rem. item acs = Inr (evs, rem) \<longrightarrow>
     (\<exists>t. evs = tree_events t \<and> proper_tree t) \<and> (\<exists>i>0. rem = drop i acs))"

lemma items_within_trees:
  "item_tree item \<Longrightarrow> items_within k item es = Inr evs
    \<Longrightarrow> \<exists>ts. evs = concat (map tree_events ts) \<and> (\<forall>t\<in>set ts. proper_tree t)"
proof (induction k item es arbitrary: evs rule: items_within.induct)
  case (3 k item e es)
  from 3(3) obtain evs1 rem evs2 where i: "item (e # es) = Inr (evs1, rem)"
    "items_within k item rem = Inr evs2" "evs = evs1 @ evs2"
    by (auto simp: and_then_Inr_iff)
  obtain t where "evs1 = tree_events t" "proper_tree t" using 3(2) i(1) unfolding item_tree_def by blast
  moreover obtain ts where "evs2 = concat (map tree_events ts)" "\<forall>t\<in>set ts. proper_tree t"
    using 3(1) [OF 3(2) i(2)] by blast
  ultimately show ?case using i(3) by (intro exI [of _ "t # ts"]) simp
qed (auto intro: exI [of _ "[]"])

lemma mods_held_nonempty: "parse_mods_held_for_submacro vs e = Inr (ks, r) \<Longrightarrow> ks \<noteq> []"
  by (auto simp: parse_mods_held_for_submacro_def and_then_Inr_iff split: if_splits)

lemma macro_submacro_tree:
  assumes "item_tree item" and "macro_submacro item vs e rem = Inr (evs, rem')"
  shows "(\<exists>t. evs = tree_events t \<and> proper_tree t) \<and> (\<exists>i. rem' = drop i rem)"
proof -
  obtain l where l: "list_of vs e = Inr l" using assms(2) by (auto simp: macro_submacro_def)
  show ?thesis
  proof (cases l)
    case (Some submacro)
    with assms(2) l have "while_items item submacro = Inr evs" "rem' = rem"
      by (auto simp: macro_submacro_def and_then_Inr_iff)
    then obtain ts where "evs = concat (map tree_events ts)" "\<forall>t\<in>set ts. proper_tree t"
      using items_within_trees [OF assms(1)] unfolding while_items_def by blast
    then show ?thesis using \<open>rem' = rem\<close>
      by (intro conjI exI [of _ "MGroup ts"] exI [of _ 0]) simp_all
  next
    case None
    with assms(2) l obtain ms u submacro evs1 where m: "parse_mods_held_for_submacro vs e = Inr (ms, u)"
      "while_items item submacro = Inr evs1" "evs = map SeqPress ms @ evs1 @ map SeqRelease ms"
      "rem' = rem \<or> (\<exists>e'. rem = e' # rem')"
      by (auto simp: macro_submacro_def and_then_Inr_iff split: option.splits if_splits list.splits)
    then obtain ts where "evs1 = concat (map tree_events ts)" "\<forall>t\<in>set ts. proper_tree t"
      using items_within_trees [OF assms(1)] unfolding while_items_def by blast
    then have "evs = tree_events (MHeld ms ts) \<and> proper_tree (MHeld ms ts)"
      using m(3) mods_held_nonempty [OF m(1)] by simp
    moreover have "\<exists>i. rem' = drop i rem" using m(4)
    proof (elim disjE exE)
      assume "rem' = rem"
      then show ?thesis by (intro exI [of _ 0]) simp
    next
      fix e' assume "rem = e' # rem'"
      then show ?thesis by (intro exI [of _ 1]) simp
    qed
    ultimately show ?thesis by blast
  qed
qed

lemma item_treeI:
  assumes "evs = tree_events t" and "proper_tree t" and "rem = drop i es" 
  shows "(\<exists>t. evs = tree_events t \<and> proper_tree t) \<and> (\<exists>j>0. rem = drop j (e # es))"
  using assms by (intro conjI exI [of _ t] exI [of _ "Suc i"]) simp_all

lemma macro_action_tree:
  assumes "item_tree item" and "macro_action item pa vs e rem = Inr (evs, rem')"
  shows "(\<exists>t. evs = tree_events t \<and> proper_tree t) \<and> (\<exists>i. rem' = drop i rem)"
proof (cases "pa e")
  case (Inl f)
  then have s: "macro_submacro item vs e rem = Inr (evs, rem')"
    using assms(2) by (cases f) (simp_all add: macro_action_def)
  then show ?thesis using macro_submacro_tree [OF assms(1)] by blast
next
  case (Inr a)
  have tree: ?thesis if "evs = tree_events t" "proper_tree t" "rem' = rem" for t
    using that by (intro conjI exI [of _ t] exI [of _ 0]) simp_all
  show ?thesis
  proof (cases a)
    case (KeyCode kc)
    then show ?thesis using assms(2) Inr by (intro tree [of "MTap kc"]) (simp_all add: macro_action_def)
  next
    case (MultipleKeyCodes kcs)
    then show ?thesis using assms(2) Inr by (intro tree [of "MChord kcs"]) (simp_all add: macro_action_def)
  next
    case (Custom c)
    then show ?thesis using assms(2) Inr
      by (intro tree [of "MEvent (SeqCustom c)"]) (simp_all add: macro_action_def)
  qed (use assms(2) Inr in \<open>simp_all add: macro_action_def\<close>)
qed

lemma macro_delay_event: "macro_delay vs e = Inr (Some ev) \<Longrightarrow> event_key ev = None"
  by (auto simp: macro_delay_def and_then_Inr_iff
      split: if_splits option.splits sum.splits cfg_fault.splits)

lemma parse_macro_item_tree: "item_tree (parse_macro_item_impl pa vs n delays)"
proof (induction n arbitrary: delays)
  case (Suc n)
  show ?case unfolding item_tree_def
  proof (intro allI impI)
    fix acs :: "sexpr list" and evs rem
    assume r: "parse_macro_item_impl pa vs (Suc n) delays acs = Inr (evs, rem)"
    then obtain e es where acs: "acs = e # es" by (cases acs) auto
    obtain d where d: "(if delays then macro_delay vs e else Inr None) = Inr d"
      and r': "(case d of Some ev \<Rightarrow> Inr ([ev], es)
          | None \<Rightarrow> macro_action (parse_macro_item_impl pa vs n True) pa vs e es) = Inr (evs, rem)"
      using r unfolding acs parse_macro_item_impl.simps and_then_Inr_iff by blast
    have *: "(\<exists>t. evs = tree_events t \<and> proper_tree t) \<and> (\<exists>i. rem = drop i es)"
    proof (cases d)
      case (Some ev)
      then have "event_key ev = None" using d by (auto intro: macro_delay_event split: if_splits)
      then show ?thesis using r' Some
        by (intro conjI exI [of _ "MEvent ev"] exI [of _ 0]) simp_all
    next
      case None
      then show ?thesis using macro_action_tree [OF Suc.IH] r' by simp
    qed
    then obtain i where "rem = drop (Suc i) acs" unfolding acs by auto
    then show "(\<exists>t. evs = tree_events t \<and> proper_tree t) \<and> (\<exists>i>0. rem = drop i acs)" using * by blast
  qed
qed (simp add: item_tree_def)

section \<open>Every key is released\<close>

text \<open>How often a key is pressed and not released after some events.\<close>

definition times_held :: "keycode \<Rightarrow> 't seq_event list \<Rightarrow> int" where
  "times_held kc evs =
     int (length (filter (\<lambda>e. e = SeqPress kc) evs)) - int (length (filter (\<lambda>e. e = SeqRelease kc) evs))"

lemma times_held_simps [simp]:
  "times_held kc [] = 0"
  "times_held kc (e # evs) = (if e = SeqPress kc then 1 else if e = SeqRelease kc then - 1 else 0) + times_held kc evs"
  "times_held kc (xs @ ys) = times_held kc xs + times_held kc ys"
  by (simp_all add: times_held_def)

text \<open>Every release comes after its press, and in the end everything is released.\<close>

definition balanced :: "'t seq_event list \<Rightarrow> bool" where
  "balanced evs \<longleftrightarrow> (\<forall>kc. times_held kc evs = 0 \<and> (\<forall>n. 0 \<le> times_held kc (take n evs)))"

lemma balanced_append: "balanced xs \<Longrightarrow> balanced ys \<Longrightarrow> balanced (xs @ ys)"
  by (simp add: balanced_def)

lemma balanced_concat: "(\<And>x. x \<in> set xs \<Longrightarrow> balanced x) \<Longrightarrow> balanced (concat xs)"
proof (induction xs)
  case Nil
  then show ?case by (simp add: balanced_def)
qed (simp add: balanced_append)

lemma times_held_presses:
  "times_held kc (map SeqPress ks) = int (count_list ks kc)"
  "times_held kc (map SeqRelease ks) = - int (count_list ks kc)"
  by (induction ks) auto

lemma count_list_take: "count_list (take n ks) kc \<le> count_list ks kc"
  by (metis append_take_drop_id count_list_append le_add1)

lemma balanced_held:
  assumes "balanced evs" and "\<And>kc. count_list ks' kc = count_list ks kc"
  shows "balanced (map SeqPress ks @ evs @ map SeqRelease ks')"
  unfolding balanced_def
proof (intro allI conjI)
  fix kc
  show "times_held kc (map SeqPress ks @ evs @ map SeqRelease ks') = 0"
    using assms by (simp add: balanced_def times_held_presses)
  fix n
  have "int (count_list (take m ks') kc) \<le> int (count_list ks kc)" for m
    using count_list_take [of m ks' kc] assms(2) by simp
  moreover have "0 \<le> times_held kc (take m evs)" for m using assms(1) by (simp add: balanced_def)
  ultimately show "0 \<le> times_held kc (take n (map SeqPress ks @ evs @ map SeqRelease ks'))"
  proof (cases "n < length ks")
    case False
    then show ?thesis using \<open>\<And>m. 0 \<le> times_held kc (take m evs)\<close>
        \<open>\<And>m. int (count_list (take m ks') kc) \<le> int (count_list ks kc)\<close> assms(1)
      by (cases "n - length ks < length evs")
         (simp_all add: take_map times_held_presses balanced_def add_increasing)
  qed (simp add: take_map times_held_presses)
qed

lemma balanced_tree: "proper_tree t \<Longrightarrow> balanced (tree_events t)"
proof (induction t rule: tree_events.induct)
  case (1 e)
  have "times_held kc [e] = 0" for kc using 1 by (cases e) auto
  then show ?case by (auto simp: balanced_def take_Cons split: nat.splits)
next
  case (2 kc)
  then show ?case using balanced_held [of "[]" "[kc]" "[kc]"] by (simp add: balanced_def)
next
  case (3 kcs)
  have "count_list (rev kcs) kc = count_list kcs kc" for kc by (induction kcs) auto
  then show ?case using balanced_held [of "[]" "rev kcs" kcs] by (simp add: balanced_def)
next
  case (4 ts)
  then show ?case by (auto intro!: balanced_concat)
next
  case (5 ms ts)
  then show ?case by (auto intro!: balanced_held balanced_concat)
qed

lemma macro_events_balanced:
  assumes "macro_events pa vs n ac_params = Inr evs"
  shows "balanced evs" and "\<exists>evs'. evs = evs' @ [SeqComplete]"
proof -
  from assms obtain evs' where e: "while_items (parse_macro_item pa vs n) ac_params = Inr evs'"
    "evs = evs' @ [SeqComplete]"
    by (auto simp: macro_events_def and_then_Inr_iff split: if_splits)
  then obtain ts where "evs' = concat (map tree_events ts)" "\<forall>t\<in>set ts. proper_tree t"
    using items_within_trees [OF parse_macro_item_tree] unfolding while_items_def parse_macro_item_def by blast
  then have "balanced evs'" by (auto intro!: balanced_concat balanced_tree)
  moreover have "balanced [SeqComplete]" by (auto simp: balanced_def take_Cons split: nat.splits)
  ultimately show "balanced evs" using balanced_append e(2) by blast
  show "\<exists>evs'. evs = evs' @ [SeqComplete]" using e(2) by blast
qed
text \<open>C16: Every key that an accepted macro presses it also releases afterwards.\<close>

theorem macro_releases_its_keys:
  assumes "macro_events pa vs n ac_params = Inr evs"
  shows "times_held kc evs = 0 \<and> (\<forall>i. 0 \<le> times_held kc (take i evs)) \<and> last evs = SeqComplete"
  using macro_events_balanced [OF assms] by (auto simp: balanced_def)

text \<open>\<open>(macro C-(a 10 b))\<close> with two keys\<close>

definition two_key_actions :: "sexpr \<Rightarrow> custom_action action cfg_res" where
  "two_key_actions e =
     (case plain_atom e of
        Some s \<Rightarrow> if s = ''a'' then Inr (KeyCode 30) else if s = ''b'' then Inr (KeyCode 48) else Inl Rejected
      | None \<Rightarrow> Inl Rejected)"

definition held_macro :: "sexpr list" where
  "held_macro = [Atom ''C-'' span_default,
     SList [Atom ''a'' span_default, Atom ''10'' span_default, Atom ''b'' span_default] span_default]"

lemma read_control: "parse_mod_prefix ''C-'' = Inr ([LCtrl], [])"
  by (simp add: parse_mod_prefix_def mod_prefixes.simps KEYMODI_def symbol_defs strip_prefix_def)

lemma read_items:
  "parse_macro_item_impl two_key_actions Map.empty (Suc n) d (Atom ''a'' sp # r) = Inr ([SeqPress 30, SeqRelease 30], r)"
  "parse_macro_item_impl two_key_actions Map.empty (Suc n) d (Atom ''b'' sp # r) = Inr ([SeqPress 48, SeqRelease 48], r)"
  "parse_macro_item_impl two_key_actions Map.empty (Suc n) True (Atom ''10'' sp # r) = Inr ([SeqDelay 10], r)"
  by (simp_all add: macro_action_def two_key_actions_def macro_delay_def parse_non_zero_u16_def parse_number_def
      digits_value_def is_digit_def)

lemma held_macro_events:
  "macro_events two_key_actions Map.empty (Suc (Suc 0)) held_macro =
     Inr [SeqPress LCtrl, SeqPress 30, SeqRelease 30, SeqDelay 10, SeqPress 48, SeqRelease 48, SeqRelease LCtrl, SeqComplete]"
proof -
  have "while_items (parse_macro_item_impl two_key_actions Map.empty (Suc 0) True)
      [Atom ''a'' span_default, Atom ''10'' span_default, Atom ''b'' span_default]
      = Inr [SeqPress 30, SeqRelease 30, SeqDelay 10, SeqPress 48, SeqRelease 48]"
    by (simp add: while_items_def read_items del: parse_macro_item_impl.simps)
  then have "parse_macro_item_impl two_key_actions Map.empty (Suc (Suc 0)) True held_macro
      = Inr ([SeqPress LCtrl, SeqPress 30, SeqRelease 30, SeqDelay 10, SeqPress 48, SeqRelease 48, SeqRelease LCtrl], [])"
    by (simp add: held_macro_def macro_action_def two_key_actions_def macro_delay_def macro_submacro_def
        parse_mods_held_for_submacro_def need_atom_def need_list_def read_control parse_non_zero_u16_def
        parse_number_def is_digit_def)
  then show ?thesis
    by (simp add: macro_events_def while_items_def parse_macro_item_def held_macro_def KEY_OVERLAP_def
        keycode_defs del: parse_macro_item_impl.simps)
qed

theorem macro_releases_its_keys_witness:
  "\<exists>evs. macro_events two_key_actions Map.empty (Suc (Suc 0)) held_macro = Inr evs \<and> SeqPress LCtrl \<in> set evs
     \<and> times_held LCtrl evs = 0 \<and> (\<forall>i. 0 \<le> times_held LCtrl (take i evs))"
  using macro_releases_its_keys [OF held_macro_events, of LCtrl] held_macro_events by simp

end
