(* ===== verification/Permutations.thy ===== *)
theory Permutations
  imports Prelude "HOL-Library.Multiset"
begin

text \<open>
  Heap's algorithm (\<open>parser/src/cfg/permutations.rs\<close>), which the parser of sequences uses for keys that
  may be pressed in any order: it lists every permutation of its argument exactly once.
\<close>

section \<open>The algorithm\<close>

text \<open>\<open>slice::swap\<close>\<close>

definition swap_at :: "nat \<Rightarrow> nat \<Rightarrow> 'a list \<Rightarrow> 'a list" where
  "swap_at i j xs = xs[i := xs ! j, j := xs ! i]"

text \<open>The array and the outputs are passed along; \<open>k - 1\<close> underflows for an empty array.\<close>

fun heaps_alg :: "nat \<Rightarrow> 'a list \<times> 'a list list \<Rightarrow> ('a list \<times> 'a list list) res" where
  "heaps_alg 0 s = Inl Panic"
| "heaps_alg (Suc 0) (a, outs) = Inr (a, outs @ [a])"
| "heaps_alg (Suc (Suc k)) s =
     and_then (heaps_alg (Suc k) s)
       (fold_res (\<lambda>i (a, outs).
          heaps_alg (Suc k)
            (if even (Suc (Suc k)) then swap_at i (Suc k) a else swap_at 0 (Suc k) a, outs)) [0..<Suc k])"

definition gen_permutations :: "'a list \<Rightarrow> 'a list list res" where
  "gen_permutations a = and_then (heaps_alg (length a) (a, [])) (\<lambda>(_, outs). Inr outs)"

section \<open>What a call does to the array\<close>

lemma length_swap_at [simp]: "length (swap_at i j xs) = length xs"
  by (simp add: swap_at_def)

lemma nth_swap_at:
  "i < length xs \<Longrightarrow> j < length xs \<Longrightarrow> p < length xs \<Longrightarrow>
     swap_at i j xs ! p = xs ! (if p = j then i else if p = i then j else p)"
  by (simp add: swap_at_def nth_list_update)

text \<open>Where the element at a position comes from, after the call for \<open>k\<close> elements.\<close>

definition heap_from :: "nat \<Rightarrow> nat \<Rightarrow> nat" where
  "heap_from k p =
     (if odd k then (if p = 0 then k - 1 else if p = k - 1 then 0 else p)
      else if k = 2 then (if p = 0 then 1 else if p = 1 then 0 else p)
      else if p = 0 then k - 3 else if p = 1 then k - 2 else if p < k - 2 then p - 1
      else if p = k - 2 then k - 1 else if p = k - 1 then 0 else p)"

text \<open>And before the call number \<open>j\<close> for \<open>k - 1\<close> elements that the call for \<open>k\<close> makes, for an even \<open>k\<close>.\<close>

definition even_from :: "nat \<Rightarrow> nat \<Rightarrow> nat \<Rightarrow> nat" where
  "even_from k j p =
     (if j = 0 \<or> k \<le> p then p
      else if j = k - 1 then
        (if p = 0 then k - 1 else if p = 1 then k - 2 else if p < k - 1 then p - 1 else 0)
      else if p = 0 then (if odd j then k - 1 else 0)
      else if p = k - 2 then (if odd j then 0 else k - 1)
      else if p = k - 1 then (if j = 1 then k - 2 else j - 1)
      else if j \<le> p then p else if p = 1 then k - 2 else p - 1)"

lemma heap_from_less: "p < k \<Longrightarrow> heap_from k p < k"
  by (auto simp: heap_from_def)

text \<open>One step: the call for \<open>k - 1\<close> elements, then the swap.\<close>

definition swap_from :: "nat \<Rightarrow> nat \<Rightarrow> nat \<Rightarrow> nat" where
  "swap_from k i p =
     (let i = (if even k then i else 0) in if p = k - 1 then i else if p = i then k - 1 else p)"

lemma heap_from_odd:
  "even m \<Longrightarrow> heap_from (Suc (Suc (Suc m))) q = (if q = 0 then Suc (Suc m) else if q = Suc (Suc m) then 0 else q)"
  by (simp add: heap_from_def)

lemma at_least_four:
  assumes "4 \<le> (k::nat)"
  obtains m where "k = Suc (Suc (Suc (Suc m)))"
proof -
  have "k = Suc (Suc (Suc (Suc (k - 4))))" using assms by simp
  then show thesis by (rule that)
qed

lemma even_from_Suc:
  assumes "even k" and "4 \<le> k" and "Suc j < k" and "p < k"
  shows "even_from k j (heap_from (k - 1) (swap_from k j p)) = even_from k (Suc j) p"
proof -
  obtain m where k: "k = Suc (Suc (Suc (Suc m)))" using assms(2) by (rule at_least_four)
  consider "j = 0" | "0 < j" "j < Suc (Suc m)" | "j = Suc (Suc m)" using assms(3) k by linarith
  then show ?thesis
  proof cases
    case 1
    then show ?thesis using assms by (simp add: k heap_from_odd even_from_def swap_from_def)
  next
    case 2
    then show ?thesis using assms by (auto simp: k heap_from_odd even_from_def swap_from_def)
  next
    case 3
    then show ?thesis using assms by (auto simp: k heap_from_odd even_from_def swap_from_def)
  qed
qed

lemma even_from_last:
  assumes "even k" and "4 \<le> k" and "p < k"
  shows "even_from k (k - 1) (heap_from (k - 1) p) = heap_from k p"
proof -
  obtain m where "k = Suc (Suc (Suc (Suc m)))" using assms(2) by (rule at_least_four)
  then show ?thesis using assms by (auto simp: even_from_def heap_from_def)
qed

text \<open>The source of the element at a position before the call number \<open>j\<close>.\<close>

fun src :: "nat \<Rightarrow> nat \<Rightarrow> nat \<Rightarrow> nat" where
  "src k 0 p = p"
| "src k (Suc j) p = src k j (heap_from (k - 1) (swap_from k j p))"

lemma heap_from_fix: "0 < k \<Longrightarrow> k \<le> p \<Longrightarrow> heap_from k p = p"
  by (cases "odd k") (auto simp: heap_from_def)

lemma swap_from_less: "i < k \<Longrightarrow> p < k \<Longrightarrow> swap_from k i p < k"
  by (auto simp: swap_from_def Let_def)

lemma heap_from_pred: "2 \<le> k \<Longrightarrow> p < k \<Longrightarrow> heap_from (k - 1) p < k"
  using heap_from_less [of p "k - 1"] heap_from_fix [of "k - 1" p] by (cases "p < k - 1") simp_all

lemma step_less: "2 \<le> k \<Longrightarrow> j < k \<Longrightarrow> p < k \<Longrightarrow> heap_from (k - 1) (swap_from k j p) < k"
  using heap_from_pred [of k "swap_from k j p"] swap_from_less [of j k p] by simp

lemma src_even:
  assumes "even k" and "4 \<le> k" and "j < k" and "p < k"
  shows "src k j p = even_from k j p"
  using assms(3,4)
proof (induction j arbitrary: p)
  case (Suc j)
  then have "heap_from (k - 1) (swap_from k j p) < k" using assms(2) by (intro step_less) auto
  with Suc show ?case using even_from_Suc [OF assms(1,2), of j p] by simp
qed (simp add: even_from_def)

text \<open>For an odd \<open>k\<close> every step does the same, and moves the elements around in one circle.\<close>

definition turn :: "nat \<Rightarrow> nat \<Rightarrow> nat" where
  "turn m p = heap_from m (swap_from (Suc m) 0 p)"

lemma src_odd:
  assumes "odd k"
  shows "src k j p = (turn (k - 1) ^^ j) p"
proof (induction j arbitrary: p)
  case (Suc j)
  have "swap_from k j p = swap_from (Suc (k - 1)) 0 p" using assms by (simp add: swap_from_def Let_def)
  then have "turn (k - 1) p = heap_from (k - 1) (swap_from k j p)" by (simp add: turn_def)
  then show ?case using Suc by (simp add: funpow_swap1)
qed simp

text \<open>The circle from the last position, for \<open>m = q + 4\<close>.\<close>

abbreviation plus_four :: "nat \<Rightarrow> nat" where
  "plus_four q \<equiv> Suc (Suc (Suc (Suc q)))"

lemma turn_simps:
  assumes "even q"
  shows "turn (plus_four q) (plus_four q) = Suc q" "0 < p \<Longrightarrow> p \<le> q \<Longrightarrow> turn (plus_four q) (Suc p) = p"
    "turn (plus_four q) (Suc 0) = Suc (Suc q)" "turn (plus_four q) (Suc (Suc q)) = Suc (Suc (Suc q))"
    "turn (plus_four q) (Suc (Suc (Suc q))) = 0" "turn (plus_four q) 0 = plus_four q"
  using assms by (auto simp: turn_def swap_from_def heap_from_def)

lemma turn_down:
  "even q \<Longrightarrow> j \<le> q \<Longrightarrow> (turn (plus_four q) ^^ Suc j) (plus_four q) = Suc q - j"
proof (induction j)
  case (Suc j)
  then have "turn (plus_four q) (Suc (q - j)) = q - j" by (intro turn_simps) auto
  with Suc show ?case by (simp add: Suc_diff_le)
qed (simp add: turn_simps)

lemma turn_end:
  assumes "even q"
  shows "(turn (plus_four q) ^^ Suc (Suc q)) (plus_four q) = Suc (Suc q)"
    "(turn (plus_four q) ^^ Suc (Suc (Suc q))) (plus_four q) = Suc (Suc (Suc q))"
    "(turn (plus_four q) ^^ plus_four q) (plus_four q) = 0"
    "(turn (plus_four q) ^^ Suc (plus_four q)) (plus_four q) = plus_four q"
proof -
  have "(turn (plus_four q) ^^ Suc q) (plus_four q) = Suc 0" using turn_down [OF assms, of q] by simp
  then show t: "(turn (plus_four q) ^^ Suc (Suc q)) (plus_four q) = Suc (Suc q)"
    using turn_simps(3) [OF assms] by simp
  then show t2: "(turn (plus_four q) ^^ Suc (Suc (Suc q))) (plus_four q) = Suc (Suc (Suc q))"
    using turn_simps(4) [OF assms] by simp
  then show t3: "(turn (plus_four q) ^^ plus_four q) (plus_four q) = 0"
    using turn_simps(5) [OF assms] by simp
  then show "(turn (plus_four q) ^^ Suc (plus_four q)) (plus_four q) = plus_four q"
    using turn_simps(6) [OF assms] by simp
qed

lemma even_cases:
  assumes "even m" and "2 \<le> m"
  obtains "m = 2" | q where "even q" "m = plus_four q"
proof (cases "m = 2")
  case False
  then have "4 \<le> m" using assms by presburger
  then obtain q where "m = plus_four q" by (rule at_least_four)
  with assms(1) show ?thesis by (intro that(2) [of q]) auto
qed (rule that)

lemma turn_two: "turn 2 2 = 1" "turn 2 (Suc 0) = 0" "turn 2 0 = 2"
  by (simp_all add: turn_def swap_from_def heap_from_def)

lemma turn_visits:
  assumes "even m" and "2 \<le> m" and "p \<le> m"
  obtains j where "j \<le> m" "(turn m ^^ j) m = p"
  using assms(1,2)
proof (cases rule: even_cases)
  case 1
  have "p = 0 \<or> p = 1 \<or> p = 2" using assms(3) 1 by linarith
  moreover have "(turn 2 ^^ 0) 2 = 2" "(turn 2 ^^ Suc 0) 2 = 1" "(turn 2 ^^ Suc (Suc 0)) 2 = 0"
    by (simp_all add: turn_two)
  ultimately show ?thesis using that [of 0] that [of "Suc 0"] that [of "Suc (Suc 0)"] 1 by auto
next
  case (2 q)
  consider "p = plus_four q" | "0 < p" "p \<le> Suc q" | "p = Suc (Suc q)" | "p = Suc (Suc (Suc q))" | "p = 0"
    using assms(3) 2 by linarith
  then show ?thesis
  proof cases
    case 1
    then show ?thesis using that [of 0] 2 by simp
  next
    case b: 2
    then show ?thesis using turn_down [OF 2(1), of "Suc q - p"] that [of "Suc (Suc q - p)"] 2(2) by auto
  next
    case 3
    then show ?thesis using turn_end(1) [OF 2(1)] that [of "Suc (Suc q)"] 2(2) by auto
  next
    case 4
    then show ?thesis using turn_end(2) [OF 2(1)] that [of "Suc (Suc (Suc q))"] 2(2) by auto
  next
    case 5
    then show ?thesis using turn_end(3) [OF 2(1)] that [of "plus_four q"] 2(2) by auto
  qed
qed

lemma turn_last:
  assumes "even m" and "2 \<le> m"
  shows "(turn m ^^ Suc m) m = m"
  using assms
proof (cases rule: even_cases)
  case 1
  have "(turn 2 ^^ Suc (Suc (Suc 0))) 2 = 2" by (simp add: turn_two)
  then show ?thesis using 1 by (simp only: numeral_2_eq_2)
next
  case (2 q)
  then show ?thesis using turn_end(4) [OF 2(1)] by simp
qed

lemma turn_around:
  assumes "even m" and "2 \<le> m" and "p \<le> m"
  shows "(turn m ^^ Suc m) p = p"
proof -
  obtain i where "(turn m ^^ i) m = p" using turn_visits [OF assms] .
  then have "(turn m ^^ Suc m) p = (turn m ^^ i) ((turn m ^^ Suc m) m)"
    by (metis add.commute comp_apply funpow_add)
  then show ?thesis using turn_last [OF assms(1,2)] \<open>(turn m ^^ i) m = p\<close> by simp
qed

section \<open>Rearrangements\<close>

definition rearr :: "(nat \<Rightarrow> nat) \<Rightarrow> 'a list \<Rightarrow> 'a list" where
  "rearr f a = map (\<lambda>p. a ! f p) [0..<length a]"

lemma rearr_simps [simp]: "length (rearr f a) = length a" "p < length a \<Longrightarrow> rearr f a ! p = a ! f p"
  by (simp_all add: rearr_def)

lemma rearr_cong: "(\<And>p. p < length a \<Longrightarrow> f p = g p) \<Longrightarrow> rearr f a = rearr g a"
  by (simp add: rearr_def)

lemma rearr_id: "(\<And>p. p < length a \<Longrightarrow> f p = p) \<Longrightarrow> rearr f a = a"
  by (intro nth_equalityI) simp_all

lemma rearr_ident [simp]: "rearr (\<lambda>p. p) a = a" by (rule rearr_id) simp

lemma rearr_rearr:
  "(\<And>p. p < length a \<Longrightarrow> g p < length a) \<Longrightarrow> rearr g (rearr f a) = rearr (\<lambda>p. f (g p)) a"
  by (intro nth_equalityI) simp_all

lemma swap_rearr:
  assumes "i < k" and "k \<le> length a"
  shows "swap_at (if even k then i else 0) (k - 1) a = rearr (swap_from k i) a"
  using assms by (intro nth_equalityI) (auto simp: swap_at_def nth_list_update swap_from_def Let_def)

lemma src_less: "2 \<le> k \<Longrightarrow> j < k \<Longrightarrow> p < k \<Longrightarrow> src k j p < k"
proof (induction j arbitrary: p)
  case (Suc j)
  then show ?case using step_less [of k j p] by simp
qed simp

lemma src_fix: "2 \<le> k \<Longrightarrow> j < k \<Longrightarrow> k \<le> p \<Longrightarrow> src k j p = p"
proof (induction j)
  case (Suc j)
  then have "swap_from k j p = p" "heap_from (k - 1) p = p"
    using heap_from_fix [of "k - 1" p] by (auto simp: swap_from_def Let_def)
  with Suc show ?case by simp
qed simp

lemma drop_rearr:
  assumes "\<And>p. n \<le> p \<Longrightarrow> f p = p"
  shows "drop n (rearr f a) = drop n a"
  using assms by (intro nth_equalityI) simp_all

section \<open>The outputs\<close>

definition perms :: "nat \<Rightarrow> 'a list \<Rightarrow> 'a list set" where
  "perms n a = {p @ drop n a | p. mset p = mset (take n a)}"

text \<open>The permutations of \<open>k\<close> elements, sorted by the last one.\<close>

lemma perms_step:
  assumes "0 < k" and "k \<le> length a"
    and "\<And>j. j < k \<Longrightarrow> mset (take k (A j)) = mset (take k a) \<and> drop k (A j) = drop k a \<and> length (A j) = length a"
    and "\<And>p. p < k \<Longrightarrow> \<exists>j<k. A j ! (k - 1) = a ! p"
  shows "perms k a = (\<Union>j<k. perms (k - 1) (A j))"
proof -
  have split: "take k (A j) = take (k - 1) (A j) @ [A j ! (k - 1)]"
    "drop (k - 1) (A j) = A j ! (k - 1) # drop k a" if "j < k" for j
    using assms(1,2) assms(3) [OF that] take_Suc_conv_app_nth [of "k - 1" "A j"] Cons_nth_drop_Suc [of "k - 1" "A j"]
    by simp_all
  show ?thesis
  proof (intro equalityI subsetI)
    fix x assume "x \<in> perms k a"
    then obtain p where p: "x = p @ drop k a" "mset p = mset (take k a)" by (auto simp: perms_def)
    then have "length p = k" using assms(2) by (metis length_take min.absorb2 size_mset)
    then obtain q e where q: "p = q @ [e]" using assms(1) by (cases p rule: rev_cases) auto
    then have "e \<in> set (take k a)" using p(2) by (metis in_set_conv_decomp set_mset_mset)
    then obtain i where "i < k" "a ! i = e" using assms(2) by (auto simp: in_set_conv_nth)
    then obtain j where j: "j < k" "A j ! (k - 1) = e" using assms(4) by blast
    have "mset (take k (A j)) = mset p" using assms(3) [OF j(1)] p(2) by simp
    then have "mset q = mset (take (k - 1) (A j))" using split(1) [OF j(1)] j(2) q by simp
    moreover have "x = q @ drop (k - 1) (A j)" using split(2) [OF j(1)] j(2) p(1) q by simp
    ultimately show "x \<in> (\<Union>j<k. perms (k - 1) (A j))" using j(1) by (auto simp: perms_def)
  next
    fix x assume "x \<in> (\<Union>j<k. perms (k - 1) (A j))"
    then obtain j q where j: "j < k" and q: "x = q @ drop (k - 1) (A j)" "mset q = mset (take (k - 1) (A j))"
      by (auto simp: perms_def)
    have "mset (q @ [A j ! (k - 1)]) = mset (take k a)"
      using split(1) [OF j] q(2) assms(3) [OF j] by (metis mset_append)
    moreover have "x = (q @ [A j ! (k - 1)]) @ drop k a" using q(1) split(2) [OF j] by simp
    ultimately show "x \<in> perms k a" unfolding perms_def by blast
  qed
qed

lemma mset_take_swap:
  assumes "i < k" and "j < k" and "k \<le> length a"
  shows "mset (take k (swap_at i j a)) = mset (take k a)"
proof -
  have "take k (swap_at i j a) = (take k a)[i := take k a ! j, j := take k a ! i]"
    using assms by (simp add: swap_at_def take_update_swap)
  then show ?thesis using assms mset_swap [of j "take k a" i] by simp
qed

section \<open>Correctness\<close>

text \<open>The array and the outputs after a call.\<close>

definition heap_result :: "nat \<Rightarrow> 'a list \<Rightarrow> 'a list list \<Rightarrow> ('a list \<times> 'a list list) res \<Rightarrow> bool" where
  "heap_result k a outs r \<longleftrightarrow>
     (\<exists>L. r = Inr (rearr (heap_from k) a, outs @ L) \<and> length L = fact k \<and> set L = perms k a
        \<and> mset (take k (rearr (heap_from k) a)) = mset (take k a))"

text \<open>The array before the call number \<open>j\<close>.\<close>

lemma array_before:
  assumes "2 \<le> k" and "k \<le> length a" and "Suc j < k"
  shows "swap_at (if even k then j else 0) (k - 1) (rearr (\<lambda>p. src k j (heap_from (k - 1) p)) a)
       = rearr (src k (Suc j)) a"
proof -
  have "swap_at (if even k then j else 0) (k - 1) (rearr (\<lambda>p. src k j (heap_from (k - 1) p)) a)
      = rearr (swap_from k j) (rearr (\<lambda>p. src k j (heap_from (k - 1) p)) a)"
    using assms swap_rearr [of j k "rearr (\<lambda>p. src k j (heap_from (k - 1) p)) a"] by simp
  also have "\<dots> = rearr (src k (Suc j)) a"
    using assms by (subst rearr_rearr) (auto simp: swap_from_def Let_def intro!: rearr_cong)
  finally show ?thesis .
qed

text \<open>A call for \<open>k - 1\<close> elements only moves elements among the first \<open>k\<close>.\<close>

lemma mset_take_grow:
  assumes "mset (take (k - 1) b) = mset (take (k - 1) a)" and "drop (k - 1) b = drop (k - 1) a"
  shows "mset (take k b) = mset (take k a)"
proof (cases k)
  case (Suc n)
  have "take k c = take n c @ take 1 (drop n c)" for c :: "'a list"
    using take_add [of n 1 c] by (simp add: Suc)
  then show ?thesis using assms Suc by simp
qed simp

lemma heap_call:
  assumes rec: "\<And>(a :: 'a list) outs. k - 1 \<le> length a \<Longrightarrow> heap_result (k - 1) a outs (heaps_alg (k - 1) (a, outs))"
    and k: "2 \<le> k" "k \<le> length a"
    and A: "mset (take k (rearr f (a :: 'a list))) = mset (take k a)" and f: "\<And>p. p < length a \<Longrightarrow> f p < length a"
  shows "\<exists>L. heaps_alg (k - 1) (rearr f a, outs) = Inr (rearr (\<lambda>p. f (heap_from (k - 1) p)) a, outs @ L)
    \<and> length L = fact (k - 1) \<and> set L = perms (k - 1) (rearr f a)
    \<and> mset (take k (rearr (\<lambda>p. f (heap_from (k - 1) p)) a)) = mset (take k a)"
proof -
  let ?b = "rearr f a"
  have "k - 1 \<le> length ?b" using k by simp
  then obtain L where L: "heaps_alg (k - 1) (?b, outs) = Inr (rearr (heap_from (k - 1)) ?b, outs @ L)"
    "length L = fact (k - 1)" "set L = perms (k - 1) ?b"
    "mset (take (k - 1) (rearr (heap_from (k - 1)) ?b)) = mset (take (k - 1) ?b)"
    using rec [of ?b outs] by (auto simp: heap_result_def)
  have e: "rearr (heap_from (k - 1)) ?b = rearr (\<lambda>p. f (heap_from (k - 1) p)) a"
  proof (rule rearr_rearr)
    fix p assume "p < length a"
    then show "heap_from (k - 1) p < length a"
      using heap_from_less [of p "k - 1"] heap_from_fix [of "k - 1" p] k by (cases "p < k - 1") auto
  qed
  have "drop (k - 1) (rearr (heap_from (k - 1)) ?b) = drop (k - 1) ?b"
    by (rule drop_rearr) (use k heap_from_fix [of "k - 1"] in auto)
  then have "mset (take k (rearr (heap_from (k - 1)) ?b)) = mset (take k a)"
    using mset_take_grow [OF L(4)] A by simp
  then show ?thesis using L e by auto
qed

lemma src_bound:
  assumes "2 \<le> k" and "k \<le> length a" and "j < k" and "p < length a"
  shows "src k j p < length a"
  using assms src_less [of k j p] src_fix [of k j p] by (cases "p < k") auto

lemma heap_loop:
  assumes rec: "\<And>(a :: 'a list) outs. k - 1 \<le> length a \<Longrightarrow> heap_result (k - 1) a outs (heaps_alg (k - 1) (a, outs))"
    and k: "2 \<le> k" "k \<le> length (a :: 'a list)" and j: "j < k"
  shows "\<exists>L. and_then (heaps_alg (k - 1) (a, outs)) (fold_res (\<lambda>i (a, outs).
        heaps_alg (k - 1) (swap_at (if even k then i else 0) (k - 1) a, outs)) [0..<j])
      = Inr (rearr (\<lambda>p. src k j (heap_from (k - 1) p)) a, outs @ L)
    \<and> length L = Suc j * fact (k - 1) \<and> set L = (\<Union>i\<le>j. perms (k - 1) (rearr (src k i) a))
    \<and> (\<forall>i\<le>j. mset (take k (rearr (src k i) a)) = mset (take k a))
    \<and> mset (take k (rearr (\<lambda>p. src k j (heap_from (k - 1) p)) a)) = mset (take k a)"
  using j
proof (induction j)
  case 0
  show ?case using heap_call [OF rec k, of "\<lambda>p. p" outs] by (auto simp: rearr_def [of "\<lambda>p. p"] map_nth)
next
  case (Suc j)
  let ?f = "\<lambda>i (a, outs). heaps_alg (k - 1) (swap_at (if even k then i else 0) (k - 1) a, outs)"
  let ?a = "rearr (\<lambda>p. src k j (heap_from (k - 1) p)) a"
  obtain L where L: "and_then (heaps_alg (k - 1) (a, outs)) (fold_res ?f [0..<j]) = Inr (?a, outs @ L)"
    "length L = Suc j * fact (k - 1)" "set L = (\<Union>i\<le>j. perms (k - 1) (rearr (src k i) a))"
    "\<forall>i\<le>j. mset (take k (rearr (src k i) a)) = mset (take k a)" "mset (take k ?a) = mset (take k a)"
    using Suc by auto
  have b: "swap_at (if even k then j else 0) (k - 1) ?a = rearr (src k (Suc j)) a"
    by (rule array_before) (use k Suc.prems in auto)
  have m: "mset (take k (rearr (src k (Suc j)) a)) = mset (take k a)"
    using mset_take_swap [of "if even k then j else 0" k "k - 1" ?a] b L(5) k Suc.prems by auto
  obtain L' where L': "heaps_alg (k - 1) (rearr (src k (Suc j)) a, outs @ L)
      = Inr (rearr (\<lambda>p. src k (Suc j) (heap_from (k - 1) p)) a, (outs @ L) @ L')"
    "length L' = fact (k - 1)" "set L' = perms (k - 1) (rearr (src k (Suc j)) a)"
    "mset (take k (rearr (\<lambda>p. src k (Suc j) (heap_from (k - 1) p)) a)) = mset (take k a)"
    using heap_call [OF rec k m src_bound [OF k Suc.prems], of "outs @ L"] by blast
  obtain s where s: "heaps_alg (k - 1) (a, outs) = Inr s" "fold_res ?f [0..<j] s = Inr (?a, outs @ L)"
    using L(1) by (auto simp: and_then_Inr_iff)
  have "and_then (heaps_alg (k - 1) (a, outs)) (fold_res ?f [0..<Suc j])
      = Inr (rearr (\<lambda>p. src k (Suc j) (heap_from (k - 1) p)) a, outs @ (L @ L'))"
    using s L'(1) b by (simp add: fold_res_append)
  moreover have "length (L @ L') = Suc (Suc j) * fact (k - 1)" using L(2) L'(2) by simp
  moreover have "set (L @ L') = (\<Union>i\<le>Suc j. perms (k - 1) (rearr (src k i) a))"
    using L(3) L'(3) by (auto simp: atMost_Suc)
  moreover have "\<forall>i\<le>Suc j. mset (take k (rearr (src k i) a)) = mset (take k a)"
    using L(4) m by (auto simp: le_Suc_eq)
  ultimately show ?case using L'(4) by blast
qed

text \<open>Every element is the last of the first \<open>k\<close> before some call, and the array after the last call is as expected.\<close>

lemma src_visits:
  assumes "2 \<le> k" and "p < k"
  shows "\<exists>j<k. src k j (k - 1) = p"
proof (cases "even k")
  case True
  then show ?thesis
  proof (cases "k = 2")
    case True
    then have "src k 0 (k - 1) = 1" "src k 1 (k - 1) = 0" by (simp_all add: swap_from_def heap_from_def)
    moreover have "p = 0 \<or> p = 1" using assms(2) True by linarith
    ultimately show ?thesis using True by (auto intro: exI [of _ 0] exI [of _ 1])
  next
    case False
    then have k: "4 \<le> k" using True assms(1) by presburger
    let ?j = "if p = k - 1 then 0 else if p = k - 2 then 1 else if p = 0 then k - 1 else Suc p"
    have "?j < k" using assms by auto
    moreover have "even_from k ?j (k - 1) = p" using assms k by (auto simp: even_from_def)
    ultimately show ?thesis using src_even [OF True k, of ?j "k - 1"] k by auto
  qed
next
  case False
  then have "even (k - 1)" "2 \<le> k - 1" "p \<le> k - 1" using assms by (auto, presburger)
  then obtain j where "j \<le> k - 1" "(turn (k - 1) ^^ j) (k - 1) = p" by (rule turn_visits)
  then show ?thesis using src_odd [OF False] assms(1) by (intro exI [of _ j]) auto
qed

lemma src_final:
  assumes "2 \<le> k" and "p < k"
  shows "src k (k - 1) (heap_from (k - 1) p) = heap_from k p"
proof (cases "even k")
  case True
  then show ?thesis
  proof (cases "k = 2")
    case True
    then have "p = 0 \<or> p = 1" using assms(2) by linarith
    then show ?thesis using True by (auto simp: swap_from_def heap_from_def)
  next
    case False
    then have k: "4 \<le> k" using True assms(1) by presburger
    show ?thesis
      using src_even [OF True k, of "k - 1" "heap_from (k - 1) p"] even_from_last [OF True k assms(2)]
        heap_from_pred [OF assms] assms by simp
  qed
next
  case False
  let ?m = "k - 1"
  have m: "even ?m" "2 \<le> ?m" using False assms(1) by (auto, presburger)
  have s: "swap_from k 0 (swap_from k 0 p) = p" using False assms by (simp add: swap_from_def)
  have km: "k = Suc ?m" using assms(1) by simp
  have "turn ?m (swap_from k 0 p) = heap_from ?m p" using s km by (simp add: turn_def)
  then have "src k ?m (heap_from ?m p) = (turn ?m ^^ Suc ?m) (swap_from k 0 p)"
    using src_odd [OF False] by (simp add: funpow_swap1)
  also have "\<dots> = swap_from k 0 p"
    using turn_around [OF m] swap_from_less [of 0 k p] assms by auto
  also have "\<dots> = heap_from k p" using False by (auto simp: swap_from_def heap_from_def)
  finally show ?thesis .
qed

lemma heaps_alg_result: "1 \<le> k \<Longrightarrow> k \<le> length a \<Longrightarrow> heap_result k a outs (heaps_alg k (a, outs))"
proof (induction k arbitrary: a outs rule: less_induct)
  case (less k)
  show ?case
  proof (cases "k = 1")
    case True
    have "rearr (heap_from 1) a = a" by (rule rearr_id) (simp add: heap_from_def)
    moreover have "perms (Suc 0) a = {a}" using less.prems True
      by (cases a) (auto simp: perms_def)
    ultimately show ?thesis by (simp add: heap_result_def True)
  next
    case False
    then have k: "2 \<le> k" "k \<le> length a" using less.prems by simp_all
    then obtain q where q: "k = Suc (Suc q)" using nat_le_iff_add [of 2 k] by auto
    have rec: "heap_result (k - 1) b o' (heaps_alg (k - 1) (b, o'))" if "k - 1 \<le> length b" for b :: "'a list" and o'
      using less.IH [of "k - 1" b o'] k that by simp
    from heap_loop [OF rec k, of "k - 1" outs] k obtain L where
      L: "and_then (heaps_alg (k - 1) (a, outs)) (fold_res (\<lambda>i (a, outs).
          heaps_alg (k - 1) (swap_at (if even k then i else 0) (k - 1) a, outs)) [0..<k - 1])
        = Inr (rearr (\<lambda>p. src k (k - 1) (heap_from (k - 1) p)) a, outs @ L)"
      "length L = k * fact (k - 1)" "set L = (\<Union>i\<le>k - 1. perms (k - 1) (rearr (src k i) a))"
      "\<forall>i\<le>k - 1. mset (take k (rearr (src k i) a)) = mset (take k a)"
      "mset (take k (rearr (\<lambda>p. src k (k - 1) (heap_from (k - 1) p)) a)) = mset (take k a)"
      by auto
    have e: "rearr (\<lambda>p. src k (k - 1) (heap_from (k - 1) p)) a = rearr (heap_from k) a"
    proof (rule rearr_cong)
      fix p assume "p < length a"
      show "src k (k - 1) (heap_from (k - 1) p) = heap_from k p"
        using src_final [of k p] src_fix [of k "k - 1" p] heap_from_fix [of "k - 1" p] heap_from_fix [of k p] k
        by (cases "p < k") auto
    qed
    have "heaps_alg k (a, outs) = and_then (heaps_alg (k - 1) (a, outs)) (fold_res (\<lambda>i (a, outs).
          heaps_alg (k - 1) (swap_at (if even k then i else 0) (k - 1) a, outs)) [0..<k - 1])"
      by (simp add: q if_distrib [of "\<lambda>i. swap_at i _ _"] cong: if_cong)
    moreover have "perms k a = (\<Union>i<k. perms (k - 1) (rearr (src k i) a))"
    proof (rule perms_step)
      fix j assume j: "j < k"
      show "mset (take k (rearr (src k j) a)) = mset (take k a) \<and> drop k (rearr (src k j) a) = drop k a
          \<and> length (rearr (src k j) a) = length a"
        using L(4) j k src_fix [OF k(1) j] drop_rearr [of k "src k j" a] by auto
    next
      fix p assume "p < k"
      then obtain j where "j < k" "src k j (k - 1) = p" using src_visits [OF k(1)] by blast
      then show "\<exists>j<k. rearr (src k j) a ! (k - 1) = a ! p" using k by (intro exI [of _ j]) auto
    qed (use k in auto)
    moreover have "{..k - 1} = {..<k}" using k by auto
    ultimately show ?thesis
      using L e k by (simp add: heap_result_def fact_reduce [of k])
  qed
qed

lemma gen_permutations_set:
  assumes "xs \<noteq> []"
  shows "\<exists>ps. gen_permutations xs = Inr ps \<and> set ps = {p. mset p = mset xs} \<and> length ps = fact (length xs)"
proof -
  have "heap_result (length xs) xs [] (heaps_alg (length xs) (xs, []))"
    using assms by (intro heaps_alg_result) (simp_all add: Suc_leI)
  then obtain ps where "heaps_alg (length xs) (xs, []) = Inr (rearr (heap_from (length xs)) xs, ps)"
    "length ps = fact (length xs)" "set ps = perms (length xs) xs"
    by (auto simp: heap_result_def)
  then show ?thesis by (simp add: gen_permutations_def perms_def)
qed

text \<open>C37: Every permutation of the list is generated, nothing else is, and for distinct elements each of them once.\<close>

theorem gen_permutations_all:
  assumes "xs \<noteq> []"
  shows "\<exists>ps. gen_permutations xs = Inr ps \<and> set ps = {p. mset p = mset xs}
    \<and> length ps = fact (length xs) \<and> (distinct xs \<longrightarrow> distinct ps)"
proof -
  obtain ps where ps: "gen_permutations xs = Inr ps" "set ps = {p. mset p = mset xs}" "length ps = fact (length xs)"
    using gen_permutations_set [OF assms] by blast
  have "distinct ps" if "distinct xs"
  proof (rule card_distinct)
    have "mset p = mset xs \<longleftrightarrow> length p = length xs \<and> distinct p \<and> set p \<subseteq> set xs" for p
      using that by (metis card_subset_eq distinct_card finite_set mset_eq_imp_distinct_iff mset_eq_length
          mset_eq_setD set_eq_iff_mset_eq_distinct subset_refl)
    then show "card (set ps) = length ps"
      using card_lists_distinct_length_eq [of "set xs" "length xs"] ps(2,3) that
      by (simp add: distinct_card fact_prod)
  qed
  then show ?thesis using ps by simp
qed

theorem gen_permutations_all_witness:
  "\<exists>ps. gen_permutations [10, 20, 30 :: nat] = Inr ps \<and> [20, 30, 10] \<in> set ps \<and> length ps = 6 \<and> distinct ps"
  using gen_permutations_all [of "[10, 20, 30 :: nat]"] by (auto simp: fact_numeral)

end
