(* ===== verification/DefSeq.thy ===== *)
theory DefSeq
  imports MacroParser Permutations
begin

text \<open>
  The configured sequences (\<open>parser/src/cfg/sequence.rs\<close>): the keys of a sequence are read as the events of a
  macro and turned into 16-bit codes whose upper bits are the modifiers held; keys that overlap are put in
  every order; and the results go into the trie unless one is the beginning of another. The map behind the
  trie (\<open>parser/src/trie.rs\<close>) is a function from keys to values; its prefix searches are arguments.
\<close>

section \<open>Codes\<close>

definition next_is_press :: "'t seq_event list \<Rightarrow> bool" where
  "next_is_press evs \<longleftrightarrow> (case evs of SeqPress k # _ \<Rightarrow> True | _ \<Rightarrow> False)"

definition next_is_release :: "'t seq_event list \<Rightarrow> bool" where
  "next_is_release evs \<longleftrightarrow> (case evs of SeqRelease k # _ \<Rightarrow> True | _ \<Rightarrow> False)"

definition with_mods :: "keycode list \<Rightarrow> keycode \<Rightarrow> u16" where
  "with_mods mods k = fold (\<lambda>m c. c OR mod_mask_for_keycode m) mods k"

text \<open>An overlapping key that is combined with other modifiers\<close>

definition mixed_overlap :: "u16 \<Rightarrow> bool" where
  "mixed_overlap c \<longleftrightarrow> c AND KEY_OVERLAP_MARKER = KEY_OVERLAP_MARKER \<and> c AND MASK_MODDED \<noteq> KEY_OVERLAP_MARKER"

text \<open>\<open>mods\<close> is \<open>mods_currently_held\<close> and \<open>d\<close> is \<open>do_release_mod\<close>.\<close>

fun codes_of_events :: "'t seq_event list \<Rightarrow> keycode list \<Rightarrow> bool \<Rightarrow> u16 list cfg_res" where
  "codes_of_events [] mods d = Inr []"
| "codes_of_events (SeqPress k # evs) mods d =
     (let mods' = (if next_is_press evs then mods @ [k] else mods);
          c = with_mods mods' k in
      if mixed_overlap c then Inl Rejected
      else and_then (codes_of_events evs mods' d) (\<lambda>cs. Inr (if k \<noteq> KEY_OVERLAP then c # cs else cs)))"
| "codes_of_events (SeqRelease k # evs) mods d =
     and_then (if d then if k \<in> set mods then Inr (remove1 k mods) else Inl ParserPanic else Inr mods) (\<lambda>mods'.
     and_then (codes_of_events evs mods' (next_is_release evs)) (\<lambda>cs.
       Inr (if k = KEY_OVERLAP then KEY_OVERLAP_MARKER # cs else cs)))"
| "codes_of_events (_ # evs) mods d = Inl ParserPanic"

definition press_or_release :: "'t seq_event \<Rightarrow> bool" where
  "press_or_release e \<longleftrightarrow> (case e of SeqPress k \<Rightarrow> True | SeqRelease k \<Rightarrow> True | _ \<Rightarrow> False)"

definition sequence_item ::
  "(sexpr \<Rightarrow> 't action cfg_res) \<Rightarrow> cfg_vars \<Rightarrow> nat \<Rightarrow> sexpr list \<Rightarrow> (u16 list \<times> sexpr list) cfg_res" where
  "sequence_item pa vs n exprs =
     and_then (parse_macro_item_impl pa vs n False exprs) (\<lambda>(evs, rem).
       if \<not> list_all press_or_release evs then Inl Rejected
       else and_then (codes_of_events evs [] False) (\<lambda>cs. Inr (cs, rem)))"

definition parse_sequence_keys ::
  "(sexpr \<Rightarrow> 't action cfg_res) \<Rightarrow> cfg_vars \<Rightarrow> nat \<Rightarrow> sexpr list \<Rightarrow> u16 list cfg_res" where
  "parse_sequence_keys pa vs n exprs = while_items (sequence_item pa vs n) exprs"

section \<open>Overlapping keys in every order\<close>

definition permutations_of :: "u16 list \<Rightarrow> u16 list list cfg_res" where
  "permutations_of vals = (case gen_permutations vals of Inl f \<Rightarrow> Inl ParserPanic | Inr ps \<Rightarrow> Inr ps)"

function expand_overlaps :: "u16 list \<Rightarrow> u16 list list \<Rightarrow> u16 list list cfg_res" where
  "expand_overlaps [] ps = Inr ps"
| "expand_overlaps (v # vs) ps =
     (if v AND KEY_OVERLAP_MARKER = 0 then expand_overlaps vs (map (\<lambda>p. p @ [v]) ps)
      else if v = 0x0400 then Inl Rejected
      else
        let vals = v # takeWhile (\<lambda>v. v \<noteq> 0x0400) vs;
            rest = drop (length vals) vs in
        if length vals \<le> 1 then Inl Rejected
        else if length vals \<le> 6 then
          and_then (permutations_of vals) (\<lambda>ps2.
            expand_overlaps rest (concat (map (\<lambda>p. map (\<lambda>p2. p @ p2 @ [KEY_OVERLAP_MARKER]) ps2) ps)))
        else Inl Rejected)"
  by pat_completeness auto
termination by (relation "measure (length \<circ> fst)") auto

section \<open>The trie\<close>

type_synonym 'v patricia = "u8 list \<rightharpoonup> 'v"

text \<open>\<open>get_longest_common_prefix\<close> and \<open>longest_common_prefix_len\<close> of the map are the arguments \<open>glcp\<close>
  and \<open>lcpl\<close>.\<close>

definition ancestor_exists :: "('v patricia \<Rightarrow> u8 list \<Rightarrow> (u8 list \<times> 'v) option) \<Rightarrow> 'v patricia \<Rightarrow> u16 list \<Rightarrow> bool" where
  "ancestor_exists glcp m key \<longleftrightarrow> glcp m (cast_slice key) \<noteq> None"

definition descendant_exists :: "('v patricia \<Rightarrow> u8 list \<Rightarrow> nat) \<Rightarrow> 'v patricia \<Rightarrow> u16 list \<Rightarrow> bool" where
  "descendant_exists lcpl m key \<longleftrightarrow> lcpl m (cast_slice key) = key_len key"

definition trie_insert :: "u16 list \<Rightarrow> 'v \<Rightarrow> 'v patricia \<Rightarrow> 'v patricia" where
  "trie_insert key v m = m(cast_slice key \<mapsto> v)"

definition insert_sequence ::
  "('v patricia \<Rightarrow> u8 list \<Rightarrow> (u8 list \<times> 'v) option) \<Rightarrow> ('v patricia \<Rightarrow> u8 list \<Rightarrow> nat) \<Rightarrow> 'v
     \<Rightarrow> u16 list \<Rightarrow> 'v patricia \<Rightarrow> 'v patricia cfg_res" where
  "insert_sequence glcp lcpl v p m =
     (if ancestor_exists glcp m p then Inl Rejected
      else if descendant_exists lcpl m p then Inl Rejected
      else Inr (trie_insert p v m))"

section \<open>\<open>defseq\<close>\<close>

definition FAKE_KEY_ROW :: u8 where "FAKE_KEY_ROW = 1"

definition get_fake_key_coords :: "nat \<Rightarrow> kcoord" where
  "get_fake_key_coords y = (FAKE_KEY_ROW, of_nat y)"

text \<open>The pairs of one \<open>defseq\<close>; \<open>vkeys\<close> maps the name of a virtual key to its number.\<close>

fun parse_defseq_pairs ::
  "(sexpr \<Rightarrow> 't action cfg_res) \<Rightarrow> cfg_vars \<Rightarrow> (string \<rightharpoonup> nat) \<Rightarrow> nat
     \<Rightarrow> (kcoord patricia \<Rightarrow> u8 list \<Rightarrow> (u8 list \<times> kcoord) option) \<Rightarrow> (kcoord patricia \<Rightarrow> u8 list \<Rightarrow> nat)
     \<Rightarrow> sexpr list \<Rightarrow> kcoord patricia \<Rightarrow> kcoord patricia cfg_res" where
  "parse_defseq_pairs pa vs vkeys n glcp lcpl [] m = Inr m"
| "parse_defseq_pairs pa vs vkeys n glcp lcpl (e # es) m =
     and_then (need_atom vs e) (\<lambda>vkey.
     and_then (or_reject (vkeys vkey)) (\<lambda>y.
       case es of
         [] \<Rightarrow> Inl Rejected
       | e' # es' \<Rightarrow>
           and_then (need_list vs e') (\<lambda>key_seq.
             if key_seq = [] then Inl Rejected
             else
               and_then (parse_sequence_keys pa vs n key_seq) (\<lambda>codes.
               and_then (expand_overlaps codes [[]]) (\<lambda>ps.
               and_then (fold_res (insert_sequence glcp lcpl (get_fake_key_coords y)) ps m) (\<lambda>m'.
                 parse_defseq_pairs pa vs vkeys n glcp lcpl es' m'))))))"

definition parse_sequences ::
  "(sexpr \<Rightarrow> 't action cfg_res) \<Rightarrow> cfg_vars \<Rightarrow> (string \<rightharpoonup> nat) \<Rightarrow> nat
     \<Rightarrow> (kcoord patricia \<Rightarrow> u8 list \<Rightarrow> (u8 list \<times> kcoord) option) \<Rightarrow> (kcoord patricia \<Rightarrow> u8 list \<Rightarrow> nat)
     \<Rightarrow> sexpr list list \<Rightarrow> kcoord patricia cfg_res" where
  "parse_sequences pa vs vkeys n glcp lcpl exprs =
     fold_res (\<lambda>e m. and_then (check_first_expr e ''defseq'') (\<lambda>es.
       parse_defseq_pairs pa vs vkeys n glcp lcpl es m)) exprs Map.empty"

end
