(* ===== verification/DefSeqFacts.thy ===== *)
theory DefSeqFacts
  imports DefSeq SequenceFacts
begin

text \<open>
  Properties of the configured sequences: the codes against what the nested lists mean, the orders of
  overlapping keys, and the trie, in which no sequence is the beginning of another.
\<close>

section \<open>The codes of nested lists\<close>

lemma with_mods_mset: "mset mods = mset mods' \<Longrightarrow> with_mods mods k = with_mods mods' k"
  unfolding with_mods_def by (rule fun_cong [OF fold_multiset_equiv]) (auto simp: fun_eq_iff or.assoc or.commute or.left_commute)

lemma codes_mset: "mset mods = mset mods' \<Longrightarrow> codes_of_events evs mods d = codes_of_events evs mods' d"
proof (induction evs mods d arbitrary: mods' rule: codes_of_events.induct)
  case (2 k evs mods d)
  let ?mods = "if next_is_press evs then mods @ [k] else mods"
  let ?mods' = "if next_is_press evs then mods' @ [k] else mods'"
  have m: "mset ?mods = mset ?mods'" using 2(2) by simp
  then have c: "with_mods ?mods k = with_mods ?mods' k" by (rule with_mods_mset)
  show ?case
  proof (cases "mixed_overlap (with_mods ?mods k)")
    case True
    then show ?thesis using c by (cases "next_is_press evs") (simp_all add: Let_def)
  next
    case False
    then have "codes_of_events evs ?mods d = codes_of_events evs ?mods' d" using 2(1) [OF refl refl _ m] by simp
    then show ?thesis using c False by (cases "next_is_press evs") (simp_all add: Let_def cong: if_cong)
  qed
next
  case (3 k evs mods d)
  have s: "set mods = set mods'" using 3(2) by (rule mset_eq_setD)
  define r r' where "r = (if d then remove1 k mods else mods)" and "r' = (if d then remove1 k mods' else mods')"
  then have m: "mset r = mset r'" using 3(2) by simp
  show ?case
  proof (cases "d \<and> k \<notin> set mods")
    case True
    then show ?thesis using s by simp
  next
    case False
    have "codes_of_events evs r (next_is_release evs) = codes_of_events evs r' (next_is_release evs)"
      by (rule 3(1) [OF m])
    then show ?thesis using False s by (cases d) (simp_all add: r_def r'_def)
  qed
qed simp_all

lemma and_then_Inr [simp]: "and_then m Inr = m"
  by (cases m) simp_all

text \<open>What a nested list means: every key with the modifiers around it, in the order of the presses; a
  mark where an overlap ends.\<close>

type_synonym seq_token = "(keycode \<times> u16) option"

fun mods_tokens :: "keycode list \<Rightarrow> keycode list \<Rightarrow> seq_token list" where
  "mods_tokens held [] = []"
| "mods_tokens held (m # ms) = Some (m, with_mods (held @ [m]) m) # mods_tokens (held @ [m]) ms"

definition overlap_marks :: "keycode list \<Rightarrow> seq_token list" where
  "overlap_marks ks = replicate (count_list ks KEY_OVERLAP) None"

fun tree_tokens :: "keycode list \<Rightarrow> 't macro_tree \<Rightarrow> seq_token list" where
  "tree_tokens held (MEvent e) = []"
| "tree_tokens held (MTap k) = Some (k, with_mods held k) # overlap_marks [k]"
| "tree_tokens held (MChord ks) =
     mods_tokens held (butlast ks) @ Some (last ks, with_mods (held @ butlast ks) (last ks)) # overlap_marks ks"
| "tree_tokens held (MGroup ts) = concat (map (tree_tokens held) ts)"
| "tree_tokens held (MHeld ms ts) =
     mods_tokens held ms @ concat (map (tree_tokens (held @ ms)) ts) @ overlap_marks ms"

definition tokens_codes :: "seq_token list \<Rightarrow> u16 list cfg_res" where
  "tokens_codes toks =
     (if \<exists>k c. Some (k, c) \<in> set toks \<and> mixed_overlap c then Inl Rejected
      else Inr (concat (map (\<lambda>t. case t of None \<Rightarrow> [KEY_OVERLAP_MARKER]
                                  | Some (k, c) \<Rightarrow> if k = KEY_OVERLAP then [] else [c]) toks)))"

text \<open>Keys, chords and lists of keys that are not empty\<close>

fun key_tree :: "'t macro_tree \<Rightarrow> bool" where
  "key_tree (MEvent e) \<longleftrightarrow> False"
| "key_tree (MTap k) \<longleftrightarrow> True"
| "key_tree (MChord ks) \<longleftrightarrow> ks \<noteq> []"
| "key_tree (MGroup ts) \<longleftrightarrow> ts \<noteq> [] \<and> (\<forall>t\<in>set ts. key_tree t)"
| "key_tree (MHeld ms ts) \<longleftrightarrow> ts \<noteq> [] \<and> (\<forall>t\<in>set ts. key_tree t)"

fun with_tokens :: "seq_token list \<Rightarrow> u16 list cfg_res \<Rightarrow> u16 list cfg_res" where
  "with_tokens [] r = r"
| "with_tokens (None # ts) r = and_then (with_tokens ts r) (\<lambda>cs. Inr (KEY_OVERLAP_MARKER # cs))"
| "with_tokens (Some (k, c) # ts) r =
     (if mixed_overlap c then Inl Rejected
      else and_then (with_tokens ts r) (\<lambda>cs. Inr (if k \<noteq> KEY_OVERLAP then c # cs else cs)))"

lemma with_tokens_append: "with_tokens (ts @ ts') r = with_tokens ts (with_tokens ts' r)"
  by (induction ts r rule: with_tokens.induct) simp_all

lemma with_tokens_Nil: "with_tokens toks (Inr []) = tokens_codes toks"
proof (induction toks "Inr [] :: u16 list cfg_res" rule: with_tokens.induct)
  case (3 k c ts)
  show ?case
  proof (cases "mixed_overlap c")
    case False
    then show ?thesis using 3 by (auto simp: tokens_codes_def)
  qed (auto simp: tokens_codes_def)
qed (auto simp: tokens_codes_def)

lemma is_press_simps [simp]:
  "next_is_press (SeqPress k # evs)" "\<not> next_is_press (SeqRelease k # evs)" "\<not> next_is_press []"
  "next_is_release (SeqRelease k # evs)" "\<not> next_is_release (SeqPress k # evs)" "\<not> next_is_release []"
  by (simp_all add: next_is_press_def next_is_release_def)

lemma codes_presses:
  "next_is_press evs \<Longrightarrow> codes_of_events (map SeqPress ms @ evs) mods d
     = with_tokens (mods_tokens mods ms) (codes_of_events evs (mods @ ms) d)"
proof (induction ms arbitrary: mods)
  case (Cons m ms)
  have "next_is_press (map SeqPress ms @ evs)" using Cons.prems by (cases ms) simp_all
  then show ?case using Cons by (simp add: Let_def)
qed simp

lemma overlap_marks_Cons: "overlap_marks (k # ks) = overlap_marks [k] @ overlap_marks ks"
  by (simp add: overlap_marks_def)

lemma codes_releases:
  "ms \<noteq> [] \<Longrightarrow> mset mods = mset held + mset ms \<Longrightarrow> codes_of_events (map SeqRelease ms @ evs2) mods True
     = with_tokens (overlap_marks ms) (codes_of_events evs2 held (next_is_release evs2))"
proof (induction ms arbitrary: mods)
  case (Cons m ms)
  have m: "m \<in> set mods" using Cons.prems(2) by (metis list.set_intros(1) set_mset_mset union_iff)
  have r: "mset (remove1 m mods) = mset held + mset ms" using Cons.prems(2) by simp
  show ?case
  proof (cases ms)
    case Nil
    then have "codes_of_events evs2 (remove1 m mods) (next_is_release evs2) = codes_of_events evs2 held (next_is_release evs2)"
      using r by (intro codes_mset) simp
    then show ?thesis using Nil m by (simp add: overlap_marks_def)
  next
    case (Cons m' ms')
    then have n: "ms \<noteq> []" "next_is_release (map SeqRelease ms @ evs2)" by simp_all
    then have "codes_of_events (map SeqRelease ms @ evs2) (remove1 m mods) True
        = with_tokens (overlap_marks ms) (codes_of_events evs2 held (next_is_release evs2))"
      using Cons.IH r by blast
    then show ?thesis using m n(2)
      by (simp add: overlap_marks_Cons [of m ms] overlap_marks_def [of "[m]"] with_tokens_append)
  qed
qed simp

lemma key_tree_press: "key_tree t \<Longrightarrow> next_is_press (tree_events t @ evs2)"
proof (induction t arbitrary: evs2 rule: tree_events.induct)
  case (3 ks)
  then show ?case by (cases ks) simp_all
next
  case (4 ts)
  then show ?case by (cases ts) simp_all
next
  case (5 ms ts)
  then show ?case by (cases ms; cases ts) simp_all
qed simp_all

lemma key_trees_press:
  "ts \<noteq> [] \<Longrightarrow> \<forall>t\<in>set ts. key_tree t \<Longrightarrow> next_is_press (concat (map tree_events ts) @ evs2)"
  by (cases ts) (simp_all add: key_tree_press)

lemma press_no_release: "next_is_press evs \<Longrightarrow> \<not> next_is_release evs"
  by (auto simp: next_is_press_def next_is_release_def split: list.splits seq_event.splits)

lemma codes_of_trees:
  assumes "\<And>t evs2 mods. t \<in> set ts \<Longrightarrow> codes_of_events (tree_events t @ evs2) mods False
      = with_tokens (tree_tokens mods t) (codes_of_events evs2 mods (next_is_release evs2))"
    and "\<forall>t\<in>set ts. key_tree t" and "ts \<noteq> []"
  shows "codes_of_events (concat (map tree_events ts) @ evs2) mods False
      = with_tokens (concat (map (tree_tokens mods) ts)) (codes_of_events evs2 mods (next_is_release evs2))"
  using assms
proof (induction ts)
  case (Cons t ts)
  show ?case
  proof (cases "ts = []")
    case True
    then show ?thesis using Cons.prems(1) [of t] by simp
  next
    case False
    have "\<not> next_is_release (concat (map tree_events ts) @ evs2)"
      by (rule press_no_release, rule key_trees_press [OF False]) (use Cons.prems(2) in simp)
    then show ?thesis using Cons False by (simp add: with_tokens_append)
  qed
qed simp

lemma codes_of_tree:
  "key_tree t \<Longrightarrow> codes_of_events (tree_events t @ evs2) mods False
     = with_tokens (tree_tokens mods t) (codes_of_events evs2 mods (next_is_release evs2))"
proof (induction t arbitrary: evs2 mods rule: tree_events.induct)
  case (2 k)
  then show ?case by (simp add: overlap_marks_def)
next
  case (3 ks)
  then obtain ks' k where ks: "ks = ks' @ [k]" by (cases ks rule: rev_cases) simp_all
  let ?rels = "map SeqRelease (rev ks') @ evs2"
  have "codes_of_events (tree_events (MChord ks) @ evs2) mods False
      = with_tokens (mods_tokens mods ks') (codes_of_events (SeqPress k # SeqRelease k # ?rels) (mods @ ks') False)"
    using codes_presses [of "SeqPress k # SeqRelease k # ?rels" ks' mods False] by (simp add: ks)
  also have "codes_of_events (SeqPress k # SeqRelease k # ?rels) (mods @ ks') False
      = with_tokens (Some (k, with_mods (mods @ ks') k) # overlap_marks [k])
          (codes_of_events ?rels (mods @ ks') (next_is_release ?rels))"
    by (simp add: overlap_marks_def Let_def)
  also have "codes_of_events ?rels (mods @ ks') (next_is_release ?rels)
      = with_tokens (overlap_marks ks') (codes_of_events evs2 mods (next_is_release evs2))"
  proof (cases "ks' = []")
    case False
    have "count_list (rev ks') k = count_list ks' k" for k by (induction ks') auto
    moreover have "next_is_release ?rels" using False by (cases ks' rule: rev_cases) simp_all
    ultimately show ?thesis using codes_releases [of "rev ks'" "mods @ ks'" mods evs2] False
      by (simp add: overlap_marks_def)
  qed (simp add: overlap_marks_def)
  finally show ?case
    by (simp add: ks with_tokens_append [symmetric] overlap_marks_def replicate_add [symmetric] del: replicate_add)
       (simp add: with_tokens_append overlap_marks_def)
next
  case (4 ts)
  then show ?case using codes_of_trees [of ts evs2 mods] by simp
next
  case (5 ms ts)
  have b: "next_is_press (concat (map tree_events ts) @ map SeqRelease ms @ evs2)"
    by (rule key_trees_press) (use 5 in simp_all)
  have "codes_of_events (tree_events (MHeld ms ts) @ evs2) mods False
      = with_tokens (mods_tokens mods ms)
          (codes_of_events (concat (map tree_events ts) @ map SeqRelease ms @ evs2) (mods @ ms) False)"
    using codes_presses [OF b, of ms mods False] by simp
  also have "codes_of_events (concat (map tree_events ts) @ map SeqRelease ms @ evs2) (mods @ ms) False
      = with_tokens (concat (map (tree_tokens (mods @ ms)) ts))
          (codes_of_events (map SeqRelease ms @ evs2) (mods @ ms) (next_is_release (map SeqRelease ms @ evs2)))"
    using 5 by (intro codes_of_trees) simp_all
  also have "codes_of_events (map SeqRelease ms @ evs2) (mods @ ms) (next_is_release (map SeqRelease ms @ evs2))
      = with_tokens (overlap_marks ms) (codes_of_events evs2 mods (next_is_release evs2))"
  proof (cases ms)
    case (Cons m ms')
    then show ?thesis using codes_releases [of ms "mods @ ms" mods evs2] by simp
  qed (simp add: overlap_marks_def)
  finally show ?case by (simp add: with_tokens_append)
qed simp_all

text \<open>C27: The codes of a list of keys, chords and lists with modifiers are those the nesting means.\<close>

theorem sequence_codes:
  fixes ts :: "'a macro_tree list"
  assumes "\<forall>t\<in>set ts. key_tree t"
  shows "codes_of_events (concat (map tree_events ts)) [] False
     = tokens_codes (concat (map (tree_tokens []) ts))"
proof (cases "ts = []")
  case False
  have "codes_of_events (concat (map tree_events ts) @ []) [] False
      = with_tokens (concat (map (tree_tokens []) ts)) (codes_of_events ([] :: 'a seq_event list) [] (next_is_release ([] :: 'a seq_event list)))"
    using False assms by (intro codes_of_trees codes_of_tree) simp_all
  then show ?thesis by (simp add: with_tokens_Nil)
qed (simp add: tokens_codes_def)

section \<open>The orders of overlapping keys\<close>

text \<open>Keys that overlap come in any order, up to the mark where the overlap ends.\<close>

inductive an_order :: "u16 list \<Rightarrow> u16 list \<Rightarrow> bool" where
  nothing: "an_order [] []"
| single: "v AND KEY_OVERLAP_MARKER = 0 \<Longrightarrow> an_order vs p \<Longrightarrow> an_order (v # vs) (v # p)"
| group: "hd g AND KEY_OVERLAP_MARKER \<noteq> 0 \<Longrightarrow> 2 \<le> length g \<Longrightarrow> length g \<le> 6 \<Longrightarrow> KEY_OVERLAP_MARKER \<notin> set g
    \<Longrightarrow> mset g' = mset g \<Longrightarrow> an_order vs p
    \<Longrightarrow> an_order (g @ KEY_OVERLAP_MARKER # vs) (g' @ KEY_OVERLAP_MARKER # p)"
| last_group: "hd g AND KEY_OVERLAP_MARKER \<noteq> 0 \<Longrightarrow> 2 \<le> length g \<Longrightarrow> length g \<le> 6 \<Longrightarrow> KEY_OVERLAP_MARKER \<notin> set g
    \<Longrightarrow> mset g' = mset g \<Longrightarrow> an_order g (g' @ [KEY_OVERLAP_MARKER])"

lemma permutations_of_set:
  "xs \<noteq> [] \<Longrightarrow> \<exists>ps. permutations_of xs = Inr ps \<and> set ps = {p. mset p = mset xs}"
  using gen_permutations_set [of xs] by (auto simp: permutations_of_def)

lemma marker_code [simp]: "0x0400 = KEY_OVERLAP_MARKER"
  by (simp add: KEY_OVERLAP_MARKER_def)

lemma takeWhile_group: "x \<notin> set g \<Longrightarrow> takeWhile (\<lambda>v. v \<noteq> x) (g @ x # vs) = g"
  by (induction g) auto

lemma takeWhile_no_mark: "x \<notin> set vs \<Longrightarrow> takeWhile (\<lambda>v. v \<noteq> x) vs = vs"
  by (induction vs) auto

lemma append_mark_eq:
  assumes "x \<notin> set g" and "x \<notin> set h" and "g @ x # vs = h @ x # ws"
  shows "g = h \<and> vs = ws"
proof -
  have "g = h" using takeWhile_group [OF assms(1), of vs] takeWhile_group [OF assms(2), of ws] assms(3) by simp
  then show ?thesis using assms(3) by simp
qed

text \<open>The orders of a list that begins with overlapping keys\<close>

lemma an_order_group_iff:
  assumes "v AND KEY_OVERLAP_MARKER \<noteq> 0" and "v \<noteq> KEY_OVERLAP_MARKER" and "KEY_OVERLAP_MARKER \<notin> set g"
  shows "an_order (v # g @ KEY_OVERLAP_MARKER # vs) p \<longleftrightarrow> 2 \<le> length (v # g) \<and> length (v # g) \<le> 6 \<and>
      (\<exists>g' p'. mset g' = mset (v # g) \<and> an_order vs p' \<and> p = g' @ KEY_OVERLAP_MARKER # p')"
    and "an_order (v # g) p \<longleftrightarrow> 2 \<le> length (v # g) \<and> length (v # g) \<le> 6 \<and>
      (\<exists>g'. mset g' = mset (v # g) \<and> p = g' @ [KEY_OVERLAP_MARKER])"
proof -
  have n: "KEY_OVERLAP_MARKER \<notin> set (v # g)" using assms(2,3) by auto
  show "an_order (v # g @ KEY_OVERLAP_MARKER # vs) p \<longleftrightarrow> 2 \<le> length (v # g) \<and> length (v # g) \<le> 6 \<and>
      (\<exists>g' p'. mset g' = mset (v # g) \<and> an_order vs p' \<and> p = g' @ KEY_OVERLAP_MARKER # p')" (is "?l = ?r")
  proof
    assume ?l
    then show ?r
    proof (cases rule: an_order.cases)
      case (single p')
      then show ?thesis using assms(1) by simp
    next
      case (group h h' ws p')
      then have "h @ KEY_OVERLAP_MARKER # ws = (v # g) @ KEY_OVERLAP_MARKER # vs" by simp
      then have "h = v # g" "ws = vs" using append_mark_eq [OF group(6) n] by blast+
      then have "2 \<le> length (v # g)" "length (v # g) \<le> 6" "mset h' = mset (v # g)" "an_order vs p'"
        using group(4,5,7,8) by simp_all
      then show ?thesis using group(2) by blast
    next
      case (last_group h')
      then show ?thesis by auto
    qed
  next
    assume ?r
    then obtain g' p' where "mset g' = mset (v # g)" "an_order vs p'" "p = g' @ KEY_OVERLAP_MARKER # p'"
      "2 \<le> length (v # g)" "length (v # g) \<le> 6" by blast
    then show ?l using an_order.group [of "v # g" g' vs p'] assms(1) n by simp
  qed
  show "an_order (v # g) p \<longleftrightarrow> 2 \<le> length (v # g) \<and> length (v # g) \<le> 6 \<and>
      (\<exists>g'. mset g' = mset (v # g) \<and> p = g' @ [KEY_OVERLAP_MARKER])" (is "?l = ?r")
  proof
    assume ?l
    then show ?r
    proof (cases rule: an_order.cases)
      case (single p')
      then show ?thesis using assms(1) by simp
    next
      case (group h h' ws p')
      then have "KEY_OVERLAP_MARKER \<in> set (v # g)" by (metis in_set_conv_decomp)
      then show ?thesis using n by blast
    next
      case (last_group h')
      then show ?thesis by blast
    qed
  next
    assume ?r
    then show ?l using an_order.last_group [of "v # g"] assms(1) n by auto
  qed
qed

lemma an_order_single_iff:
  "v AND KEY_OVERLAP_MARKER = 0 \<Longrightarrow> an_order (v # vs) p \<longleftrightarrow> (\<exists>p'. p = v # p' \<and> an_order vs p')"
proof
  assume v: "v AND KEY_OVERLAP_MARKER = 0" and "an_order (v # vs) p"
  from this(2) show "\<exists>p'. p = v # p' \<and> an_order vs p'"
  proof (cases rule: an_order.cases)
    case (group g g' vs' p')
    then have "hd g = v" by (cases g) auto
    then show ?thesis using v group by simp
  next
    case (last_group g')
    then show ?thesis using v by simp
  qed auto
qed (auto intro: an_order.single)

lemma an_order_Nil_iff: "an_order [] p \<longleftrightarrow> p = []"
  by (auto intro: an_order.nothing elim: an_order.cases)

declare expand_overlaps.simps [simp del]

lemma expand_overlaps_group:
  assumes "v AND KEY_OVERLAP_MARKER \<noteq> 0" and "v \<noteq> KEY_OVERLAP_MARKER" and "KEY_OVERLAP_MARKER \<notin> set g"
    and "vs = g \<and> ws = [] \<or> vs = g @ KEY_OVERLAP_MARKER # ws"
  shows "expand_overlaps (v # vs) ps =
      (if 2 \<le> length (v # g) \<and> length (v # g) \<le> 6 then
         and_then (permutations_of (v # g)) (\<lambda>ps2.
           expand_overlaps ws (concat (map (\<lambda>p. map (\<lambda>p2. p @ p2 @ [KEY_OVERLAP_MARKER]) ps2) ps)))
       else Inl Rejected)"
proof -
  have "takeWhile (\<lambda>v. v \<noteq> KEY_OVERLAP_MARKER) vs = g" "drop (Suc (length g)) vs = ws"
    using assms(3,4) by (auto simp: takeWhile_group takeWhile_no_mark)
  then show ?thesis using assms(1,2) by (subst expand_overlaps.simps) (auto simp: Let_def Suc_le_eq)
qed

lemma expand_overlaps_orders:
  "expand_overlaps cs ps = Inr qs \<Longrightarrow> set qs = {p @ q | p q. p \<in> set ps \<and> an_order cs q}"
proof (induction cs arbitrary: ps qs rule: length_induct)
  case (1 cs)
  show ?case
  proof (cases cs)
    case Nil
    then show ?thesis using 1(2) by (simp add: expand_overlaps.simps an_order_Nil_iff)
  next
    case (Cons v vs)
    show ?thesis
    proof (cases "v AND KEY_OVERLAP_MARKER = 0")
      case True
      then have "expand_overlaps vs (map (\<lambda>p. p @ [v]) ps) = Inr qs"
        using 1(2) Cons by (simp add: expand_overlaps.simps)
      moreover have "length vs < length cs" using Cons by simp
      ultimately have "set qs = {p @ q | p q. p \<in> set (map (\<lambda>p. p @ [v]) ps) \<and> an_order vs q}"
        using 1(1) by blast
      moreover have "(\<exists>p q. x = p @ q \<and> p \<in> set (map (\<lambda>p. p @ [v]) ps) \<and> an_order vs q)
          \<longleftrightarrow> (\<exists>p q. x = p @ q \<and> p \<in> set ps \<and> an_order (v # vs) q)" for x
      proof
        assume "\<exists>p q. x = p @ q \<and> p \<in> set (map (\<lambda>p. p @ [v]) ps) \<and> an_order vs q"
        then obtain p q where "x = p @ v # q" "p \<in> set ps" "an_order vs q" by auto
        then show "\<exists>p q. x = p @ q \<and> p \<in> set ps \<and> an_order (v # vs) q"
          using an_order.single [OF True] by blast
      next
        assume "\<exists>p q. x = p @ q \<and> p \<in> set ps \<and> an_order (v # vs) q"
        then obtain p q where "x = p @ v # q" "p \<in> set ps" "an_order vs q"
          using an_order_single_iff [OF True] by blast
        then show "\<exists>p q. x = p @ q \<and> p \<in> set (map (\<lambda>p. p @ [v]) ps) \<and> an_order vs q"
          by (intro exI [of _ "p @ [v]"] exI [of _ q]) simp
      qed
      ultimately show ?thesis using Cons by simp
    next
      case False
      then have v: "v \<noteq> KEY_OVERLAP_MARKER" using 1(2) Cons
        by (auto simp: expand_overlaps.simps(2))
      obtain g ws where g: "KEY_OVERLAP_MARKER \<notin> set g" "vs = g \<and> ws = [] \<or> vs = g @ KEY_OVERLAP_MARKER # ws"
        by (metis split_list_first)
      have b: "2 \<le> length (v # g) \<and> length (v # g) \<le> 6"
        using 1(2) Cons expand_overlaps_group [OF False v g] by (simp split: if_splits)
      obtain ps2 where p: "permutations_of (v # g) = Inr ps2" "set ps2 = {p. mset p = mset (v # g)}"
        using permutations_of_set [of "v # g"] by auto
      have e: "expand_overlaps ws (concat (map (\<lambda>p. map (\<lambda>p2. p @ p2 @ [KEY_OVERLAP_MARKER]) ps2) ps)) = Inr qs"
        using 1(2) Cons expand_overlaps_group [OF False v g] b p(1) by simp
      then have q: "set qs = {p @ q | p q. p \<in> set (concat (map (\<lambda>p. map (\<lambda>p2. p @ p2 @ [KEY_OVERLAP_MARKER]) ps2) ps))
          \<and> an_order ws q}"
      proof -
        have "length ws < length cs" using Cons g(2) by auto
        then show ?thesis using 1(1) e by blast
      qed
      have o: "an_order cs r \<longleftrightarrow> (\<exists>g' p'. g' \<in> set ps2 \<and> an_order ws p' \<and> r = g' @ KEY_OVERLAP_MARKER # p')" for r
        using g(2) an_order_group_iff [OF False v g(1)] b Cons p(2) by (auto simp: an_order_Nil_iff)
      show ?thesis unfolding q
      proof (intro Collect_cong iffI)
        fix x
        assume "\<exists>p q. x = p @ q \<and> p \<in> set (concat (map (\<lambda>p. map (\<lambda>p2. p @ p2 @ [KEY_OVERLAP_MARKER]) ps2) ps))
          \<and> an_order ws q"
        then obtain p0 p2 q where "x = p0 @ p2 @ KEY_OVERLAP_MARKER # q" "p0 \<in> set ps" "p2 \<in> set ps2" "an_order ws q"
          by auto
        then show "\<exists>p q. x = p @ q \<and> p \<in> set ps \<and> an_order cs q" using o by blast
      next
        fix x
        assume "\<exists>p q. x = p @ q \<and> p \<in> set ps \<and> an_order cs q"
        then obtain p0 p2 q where "x = p0 @ p2 @ KEY_OVERLAP_MARKER # q" "p0 \<in> set ps" "p2 \<in> set ps2" "an_order ws q"
          using o by blast
        then show "\<exists>p q. x = p @ q \<and> p \<in> set (concat (map (\<lambda>p. map (\<lambda>p2. p @ p2 @ [KEY_OVERLAP_MARKER]) ps2) ps))
            \<and> an_order ws q"
          by (intro exI [of _ "p0 @ p2 @ [KEY_OVERLAP_MARKER]"] exI [of _ q]) auto
      qed
    qed
  qed
qed

section \<open>The trie holds the configured sequences\<close>

text \<open>
  The documented behaviour of the map's prefix searches: \<open>get_longest_common_prefix\<close> finds an entry whose
  key is a prefix of the argument if there is one, and \<open>longest_common_prefix_len\<close> is the length of the
  longest prefix the argument has in common with a key.
\<close>

definition prefix_searches ::
  "('v patricia \<Rightarrow> u8 list \<Rightarrow> (u8 list \<times> 'v) option) \<Rightarrow> ('v patricia \<Rightarrow> u8 list \<Rightarrow> nat) \<Rightarrow> bool" where
  "prefix_searches glcp lcpl \<longleftrightarrow>
     (\<forall>m k. glcp m k \<noteq> None \<longleftrightarrow> (\<exists>p. prefix p k \<and> m p \<noteq> None))
     \<and> (\<forall>m k. lcpl m k = Max (insert 0 {length p | p. prefix p k \<and> (\<exists>k'. m k' \<noteq> None \<and> prefix p k')}))"

lemma longest_common_prefix_full:
  assumes "prefix_searches glcp lcpl" and "k \<noteq> []"
  shows "lcpl m k = length k \<longleftrightarrow> (\<exists>k'. m k' \<noteq> None \<and> prefix k k')"
proof -
  let ?L = "{length p | p. prefix p k \<and> (\<exists>k'. m k' \<noteq> None \<and> prefix p k')}"
  have l: "lcpl m k = Max (insert 0 ?L)" using assms(1) by (simp add: prefix_searches_def)
  have b: "\<forall>n\<in>insert 0 ?L. n \<le> length k" by (auto dest: prefix_length_le)
  have f: "finite (insert 0 ?L)" by (rule finite_subset [of _ "{..length k}"]) (use b in auto)
  show ?thesis
  proof
    assume "lcpl m k = length k"
    then have "length k \<in> insert 0 ?L" using Max_in [OF f] l by auto
    then have "length k \<in> ?L" using assms(2) by simp
    then obtain p where "length k = length p" "prefix p k" "\<exists>k'. m k' \<noteq> None \<and> prefix p k'" by blast
    then obtain k' where p: "length p = length k" "prefix p k" "m k' \<noteq> None" "prefix p k'" by auto
    then have "p = k" by (metis append_eq_append_conv append_Nil2 prefixE)
    then show "\<exists>k'. m k' \<noteq> None \<and> prefix k k'" using p by blast
  next
    assume "\<exists>k'. m k' \<noteq> None \<and> prefix k k'"
    then have "length k \<in> insert 0 ?L" by blast
    then show "lcpl m k = length k" unfolding l using b by (intro Max_eqI [OF f]) blast+
  qed
qed

definition prefix_free :: "u16 list set \<Rightarrow> bool" where
  "prefix_free ps \<longleftrightarrow> (\<forall>p\<in>ps. \<forall>q\<in>ps. prefix p q \<longrightarrow> p = q)"

lemma prefix_freeD: "prefix_free ps \<Longrightarrow> p \<in> ps \<Longrightarrow> q \<in> ps \<Longrightarrow> prefix p q \<Longrightarrow> p = q"
  by (simp add: prefix_free_def)

text \<open>The trie holds exactly these sequences, with their values.\<close>

definition trie_holds :: "'v patricia \<Rightarrow> (u16 list \<times> 'v) set \<Rightarrow> bool" where
  "trie_holds m C \<longleftrightarrow> (\<forall>k c. m k = Some c \<longleftrightarrow> (\<exists>p. k = cast_slice p \<and> (p, c) \<in> C)) \<and> prefix_free (fst ` C)"

lemma trie_holds_empty: "trie_holds Map.empty {}"
  by (simp add: trie_holds_def prefix_free_def)

lemma insert_sequence_holds:
  assumes lib: "prefix_searches glcp lcpl" and "trie_holds m C"
    and "insert_sequence glcp lcpl v p m = Inr m'"
  shows "trie_holds m' (insert (p, v) C)"
proof -
  have m: "m k = Some c \<longleftrightarrow> (\<exists>p. k = cast_slice p \<and> (p, c) \<in> C)" for k c
    using assms(2) by (simp add: trie_holds_def)
  have a: "\<not> ancestor_exists glcp m p" "\<not> descendant_exists lcpl m p" "m' = m(cast_slice p \<mapsto> v)"
    using assms(3) by (auto simp: insert_sequence_def trie_insert_def split: if_splits)
  have "p \<noteq> []"
  proof
    assume "p = []"
    have "{length q | q. prefix q [] \<and> (\<exists>k'. m k' \<noteq> None \<and> prefix q k')} \<subseteq> {0}" by auto
    then have "insert 0 {length q | q. prefix q [] \<and> (\<exists>k'. m k' \<noteq> None \<and> prefix q k')} = {0}" by auto
    moreover have "lcpl m [] = Max (insert 0 {length q | q. prefix q [] \<and> (\<exists>k'. m k' \<noteq> None \<and> prefix q k')})"
      using lib unfolding prefix_searches_def by blast
    ultimately have "lcpl m [] = 0" by (simp only: Max_singleton)
    then show False using \<open>p = []\<close> a(2) by (simp add: descendant_exists_def key_len_def)
  qed
  then have ne: "cast_slice p \<noteq> []" by (cases p) simp_all
  have anc: "\<not> prefix q p" if "(q, c) \<in> C" for q c
  proof
    assume "prefix q p"
    then have "prefix (cast_slice q) (cast_slice p)" "m (cast_slice q) = Some c" using m that by auto
    then show False using a(1) lib unfolding ancestor_exists_def prefix_searches_def by (metis option.distinct(1))
  qed
  have desc: "\<not> prefix p q" if "(q, c) \<in> C" for q c
  proof
    assume "prefix p q"
    then have "prefix (cast_slice p) (cast_slice q)" "m (cast_slice q) \<noteq> None" using m that by auto
    then have "lcpl m (cast_slice p) = length (cast_slice p)"
      using longest_common_prefix_full [OF lib ne, of m] by blast
    then show False using a(2) by (simp add: descendant_exists_def)
  qed
  have new: "(p, c) \<notin> C" for c using anc [of p c] by auto
  have "m' k = Some c \<longleftrightarrow> (\<exists>q. k = cast_slice q \<and> (q, c) \<in> insert (p, v) C)" for k c
    using m [of k c] a(3) new by auto
  moreover have "prefix_free (fst ` insert (p, v) C)"
    using assms(2) anc desc by (auto simp: trie_holds_def prefix_free_def)
  ultimately show ?thesis by (simp add: trie_holds_def)
qed

lemma insert_sequences_hold:
  assumes lib: "prefix_searches glcp lcpl"
  shows "trie_holds m C \<Longrightarrow> fold_res (insert_sequence glcp lcpl v) ps m = Inr m'
    \<Longrightarrow> trie_holds m' (C \<union> (\<lambda>p. (p, v)) ` set ps)"
proof (induction ps arbitrary: m C)
  case (Cons p ps)
  then obtain m1 where m1: "insert_sequence glcp lcpl v p m = Inr m1"
    "fold_res (insert_sequence glcp lcpl v) ps m1 = Inr m'" by auto
  then have "trie_holds m1 (insert (p, v) C)" using insert_sequence_holds [OF lib Cons.prems(1)] by simp
  then have "trie_holds m' (insert (p, v) C \<union> (\<lambda>p. (p, v)) ` set ps)" using Cons.IH m1(2) by blast
  then show ?case by simp
qed simp

text \<open>The configured sequences: of every pair the orders of its keys, with the coordinates of its virtual key.\<close>

definition configured_pair ::
  "(sexpr \<Rightarrow> 't action cfg_res) \<Rightarrow> cfg_vars \<Rightarrow> (string \<rightharpoonup> nat) \<Rightarrow> nat \<Rightarrow> sexpr \<Rightarrow> sexpr \<Rightarrow> (u16 list \<times> kcoord) set" where
  "configured_pair pa vs vkeys n e e' =
     {(p, get_fake_key_coords y) | p y vkey keys codes.
        need_atom vs e = Inr vkey \<and> vkeys vkey = Some y \<and> need_list vs e' = Inr keys
        \<and> parse_sequence_keys pa vs n keys = Inr codes \<and> an_order codes p}"

fun configured ::
  "(sexpr \<Rightarrow> 't action cfg_res) \<Rightarrow> cfg_vars \<Rightarrow> (string \<rightharpoonup> nat) \<Rightarrow> nat \<Rightarrow> sexpr list \<Rightarrow> (u16 list \<times> kcoord) set" where
  "configured pa vs vkeys n (e # e' # es) = configured_pair pa vs vkeys n e e' \<union> configured pa vs vkeys n es"
| "configured pa vs vkeys n es = {}"

lemma parse_defseq_pairs_holds:
  assumes lib: "prefix_searches glcp lcpl"
  shows "trie_holds m C \<Longrightarrow> parse_defseq_pairs pa vs vkeys n glcp lcpl es m = Inr m'
    \<Longrightarrow> trie_holds m' (C \<union> configured pa vs vkeys n es)"
proof (induction es arbitrary: m C rule: configured.induct)
  case (1 pa vs vkeys n e e' es)
  from 1(3) obtain vkey y keys codes ps m1 where p: "need_atom vs e = Inr vkey" "vkeys vkey = Some y"
    "need_list vs e' = Inr keys" "parse_sequence_keys pa vs n keys = Inr codes"
    "expand_overlaps codes [[]] = Inr ps" "fold_res (insert_sequence glcp lcpl (get_fake_key_coords y)) ps m = Inr m1"
    "parse_defseq_pairs pa vs vkeys n glcp lcpl es m1 = Inr m'"
    by (auto simp: and_then_Inr_iff split: if_splits)
  have "set ps = {q. an_order codes q}" using expand_overlaps_orders [OF p(5)] by auto
  then have c: "configured_pair pa vs vkeys n e e' = (\<lambda>p. (p, get_fake_key_coords y)) ` set ps"
    using p by (auto simp: configured_pair_def)
  have "trie_holds m1 (C \<union> configured_pair pa vs vkeys n e e')"
    unfolding c by (rule insert_sequences_hold [OF lib 1(2) p(6)])
  then have "trie_holds m' (C \<union> configured_pair pa vs vkeys n e e' \<union> configured pa vs vkeys n es)"
    using 1(1) p(7) by blast
  then show ?case by (simp add: Un_assoc)
qed (auto simp: and_then_Inr_iff)

text \<open>C26: 
  An accepted configuration: the trie holds exactly the orders of the configured sequences, each with its
  virtual key, and none of them is the beginning of another.
\<close>

theorem parsed_sequences:
  assumes "prefix_searches glcp lcpl"
    and "parse_sequences pa vs vkeys n glcp lcpl exprs = Inr m"
  shows "(\<forall>k c. m k = Some c \<longleftrightarrow>
      (\<exists>p e es. k = cast_slice p \<and> e \<in> set exprs \<and> check_first_expr e ''defseq'' = Inr es
         \<and> (p, c) \<in> configured pa vs vkeys n es))
    \<and> (\<forall>p q. m (cast_slice p) \<noteq> None \<longrightarrow> m (cast_slice q) \<noteq> None \<longrightarrow> prefix p q \<longrightarrow> p = q)"
proof -
  let ?C = "\<lambda>exprs. {pc | pc e es. e \<in> set exprs \<and> check_first_expr e ''defseq'' = Inr es \<and> pc \<in> configured pa vs vkeys n es}"
  let ?f = "\<lambda>e m. and_then (check_first_expr e ''defseq'') (\<lambda>es. parse_defseq_pairs pa vs vkeys n glcp lcpl es m)"
  have "trie_holds m0 C \<Longrightarrow> fold_res ?f exprs m0 = Inr m1 \<Longrightarrow> trie_holds m1 (C \<union> ?C exprs)" for m0 m1 C
  proof (induction exprs arbitrary: m0 C)
    case (Cons e exprs)
    then obtain es m2 where e: "check_first_expr e ''defseq'' = Inr es"
      "parse_defseq_pairs pa vs vkeys n glcp lcpl es m0 = Inr m2" "fold_res ?f exprs m2 = Inr m1"
      by (auto simp: and_then_Inr_iff)
    have "trie_holds m2 (C \<union> configured pa vs vkeys n es)"
      by (rule parse_defseq_pairs_holds [OF assms(1) Cons.prems(1) e(2)])
    then have "trie_holds m1 (C \<union> configured pa vs vkeys n es \<union> ?C exprs)" using Cons.IH e(3) by blast
    moreover have "C \<union> configured pa vs vkeys n es \<union> ?C exprs = C \<union> ?C (e # exprs)" using e(1) by auto
    ultimately show ?case by simp
  qed simp
  from this [OF trie_holds_empty] assms(2) have t: "trie_holds m (?C exprs)" by (simp add: parse_sequences_def)
  then have h: "m k = Some c \<longleftrightarrow> (\<exists>p. k = cast_slice p \<and> (p, c) \<in> ?C exprs)" for k c
    unfolding trie_holds_def by blast
  have "p = q" if pq: "m (cast_slice p) \<noteq> None" "m (cast_slice q) \<noteq> None" "prefix p q" for p q
  proof -
    have "r \<in> fst ` ?C exprs" if r: "m (cast_slice r) \<noteq> None" for r
    proof -
      obtain c where "m (cast_slice r) = Some c" using r by blast
      then obtain r' where "cast_slice r = cast_slice r'" "(r', c) \<in> ?C exprs" using h by blast
      then show ?thesis by (simp only: cast_slice_inject) (rule image_eqI [of _ _ "(r', c)"], simp_all)
    qed
    then have "p \<in> fst ` ?C exprs" "q \<in> fst ` ?C exprs" using pq(1,2) by (simp_all only: not_False_eq_True)
    moreover have "prefix_free (fst ` ?C exprs)" using t unfolding trie_holds_def by (rule conjunct2)
    ultimately show ?thesis using prefix_freeD pq(3) by blast
  qed
  moreover have "m k = Some c \<longleftrightarrow>
      (\<exists>p e es. k = cast_slice p \<and> e \<in> set exprs \<and> check_first_expr e ''defseq'' = Inr es
         \<and> (p, c) \<in> configured pa vs vkeys n es)" for k c
    using h [of k c] by blast
  ultimately show ?thesis by blast
qed


section \<open>Examples\<close>

text \<open>\<open>S-(h s)\<close> and then \<open>t\<close>: the shift key and the keys in the list have the bit of shift.\<close>

theorem sequence_codes_witness:
  "codes_of_events
     ([SeqPress LShift, SeqPress 35, SeqRelease 35, SeqPress 31, SeqRelease 31, SeqRelease LShift,
       SeqPress 20, SeqRelease 20] :: custom_action seq_event list) [] False
   = Inr [0x8000 OR 42, 0x8000 OR 35, 0x8000 OR 31, 20]"
proof -
  have "\<forall>t\<in>set [MHeld [LShift] [MTap 35, MTap 31], MTap 20 :: custom_action macro_tree]. key_tree t" by simp
  from sequence_codes [OF this] show ?thesis
    by (simp add: tokens_codes_def with_mods_def mixed_overlap_def overlap_marks_def mod_mask_for_keycode_def
        keycode_defs KEY_OVERLAP_def KEY_OVERLAP_MARKER_def MASK_MODDED_def del: marker_code)
qed

text \<open>An empty list after two modifiers: the release of the second is not expected, and the parser panics.\<close>

lemma read_control_shift: "parse_mod_prefix ''C-S-'' = Inr ([LCtrl, LShift], [])"
proof -
  have "LShift \<noteq> LCtrl" by (simp add: keycode_defs)
  then show ?thesis by (simp add: parse_mod_prefix_def mod_prefixes.simps KEYMODI_def symbol_defs strip_prefix_def)
qed

lemma code_of_two_modifiers:
  "codes_of_events [SeqPress LCtrl, SeqPress LShift, SeqRelease LCtrl, SeqRelease LShift] [] False = Inl ParserPanic"
  by (simp add: next_is_press_def next_is_release_def Let_def with_mods_def mixed_overlap_def
      mod_mask_for_keycode_def keycode_defs KEY_OVERLAP_def KEY_OVERLAP_MARKER_def MASK_MODDED_def del: marker_code)

lemma empty_held_list_panics:
  "parse_sequence_keys two_key_actions Map.empty (Suc 0) [Atom ''C-S-'' sp, SList [] sp'] = Inl ParserPanic"
proof -
  have "parse_macro_item_impl two_key_actions Map.empty (Suc 0) False [Atom ''C-S-'' sp, SList [] sp']
      = Inr ([SeqPress LCtrl, SeqPress LShift, SeqRelease LCtrl, SeqRelease LShift], [])"
    by (simp add: while_items_def macro_action_def two_key_actions_def
        macro_submacro_def parse_mods_held_for_submacro_def need_atom_def need_list_def read_control_shift)
  then show ?thesis
    by (simp add: parse_sequence_keys_def while_items_def sequence_item_def press_or_release_def
        code_of_two_modifiers del: parse_macro_item_impl.simps codes_of_events.simps)
qed

text \<open>A digit in a list with modifiers is read as a delay, and rejected; by itself it is a key.\<close>

lemma digit_in_held_list_rejected:
  assumes "pa (Atom ''1'' sp) = Inr (KeyCode 2)" and "pa (Atom ''C-'' sp') = Inl Rejected"
  shows "parse_sequence_keys pa Map.empty (Suc (Suc 0)) [Atom ''1'' sp] = Inr [2]"
    and "parse_sequence_keys pa Map.empty (Suc (Suc 0)) [Atom ''C-'' sp', SList [Atom ''1'' sp] sp''] = Inl Rejected"
proof -
  have "parse_macro_item_impl pa Map.empty (Suc (Suc 0)) False [Atom ''1'' sp] = Inr ([SeqPress 2, SeqRelease 2], [])"
    using assms(1) by (simp add: macro_action_def)
  moreover have "codes_of_events ([SeqPress 2, SeqRelease 2] :: 'a seq_event list) [] False = Inr [2]"
    by (simp add: next_is_press_def next_is_release_def Let_def with_mods_def mixed_overlap_def
        mod_mask_for_keycode_def keycode_defs KEY_OVERLAP_def KEY_OVERLAP_MARKER_def MASK_MODDED_def del: marker_code)
  ultimately show "parse_sequence_keys pa Map.empty (Suc (Suc 0)) [Atom ''1'' sp] = Inr [2]"
    by (simp add: parse_sequence_keys_def while_items_def sequence_item_def press_or_release_def
        del: parse_macro_item_impl.simps codes_of_events.simps)
  have "parse_macro_item_impl pa Map.empty (Suc 0) True [Atom ''1'' sp] = Inr ([SeqDelay 1], [])"
    by (simp add: macro_delay_def parse_non_zero_u16_def parse_number_def digits_value_def is_digit_def)
  then have "while_items (parse_macro_item_impl pa Map.empty (Suc 0) True) [Atom ''1'' sp] = Inr [SeqDelay 1]"
    by (simp add: while_items_def del: parse_macro_item_impl.simps)
  then have "parse_macro_item_impl pa Map.empty (Suc (Suc 0)) False [Atom ''C-'' sp', SList [Atom ''1'' sp] sp'']
      = Inr ([SeqPress LCtrl, SeqDelay 1, SeqRelease LCtrl], [])"
    using assms(2) by (simp add: macro_action_def macro_submacro_def parse_mods_held_for_submacro_def
        need_atom_def need_list_def read_control)
  then show "parse_sequence_keys pa Map.empty (Suc (Suc 0)) [Atom ''C-'' sp', SList [Atom ''1'' sp] sp''] = Inl Rejected"
    by (simp add: parse_sequence_keys_def while_items_def sequence_item_def press_or_release_def
        del: parse_macro_item_impl.simps codes_of_events.simps)
qed

text \<open>\<open>(defseq greet (a b))\<close>\<close>

definition greet :: "sexpr list" where
  "greet = [Atom ''defseq'' span_default, Atom ''greet'' span_default,
     SList [Atom ''a'' span_default, Atom ''b'' span_default] span_default]"

definition find_prefix :: "'v patricia \<Rightarrow> u8 list \<Rightarrow> (u8 list \<times> 'v) option" where
  "find_prefix m k =
     (case filter (\<lambda>p. m p \<noteq> None) (prefixes k) of [] \<Rightarrow> None | p # ps \<Rightarrow> Some (last (p # ps), the (m (last (p # ps)))))"

definition common_prefix_len :: "'v patricia \<Rightarrow> u8 list \<Rightarrow> nat" where
  "common_prefix_len m k = Max (insert 0 {length p | p. prefix p k \<and> (\<exists>k'. m k' \<noteq> None \<and> prefix p k')})"

lemma example_searches: "prefix_searches find_prefix common_prefix_len"
proof -
  have "find_prefix m k \<noteq> None \<longleftrightarrow> (\<exists>p. prefix p k \<and> m p \<noteq> None)" for m :: "'a patricia" and k
  proof -
    have "find_prefix m k = None \<longleftrightarrow> filter (\<lambda>p. m p \<noteq> None) (prefixes k) = []"
      by (simp add: find_prefix_def split: list.split)
    then show ?thesis by (auto simp: filter_empty_conv in_set_prefixes)
  qed
  then show ?thesis by (simp add: prefix_searches_def common_prefix_len_def)
qed

lemma greet_sequences:
  "parse_sequences two_key_actions Map.empty [''greet'' \<mapsto> 3] (Suc 0) find_prefix common_prefix_len [greet]
     = Inr [cast_slice [30, 48] \<mapsto> (1, 3)]"
proof -
  have k: "parse_sequence_keys two_key_actions Map.empty (Suc 0) [Atom ''a'' span_default, Atom ''b'' span_default]
      = Inr [30, 48]"
    by (simp add: parse_sequence_keys_def while_items_def sequence_item_def macro_action_def two_key_actions_def
        press_or_release_def Let_def with_mods_def mixed_overlap_def mod_mask_for_keycode_def keycode_defs
        KEY_OVERLAP_def KEY_OVERLAP_MARKER_def MASK_MODDED_def del: marker_code)
  have e: "expand_overlaps [30, 48] [[]] = Inr [[30, 48]]"
    by (simp add: expand_overlaps.simps KEY_OVERLAP_MARKER_def del: marker_code)
  have "find_prefix Map.empty q = (None :: (u8 list \<times> kcoord) option)" for q by (simp add: find_prefix_def)
  moreover have "common_prefix_len (Map.empty :: kcoord patricia) q = 0" for q by (simp add: common_prefix_len_def)
  ultimately show ?thesis using k e
    by (simp add: parse_sequences_def greet_def check_first_expr_def need_atom_def need_list_def
        insert_sequence_def ancestor_exists_def descendant_exists_def trie_insert_def key_len_def
        get_fake_key_coords_def FAKE_KEY_ROW_def)
qed

theorem parsed_sequences_witness:
  "\<exists>m. parse_sequences two_key_actions Map.empty [''greet'' \<mapsto> 3] (Suc 0) find_prefix common_prefix_len [greet] = Inr m
     \<and> m (cast_slice [30, 48]) = Some (1, 3)
     \<and> (\<forall>p q. m (cast_slice p) \<noteq> None \<longrightarrow> m (cast_slice q) \<noteq> None \<longrightarrow> prefix p q \<longrightarrow> p = q)"
  using parsed_sequences [OF example_searches greet_sequences] greet_sequences by simp

end
