(* ===== verification/ListActions.thy ===== *)
theory ListActions
  imports Main
begin

text \<open>
  The names of the actions that are lists (\<open>parser/src/cfg/list_actions.rs\<close>), as UTF-8 bytes.
\<close>

definition LAYER_SWITCH :: string where "LAYER_SWITCH = ''layer-switch''"
definition LAYER_TOGGLE :: string where "LAYER_TOGGLE = ''layer-toggle''"
definition LAYER_WHILE_HELD :: string where "LAYER_WHILE_HELD = ''layer-while-held''"
definition TAP_HOLD :: string where "TAP_HOLD = ''tap-hold''"
definition TAP_HOLD_PRESS :: string where "TAP_HOLD_PRESS = ''tap-hold-press''"
definition TAP_HOLD_PRESS_A :: string where "TAP_HOLD_PRESS_A = ''tap'' @ [CHR 0xE2, CHR 0xAC, CHR 0x93, CHR 0xE2, CHR 0x86, CHR 0x93]"
definition TAP_HOLD_RELEASE :: string where "TAP_HOLD_RELEASE = ''tap-hold-release''"
definition TAP_HOLD_RELEASE_A :: string where "TAP_HOLD_RELEASE_A = ''tap'' @ [CHR 0xE2, CHR 0xAC, CHR 0x93, CHR 0xE2, CHR 0x86, CHR 0x91]"
definition TAP_HOLD_PRESS_TIMEOUT :: string where "TAP_HOLD_PRESS_TIMEOUT = ''tap-hold-press-timeout''"
definition TAP_HOLD_PRESS_TIMEOUT_A :: string where "TAP_HOLD_PRESS_TIMEOUT_A = ''tap'' @ [CHR 0xE2, CHR 0xAC, CHR 0x93, CHR 0xE2, CHR 0x86, CHR 0x93] @ ''timeout''"
definition TAP_HOLD_RELEASE_TIMEOUT :: string where "TAP_HOLD_RELEASE_TIMEOUT = ''tap-hold-release-timeout''"
definition TAP_HOLD_RELEASE_TIMEOUT_A :: string where "TAP_HOLD_RELEASE_TIMEOUT_A = ''tap'' @ [CHR 0xE2, CHR 0xAC, CHR 0x93, CHR 0xE2, CHR 0x86, CHR 0x91] @ ''timeout''"
definition TAP_HOLD_RELEASE_KEYS :: string where "TAP_HOLD_RELEASE_KEYS = ''tap-hold-release-keys''"
definition TAP_HOLD_RELEASE_KEYS_TAP_RELEASE :: string where "TAP_HOLD_RELEASE_KEYS_TAP_RELEASE = ''tap-hold-release-tap-keys-release''"
definition TAP_HOLD_RELEASE_KEYS_A :: string where "TAP_HOLD_RELEASE_KEYS_A = ''tap'' @ [CHR 0xE2, CHR 0xAC, CHR 0x93, CHR 0xE2, CHR 0x86, CHR 0x91] @ ''keys''"
definition TAP_HOLD_EXCEPT_KEYS :: string where "TAP_HOLD_EXCEPT_KEYS = ''tap-hold-except-keys''"
definition TAP_HOLD_EXCEPT_KEYS_A :: string where "TAP_HOLD_EXCEPT_KEYS_A = ''tap'' @ [CHR 0xE2, CHR 0xAC, CHR 0x93, CHR 0xE2, CHR 0xA4, CHR 0xAB] @ ''keys''"
definition TAP_HOLD_TAP_KEYS :: string where "TAP_HOLD_TAP_KEYS = ''tap-hold-tap-keys''"
definition TAP_HOLD_TAP_KEYS_A :: string where "TAP_HOLD_TAP_KEYS_A = ''tap'' @ [CHR 0xE2, CHR 0xAC, CHR 0x93] @ ''tapkeys''"
definition TAP_HOLD_KEYS :: string where "TAP_HOLD_KEYS = ''tap-hold-keys''"
definition MULTI :: string where "MULTI = ''multi''"
definition MACRO :: string where "MACRO = ''macro''"
definition MACRO_REPEAT :: string where "MACRO_REPEAT = ''macro-repeat''"
definition MACRO_REPEAT_A :: string where "MACRO_REPEAT_A = ''macro'' @ [CHR 0xE2, CHR 0x9F, CHR 0xB3]"
definition MACRO_RELEASE_CANCEL :: string where "MACRO_RELEASE_CANCEL = ''macro-release-cancel''"
definition MACRO_RELEASE_CANCEL_A :: string where "MACRO_RELEASE_CANCEL_A = ''macro'' @ [CHR 0xE2, CHR 0x86, CHR 0x91, CHR 0xE2, CHR 0xA4, CHR 0xAB]"
definition MACRO_REPEAT_RELEASE_CANCEL :: string where "MACRO_REPEAT_RELEASE_CANCEL = ''macro-repeat-release-cancel''"
definition MACRO_REPEAT_RELEASE_CANCEL_A :: string where "MACRO_REPEAT_RELEASE_CANCEL_A = ''macro'' @ [CHR 0xE2, CHR 0x9F, CHR 0xB3, CHR 0xE2, CHR 0x86, CHR 0x91, CHR 0xE2, CHR 0xA4, CHR 0xAB]"
definition MACRO_CANCEL_ON_NEXT_PRESS :: string where "MACRO_CANCEL_ON_NEXT_PRESS = ''macro-cancel-on-press''"
definition MACRO_REPEAT_CANCEL_ON_NEXT_PRESS :: string where "MACRO_REPEAT_CANCEL_ON_NEXT_PRESS = ''macro-repeat-cancel-on-press''"
definition MACRO_CANCEL_ON_NEXT_PRESS_CANCEL_ON_RELEASE :: string where "MACRO_CANCEL_ON_NEXT_PRESS_CANCEL_ON_RELEASE = ''macro-release-cancel-and-cancel-on-press''"
definition MACRO_REPEAT_CANCEL_ON_NEXT_PRESS_CANCEL_ON_RELEASE :: string where "MACRO_REPEAT_CANCEL_ON_NEXT_PRESS_CANCEL_ON_RELEASE = ''macro-repeat-release-cancel-and-cancel-on-press''"
definition UNICODE :: string where "UNICODE = ''unicode''"
definition SYM :: string where "SYM = [CHR 0xF0, CHR 0x9F, CHR 0x94, CHR 0xA3]"
definition ONE_SHOT :: string where "ONE_SHOT = ''one-shot''"
definition ONE_SHOT_PRESS :: string where "ONE_SHOT_PRESS = ''one-shot-press''"
definition ONE_SHOT_PRESS_A :: string where "ONE_SHOT_PRESS_A = ''one-shot'' @ [CHR 0xE2, CHR 0x86, CHR 0x93]"
definition ONE_SHOT_RELEASE :: string where "ONE_SHOT_RELEASE = ''one-shot-release''"
definition ONE_SHOT_RELEASE_A :: string where "ONE_SHOT_RELEASE_A = ''one-shot'' @ [CHR 0xE2, CHR 0x86, CHR 0x91]"
definition ONE_SHOT_PRESS_PCANCEL :: string where "ONE_SHOT_PRESS_PCANCEL = ''one-shot-press-pcancel''"
definition ONE_SHOT_PRESS_PCANCEL_A :: string where "ONE_SHOT_PRESS_PCANCEL_A = ''one-shot'' @ [CHR 0xE2, CHR 0x86, CHR 0x93, CHR 0xE2, CHR 0xA4, CHR 0xAB]"
definition ONE_SHOT_RELEASE_PCANCEL :: string where "ONE_SHOT_RELEASE_PCANCEL = ''one-shot-release-pcancel''"
definition ONE_SHOT_RELEASE_PCANCEL_A :: string where "ONE_SHOT_RELEASE_PCANCEL_A = ''one-shot'' @ [CHR 0xE2, CHR 0x86, CHR 0x91, CHR 0xE2, CHR 0xA4, CHR 0xAB]"
definition ONE_SHOT_PAUSE_PROCESSING :: string where "ONE_SHOT_PAUSE_PROCESSING = ''one-shot-pause-processing''"
definition TAP_DANCE :: string where "TAP_DANCE = ''tap-dance''"
definition TAP_DANCE_EAGER :: string where "TAP_DANCE_EAGER = ''tap-dance-eager''"
definition CHORD :: string where "CHORD = ''chord''"
definition RELEASE_KEY :: string where "RELEASE_KEY = ''release-key''"
definition RELEASE_KEY_A :: string where "RELEASE_KEY_A = ''key'' @ [CHR 0xE2, CHR 0x86, CHR 0x91]"
definition RELEASE_LAYER :: string where "RELEASE_LAYER = ''release-layer''"
definition RELEASE_LAYER_A :: string where "RELEASE_LAYER_A = ''layer'' @ [CHR 0xE2, CHR 0x86, CHR 0x91]"
definition ON_PRESS_FAKEKEY :: string where "ON_PRESS_FAKEKEY = ''on-press-fakekey''"
definition ON_PRESS_FAKEKEY_A :: string where "ON_PRESS_FAKEKEY_A = ''on'' @ [CHR 0xE2, CHR 0x86, CHR 0x93] @ ''fakekey''"
definition ON_RELEASE_FAKEKEY :: string where "ON_RELEASE_FAKEKEY = ''on-release-fakekey''"
definition ON_RELEASE_FAKEKEY_A :: string where "ON_RELEASE_FAKEKEY_A = ''on'' @ [CHR 0xE2, CHR 0x86, CHR 0x91] @ ''fakekey''"
definition ON_PRESS_DELAY :: string where "ON_PRESS_DELAY = ''on-press-delay''"
definition ON_RELEASE_DELAY :: string where "ON_RELEASE_DELAY = ''on-release-delay''"
definition ON_PRESS_FAKEKEY_DELAY :: string where "ON_PRESS_FAKEKEY_DELAY = ''on-press-fakekey-delay''"
definition ON_PRESS_FAKEKEY_DELAY_A :: string where "ON_PRESS_FAKEKEY_DELAY_A = ''on'' @ [CHR 0xE2, CHR 0x86, CHR 0x93] @ ''fakekey-delay''"
definition ON_RELEASE_FAKEKEY_DELAY :: string where "ON_RELEASE_FAKEKEY_DELAY = ''on-release-fakekey-delay''"
definition ON_RELEASE_FAKEKEY_DELAY_A :: string where "ON_RELEASE_FAKEKEY_DELAY_A = ''on'' @ [CHR 0xE2, CHR 0x86, CHR 0x91] @ ''fakekey-delay''"
definition ON_IDLE_FAKEKEY :: string where "ON_IDLE_FAKEKEY = ''on-idle-fakekey''"
definition MWHEEL_UP :: string where "MWHEEL_UP = ''mwheel-up''"
definition MWHEEL_DOWN :: string where "MWHEEL_DOWN = ''mwheel-down''"
definition MWHEEL_LEFT :: string where "MWHEEL_LEFT = ''mwheel-left''"
definition MWHEEL_RIGHT :: string where "MWHEEL_RIGHT = ''mwheel-right''"
definition MWHEEL_UP_A :: string where "MWHEEL_UP_A = [CHR 0xF0, CHR 0x9F, CHR 0x96, CHR 0xB1, CHR 0xE2, CHR 0x98, CHR 0xB8, CHR 0xE2, CHR 0x86, CHR 0x91]"
definition MWHEEL_DOWN_A :: string where "MWHEEL_DOWN_A = [CHR 0xF0, CHR 0x9F, CHR 0x96, CHR 0xB1, CHR 0xE2, CHR 0x98, CHR 0xB8, CHR 0xE2, CHR 0x86, CHR 0x93]"
definition MWHEEL_LEFT_A :: string where "MWHEEL_LEFT_A = [CHR 0xF0, CHR 0x9F, CHR 0x96, CHR 0xB1, CHR 0xE2, CHR 0x98, CHR 0xB8, CHR 0xE2, CHR 0x86, CHR 0x90]"
definition MWHEEL_RIGHT_A :: string where "MWHEEL_RIGHT_A = [CHR 0xF0, CHR 0x9F, CHR 0x96, CHR 0xB1, CHR 0xE2, CHR 0x98, CHR 0xB8, CHR 0xE2, CHR 0x86, CHR 0x92]"
definition MWHEEL_ACCEL_UP :: string where "MWHEEL_ACCEL_UP = ''mwheel-accel-up''"
definition MWHEEL_ACCEL_DOWN :: string where "MWHEEL_ACCEL_DOWN = ''mwheel-accel-down''"
definition MWHEEL_ACCEL_LEFT :: string where "MWHEEL_ACCEL_LEFT = ''mwheel-accel-left''"
definition MWHEEL_ACCEL_RIGHT :: string where "MWHEEL_ACCEL_RIGHT = ''mwheel-accel-right''"
definition MOVEMOUSE_UP :: string where "MOVEMOUSE_UP = ''movemouse-up''"
definition MOVEMOUSE_DOWN :: string where "MOVEMOUSE_DOWN = ''movemouse-down''"
definition MOVEMOUSE_LEFT :: string where "MOVEMOUSE_LEFT = ''movemouse-left''"
definition MOVEMOUSE_RIGHT :: string where "MOVEMOUSE_RIGHT = ''movemouse-right''"
definition MOVEMOUSE_ACCEL_UP :: string where "MOVEMOUSE_ACCEL_UP = ''movemouse-accel-up''"
definition MOVEMOUSE_ACCEL_DOWN :: string where "MOVEMOUSE_ACCEL_DOWN = ''movemouse-accel-down''"
definition MOVEMOUSE_ACCEL_LEFT :: string where "MOVEMOUSE_ACCEL_LEFT = ''movemouse-accel-left''"
definition MOVEMOUSE_ACCEL_RIGHT :: string where "MOVEMOUSE_ACCEL_RIGHT = ''movemouse-accel-right''"
definition MOVEMOUSE_SPEED :: string where "MOVEMOUSE_SPEED = ''movemouse-speed''"
definition MOVEMOUSE_UP_A :: string where "MOVEMOUSE_UP_A = [CHR 0xF0, CHR 0x9F, CHR 0x96, CHR 0xB1, CHR 0xE2, CHR 0x86, CHR 0x91]"
definition MOVEMOUSE_DOWN_A :: string where "MOVEMOUSE_DOWN_A = [CHR 0xF0, CHR 0x9F, CHR 0x96, CHR 0xB1, CHR 0xE2, CHR 0x86, CHR 0x93]"
definition MOVEMOUSE_LEFT_A :: string where "MOVEMOUSE_LEFT_A = [CHR 0xF0, CHR 0x9F, CHR 0x96, CHR 0xB1, CHR 0xE2, CHR 0x86, CHR 0x90]"
definition MOVEMOUSE_RIGHT_A :: string where "MOVEMOUSE_RIGHT_A = [CHR 0xF0, CHR 0x9F, CHR 0x96, CHR 0xB1, CHR 0xE2, CHR 0x86, CHR 0x92]"
definition MOVEMOUSE_ACCEL_UP_A :: string where "MOVEMOUSE_ACCEL_UP_A = [CHR 0xF0, CHR 0x9F, CHR 0x96, CHR 0xB1] @ ''accel'' @ [CHR 0xE2, CHR 0x86, CHR 0x91]"
definition MOVEMOUSE_ACCEL_DOWN_A :: string where "MOVEMOUSE_ACCEL_DOWN_A = [CHR 0xF0, CHR 0x9F, CHR 0x96, CHR 0xB1] @ ''accel'' @ [CHR 0xE2, CHR 0x86, CHR 0x93]"
definition MOVEMOUSE_ACCEL_LEFT_A :: string where "MOVEMOUSE_ACCEL_LEFT_A = [CHR 0xF0, CHR 0x9F, CHR 0x96, CHR 0xB1] @ ''accel'' @ [CHR 0xE2, CHR 0x86, CHR 0x90]"
definition MOVEMOUSE_ACCEL_RIGHT_A :: string where "MOVEMOUSE_ACCEL_RIGHT_A = [CHR 0xF0, CHR 0x9F, CHR 0x96, CHR 0xB1] @ ''accel'' @ [CHR 0xE2, CHR 0x86, CHR 0x92]"
definition MOVEMOUSE_SPEED_A :: string where "MOVEMOUSE_SPEED_A = [CHR 0xF0, CHR 0x9F, CHR 0x96, CHR 0xB1] @ ''speed''"
definition SETMOUSE :: string where "SETMOUSE = ''setmouse''"
definition SETMOUSE_A :: string where "SETMOUSE_A = ''set'' @ [CHR 0xF0, CHR 0x9F, CHR 0x96, CHR 0xB1]"
definition DYNAMIC_MACRO_RECORD :: string where "DYNAMIC_MACRO_RECORD = ''dynamic-macro-record''"
definition DYNAMIC_MACRO_PLAY :: string where "DYNAMIC_MACRO_PLAY = ''dynamic-macro-play''"
definition ARBITRARY_CODE :: string where "ARBITRARY_CODE = ''arbitrary-code''"
definition CMD :: string where "CMD = ''cmd''"
definition CMD_LOG :: string where "CMD_LOG = ''cmd-log''"
definition PUSH_MESSAGE :: string where "PUSH_MESSAGE = ''push-msg''"
definition CMD_OUTPUT_KEYS :: string where "CMD_OUTPUT_KEYS = ''cmd-output-keys''"
definition FORK :: string where "FORK = ''fork''"
definition CAPS_WORD :: string where "CAPS_WORD = ''caps-word''"
definition CAPS_WORD_A :: string where "CAPS_WORD_A = ''word'' @ [CHR 0xE2, CHR 0x87, CHR 0xAA]"
definition CAPS_WORD_CUSTOM :: string where "CAPS_WORD_CUSTOM = ''caps-word-custom''"
definition CAPS_WORD_CUSTOM_A :: string where "CAPS_WORD_CUSTOM_A = ''word'' @ [CHR 0xE2, CHR 0x87, CHR 0xAA] @ ''custom''"
definition CAPS_WORD_TOGGLE :: string where "CAPS_WORD_TOGGLE = ''caps-word-toggle''"
definition CAPS_WORD_TOGGLE_A :: string where "CAPS_WORD_TOGGLE_A = ''word'' @ [CHR 0xE2, CHR 0x87, CHR 0xAA] @ ''toggle''"
definition CAPS_WORD_CUSTOM_TOGGLE :: string where "CAPS_WORD_CUSTOM_TOGGLE = ''caps-word-custom-toggle''"
definition CAPS_WORD_CUSTOM_TOGGLE_A :: string where "CAPS_WORD_CUSTOM_TOGGLE_A = ''word'' @ [CHR 0xE2, CHR 0x87, CHR 0xAA] @ ''custom-toggle''"
definition DYNAMIC_MACRO_RECORD_STOP_TRUNCATE :: string where "DYNAMIC_MACRO_RECORD_STOP_TRUNCATE = ''dynamic-macro-record-stop-truncate''"
definition SWITCH :: string where "SWITCH = ''switch''"
definition SEQUENCE :: string where "SEQUENCE = ''sequence''"
definition SEQUENCE_NOERASE :: string where "SEQUENCE_NOERASE = ''sequence-noerase''"
definition UNMOD :: string where "UNMOD = ''unmod''"
definition UNSHIFT :: string where "UNSHIFT = ''unshift''"
definition UNSHIFT_A :: string where "UNSHIFT_A = ''un'' @ [CHR 0xE2, CHR 0x87, CHR 0xA7]"
definition LIVE_RELOAD_NUM :: string where "LIVE_RELOAD_NUM = ''lrld-num''"
definition LIVE_RELOAD_FILE :: string where "LIVE_RELOAD_FILE = ''lrld-file''"
definition ON_PRESS :: string where "ON_PRESS = ''on-press''"
definition ON_PRESS_A :: string where "ON_PRESS_A = ''on'' @ [CHR 0xE2, CHR 0x86, CHR 0x93]"
definition ON_RELEASE :: string where "ON_RELEASE = ''on-release''"
definition ON_RELEASE_A :: string where "ON_RELEASE_A = ''on'' @ [CHR 0xE2, CHR 0x86, CHR 0x91]"
definition ON_IDLE :: string where "ON_IDLE = ''on-idle''"
definition ON_PHYSICAL_IDLE :: string where "ON_PHYSICAL_IDLE = ''on-physical-idle''"
definition HOLD_FOR_DURATION :: string where "HOLD_FOR_DURATION = ''hold-for-duration''"
definition CLIPBOARD_SET :: string where "CLIPBOARD_SET = ''clipboard-set''"
definition CLIPBOARD_CMD_SET :: string where "CLIPBOARD_CMD_SET = ''clipboard-cmd-set''"
definition CLIPBOARD_SAVE :: string where "CLIPBOARD_SAVE = ''clipboard-save''"
definition CLIPBOARD_RESTORE :: string where "CLIPBOARD_RESTORE = ''clipboard-restore''"
definition CLIPBOARD_SAVE_SET :: string where "CLIPBOARD_SAVE_SET = ''clipboard-save-set''"
definition CLIPBOARD_SAVE_CMD_SET :: string where "CLIPBOARD_SAVE_CMD_SET = ''clipboard-save-cmd-set''"
definition CLIPBOARD_SAVE_SWAP :: string where "CLIPBOARD_SAVE_SWAP = ''clipboard-save-swap''"
definition TAP_HOLD_ORDER :: string where "TAP_HOLD_ORDER = ''tap-hold-order''"
definition TAP_HOLD_OPPOSITE_HAND :: string where "TAP_HOLD_OPPOSITE_HAND = ''tap-hold-opposite-hand''"
definition TAP_HOLD_OPPOSITE_HAND_RELEASE :: string where "TAP_HOLD_OPPOSITE_HAND_RELEASE = ''tap-hold-opposite-hand-release''"

definition LIST_ACTIONS :: "string list" where
  "LIST_ACTIONS =
     [LAYER_SWITCH, LAYER_TOGGLE, LAYER_WHILE_HELD, TAP_HOLD, TAP_HOLD_PRESS, TAP_HOLD_PRESS_A,
      TAP_HOLD_RELEASE, TAP_HOLD_RELEASE_A, TAP_HOLD_PRESS_TIMEOUT, TAP_HOLD_PRESS_TIMEOUT_A,
      TAP_HOLD_RELEASE_TIMEOUT, TAP_HOLD_RELEASE_TIMEOUT_A, TAP_HOLD_RELEASE_KEYS,
      TAP_HOLD_RELEASE_KEYS_TAP_RELEASE, TAP_HOLD_RELEASE_KEYS_A, TAP_HOLD_EXCEPT_KEYS,
      TAP_HOLD_EXCEPT_KEYS_A, TAP_HOLD_TAP_KEYS, TAP_HOLD_TAP_KEYS_A, TAP_HOLD_KEYS, MULTI, MACRO,
      MACRO_REPEAT, MACRO_REPEAT_A, MACRO_RELEASE_CANCEL, MACRO_RELEASE_CANCEL_A,
      MACRO_REPEAT_RELEASE_CANCEL, MACRO_REPEAT_RELEASE_CANCEL_A, UNICODE, SYM, ONE_SHOT,
      ONE_SHOT_PRESS, ONE_SHOT_PRESS_A, ONE_SHOT_RELEASE, ONE_SHOT_RELEASE_A,
      ONE_SHOT_PRESS_PCANCEL, ONE_SHOT_PRESS_PCANCEL_A, ONE_SHOT_RELEASE_PCANCEL,
      ONE_SHOT_RELEASE_PCANCEL_A, TAP_DANCE, TAP_DANCE_EAGER, CHORD, RELEASE_KEY, RELEASE_KEY_A,
      RELEASE_LAYER, RELEASE_LAYER_A, ON_PRESS_FAKEKEY, ON_PRESS_FAKEKEY_A, ON_RELEASE_FAKEKEY,
      ON_RELEASE_FAKEKEY_A, ON_PRESS_DELAY, ON_RELEASE_DELAY, ON_PRESS_FAKEKEY_DELAY,
      ON_PRESS_FAKEKEY_DELAY_A, ON_RELEASE_FAKEKEY_DELAY, ON_RELEASE_FAKEKEY_DELAY_A,
      ON_IDLE_FAKEKEY, MWHEEL_UP, MWHEEL_UP_A, MWHEEL_DOWN, MWHEEL_DOWN_A, MWHEEL_LEFT,
      MWHEEL_LEFT_A, MWHEEL_RIGHT, MWHEEL_RIGHT_A, MWHEEL_ACCEL_UP, MWHEEL_ACCEL_DOWN,
      MWHEEL_ACCEL_LEFT, MWHEEL_ACCEL_RIGHT, MOVEMOUSE_UP, MOVEMOUSE_UP_A, MOVEMOUSE_DOWN,
      MOVEMOUSE_DOWN_A, MOVEMOUSE_LEFT, MOVEMOUSE_LEFT_A, MOVEMOUSE_RIGHT, MOVEMOUSE_RIGHT_A,
      MOVEMOUSE_ACCEL_UP, MOVEMOUSE_ACCEL_UP_A, MOVEMOUSE_ACCEL_DOWN, MOVEMOUSE_ACCEL_DOWN_A,
      MOVEMOUSE_ACCEL_LEFT, MOVEMOUSE_ACCEL_LEFT_A, MOVEMOUSE_ACCEL_RIGHT, MOVEMOUSE_ACCEL_RIGHT_A,
      MOVEMOUSE_SPEED, MOVEMOUSE_SPEED_A, SETMOUSE, SETMOUSE_A, DYNAMIC_MACRO_RECORD,
      DYNAMIC_MACRO_PLAY, ARBITRARY_CODE, CMD, CMD_OUTPUT_KEYS, CMD_LOG, PUSH_MESSAGE, FORK,
      CAPS_WORD, CAPS_WORD_A, CAPS_WORD_TOGGLE, CAPS_WORD_TOGGLE_A, CAPS_WORD_CUSTOM,
      CAPS_WORD_CUSTOM_A, CAPS_WORD_CUSTOM_TOGGLE, CAPS_WORD_CUSTOM_TOGGLE_A,
      DYNAMIC_MACRO_RECORD_STOP_TRUNCATE, SWITCH, SEQUENCE, SEQUENCE_NOERASE, UNMOD, UNSHIFT,
      UNSHIFT_A, LIVE_RELOAD_NUM, LIVE_RELOAD_FILE, ON_PRESS, ON_PRESS_A, ON_RELEASE, ON_RELEASE_A,
      ON_IDLE, ON_PHYSICAL_IDLE, HOLD_FOR_DURATION, MACRO_CANCEL_ON_NEXT_PRESS,
      MACRO_REPEAT_CANCEL_ON_NEXT_PRESS, MACRO_CANCEL_ON_NEXT_PRESS_CANCEL_ON_RELEASE,
      MACRO_REPEAT_CANCEL_ON_NEXT_PRESS_CANCEL_ON_RELEASE, ONE_SHOT_PAUSE_PROCESSING,
      CLIPBOARD_SET, CLIPBOARD_CMD_SET, CLIPBOARD_SAVE, CLIPBOARD_RESTORE, CLIPBOARD_SAVE_SET,
      CLIPBOARD_SAVE_CMD_SET, CLIPBOARD_SAVE_SWAP, TAP_HOLD_ORDER, TAP_HOLD_OPPOSITE_HAND,
      TAP_HOLD_OPPOSITE_HAND_RELEASE]"

definition is_list_action :: "string \<Rightarrow> bool" where
  "is_list_action ac \<longleftrightarrow> ac \<in> set LIST_ACTIONS"

lemmas list_action_names =
  LAYER_SWITCH_def LAYER_TOGGLE_def LAYER_WHILE_HELD_def TAP_HOLD_def
  TAP_HOLD_PRESS_def TAP_HOLD_PRESS_A_def TAP_HOLD_RELEASE_def TAP_HOLD_RELEASE_A_def
  TAP_HOLD_PRESS_TIMEOUT_def TAP_HOLD_PRESS_TIMEOUT_A_def TAP_HOLD_RELEASE_TIMEOUT_def TAP_HOLD_RELEASE_TIMEOUT_A_def
  TAP_HOLD_RELEASE_KEYS_def TAP_HOLD_RELEASE_KEYS_TAP_RELEASE_def TAP_HOLD_RELEASE_KEYS_A_def TAP_HOLD_EXCEPT_KEYS_def
  TAP_HOLD_EXCEPT_KEYS_A_def TAP_HOLD_TAP_KEYS_def TAP_HOLD_TAP_KEYS_A_def TAP_HOLD_KEYS_def
  MULTI_def MACRO_def MACRO_REPEAT_def MACRO_REPEAT_A_def
  MACRO_RELEASE_CANCEL_def MACRO_RELEASE_CANCEL_A_def MACRO_REPEAT_RELEASE_CANCEL_def MACRO_REPEAT_RELEASE_CANCEL_A_def
  MACRO_CANCEL_ON_NEXT_PRESS_def MACRO_REPEAT_CANCEL_ON_NEXT_PRESS_def MACRO_CANCEL_ON_NEXT_PRESS_CANCEL_ON_RELEASE_def MACRO_REPEAT_CANCEL_ON_NEXT_PRESS_CANCEL_ON_RELEASE_def
  UNICODE_def SYM_def ONE_SHOT_def ONE_SHOT_PRESS_def
  ONE_SHOT_PRESS_A_def ONE_SHOT_RELEASE_def ONE_SHOT_RELEASE_A_def ONE_SHOT_PRESS_PCANCEL_def
  ONE_SHOT_PRESS_PCANCEL_A_def ONE_SHOT_RELEASE_PCANCEL_def ONE_SHOT_RELEASE_PCANCEL_A_def ONE_SHOT_PAUSE_PROCESSING_def
  TAP_DANCE_def TAP_DANCE_EAGER_def CHORD_def RELEASE_KEY_def
  RELEASE_KEY_A_def RELEASE_LAYER_def RELEASE_LAYER_A_def ON_PRESS_FAKEKEY_def
  ON_PRESS_FAKEKEY_A_def ON_RELEASE_FAKEKEY_def ON_RELEASE_FAKEKEY_A_def ON_PRESS_DELAY_def
  ON_RELEASE_DELAY_def ON_PRESS_FAKEKEY_DELAY_def ON_PRESS_FAKEKEY_DELAY_A_def ON_RELEASE_FAKEKEY_DELAY_def
  ON_RELEASE_FAKEKEY_DELAY_A_def ON_IDLE_FAKEKEY_def MWHEEL_UP_def MWHEEL_DOWN_def
  MWHEEL_LEFT_def MWHEEL_RIGHT_def MWHEEL_UP_A_def MWHEEL_DOWN_A_def
  MWHEEL_LEFT_A_def MWHEEL_RIGHT_A_def MWHEEL_ACCEL_UP_def MWHEEL_ACCEL_DOWN_def
  MWHEEL_ACCEL_LEFT_def MWHEEL_ACCEL_RIGHT_def MOVEMOUSE_UP_def MOVEMOUSE_DOWN_def
  MOVEMOUSE_LEFT_def MOVEMOUSE_RIGHT_def MOVEMOUSE_ACCEL_UP_def MOVEMOUSE_ACCEL_DOWN_def
  MOVEMOUSE_ACCEL_LEFT_def MOVEMOUSE_ACCEL_RIGHT_def MOVEMOUSE_SPEED_def MOVEMOUSE_UP_A_def
  MOVEMOUSE_DOWN_A_def MOVEMOUSE_LEFT_A_def MOVEMOUSE_RIGHT_A_def MOVEMOUSE_ACCEL_UP_A_def
  MOVEMOUSE_ACCEL_DOWN_A_def MOVEMOUSE_ACCEL_LEFT_A_def MOVEMOUSE_ACCEL_RIGHT_A_def MOVEMOUSE_SPEED_A_def
  SETMOUSE_def SETMOUSE_A_def DYNAMIC_MACRO_RECORD_def DYNAMIC_MACRO_PLAY_def
  ARBITRARY_CODE_def CMD_def CMD_LOG_def PUSH_MESSAGE_def
  CMD_OUTPUT_KEYS_def FORK_def CAPS_WORD_def CAPS_WORD_A_def
  CAPS_WORD_CUSTOM_def CAPS_WORD_CUSTOM_A_def CAPS_WORD_TOGGLE_def CAPS_WORD_TOGGLE_A_def
  CAPS_WORD_CUSTOM_TOGGLE_def CAPS_WORD_CUSTOM_TOGGLE_A_def DYNAMIC_MACRO_RECORD_STOP_TRUNCATE_def SWITCH_def
  SEQUENCE_def SEQUENCE_NOERASE_def UNMOD_def UNSHIFT_def
  UNSHIFT_A_def LIVE_RELOAD_NUM_def LIVE_RELOAD_FILE_def ON_PRESS_def
  ON_PRESS_A_def ON_RELEASE_def ON_RELEASE_A_def ON_IDLE_def
  ON_PHYSICAL_IDLE_def HOLD_FOR_DURATION_def CLIPBOARD_SET_def CLIPBOARD_CMD_SET_def
  CLIPBOARD_SAVE_def CLIPBOARD_RESTORE_def CLIPBOARD_SAVE_SET_def CLIPBOARD_SAVE_CMD_SET_def
  CLIPBOARD_SAVE_SWAP_def TAP_HOLD_ORDER_def TAP_HOLD_OPPOSITE_HAND_def TAP_HOLD_OPPOSITE_HAND_RELEASE_def

end
