(* ===== verification/ParserState.thy ===== *)
theory ParserState
  imports MacroParser TapHoldClosures ListActions
begin

text \<open>
  The state of the parser of actions (\<open>ParserState\<close> in \<open>parser/src/cfg/mod.rs\<close>), as far as the actions
  depend on it. The maps that the parser iterates over are lists in the order of insertion. What comes
  from outside is in the last fields: the table of key names, whether the build allows commands,
  and the functions of the standard library for upper case and floating-point numbers, and running a
  command.

  \<open>multi_action_nest_count\<close> is changed through a shared reference; here every action in a \<open>multi\<close> is
  parsed with a state in which it is one higher. The difference would only show after an error that does not
  reject the configuration; \<open>parse_multi\<close> is only called for a list that begins with its name, which is an error
  in every other reading.
\<close>

type_synonym kaction = "custom_action action"

record chord_group =
  cgr_id :: u16
  cgr_name :: string
  cgr_keys :: "string list"
  cgr_coords :: "(kcoord \<times> chord_keys) list"
  cgr_chords :: "(chord_keys \<times> sexpr) list"
  cgr_timeout :: u16

record parser_state =
  ps_vars :: cfg_vars
  ps_aliases :: "string \<rightharpoonup> kaction"
  ps_layer_idxs :: "string \<rightharpoonup> nat"
  ps_virtual_keys :: "(string \<times> kaction) list"
  ps_chord_groups :: "(string \<times> chord_group) list"
  ps_is_cmd_enabled :: bool
  ps_default_sequence_timeout :: u16
  ps_default_sequence_input_mode :: sequence_input_mode
  ps_multi_nest :: u16
  ps_input_devices :: "u8 list option"
  ps_trans_forbidden :: bool
  ps_hand_map :: "hand_map option"
  ps_osc :: "string \<rightharpoonup> u16"
  ps_cmd_feature :: bool
  ps_to_uppercase :: "string \<Rightarrow> string"
  ps_parse_f32 :: "string \<Rightarrow> f32_bits option"
  ps_exit_code :: "string list \<Rightarrow> int"

text \<open>The number of a virtual key: its position in the order of definition.\<close>

definition virtual_key :: "parser_state \<Rightarrow> string \<Rightarrow> nat option" where
  "virtual_key s name =
     find (\<lambda>i. fst (ps_virtual_keys s ! i) = name) [0 ..< length (ps_virtual_keys s)]"

lemma virtual_key_less: "virtual_key s name = Some i \<Longrightarrow> i < length (ps_virtual_keys s)"
  by (auto simp: virtual_key_def find_Some_iff split: option.splits)

section \<open>Numbers and characters\<close>

text \<open>The comparison of a number with bounds that are not negative, on the bits: the bits of such numbers are
  ordered as the numbers are, a negative number has larger bits than all of them, as has the value that is
  no number, and minus zero equals zero.\<close>

definition f32_between :: "f32_bits \<Rightarrow> f32_bits \<Rightarrow> f32_bits \<Rightarrow> bool" where
  "f32_between lo hi v \<longleftrightarrow> lo \<le> v \<and> v \<le> hi \<or> v = 0x80000000 \<and> lo = 0"

definition parse_f32 :: "parser_state \<Rightarrow> sexpr \<Rightarrow> f32_bits \<Rightarrow> f32_bits \<Rightarrow> f32_bits cfg_res" where
  "parse_f32 s e lo hi =
     and_then (atom_of (ps_vars s) e) (\<lambda>a.
       case Option.bind a (ps_parse_f32 s) of
         Some v \<Rightarrow> if f32_between lo hi v then Inr v else Inl Rejected
       | None \<Rightarrow> Inl Rejected)"

text \<open>The characters of a string (\<open>str::chars\<close>)\<close>

fun utf8_chars :: "u32 list \<Rightarrow> u32 list" where
  "utf8_chars [] = []"
| "utf8_chars (a # bs) =
     (if a < 0x80 then a # utf8_chars bs
      else
        case bs of
          b # cs \<Rightarrow>
            if a < 0xE0 then ((a AND 0x1F) * 0x40 + (b AND 0x3F)) # utf8_chars cs
            else
              (case cs of
                 c # ds \<Rightarrow>
                   if a < 0xF0
                   then ((a AND 0x0F) * 0x1000 + (b AND 0x3F) * 0x40 + (c AND 0x3F)) # utf8_chars ds
                   else
                     (case ds of
                        d # es \<Rightarrow>
                          ((a AND 0x07) * 0x40000 + (b AND 0x3F) * 0x1000 + (c AND 0x3F) * 0x40 + (d AND 0x3F))
                            # utf8_chars es
                      | [] \<Rightarrow> [])
               | [] \<Rightarrow> [])
        | [] \<Rightarrow> [])"

definition chars :: "string \<Rightarrow> u32 list" where
  "chars s = utf8_chars (map of_char s)"

text \<open>\<open>u32::from_str_radix(_, 16)\<close>\<close>

definition hex_digit :: "char \<Rightarrow> nat option" where
  "hex_digit c =
     (let n = of_char c :: nat in
      if n \<in> {48 .. 57} then Some (n - 48)
      else if n \<in> {65 .. 70} then Some (n - 55)
      else if n \<in> {97 .. 102} then Some (n - 87) else None)"

definition parse_hex :: "string \<Rightarrow> nat option" where
  "parse_hex s =
     (let ds = (if take 1 s = ''+'' then drop 1 s else s);
          v = fold (\<lambda>c n. 16 * n + the (hex_digit c)) ds 0 in
      if ds \<noteq> [] \<and> list_all (\<lambda>c. hex_digit c \<noteq> None) ds \<and> v < 2 ^ 32 then Some v else None)"

text \<open>\<open>char::from_u32\<close>\<close>

definition char_from_u32 :: "nat \<Rightarrow> u32 option" where
  "char_from_u32 n =
     (if n < 0xD800 \<or> 0xE000 \<le> n \<and> n < 0x110000 then Some (of_nat n) else None)"

section \<open>Small helpers\<close>

definition custom :: "custom_action \<Rightarrow> kaction cfg_res" where
  "custom ca = Inr (Custom ca)"

definition atom_is :: "parser_state \<Rightarrow> sexpr \<Rightarrow> (string \<times> 'a) list \<Rightarrow> 'a cfg_res" where
  "atom_is s e names = and_then (need_atom (ps_vars s) e) (\<lambda>a. or_reject (map_of names a))"

text \<open>The name of a key, as \<open>atom(..).and_then(str_to_oscode)\<close>\<close>

definition key_of :: "parser_state \<Rightarrow> sexpr \<Rightarrow> u16 cfg_res" where
  "key_of s e = and_then (need_atom (ps_vars s) e) (\<lambda>a. or_reject (ps_osc s a))"

abbreviation "u16_of s \<equiv> parse_u16 (ps_vars s)"
abbreviation "non_zero_u16_of s \<equiv> parse_non_zero_u16 (ps_vars s)"
abbreviation "key_list_of s \<equiv> parse_key_list (ps_osc s) (ps_vars s)"

end
