(* ===== verification/TapHoldParsers.thy ===== *)
theory TapHoldParsers
  imports ParserState
begin

text \<open>
  The parsers of the hold-tap actions (\<open>parser/src/cfg/tap_hold.rs\<close>, \<open>parser/src/cfg/defhands.rs\<close>), tap-dance and
  one-shot. \<open>pa\<close> is \<open>parse_action\<close>.
\<close>

section \<open>Options at the end\<close>

definition TAP_HOLD_OPTION_KEYWORDS :: "string list" where
  "TAP_HOLD_OPTION_KEYWORDS = [''require-prior-idle'']"

definition TAP_HOLD_KEYS_OPTION_KEYWORDS :: "string list" where
  "TAP_HOLD_KEYS_OPTION_KEYWORDS =
     [''require-prior-idle'', ''tap-on-press'', ''tap-on-press-release'', ''hold-on-press'']"

text \<open>Whether an expression is a list that begins with one of the keywords\<close>

definition is_option :: "string list \<Rightarrow> parser_state \<Rightarrow> sexpr \<Rightarrow> bool cfg_res" where
  "is_option keywords s e =
     and_then (list_of (ps_vars s) e) (\<lambda>l.
       case l of
         Some (k # _) \<Rightarrow>
           and_then (atom_of (ps_vars s) k) (\<lambda>a.
             Inr (case a of Some kw \<Rightarrow> kw \<in> set keywords | None \<Rightarrow> False))
       | _ \<Rightarrow> Inr False)"

fun count_leading :: "('a \<Rightarrow> bool cfg_res) \<Rightarrow> 'a list \<Rightarrow> nat cfg_res" where
  "count_leading f [] = Inr 0"
| "count_leading f (x # xs) =
     and_then (f x) (\<lambda>b. if b then and_then (count_leading f xs) (\<lambda>n. Inr (Suc n)) else Inr 0)"

definition count_trailing_options :: "string list \<Rightarrow> sexpr list \<Rightarrow> parser_state \<Rightarrow> nat cfg_res" where
  "count_trailing_options keywords ac_params s = count_leading (is_option keywords s) (rev ac_params)"

definition parse_require_prior_idle_option :: "sexpr list \<Rightarrow> parser_state \<Rightarrow> u16 cfg_res" where
  "parse_require_prior_idle_option option s =
     (if length option \<noteq> 2 then Inl Rejected else u16_of s (option ! 1))"

definition parse_tap_repress_timeout_option :: "sexpr list \<Rightarrow> parser_state \<Rightarrow> u16 cfg_res" where
  "parse_tap_repress_timeout_option option s =
     (if length option \<noteq> 2 then Inl Rejected else u16_of s (option ! 1))"

text \<open>An option that is not empty, with its name; \<open>seen\<close> are the names of the earlier ones.\<close>

definition option_name :: "parser_state \<Rightarrow> string list \<Rightarrow> sexpr \<Rightarrow> (sexpr list \<times> string) cfg_res" where
  "option_name s seen e =
     and_then (need_list (ps_vars s) e) (\<lambda>option.
       case option of
         [] \<Rightarrow> Inl Rejected
       | k # _ \<Rightarrow>
           and_then (need_atom (ps_vars s) k) (\<lambda>kw.
             if kw \<in> set seen then Inl Rejected else Inr (option, kw)))"

fun parse_options ::
  "parser_state \<Rightarrow> (string \<Rightarrow> sexpr list \<Rightarrow> 'o \<Rightarrow> 'o cfg_res) \<Rightarrow> string list \<Rightarrow> sexpr list \<Rightarrow> 'o \<Rightarrow> 'o cfg_res" where
  "parse_options s f seen [] opts = Inr opts"
| "parse_options s f seen (e # es) opts =
     and_then (option_name s seen e) (\<lambda>(option, kw).
     and_then (f kw option opts) (\<lambda>opts'. parse_options s f (kw # seen) es opts'))"

definition tap_hold_option :: "parser_state \<Rightarrow> string \<Rightarrow> sexpr list \<Rightarrow> u16 option \<Rightarrow> u16 option cfg_res" where
  "tap_hold_option s kw option opts =
     (if kw = ''require-prior-idle''
      then and_then (parse_require_prior_idle_option option s) (\<lambda>t. Inr (Some t))
      else Inl Rejected)"

definition parse_tap_hold_options :: "sexpr list \<Rightarrow> parser_state \<Rightarrow> u16 option cfg_res" where
  "parse_tap_hold_options option_exprs s = parse_options s (tap_hold_option s) [] option_exprs None"

section \<open>Hold-tap\<close>

definition is_hold_tap :: "'t action \<Rightarrow> bool" where
  "is_hold_tap a \<longleftrightarrow> (case a of HoldTap _ \<Rightarrow> True | _ \<Rightarrow> False)"

text \<open>The first four parameters: \<open>first\<close> reads the time in the second.\<close>

definition tap_hold_params ::
  "(parser_state \<Rightarrow> sexpr \<Rightarrow> kaction cfg_res) \<Rightarrow> (sexpr \<Rightarrow> u16 cfg_res) \<Rightarrow> parser_state \<Rightarrow> sexpr list
     \<Rightarrow> (u16 \<times> u16 \<times> kaction \<times> kaction) cfg_res" where
  "tap_hold_params pa time s ac_params =
     and_then (u16_of s (ac_params ! 0)) (\<lambda>tap_repress_timeout.
     and_then (time (ac_params ! 1)) (\<lambda>hold_timeout.
     and_then (pa s (ac_params ! 2)) (\<lambda>tap_action.
     and_then (pa s (ac_params ! 3)) (\<lambda>hold_action.
       Inr (tap_repress_timeout, hold_timeout, tap_action, hold_action)))))"

definition parse_tap_hold ::
  "(parser_state \<Rightarrow> sexpr \<Rightarrow> kaction cfg_res) \<Rightarrow> hold_tap_config \<Rightarrow> parser_state \<Rightarrow> sexpr list
     \<Rightarrow> kaction cfg_res" where
  "parse_tap_hold pa config s ac_params =
     and_then (count_trailing_options TAP_HOLD_OPTION_KEYWORDS ac_params s) (\<lambda>n_opts.
       let n_positional = length ac_params - n_opts in
       if n_positional \<noteq> 4 then Inl Rejected
       else
         and_then (tap_hold_params pa (non_zero_u16_of s) s ac_params) (\<lambda>(repress, timeout, tap, hold).
           if is_hold_tap tap then Inl Rejected
           else
             and_then (parse_tap_hold_options (drop n_positional ac_params) s) (\<lambda>prior_idle.
               Inr (HoldTap (HoldTapAction timeout hold tap hold config repress None prior_idle)))))"

definition timeout_arity :: "hold_tap_config \<Rightarrow> nat \<Rightarrow> unit cfg_res" where
  "timeout_arity config n =
     (case config of
        PermissiveHold \<Rightarrow> reject_unless (n = 5 \<or> n = 6)
      | HoldOnOtherKeyPress \<Rightarrow> reject_unless (n = 5)
      | _ \<Rightarrow> Inl ParserPanic)"

definition parse_tap_hold_timeout ::
  "(parser_state \<Rightarrow> sexpr \<Rightarrow> kaction cfg_res) \<Rightarrow> hold_tap_config \<Rightarrow> parser_state \<Rightarrow> sexpr list
     \<Rightarrow> kaction cfg_res" where
  "parse_tap_hold_timeout pa config s ac_params =
     and_then (count_trailing_options TAP_HOLD_OPTION_KEYWORDS ac_params s) (\<lambda>n_opts.
       let n_positional = length ac_params - n_opts in
       and_then (timeout_arity config n_positional) (\<lambda>_.
       and_then (tap_hold_params pa (non_zero_u16_of s) s ac_params) (\<lambda>(repress, timeout, tap, hold).
       and_then (pa s (ac_params ! 4)) (\<lambda>timeout_action.
         if is_hold_tap tap then Inl Rejected
         else
           and_then
             (if n_positional = 6 then
                and_then (atom_of (ps_vars s) (ac_params ! 5)) (\<lambda>a.
                  if a = Some ''reset-timeout-on-press'' then Inr (if timeout = 0 then None else Some timeout)
                  else Inl Rejected)
              else Inr None)
             (\<lambda>reset.
           and_then (parse_tap_hold_options (drop n_positional ac_params) s) (\<lambda>prior_idle.
             Inr (HoldTap (HoldTapAction timeout hold tap timeout_action config repress reset prior_idle))))))))"

definition parse_tap_hold_order ::
  "(parser_state \<Rightarrow> sexpr \<Rightarrow> kaction cfg_res) \<Rightarrow> parser_state \<Rightarrow> sexpr list \<Rightarrow> kaction cfg_res" where
  "parse_tap_hold_order pa s ac_params =
     and_then (count_trailing_options TAP_HOLD_OPTION_KEYWORDS ac_params s) (\<lambda>n_opts.
       let n_positional = length ac_params - n_opts in
       if n_positional \<noteq> 4 then Inl Rejected
       else
         and_then (tap_hold_params pa (u16_of s) s ac_params) (\<lambda>(repress, buffer, tap, hold).
           if is_hold_tap tap then Inl Rejected
           else
             and_then (parse_tap_hold_options (drop n_positional ac_params) s) (\<lambda>prior_idle.
               Inr (HoldTap (HoldTapAction 0xFFFF hold tap tap (Order buffer) repress None prior_idle)))))"

definition parse_tap_hold_keys ::
  "(parser_state \<Rightarrow> sexpr \<Rightarrow> kaction cfg_res) \<Rightarrow> (u16 list \<Rightarrow> queued list \<Rightarrow> closure_result)
     \<Rightarrow> parser_state \<Rightarrow> sexpr list \<Rightarrow> kaction cfg_res" where
  "parse_tap_hold_keys pa custom_func s ac_params =
     and_then (count_trailing_options TAP_HOLD_OPTION_KEYWORDS ac_params s) (\<lambda>n_opts.
       let n_positional = length ac_params - n_opts in
       if n_positional \<noteq> 5 then Inl Rejected
       else
         and_then (tap_hold_params pa (non_zero_u16_of s) s ac_params) (\<lambda>(repress, timeout, tap, hold).
         and_then (key_list_of s (ac_params ! 4)) (\<lambda>keys.
           if is_hold_tap tap then Inl Rejected
           else
             and_then (parse_tap_hold_options (drop n_positional ac_params) s) (\<lambda>prior_idle.
               Inr (HoldTap (HoldTapAction timeout hold tap hold (HtCustom (\<lambda>q coord. custom_func keys q))
                 repress None prior_idle))))))"

definition parse_tap_hold_keys_trigger_tap_release ::
  "(parser_state \<Rightarrow> sexpr \<Rightarrow> kaction cfg_res) \<Rightarrow> parser_state \<Rightarrow> sexpr list \<Rightarrow> kaction cfg_res" where
  "parse_tap_hold_keys_trigger_tap_release pa s ac_params =
     and_then (count_trailing_options TAP_HOLD_OPTION_KEYWORDS ac_params s) (\<lambda>n_opts.
       let n_positional = length ac_params - n_opts in
       if n_positional \<noteq> 6 then Inl Rejected
       else
         and_then (tap_hold_params pa (non_zero_u16_of s) s ac_params) (\<lambda>(repress, timeout, tap, hold).
         and_then (key_list_of s (ac_params ! 4)) (\<lambda>on_press.
         and_then (key_list_of s (ac_params ! 5)) (\<lambda>on_release.
           if is_hold_tap tap then Inl Rejected
           else
             and_then (parse_tap_hold_options (drop n_positional ac_params) s) (\<lambda>prior_idle.
               Inr (HoldTap (HoldTapAction timeout hold tap hold
                 (HtCustom (\<lambda>q coord. custom_tap_hold_release_trigger_tap_release on_press on_release q))
                 repress None prior_idle)))))))"

section \<open>\<open>tap-hold-keys\<close>\<close>

record tap_hold_keys_options =
  thk_require_prior_idle :: "u16 option"
  thk_tap_on_press :: "u16 list"
  thk_tap_on_press_release :: "u16 list"
  thk_hold_on_press :: "u16 list"
  thk_seen_keys :: "u16 list"

fun parse_keys_once :: "parser_state \<Rightarrow> sexpr list \<Rightarrow> u16 list \<Rightarrow> u16 list \<Rightarrow> (u16 list \<times> u16 list) cfg_res" where
  "parse_keys_once s [] seen_keys keys = Inr (keys, seen_keys)"
| "parse_keys_once s (e # es) seen_keys keys =
     and_then (key_of s e) (\<lambda>osc.
       if osc \<in> set seen_keys then Inl Rejected
       else parse_keys_once s es (osc # seen_keys) (keys @ [osc]))"

definition parse_key_list_from_option ::
  "sexpr list \<Rightarrow> parser_state \<Rightarrow> u16 list \<Rightarrow> (u16 list \<times> u16 list) cfg_res" where
  "parse_key_list_from_option option s seen_keys =
     (if length option < 2 then Inl Rejected else parse_keys_once s (tl option) seen_keys [])"

definition tap_hold_keys_option ::
  "parser_state \<Rightarrow> string \<Rightarrow> sexpr list \<Rightarrow> tap_hold_keys_options \<Rightarrow> tap_hold_keys_options cfg_res" where
  "tap_hold_keys_option s kw option opts =
     (if kw = ''require-prior-idle'' then
        and_then (parse_require_prior_idle_option option s) (\<lambda>t.
          Inr (opts\<lparr>thk_require_prior_idle := Some t\<rparr>))
      else if kw = ''tap-on-press'' then
        and_then (parse_key_list_from_option option s (thk_seen_keys opts)) (\<lambda>(keys, seen).
          Inr (opts\<lparr>thk_tap_on_press := keys, thk_seen_keys := seen\<rparr>))
      else if kw = ''tap-on-press-release'' then
        and_then (parse_key_list_from_option option s (thk_seen_keys opts)) (\<lambda>(keys, seen).
          Inr (opts\<lparr>thk_tap_on_press_release := keys, thk_seen_keys := seen\<rparr>))
      else if kw = ''hold-on-press'' then
        and_then (parse_key_list_from_option option s (thk_seen_keys opts)) (\<lambda>(keys, seen).
          Inr (opts\<lparr>thk_hold_on_press := keys, thk_seen_keys := seen\<rparr>))
      else Inl Rejected)"

definition parse_tap_hold_keys_named_lists ::
  "(parser_state \<Rightarrow> sexpr \<Rightarrow> kaction cfg_res) \<Rightarrow> parser_state \<Rightarrow> sexpr list \<Rightarrow> kaction cfg_res" where
  "parse_tap_hold_keys_named_lists pa s ac_params =
     and_then (count_trailing_options TAP_HOLD_KEYS_OPTION_KEYWORDS ac_params s) (\<lambda>n_opts.
       let n_positional = length ac_params - n_opts in
       if n_positional \<noteq> 4 then Inl Rejected
       else
         and_then (tap_hold_params pa (non_zero_u16_of s) s ac_params) (\<lambda>(repress, timeout, tap, hold).
           if is_hold_tap tap then Inl Rejected
           else
             and_then
               (parse_options s (tap_hold_keys_option s) [] (drop n_positional ac_params)
                  \<lparr>thk_require_prior_idle = None, thk_tap_on_press = [], thk_tap_on_press_release = [],
                   thk_hold_on_press = [], thk_seen_keys = []\<rparr>)
               (\<lambda>opts.
                 Inr (HoldTap (HoldTapAction timeout hold tap hold
                   (HtCustom (\<lambda>q coord. custom_tap_hold_keys (thk_tap_on_press opts)
                      (thk_tap_on_press_release opts) (thk_hold_on_press opts) q))
                   repress None (thk_require_prior_idle opts))))))"

section \<open>Hands\<close>

fun parse_hand_keys :: "parser_state \<Rightarrow> hand \<Rightarrow> sexpr list \<Rightarrow> hand_map \<Rightarrow> hand_map cfg_res" where
  "parse_hand_keys s h [] hm = Inr hm"
| "parse_hand_keys s h (e # es) hm =
     and_then (key_of s e) (\<lambda>code.
       if code \<in> fst ` set hm then Inl Rejected else parse_hand_keys s h es (hm @ [(code, h)]))"

fun parse_hand_groups :: "parser_state \<Rightarrow> sexpr list \<Rightarrow> bool \<Rightarrow> bool \<Rightarrow> hand_map \<Rightarrow> hand_map cfg_res" where
  "parse_hand_groups s [] left right hm = Inr hm"
| "parse_hand_groups s (e # es) left right hm =
     and_then (need_list (ps_vars s) e) (\<lambda>group.
       case group of
         [] \<Rightarrow> Inl Rejected
       | g # keys \<Rightarrow>
           and_then (need_atom (ps_vars s) g) (\<lambda>name.
             if name = ''left'' then
               if left then Inl Rejected
               else and_then (parse_hand_keys s HandLeft keys hm) (parse_hand_groups s es True right)
             else if name = ''right'' then
               if right then Inl Rejected
               else and_then (parse_hand_keys s HandRight keys hm) (parse_hand_groups s es left True)
             else Inl Rejected))"

definition parse_defhands :: "sexpr list \<Rightarrow> parser_state \<Rightarrow> hand_map cfg_res" where
  "parse_defhands expr s =
     and_then (check_first_expr expr ''defhands'') (\<lambda>groups. parse_hand_groups s groups False False [])"

definition parse_decision_behavior :: "parser_state \<Rightarrow> sexpr \<Rightarrow> decision_behavior cfg_res" where
  "parse_decision_behavior s e =
     atom_is s e [(''tap'', DecideTap), (''hold'', DecideHold), (''ignore'', DecideIgnore)]"

definition parse_decision_behavior_tap_hold :: "parser_state \<Rightarrow> sexpr \<Rightarrow> decision_behavior cfg_res" where
  "parse_decision_behavior_tap_hold s e = atom_is s e [(''tap'', DecideTap), (''hold'', DecideHold)]"

record opposite_hand_options =
  oh_timeout_behavior :: decision_behavior
  oh_same_hand :: decision_behavior
  oh_neutral :: decision_behavior
  oh_unknown_hand :: decision_behavior
  oh_neutral_keys :: "u16 list"
  oh_require_prior_idle :: "u16 option"
  oh_tap_repress_timeout :: u16

definition one_value :: "sexpr list \<Rightarrow> (sexpr \<Rightarrow> 'a cfg_res) \<Rightarrow> 'a cfg_res" where
  "one_value option f = (if length option \<noteq> 2 then Inl Rejected else f (option ! 1))"

definition opposite_hand_option ::
  "parser_state \<Rightarrow> string \<Rightarrow> sexpr list \<Rightarrow> opposite_hand_options \<Rightarrow> opposite_hand_options cfg_res" where
  "opposite_hand_option s kw option opts =
     (if kw = ''timeout'' then
        and_then (one_value option (parse_decision_behavior_tap_hold s)) (\<lambda>d.
          Inr (opts\<lparr>oh_timeout_behavior := d\<rparr>))
      else if kw = ''same-hand'' then
        and_then (one_value option (parse_decision_behavior s)) (\<lambda>d. Inr (opts\<lparr>oh_same_hand := d\<rparr>))
      else if kw = ''neutral'' then
        and_then (one_value option (parse_decision_behavior s)) (\<lambda>d. Inr (opts\<lparr>oh_neutral := d\<rparr>))
      else if kw = ''unknown-hand'' then
        and_then (one_value option (parse_decision_behavior s)) (\<lambda>d. Inr (opts\<lparr>oh_unknown_hand := d\<rparr>))
      else if kw = ''neutral-keys'' then
        if length option < 2 then Inl Rejected
        else and_then (map_res (key_of s) (tl option)) (\<lambda>keys. Inr (opts\<lparr>oh_neutral_keys := keys\<rparr>))
      else if kw = ''require-prior-idle'' then
        and_then (parse_require_prior_idle_option option s) (\<lambda>t.
          Inr (opts\<lparr>oh_require_prior_idle := Some t\<rparr>))
      else if kw = ''tap-repress-timeout'' then
        and_then (parse_tap_repress_timeout_option option s) (\<lambda>t.
          Inr (opts\<lparr>oh_tap_repress_timeout := t\<rparr>))
      else Inl Rejected)"

text \<open>Both \<open>parse_tap_hold_opposite_hand\<close> and \<open>parse_tap_hold_opposite_hand_release\<close>, which differ in the
  decision function.\<close>

definition parse_opposite_hand ::
  "(hand_options \<Rightarrow> kcoord \<Rightarrow> queued list \<Rightarrow> closure_result)
     \<Rightarrow> (parser_state \<Rightarrow> sexpr \<Rightarrow> kaction cfg_res) \<Rightarrow> parser_state \<Rightarrow> sexpr list \<Rightarrow> kaction cfg_res" where
  "parse_opposite_hand decide pa s ac_params =
     (if length ac_params < 3 then Inl Rejected
      else
        and_then (or_reject (ps_hand_map s)) (\<lambda>hm.
        and_then (non_zero_u16_of s (ac_params ! 0)) (\<lambda>hold_timeout.
        and_then (pa s (ac_params ! 1)) (\<lambda>tap.
        and_then (pa s (ac_params ! 2)) (\<lambda>hold.
          if is_hold_tap tap then Inl Rejected
          else
            and_then
              (parse_options s (opposite_hand_option s) [] (drop 3 ac_params)
                 \<lparr>oh_timeout_behavior = DecideTap, oh_same_hand = DecideTap, oh_neutral = DecideIgnore,
                  oh_unknown_hand = DecideIgnore, oh_neutral_keys = [], oh_require_prior_idle = None,
                  oh_tap_repress_timeout = 0\<rparr>)
              (\<lambda>opts.
            and_then
              (case oh_timeout_behavior opts of
                 DecideTap \<Rightarrow> Inr tap | DecideHold \<Rightarrow> Inr hold | DecideIgnore \<Rightarrow> Inl ParserPanic)
              (\<lambda>timeout_action.
                Inr (HoldTap (HoldTapAction hold_timeout hold tap timeout_action
                  (HtCustom (\<lambda>q coord. decide
                     \<lparr>ho_map = hm, ho_same = oh_same_hand opts, ho_neutral = oh_neutral opts,
                      ho_unknown = oh_unknown_hand opts, ho_neutral_keys = oh_neutral_keys opts\<rparr> coord q))
                  (oh_tap_repress_timeout opts) None (oh_require_prior_idle opts))))))))))"

definition parse_tap_hold_opposite_hand ::
  "(parser_state \<Rightarrow> sexpr \<Rightarrow> kaction cfg_res) \<Rightarrow> parser_state \<Rightarrow> sexpr list \<Rightarrow> kaction cfg_res" where
  "parse_tap_hold_opposite_hand = parse_opposite_hand custom_tap_hold_opposite_hand"

definition parse_tap_hold_opposite_hand_release ::
  "(parser_state \<Rightarrow> sexpr \<Rightarrow> kaction cfg_res) \<Rightarrow> parser_state \<Rightarrow> sexpr list \<Rightarrow> kaction cfg_res" where
  "parse_tap_hold_opposite_hand_release = parse_opposite_hand custom_tap_hold_opposite_hand_release"

section \<open>Tap-dance and one-shot\<close>

definition parse_tap_dance ::
  "(parser_state \<Rightarrow> sexpr \<Rightarrow> kaction cfg_res) \<Rightarrow> tap_dance_config \<Rightarrow> parser_state \<Rightarrow> sexpr list
     \<Rightarrow> kaction cfg_res" where
  "parse_tap_dance pa config s ac_params =
     (if length ac_params \<noteq> 2 then Inl Rejected
      else
        and_then (non_zero_u16_of s (ac_params ! 0)) (\<lambda>timeout.
        and_then (need_list (ps_vars s) (ac_params ! 1)) (\<lambda>exprs.
        and_then (map_res (pa s) exprs) (\<lambda>actions.
          Inr (TapDance (TapDanceCfg actions timeout config))))))"

definition parse_one_shot ::
  "(parser_state \<Rightarrow> sexpr \<Rightarrow> kaction cfg_res) \<Rightarrow> one_shot_end_config \<Rightarrow> parser_state \<Rightarrow> sexpr list
     \<Rightarrow> kaction cfg_res" where
  "parse_one_shot pa end_config s ac_params =
     (if length ac_params \<noteq> 2 then Inl Rejected
      else
        and_then (non_zero_u16_of s (ac_params ! 0)) (\<lambda>timeout.
        and_then (pa s (ac_params ! 1)) (\<lambda>action.
          case action of
            Layer _ \<Rightarrow> Inr (OneShot (OneShotCfg action timeout end_config))
          | KeyCode _ \<Rightarrow> Inr (OneShot (OneShotCfg action timeout end_config))
          | MultipleKeyCodes _ \<Rightarrow> Inr (OneShot (OneShotCfg action timeout end_config))
          | _ \<Rightarrow> Inl Rejected)))"

definition parse_one_shot_pause_processing :: "parser_state \<Rightarrow> sexpr list \<Rightarrow> kaction cfg_res" where
  "parse_one_shot_pause_processing s ac_params =
     (if length ac_params \<noteq> 1 then Inl Rejected
      else and_then (non_zero_u16_of s (ac_params ! 0)) (\<lambda>t. Inr (OneShotIgnoreEventsTicks t)))"

end
