(* ===== verification/CustomParsers.thy ===== *)
theory CustomParsers
  imports ParserState Variables DefSeq
begin

text \<open>
  The parsers of the actions that only carry data to the processing loop: virtual keys and delays
  (\<open>fake_key.rs\<close>), mouse (\<open>mouse.rs\<close>), clipboard, commands, messages, caps-word, unmod, unicode, live
  reload, sequences and dynamic macros, all in \<open>parser/src/cfg/\<close>.
\<close>

section \<open>Virtual keys\<close>

definition parse_vkey_coord :: "parser_state \<Rightarrow> sexpr \<Rightarrow> kcoord cfg_res" where
  "parse_vkey_coord s e =
     and_then (need_atom (ps_vars s) e) (\<lambda>name.
     and_then (or_reject (virtual_key s name)) (\<lambda>y. Inr (get_fake_key_coords y)))"

definition parse_vkey_action :: "parser_state \<Rightarrow> sexpr \<Rightarrow> fake_key_action cfg_res" where
  "parse_vkey_action s e =
     atom_is s e
       [(''press-vkey'', FakePress), (''press-virtualkey'', FakePress),
        (''release-vkey'', FakeRelease), (''release-virtualkey'', FakeRelease),
        (''tap-vkey'', FakeTap), (''tap-virtualkey'', FakeTap),
        (''toggle-vkey'', FakeToggle), (''toggle-virtualkey'', FakeToggle)]"

definition parse_fake_key_op_coord_action ::
  "parser_state \<Rightarrow> sexpr list \<Rightarrow> (kcoord \<times> fake_key_action) cfg_res" where
  "parse_fake_key_op_coord_action s ac_params =
     (if length ac_params \<noteq> 2 then Inl Rejected
      else
        and_then (parse_vkey_coord s (ac_params ! 0)) (\<lambda>coord.
        and_then (atom_is s (ac_params ! 1)
          [(''tap'', FakeTap), (''press'', FakePress), (''release'', FakeRelease), (''toggle'', FakeToggle)])
          (\<lambda>action. Inr (coord, action))))"

definition parse_on_press_fake_key_op :: "parser_state \<Rightarrow> sexpr list \<Rightarrow> kaction cfg_res" where
  "parse_on_press_fake_key_op s ac_params =
     and_then (parse_fake_key_op_coord_action s ac_params) (\<lambda>(coord, action).
       custom (FakeKeyOnPress coord action))"

definition parse_on_release_fake_key_op :: "parser_state \<Rightarrow> sexpr list \<Rightarrow> kaction cfg_res" where
  "parse_on_release_fake_key_op s ac_params =
     and_then (parse_fake_key_op_coord_action s ac_params) (\<lambda>(coord, action).
       custom (FakeKeyOnRelease coord action))"

definition parse_on_idle_fakekey :: "parser_state \<Rightarrow> sexpr list \<Rightarrow> kaction cfg_res" where
  "parse_on_idle_fakekey s ac_params =
     (if length ac_params \<noteq> 3 then Inl Rejected
      else
        and_then (parse_vkey_coord s (ac_params ! 0)) (\<lambda>coord.
        and_then (atom_is s (ac_params ! 1)
          [(''tap'', FakeTap), (''press'', FakePress), (''release'', FakeRelease)]) (\<lambda>action.
        and_then (u16_of s (ac_params ! 2)) (\<lambda>t.
          custom (FakeKeyOnIdle \<lparr>fki_coord = coord, fki_action = action, fki_idle_duration = t\<rparr>)))))"

definition parse_on_press :: "parser_state \<Rightarrow> sexpr list \<Rightarrow> kaction cfg_res" where
  "parse_on_press s ac_params =
     (if length ac_params \<noteq> 2 then Inl Rejected
      else
        and_then (parse_vkey_action s (ac_params ! 0)) (\<lambda>action.
        and_then (parse_vkey_coord s (ac_params ! 1)) (\<lambda>coord. custom (FakeKeyOnPress coord action))))"

definition parse_on_release :: "parser_state \<Rightarrow> sexpr list \<Rightarrow> kaction cfg_res" where
  "parse_on_release s ac_params =
     (if length ac_params \<noteq> 2 then Inl Rejected
      else
        and_then (parse_vkey_action s (ac_params ! 0)) (\<lambda>action.
        and_then (parse_vkey_coord s (ac_params ! 1)) (\<lambda>coord. custom (FakeKeyOnRelease coord action))))"

definition parse_idle_params :: "parser_state \<Rightarrow> sexpr list \<Rightarrow> fake_key_on_idle cfg_res" where
  "parse_idle_params s ac_params =
     (if length ac_params \<noteq> 3 then Inl Rejected
      else
        and_then (non_zero_u16_of s (ac_params ! 0)) (\<lambda>t.
        and_then (parse_vkey_action s (ac_params ! 1)) (\<lambda>action.
        and_then (parse_vkey_coord s (ac_params ! 2)) (\<lambda>coord.
          Inr \<lparr>fki_coord = coord, fki_action = action, fki_idle_duration = t\<rparr>))))"

definition parse_on_idle :: "parser_state \<Rightarrow> sexpr list \<Rightarrow> kaction cfg_res" where
  "parse_on_idle s ac_params = and_then (parse_idle_params s ac_params) (\<lambda>i. custom (FakeKeyOnIdle i))"

definition parse_on_physical_idle :: "parser_state \<Rightarrow> sexpr list \<Rightarrow> kaction cfg_res" where
  "parse_on_physical_idle s ac_params =
     and_then (parse_idle_params s ac_params) (\<lambda>i. custom (FakeKeyOnPhysicalIdle i))"

definition parse_hold_for_duration :: "parser_state \<Rightarrow> sexpr list \<Rightarrow> kaction cfg_res" where
  "parse_hold_for_duration s ac_params =
     (if length ac_params \<noteq> 2 then Inl Rejected
      else
        and_then (non_zero_u16_of s (ac_params ! 0)) (\<lambda>t.
        and_then (parse_vkey_coord s (ac_params ! 1)) (\<lambda>coord.
          custom (FakeKeyHoldForDuration \<lparr>fkh_coord = coord, fkh_hold_duration = t\<rparr>))))"

text \<open>The number of parameters of a delay is not checked: without one the index panics.\<close>

definition parse_delay :: "(u16 \<Rightarrow> custom_action) \<Rightarrow> parser_state \<Rightarrow> sexpr list \<Rightarrow> kaction cfg_res" where
  "parse_delay delay s ac_params =
     (case ac_params of
        [] \<Rightarrow> Inl ParserPanic
      | e # _ \<Rightarrow> and_then (u16_of s e) (\<lambda>t. custom (delay t)))"

definition parse_fake_key_delay :: "parser_state \<Rightarrow> sexpr list \<Rightarrow> kaction cfg_res" where
  "parse_fake_key_delay = parse_delay DelayOnPress"

definition parse_on_release_fake_key_delay :: "parser_state \<Rightarrow> sexpr list \<Rightarrow> kaction cfg_res" where
  "parse_on_release_fake_key_delay = parse_delay DelayOnRelease"

section \<open>Mouse\<close>

definition parse_distance :: "parser_state \<Rightarrow> sexpr \<Rightarrow> u16 cfg_res" where
  "parse_distance s e =
     and_then (u16_of s e) (\<lambda>d. if 1 \<le> d \<and> d \<le> 30000 then Inr d else Inl Rejected)"

definition parse_mwheel :: "wheel_direction \<Rightarrow> parser_state \<Rightarrow> sexpr list \<Rightarrow> kaction cfg_res" where
  "parse_mwheel direction s ac_params =
     (if length ac_params \<noteq> 2 then Inl Rejected
      else
        and_then (non_zero_u16_of s (ac_params ! 0)) (\<lambda>interval.
        and_then (parse_distance s (ac_params ! 1)) (\<lambda>distance.
          custom (MWheel direction interval distance None))))"

text \<open>The bounds are the bits of 1, 12000, 1000, 0 and 0.99.\<close>

definition parse_mwheel_accel :: "wheel_direction \<Rightarrow> parser_state \<Rightarrow> sexpr list \<Rightarrow> kaction cfg_res" where
  "parse_mwheel_accel direction s ac_params =
     (if length ac_params \<noteq> 4 then Inl Rejected
      else
        and_then (parse_f32 s (ac_params ! 0) 0x3F800000 0x463B8000) (\<lambda>initial.
        and_then (parse_f32 s (ac_params ! 1) 0x3F800000 0x463B8000) (\<lambda>maximum.
        and_then (parse_f32 s (ac_params ! 2) 0x3F800000 0x447A0000) (\<lambda>accel.
        and_then (parse_f32 s (ac_params ! 3) 0 0x3F7D70A4) (\<lambda>decel.
          custom (MWheel direction 16 1 (Some
            \<lparr>mwi_initial_velocity = initial, mwi_maximum_velocity = maximum,
             mwi_acceleration_multiplier = accel, mwi_deceleration_multiplier = decel\<rparr>)))))))"

definition parse_move_mouse :: "move_direction \<Rightarrow> parser_state \<Rightarrow> sexpr list \<Rightarrow> kaction cfg_res" where
  "parse_move_mouse direction s ac_params =
     (if length ac_params \<noteq> 2 then Inl Rejected
      else
        and_then (non_zero_u16_of s (ac_params ! 0)) (\<lambda>interval.
        and_then (parse_distance s (ac_params ! 1)) (\<lambda>distance.
          custom (MoveMouse direction interval distance))))"

definition parse_move_mouse_accel :: "move_direction \<Rightarrow> parser_state \<Rightarrow> sexpr list \<Rightarrow> kaction cfg_res" where
  "parse_move_mouse_accel direction s ac_params =
     (if length ac_params \<noteq> 4 then Inl Rejected
      else
        and_then (non_zero_u16_of s (ac_params ! 0)) (\<lambda>interval.
        and_then (non_zero_u16_of s (ac_params ! 1)) (\<lambda>accel_time.
        and_then (parse_distance s (ac_params ! 2)) (\<lambda>min_distance.
        and_then (parse_distance s (ac_params ! 3)) (\<lambda>max_distance.
          if max_distance < min_distance then Inl Rejected
          else custom (MoveMouseAccel direction interval accel_time min_distance max_distance))))))"

definition parse_move_mouse_speed :: "parser_state \<Rightarrow> sexpr list \<Rightarrow> kaction cfg_res" where
  "parse_move_mouse_speed s ac_params =
     (if length ac_params \<noteq> 1 then Inl Rejected
      else and_then (non_zero_u16_of s (ac_params ! 0)) (\<lambda>speed. custom (MoveMouseSpeed speed)))"

definition parse_set_mouse :: "parser_state \<Rightarrow> sexpr list \<Rightarrow> kaction cfg_res" where
  "parse_set_mouse s ac_params =
     (if length ac_params \<noteq> 2 then Inl Rejected
      else
        and_then (u16_of s (ac_params ! 0)) (\<lambda>x.
        and_then (u16_of s (ac_params ! 1)) (\<lambda>y. custom (SetMouse x y))))"

section \<open>Clipboard, live reload, and other data\<close>

definition one_u16 ::
  "(parser_state \<Rightarrow> sexpr \<Rightarrow> u16 cfg_res) \<Rightarrow> (u16 \<Rightarrow> custom_action) \<Rightarrow> parser_state \<Rightarrow> sexpr list \<Rightarrow> kaction cfg_res"
where
  "one_u16 number f s ac_params =
     (if length ac_params \<noteq> 1 then Inl Rejected
      else and_then (number s (ac_params ! 0)) (\<lambda>k. custom (f k)))"

definition parse_sequence_noerase :: "parser_state \<Rightarrow> sexpr list \<Rightarrow> kaction cfg_res" where
  "parse_sequence_noerase = one_u16 (\<lambda>s. non_zero_u16_of s) SequenceNoerase"

definition parse_dynamic_macro_record :: "parser_state \<Rightarrow> sexpr list \<Rightarrow> kaction cfg_res" where
  "parse_dynamic_macro_record = one_u16 (\<lambda>s. u16_of s) DynamicMacroRecord"

definition parse_dynamic_macro_play :: "parser_state \<Rightarrow> sexpr list \<Rightarrow> kaction cfg_res" where
  "parse_dynamic_macro_play = one_u16 (\<lambda>s. u16_of s) DynamicMacroPlay"

definition parse_arbitrary_code :: "parser_state \<Rightarrow> sexpr list \<Rightarrow> kaction cfg_res" where
  "parse_arbitrary_code = one_u16 (\<lambda>s. u16_of s) SendArbitraryCode"

definition parse_live_reload_num :: "parser_state \<Rightarrow> sexpr list \<Rightarrow> kaction cfg_res" where
  "parse_live_reload_num = one_u16 (\<lambda>s. non_zero_u16_of s) (\<lambda>num. LiveReloadNum (num - 1))"

definition parse_clipboard_save :: "parser_state \<Rightarrow> sexpr list \<Rightarrow> kaction cfg_res" where
  "parse_clipboard_save = one_u16 (\<lambda>s. u16_of s) ClipboardSave"

definition parse_clipboard_restore :: "parser_state \<Rightarrow> sexpr list \<Rightarrow> kaction cfg_res" where
  "parse_clipboard_restore = one_u16 (\<lambda>s. u16_of s) ClipboardRestore"

definition one_string :: "(string \<Rightarrow> custom_action) \<Rightarrow> sexpr list \<Rightarrow> kaction cfg_res" where
  "one_string f ac_params =
     (if length ac_params \<noteq> 1 then Inl Rejected
      else and_then (or_reject (plain_atom (ac_params ! 0))) (\<lambda>t. custom (f (trim_atom_quotes t))))"

definition parse_live_reload_file :: "sexpr list \<Rightarrow> kaction cfg_res" where
  "parse_live_reload_file = one_string LiveReloadFile"

definition parse_clipboard_set :: "sexpr list \<Rightarrow> kaction cfg_res" where
  "parse_clipboard_set = one_string ClipboardSet"

definition parse_clipboard_save_swap :: "parser_state \<Rightarrow> sexpr list \<Rightarrow> kaction cfg_res" where
  "parse_clipboard_save_swap s ac_params =
     (if length ac_params \<noteq> 2 then Inl Rejected
      else
        and_then (u16_of s (ac_params ! 0)) (\<lambda>id1.
        and_then (u16_of s (ac_params ! 1)) (\<lambda>id2. custom (ClipboardSaveSwap id1 id2))))"

definition parse_clipboard_save_set :: "parser_state \<Rightarrow> sexpr list \<Rightarrow> kaction cfg_res" where
  "parse_clipboard_save_set s ac_params =
     (if length ac_params \<noteq> 2 then Inl Rejected
      else
        and_then (u16_of s (ac_params ! 0)) (\<lambda>i.
        and_then (need_atom (ps_vars s) (ac_params ! 1)) (\<lambda>content. custom (ClipboardSaveSet i content))))"

definition sequence_modes :: "(string \<times> sequence_input_mode) list" where
  "sequence_modes =
     [(''visible-backspaced'', VisibleBackspaced), (''hidden-suppressed'', HiddenSuppressed),
      (''hidden-delay-type'', HiddenDelayType)]"

definition parse_sequence_start :: "parser_state \<Rightarrow> sexpr list \<Rightarrow> kaction cfg_res" where
  "parse_sequence_start s ac_params =
     (if length ac_params \<noteq> 1 \<and> length ac_params \<noteq> 2 then Inl Rejected
      else
        and_then (non_zero_u16_of s (ac_params ! 0)) (\<lambda>timeout.
        and_then
          (if 1 < length ac_params then atom_is s (ac_params ! 1) sequence_modes
           else Inr (ps_default_sequence_input_mode s))
          (\<lambda>mode. custom (SequenceLeader timeout mode))))"

section \<open>Commands and messages\<close>

text \<open>Lists may lead back to themselves through variables; \<open>n\<close> bounds the nesting.\<close>

fun collect_strings :: "nat \<Rightarrow> cfg_vars \<Rightarrow> sexpr list \<Rightarrow> string list cfg_res" where
  "collect_strings 0 vs params = Inl NeverReturns"
| "collect_strings (Suc n) vs params =
     and_then
       (map_res (\<lambda>e.
          and_then (atom_of vs e) (\<lambda>a.
            case a of
              Some a \<Rightarrow> Inr [trim_atom_quotes a]
            | None \<Rightarrow>
                and_then (list_of vs e) (\<lambda>l.
                  case l of Some l \<Rightarrow> collect_strings n vs l | None \<Rightarrow> Inl ParserPanic))) params)
       (\<lambda>xs. Inr (concat xs))"

fun to_simple_expr :: "nat \<Rightarrow> cfg_vars \<Rightarrow> sexpr list \<Rightarrow> simple_sexpr list cfg_res" where
  "to_simple_expr 0 vs params = Inl NeverReturns"
| "to_simple_expr (Suc n) vs params =
     map_res (\<lambda>e.
       and_then (atom_of vs e) (\<lambda>a.
         case a of
           Some a \<Rightarrow> Inr (SimpleAtom (trim_atom_quotes a))
         | None \<Rightarrow>
             and_then (list_of vs e) (\<lambda>l.
               case l of
                 Some l \<Rightarrow> and_then (to_simple_expr n vs l) (\<lambda>v. Inr (SimpleList v))
               | None \<Rightarrow> Inl ParserPanic))) params"

definition parse_push_message :: "nat \<Rightarrow> parser_state \<Rightarrow> sexpr list \<Rightarrow> kaction cfg_res" where
  "parse_push_message n s ac_params =
     (if ac_params = [] then Inl Rejected
      else and_then (to_simple_expr n (ps_vars s) ac_params) (\<lambda>m. custom (PushMessage m)))"

definition log_levels :: "(string \<times> log_level) list" where
  "log_levels =
     [(''debug'', LogDebug), (''info'', LogInfo), (''warn'', LogWarn), (''error'', LogError), (''none'', LogNone)]"

definition some_strings :: "nat \<Rightarrow> parser_state \<Rightarrow> sexpr list \<Rightarrow> string list cfg_res" where
  "some_strings n s params =
     and_then (collect_strings n (ps_vars s) params) (\<lambda>cmd. if cmd = [] then Inl Rejected else Inr cmd)"

definition parse_cmd_log :: "nat \<Rightarrow> parser_state \<Rightarrow> sexpr list \<Rightarrow> kaction cfg_res" where
  "parse_cmd_log n s ac_params =
     (if \<not> ps_is_cmd_enabled s then Inl Rejected
      else if length ac_params < 3 then Inl Rejected
      else
        and_then (atom_is s (ac_params ! 0) log_levels) (\<lambda>log_level.
        and_then (atom_is s (ac_params ! 1) log_levels) (\<lambda>error_log_level.
        and_then (some_strings n s (drop 2 ac_params)) (\<lambda>cmd. custom (CmdLog log_level error_log_level cmd)))))"

datatype cmd_type = CmdStandard | CmdTypeOutputKeys | CmdTypeClipboardSet | CmdTypeClipboardSaveSet

definition parse_cmd :: "cmd_type \<Rightarrow> nat \<Rightarrow> parser_state \<Rightarrow> sexpr list \<Rightarrow> kaction cfg_res" where
  "parse_cmd ty n s ac_params =
     (if \<not> ps_cmd_feature s \<or> \<not> ps_is_cmd_enabled s then Inl Rejected
      else
        case ty of
          CmdTypeClipboardSaveSet \<Rightarrow>
            if length ac_params < 2 then Inl Rejected
            else
              and_then (u16_of s (ac_params ! 0)) (\<lambda>save_id.
              and_then (some_strings n s (tl ac_params)) (\<lambda>cmd. custom (ClipboardSaveCmdSet save_id cmd)))
        | CmdStandard \<Rightarrow> and_then (some_strings n s ac_params) (\<lambda>cmd. custom (Cmd cmd))
        | CmdTypeOutputKeys \<Rightarrow> and_then (some_strings n s ac_params) (\<lambda>cmd. custom (CmdOutputKeys cmd))
        | CmdTypeClipboardSet \<Rightarrow> and_then (some_strings n s ac_params) (\<lambda>cmd. custom (ClipboardCmdSet cmd)))"

section \<open>Caps-word, unmod, unicode\<close>

definition DEFAULT_CAPITALIZED :: "keycode list" where
  "DEFAULT_CAPITALIZED =
     [30, 48, 46, 32, 18, 33, 34, 35, 23, 36, 37, 38, 50, 49, 24, 25, 16, 19, 31, 20, 22, 47, 17, 45, 21, 44, 12]"

definition DEFAULT_NONTERMINAL :: "keycode list" where
  "DEFAULT_NONTERMINAL =
     [11, 2, 3, 4, 5, 6, 7, 8, 9, 10, 82, 79, 80, 81, 75, 76, 77, 71, 72, 73, 14, 111, 103, 108, 105, 106]"

definition parse_caps_word :: "caps_word_repress \<Rightarrow> parser_state \<Rightarrow> sexpr list \<Rightarrow> kaction cfg_res" where
  "parse_caps_word repress s ac_params =
     (if length ac_params \<noteq> 1 then Inl Rejected
      else
        and_then (non_zero_u16_of s (ac_params ! 0)) (\<lambda>timeout.
          custom (CapsWord
            \<lparr>cwc_keys_to_capitalize = DEFAULT_CAPITALIZED, cwc_keys_nonterminal = DEFAULT_NONTERMINAL,
             cwc_timeout = timeout, cwc_repress_behaviour = repress\<rparr>)))"

definition parse_caps_word_custom :: "caps_word_repress \<Rightarrow> parser_state \<Rightarrow> sexpr list \<Rightarrow> kaction cfg_res" where
  "parse_caps_word_custom repress s ac_params =
     (if length ac_params \<noteq> 3 then Inl Rejected
      else
        and_then (non_zero_u16_of s (ac_params ! 0)) (\<lambda>timeout.
        and_then (key_list_of s (ac_params ! 1)) (\<lambda>capitalized.
        and_then (key_list_of s (ac_params ! 2)) (\<lambda>nonterminal.
          custom (CapsWord
            \<lparr>cwc_keys_to_capitalize = capitalized, cwc_keys_nonterminal = nonterminal,
             cwc_timeout = timeout, cwc_repress_behaviour = repress\<rparr>)))))"

definition unmod_flags :: "(u16 \<times> u8) list" where
  "unmod_flags =
     [(LShift, 0x01), (RShift, 0x02), (LAlt, 0x04), (RAlt, 0x08), (LCtrl, 0x10), (RCtrl, 0x20), (LGui, 0x40),
      (RGui, 0x80)]"

fun parse_unmod_mods :: "parser_state \<Rightarrow> sexpr list \<Rightarrow> u8 \<Rightarrow> u8 cfg_res" where
  "parse_unmod_mods s [] mods = Inr mods"
| "parse_unmod_mods s (e # es) mods =
     and_then (key_of s e) (\<lambda>osc.
     and_then (or_reject (map_of unmod_flags osc)) (\<lambda>flag.
       if mods AND flag \<noteq> 0 then Inl Rejected else parse_unmod_mods s es (mods OR flag)))"

text \<open>\<open>unmod\<close> tells the action from \<open>unshift\<close>.\<close>

definition parse_unmod :: "bool \<Rightarrow> parser_state \<Rightarrow> sexpr list \<Rightarrow> kaction cfg_res" where
  "parse_unmod unmod s ac_params =
     (case ac_params of
        [] \<Rightarrow> Inl Rejected
      | e # es \<Rightarrow>
          and_then (list_of (ps_vars s) e) (\<lambda>l.
          and_then
            (case l of
               Some mod_list \<Rightarrow>
                 if \<not> unmod then Inl Rejected
                 else
                   and_then (parse_unmod_mods s mod_list 0) (\<lambda>mods.
                     if mods = 0 then Inl Rejected else if es = [] then Inl Rejected else Inr (mods, es))
             | None \<Rightarrow> Inr (0xFF, ac_params))
            (\<lambda>(mods, params).
          and_then (map_res (key_of s) params) (\<lambda>keys.
            custom (if unmod then Unmodded keys mods else Unshifted keys)))))"

definition parse_unicode :: "parser_state \<Rightarrow> sexpr list \<Rightarrow> kaction cfg_res" where
  "parse_unicode s ac_params =
     (if length ac_params \<noteq> 1 then Inl Rejected
      else
        and_then (need_atom (ps_vars s) (ac_params ! 0)) (\<lambda>a.
          case chars (trim_atom_quotes a) of
            [] \<Rightarrow> Inl Rejected
          | [c] \<Rightarrow> custom (Unicode c)
          | _ \<Rightarrow>
              and_then (or_reject (strip_prefix ''U+'' (ps_to_uppercase s (trim_atom_quotes a)))) (\<lambda>hexnum.
              and_then (or_reject (parse_hex hexnum)) (\<lambda>v.
              and_then (or_reject (char_from_u32 v)) (\<lambda>c. custom (Unicode c))))))"

end
