(* ===== verification/SwitchParser.thy ===== *)
theory SwitchParser
  imports CustomParsers SwitchSem
begin

text \<open>
  The parser of \<open>switch\<close> (\<open>parser/src/cfg/switch.rs\<close>): the conditions are compiled to opcodes while they are
  read. Theory \<open>SwitchSem\<close> has the compilation of a condition that is already a tree; here is the
  reading of the tree. A command is run by the parameter \<open>ps_exit_code\<close>, which gives its exit code.
\<close>

section \<open>Conditions\<close>

type_synonym switch_code = "opcode list \<times> (int \<Rightarrow> bool) list"

definition push_check :: "check \<Rightarrow> switch_code \<Rightarrow> switch_code cfg_res" where
  "push_check c p =
     (case emit_check c of
        Inl _ \<Rightarrow> Inl ParserPanic
      | Inr ws \<Rightarrow> Inr (fst p @ ws, snd p))"

definition input_of :: "parser_state \<Rightarrow> sexpr \<Rightarrow> sexpr \<Rightarrow> kcoord cfg_res" where
  "input_of s ty key =
     and_then (atom_is s ty [(''real'', False), (''fake'', True), (''virtual'', True)]) (\<lambda>virtual.
       if virtual then and_then (parse_vkey_coord s key) (\<lambda>c. Inr (1, snd c))
       else and_then (key_of s key) (\<lambda>k. Inr (0, k)))"

definition recency_of :: "parser_state \<Rightarrow> sexpr \<Rightarrow> u8 cfg_res" where
  "recency_of s e = and_then (parse_u8_with_range (ps_vars s) e 1 8) (\<lambda>r. Inr (r - 1))"

definition layer_number :: "parser_state \<Rightarrow> sexpr \<Rightarrow> u16 cfg_res" where
  "layer_number s e =
     and_then (need_atom (ps_vars s) e) (\<lambda>a.
     and_then (or_reject (ps_layer_idxs s a)) (\<lambda>i. if i < MAX_LAYERS then Inr (of_nat i) else Inl ParserPanic))"

definition device_of :: "parser_state \<Rightarrow> sexpr \<Rightarrow> u8 cfg_res" where
  "device_of s e =
     and_then (need_atom (ps_vars s) e) (\<lambda>a.
     and_then (or_reject (parse_number (2 ^ 8) a)) (\<lambda>n.
       if n = 0 then Inl Rejected
       else
         case ps_input_devices s of
           None \<Rightarrow> Inl Rejected
         | Some devs \<Rightarrow> if of_nat n \<in> set devs then Inr (of_nat n) else Inl Rejected))"

text \<open>\<open>str::parse\<close> for \<open>i32\<close>\<close>

definition parse_i32 :: "string \<Rightarrow> int option" where
  "parse_i32 a =
     (if take 1 a = ''-'' then
        (if drop 1 a \<noteq> [] \<and> list_all is_digit (drop 1 a) \<and> digits_value (drop 1 a) \<le> 2 ^ 31
         then Some (- int (digits_value (drop 1 a))) else None)
      else map_option int (parse_number (2 ^ 31) a))"

definition push_callback :: "int \<Rightarrow> switch_code \<Rightarrow> switch_code cfg_res" where
  "push_callback code p =
     (if 60000 < length (snd p) then Inl Rejected
      else
        case new_callback_index (of_nat (length (snd p))) of
          (a, b) \<Rightarrow> Inr (fst p @ [a, b], snd p @ [\<lambda>latest. latest = code]))"

text \<open>The checks, \<open>op\<close> being the name at the head of the list \<open>l\<close>\<close>

definition parse_check :: "parser_state \<Rightarrow> string \<Rightarrow> sexpr list \<Rightarrow> switch_code \<Rightarrow> switch_code cfg_res" where
  "parse_check s op l p =
     (if op = ''key-history'' then
        if length l \<noteq> 3 then Inl Rejected
        else
          and_then (key_of s (l ! 1)) (\<lambda>k.
          and_then (recency_of s (l ! 2)) (\<lambda>r. push_check (ChkKeyHistory k r) p))
      else if op = ''input'' then
        if length l \<noteq> 3 then Inl Rejected
        else and_then (input_of s (l ! 1) (l ! 2)) (\<lambda>c. push_check (ChkInput c) p)
      else if op = ''input-history'' then
        if length l \<noteq> 4 then Inl Rejected
        else
          and_then (input_of s (l ! 1) (l ! 2)) (\<lambda>c.
          and_then (recency_of s (l ! 3)) (\<lambda>r. push_check (ChkInputHistory c r) p))
      else if op = ''key-timing'' then
        if length l \<noteq> 4 then Inl Rejected
        else
          and_then (recency_of s (l ! 1)) (\<lambda>r.
          and_then (u16_of s (l ! 3)) (\<lambda>t.
          and_then (atom_is s (l ! 2) [(''less-than'', True), (''lt'', True), (''greater-than'', False),
              (''gt'', False)]) (\<lambda>less.
            push_check (if less then ChkTicksLt r t else ChkTicksGt r t) p)))
      else if op = ''layer'' then
        if length l \<noteq> 2 then Inl Rejected
        else and_then (layer_number s (l ! 1)) (\<lambda>i. push_check (ChkLayer i) p)
      else if op = ''base-layer'' then
        if length l \<noteq> 2 then Inl Rejected
        else and_then (layer_number s (l ! 1)) (\<lambda>i. push_check (ChkBaseLayer i) p)
      else if op = ''device-history'' then
        if length l \<noteq> 3 then Inl Rejected
        else
          and_then (device_of s (l ! 1)) (\<lambda>d.
          and_then (recency_of s (l ! 2)) (\<lambda>r. push_check (ChkDevice d r) p))
      else if op = ''cmd-exit'' then
        if \<not> ps_cmd_feature s \<or> \<not> ps_is_cmd_enabled s \<or> length l \<noteq> 2 then Inl Rejected
        else
          and_then (need_atom (ps_vars s) (l ! 1)) (\<lambda>a.
          and_then (or_reject (parse_i32 a)) (\<lambda>code. push_callback code p))
      else Inl Rejected)"

definition bool_ops :: "(string \<times> bool_op) list" where
  "bool_ops = [(''or'', BOr), (''and'', BAnd), (''not'', BNot)]"

definition new_bool_at :: "bool_op \<Rightarrow> nat \<Rightarrow> opcode cfg_res" where
  "new_bool_at op i = (case new_bool op (of_nat i) of Inl _ \<Rightarrow> Inl ParserPanic | Inr w \<Rightarrow> Inr w)"

function parse_switch_case_bool :: "parser_state \<Rightarrow> nat \<Rightarrow> sexpr \<Rightarrow> switch_code \<Rightarrow> switch_code cfg_res"
and parse_switch_case_bools :: "parser_state \<Rightarrow> nat \<Rightarrow> sexpr list \<Rightarrow> switch_code \<Rightarrow> switch_code cfg_res" where
  "parse_switch_case_bool s depth e p =
     (if unat MAX_OPCODE_LEN < length (fst p) then Inl Rejected
      else if MAX_BOOL_EXPR_DEPTH < depth then Inl Rejected
      else
        and_then (atom_of (ps_vars s) e) (\<lambda>a.
          case a of
            Some a \<Rightarrow> and_then (or_reject (ps_osc s a)) (\<lambda>k. push_check (ChkKey k) p)
          | None \<Rightarrow>
              and_then (list_of (ps_vars s) e) (\<lambda>l.
                case l of
                  None \<Rightarrow> Inl ParserPanic
                | Some [] \<Rightarrow> Inl Rejected
                | Some (h # t) \<Rightarrow>
                    and_then (need_atom (ps_vars s) h) (\<lambda>op.
                      case map_of bool_ops op of
                        None \<Rightarrow> parse_check s op (h # t) p
                      | Some bop \<Rightarrow>
                          and_then (new_bool_at bop (length (fst p))) (\<lambda>placeholder.
                          and_then (parse_switch_case_bools s (Suc depth) t (fst p @ [placeholder], snd p)) (\<lambda>p'.
                            if unat MAX_OPCODE_LEN < length (fst p') then Inl Rejected
                            else
                              and_then (new_bool_at bop (length (fst p'))) (\<lambda>w.
                                Inr ((fst p')[length (fst p) := w], snd p'))))))))"
| "parse_switch_case_bools s depth [] p = Inr p"
| "parse_switch_case_bools s depth (e # es) p =
     and_then (parse_switch_case_bool s depth e p) (\<lambda>p'. parse_switch_case_bools s depth es p')"
  by pat_completeness auto
termination
  by (relation "measures [\<lambda>x. case x of Inl (s, d, e, p) \<Rightarrow> 9 - d | Inr (s, d, es, p) \<Rightarrow> 9 - d,
       \<lambda>x. case x of Inl _ \<Rightarrow> 0 | Inr (s, d, es, p) \<Rightarrow> Suc (length es)]")
     (auto simp: MAX_BOOL_EXPR_DEPTH_def)

section \<open>Cases\<close>

text \<open>\<open>parse_list_with_first_atom\<close> of \<open>parser/src/cfg/mod.rs\<close>\<close>

definition parse_list_with_first_atom :: "parser_state \<Rightarrow> sexpr \<Rightarrow> (string \<times> sexpr list) option cfg_res" where
  "parse_list_with_first_atom s e =
     and_then (list_of (ps_vars s) e) (\<lambda>l.
       case l of
         Some (h # t) \<Rightarrow> and_then (atom_of (ps_vars s) h) (\<lambda>a. Inr (map_option (\<lambda>a. (a, t)) a))
       | _ \<Rightarrow> Inr None)"

definition parse_optional_arguments ::
  "nat \<Rightarrow> parser_state \<Rightarrow> sexpr list \<Rightarrow> ((int \<Rightarrow> int) option \<times> sexpr list) cfg_res" where
  "parse_optional_arguments n s params =
     (case params of
        [] \<Rightarrow> Inr (None, params)
      | e # es \<Rightarrow>
          and_then (parse_list_with_first_atom s e) (\<lambda>r.
            case r of
              None \<Rightarrow> Inr (None, params)
            | Some (a, args) \<Rightarrow>
                if a = ''init-cmd'' then
                  if \<not> ps_cmd_feature s \<or> \<not> ps_is_cmd_enabled s then Inl Rejected
                  else
                    and_then (some_strings n s args) (\<lambda>cmd. Inr (Some (\<lambda>_. ps_exit_code s cmd), es))
                else Inr (None, params)))"

fun parse_switch_cases ::
  "(parser_state \<Rightarrow> sexpr \<Rightarrow> kaction cfg_res) \<Rightarrow> parser_state \<Rightarrow> sexpr list \<Rightarrow> (int \<Rightarrow> bool) list
     \<Rightarrow> ((opcode list \<times> kaction \<times> break_or_fallthrough) list \<times> (int \<Rightarrow> bool) list) cfg_res" where
  "parse_switch_cases pa s [] callbacks = Inr ([], callbacks)"
| "parse_switch_cases pa s [_] callbacks = Inl Rejected"
| "parse_switch_cases pa s [_, _] callbacks = Inl Rejected"
| "parse_switch_cases pa s (key_match # action # break_or_fallthrough # params) callbacks =
     and_then (need_list (ps_vars s) key_match) (\<lambda>key_match.
     and_then (parse_switch_case_bools s 1 key_match ([], callbacks)) (\<lambda>(ops, callbacks').
     and_then (pa s action) (\<lambda>ac.
     and_then (atom_is s break_or_fallthrough [(''break'', Break), (''fallthrough'', Fallthrough)]) (\<lambda>b.
     and_then (parse_switch_cases pa s params callbacks') (\<lambda>(cases, callbacks'').
       Inr ((ops, ac, b) # cases, callbacks''))))))"

definition parse_switch ::
  "(parser_state \<Rightarrow> sexpr \<Rightarrow> kaction cfg_res) \<Rightarrow> nat \<Rightarrow> parser_state \<Rightarrow> sexpr list \<Rightarrow> kaction cfg_res" where
  "parse_switch pa n s ac_params =
     and_then (parse_optional_arguments n s ac_params) (\<lambda>(init_fn, params).
     and_then (parse_switch_cases pa s params []) (\<lambda>(cases, callbacks).
       Inr (Switch (SwitchCfg init_fn cases callbacks))))"

end
