(* ===== verification/ActionParser.thy ===== *)
theory ActionParser
  imports TapHoldParsers CustomParsers SwitchParser
begin

text \<open>
  The parser of actions (\<open>parse_action\<close>, \<open>parse_action_atom\<close> and \<open>parse_action_list\<close> in
  \<open>parser/src/cfg/mod.rs\<close>, with \<open>multi.rs\<close>, \<open>fork.rs\<close>, \<open>releases.rs\<close> and the small parsers of
  \<open>deflayer.rs\<close> and \<open>chord_v1.rs\<close>). Actions nest, through variables without an end; \<open>n\<close> bounds the
  nesting.
\<close>

section \<open>Actions that hold actions\<close>

text \<open>All but the last mouse button become taps; the list is reversed.\<close>

fun tap_earlier_buttons :: "bool \<Rightarrow> kaction list \<Rightarrow> kaction list" where
  "tap_earlier_buttons seen [] = []"
| "tap_earlier_buttons seen (Custom (Mouse b) # acs) =
     Custom (if seen then MouseTap b else Mouse b) # tap_earlier_buttons True acs"
| "tap_earlier_buttons seen (ac # acs) = ac # tap_earlier_buttons seen acs"

definition flatten_multi :: "kaction \<Rightarrow> kaction list" where
  "flatten_multi ac = (case ac of MultipleActions acs \<Rightarrow> acs | _ \<Rightarrow> [ac])"

definition waits :: "'t action \<Rightarrow> bool" where
  "waits ac \<longleftrightarrow>
     (case ac of
        TapDance td \<Rightarrow> td_config td = Lazy
      | HoldTap _ \<Rightarrow> True
      | Chords _ \<Rightarrow> True
      | _ \<Rightarrow> False)"

definition parse_multi ::
  "(parser_state \<Rightarrow> sexpr \<Rightarrow> kaction cfg_res) \<Rightarrow> parser_state \<Rightarrow> sexpr list \<Rightarrow> kaction cfg_res" where
  "parse_multi pa s ac_params =
     (if ac_params = [] then Inl Rejected
      else
        and_then (map_res (pa (s\<lparr>ps_multi_nest := sat_add (ps_multi_nest s) 1\<rparr>)) ac_params) (\<lambda>acs.
          let actions = rev (tap_earlier_buttons False (rev (concat (map flatten_multi acs)))) in
          if 1 < length (filter waits actions) then Inl Rejected else Inr (MultipleActions actions)))"

definition parse_fork ::
  "(parser_state \<Rightarrow> sexpr \<Rightarrow> kaction cfg_res) \<Rightarrow> parser_state \<Rightarrow> sexpr list \<Rightarrow> kaction cfg_res" where
  "parse_fork pa s ac_params =
     (if length ac_params \<noteq> 3 then Inl Rejected
      else
        and_then (pa s (ac_params ! 0)) (\<lambda>left.
        and_then (pa s (ac_params ! 1)) (\<lambda>right.
        and_then (key_list_of s (ac_params ! 2)) (\<lambda>triggers. Inr (Fork (ForkConfig left right triggers))))))"

definition parse_release_key ::
  "(parser_state \<Rightarrow> sexpr \<Rightarrow> kaction cfg_res) \<Rightarrow> parser_state \<Rightarrow> sexpr list \<Rightarrow> kaction cfg_res" where
  "parse_release_key pa s ac_params =
     (if length ac_params \<noteq> 1 then Inl Rejected
      else
        and_then (pa s (ac_params ! 0)) (\<lambda>ac.
          case ac of KeyCode kc \<Rightarrow> Inr (ReleaseState (RsKeyCode kc)) | _ \<Rightarrow> Inl Rejected))"

section \<open>Layers and chords\<close>

definition layer_idx :: "parser_state \<Rightarrow> sexpr list \<Rightarrow> nat cfg_res" where
  "layer_idx s ac_params =
     (if length ac_params \<noteq> 1 then Inl Rejected
      else
        and_then (need_atom (ps_vars s) (ac_params ! 0)) (\<lambda>name. or_reject (ps_layer_idxs s name)))"

definition parse_release_layer :: "parser_state \<Rightarrow> sexpr list \<Rightarrow> kaction cfg_res" where
  "parse_release_layer s ac_params =
     and_then (layer_idx s ac_params) (\<lambda>i. Inr (ReleaseState (RsLayer i)))"

definition parse_layer_base :: "parser_state \<Rightarrow> sexpr list \<Rightarrow> kaction cfg_res" where
  "parse_layer_base s ac_params = and_then (layer_idx s ac_params) (\<lambda>i. Inr (DefaultLayer i))"

definition parse_layer_toggle :: "parser_state \<Rightarrow> sexpr list \<Rightarrow> kaction cfg_res" where
  "parse_layer_toggle s ac_params = and_then (layer_idx s ac_params) (\<lambda>i. Inr (Layer i))"

definition key_position :: "string \<Rightarrow> string list \<Rightarrow> nat option" where
  "key_position k ks = find (\<lambda>i. ks ! i = k) [0 ..< length ks]"

text \<open>A chord action names its group by the number in place of a column.\<close>

definition parse_chord :: "parser_state \<Rightarrow> sexpr list \<Rightarrow> kaction cfg_res" where
  "parse_chord s ac_params =
     (if length ac_params \<noteq> 2 then Inl Rejected
      else
        and_then (need_atom (ps_vars s) (ac_params ! 0)) (\<lambda>name.
        and_then (or_reject (map_of (ps_chord_groups s) name)) (\<lambda>group.
        and_then (need_atom (ps_vars s) (ac_params ! 1)) (\<lambda>key.
        and_then (or_reject (key_position key (cgr_keys group))) (\<lambda>i.
          Inr (Chords (ChordsGroup [((0, cgr_id group), push_bit i 1)] [] (cgr_timeout group))))))))"

section \<open>Atoms\<close>

definition TRANS_NAMES :: "string list" where
  "TRANS_NAMES = [''_'', [CHR 0xE2, CHR 0x80, CHR 0x97], [CHR 0xE2, CHR 0x89, CHR 0x9D]]"

definition atom_actions :: "(string list \<times> kaction) list" where
  "atom_actions =
     [([''XX'', [CHR 0xE2, CHR 0x9C, CHR 0x97], [CHR 0xE2, CHR 0x88, CHR 0x85], [CHR 0xE2, CHR 0x80, CHR 0xA2]],
         NoOp),
      ([''lrld''], Custom LiveReload),
      ([''lrld-next'', ''lrnx''], Custom LiveReloadNext),
      ([''lrld-prev'', ''lrpv''], Custom LiveReloadPrev),
      ([''scnl''], Custom SequenceCancel),
      ([''mlft'', ''mouseleft''], Custom (Mouse BtnLeft)),
      ([''mrgt'', ''mouseright''], Custom (Mouse BtnRight)),
      ([''mmid'', ''mousemid''], Custom (Mouse BtnMid)),
      ([''mfwd'', ''mouseforward''], Custom (Mouse BtnForward)),
      ([''mbck'', ''mousebackward''], Custom (Mouse BtnBackward)),
      ([''mltp'', ''mousetapleft''], Custom (MouseTap BtnLeft)),
      ([''mrtp'', ''mousetapright''], Custom (MouseTap BtnRight)),
      ([''mmtp'', ''mousetapmid''], Custom (MouseTap BtnMid)),
      ([''mftp'', ''mousetapforward''], Custom (MouseTap BtnForward)),
      ([''mbtp'', ''mousetapbackward''], Custom (MouseTap BtnBackward)),
      ([''mwu'', ''mousewheelup''], Custom (MWheelNotch WheelUp)),
      ([''mwd'', ''mousewheeldown''], Custom (MWheelNotch WheelDown)),
      ([''mwl'', ''mousewheelleft''], Custom (MWheelNotch WheelLeft)),
      ([''mwr'', ''mousewheelright''], Custom (MWheelNotch WheelRight)),
      ([''rpt'', ''repeat'', ''rpt-key''], Custom RepeatKey),
      ([''rpt-any''], Repeat),
      ([''dynamic-macro-record-stop''], Custom (DynamicMacroRecordStop 0)),
      ([''use-defsrc''], Src)]"

definition MOUSE_INPUT_NAMES :: "string list" where
  "MOUSE_INPUT_NAMES = [''mvmt'', ''mousemovement'', [CHR 0xF0, CHR 0x9F, CHR 0x96, CHR 0xB0] @ ''mv'']"

definition assoc_names :: "(string list \<times> 'a) list \<Rightarrow> string \<Rightarrow> 'a option" where
  "assoc_names table name = map_option snd (find (\<lambda>p. name \<in> set (fst p)) table)"

text \<open>A chord such as \<open>C-S-v\<close>\<close>

definition parse_output_chord :: "parser_state \<Rightarrow> string \<Rightarrow> kaction cfg_res" where
  "parse_output_chord s ac =
     and_then (parse_mod_prefix ac) (\<lambda>(keys, unparsed).
     and_then (or_reject (ps_osc s unparsed)) (\<lambda>k.
       if KEY_OVERLAP \<in> set (keys @ [k]) then Inl Rejected else Inr (MultipleKeyCodes (keys @ [k]))))"

definition parse_action_atom :: "parser_state \<Rightarrow> string \<Rightarrow> kaction cfg_res" where
  "parse_action_atom s ac =
     (if is_list_action ac then Inl Rejected
      else if ac \<in> set TRANS_NAMES then if ps_trans_forbidden s then Inl Rejected else Inr Trans
      else if ac = ''sldr'' then
        custom (SequenceLeader (ps_default_sequence_timeout s) (ps_default_sequence_input_mode s))
      else if ac = ''reverse-release-order'' then
        if ps_multi_nest s = 0 then Inl Rejected else custom ReverseReleaseOrder
      else if ac \<in> set MOUSE_INPUT_NAMES then Inl Rejected
      else
        case assoc_names atom_actions ac of
          Some action \<Rightarrow> Inr action
        | None \<Rightarrow>
            (case ps_osc s ac of
               Some k \<Rightarrow> Inr (KeyCode k)
             | None \<Rightarrow>
                 (case strip_prefix ''@'' ac of
                    Some alias \<Rightarrow> or_reject (ps_aliases s alias)
                  | None \<Rightarrow>
                      (case strip_prefix SYM ac of
                         Some unisym \<Rightarrow>
                           (case chars unisym of [] \<Rightarrow> Inl Rejected | c # _ \<Rightarrow> custom (Unicode c))
                       | None \<Rightarrow> parse_output_chord s ac))))"

section \<open>Lists\<close>

definition list_actions ::
  "nat \<Rightarrow> (parser_state \<Rightarrow> sexpr \<Rightarrow> kaction cfg_res) \<Rightarrow> parser_state
     \<Rightarrow> (string list \<times> (sexpr list \<Rightarrow> kaction cfg_res)) list" where
  "list_actions n pa s =
     [([LAYER_SWITCH], parse_layer_base s),
      ([LAYER_TOGGLE, LAYER_WHILE_HELD], parse_layer_toggle s),
      ([TAP_HOLD], parse_tap_hold pa HtDefault s),
      ([TAP_HOLD_PRESS, TAP_HOLD_PRESS_A], parse_tap_hold pa HoldOnOtherKeyPress s),
      ([TAP_HOLD_ORDER], parse_tap_hold_order pa s),
      ([TAP_HOLD_RELEASE, TAP_HOLD_RELEASE_A], parse_tap_hold pa PermissiveHold s),
      ([TAP_HOLD_PRESS_TIMEOUT, TAP_HOLD_PRESS_TIMEOUT_A], parse_tap_hold_timeout pa HoldOnOtherKeyPress s),
      ([TAP_HOLD_RELEASE_TIMEOUT, TAP_HOLD_RELEASE_TIMEOUT_A], parse_tap_hold_timeout pa PermissiveHold s),
      ([TAP_HOLD_RELEASE_KEYS_TAP_RELEASE], parse_tap_hold_keys_trigger_tap_release pa s),
      ([TAP_HOLD_KEYS], parse_tap_hold_keys_named_lists pa s),
      ([TAP_HOLD_RELEASE_KEYS, TAP_HOLD_RELEASE_KEYS_A], parse_tap_hold_keys pa custom_tap_hold_release s),
      ([TAP_HOLD_EXCEPT_KEYS, TAP_HOLD_EXCEPT_KEYS_A], parse_tap_hold_keys pa custom_tap_hold_except s),
      ([TAP_HOLD_TAP_KEYS, TAP_HOLD_TAP_KEYS_A], parse_tap_hold_keys pa custom_tap_hold_tap_keys s),
      ([TAP_HOLD_OPPOSITE_HAND], parse_tap_hold_opposite_hand pa s),
      ([TAP_HOLD_OPPOSITE_HAND_RELEASE], parse_tap_hold_opposite_hand_release pa s),
      ([MULTI], parse_multi pa s),
      ([MACRO], parse_macro (pa s) (ps_vars s) n RepeatNo),
      ([MACRO_REPEAT, MACRO_REPEAT_A], parse_macro (pa s) (ps_vars s) n RepeatYes),
      ([MACRO_RELEASE_CANCEL, MACRO_RELEASE_CANCEL_A],
         parse_macro_release_cancel (pa s) (ps_vars s) n RepeatNo),
      ([MACRO_REPEAT_RELEASE_CANCEL, MACRO_REPEAT_RELEASE_CANCEL_A],
         parse_macro_release_cancel (pa s) (ps_vars s) n RepeatYes),
      ([MACRO_CANCEL_ON_NEXT_PRESS], parse_macro_cancel_on_next_press (pa s) (ps_vars s) n RepeatNo),
      ([MACRO_REPEAT_CANCEL_ON_NEXT_PRESS],
         parse_macro_cancel_on_next_press (pa s) (ps_vars s) n RepeatYes),
      ([MACRO_CANCEL_ON_NEXT_PRESS_CANCEL_ON_RELEASE],
         parse_macro_cancel_on_next_press_cancel_on_release (pa s) (ps_vars s) n RepeatNo),
      ([MACRO_REPEAT_CANCEL_ON_NEXT_PRESS_CANCEL_ON_RELEASE],
         parse_macro_cancel_on_next_press_cancel_on_release (pa s) (ps_vars s) n RepeatYes),
      ([UNICODE, SYM], parse_unicode s),
      ([ONE_SHOT, ONE_SHOT_PRESS, ONE_SHOT_PRESS_A], parse_one_shot pa EndOnFirstPress s),
      ([ONE_SHOT_RELEASE, ONE_SHOT_RELEASE_A], parse_one_shot pa EndOnFirstRelease s),
      ([ONE_SHOT_PRESS_PCANCEL, ONE_SHOT_PRESS_PCANCEL_A], parse_one_shot pa EndOnFirstPressOrRepress s),
      ([ONE_SHOT_RELEASE_PCANCEL, ONE_SHOT_RELEASE_PCANCEL_A],
         parse_one_shot pa EndOnFirstReleaseOrRepress s),
      ([ONE_SHOT_PAUSE_PROCESSING], parse_one_shot_pause_processing s),
      ([TAP_DANCE], parse_tap_dance pa Lazy s),
      ([TAP_DANCE_EAGER], parse_tap_dance pa Eager s),
      ([CHORD], parse_chord s),
      ([RELEASE_KEY, RELEASE_KEY_A], parse_release_key pa s),
      ([RELEASE_LAYER, RELEASE_LAYER_A], parse_release_layer s),
      ([ON_PRESS_FAKEKEY, ON_PRESS_FAKEKEY_A], parse_on_press_fake_key_op s),
      ([ON_RELEASE_FAKEKEY, ON_RELEASE_FAKEKEY_A], parse_on_release_fake_key_op s),
      ([ON_PRESS_DELAY, ON_PRESS_FAKEKEY_DELAY, ON_PRESS_FAKEKEY_DELAY_A], parse_fake_key_delay s),
      ([ON_RELEASE_DELAY, ON_RELEASE_FAKEKEY_DELAY, ON_RELEASE_FAKEKEY_DELAY_A],
         parse_on_release_fake_key_delay s),
      ([ON_IDLE_FAKEKEY], parse_on_idle_fakekey s),
      ([ON_PRESS, ON_PRESS_A], parse_on_press s),
      ([ON_RELEASE, ON_RELEASE_A], parse_on_release s),
      ([ON_IDLE], parse_on_idle s),
      ([ON_PHYSICAL_IDLE], parse_on_physical_idle s),
      ([HOLD_FOR_DURATION], parse_hold_for_duration s),
      ([MWHEEL_UP, MWHEEL_UP_A], parse_mwheel WheelUp s),
      ([MWHEEL_DOWN, MWHEEL_DOWN_A], parse_mwheel WheelDown s),
      ([MWHEEL_LEFT, MWHEEL_LEFT_A], parse_mwheel WheelLeft s),
      ([MWHEEL_RIGHT, MWHEEL_RIGHT_A], parse_mwheel WheelRight s),
      ([MWHEEL_ACCEL_UP], parse_mwheel_accel WheelUp s),
      ([MWHEEL_ACCEL_DOWN], parse_mwheel_accel WheelDown s),
      ([MWHEEL_ACCEL_LEFT], parse_mwheel_accel WheelLeft s),
      ([MWHEEL_ACCEL_RIGHT], parse_mwheel_accel WheelRight s),
      ([MOVEMOUSE_UP, MOVEMOUSE_UP_A], parse_move_mouse MoveUp s),
      ([MOVEMOUSE_DOWN, MOVEMOUSE_DOWN_A], parse_move_mouse MoveDown s),
      ([MOVEMOUSE_LEFT, MOVEMOUSE_LEFT_A], parse_move_mouse MoveLeft s),
      ([MOVEMOUSE_RIGHT, MOVEMOUSE_RIGHT_A], parse_move_mouse MoveRight s),
      ([MOVEMOUSE_ACCEL_UP, MOVEMOUSE_ACCEL_UP_A], parse_move_mouse_accel MoveUp s),
      ([MOVEMOUSE_ACCEL_DOWN, MOVEMOUSE_ACCEL_DOWN_A], parse_move_mouse_accel MoveDown s),
      ([MOVEMOUSE_ACCEL_LEFT, MOVEMOUSE_ACCEL_LEFT_A], parse_move_mouse_accel MoveLeft s),
      ([MOVEMOUSE_ACCEL_RIGHT, MOVEMOUSE_ACCEL_RIGHT_A], parse_move_mouse_accel MoveRight s),
      ([MOVEMOUSE_SPEED, MOVEMOUSE_SPEED_A], parse_move_mouse_speed s),
      ([SETMOUSE, SETMOUSE_A], parse_set_mouse s),
      ([DYNAMIC_MACRO_RECORD], parse_dynamic_macro_record s),
      ([DYNAMIC_MACRO_PLAY], parse_dynamic_macro_play s),
      ([ARBITRARY_CODE], parse_arbitrary_code s),
      ([CMD], parse_cmd CmdStandard n s),
      ([CMD_OUTPUT_KEYS], parse_cmd CmdTypeOutputKeys n s),
      ([CMD_LOG], parse_cmd_log n s),
      ([PUSH_MESSAGE], parse_push_message n s),
      ([FORK], parse_fork pa s),
      ([CAPS_WORD, CAPS_WORD_A], parse_caps_word CapsOverwrite s),
      ([CAPS_WORD_CUSTOM, CAPS_WORD_CUSTOM_A], parse_caps_word_custom CapsOverwrite s),
      ([CAPS_WORD_TOGGLE, CAPS_WORD_TOGGLE_A], parse_caps_word CapsToggle s),
      ([CAPS_WORD_CUSTOM_TOGGLE, CAPS_WORD_CUSTOM_TOGGLE_A], parse_caps_word_custom CapsToggle s),
      ([DYNAMIC_MACRO_RECORD_STOP_TRUNCATE], parse_macro_record_stop_truncate (ps_vars s)),
      ([SWITCH], parse_switch pa n s),
      ([SEQUENCE], parse_sequence_start s),
      ([SEQUENCE_NOERASE], parse_sequence_noerase s),
      ([UNMOD], parse_unmod True s),
      ([UNSHIFT, UNSHIFT_A], parse_unmod False s),
      ([LIVE_RELOAD_NUM], parse_live_reload_num s),
      ([LIVE_RELOAD_FILE], parse_live_reload_file),
      ([CLIPBOARD_SET], parse_clipboard_set),
      ([CLIPBOARD_CMD_SET], parse_cmd CmdTypeClipboardSet n s),
      ([CLIPBOARD_SAVE], parse_clipboard_save s),
      ([CLIPBOARD_RESTORE], parse_clipboard_restore s),
      ([CLIPBOARD_SAVE_SET], parse_clipboard_save_set s),
      ([CLIPBOARD_SAVE_CMD_SET], parse_cmd CmdTypeClipboardSaveSet n s),
      ([CLIPBOARD_SAVE_SWAP], parse_clipboard_save_swap s)]"

definition parse_action_list ::
  "nat \<Rightarrow> (parser_state \<Rightarrow> sexpr \<Rightarrow> kaction cfg_res) \<Rightarrow> parser_state \<Rightarrow> sexpr list \<Rightarrow> kaction cfg_res" where
  "parse_action_list n pa s ac =
     (case ac of
        [] \<Rightarrow> Inr NoOp
      | e # params \<Rightarrow>
          and_then (or_reject (plain_atom e)) (\<lambda>ac_type.
            if \<not> is_list_action ac_type then Inl Rejected
            else
              case assoc_names (list_actions n pa s) ac_type of
                Some parser \<Rightarrow> parser params
              | None \<Rightarrow> Inl ParserPanic))"

fun parse_action :: "nat \<Rightarrow> parser_state \<Rightarrow> sexpr \<Rightarrow> kaction cfg_res" where
  "parse_action 0 s e = Inl NeverReturns"
| "parse_action (Suc n) s e =
     and_then (atom_of (ps_vars s) e) (\<lambda>a.
       case a of
         Some ac \<Rightarrow> parse_action_atom s ac
       | None \<Rightarrow>
           and_then (list_of (ps_vars s) e) (\<lambda>l.
             case l of
               Some ac \<Rightarrow> parse_action_list n (parse_action n) s ac
             | None \<Rightarrow> Inl ParserPanic))"

end
