(* ===== verification/LayerParser.thy ===== *)
theory LayerParser
  imports ActionParser
begin

text \<open>
  From the top-level expressions to the layers: chord groups (\<open>chord_v1.rs\<close>), virtual keys
  (\<open>fake_key.rs\<close>), aliases (\<open>mod.rs\<close>), \<open>defsrc\<close> (\<open>defsrc.rs\<close>) and layers (\<open>deflayer.rs\<close>, \<open>layers.rs\<close>), all in
  \<open>parser/src/cfg/\<close>, in the order of \<open>parse_cfg_raw_string\<close>. A layer has the row of keys and the row of
  virtual keys.
\<close>

section \<open>Chord groups\<close>

definition MAX_CHORD_KEYS :: nat where "MAX_CHORD_KEYS = 128"

fun chord_mask :: "parser_state \<Rightarrow> sexpr list \<Rightarrow> string list \<Rightarrow> chord_keys \<Rightarrow> (chord_keys \<times> string list) cfg_res" where
  "chord_mask s [] keys m = Inr (m, keys)"
| "chord_mask s (e # es) keys m =
     and_then (need_atom (ps_vars s) e) (\<lambda>key.
       case key_position key keys of
         Some i \<Rightarrow> chord_mask s es keys (m OR push_bit i 1)
       | None \<Rightarrow>
           if MAX_CHORD_KEYS < length keys + 1 then Inl Rejected
           else chord_mask s es (keys @ [key]) (m OR push_bit (length keys) 1))"

fun parse_chord_pairs :: "parser_state \<Rightarrow> sexpr list \<Rightarrow> chord_group \<Rightarrow> chord_group cfg_res" where
  "parse_chord_pairs s [] g = Inr g"
| "parse_chord_pairs s [_] g = Inl Rejected"
| "parse_chord_pairs s (keys_expr # action # es) g =
     and_then (need_list (ps_vars s) keys_expr) (\<lambda>key_exprs.
     and_then (chord_mask s key_exprs (cgr_keys g) 0) (\<lambda>(m, keys).
       if m \<in> fst ` set (cgr_chords g) then Inl Rejected
       else parse_chord_pairs s es (g\<lparr>cgr_keys := keys, cgr_chords := cgr_chords g @ [(m, action)]\<rparr>)))"

definition parse_chord_group :: "sexpr list \<Rightarrow> parser_state \<Rightarrow> parser_state cfg_res" where
  "parse_chord_group expr s =
     and_then (check_first_expr expr ''defchords'') (\<lambda>es.
       case es of
         [] \<Rightarrow> Inl Rejected
       | [e] \<Rightarrow> Inl Rejected
       | e # e' # es' \<Rightarrow>
           and_then (need_atom (ps_vars s) e) (\<lambda>name.
           and_then (non_zero_u16_of s e') (\<lambda>timeout.
             if 2 ^ 16 \<le> length (ps_chord_groups s) then Inl Rejected
             else
               and_then
                 (parse_chord_pairs s es'
                    \<lparr>cgr_id = of_nat (length (ps_chord_groups s)), cgr_name = name, cgr_keys = [],
                     cgr_coords = [], cgr_chords = [], cgr_timeout = timeout\<rparr>)
                 (\<lambda>g.
                   if name \<in> fst ` set (ps_chord_groups s) then Inl Rejected
                   else Inr (s\<lparr>ps_chord_groups := ps_chord_groups s @ [(name, g)]\<rparr>)))))"

definition parse_chord_groups :: "sexpr list list \<Rightarrow> parser_state \<Rightarrow> parser_state cfg_res" where
  "parse_chord_groups exprs s = fold_res parse_chord_group exprs s"

section \<open>Virtual keys and aliases\<close>

definition KEYS_IN_ROW :: nat where "KEYS_IN_ROW = 767"

fun parse_vkey_pairs :: "nat \<Rightarrow> sexpr list \<Rightarrow> parser_state \<Rightarrow> parser_state cfg_res" where
  "parse_vkey_pairs n [] s = Inr s"
| "parse_vkey_pairs n [e] s = Inl Rejected"
| "parse_vkey_pairs n (e # action # es) s =
     and_then (need_atom (ps_vars s) e) (\<lambda>name.
     and_then (parse_action n s action) (\<lambda>ac.
       if name \<in> fst ` set (ps_virtual_keys s) then Inl Rejected
       else parse_vkey_pairs n es (s\<lparr>ps_virtual_keys := ps_virtual_keys s @ [(name, ac)]\<rparr>)))"

definition parse_vkeys_named :: "string \<Rightarrow> nat \<Rightarrow> sexpr list list \<Rightarrow> parser_state \<Rightarrow> parser_state cfg_res" where
  "parse_vkeys_named name n exprs s =
     and_then
       (fold_res (\<lambda>expr s. and_then (check_first_expr expr name) (\<lambda>es. parse_vkey_pairs n es s)) exprs s)
       (\<lambda>s'. if KEYS_IN_ROW < length (ps_virtual_keys s') then Inl Rejected else Inr s')"

definition parse_fake_keys :: "nat \<Rightarrow> sexpr list list \<Rightarrow> parser_state \<Rightarrow> parser_state cfg_res" where
  "parse_fake_keys = parse_vkeys_named ''deffakekeys''"

definition parse_virtual_keys :: "nat \<Rightarrow> sexpr list list \<Rightarrow> parser_state \<Rightarrow> parser_state cfg_res" where
  "parse_virtual_keys = parse_vkeys_named ''defvirtualkeys''"

fun read_alias_name_action_pairs :: "nat \<Rightarrow> sexpr list \<Rightarrow> parser_state \<Rightarrow> parser_state cfg_res" where
  "read_alias_name_action_pairs n [] s = Inr s"
| "read_alias_name_action_pairs n (e # es) s =
     and_then (or_reject (plain_atom e)) (\<lambda>alias.
       case es of
         [] \<Rightarrow> Inl Rejected
       | action # es' \<Rightarrow>
           and_then (parse_action n s action) (\<lambda>ac.
             if ps_aliases s alias \<noteq> None then Inl Rejected
             else read_alias_name_action_pairs n es' (s\<lparr>ps_aliases := (ps_aliases s)(alias \<mapsto> ac)\<rparr>)))"

definition handle_standard_defalias :: "nat \<Rightarrow> sexpr list \<Rightarrow> parser_state \<Rightarrow> parser_state cfg_res" where
  "handle_standard_defalias n expr s =
     (case check_first_expr expr ''defalias'' of
        Inl _ \<Rightarrow> Inr s
      | Inr es \<Rightarrow> read_alias_name_action_pairs n es s)"

text \<open>The environment is \<open>None\<close> where its variables are not supported.\<close>

type_synonym env_vars = "(string \<times> string) list option"

definition env_condition :: "env_vars \<Rightarrow> parser_state \<Rightarrow> sexpr \<Rightarrow> bool cfg_res" where
  "env_condition env s e =
     and_then (need_list (ps_vars s) e) (\<lambda>envcond.
       if length envcond \<noteq> 2 then Inl Rejected
       else
         and_then (need_atom (ps_vars s) (envcond ! 0)) (\<lambda>name.
         and_then (need_atom (ps_vars s) (envcond ! 1)) (\<lambda>v.
           case env of None \<Rightarrow> Inl Rejected | Some vars \<Rightarrow> Inr ((name, v) \<in> set vars))))"

definition handle_envcond_defalias ::
  "nat \<Rightarrow> env_vars \<Rightarrow> sexpr list \<Rightarrow> parser_state \<Rightarrow> parser_state cfg_res" where
  "handle_envcond_defalias n env expr s =
     (case check_first_expr expr ''defaliasenvcond'' of
        Inl _ \<Rightarrow> Inr s
      | Inr [] \<Rightarrow> Inl Rejected
      | Inr (e # es) \<Rightarrow>
          and_then (env_condition env s e) (\<lambda>b.
            if b then read_alias_name_action_pairs n es s else Inr s))"

definition parse_aliases :: "nat \<Rightarrow> env_vars \<Rightarrow> sexpr list list \<Rightarrow> parser_state \<Rightarrow> parser_state cfg_res" where
  "parse_aliases n env exprs s =
     fold_res (\<lambda>expr s.
       and_then (handle_standard_defalias n expr s) (handle_envcond_defalias n env expr)) exprs s"

section \<open>Layers\<close>

definition put :: "nat \<Rightarrow> 'a \<Rightarrow> 'a list \<Rightarrow> 'a list cfg_res" where
  "put i x xs = (if i < length xs then Inr (xs[i := x]) else Inl ParserPanic)"

definition DEFAULT_ACTION :: kaction where "DEFAULT_ACTION = KeyCode 0"

definition is_default :: "kaction \<Rightarrow> bool" where
  "is_default ac \<longleftrightarrow> (case ac of KeyCode k \<Rightarrow> k = 0 | _ \<Rightarrow> False)"

datatype layer_exprs = DefsrcMapping "sexpr list" | CustomMapping "sexpr list"

text \<open>What \<open>defcfg\<close> and the build say.\<close>

record layer_options =
  lo_process_unmapped_keys :: bool
  lo_block_unmapped_keys :: bool
  lo_windows :: bool

fun place_actions ::
  "nat \<Rightarrow> parser_state \<Rightarrow> nat list \<Rightarrow> sexpr list \<Rightarrow> kaction list \<Rightarrow> kaction list cfg_res" where
  "place_actions n s order [] row = Inr row"
| "place_actions n s order (e # es) row =
     and_then (parse_action n s e) (\<lambda>ac.
       case order of
         [] \<Rightarrow> Inl ParserPanic
       | i # order' \<Rightarrow> and_then (put i ac row) (place_actions n s order' es))"

record map_state =
  ms_row :: "kaction list"
  ms_mapped :: "u16 list"
  ms_layer_mapped :: "u16 list"
  ms_defsrc_anykey :: bool
  ms_unmapped_anykey :: bool
  ms_both_anykey :: bool

definition fill_at :: "nat list \<Rightarrow> kaction \<Rightarrow> kaction list \<Rightarrow> kaction list cfg_res" where
  "fill_at is ac row =
     fold_res (\<lambda>i row.
       if \<not> i < length row then Inl ParserPanic
       else if is_default (row ! i) then Inr (row[i := ac]) else Inr row) is row"

definition map_input ::
  "parser_state \<Rightarrow> nat list \<Rightarrow> layer_options \<Rightarrow> string option \<Rightarrow> kaction \<Rightarrow> map_state \<Rightarrow> map_state cfg_res" where
  "map_input s order opts input ac st =
     (if input = Some ''_'' then
        if ms_defsrc_anykey st \<or> ms_both_anykey st then Inl Rejected
        else and_then (fill_at order ac (ms_row st)) (\<lambda>row. Inr (st\<lparr>ms_row := row, ms_defsrc_anykey := True\<rparr>))
      else if input = Some ''__'' then
        if ms_unmapped_anykey st \<or> \<not> lo_process_unmapped_keys opts \<or> ms_both_anykey st then Inl Rejected
        else
          and_then (fill_at (filter (\<lambda>i. i \<notin> set order) [0 ..< length (ms_row st)]) ac (ms_row st)) (\<lambda>row.
            Inr (st\<lparr>ms_row := row, ms_unmapped_anykey := True\<rparr>))
      else if input = Some ''___'' then
        if ms_both_anykey st \<or> ms_defsrc_anykey st \<or> ms_unmapped_anykey st \<or> \<not> lo_process_unmapped_keys opts
        then Inl Rejected
        else
          and_then (fill_at [0 ..< length (ms_row st)] ac (ms_row st)) (\<lambda>row.
            Inr (st\<lparr>ms_row := row, ms_both_anykey := True\<rparr>))
      else
        and_then (or_reject (Option.bind input (ps_osc s))) (\<lambda>k.
          if k \<in> set (ms_layer_mapped st) then Inl Rejected
          else
            and_then (put (unat k) ac (ms_row st)) (\<lambda>row.
              Inr (st\<lparr>ms_row := row, ms_mapped := k # ms_mapped st, ms_layer_mapped := k # ms_layer_mapped st\<rparr>))))"

fun map_inputs ::
  "nat \<Rightarrow> parser_state \<Rightarrow> nat list \<Rightarrow> layer_options \<Rightarrow> sexpr list \<Rightarrow> map_state \<Rightarrow> map_state cfg_res" where
  "map_inputs n s order opts [] st = Inr st"
| "map_inputs n s order opts [_] st = Inl Rejected"
| "map_inputs n s order opts (input # action # es) st =
     and_then (parse_action n s action) (\<lambda>ac.
     and_then (atom_of (ps_vars s) input) (\<lambda>a.
     and_then (map_input s order opts a ac st) (map_inputs n s order opts es)))"

text \<open>The actions of the keys, with the keys mapped by the layer.\<close>

definition layer_row ::
  "nat \<Rightarrow> parser_state \<Rightarrow> nat list \<Rightarrow> layer_options \<Rightarrow> layer_exprs \<Rightarrow> u16 list \<Rightarrow> (kaction list \<times> u16 list) cfg_res"
where
  "layer_row n s order opts e mapped =
     (let row = replicate KEYS_IN_ROW DEFAULT_ACTION in
      case e of
        DefsrcMapping layer \<Rightarrow>
          and_then (place_actions n s order (drop 2 layer) row) (\<lambda>row'. Inr (row', mapped))
      | CustomMapping layer \<Rightarrow>
          if length layer < 2 then Inl ParserPanic
          else
            and_then
              (map_inputs n s order opts (drop 2 layer)
                 \<lparr>ms_row = row, ms_mapped = mapped, ms_layer_mapped = [], ms_defsrc_anykey = False,
                  ms_unmapped_anykey = False, ms_both_anykey = False\<rparr>)
              (\<lambda>st. Inr (ms_row st, ms_mapped st)))"

definition is_a_button :: "layer_options \<Rightarrow> u16 \<Rightarrow> bool" where
  "is_a_button opts osc \<longleftrightarrow> 256 \<le> osc \<or> lo_windows opts \<and> 1 \<le> osc \<and> osc \<le> 6"

text \<open>What stands at the keys that the layer does not mention\<close>

definition fill_unmapped :: "layer_options \<Rightarrow> kaction list \<Rightarrow> kaction list" where
  "fill_unmapped opts row =
     map (\<lambda>i.
       if is_default (row ! i)
       then if lo_block_unmapped_keys opts \<and> \<not> is_a_button opts (of_nat i) then NoOp else Trans
       else row ! i) [0 ..< length row]"

definition virtual_row :: "parser_state \<Rightarrow> kaction list cfg_res" where
  "virtual_row s =
     fold_res (\<lambda>y row. put (unat (snd (get_fake_key_coords y))) (snd (ps_virtual_keys s ! y)) row)
       [0 ..< length (ps_virtual_keys s)] (replicate KEYS_IN_ROW DEFAULT_ACTION)"

definition parse_layer ::
  "nat \<Rightarrow> parser_state \<Rightarrow> nat list \<Rightarrow> layer_options \<Rightarrow> layer_exprs \<Rightarrow> u16 list
     \<Rightarrow> (kaction list list \<times> u16 list) cfg_res" where
  "parse_layer n s order opts e mapped =
     and_then (layer_row n s order opts e mapped) (\<lambda>(row, mapped').
     and_then (virtual_row s) (\<lambda>vrow. Inr ([(fill_unmapped opts row)[0 := NoOp], vrow], mapped')))"

fun parse_layers_from ::
  "nat \<Rightarrow> parser_state \<Rightarrow> nat list \<Rightarrow> layer_options \<Rightarrow> layer_exprs list \<Rightarrow> u16 list
     \<Rightarrow> (kaction list list list \<times> u16 list) cfg_res" where
  "parse_layers_from n s order opts [] mapped = Inr ([], mapped)"
| "parse_layers_from n s order opts (e # es) mapped =
     and_then (parse_layer n s order opts e mapped) (\<lambda>(layer, mapped').
     and_then (parse_layers_from n s order opts es mapped') (\<lambda>(layers, mapped'').
       Inr (layer # layers, mapped'')))"

text \<open>\<open>parse_layers\<close>. Its copy of the \<open>defsrc\<close> layer is changed but not used.\<close>

definition parse_layers ::
  "nat \<Rightarrow> parser_state \<Rightarrow> nat list \<Rightarrow> layer_options \<Rightarrow> layer_exprs list \<Rightarrow> u16 list
     \<Rightarrow> (kaction list list list \<times> u16 list) cfg_res" where
  "parse_layers n s order opts exprs mapped =
     (if MAX_LAYERS < length exprs then Inl Rejected else parse_layers_from n s order opts exprs mapped)"

section \<open>Resolving the chords\<close>

fun find_chords_coords :: "kaction \<Rightarrow> (nat \<times> chord_keys) list" where
  "find_chords_coords (Chords (ChordsGroup coords chords timeout)) =
     map (\<lambda>((_, group_id), keys). (unat group_id, keys)) coords"
| "find_chords_coords (HoldTap (HoldTapAction t hold tp timeout_action config i r p)) =
     find_chords_coords tp @ find_chords_coords hold"
| "find_chords_coords (OneShot (OneShotCfg ac t e)) = find_chords_coords ac"
| "find_chords_coords (MultipleActions acs) = concat (map find_chords_coords acs)"
| "find_chords_coords (TapDance (TapDanceCfg acs t c)) = concat (map find_chords_coords acs)"
| "find_chords_coords (Fork (ForkConfig left right triggers)) =
     find_chords_coords left @ find_chords_coords right"
| "find_chords_coords (Switch (SwitchCfg init_fn cases callbacks)) =
     concat (map (\<lambda>(ops, ac, b). find_chords_coords ac) cases)"
| "find_chords_coords _ = []"

definition add_coord ::
  "kcoord \<Rightarrow> nat \<times> chord_keys \<Rightarrow> chord_group list \<Rightarrow> chord_group list cfg_res" where
  "add_coord coord r groups =
     (if fst r < length groups
      then Inr (groups[fst r := (groups ! fst r)\<lparr>cgr_coords := cgr_coords (groups ! fst r) @ [(coord, snd r)]\<rparr>])
      else Inl ParserPanic)"

fun fill_chords :: "custom_action chords_group list \<Rightarrow> kaction \<Rightarrow> kaction option cfg_res" where
  "fill_chords groups (Chords (ChordsGroup coords chords timeout)) =
     (case coords of
        [] \<Rightarrow> Inl ParserPanic
      | ((_, group_id), _) # _ \<Rightarrow>
          if unat group_id < length groups then Inr (Some (Chords (groups ! unat group_id)))
          else Inl ParserPanic)"
| "fill_chords groups (HoldTap (HoldTapAction t hold tp timeout_action config i r p)) =
     and_then (fill_chords groups tp) (\<lambda>new_tap.
     and_then (fill_chords groups hold) (\<lambda>new_hold.
       Inr (if new_tap \<noteq> None \<or> new_hold \<noteq> None
            then Some (HoldTap (HoldTapAction t (unwrap_or new_hold hold) (unwrap_or new_tap tp) timeout_action
                   config i r p))
            else None)))"
| "fill_chords groups (OneShot (OneShotCfg ac t e)) =
     and_then (fill_chords groups ac) (\<lambda>new_ac.
       Inr (map_option (\<lambda>ac. OneShot (OneShotCfg ac t e)) new_ac))"
| "fill_chords groups (MultipleActions acs) =
     and_then (map_res (fill_chords groups) acs) (\<lambda>new_acs.
       Inr (if \<exists>a\<in>set new_acs. a \<noteq> None then Some (MultipleActions (map2 unwrap_or new_acs acs)) else None))"
| "fill_chords groups (TapDance (TapDanceCfg acs t c)) =
     and_then (map_res (fill_chords groups) acs) (\<lambda>new_acs.
       Inr (if \<exists>a\<in>set new_acs. a \<noteq> None then Some (TapDance (TapDanceCfg (map2 unwrap_or new_acs acs) t c))
            else None))"
| "fill_chords groups (Fork (ForkConfig left right triggers)) =
     and_then (fill_chords groups left) (\<lambda>new_left.
     and_then (fill_chords groups right) (\<lambda>new_right.
       Inr (if new_left \<noteq> None \<or> new_right \<noteq> None
            then Some (Fork (ForkConfig (unwrap_or new_left left) (unwrap_or new_right right) triggers))
            else None)))"
| "fill_chords groups (Switch (SwitchCfg init_fn cases callbacks)) =
     and_then (map_res (\<lambda>(ops, ac, b). and_then (fill_chords groups ac) (\<lambda>new_ac.
         Inr (ops, unwrap_or new_ac ac, b))) cases) (\<lambda>new_cases.
       Inr (Some (Switch (SwitchCfg init_fn new_cases callbacks))))"
| "fill_chords groups _ = Inr None"

text \<open>All cells of the layers with their coordinates, in the order of the loops\<close>

definition cells :: "kaction list list list \<Rightarrow> (kcoord \<times> kaction) list" where
  "cells layers =
     concat (map (\<lambda>layer. concat (map (\<lambda>(i, row). map (\<lambda>(j, ac). ((of_nat i, of_nat j), ac)) (enumerate 0 row))
       (enumerate 0 layer))) layers)"

definition collect_coords :: "kaction list list list \<Rightarrow> chord_group list \<Rightarrow> chord_group list cfg_res" where
  "collect_coords layers groups =
     fold_res (\<lambda>(coord, ac) groups. fold_res (add_coord coord) (find_chords_coords ac) groups)
       (cells layers) groups"

definition build_group :: "nat \<Rightarrow> parser_state \<Rightarrow> chord_group \<Rightarrow> custom_action chords_group cfg_res" where
  "build_group n s g =
     (if \<exists>i < length (cgr_keys g). \<forall>c \<in> set (cgr_coords g). \<not> bit (snd c) i then Inl Rejected
      else
        and_then (map_res (\<lambda>(m, e). and_then (parse_action n s e) (\<lambda>ac. Inr (m, ac))) (cgr_chords g)) (\<lambda>chords.
          Inr (ChordsGroup (cgr_coords g) chords (cgr_timeout g))))"

definition fill_cell :: "custom_action chords_group list \<Rightarrow> kaction \<Rightarrow> kaction cfg_res" where
  "fill_cell groups ac = and_then (fill_chords groups ac) (\<lambda>new. Inr (unwrap_or new ac))"

definition resolve_chord_groups ::
  "nat \<Rightarrow> parser_state \<Rightarrow> kaction list list list \<Rightarrow> kaction list list list cfg_res" where
  "resolve_chord_groups n s layers =
     and_then (collect_coords layers (map snd (ps_chord_groups s))) (\<lambda>chord_groups.
     and_then (map_res (build_group n s) chord_groups) (\<lambda>groups.
       map_res (map_res (map_res (fill_cell groups))) layers))"

end
