(* ===== verification/KeyTable.thy ===== *)
theory KeyTable
  imports LayerParser
begin

text \<open>
  The names of the keys on Linux (\<open>str_to_oscode\<close> in \<open>parser/src/keys/mod.rs\<close>, \<open>from_u16_linux\<close> in
  \<open>parser/src/keys/linux.rs\<close>). A key is its number. Names are their UTF-8 bytes. A name is first looked up
  among those of \<open>deflocalkeys\<close> and the defaults they may replace.
\<close>

section \<open>Numbers\<close>

definition from_u16 :: "u16 \<Rightarrow> u16 option" where
  "from_u16 code = (if code \<le> 748 \<or> code = 767 then Some code else None)"

definition is_mouse_code :: "u16 \<Rightarrow> bool" where
  "is_mouse_code osc \<longleftrightarrow> osc \<in> {272, 273, 274, 275, 276, 745, 746, 747, 748}"

section \<open>Names\<close>

definition DEFAULT_MAPPINGS :: "(string \<times> u16) list" where
  "DEFAULT_MAPPINGS =
     [(''+'', 78),
      (''['', 26),
      ('']'', 27),
      (''{'', 26),
      (''}'', 27),
      (''/'', 53),
      ('';'', 39),
      ([CHR 0x60], 41),
      (''='', 13),
      (''-'', 12),
      ([CHR 0x27], 40),
      ('','', 51),
      (''.'', 52),
      ([CHR 0x5C], 43),
      (''yen'', 43),
      ([CHR 0xC2, CHR 0xA5], 124),
      (''right'', 106),
      (''grave'', 41)]"

definition typing_keys :: "(string list \<times> u16) list" where
  "typing_keys =
     [([''Backquote'', ''grv'', [CHR 0xCB, CHR 0x8B], [CHR 0xCB, CHR 0x9C]], 41),
      ([''Digit1'', ''1''], 2),
      ([''Digit2'', ''2''], 3),
      ([''Digit3'', ''3''], 4),
      ([''Digit4'', ''4''], 5),
      ([''Digit5'', ''5''], 6),
      ([''Digit6'', ''6''], 7),
      ([''Digit7'', ''7''], 8),
      ([''Digit8'', ''8''], 9),
      ([''Digit9'', ''9''], 10),
      ([''Digit0'', ''0''], 11),
      ([''Minus'', ''min'', [CHR 0xE2, CHR 0x80, CHR 0x90]], 12),
      ([''Equal'', ''eql'', [CHR 0xE2, CHR 0x82, CHR 0x8C]], 13),
      ([''Backspace'', ''bspc'', ''bks'', [CHR 0xE2, CHR 0x90, CHR 0x88], [CHR 0xE2, CHR 0x8C,
         CHR 0xAB]], 14),
      ([''Tab'', ''tab'', [CHR 0xE2, CHR 0xAD, CHR 0xBE], [CHR 0xE2, CHR 0x86, CHR 0xB9]], 15),
      ([''KeyQ'', ''q''], 16),
      ([''KeyW'', ''w''], 17),
      ([''KeyE'', ''e''], 18),
      ([''KeyR'', ''r''], 19),
      ([''KeyT'', ''t''], 20),
      ([''KeyY'', ''y''], 21),
      ([''KeyU'', ''u''], 22),
      ([''KeyI'', ''i''], 23),
      ([''KeyO'', ''o''], 24),
      ([''KeyP'', ''p''], 25),
      ([''BracketLeft'', ''lbrc'', [CHR 0xE3, CHR 0x80, CHR 0x90], [CHR 0xE3, CHR 0x80, CHR 0x8C],
         [CHR 0xE3, CHR 0x80, CHR 0x94], [CHR 0xE2, CHR 0x8E, CHR 0xA1]], 26),
      ([''BracketRight'', ''rbrc'', [CHR 0xE3, CHR 0x80, CHR 0x91], [CHR 0xE3, CHR 0x80, CHR 0x8D],
         [CHR 0xE3, CHR 0x80, CHR 0x95], [CHR 0xE2, CHR 0x8E, CHR 0xA3]], 27),
      ([''CapsLock'', ''caps'', [CHR 0xE2, CHR 0x87, CHR 0xAA]], 58),
      ([''KeyA'', ''a''], 30),
      ([''KeyS'', ''s''], 31),
      ([''KeyD'', ''d''], 32),
      ([''KeyF'', ''f''], 33),
      ([''KeyG'', ''g''], 34),
      ([''KeyH'', ''h''], 35),
      ([''KeyJ'', ''j''], 36),
      ([''KeyK'', ''k''], 37),
      ([''KeyL'', ''l''], 38),
      ([''Semicolon'', ''scln'', [CHR 0xEF, CHR 0xB8, CHR 0x94]], 39),
      ([''Quote'', ''apo'', ''apos''], 40),
      ([''Enter'', ''ret'', ''return'', ''ent'', ''enter'', [CHR 0xE2, CHR 0x8F, CHR 0x8E], [CHR 0xE2,
         CHR 0x86, CHR 0xA9], [CHR 0xE2, CHR 0x86, CHR 0xB5], [CHR 0xE2, CHR 0x86, CHR 0xB2],
         [CHR 0xE2, CHR 0xA4, CHR 0xB6], [CHR 0xE2, CHR 0x8E, CHR 0x86], [CHR 0xE2, CHR 0x8C,
         CHR 0xA4], [CHR 0xE2, CHR 0x90, CHR 0xA4]], 28),
      ([''ShiftLeft'', ''lshift'', ''lshft'', ''lsft'', ''shft'', ''sft'', [CHR 0xE2, CHR 0x80,
         CHR 0xB9, CHR 0xE2, CHR 0x87, CHR 0xA7]], 42),
      ([''KeyZ'', ''z''], 44),
      ([''KeyX'', ''x''], 45),
      ([''KeyC'', ''c''], 46),
      ([''KeyV'', ''v''], 47),
      ([''KeyB'', ''b''], 48),
      ([''KeyN'', ''n''], 49),
      ([''KeyM'', ''m''], 50),
      ([''Comma'', ''comm'', [CHR 0xE2, CHR 0xB8, CHR 0xB4]], 51),
      ([''Period'', [CHR 0xEF, CHR 0xBC, CHR 0x8E]], 52),
      ([''Slash'', [CHR 0xE2, CHR 0x81, CHR 0x84]], 53),
      ([''Backslash'', ''bksl'', [CHR 0xE2, CHR 0xA7, CHR 0xB5], [CHR 0xEF, CHR 0xBC, CHR 0xBC]], 43)]"

definition keypad_keys :: "(string list \<times> u16) list" where
  "keypad_keys =
     [([''kp='', ''clr''], 355),
      ([''Numpad0'', ''kp0'', [CHR 0xF0, CHR 0x9F, CHR 0x94, CHR 0xA2, CHR 0xE2, CHR 0x82, CHR 0x80]],
         82),
      ([''Numpad1'', ''kp1'', [CHR 0xF0, CHR 0x9F, CHR 0x94, CHR 0xA2, CHR 0xE2, CHR 0x82, CHR 0x81]],
         79),
      ([''Numpad2'', ''kp2'', [CHR 0xF0, CHR 0x9F, CHR 0x94, CHR 0xA2, CHR 0xE2, CHR 0x82, CHR 0x82]],
         80),
      ([''Numpad3'', ''kp3'', [CHR 0xF0, CHR 0x9F, CHR 0x94, CHR 0xA2, CHR 0xE2, CHR 0x82, CHR 0x83]],
         81),
      ([''Numpad4'', ''kp4'', [CHR 0xF0, CHR 0x9F, CHR 0x94, CHR 0xA2, CHR 0xE2, CHR 0x82, CHR 0x84]],
         75),
      ([''Numpad5'', ''kp5'', [CHR 0xF0, CHR 0x9F, CHR 0x94, CHR 0xA2, CHR 0xE2, CHR 0x82, CHR 0x85]],
         76),
      ([''Numpad6'', ''kp6'', [CHR 0xF0, CHR 0x9F, CHR 0x94, CHR 0xA2, CHR 0xE2, CHR 0x82, CHR 0x86]],
         77),
      ([''Numpad7'', ''kp7'', [CHR 0xF0, CHR 0x9F, CHR 0x94, CHR 0xA2, CHR 0xE2, CHR 0x82, CHR 0x87]],
         71),
      ([''Numpad8'', ''kp8'', [CHR 0xF0, CHR 0x9F, CHR 0x94, CHR 0xA2, CHR 0xE2, CHR 0x82, CHR 0x88]],
         72),
      ([''Numpad9'', ''kp9'', [CHR 0xF0, CHR 0x9F, CHR 0x94, CHR 0xA2, CHR 0xE2, CHR 0x82, CHR 0x89]],
         73),
      ([''NumpadEnter'', ''kprt'', [CHR 0xF0, CHR 0x9F, CHR 0x94, CHR 0xA2, CHR 0xE2, CHR 0x8F,
         CHR 0x8E], [CHR 0xF0, CHR 0x9F, CHR 0x94, CHR 0xA2, CHR 0xE2, CHR 0x86, CHR 0xA9],
         [CHR 0xF0, CHR 0x9F, CHR 0x94, CHR 0xA2, CHR 0xE2, CHR 0x86, CHR 0xB5], [CHR 0xF0,
         CHR 0x9F, CHR 0x94, CHR 0xA2, CHR 0xE2, CHR 0x86, CHR 0xB2], [CHR 0xF0, CHR 0x9F,
         CHR 0x94, CHR 0xA2, CHR 0xE2, CHR 0xA4, CHR 0xB6], [CHR 0xF0, CHR 0x9F, CHR 0x94,
         CHR 0xA2, CHR 0xE2, CHR 0x8E, CHR 0x86], [CHR 0xF0, CHR 0x9F, CHR 0x94, CHR 0xA2,
         CHR 0xE2, CHR 0x8C, CHR 0xA4], [CHR 0xF0, CHR 0x9F, CHR 0x94, CHR 0xA2, CHR 0xE2,
         CHR 0x90, CHR 0xA4]], 96),
      ([''NumpadDivide'', ''kp/'', [CHR 0xF0, CHR 0x9F, CHR 0x94, CHR 0xA2, CHR 0xE2, CHR 0x81,
         CHR 0x84]], 98),
      ([''NumpadAdd'', ''kp+'', [CHR 0xF0, CHR 0x9F, CHR 0x94, CHR 0xA2, CHR 0xE2, CHR 0x82,
         CHR 0x8A]], 78),
      ([''NumpadMultiply'', ''kp*'', [CHR 0xF0, CHR 0x9F, CHR 0x94, CHR 0xA2, CHR 0xE2, CHR 0x88,
         CHR 0x97]], 55),
      ([''NumpadEqual'', [CHR 0xF0, CHR 0x9F, CHR 0x94, CHR 0xA2, CHR 0xE2, CHR 0x82, CHR 0x8C]],
         117),
      ([''NumpadSubtract'', ''kp-'', [CHR 0xF0, CHR 0x9F, CHR 0x94, CHR 0xA2, CHR 0xE2, CHR 0x82,
         CHR 0x8B]], 74),
      ([''NumpadDecimal'', ''kp.'', [CHR 0xF0, CHR 0x9F, CHR 0x94, CHR 0xA2, CHR 0xEF, CHR 0xBC,
         CHR 0x8E]], 83),
      ([''NumpadComma'', ''kp,'', [CHR 0xF0, CHR 0x9F, CHR 0x94, CHR 0xA2, CHR 0xE2, CHR 0xB8,
         CHR 0xB4]], 121),
      ([''NumpadLeftParen'', ''leftparen'', ''lpar'', ''kp('', [CHR 0xF0, CHR 0x9F, CHR 0x94,
         CHR 0xA2, CHR 0xE2, CHR 0x82, CHR 0x8D]], 179),
      ([''NumpadRightParen'', ''rightparen'', ''rpar'', ''kp)'', [CHR 0xF0, CHR 0x9F, CHR 0x94,
         CHR 0xA2, CHR 0xE2, CHR 0x82, CHR 0x8E]], 180),
      ([''ssrq'', ''sys''], 99)]"

definition control_keys :: "(string list \<times> u16) list" where
  "control_keys =
     [([''IntlBackslash'', ''102d'', ''lsgt'', ''nubs'', ''nonusbslash'', [CHR 0xEF, CHR 0xB9,
         CHR 0xA8], ''<''], 86),
      ([''ScrollLock'', ''scrlck'', ''slck'', [CHR 0xE2, CHR 0x87, CHR 0xB3, CHR 0xF0, CHR 0x9F,
         CHR 0x94, CHR 0x92]], 70),
      ([''Pause'', ''pause'', ''break'', ''brk''], 119),
      ([''WakeUp'', ''wkup''], 143),
      ([''Escape'', ''esc'', [CHR 0xE2, CHR 0x8E, CHR 0x8B]], 1),
      ([''ShiftRight'', ''RightShift'', ''rshift'', ''rshft'', ''rsft'', [CHR 0xE2, CHR 0x87,
         CHR 0xA7, CHR 0xE2, CHR 0x80, CHR 0xBA]], 54),
      ([''ControlLeft'', ''lctrl'', ''lctl'', ''ctl'', [CHR 0xE2, CHR 0x80, CHR 0xB9, CHR 0xE2,
         CHR 0x8E, CHR 0x88], [CHR 0xE2, CHR 0x80, CHR 0xB9, CHR 0xE2, CHR 0x8C, CHR 0x83]],
         29),
      ([''AltLeft'', ''lalt'', ''alt'', [CHR 0xE2, CHR 0x80, CHR 0xB9, CHR 0xE2, CHR 0x8E, CHR 0x87],
         [CHR 0xE2, CHR 0x80, CHR 0xB9, CHR 0xE2, CHR 0x8C, CHR 0xA5]], 56),
      ([''Space'', ''spc'', [CHR 0xE2, CHR 0x90, CHR 0xA0], [CHR 0xE2, CHR 0x90, CHR 0xA3]], 57),
      ([''AltRight'', ''ralt'', ''altgr'', [CHR 0xE2, CHR 0x8E, CHR 0x87, CHR 0xE2, CHR 0x80,
         CHR 0xBA], [CHR 0xE2, CHR 0x8C, CHR 0xA5, CHR 0xE2, CHR 0x80, CHR 0xBA], [CHR 0xE2,
         CHR 0x87, CHR 0xAE]], 100),
      ([''ContextMenu'', ''comp'', ''cmps'', ''cmp'', ''menu'', ''apps'', [CHR 0xE2, CHR 0x96,
         CHR 0xA4], [CHR 0xE2, CHR 0x98, CHR 0xB0], [CHR 0xF0, CHR 0x9D, CHR 0x8C, CHR 0x86]],
         127),
      ([[CHR 0xF0, CHR 0x9F, CHR 0x8E, CHR 0x9B]], 204),
      ([''MetaLeft'', ''lmeta'', ''lmet'', ''met'', [CHR 0xE2, CHR 0x80, CHR 0xB9, CHR 0xE2, CHR 0x97,
         CHR 0x86], [CHR 0xE2, CHR 0x80, CHR 0xB9, CHR 0xE2, CHR 0x8C, CHR 0x98], [CHR 0xE2,
         CHR 0x80, CHR 0xB9, CHR 0xE2, CHR 0x9D, CHR 0x96], [CHR 0xE2, CHR 0x80, CHR 0xB9,
         CHR 0xE2, CHR 0x8A, CHR 0x9E]], 125),
      ([''MetaRight'', ''rmeta'', ''rmet'', [CHR 0xE2, CHR 0x97, CHR 0x86, CHR 0xE2, CHR 0x80,
         CHR 0xBA], [CHR 0xE2, CHR 0x8C, CHR 0x98, CHR 0xE2, CHR 0x80, CHR 0xBA], [CHR 0xE2,
         CHR 0x9D, CHR 0x96, CHR 0xE2, CHR 0x80, CHR 0xBA], [CHR 0xE2, CHR 0x8A, CHR 0x9E,
         CHR 0xE2, CHR 0x80, CHR 0xBA]], 126),
      ([''ControlRight'', ''rctrl'', ''rctl'', [CHR 0xE2, CHR 0x8E, CHR 0x88, CHR 0xE2, CHR 0x80,
         CHR 0xBA], [CHR 0xE2, CHR 0x8C, CHR 0x83, CHR 0xE2, CHR 0x80, CHR 0xBA]], 97),
      ([''Delete'', ''del'', [CHR 0xE2, CHR 0x90, CHR 0xA1], [CHR 0xE2, CHR 0x8C, CHR 0xA6]], 111),
      ([''Insert'', ''ins'', [CHR 0xE2, CHR 0x8E, CHR 0x80]], 110),
      ([''BrowserBack'', ''bck''], 158),
      ([''BrowserForward'', ''fwd''], 159),
      ([''PageUp'', ''pgup'', [CHR 0xE2, CHR 0x87, CHR 0x9E], [CHR 0xE2, CHR 0x8E, CHR 0x97]], 104),
      ([''PageDown'', ''pgdn'', [CHR 0xE2, CHR 0x87, CHR 0x9F], [CHR 0xE2, CHR 0x8E, CHR 0x98]], 109),
      ([''ArrowUp'', ''up'', [CHR 0xE2, CHR 0x96, CHR 0xB2], [CHR 0xE2, CHR 0x86, CHR 0x91]], 103),
      ([''ArrowDown'', ''down'', [CHR 0xE2, CHR 0x96, CHR 0xBC], [CHR 0xE2, CHR 0x86, CHR 0x93]],
         108),
      ([''ArrowLeft'', ''lft'', ''left'', [CHR 0xE2, CHR 0x97, CHR 0x80], [CHR 0xE2, CHR 0x86,
         CHR 0x90]], 105),
      ([''ArrowRight'', ''rght'', [CHR 0xE2, CHR 0x96, CHR 0xB6], [CHR 0xE2, CHR 0x86, CHR 0x92]],
         106),
      ([''Home'', ''home'', [CHR 0xE2, CHR 0x87, CHR 0xA4], [CHR 0xE2, CHR 0xA4, CHR 0x92], [CHR 0xE2,
         CHR 0x86, CHR 0x96], [CHR 0xE2, CHR 0x87, CHR 0xB1]], 102),
      ([''End'', ''end'', [CHR 0xE2, CHR 0x87, CHR 0xA5], [CHR 0xE2, CHR 0xA4, CHR 0x93], [CHR 0xE2,
         CHR 0x86, CHR 0x98], [CHR 0xE2, CHR 0x87, CHR 0xB2]], 107),
      ([''NumLock'', ''nlck'', ''nlk'', [CHR 0xE2, CHR 0x87, CHR 0xAD]], 69),
      ([''VolumeMute'', ''mute'', [CHR 0xF0, CHR 0x9F, CHR 0x94, CHR 0x87], [CHR 0xF0, CHR 0x9F,
         CHR 0x94, CHR 0x88, CHR 0xE2, CHR 0x93, CHR 0xAA], [CHR 0xF0, CHR 0x9F, CHR 0x94,
         CHR 0x88, CHR 0xE2, CHR 0x93, CHR 0xBF], [CHR 0xF0, CHR 0x9F, CHR 0x94, CHR 0x88,
         CHR 0xE2, CHR 0x82, CHR 0x80]], 113),
      ([''VolumeUp'', ''volu'', [CHR 0xF0, CHR 0x9F, CHR 0x94, CHR 0x8A], [CHR 0xF0, CHR 0x9F,
         CHR 0x94, CHR 0x88] @ ''+'', [CHR 0xF0, CHR 0x9F, CHR 0x94, CHR 0x88, CHR 0xE2,
         CHR 0x9E, CHR 0x95], [CHR 0xF0, CHR 0x9F, CHR 0x94, CHR 0x88, CHR 0xE2, CHR 0x82,
         CHR 0x8A], [CHR 0xF0, CHR 0x9F, CHR 0x94, CHR 0x88, CHR 0xE2, CHR 0x8A, CHR 0x95]],
         115),
      ([''VolumeDown'', ''voldwn'', ''vold'', [CHR 0xF0, CHR 0x9F, CHR 0x94, CHR 0x89], [CHR 0xF0,
         CHR 0x9F, CHR 0x94, CHR 0x88, CHR 0xE2, CHR 0x88, CHR 0x92], [CHR 0xF0, CHR 0x9F,
         CHR 0x94, CHR 0x88, CHR 0xE2, CHR 0x9E, CHR 0x96], [CHR 0xF0, CHR 0x9F, CHR 0x94,
         CHR 0x88, CHR 0xE2, CHR 0x82, CHR 0x8B], [CHR 0xF0, CHR 0x9F, CHR 0x94, CHR 0x88,
         CHR 0xE2, CHR 0x8A, CHR 0x96]], 114),
      ([''EjectCD'', ''eject''], 161),
      ([''brup'', ''bru'', [CHR 0xF0, CHR 0x9F, CHR 0x94, CHR 0x86]], 225),
      ([''brdown'', ''brdwn'', ''brdn'', [CHR 0xF0, CHR 0x9F, CHR 0x94, CHR 0x85]], 224),
      ([''blup'', [CHR 0xE2, CHR 0x8C, CHR 0xA8, CHR 0xF0, CHR 0x9F, CHR 0x92, CHR 0xA1] @ ''+'',
         [CHR 0xE2, CHR 0x8C, CHR 0xA8, CHR 0xF0, CHR 0x9F, CHR 0x92, CHR 0xA1, CHR 0xE2,
         CHR 0x9E, CHR 0x95], [CHR 0xE2, CHR 0x8C, CHR 0xA8, CHR 0xF0, CHR 0x9F, CHR 0x92,
         CHR 0xA1, CHR 0xE2, CHR 0x82, CHR 0x8A], [CHR 0xE2, CHR 0x8C, CHR 0xA8, CHR 0xF0,
         CHR 0x9F, CHR 0x92, CHR 0xA1, CHR 0xE2, CHR 0x8A, CHR 0x95]], 230),
      ([''bldn'', [CHR 0xE2, CHR 0x8C, CHR 0xA8, CHR 0xF0, CHR 0x9F, CHR 0x92, CHR 0xA1, CHR 0xE2,
         CHR 0x88, CHR 0x92], [CHR 0xE2, CHR 0x8C, CHR 0xA8, CHR 0xF0, CHR 0x9F, CHR 0x92,
         CHR 0xA1, CHR 0xE2, CHR 0x9E, CHR 0x96], [CHR 0xE2, CHR 0x8C, CHR 0xA8, CHR 0xF0,
         CHR 0x9F, CHR 0x92, CHR 0xA1, CHR 0xE2, CHR 0x82, CHR 0x8B], [CHR 0xE2, CHR 0x8C,
         CHR 0xA8, CHR 0xF0, CHR 0x9F, CHR 0x92, CHR 0xA1, CHR 0xE2, CHR 0x8A, CHR 0x96]], 229),
      ([''MediaTrackNext'', ''next'', [CHR 0xE2, CHR 0x96, CHR 0xB6, CHR 0xE2, CHR 0x96, CHR 0xB6]],
         163),
      ([''MediaPlayPause'', ''pp'', [CHR 0xE2, CHR 0x96, CHR 0xB6, CHR 0xE2, CHR 0x8F, CHR 0xB8]],
         164),
      ([''MediaTrackPrevious'', ''prev'', [CHR 0xE2, CHR 0x97, CHR 0x80, CHR 0xE2, CHR 0x97,
         CHR 0x80]], 165),
      ([''F1'', ''f1''], 59),
      ([''F2'', ''f2''], 60),
      ([''F3'', ''f3''], 61),
      ([''F4'', ''f4''], 62),
      ([''F5'', ''f5''], 63)]"

definition function_keys :: "(string list \<times> u16) list" where
  "function_keys =
     [([''F6'', ''f6''], 64),
      ([''F7'', ''f7''], 65),
      ([''F8'', ''f8''], 66),
      ([''F9'', ''f9''], 67),
      ([''F10'', ''f10''], 68),
      ([''F11'', ''f11''], 87),
      ([''F12'', ''f12''], 88),
      ([''F13'', ''f13''], 183),
      ([''F14'', ''f14''], 184),
      ([''F15'', ''f15''], 185),
      ([''F16'', ''f16''], 186),
      ([''F17'', ''f17''], 187),
      ([''F18'', ''f18''], 188),
      ([''F19'', ''f19''], 189),
      ([''F20'', ''f20''], 190),
      ([''F21'', ''f21''], 191),
      ([''F22'', ''f22''], 192),
      ([''F23'', ''f23''], 193),
      ([''F24'', ''f24''], 194),
      ([''fn'', [CHR 0xF0, CHR 0x9F, CHR 0x8C, CHR 0x90], [CHR 0xC6, CHR 0x92], [CHR 0xE2, CHR 0x93,
         CHR 0x95], [CHR 0xE2, CHR 0x92, CHR 0xBB], [CHR 0xF0, CHR 0x9F, CHR 0x84, CHR 0xB5],
         [CHR 0xF0, CHR 0x9F, CHR 0x85, CHR 0x95], [CHR 0xF0, CHR 0x9F, CHR 0x85, CHR 0xB5]],
         464),
      ([''kana'', ''katakanahiragana''], 93)]"

definition other_keys :: "(string list \<times> u16) list" where
  "other_keys =
     [([''hiragana''], 91),
      ([''katakana''], 90),
      ([''cnv'', ''conv'', ''henk'', ''hnk'', ''henkan''], 92),
      ([''ncnv'', ''mhnk'', ''muhenkan''], 94),
      ([''IntlRo'', ''ro''], 89),
      ([''PrintScreen'', ''prtsc'', ''prnt'', [CHR 0xE2, CHR 0x8E, CHR 0x99]], 99),
      ([''mlft'', ''mouseleft'', [CHR 0xF0, CHR 0x9F, CHR 0x96, CHR 0xB0] @ ''1'', [CHR 0xE2,
         CHR 0x80, CHR 0xB9, CHR 0xF0, CHR 0x9F, CHR 0x96, CHR 0xB0]], 272),
      ([''mrgt'', ''mouseright'', [CHR 0xF0, CHR 0x9F, CHR 0x96, CHR 0xB0] @ ''2'', [CHR 0xF0,
         CHR 0x9F, CHR 0x96, CHR 0xB0, CHR 0xE2, CHR 0x80, CHR 0xBA]], 273),
      ([''mmid'', ''mousemid'', [CHR 0xF0, CHR 0x9F, CHR 0x96, CHR 0xB0] @ ''3''], 274),
      ([''mbck'', ''mousebackward'', [CHR 0xF0, CHR 0x9F, CHR 0x96, CHR 0xB0] @ ''4''], 275),
      ([''mfwd'', ''mouseforward'', [CHR 0xF0, CHR 0x9F, CHR 0x96, CHR 0xB0] @ ''5''], 276),
      ([''mwu'', ''mousewheelup''], 745),
      ([''mwd'', ''mousewheeldown''], 746),
      ([''mwl'', ''mousewheelleft''], 747),
      ([''mwr'', ''mousewheelright''], 748),
      ([''hmpg'', ''homepage''], 172),
      ([''mdia'', ''media''], 226),
      ([''LaunchMail'', ''mail''], 155),
      ([''email''], 215),
      ([''calc''], 140),
      ([''plyr'', ''player''], 387),
      ([''powr'', ''power''], 116),
      ([''zzz'', ''sleep''], 142),
      ([''sls'', ''SpotLightSearch''], 249),
      ([''dtn'', ''Dictation''], 250),
      ([''dnd'', ''DoNotDisturb''], 251),
      ([''mctl'', ''MissionControl''], 252),
      ([''lpad'', ''LaunchPad''], 253),
      ([''nop0''], 676),
      ([''nop1''], 677),
      ([''nop2''], 678),
      ([''nop3''], 679),
      ([''nop4''], 680),
      ([''nop5''], 681),
      ([''nop6''], 682),
      ([''nop7''], 683),
      ([''nop8''], 684),
      ([''nop9''], 685),
      ([''mvmt'', ''mousemovement'', [CHR 0xF0, CHR 0x9F, CHR 0x96, CHR 0xB0] @ ''mv''], 766)]"

definition KEY_NAMES :: "(string list \<times> u16) list" where
  "KEY_NAMES = typing_keys @ keypad_keys @ control_keys @ function_keys @ other_keys"

text \<open>The table of \<open>replace_custom_str_oscode_mapping\<close>, from the names of \<open>deflocalkeys\<close>\<close>

definition custom_names :: "(string \<times> u16) list \<Rightarrow> (string \<times> u16) list" where
  "custom_names local_keys = local_keys @ DEFAULT_MAPPINGS"

definition str_to_oscode :: "(string \<times> u16) list \<Rightarrow> string \<Rightarrow> u16 option" where
  "str_to_oscode local_keys s =
     (case map_of (custom_names local_keys) s of
        Some osc \<Rightarrow> Some osc
      | None \<Rightarrow> assoc_names KEY_NAMES s)"

end
