(* ===== verification/DefCfg.thy ===== *)
theory DefCfg
  imports KeyTable
begin

text \<open>
  The options of a configuration (\<open>parser/src/cfg/defcfg.rs\<close>) of the Linux build. The options of other
  systems are accepted with any value, except the two that are checked in every build. \<open>osc\<close> is
  \<open>str_to_oscode\<close>.
\<close>

section \<open>Data\<close>

datatype device_detect_mode = DetectKeyboardOnly | DetectKeyboardMice | DetectAny

datatype bus_type = BusUsb | BusI8042 | BusVirtual

datatype unicode_termination = TermEnter | TermSpace | TermSpaceEnter | TermEnterSpace

datatype replay_delay_behaviour = ReplayConstant | ReplayRecorded

record linux_options =
  lx_dev :: "string list"
  lx_dev_names_include :: "string list option"
  lx_dev_names_exclude :: "string list option"
  lx_continue_if_no_devs_found :: bool
  lx_unicode_u_code :: u16
  lx_unicode_termination :: unicode_termination
  lx_x11_repeat_delay_rate :: "(u16 \<times> u16) option"
  lx_use_trackpoint_property :: bool
  lx_output_name :: string
  lx_output_bus_type :: bus_type
  lx_device_detect_mode :: "device_detect_mode option"

definition linux_default :: linux_options where
  "linux_default =
     \<lparr>lx_dev = [], lx_dev_names_include = None, lx_dev_names_exclude = None,
      lx_continue_if_no_devs_found = False, lx_unicode_u_code = 22, lx_unicode_termination = TermEnter,
      lx_x11_repeat_delay_rate = None, lx_use_trackpoint_property = False, lx_output_name = ''kanata'',
      lx_output_bus_type = BusI8042, lx_device_detect_mode = None\<rparr>"

record cfg_options =
  co_process_unmapped_keys :: bool
  co_process_unmapped_keys_exceptions :: "u16 list option"
  co_block_unmapped_keys :: bool
  co_allow_hardware_repeat :: bool
  co_start_alias :: "string option"
  co_enable_cmd :: bool
  co_sequence_timeout :: u16
  co_sequence_input_mode :: sequence_input_mode
  co_sequence_backtrack_modcancel :: bool
  co_sequence_always_on :: bool
  co_log_layer_changes :: bool
  co_delegate_to_first_layer :: bool
  co_movemouse_inherit_accel_state :: bool
  co_movemouse_smooth_diagonals :: bool
  co_override_release_on_activation :: bool
  co_dynamic_macro_max_presses :: u16
  co_replay_delay_behaviour :: replay_delay_behaviour
  co_concurrent_tap_hold :: bool
  co_rapid_event_delay :: u16
  co_trans_resolution_behavior_v2 :: bool
  co_chords_v2_min_idle :: u16
  co_tap_hold_require_prior_idle :: u16
  co_mouse_movement_key :: "u16 option"
  co_linux_opts :: linux_options

definition cfg_default :: cfg_options where
  "cfg_default =
     \<lparr>co_process_unmapped_keys = False, co_process_unmapped_keys_exceptions = None,
      co_block_unmapped_keys = False, co_allow_hardware_repeat = True, co_start_alias = None,
      co_enable_cmd = False, co_sequence_timeout = 1000, co_sequence_input_mode = HiddenSuppressed,
      co_sequence_backtrack_modcancel = True, co_sequence_always_on = False, co_log_layer_changes = True,
      co_delegate_to_first_layer = False, co_movemouse_inherit_accel_state = False,
      co_movemouse_smooth_diagonals = False, co_override_release_on_activation = False,
      co_dynamic_macro_max_presses = 128, co_replay_delay_behaviour = ReplayRecorded,
      co_concurrent_tap_hold = False, co_rapid_event_delay = 5, co_trans_resolution_behavior_v2 = True,
      co_chords_v2_min_idle = 5, co_tap_hold_require_prior_idle = 0, co_mouse_movement_key = None,
      co_linux_opts = linux_default\<rparr>"

section \<open>Values\<close>

definition FALSE_VALUES :: "string list" where "FALSE_VALUES = [''no'', ''false'', ''0'']"
definition TRUE_VALUES :: "string list" where "TRUE_VALUES = [''yes'', ''true'', ''1'']"

definition ascii_lower :: "char \<Rightarrow> char" where
  "ascii_lower c = (let n = of_char c :: nat in if n \<in> {65 .. 90} then char_of (n + 32) else c)"

definition to_ascii_lowercase :: "string \<Rightarrow> string" where
  "to_ascii_lowercase s = map ascii_lower s"

definition parse_defcfg_val_bool :: "sexpr \<Rightarrow> bool cfg_res" where
  "parse_defcfg_val_bool e =
     and_then (or_reject (plain_atom e)) (\<lambda>a.
       let val = to_ascii_lowercase (trim_atom_quotes a) in
       if val \<in> set TRUE_VALUES then Inr True
       else if val \<in> set FALSE_VALUES then Inr False else Inl Rejected)"

definition parse_cfg_val_u16 :: "bool \<Rightarrow> sexpr \<Rightarrow> u16 cfg_res" where
  "parse_cfg_val_u16 exclude_zero e =
     and_then (or_reject (plain_atom e)) (\<lambda>a.
       case parse_number (2 ^ 16) (trim_atom_quotes a) of
         Some n \<Rightarrow> if exclude_zero \<and> n = 0 then Inl Rejected else Inr (of_nat n)
       | None \<Rightarrow> Inl Rejected)"

definition sexpr_to_str_or_err :: "sexpr \<Rightarrow> string cfg_res" where
  "sexpr_to_str_or_err e = and_then (or_reject (plain_atom e)) (\<lambda>a. Inr (trim_atom_quotes a))"

text \<open>\<open>str::split\<close> with a character: there is always one part more than separators.\<close>

fun split_on :: "char \<Rightarrow> string \<Rightarrow> string list" where
  "split_on sep [] = [[]]"
| "split_on sep (c # cs) =
     (if c = sep then [] # split_on sep cs
      else case split_on sep cs of p # ps \<Rightarrow> (c # p) # ps | [] \<Rightarrow> [[c]])"

abbreviation backslash :: char where "backslash \<equiv> CHR 0x5C"

definition trim_end_matches :: "char \<Rightarrow> string \<Rightarrow> string" where
  "trim_end_matches c s = rev (dropWhile (\<lambda>d. d = c) (rev s))"

text \<open>The loop of \<open>parse_colon_separated_text\<close>: a part that ends with a backslash is joined with the
  next one.\<close>

fun join_escaped :: "string list \<Rightarrow> string \<Rightarrow> string list" where
  "join_escaped [] path = []"
| "join_escaped [p] path = [path @ p]"
| "join_escaped (p # q # ps) path =
     (if p \<noteq> [] \<and> last p = backslash
      then join_escaped (q # ps) (path @ trim_end_matches backslash p @ '':'')
      else (path @ p) # join_escaped (q # ps) [])"

definition parse_colon_separated_text :: "string \<Rightarrow> string list" where
  "parse_colon_separated_text paths = join_escaped (split_on (CHR '':'') paths) []"

definition parse_dev :: "sexpr \<Rightarrow> string list cfg_res" where
  "parse_dev e =
     (case e of
        Atom a _ \<Rightarrow>
          (let devs = parse_colon_separated_text (trim_atom_quotes a) in
           if devs = [[]] then Inl Rejected else Inr devs)
      | SList es _ \<Rightarrow>
          map_res (\<lambda>e. and_then (sexpr_to_str_or_err e) (\<lambda>p. if p = [] then Inl Rejected else Inr p)) es)"

definition choice :: "(string \<times> 'a) list \<Rightarrow> sexpr \<Rightarrow> 'a cfg_res" where
  "choice names e = and_then (sexpr_to_str_or_err e) (\<lambda>v. or_reject (map_of names v))"

section \<open>Options\<close>

text \<open>The options that are yes or no\<close>

definition bool_options :: "(string \<times> (bool \<Rightarrow> cfg_options \<Rightarrow> cfg_options)) list" where
  "bool_options =
     [(''sequence-always-on'', \<lambda>b. co_sequence_always_on_update (\<lambda>_. b)),
      (''block-unmapped-keys'', \<lambda>b. co_block_unmapped_keys_update (\<lambda>_. b)),
      (''allow-hardware-repeat'', \<lambda>b. co_allow_hardware_repeat_update (\<lambda>_. b)),
      (''danger-enable-cmd'', \<lambda>b. co_enable_cmd_update (\<lambda>_. b)),
      (''sequence-backtrack-modcancel'', \<lambda>b. co_sequence_backtrack_modcancel_update (\<lambda>_. b)),
      (''log-layer-changes'', \<lambda>b. co_log_layer_changes_update (\<lambda>_. b)),
      (''delegate-to-first-layer'', \<lambda>b. co_delegate_to_first_layer_update (\<lambda>_. b)),
      (''movemouse-smooth-diagonals'', \<lambda>b. co_movemouse_smooth_diagonals_update (\<lambda>_. b)),
      (''movemouse-inherit-accel-state'', \<lambda>b. co_movemouse_inherit_accel_state_update (\<lambda>_. b)),
      (''override-release-on-activation'', \<lambda>b. co_override_release_on_activation_update (\<lambda>_. b)),
      (''concurrent-tap-hold'', \<lambda>b. co_concurrent_tap_hold_update (\<lambda>_. b)),
      (''linux-use-trackpoint-property'',
         \<lambda>b. co_linux_opts_update (lx_use_trackpoint_property_update (\<lambda>_. b))),
      (''linux-continue-if-no-devs-found'',
         \<lambda>b. co_linux_opts_update (lx_continue_if_no_devs_found_update (\<lambda>_. b)))]"

text \<open>The options that the Linux build does not look at\<close>

definition ignored_options :: "string list" where
  "ignored_options =
     [''windows-altgr'', ''windows-interception-mouse-hwid'', ''windows-interception-mouse-hwids'',
      ''windows-interception-mouse-hwids-exclude'', ''windows-interception-keyboard-hwids'',
      ''windows-interception-keyboard-hwids-exclude'', ''macos-dev-names-include'',
      ''macos-dev-names-exclude'', ''macos-continue-if-no-devs-found'', ''tray-icon'',
      ''icon-match-layer-name'', ''tooltip-layer-changes'', ''tooltip-show-blank'', ''tooltip-no-base'',
      ''tooltip-duration'', ''notify-cfg-reload'', ''notify-cfg-reload-silent'', ''notify-error'',
      ''tooltip-size'']"

fun parse_exceptions :: "(string \<Rightarrow> u16 option) \<Rightarrow> sexpr list \<Rightarrow> u16 list \<Rightarrow> u16 list cfg_res" where
  "parse_exceptions osc [] ks = Inr ks"
| "parse_exceptions osc (e # es) ks =
     and_then (or_reject (Option.bind (plain_atom e) osc)) (\<lambda>k.
       if k \<in> set ks then Inl Rejected else parse_exceptions osc es (ks @ [k]))"

definition process_unmapped_option ::
  "(string \<Rightarrow> u16 option) \<Rightarrow> sexpr \<Rightarrow> cfg_options \<Rightarrow> cfg_options cfg_res" where
  "process_unmapped_option osc val cfg =
     (case plain_list val of
        Some es \<Rightarrow>
          if length es < 2 \<or> plain_atom (hd es) \<noteq> Some ''all-except'' then Inl Rejected
          else
            and_then (parse_exceptions osc (tl es) []) (\<lambda>ks.
              Inr (cfg\<lparr>co_process_unmapped_keys := True, co_process_unmapped_keys_exceptions := Some ks\<rparr>))
      | None \<Rightarrow>
          and_then (parse_defcfg_val_bool val) (\<lambda>b. Inr (cfg\<lparr>co_process_unmapped_keys := b\<rparr>)))"

definition repeat_rate_option :: "sexpr \<Rightarrow> (u16 \<times> u16) cfg_res" where
  "repeat_rate_option val =
     and_then (sexpr_to_str_or_err val) (\<lambda>v.
       case split_on (CHR '','') v of
         [d, r] \<Rightarrow>
           and_then (or_reject (parse_number (2 ^ 16) d)) (\<lambda>delay.
           and_then (or_reject (parse_number (2 ^ 16) r)) (\<lambda>rate. Inr (of_nat delay, of_nat rate)))
       | _ \<Rightarrow> Inl Rejected)"

definition linux_option ::
  "(string \<Rightarrow> u16 option) \<Rightarrow> string \<Rightarrow> sexpr \<Rightarrow> linux_options \<Rightarrow> linux_options cfg_res" where
  "linux_option osc label val lx =
     (if label = ''linux-dev'' then
        and_then (parse_dev val) (\<lambda>d. if d = [] then Inl Rejected else Inr (lx\<lparr>lx_dev := d\<rparr>))
      else if label = ''linux-dev-names-include'' then
        and_then (parse_dev val) (\<lambda>d. Inr (lx\<lparr>lx_dev_names_include := Some d\<rparr>))
      else if label = ''linux-dev-names-exclude'' then
        and_then (parse_dev val) (\<lambda>d. Inr (lx\<lparr>lx_dev_names_exclude := Some d\<rparr>))
      else if label = ''linux-unicode-u-code'' then
        and_then (sexpr_to_str_or_err val) (\<lambda>v.
        and_then (or_reject (osc v)) (\<lambda>k. Inr (lx\<lparr>lx_unicode_u_code := k\<rparr>)))
      else if label = ''linux-unicode-termination'' then
        and_then (choice [(''enter'', TermEnter), (''space'', TermSpace), (''enter-space'', TermEnterSpace),
            (''space-enter'', TermSpaceEnter)] val) (\<lambda>t. Inr (lx\<lparr>lx_unicode_termination := t\<rparr>))
      else if label = ''linux-x11-repeat-delay-rate'' then
        and_then (repeat_rate_option val) (\<lambda>r. Inr (lx\<lparr>lx_x11_repeat_delay_rate := Some r\<rparr>))
      else if label = ''linux-output-device-name'' then
        and_then (sexpr_to_str_or_err val) (\<lambda>v.
          Inr (if v = [] then lx else lx\<lparr>lx_output_name := v\<rparr>))
      else if label = ''linux-output-device-bus-type'' then
        and_then (choice [(''USB'', BusUsb), (''I8042'', BusI8042), (''virtual'', BusVirtual)] val) (\<lambda>b.
          Inr (lx\<lparr>lx_output_bus_type := b\<rparr>))
      else if label = ''linux-device-detect-mode'' then
        and_then (choice [(''any'', DetectAny), (''keyboard-only'', DetectKeyboardOnly),
            (''keyboard-mice'', DetectKeyboardMice)] val) (\<lambda>m. Inr (lx\<lparr>lx_device_detect_mode := Some m\<rparr>))
      else Inl Rejected)"

definition cfg_option :: "(string \<Rightarrow> u16 option) \<Rightarrow> string \<Rightarrow> sexpr \<Rightarrow> cfg_options \<Rightarrow> cfg_options cfg_res" where
  "cfg_option osc label val cfg =
     (case map_of bool_options label of
        Some update \<Rightarrow> and_then (parse_defcfg_val_bool val) (\<lambda>b. Inr (update b cfg))
      | None \<Rightarrow>
     if label = ''sequence-timeout'' then
       and_then (parse_cfg_val_u16 True val) (\<lambda>t. Inr (cfg\<lparr>co_sequence_timeout := t\<rparr>))
     else if label = ''sequence-input-mode'' then
       and_then (choice sequence_modes val) (\<lambda>m. Inr (cfg\<lparr>co_sequence_input_mode := m\<rparr>))
     else if label = ''dynamic-macro-max-presses'' then
       and_then (parse_cfg_val_u16 False val) (\<lambda>k. Inr (cfg\<lparr>co_dynamic_macro_max_presses := k\<rparr>))
     else if label = ''dynamic-macro-replay-delay-behaviour'' then
       and_then (or_reject (Option.bind (plain_atom val)
           (map_of [(''constant'', ReplayConstant), (''recorded'', ReplayRecorded)])))
         (\<lambda>r. Inr (cfg\<lparr>co_replay_delay_behaviour := r\<rparr>))
     else if label = ''windows-sync-keystates'' then
       and_then (choice [(''none'', ()), (''clear-kanata-states'', ()), (''clear-kanata-and-os-states'', ())] val)
         (\<lambda>_. Inr cfg)
     else if label \<in> set ignored_options then Inr cfg
     else if label = ''process-unmapped-keys'' then process_unmapped_option osc val cfg
     else if label = ''alias-to-trigger-on-load'' then Inr (cfg\<lparr>co_start_alias := plain_atom val\<rparr>)
     else if label = ''rapid-event-delay'' then
       and_then (parse_cfg_val_u16 False val) (\<lambda>t. Inr (cfg\<lparr>co_rapid_event_delay := t\<rparr>))
     else if label = ''transparent-key-resolution'' then
       and_then (choice [(''to-base-layer'', False), (''layer-stack'', True)] val) (\<lambda>b.
         Inr (cfg\<lparr>co_trans_resolution_behavior_v2 := b\<rparr>))
     else if label = ''chords-v2-min-idle'' \<or> label = ''chords-v2-min-idle-experimental'' then
       and_then (parse_cfg_val_u16 True val) (\<lambda>t.
         if t < 5 then Inl Rejected else Inr (cfg\<lparr>co_chords_v2_min_idle := t\<rparr>))
     else if label = ''tap-hold-require-prior-idle'' then
       and_then (parse_cfg_val_u16 False val) (\<lambda>t. Inr (cfg\<lparr>co_tap_hold_require_prior_idle := t\<rparr>))
     else if label = ''mouse-movement-key'' then
       and_then (or_reject (Option.bind (plain_atom val) osc)) (\<lambda>k.
         Inr (cfg\<lparr>co_mouse_movement_key := Some k\<rparr>))
     else
       and_then (linux_option osc label val (co_linux_opts cfg)) (\<lambda>lx. Inr (cfg\<lparr>co_linux_opts := lx\<rparr>)))"

fun cfg_pairs ::
  "(string \<Rightarrow> u16 option) \<Rightarrow> string list \<Rightarrow> sexpr list \<Rightarrow> cfg_options \<Rightarrow> cfg_options cfg_res" where
  "cfg_pairs osc seen [] cfg = Inr cfg"
| "cfg_pairs osc seen [_] cfg = Inl Rejected"
| "cfg_pairs osc seen (key # val # es) cfg =
     and_then (or_reject (plain_atom key)) (\<lambda>label.
       if label \<in> set seen then Inl Rejected
       else and_then (cfg_option osc label val cfg) (cfg_pairs osc (label # seen) es))"

definition parse_defcfg :: "(string \<Rightarrow> u16 option) \<Rightarrow> sexpr list \<Rightarrow> cfg_options cfg_res" where
  "parse_defcfg osc expr =
     and_then (check_first_expr expr ''defcfg'') (\<lambda>es. cfg_pairs osc [] es cfg_default)"

end
