(* ===== verification/ZippyParser.thy ===== *)
theory ZippyParser
  imports DefCfg
begin

text \<open>
  The configuration of zippychord and the file of its chords (\<open>parser/src/cfg/zippychord.rs\<close>). The maps of
  followups are shared in the code, through all the places a chord is stored at; here a map is a value and is
  stored again when it has changed. A character is its UTF-8 bytes. The content of the file and the
  case of characters come from outside.
\<close>

section \<open>Text\<close>

definition utf8_length :: "char \<Rightarrow> nat" where
  "utf8_length c =
     (let n = of_char c :: nat in if n < 0x80 then 1 else if n < 0xE0 then 2 else if n < 0xF0 then 3 else 4)"

function char_strings :: "string \<Rightarrow> string list" where
  "char_strings s =
     (case s of [] \<Rightarrow> [] | c # cs \<Rightarrow> take (utf8_length c) s # char_strings (drop (utf8_length c) s))"
  by pat_completeness auto
termination
  by (relation "measure length") (auto simp: utf8_length_def Let_def)

declare char_strings.simps [simp del]

lemma char_strings_simps [simp]:
  "char_strings [] = []"
  "char_strings (c # cs) = take (utf8_length c) (c # cs) # char_strings (drop (utf8_length c) (c # cs))"
  by (simp_all add: char_strings.simps [of "[]"] char_strings.simps [of "c # cs"])

text \<open>The white space of Unicode\<close>

definition is_whitespace :: "string \<Rightarrow> bool" where
  "is_whitespace s \<longleftrightarrow>
     (case chars s of
        [c] \<Rightarrow> 9 \<le> c \<and> c \<le> 13 \<or> 0x2000 \<le> c \<and> c \<le> 0x200A
          \<or> c \<in> {0x20, 0x85, 0xA0, 0x1680, 0x2028, 0x2029, 0x202F, 0x205F, 0x3000}
      | _ \<Rightarrow> False)"

definition trim_start :: "string \<Rightarrow> string" where
  "trim_start s = concat (dropWhile is_whitespace (char_strings s))"

text \<open>\<open>str::lines\<close>\<close>

definition text_lines :: "string \<Rightarrow> string list" where
  "text_lines s =
     (let ls = split_on (CHR 0x0A) s;
          ls' = (if last ls = [] then butlast ls else ls) in
      map (\<lambda>l. unwrap_or (strip_suffix [CHR 0x0D] l) l) ls')"

text \<open>\<open>str::split_once\<close>\<close>

fun split_once :: "char \<Rightarrow> string \<Rightarrow> (string \<times> string) option" where
  "split_once sep [] = None"
| "split_once sep (c # cs) =
     (if c = sep then Some ([], cs) else map_option (\<lambda>(a, b). (c # a, b)) (split_once sep cs))"

lemma split_once_length: "split_once sep s = Some (a, b) \<Longrightarrow> length b < length s"
  by (induction sep s arbitrary: a rule: split_once.induct) (force split: if_splits)+

section \<open>Outputs\<close>

definition parse_single_zippy_output_mapping :: "parser_state \<Rightarrow> bool \<Rightarrow> string \<Rightarrow> zch_output cfg_res" where
  "parse_single_zippy_output_mapping s no_erase output =
     and_then (parse_mod_prefix output) (\<lambda>(mods, key).
       if LShift \<in> set mods \<and> RShift \<in> set mods then Inl Rejected
       else if \<not> set mods \<subseteq> {LShift, RShift, RAlt} then Inl Rejected
       else
         and_then (or_reject (ps_osc s key)) (\<lambda>k.
           case mods of
             [] \<Rightarrow> Inr (if no_erase then NoEraseLowercase k else Lowercase k)
           | [m] \<Rightarrow>
               if m = RAlt then Inr (if no_erase then NoEraseAltGr k else AltGr k)
               else Inr (if no_erase then NoEraseUppercase k else Uppercase k)
           | [_, _] \<Rightarrow> Inr (if no_erase then NoEraseShiftAltGr k else ShiftAltGr k)
           | _ \<Rightarrow> Inl ParserPanic))"

definition zippy_output :: "parser_state \<Rightarrow> bool \<Rightarrow> sexpr \<Rightarrow> zch_output cfg_res" where
  "zippy_output s no_erase e =
     and_then (need_atom (ps_vars s) e) (parse_single_zippy_output_mapping s no_erase)"

definition zippy_outputs :: "parser_state \<Rightarrow> sexpr \<Rightarrow> zch_output list cfg_res" where
  "zippy_outputs s e =
     and_then (atom_of (ps_vars s) e) (\<lambda>a.
       case a of
         Some out \<Rightarrow> and_then (parse_single_zippy_output_mapping s False out) (\<lambda>out. Inr [out])
       | None \<Rightarrow>
           and_then (list_of (ps_vars s) e) (\<lambda>l.
             case l of
               None \<Rightarrow> Inl ParserPanic
             | Some [] \<Rightarrow> Inl Rejected
             | Some (ty # outs) \<Rightarrow>
                 and_then (atom_is s ty [(''no-erase'', True), (''single-output'', False)]) (\<lambda>no_erase.
                   if no_erase then
                     if length outs \<noteq> 1 then Inl Rejected
                     else and_then (zippy_output s True (hd outs)) (\<lambda>out. Inr [out])
                   else if outs = [] then Inl Rejected
                   else
                     and_then (map_res (zippy_output s True) (butlast outs)) (\<lambda>front.
                     and_then (zippy_output s False (last outs)) (\<lambda>out. Inr (front @ [out]))))))"

type_synonym char_outputs = "(string \<times> zch_output list) list"

fun parse_char_outputs :: "parser_state \<Rightarrow> sexpr list \<Rightarrow> char_outputs \<Rightarrow> char_outputs cfg_res" where
  "parse_char_outputs s [] m = Inr m"
| "parse_char_outputs s [_] m = Inl Rejected"
| "parse_char_outputs s (e # e' # es) m =
     and_then (or_reject (plain_atom e)) (\<lambda>a.
       case char_strings (trim_atom_quotes a) of
         [c] \<Rightarrow>
           and_then (zippy_outputs s e') (\<lambda>outs.
             if c \<in> fst ` set m then Inl Rejected else parse_char_outputs s es (m @ [(c, outs)]))
       | _ \<Rightarrow> Inl Rejected)"

section \<open>The options\<close>

definition zch_config_default :: zch_config where
  "zch_config_default =
     \<lparr>zcfg_ticks_wait_enable = 500, zcfg_ticks_chord_deadline = 500,
      zcfg_smart_space = SmartSpaceDisabled,
      zcfg_smart_space_punctuation = [Lowercase 52, Lowercase 51, Lowercase 39]\<rparr>"

record zippy_options =
  zp_config :: zch_config
  zp_punctuation :: "sexpr option"
  zp_outputs :: char_outputs

definition zippy_option :: "parser_state \<Rightarrow> string \<Rightarrow> sexpr \<Rightarrow> zippy_options \<Rightarrow> zippy_options cfg_res" where
  "zippy_option s name val z =
     (if name = ''idle-reactivate-time'' then
        and_then (u16_of s val) (\<lambda>t. Inr (z\<lparr>zp_config := (zp_config z)\<lparr>zcfg_ticks_wait_enable := t\<rparr>\<rparr>))
      else if name = ''on-first-press-chord-deadline'' then
        and_then (u16_of s val) (\<lambda>t. Inr (z\<lparr>zp_config := (zp_config z)\<lparr>zcfg_ticks_chord_deadline := t\<rparr>\<rparr>))
      else if name = ''smart-space'' then
        and_then (atom_is s val [(''none'', SmartSpaceDisabled), (''full'', SmartSpaceFull),
            (''add-space-only'', AddSpaceOnly)]) (\<lambda>c.
          Inr (z\<lparr>zp_config := (zp_config z)\<lparr>zcfg_smart_space := c\<rparr>\<rparr>))
      else if name = ''smart-space-punctuation'' then Inr (z\<lparr>zp_punctuation := Some val\<rparr>)
      else if name = ''output-character-mappings'' then
        and_then (need_list (ps_vars s) val) (\<lambda>es.
        and_then (parse_char_outputs s es []) (\<lambda>m. Inr (z\<lparr>zp_outputs := m\<rparr>)))
      else Inl Rejected)"

fun zippy_pairs :: "parser_state \<Rightarrow> string list \<Rightarrow> sexpr list \<Rightarrow> zippy_options \<Rightarrow> zippy_options cfg_res" where
  "zippy_pairs s seen [] z = Inr z"
| "zippy_pairs s seen [_] z = Inl Rejected"
| "zippy_pairs s seen (e # val # es) z =
     and_then (need_atom (ps_vars s) e) (\<lambda>name.
       if name \<in> set seen then Inl Rejected
       else and_then (zippy_option s name val z) (zippy_pairs s (name # seen) es))"

definition zippy_punctuation_item :: "parser_state \<Rightarrow> char_outputs \<Rightarrow> sexpr \<Rightarrow> zch_output cfg_res" where
  "zippy_punctuation_item s m e =
     and_then (need_atom (ps_vars s) e) (\<lambda>p.
       case (if length (char_strings p) = 1 then map_of m p else None) of
         Some outs \<Rightarrow> (case outs of [out] \<Rightarrow> Inr out | [] \<Rightarrow> Inl ParserPanic | _ \<Rightarrow> Inl Rejected)
       | None \<Rightarrow> and_then (or_reject (ps_osc s p)) (\<lambda>k. Inr (Lowercase k)))"

definition zippy_punctuation :: "parser_state \<Rightarrow> zippy_options \<Rightarrow> zch_config cfg_res" where
  "zippy_punctuation s z =
     (case zp_punctuation z of
        None \<Rightarrow> Inr (zp_config z)
      | Some e \<Rightarrow>
          and_then (need_list (ps_vars s) e) (\<lambda>es.
          and_then (map_res (zippy_punctuation_item s (zp_outputs z)) es) (\<lambda>ps.
            Inr ((zp_config z)\<lparr>zcfg_smart_space_punctuation := ps\<rparr>))))"

section \<open>The file\<close>

record char_case =
  cc_lowercase :: "string \<Rightarrow> string"
  cc_is_uppercase :: "string \<Rightarrow> bool"

definition output_char :: "parser_state \<Rightarrow> char_case \<Rightarrow> char_outputs \<Rightarrow> string \<Rightarrow> zch_output list cfg_res" where
  "output_char s cc m c =
     (case map_of m c of
        Some outs \<Rightarrow> Inr outs
      | None \<Rightarrow>
          and_then
            (if cc_lowercase cc c = '' '' then Inr KEY_SPACE else or_reject (ps_osc s (cc_lowercase cc c)))
            (\<lambda>k. Inr [if cc_is_uppercase cc c then Uppercase k else Lowercase k]))"

definition output_text :: "parser_state \<Rightarrow> char_case \<Rightarrow> char_outputs \<Rightarrow> string \<Rightarrow> zch_output list cfg_res" where
  "output_text s cc m output =
     and_then (map_res (output_char s cc m) (char_strings output)) (\<lambda>outs. Inr (concat outs))"

definition chord_of :: "parser_state \<Rightarrow> bool \<Rightarrow> string \<Rightarrow> u16 list cfg_res" where
  "chord_of s space chord_chars =
     fold_res (\<lambda>c keys. and_then (or_reject (ps_osc s c)) (\<lambda>k. Inr (zchik_insert k keys)))
       (char_strings chord_chars) (if space then [KEY_SPACE] else [])"

text \<open>The chords of an input: a space ends a chord, and a further space is a key of the next one.\<close>

function input_chords :: "parser_state \<Rightarrow> string \<Rightarrow> u16 list list cfg_res" where
  "input_chords s input =
     (if input = [] then Inr []
      else
        let space = hd input = CHR '' '';
            left = (if space then tl input else input) in
        (case split_once (CHR '' '') left of
           Some (chord_chars, rem) \<Rightarrow>
             and_then (chord_of s space chord_chars) (\<lambda>c.
             and_then (input_chords s rem) (\<lambda>cs. Inr (c # cs)))
         | None \<Rightarrow> and_then (chord_of s space left) (\<lambda>c. Inr [c])))"
  by pat_completeness auto
termination
  by (relation "measure (\<lambda>(s, i). length i)") (auto dest!: split_once_length simp: less_Suc_eq split: if_splits)

declare input_chords.simps [simp del]

text \<open>The line is stored: the chords before the last one lead to a map of followups.\<close>

fun zippy_insert ::
  "u16 list list \<Rightarrow> zch_output list \<Rightarrow> zch_possible_chords \<Rightarrow> zch_possible_chords cfg_res" where
  "zippy_insert [] out m = Inr m"
| "zippy_insert [c] out m =
     (case ssm_get_or_is_subset_ksorted c m of
        HasValue _ \<Rightarrow> Inl Rejected
      | _ \<Rightarrow> Inr (fst (ssm_insert_ksorted c (ZchChordOutput out None) m)))"
| "zippy_insert (c # cs) out m =
     (case ssm_get_or_is_subset_ksorted c m of
        HasValue v \<Rightarrow>
          and_then (zippy_insert cs out (unwrap_or (zc_followups v) ssm_new)) (\<lambda>f.
            Inr (fst (ssm_insert_ksorted c (ZchChordOutput (zc_output v) (Some f)) m)))
      | _ \<Rightarrow>
          and_then (zippy_insert cs out ssm_new) (\<lambda>f.
            Inr (fst (ssm_insert_ksorted c (ZchChordOutput [] (Some f)) m))))"

definition zippy_line ::
  "parser_state \<Rightarrow> char_case \<Rightarrow> char_outputs \<Rightarrow> string \<Rightarrow> zch_possible_chords \<Rightarrow> zch_possible_chords cfg_res" where
  "zippy_line s cc m ln chords =
     (case split_once (CHR 0x09) ln of
        None \<Rightarrow> Inl Rejected
      | Some (input, output) \<Rightarrow>
          if input = [] then Inl Rejected
          else
            and_then (output_text s cc m output) (\<lambda>out.
            and_then (input_chords s input) (\<lambda>cs. zippy_insert cs out chords)))"

definition is_chord_line :: "string \<Rightarrow> bool" where
  "is_chord_line ln \<longleftrightarrow> trim_start ln \<noteq> [] \<and> take 2 (trim_start ln) \<noteq> ''//''"

definition parse_zippy_file ::
  "parser_state \<Rightarrow> char_case \<Rightarrow> char_outputs \<Rightarrow> string \<Rightarrow> zch_possible_chords cfg_res" where
  "parse_zippy_file s cc m content = fold_res (zippy_line s cc m) (filter is_chord_line (text_lines content)) ssm_new"

text \<open>\<open>file\<close> reads a file.\<close>

definition parse_zippy ::
  "(string \<Rightarrow> string option) \<Rightarrow> char_case \<Rightarrow> sexpr list \<Rightarrow> parser_state
     \<Rightarrow> (zch_possible_chords \<times> zch_config) cfg_res" where
  "parse_zippy file cc exprs s =
     (case exprs of
        _ # file_expr # opts \<Rightarrow>
          and_then (need_atom (ps_vars s) file_expr) (\<lambda>file_name.
          and_then (zippy_pairs s [] opts
              \<lparr>zp_config = zch_config_default, zp_punctuation = None, zp_outputs = []\<rparr>) (\<lambda>z.
          and_then (zippy_punctuation s z) (\<lambda>cfg.
          and_then (or_reject (file file_name)) (\<lambda>content.
          and_then (parse_zippy_file s cc (zp_outputs z) content) (\<lambda>chords. Inr (chords, cfg))))))
      | _ \<Rightarrow> Inl Rejected)"

end
