(* ===== verification/ConfigParser.thy ===== *)
theory ConfigParser
  imports ZippyParser Templates Overrides
begin

text \<open>
  The whole of a configuration (\<open>parse_cfg_raw\<close> and \<open>parse_cfg_raw_string\<close> in \<open>parser/src/cfg/mod.rs\<close>) on Linux,
  with the blocks that have no theory of their own: includes, platforms and environments (\<open>platform.rs\<close>),
  \<open>deflocalkeys\<close>, \<open>definputdevices\<close>, \<open>defsrc\<close>, the names of the layers, \<open>defoverrides\<close> and \<open>defchordsv2\<close>
  (\<open>chord.rs\<close>). The names of the layers go with their icons, without their text.
\<close>

section \<open>Top-level items\<close>

definition first_atom :: "sexpr list \<Rightarrow> string option" where
  "first_atom l = (case l of e # _ \<Rightarrow> plain_atom e | [] \<Rightarrow> None)"

text \<open>Files: \<open>fs_canonical\<close> resolves a path that exists and \<open>fs_read\<close> reads what it resolves to. The files
  that were read are remembered, and none is read twice.\<close>

record file_system =
  fs_canonical :: "string \<Rightarrow> string option"
  fs_read :: "string \<Rightarrow> string option"

definition get_file_content :: "file_system \<Rightarrow> string \<Rightarrow> string list \<Rightarrow> (string \<times> string list) cfg_res" where
  "get_file_content fs path loaded =
     (case fs_canonical fs path of
        None \<Rightarrow> Inr ([], loaded)
      | Some p \<Rightarrow>
          if p \<in> set loaded then Inl Rejected
          else and_then (or_reject (fs_read fs p)) (\<lambda>content. Inr (content, p # loaded)))"

definition parsed_text :: "string \<Rightarrow> spanned_list list cfg_res" where
  "parsed_text text = (case parse text of Inl _ \<Rightarrow> Inl Rejected | Inr ts \<Rightarrow> Inr ts)"

definition expand_include ::
  "file_system \<Rightarrow> spanned_list \<Rightarrow> spanned_list list \<times> string list \<Rightarrow> (spanned_list list \<times> string list) cfg_res"
where
  "expand_include fs t st =
     (case st of (acc, loaded) \<Rightarrow>
        if first_atom (fst t) = Some ''include'' then
          (case tl (fst t) of
             [Atom path _] \<Rightarrow>
               and_then (get_file_content fs (trim_atom_quotes path) loaded) (\<lambda>(content, loaded').
               and_then (parsed_text content) (\<lambda>ts. Inr (acc @ ts, loaded')))
           | _ \<Rightarrow> Inl Rejected)
        else Inr (acc @ [t], loaded))"

definition expand_includes ::
  "file_system \<Rightarrow> spanned_list list \<Rightarrow> string list \<Rightarrow> (spanned_list list \<times> string list) cfg_res" where
  "expand_includes fs ts loaded = fold_res (expand_include fs) ts ([], loaded)"

definition DEFLOCALKEYS_VARIANTS :: "string list" where
  "DEFLOCALKEYS_VARIANTS =
     [''deflocalkeys-win'', ''deflocalkeys-winiov2'', ''deflocalkeys-wintercept'', ''deflocalkeys-linux'',
      ''deflocalkeys-macos'']"

definition DEF_LOCAL_KEYS :: string where "DEF_LOCAL_KEYS = ''deflocalkeys-linux''"

definition platform_of :: "string \<Rightarrow> string" where
  "platform_of variant = unwrap_or (strip_prefix ''deflocalkeys-'' variant) variant"

definition filter_platform :: "spanned_list \<Rightarrow> spanned_list list cfg_res" where
  "filter_platform t =
     (if first_atom (fst t) \<noteq> Some ''platform'' then Inr [t]
      else
        case fst t of
          [_, SList platforms _, SList configuration sp] \<Rightarrow>
            and_then (map_res (\<lambda>e. and_then (or_reject (plain_atom e)) (\<lambda>p.
                if p \<in> set (map platform_of DEFLOCALKEYS_VARIANTS) then Inr p else Inl Rejected)) platforms) (\<lambda>ps.
              Inr (if platform_of DEF_LOCAL_KEYS \<in> set ps then [(configuration, sp)] else []))
        | _ \<Rightarrow> Inl Rejected)"

definition filter_env :: "env_vars \<Rightarrow> spanned_list \<Rightarrow> spanned_list list cfg_res" where
  "filter_env env t =
     (if first_atom (fst t) \<noteq> Some ''environment'' then Inr [t]
      else
        case (env, fst t) of
          (Some vars, [_, SList [Atom name _, Atom val _] _, SList configuration sp]) \<Rightarrow>
            Inr (if unwrap_or (map_of vars name) [] = trim_atom_quotes val then [(configuration, sp)] else [])
        | _ \<Rightarrow> Inl Rejected)"

definition concat_map_res :: "('a \<Rightarrow> 'b list cfg_res) \<Rightarrow> 'a list \<Rightarrow> 'b list cfg_res" where
  "concat_map_res f xs = and_then (map_res f xs) (\<lambda>ys. Inr (concat ys))"

definition TOP_LEVEL_ATOMS :: "string list" where
  "TOP_LEVEL_ATOMS =
     [''defcfg'', ''defalias'', ''defaliasenvcond'', ''defsrc'', ''deflayer'', ''deflayermap'',
      ''defoverrides'', ''defoverridesv2'', ''deflocalkeys-macos'', ''deflocalkeys-linux'',
      ''deflocalkeys-win'', ''deflocalkeys-winiov2'', ''deflocalkeys-wintercept'', ''deffakekeys'',
      ''defvirtualkeys'', ''defchords'', ''defvar'', ''deftemplate'', ''defchordsv2'',
      ''defchordsv2-experimental'', ''defzippy'', ''defzippy-experimental'', ''defseq'', ''defhands'',
      ''definputdevices'']"

definition error_on_unknown_top_level_atoms :: "sexpr list list \<Rightarrow> unit cfg_res" where
  "error_on_unknown_top_level_atoms exprs =
     reject_unless (list_all (\<lambda>l. \<exists>a\<in>set TOP_LEVEL_ATOMS. first_atom l = Some a) exprs)"

definition items :: "string list \<Rightarrow> sexpr list list \<Rightarrow> sexpr list list" where
  "items names exprs = filter (\<lambda>l. \<exists>a\<in>set names. first_atom l = Some a) exprs"

text \<open>The item of a kind of which there may be one\<close>

definition at_most_one :: "string list \<Rightarrow> sexpr list list \<Rightarrow> sexpr list option cfg_res" where
  "at_most_one names exprs =
     (case items names exprs of [] \<Rightarrow> Inr None | [l] \<Rightarrow> Inr (Some l) | _ \<Rightarrow> Inl Rejected)"

definition opt_res :: "('a \<Rightarrow> 'b cfg_res) \<Rightarrow> 'a option \<Rightarrow> 'b option cfg_res" where
  "opt_res f x = (case x of None \<Rightarrow> Inr None | Some y \<Rightarrow> and_then (f y) (\<lambda>z. Inr (Some z)))"

section \<open>Keys\<close>

fun local_key_pairs :: "bool \<Rightarrow> sexpr list \<Rightarrow> (string \<times> u16) list \<Rightarrow> (string \<times> u16) list cfg_res" where
  "local_key_pairs applies [] m = Inr m"
| "local_key_pairs applies [_] m = Inl Rejected"
| "local_key_pairs applies (e # v # es) m =
     and_then (or_reject (plain_atom e)) (\<lambda>name.
       if name \<in> fst ` set m then Inl Rejected
       else if \<not> applies then local_key_pairs applies es (m @ [(name, 0)])
       else
         and_then (or_reject (plain_atom v)) (\<lambda>a.
         and_then (or_reject (parse_number (2 ^ 16) a)) (\<lambda>n.
         and_then (or_reject (from_u16 (of_nat n))) (\<lambda>osc. local_key_pairs applies es (m @ [(name, osc)])))))"

definition parse_deflocalkeys :: "string \<Rightarrow> sexpr list \<Rightarrow> (string \<times> u16) list cfg_res" where
  "parse_deflocalkeys variant expr =
     and_then (check_first_expr expr variant) (\<lambda>es. local_key_pairs (variant = DEF_LOCAL_KEYS) es [])"

text \<open>The blocks of other systems are read as well.\<close>

definition local_keys :: "sexpr list list \<Rightarrow> (string \<times> u16) list cfg_res" where
  "local_keys exprs =
     fold_res (\<lambda>variant m.
       and_then (at_most_one [variant] exprs) (\<lambda>l.
       and_then (opt_res (parse_deflocalkeys variant) l) (\<lambda>r.
         Inr (if variant = DEF_LOCAL_KEYS then unwrap_or r m else m)))) DEFLOCALKEYS_VARIANTS []"

fun defsrc_keys :: "(string \<Rightarrow> u16 option) \<Rightarrow> sexpr list \<Rightarrow> u16 list \<Rightarrow> u16 list cfg_res" where
  "defsrc_keys osc [] ks = Inr ks"
| "defsrc_keys osc (e # es) ks =
     and_then (or_reject (Option.bind (plain_atom e) osc)) (\<lambda>k.
       if k \<in> set ks then Inl Rejected else defsrc_keys osc es (ks @ [k]))"

text \<open>The keys that are processed, and the keys of the \<open>defsrc\<close> in their order\<close>

definition parse_defsrc ::
  "(string \<Rightarrow> u16 option) \<Rightarrow> sexpr list \<Rightarrow> cfg_options \<Rightarrow> (u16 list \<times> nat list) cfg_res" where
  "parse_defsrc osc expr cfg =
     and_then (check_first_expr expr ''defsrc'') (\<lambda>es.
     and_then (defsrc_keys osc es []) (\<lambda>ks.
       let exceptions = unwrap_or (co_process_unmapped_keys_exceptions cfg) [] in
       if \<exists>k\<in>set exceptions. k \<in> set ks then Inl Rejected
       else
         Inr (ks @ (if co_process_unmapped_keys cfg
                    then filter (\<lambda>k. k \<notin> set ks \<and> from_u16 k \<noteq> None \<and> \<not> is_mouse_code k \<and> k \<noteq> 0
                           \<and> k \<notin> set exceptions) (map of_nat [0 ..< KEYS_IN_ROW])
                    else []),
              map unat ks)))"

definition create_defsrc_layer :: "kaction list" where
  "create_defsrc_layer =
     (map (\<lambda>i. case from_u16 (of_nat i) of Some k \<Rightarrow> KeyCode k | None \<Rightarrow> NoOp) [0 ..< KEYS_IN_ROW])[0 := NoOp]"

section \<open>Devices\<close>

record input_device_matcher =
  idm_name :: "string option"
  idm_hash :: "string option"
  idm_vendor_id :: "u16 option"
  idm_product_id :: "u16 option"

definition strip_hex_prefix :: "string \<Rightarrow> string option" where
  "strip_hex_prefix s = (case strip_prefix ''0x'' s of Some h \<Rightarrow> Some h | None \<Rightarrow> strip_prefix ''0X'' s)"

definition parse_hex_or_decimal_u16 :: "string \<Rightarrow> u16 option" where
  "parse_hex_or_decimal_u16 s =
     (case (case strip_hex_prefix s of Some h \<Rightarrow> parse_hex h | None \<Rightarrow> parse_number (2 ^ 16) s) of
        Some n \<Rightarrow> if n < 2 ^ 16 then Some (of_nat n) else None
      | None \<Rightarrow> None)"

definition device_property ::
  "cfg_vars \<Rightarrow> sexpr \<Rightarrow> input_device_matcher \<Rightarrow> input_device_matcher cfg_res" where
  "device_property vs e m =
     and_then (need_list vs e) (\<lambda>props.
       if length props \<noteq> 2 then Inl Rejected
       else
         and_then (need_atom vs (props ! 0)) (\<lambda>name.
         and_then (need_atom vs (props ! 1)) (\<lambda>v.
           let val = trim_atom_quotes v in
           if name = ''name'' then
             if idm_name m \<noteq> None then Inl Rejected else Inr (m\<lparr>idm_name := Some val\<rparr>)
           else if name = ''hash'' then
             if idm_hash m \<noteq> None then Inl Rejected
             else
               let h = unwrap_or (strip_hex_prefix val) val in
               if h = [] \<or> \<not> list_all (\<lambda>c. hex_digit c \<noteq> None) h then Inl Rejected
               else Inr (m\<lparr>idm_hash := Some (to_ascii_lowercase h)\<rparr>)
           else if name = ''vendor_id'' then
             if idm_vendor_id m \<noteq> None then Inl Rejected
             else and_then (or_reject (parse_hex_or_decimal_u16 val)) (\<lambda>n. Inr (m\<lparr>idm_vendor_id := Some n\<rparr>))
           else if name = ''product_id'' then
             if idm_product_id m \<noteq> None then Inl Rejected
             else and_then (or_reject (parse_hex_or_decimal_u16 val)) (\<lambda>n. Inr (m\<lparr>idm_product_id := Some n\<rparr>))
           else Inl Rejected)))"

fun device_pairs ::
  "cfg_vars \<Rightarrow> sexpr list \<Rightarrow> (u8 \<times> input_device_matcher) list \<Rightarrow> (u8 \<times> input_device_matcher) list cfg_res"
where
  "device_pairs vs [] ds = Inr ds"
| "device_pairs vs [_] ds = Inl Rejected"
| "device_pairs vs (e # e' # es) ds =
     and_then (need_atom vs e) (\<lambda>a.
     and_then (or_reject (parse_number (2 ^ 8) a)) (\<lambda>n.
       if n = 0 \<or> of_nat n \<in> fst ` set ds then Inl Rejected
       else
         and_then (need_list vs e') (\<lambda>ms.
           if ms = [] then Inl Rejected
           else
             and_then (fold_res (device_property vs) ms
                 \<lparr>idm_name = None, idm_hash = None, idm_vendor_id = None, idm_product_id = None\<rparr>) (\<lambda>m.
               device_pairs vs es (ds @ [(of_nat n, m)])))))"

definition parse_definputdevices ::
  "sexpr list \<Rightarrow> cfg_vars \<Rightarrow> (u8 \<times> input_device_matcher) list cfg_res" where
  "parse_definputdevices expr vs =
     and_then (check_first_expr expr ''definputdevices'') (\<lambda>es. device_pairs vs es [])"

section \<open>The names of the layers\<close>

definition DEFLAYER_ICON :: "string list" where
  "DEFLAYER_ICON = [''icon'', [CHR 0xF0, CHR 0x9F, CHR 0x96, CHR 0xBB], [CHR 0xF0, CHR 0x9F, CHR 0x96, CHR 0xBC]]"

fun parse_layer_opts :: "sexpr list \<Rightarrow> string option \<Rightarrow> string option cfg_res" where
  "parse_layer_opts [] icon = Inr icon"
| "parse_layer_opts [_] icon = Inl Rejected"
| "parse_layer_opts (e # v # es) icon =
     and_then (or_reject (plain_atom e)) (\<lambda>key.
       if key \<notin> set DEFLAYER_ICON \<or> icon \<noteq> None then Inl Rejected
       else and_then (or_reject (plain_atom v)) (\<lambda>val. parse_layer_opts es (Some val)))"

definition layer_name :: "cfg_vars \<Rightarrow> sexpr \<Rightarrow> (string \<times> string option) cfg_res" where
  "layer_name vs e =
     and_then (atom_of vs e) (\<lambda>a.
       case a of
         Some name \<Rightarrow> Inr (name, None)
       | None \<Rightarrow>
           and_then (list_of vs e) (\<lambda>l.
             case l of
               None \<Rightarrow> Inl ParserPanic
             | Some [] \<Rightarrow> Inl Rejected
             | Some (h # opts) \<Rightarrow>
                 and_then (need_atom vs h) (\<lambda>name.
                 and_then (parse_layer_opts opts None) (\<lambda>icon. Inr (name, map_option trim_atom_quotes icon)))))"

text \<open>Parentheses that are written as keys\<close>

definition is_parentheses :: "sexpr \<Rightarrow> bool" where
  "is_parentheses e \<longleftrightarrow>
     (case plain_list e of
        Some [] \<Rightarrow> True
      | Some [e'] \<Rightarrow> plain_atom e' = Some [backslash]
      | _ \<Rightarrow> False)"

fun layer_items :: "layer_exprs \<Rightarrow> sexpr list" where
  "layer_items (DefsrcMapping l) = l"
| "layer_items (CustomMapping l) = l"

fun parse_layer_indexes ::
  "cfg_vars \<Rightarrow> nat \<Rightarrow> layer_exprs list \<Rightarrow> (string \<times> string option) list
     \<Rightarrow> (string \<times> string option) list cfg_res" where
  "parse_layer_indexes vs expected_len [] names = Inr names"
| "parse_layer_indexes vs expected_len (e # es) names =
     (case tl (layer_items e) of
        [] \<Rightarrow> Inl Rejected
      | name_expr # actions \<Rightarrow>
          and_then (layer_name vs name_expr) (\<lambda>(name, icon).
            if name \<in> fst ` set names then Inl Rejected
            else if list_ex is_parentheses actions then Inl Rejected
            else if (case e of DefsrcMapping _ \<Rightarrow> length actions \<noteq> expected_len | CustomMapping _ \<Rightarrow> False)
            then Inl Rejected
            else parse_layer_indexes vs expected_len es (names @ [(name, icon)])))"

definition layer_expr_of :: "sexpr list \<Rightarrow> layer_exprs" where
  "layer_expr_of l = (if first_atom l = Some ''deflayer'' then DefsrcMapping l else CustomMapping l)"

section \<open>Overrides\<close>

definition parse_override_inout_keys ::
  "sexpr \<Rightarrow> sexpr \<Rightarrow> parser_state \<Rightarrow> (u16 list \<times> u16 list) cfg_res" where
  "parse_override_inout_keys in_expr out_expr s =
     and_then (need_list (ps_vars s) out_expr) (\<lambda>outs.
     and_then (need_list (ps_vars s) in_expr) (\<lambda>ins.
     and_then (map_res (key_of s) ins) (\<lambda>in_keys.
     and_then (map_res (key_of s) outs) (\<lambda>out_keys. Inr (in_keys, out_keys)))))"

definition override_res :: "override_error + override \<Rightarrow> override cfg_res" where
  "override_res r = (case r of Inl _ \<Rightarrow> Inl Rejected | Inr ov \<Rightarrow> Inr ov)"

fun override_pairs :: "parser_state \<Rightarrow> sexpr list \<Rightarrow> override list cfg_res" where
  "override_pairs s [] = Inr []"
| "override_pairs s [_] = Inl Rejected"
| "override_pairs s (e # e' # es) =
     and_then (parse_override_inout_keys e e' s) (\<lambda>(ins, outs).
     and_then (override_res (override_try_new ins outs)) (\<lambda>ov.
     and_then (override_pairs s es) (\<lambda>ovs. Inr (ov # ovs))))"

definition parse_overrides :: "sexpr list \<Rightarrow> parser_state \<Rightarrow> overrides cfg_res" where
  "parse_overrides expr s =
     and_then (check_first_expr expr ''defoverrides'') (\<lambda>es.
     and_then (override_pairs s es) (\<lambda>ovs. Inr (overrides_new ovs)))"

definition modifier_of :: "parser_state \<Rightarrow> sexpr \<Rightarrow> u16 cfg_res" where
  "modifier_of s e = and_then (key_of s e) (\<lambda>k. if is_mod k then Inr k else Inl Rejected)"

definition layer_of :: "parser_state \<Rightarrow> sexpr \<Rightarrow> u16 cfg_res" where
  "layer_of s e =
     and_then (need_atom (ps_vars s) e) (\<lambda>a. and_then (or_reject (ps_layer_idxs s a)) (\<lambda>i. Inr (of_nat i)))"

fun override_tuples :: "parser_state \<Rightarrow> sexpr list \<Rightarrow> override list cfg_res" where
  "override_tuples s [] = Inr []"
| "override_tuples s (e # e' # mods_expr # layers_expr # es) =
     and_then (parse_override_inout_keys e e' s) (\<lambda>(ins, outs).
     and_then (need_list (ps_vars s) mods_expr) (\<lambda>mod_exprs.
     and_then (need_list (ps_vars s) layers_expr) (\<lambda>layer_exprs.
     and_then (map_res (modifier_of s) mod_exprs) (\<lambda>mods.
     and_then (map_res (layer_of s) layer_exprs) (\<lambda>ls.
     and_then (override_res (override_try_new_v2 ins outs mods ls)) (\<lambda>ov.
     and_then (override_tuples s es) (\<lambda>ovs. Inr (ov # ovs))))))))"
| "override_tuples s _ = Inl Rejected"

definition parse_overridesv2 :: "sexpr list \<Rightarrow> parser_state \<Rightarrow> overrides cfg_res" where
  "parse_overridesv2 expr s =
     and_then (check_first_expr expr ''defoverridesv2'') (\<lambda>es.
     and_then (override_tuples s es) (\<lambda>ovs. Inr (overrides_new ovs)))"

section \<open>Chords of the second version\<close>

definition parse_participating_keys :: "parser_state \<Rightarrow> sexpr \<Rightarrow> u16 list cfg_res" where
  "parse_participating_keys s e =
     and_then (need_list (ps_vars s) e) (\<lambda>es.
     and_then (map_res (key_of s) es) (\<lambda>ks. if length ks < 2 then Inl Rejected else Inr (sort ks)))"

definition parse_release_behaviour :: "parser_state \<Rightarrow> sexpr \<Rightarrow> release_behaviour cfg_res" where
  "parse_release_behaviour s e =
     atom_is s e [(''first-release'', OnFirstRelease), (''all-released'', OnLastRelease)]"

definition parse_disabled_layers :: "parser_state \<Rightarrow> sexpr \<Rightarrow> u16 list cfg_res" where
  "parse_disabled_layers s e = and_then (need_list (ps_vars s) e) (map_res (layer_of s))"

text \<open>One chord; its keys are taken even when it is rejected afterwards.\<close>

definition parse_single_chord ::
  "nat \<Rightarrow> parser_state \<Rightarrow> sexpr list \<Rightarrow> u16 list list \<Rightarrow> custom_action chord_v2 cfg_res \<times> u16 list list" where
  "parse_single_chord n s chunk seen =
     (case parse_participating_keys s (chunk ! 0) of
        Inl f \<Rightarrow> (Inl f, seen)
      | Inr keys \<Rightarrow>
          if keys \<in> set seen then (Inl Rejected, seen)
          else
            (and_then (parse_action n s (chunk ! 1)) (\<lambda>action.
             and_then (non_zero_u16_of s (chunk ! 2)) (\<lambda>timeout.
             and_then (parse_release_behaviour s (chunk ! 3)) (\<lambda>rb.
             and_then (parse_disabled_layers s (chunk ! 4)) (\<lambda>ls.
               Inr \<lparr>cv_action = action, cv_keys = keys, cv_pending = timeout, cv_disabled_layers = ls,
                    cv_release = rb\<rparr>)))),
             keys # seen))"

fun parse_chord_chunks ::
  "nat \<Rightarrow> parser_state \<Rightarrow> sexpr list list \<Rightarrow> u16 list list \<Rightarrow> custom_action chord_v2 cfg_res list" where
  "parse_chord_chunks n s [] seen = []"
| "parse_chord_chunks n s (chunk # chunks) seen =
     (case parse_single_chord n s chunk seen of
        (r, seen') \<Rightarrow> r # parse_chord_chunks n s chunks seen')"

fun chunks_exact :: "nat \<Rightarrow> nat \<Rightarrow> 'a list \<Rightarrow> 'a list list" where
  "chunks_exact 0 k xs = []"
| "chunks_exact (Suc m) k xs = (if length xs < k then [] else take k xs # chunks_exact m k (drop k xs))"

text \<open>All chords are read before the first error is reported; reading may panic or not end.\<close>

definition all_chords :: "'a cfg_res list \<Rightarrow> 'a list cfg_res" where
  "all_chords rs =
     (case filter (\<lambda>r. r = Inl ParserPanic \<or> r = Inl NeverReturns) (map (map_sum id (\<lambda>_. ())) rs) of
        Inl f # _ \<Rightarrow> Inl f
      | _ \<Rightarrow> map_res id rs)"

definition chords_for_keys :: "'t chord_v2 list \<Rightarrow> u16 \<Rightarrow> 't chord_v2 list option" where
  "chords_for_keys cs k =
     (case concat (map (\<lambda>c. replicate (count_list (cv_keys c) k) c) cs) of [] \<Rightarrow> None | l \<Rightarrow> Some l)"

text \<open>\<open>included\<close> is the reading of a file of chords (\<open>ChordTranslation\<close>), which gives the chords as
  expressions; it needs the names of the keys on the first layer.\<close>

definition parse_defchordv2 ::
  "nat \<Rightarrow> (sexpr list \<Rightarrow> sexpr list list cfg_res) \<Rightarrow> sexpr list \<Rightarrow> parser_state
     \<Rightarrow> (u16 \<Rightarrow> custom_action chord_v2 list option) cfg_res" where
  "parse_defchordv2 n included expr s =
     (let es = tl expr in
      and_then
        (concat_map_res (\<lambda>chunk.
           if (case chunk ! 0 of SList l _ \<Rightarrow> first_atom l = Some ''include'' | _ \<Rightarrow> False)
           then included chunk else Inr [chunk]) (chunks_exact (length es) 5 es)) (\<lambda>chunks.
      and_then (all_chords (parse_chord_chunks n s chunks [])) (\<lambda>cs.
        if length es mod 5 \<noteq> 0 then Inl Rejected else Inr (chords_for_keys cs))))"

section \<open>The configuration\<close>

text \<open>What comes from outside: files, the environment, the standard library's functions on characters and
  numbers, the exit codes of commands, the build's features, the prefix searches of the library
  \<open>patricia_tree\<close>, and the reading of chord files.\<close>

record outside =
  ou_files :: file_system
  ou_env :: env_vars
  ou_case :: char_case
  ou_to_uppercase :: "string \<Rightarrow> string"
  ou_parse_f32 :: "string \<Rightarrow> f32_bits option"
  ou_exit_code :: "string list \<Rightarrow> int"
  ou_cmd_feature :: bool
  ou_glcp :: "kcoord patricia \<Rightarrow> u8 list \<Rightarrow> (u8 list \<times> kcoord) option"
  ou_lcpl :: "kcoord patricia \<Rightarrow> u8 list \<Rightarrow> nat"
  ou_included :: "kaction list \<Rightarrow> parser_state \<Rightarrow> sexpr list \<Rightarrow> sexpr list list cfg_res"

record intermediate_cfg =
  ic_options :: cfg_options
  ic_mapped_keys :: "u16 list"
  ic_layer_info :: "(string \<times> string option) list"
  ic_layers :: "kaction list list list"
  ic_sequences :: "kcoord patricia"
  ic_overrides :: overrides
  ic_chords_v2 :: "custom_action chords_v2 option"
  ic_start_action :: "kaction option"
  ic_zippy :: "(zch_possible_chords \<times> zch_config) option"
  ic_virtual_keys :: "(string \<times> kaction) list"
  ic_input_devices :: "(u8 \<times> input_device_matcher) list option"

definition initial_state ::
  "outside \<Rightarrow> cfg_options \<Rightarrow> (string \<times> u16) list \<Rightarrow> cfg_vars \<Rightarrow> string list
     \<Rightarrow> (u8 \<times> input_device_matcher) list option \<Rightarrow> parser_state" where
  "initial_state ou cfg names vs layers devices =
     \<lparr>ps_vars = vs, ps_aliases = Map.empty, ps_layer_idxs = (\<lambda>l. key_position l layers), ps_virtual_keys = [],
      ps_chord_groups = [], ps_is_cmd_enabled = ou_cmd_feature ou \<and> co_enable_cmd cfg,
      ps_default_sequence_timeout = co_sequence_timeout cfg,
      ps_default_sequence_input_mode = co_sequence_input_mode cfg, ps_multi_nest = 0,
      ps_input_devices = map_option (map fst) devices, ps_trans_forbidden = False, ps_hand_map = None,
      ps_osc = str_to_oscode names, ps_cmd_feature = ou_cmd_feature ou,
      ps_to_uppercase = ou_to_uppercase ou, ps_parse_f32 = ou_parse_f32 ou, ps_exit_code = ou_exit_code ou\<rparr>"

text \<open>The blocks that define what actions refer to, in the order in which they are read\<close>

definition parse_definitions :: "nat \<Rightarrow> outside \<Rightarrow> sexpr list list \<Rightarrow> parser_state \<Rightarrow> (parser_state \<times> kcoord patricia) cfg_res" where
  "parse_definitions n ou exprs s =
     and_then (at_most_one [''defhands''] exprs) (\<lambda>h.
     and_then (opt_res (\<lambda>l. parse_defhands l s) h) (\<lambda>hands.
     and_then (parse_chord_groups (items [''defchords''] exprs) (s\<lparr>ps_hand_map := hands\<rparr>)) (\<lambda>s1.
     and_then (parse_fake_keys n (items [''deffakekeys''] exprs) s1) (\<lambda>s2.
     and_then (parse_virtual_keys n (items [''defvirtualkeys''] exprs) s2) (\<lambda>s3.
     and_then (parse_sequences (parse_action n s3) (ps_vars s3) (virtual_key s3) n (ou_glcp ou) (ou_lcpl ou)
         (items [''defseq''] exprs)) (\<lambda>seqs.
     and_then (parse_aliases n (ou_env ou)
         (filter (\<lambda>l. \<exists>a. first_atom l = Some a \<and> take 8 a = ''defalias'') exprs) s3) (\<lambda>s4.
       Inr (s4, seqs))))))))"

definition start_action :: "cfg_options \<Rightarrow> parser_state \<Rightarrow> kaction option cfg_res" where
  "start_action cfg s =
     (case co_start_alias cfg of
        None \<Rightarrow> Inr None
      | Some a \<Rightarrow> and_then (or_reject (ps_aliases s a)) (\<lambda>ac. Inr (Some ac)))"

definition layer_options_of :: "cfg_options \<Rightarrow> layer_options" where
  "layer_options_of cfg =
     \<lparr>lo_process_unmapped_keys = co_process_unmapped_keys cfg,
      lo_block_unmapped_keys = co_block_unmapped_keys cfg, lo_windows = False\<rparr>"

definition detect_mode :: "u16 list \<Rightarrow> cfg_options \<Rightarrow> cfg_options" where
  "detect_mode mapped cfg =
     (if lx_device_detect_mode (co_linux_opts cfg) = None
      then cfg\<lparr>co_linux_opts := (co_linux_opts cfg)\<lparr>lx_device_detect_mode :=
             Some (if list_ex is_mouse_code mapped then DetectAny else DetectKeyboardMice)\<rparr>\<rparr>
      else cfg)"

definition parse_all_overrides :: "sexpr list list \<Rightarrow> parser_state \<Rightarrow> overrides cfg_res" where
  "parse_all_overrides exprs s =
     and_then (at_most_one [''defoverrides''] exprs) (\<lambda>v1.
     and_then (opt_res (\<lambda>l. parse_overrides l s) v1) (\<lambda>ovs.
     and_then (at_most_one [''defoverridesv2''] exprs) (\<lambda>v2.
       case v2 of
         None \<Rightarrow> Inr (unwrap_or ovs (overrides_new []))
       | Some l \<Rightarrow> if v1 \<noteq> None then Inl Rejected else parse_overridesv2 l s)))"

definition parse_chords_v2 ::
  "nat \<Rightarrow> outside \<Rightarrow> cfg_options \<Rightarrow> kaction list \<Rightarrow> sexpr list list \<Rightarrow> parser_state
     \<Rightarrow> custom_action chords_v2 option cfg_res" where
  "parse_chords_v2 n ou cfg first_layer exprs s =
     and_then (at_most_one [''defchordsv2'', ''defchordsv2-experimental''] exprs) (\<lambda>l.
     and_then (opt_res (\<lambda>l.
         and_then (parse_defchordv2 n (ou_included ou first_layer s) l (s\<lparr>ps_trans_forbidden := True\<rparr>)) (\<lambda>cs.
           case chords_v2_new cs (co_chords_v2_min_idle cfg) of Inl _ \<Rightarrow> Inl ParserPanic | Inr c \<Rightarrow> Inr c)) l)
       (\<lambda>cs. if cs \<noteq> None \<and> \<not> co_concurrent_tap_hold cfg then Inl Rejected else Inr cs))"

text \<open>From the items of the text on; \<open>file\<close> reads the chord file of zippychord.\<close>

definition parse_cfg_exprs ::
  "nat \<Rightarrow> outside \<Rightarrow> (string \<Rightarrow> string option) \<Rightarrow> sexpr list list \<Rightarrow> intermediate_cfg cfg_res" where
  "parse_cfg_exprs n ou file exprs =
     and_then (error_on_unknown_top_level_atoms exprs) (\<lambda>_.
     and_then (local_keys exprs) (\<lambda>names.
     and_then (at_most_one [''defcfg''] exprs) (\<lambda>defcfg.
     and_then (case defcfg of None \<Rightarrow> Inr cfg_default | Some l \<Rightarrow> parse_defcfg (str_to_oscode names) l) (\<lambda>cfg.
     and_then (and_then (at_most_one [''defsrc''] exprs) or_reject) (\<lambda>defsrc.
     and_then (parse_defsrc (str_to_oscode names) defsrc cfg) (\<lambda>(mapped, order).
     and_then (at_most_one [''definputdevices''] exprs) (\<lambda>devices_expr.
     and_then (parse_vars (items [''defvar''] exprs)) (\<lambda>vs.
     and_then (opt_res (\<lambda>l. parse_definputdevices l vs) devices_expr) (\<lambda>devices.
       let layers = map layer_expr_of (items [''deflayer'', ''deflayermap''] exprs) in
       if layers = [] then Inl Rejected
       else
         and_then (parse_layer_indexes vs (length order) layers []) (\<lambda>info.
         and_then (parse_definitions n ou exprs (initial_state ou cfg names vs (map fst info) devices)) (\<lambda>(s, seqs).
         and_then (start_action cfg s) (\<lambda>start.
         and_then (parse_layers n s order (layer_options_of cfg) layers mapped) (\<lambda>(klayers, mapped').
         and_then (resolve_chord_groups n s klayers) (\<lambda>klayers'.
         and_then (parse_all_overrides exprs s) (\<lambda>ovs.
         and_then (parse_chords_v2 n ou cfg (concat (take 1 (concat (take 1 klayers')))) exprs s) (\<lambda>cs.
         and_then (at_most_one [''defzippy'', ''defzippy-experimental''] exprs) (\<lambda>zippy_expr.
         and_then (opt_res (\<lambda>l. parse_zippy file (ou_case ou) l s) zippy_expr) (\<lambda>zippy.
           Inr \<lparr>ic_options = detect_mode mapped' cfg, ic_mapped_keys = mapped', ic_layer_info = info,
                ic_layers = klayers', ic_sequences = seqs, ic_overrides = ovs, ic_chords_v2 = cs,
                ic_start_action = start, ic_zippy = zippy, ic_virtual_keys = ps_virtual_keys s,
                ic_input_devices = devices\<rparr>))))))))))))))))))"

definition parse_cfg_raw_string ::
  "nat \<Rightarrow> outside \<Rightarrow> string list \<Rightarrow> string \<Rightarrow> intermediate_cfg cfg_res" where
  "parse_cfg_raw_string n ou loaded text =
     and_then (parsed_text text) (\<lambda>ts.
     and_then (expand_includes (ou_files ou) ts loaded) (\<lambda>(ts1, loaded').
     and_then (concat_map_res filter_platform ts1) (\<lambda>ts2.
     and_then (concat_map_res (filter_env (ou_env ou)) ts2) (\<lambda>ts3.
     and_then (expand_templates n ts3) (\<lambda>ts4.
       if items [''include''] (map fst ts4) \<noteq> [] then Inl Rejected
       else
         parse_cfg_exprs n ou
           (\<lambda>name. case get_file_content (ou_files ou) name loaded' of Inl _ \<Rightarrow> None | Inr (c, _) \<Rightarrow> Some c)
           (map fst ts4))))))"

definition parse_cfg_raw :: "nat \<Rightarrow> outside \<Rightarrow> string \<Rightarrow> intermediate_cfg cfg_res" where
  "parse_cfg_raw n ou file_name =
     and_then (get_file_content (ou_files ou) file_name []) (\<lambda>(text, loaded).
       parse_cfg_raw_string n ou loaded text)"

section \<open>The layout\<close>

text \<open>\<open>populate_cfg_with_icfg\<close>; building the layout may panic.\<close>

definition populate_layout :: "intermediate_cfg \<Rightarrow> custom_action layout res" where
  "populate_layout ic =
     and_then
       (layout_new create_defsrc_layer (ic_layers ic) (co_trans_resolution_behavior_v2 (ic_options ic))
          (co_delegate_to_first_layer (ic_options ic)))
       (\<lambda>l.
         Inr (l\<lparr>l_chords_v2 := ic_chords_v2 ic,
                l_quick_tap_hold := co_concurrent_tap_hold (ic_options ic),
                l_prior_idle := co_tap_hold_require_prior_idle (ic_options ic),
                l_oneshot := (l_oneshot l)\<lparr>osh_pause_delay := co_rapid_event_delay (ic_options ic)\<rparr>,
                l_action_queue :=
                  (case ic_start_action ic of None \<Rightarrow> [] | Some a \<Rightarrow> [((1, 0), 0, a, [])])\<rparr>))"

end
