(* ===== verification/KeyOutputs.thy ===== *)
theory KeyOutputs
  imports ConfigParser
begin

text \<open>
  The keys a physical key may output on a layer (\<open>parser/src/cfg/key_outputs.rs\<close>), which key repeat
  consults. The map from keys to their outputs is a function.
\<close>

type_synonym layer_outputs = "u16 \<rightharpoonup> u16 list"

definition add_kc_output :: "overrides \<Rightarrow> u16 \<Rightarrow> u16 \<Rightarrow> layer_outputs \<Rightarrow> layer_outputs" where
  "add_kc_output ovs slot osc outs =
     outs(slot \<mapsto> fold push_new (osc # output_non_mods_for_input_non_mod ovs osc) (unwrap_or (outs slot) []))"

fun action_outputs :: "u16 \<Rightarrow> kaction \<Rightarrow> u16 list" where
  "action_outputs slot (KeyCode kc) = [kc]"
| "action_outputs slot (HoldTap (HoldTapAction t hold tp timeout_action config i r p)) =
     action_outputs slot tp @ action_outputs slot hold @ action_outputs slot timeout_action"
| "action_outputs slot (OneShot (OneShotCfg ac t e)) = action_outputs slot ac"
| "action_outputs slot (MultipleKeyCodes kcs) = kcs"
| "action_outputs slot (MultipleActions acs) = concat (map (action_outputs slot) acs)"
| "action_outputs slot (TapDance (TapDanceCfg acs t c)) = concat (map (action_outputs slot) acs)"
| "action_outputs slot (Fork (ForkConfig left right triggers)) =
     action_outputs slot left @ action_outputs slot right"
| "action_outputs slot (Chords (ChordsGroup coords chords t)) =
     concat (map (\<lambda>(m, ac). action_outputs slot ac) chords)"
| "action_outputs slot (Switch (SwitchCfg init_fn cases callbacks)) =
     concat (map (\<lambda>(ops, ac, b). action_outputs slot ac) cases)"
| "action_outputs slot (Custom (Unmodded keys mods)) = keys"
| "action_outputs slot (Custom (Unshifted keys)) = keys"
| "action_outputs slot Src = [slot]"
| "action_outputs slot _ = []"

definition add_key_output_from_action_to_key_pos ::
  "overrides \<Rightarrow> u16 \<Rightarrow> kaction \<Rightarrow> layer_outputs \<Rightarrow> layer_outputs" where
  "add_key_output_from_action_to_key_pos ovs slot action outs =
     fold (add_kc_output ovs slot) (action_outputs slot action) outs"

definition add_chordsv2_output_for_key_pos ::
  "overrides \<Rightarrow> u16 \<Rightarrow> nat \<Rightarrow> custom_action chords_v2 option \<Rightarrow> layer_outputs \<Rightarrow> layer_outputs" where
  "add_chordsv2_output_for_key_pos ovs slot layer chords outs =
     (case Option.bind chords (\<lambda>c. c2_chords c slot) of
        None \<Rightarrow> outs
      | Some cs \<Rightarrow>
          fold (\<lambda>c outs.
            if of_nat layer \<in> set (cv_disabled_layers c) then outs
            else add_key_output_from_action_to_key_pos ovs slot (cv_action c) outs) cs outs)"

definition row_outputs ::
  "overrides \<Rightarrow> nat \<Rightarrow> custom_action chords_v2 option \<Rightarrow> kaction list \<Rightarrow> layer_outputs" where
  "row_outputs ovs layer chords row =
     fold (\<lambda>(i, action) outs.
       case from_u16 (of_nat i) of
         None \<Rightarrow> outs
       | Some slot \<Rightarrow>
           add_chordsv2_output_for_key_pos ovs slot layer chords
             (add_key_output_from_action_to_key_pos ovs slot action outs)) (enumerate 0 row) Map.empty"

text \<open>Layers without a row panic, as do too many of them.\<close>

definition create_key_outputs ::
  "kaction list list list \<Rightarrow> overrides \<Rightarrow> custom_action chords_v2 option \<Rightarrow> layer_outputs list cfg_res" where
  "create_key_outputs layers ovs chords =
     map_res (\<lambda>(i, layer).
       case layer of
         [] \<Rightarrow> Inl ParserPanic
       | row # _ \<Rightarrow> if i < 2 ^ 16 then Inr (row_outputs ovs i chords row) else Inl ParserPanic)
       (enumerate 0 layers)"

end
