(* ===== verification/ActionParserFacts.thy ===== *)
theory ActionParserFacts
  imports LayerParser
begin

text \<open>
  What every accepted action satisfies: the layers, virtual keys and chord groups it names exist, the
  times that must not be zero are not zero, and nested actions have the shapes the layout relies on.
\<close>

section \<open>Actions and the actions within them\<close>

fun children :: "'t action \<Rightarrow> 't action list" where
  "children (MultipleActions acs) = acs"
| "children (HoldTap h) = [hta_hold h, hta_tap h, hta_timeout_action h]"
| "children (OneShot oc) = [os_action oc]"
| "children (TapDance td) = td_actions td"
| "children (Chords g) = map snd (cg_chords g)"
| "children (Fork f) = [fork_left f, fork_right f]"
| "children (Switch sw) = map (\<lambda>(_, ac, _). ac) (sw_cases sw)"
| "children _ = []"

lemma size_children: "b \<in> set (children a) \<Longrightarrow> size b < size a"
proof (cases a)
  case (HoldTap h)
  then show "b \<in> set (children a) \<Longrightarrow> ?thesis" by (cases h) auto
next
  case (OneShot oc)
  then show "b \<in> set (children a) \<Longrightarrow> ?thesis" by (cases oc) auto
next
  case (TapDance td)
  then show "b \<in> set (children a) \<Longrightarrow> ?thesis" by (cases td) (auto dest: size_list_estimation' [of _ _ "size _" size])
next
  case (Fork f)
  then show "b \<in> set (children a) \<Longrightarrow> ?thesis" by (cases f) auto
next
  case (Chords g)
  then show "b \<in> set (children a) \<Longrightarrow> ?thesis"
    by (cases g) (auto dest!: size_list_estimation' [where f = "size_prod (\<lambda>x. 0) size", OF _ le_refl])
next
  case (Switch sw)
  then show "b \<in> set (children a) \<Longrightarrow> ?thesis"
    by (cases sw) (auto dest!: size_list_estimation' [where f = "size_prod (\<lambda>x. 0) (size_prod size (\<lambda>x. 0))", OF _ le_refl])
qed (auto dest: size_list_estimation' [where f = size, OF _ le_refl])

function every :: "('t action \<Rightarrow> bool) \<Rightarrow> 't action \<Rightarrow> bool" where
  "every P a \<longleftrightarrow> P a \<and> (\<forall>b\<in>set (children a). every P b)"
  by auto
termination
  by (relation "measure (size \<circ> snd)") (auto simp: size_children)

declare every.simps [simp del]

lemma every_mono: "every P a \<Longrightarrow> (\<And>b. P b \<Longrightarrow> Q b) \<Longrightarrow> every Q a"
proof (induction P a rule: every.induct)
  case (1 P a)
  then show ?case by (simp add: every.simps [of P a] every.simps [of Q a])
qed

text \<open>The recursion for each form of action\<close>

lemma every_simps [simp]:
  "every P NoOp \<longleftrightarrow> P NoOp" "every P Trans \<longleftrightarrow> P Trans" "every P (KeyCode kc) \<longleftrightarrow> P (KeyCode kc)"
  "every P (MultipleKeyCodes kcs) \<longleftrightarrow> P (MultipleKeyCodes kcs)"
  "every P (MultipleActions acs) \<longleftrightarrow> P (MultipleActions acs) \<and> (\<forall>a\<in>set acs. every P a)"
  "every P (Layer l) \<longleftrightarrow> P (Layer l)" "every P (DefaultLayer l) \<longleftrightarrow> P (DefaultLayer l)"
  "every P (Sequence evs) \<longleftrightarrow> P (Sequence evs)"
  "every P (RepeatableSequence evs) \<longleftrightarrow> P (RepeatableSequence evs)"
  "every P CancelSequences \<longleftrightarrow> P CancelSequences" "every P (ReleaseState r) \<longleftrightarrow> P (ReleaseState r)"
  "every P (HoldTap h) \<longleftrightarrow>
     P (HoldTap h) \<and> every P (hta_hold h) \<and> every P (hta_tap h) \<and> every P (hta_timeout_action h)"
  "every P (Custom c) \<longleftrightarrow> P (Custom c)"
  "every P (OneShot oc) \<longleftrightarrow> P (OneShot oc) \<and> every P (os_action oc)"
  "every P (OneShotIgnoreEventsTicks t) \<longleftrightarrow> P (OneShotIgnoreEventsTicks t)"
  "every P (TapDance td) \<longleftrightarrow> P (TapDance td) \<and> (\<forall>a\<in>set (td_actions td). every P a)"
  "every P (Chords g) \<longleftrightarrow> P (Chords g) \<and> (\<forall>(_, a)\<in>set (cg_chords g). every P a)"
  "every P Repeat \<longleftrightarrow> P Repeat"
  "every P (Fork f) \<longleftrightarrow> P (Fork f) \<and> every P (fork_left f) \<and> every P (fork_right f)"
  "every P (Switch sw) \<longleftrightarrow> P (Switch sw) \<and> (\<forall>(_, a, _)\<in>set (sw_cases sw). every P a)"
  "every P Src \<longleftrightarrow> P Src"
  by (subst every.simps, simp add: split_def)+

section \<open>What is required of an action\<close>

definition vkey_ok :: "nat \<Rightarrow> kcoord \<Rightarrow> bool" where
  "vkey_ok V c \<longleftrightarrow> fst c = FAKE_KEY_ROW \<and> unat (snd c) < V"

definition distance_ok :: "u16 \<Rightarrow> bool" where
  "distance_ok d \<longleftrightarrow> 1 \<le> d \<and> d \<le> 30000"

text \<open>\<open>V\<close> is the number of virtual keys.\<close>

fun custom_ok :: "nat \<Rightarrow> custom_action \<Rightarrow> bool" where
  "custom_ok V (FakeKeyOnPress c _) \<longleftrightarrow> vkey_ok V c"
| "custom_ok V (FakeKeyOnRelease c _) \<longleftrightarrow> vkey_ok V c"
| "custom_ok V (FakeKeyOnIdle i) \<longleftrightarrow> vkey_ok V (fki_coord i)"
| "custom_ok V (FakeKeyOnPhysicalIdle i) \<longleftrightarrow> vkey_ok V (fki_coord i) \<and> 0 < fki_idle_duration i"
| "custom_ok V (FakeKeyHoldForDuration h) \<longleftrightarrow> vkey_ok V (fkh_coord h) \<and> 0 < fkh_hold_duration h"
| "custom_ok V (MWheel _ interval distance _) \<longleftrightarrow> 0 < interval \<and> distance_ok distance"
| "custom_ok V (MoveMouse _ interval distance) \<longleftrightarrow> 0 < interval \<and> distance_ok distance"
| "custom_ok V (MoveMouseAccel _ interval accel_time min_distance max_distance) \<longleftrightarrow>
     0 < interval \<and> 0 < accel_time \<and> distance_ok min_distance \<and> distance_ok max_distance
     \<and> min_distance \<le> max_distance"
| "custom_ok V (MoveMouseSpeed speed) \<longleftrightarrow> 0 < speed"
| "custom_ok V (SequenceLeader timeout _) \<longleftrightarrow> 0 < timeout"
| "custom_ok V (SequenceNoerase k) \<longleftrightarrow> 0 < k"
| "custom_ok V (CapsWord cfg) \<longleftrightarrow> 0 < cwc_timeout cfg"
| "custom_ok V (Unmodded _ mods) \<longleftrightarrow> mods \<noteq> 0"
| "custom_ok V (Cmd cmd) \<longleftrightarrow> cmd \<noteq> []"
| "custom_ok V (CmdLog _ _ cmd) \<longleftrightarrow> cmd \<noteq> []"
| "custom_ok V (CmdOutputKeys cmd) \<longleftrightarrow> cmd \<noteq> []"
| "custom_ok V (ClipboardCmdSet cmd) \<longleftrightarrow> cmd \<noteq> []"
| "custom_ok V (ClipboardSaveCmdSet _ cmd) \<longleftrightarrow> cmd \<noteq> []"
| "custom_ok V (PushMessage m) \<longleftrightarrow> m \<noteq> []"
| "custom_ok V _ \<longleftrightarrow> True"

text \<open>A macro releases what it presses, ends with \<open>Complete\<close>, and its custom actions are as they must be.\<close>

definition macro_ok :: "nat \<Rightarrow> custom_action seq_event list \<Rightarrow> bool" where
  "macro_ok V evs \<longleftrightarrow>
     balanced evs \<and> evs \<noteq> [] \<and> last evs = SeqComplete \<and> (\<forall>c. SeqCustom c \<in> set evs \<longrightarrow> custom_ok V c)"

definition is_multi :: "'t action \<Rightarrow> bool" where
  "is_multi a \<longleftrightarrow> (case a of MultipleActions _ \<Rightarrow> True | _ \<Rightarrow> False)"

definition is_mouse :: "kaction \<Rightarrow> bool" where
  "is_mouse a \<longleftrightarrow> (case a of Custom (Mouse _) \<Rightarrow> True | _ \<Rightarrow> False)"

text \<open>At most one action of a \<open>multi\<close> waits for later events and at most one holds a mouse button.\<close>

definition multi_ok :: "kaction list \<Rightarrow> bool" where
  "multi_ok acs \<longleftrightarrow> (\<forall>a\<in>set acs. \<not> is_multi a) \<and> length (filter waits acs) \<le> 1
     \<and> length (filter is_mouse acs) \<le> 1"

definition one_shot_able :: "'t action \<Rightarrow> bool" where
  "one_shot_able a \<longleftrightarrow> (case a of Layer _ \<Rightarrow> True | KeyCode _ \<Rightarrow> True | MultipleKeyCodes _ \<Rightarrow> True | _ \<Rightarrow> False)"

text \<open>\<open>L\<close> is the number of layers.\<close>

fun well_formed :: "nat \<Rightarrow> nat \<Rightarrow> kaction \<Rightarrow> bool" where
  "well_formed L V (Layer l) \<longleftrightarrow> l < L"
| "well_formed L V (DefaultLayer l) \<longleftrightarrow> l < L"
| "well_formed L V (ReleaseState (RsLayer l)) \<longleftrightarrow> l < L"
| "well_formed L V (MultipleActions acs) \<longleftrightarrow> multi_ok acs"
| "well_formed L V (Sequence evs) \<longleftrightarrow> macro_ok V evs"
| "well_formed L V (RepeatableSequence evs) \<longleftrightarrow> macro_ok V evs"
| "well_formed L V (HoldTap h) \<longleftrightarrow> 0 < hta_timeout h \<and> \<not> is_hold_tap (hta_tap h)"
| "well_formed L V (OneShot oc) \<longleftrightarrow> 0 < os_timeout oc \<and> one_shot_able (os_action oc)"
| "well_formed L V (OneShotIgnoreEventsTicks t) \<longleftrightarrow> 0 < t"
| "well_formed L V (TapDance td) \<longleftrightarrow> 0 < td_timeout td"
| "well_formed L V (Chords g) \<longleftrightarrow> 0 < cg_timeout g"
| "well_formed L V (Custom c) \<longleftrightarrow> custom_ok V c"
| "well_formed L V _ \<longleftrightarrow> True"

definition action_ok :: "nat \<Rightarrow> nat \<Rightarrow> kaction \<Rightarrow> bool" where
  "action_ok L V = every (well_formed L V)"

text \<open>The parser's state refers to at most \<open>L\<close> layers and \<open>V\<close> virtual keys.\<close>

definition parser_ok :: "nat \<Rightarrow> nat \<Rightarrow> parser_state \<Rightarrow> bool" where
  "parser_ok L V s \<longleftrightarrow>
     (\<forall>name i. ps_layer_idxs s name = Some i \<longrightarrow> i < L)
     \<and> length (ps_virtual_keys s) \<le> V \<and> V \<le> 2 ^ 16
     \<and> (\<forall>alias a. ps_aliases s alias = Some a \<longrightarrow> action_ok L V a)
     \<and> (\<forall>(_, a)\<in>set (ps_virtual_keys s). action_ok L V a)
     \<and> (\<forall>(_, g)\<in>set (ps_chord_groups s). 0 < cgr_timeout g)
     \<and> 0 < ps_default_sequence_timeout s"

definition reads_ok :: "nat \<Rightarrow> nat \<Rightarrow> (parser_state \<Rightarrow> sexpr \<Rightarrow> kaction cfg_res) \<Rightarrow> bool" where
  "reads_ok L V pa \<longleftrightarrow> (\<forall>s e a. parser_ok L V s \<longrightarrow> pa s e = Inr a \<longrightarrow> action_ok L V a)"

text \<open>A parser of the parameters of a list is good if what it accepts is.\<close>

definition accepts_ok :: "nat \<Rightarrow> nat \<Rightarrow> ('p \<Rightarrow> kaction cfg_res) \<Rightarrow> bool" where
  "accepts_ok L V p \<longleftrightarrow> (\<forall>params a. p params = Inr a \<longrightarrow> action_ok L V a)"

lemma accepts_okI: "(\<And>params a. p params = Inr a \<Longrightarrow> action_ok L V a) \<Longrightarrow> accepts_ok L V p"
  by (simp add: accepts_ok_def)

section \<open>The parsers that carry data\<close>

lemma action_ok_simps [simp]:
  "action_ok L V NoOp" "action_ok L V Trans" "action_ok L V (KeyCode kc)" "action_ok L V (MultipleKeyCodes kcs)"
  "action_ok L V Repeat" "action_ok L V Src" "action_ok L V CancelSequences"
  "action_ok L V (Custom c) \<longleftrightarrow> custom_ok V c"
  "action_ok L V (Layer l) \<longleftrightarrow> l < L" "action_ok L V (DefaultLayer l) \<longleftrightarrow> l < L"
  "action_ok L V (ReleaseState (RsLayer l)) \<longleftrightarrow> l < L" "action_ok L V (ReleaseState (RsKeyCode kc))"
  "action_ok L V (OneShotIgnoreEventsTicks t) \<longleftrightarrow> 0 < t"
  "action_ok L V (Sequence evs) \<longleftrightarrow> macro_ok V evs"
  "action_ok L V (RepeatableSequence evs) \<longleftrightarrow> macro_ok V evs"
  "action_ok L V (MultipleActions acs) \<longleftrightarrow> multi_ok acs \<and> (\<forall>a\<in>set acs. action_ok L V a)"
  "action_ok L V (HoldTap h) \<longleftrightarrow> 0 < hta_timeout h \<and> \<not> is_hold_tap (hta_tap h)
     \<and> action_ok L V (hta_hold h) \<and> action_ok L V (hta_tap h) \<and> action_ok L V (hta_timeout_action h)"
  "action_ok L V (OneShot oc) \<longleftrightarrow> 0 < os_timeout oc \<and> one_shot_able (os_action oc) \<and> action_ok L V (os_action oc)"
  "action_ok L V (TapDance td) \<longleftrightarrow> 0 < td_timeout td \<and> (\<forall>a\<in>set (td_actions td). action_ok L V a)"
  "action_ok L V (Chords g) \<longleftrightarrow> 0 < cg_timeout g \<and> (\<forall>(_, a)\<in>set (cg_chords g). action_ok L V a)"
  "action_ok L V (Fork f) \<longleftrightarrow> action_ok L V (fork_left f) \<and> action_ok L V (fork_right f)"
  "action_ok L V (Switch sw) \<longleftrightarrow> (\<forall>(_, a, _)\<in>set (sw_cases sw). action_ok L V a)"
  by (simp_all add: action_ok_def split_def)

lemma parser_okD:
  assumes "parser_ok L V s"
  shows "ps_layer_idxs s name = Some i \<Longrightarrow> i < L" "i < length (ps_virtual_keys s) \<Longrightarrow> i < V" "V \<le> 65536"
    "ps_aliases s alias = Some a \<Longrightarrow> action_ok L V a" "(vk, a) \<in> set (ps_virtual_keys s) \<Longrightarrow> action_ok L V a"
    "map_of (ps_chord_groups s) name = Some g \<Longrightarrow> 0 < cgr_timeout g" "0 < ps_default_sequence_timeout s"
  using assms by (auto simp: parser_ok_def dest!: map_of_SomeD)

lemma parse_vkey_coord_ok:
  assumes "parser_ok L V s" and "parse_vkey_coord s e = Inr c"
  shows "vkey_ok V c"
proof -
  obtain name y where "virtual_key s name = Some y" "c = get_fake_key_coords y"
    using assms(2) by (auto simp: parse_vkey_coord_def and_then_Inr_iff)
  moreover from this have "y < V" using parser_okD(2) [OF assms(1)] virtual_key_less by blast
  ultimately show ?thesis using parser_okD(3) [OF assms(1)]
    by (simp add: vkey_ok_def get_fake_key_coords_def unat_of_nat)
qed

lemma distance_ok_1 [simp]: "distance_ok 1"
  by (simp add: distance_ok_def)

lemma parse_distance_ok: "parse_distance s e = Inr d \<Longrightarrow> distance_ok d"
  by (auto simp: parse_distance_def and_then_Inr_iff distance_ok_def split: if_splits)

lemma custom_Inr [simp]: "custom c = Inr a \<longleftrightarrow> a = Custom c"
  by (auto simp: custom_def)

named_theorems parser_defs \<open>the parsers of the actions\<close>

lemmas [parser_defs] = parse_on_press_fake_key_op_def parse_on_release_fake_key_op_def
  parse_fake_key_op_coord_action_def parse_on_idle_fakekey_def parse_on_press_def parse_on_release_def
  parse_idle_params_def parse_on_idle_def parse_on_physical_idle_def parse_hold_for_duration_def parse_delay_def
  parse_fake_key_delay_def parse_on_release_fake_key_delay_def parse_mwheel_def parse_mwheel_accel_def
  parse_move_mouse_def parse_move_mouse_accel_def parse_move_mouse_speed_def parse_set_mouse_def one_u16_def
  parse_sequence_noerase_def parse_dynamic_macro_record_def parse_dynamic_macro_play_def parse_arbitrary_code_def
  parse_live_reload_num_def parse_clipboard_save_def parse_clipboard_restore_def one_string_def
  parse_live_reload_file_def parse_clipboard_set_def parse_clipboard_save_swap_def parse_clipboard_save_set_def
  parse_sequence_start_def parse_cmd_log_def some_strings_def parse_cmd_def parse_caps_word_def
  parse_caps_word_custom_def parse_unmod_def parse_unicode_def parse_release_layer_def parse_layer_base_def
  parse_layer_toggle_def layer_idx_def parse_chord_def parse_one_shot_pause_processing_def
  parse_macro_record_stop_truncate_def parse_push_message_def

lemma to_simple_expr_length: "to_simple_expr n vs params = Inr m \<Longrightarrow> length m = length params"
  by (cases n) (auto simp: map_res_Inr dest: list_all2_lengthD)

lemma data_parsers_ok:
  assumes "parser_ok L V s"
  shows
    "accepts_ok L V (parse_layer_base s)" "accepts_ok L V (parse_layer_toggle s)"
    "accepts_ok L V (parse_release_layer s)" "accepts_ok L V (parse_chord s)"
    "accepts_ok L V (parse_one_shot_pause_processing s)"
    "accepts_ok L V (parse_on_press_fake_key_op s)" "accepts_ok L V (parse_on_release_fake_key_op s)"
    "accepts_ok L V (parse_fake_key_delay s)" "accepts_ok L V (parse_on_release_fake_key_delay s)"
    "accepts_ok L V (parse_on_idle_fakekey s)" "accepts_ok L V (parse_on_press s)"
    "accepts_ok L V (parse_on_release s)" "accepts_ok L V (parse_on_idle s)"
    "accepts_ok L V (parse_on_physical_idle s)" "accepts_ok L V (parse_hold_for_duration s)"
  by (intro accepts_okI;
      auto simp: parser_defs and_then_Inr_iff split_def split: if_splits list.splits
        dest: parse_vkey_coord_ok [OF assms] parse_non_zero_u16_pos parser_okD(1,6) [OF assms])+

lemma more_data_parsers_ok:
  shows
    "accepts_ok L V (parse_mwheel w s)" "accepts_ok L V (parse_mwheel_accel w s)"
    "accepts_ok L V (parse_move_mouse m s)" "accepts_ok L V (parse_move_mouse_accel m s)"
    "accepts_ok L V (parse_move_mouse_speed s)" "accepts_ok L V (parse_set_mouse s)"
    "accepts_ok L V (parse_dynamic_macro_record s)" "accepts_ok L V (parse_dynamic_macro_play s)"
    "accepts_ok L V (parse_arbitrary_code s)" "accepts_ok L V (parse_sequence_noerase s)"
    "accepts_ok L V (parse_live_reload_num s)" "accepts_ok L V parse_live_reload_file"
    "accepts_ok L V parse_clipboard_set" "accepts_ok L V (parse_clipboard_save s)"
    "accepts_ok L V (parse_clipboard_restore s)" "accepts_ok L V (parse_clipboard_save_set s)"
    "accepts_ok L V (parse_clipboard_save_swap s)" "accepts_ok L V (parse_macro_record_stop_truncate vs)"
    "accepts_ok L V (parse_caps_word r s)" "accepts_ok L V (parse_caps_word_custom r s)"
    "accepts_ok L V (parse_cmd_log n s)"
  by (intro accepts_okI;
      auto simp: parser_defs and_then_Inr_iff split_def
        split: if_splits list.splits dest: parse_non_zero_u16_pos parse_distance_ok intro: leI)+

lemma parse_unicode_ok: "accepts_ok L V (parse_unicode s)"
proof (rule accepts_okI)
  fix params a assume p: "parse_unicode s params = Inr a"
  then obtain t where "need_atom (ps_vars s) (params ! 0) = Inr t" "length params = 1"
    by (auto simp: parse_unicode_def and_then_Inr_iff split: if_splits)
  with p show "action_ok L V a"
    by (auto simp: parse_unicode_def and_then_Inr_iff split: list.split_asm)
qed

lemma parse_cmd_ok: "accepts_ok L V (parse_cmd ty n s)"
  by (cases ty; intro accepts_okI;
      auto simp: parse_cmd_def some_strings_def and_then_Inr_iff split: if_splits)

lemma parse_push_message_ok: "accepts_ok L V (parse_push_message n s)"
  by (intro accepts_okI) (auto simp: parse_push_message_def and_then_Inr_iff dest!: to_simple_expr_length split: if_splits)

lemma parse_unmod_ok: "accepts_ok L V (parse_unmod b s)"
  by (intro accepts_okI)
    (auto simp: parse_unmod_def and_then_Inr_iff split: if_splits list.splits option.splits)

lemma parse_sequence_start_ok: "parser_ok L V s \<Longrightarrow> accepts_ok L V (parse_sequence_start s)"
  by (intro accepts_okI)
    (auto simp: parse_sequence_start_def and_then_Inr_iff dest: parse_non_zero_u16_pos split: if_splits)

section \<open>Macros\<close>

text \<open>The custom actions in a macro are those the parser of actions has accepted.\<close>

definition item_customs ::
  "('t \<Rightarrow> bool) \<Rightarrow> (sexpr list \<Rightarrow> ('t seq_event list \<times> sexpr list) cfg_res) \<Rightarrow> bool" where
  "item_customs Q item \<longleftrightarrow>
     (\<forall>acs evs rem. item acs = Inr (evs, rem) \<longrightarrow> (\<forall>c. SeqCustom c \<in> set evs \<longrightarrow> Q c))"

lemma item_customsD: "item_customs Q item \<Longrightarrow> item acs = Inr (evs, rem) \<Longrightarrow> SeqCustom c \<in> set evs \<Longrightarrow> Q c"
  by (auto simp: item_customs_def)

lemma while_items_customs:
  "item_customs Q item \<Longrightarrow> while_items item es = Inr evs \<Longrightarrow> SeqCustom c \<in> set evs \<Longrightarrow> Q c"
proof -
  have "item_customs Q item \<Longrightarrow> items_within k item es = Inr evs \<Longrightarrow> SeqCustom c \<in> set evs \<Longrightarrow> Q c" for k
  proof (induction k item es arbitrary: evs rule: items_within.induct)
    case (3 k item e es)
    then show ?case by (auto simp: and_then_Inr_iff dest: item_customsD)
  qed auto
  then show "item_customs Q item \<Longrightarrow> while_items item es = Inr evs \<Longrightarrow> SeqCustom c \<in> set evs \<Longrightarrow> Q c"
    by (simp add: while_items_def)
qed

lemma macro_submacro_customs:
  assumes "item_customs Q item" and "macro_submacro item vs e rem = Inr (evs, rem')" and "SeqCustom c \<in> set evs"
  shows "Q c"
  using assms(2,3) while_items_customs [OF assms(1)]
  by (auto simp: macro_submacro_def and_then_Inr_iff split: option.splits if_splits list.splits)

text \<open>The custom actions that the parser of actions accepts satisfy \<open>Q\<close>.\<close>

definition reads_customs :: "('t \<Rightarrow> bool) \<Rightarrow> (sexpr \<Rightarrow> 't action cfg_res) \<Rightarrow> bool" where
  "reads_customs Q pa \<longleftrightarrow> (\<forall>e c. pa e = Inr (Custom c) \<longrightarrow> Q c)"

lemma macro_action_customs:
  assumes "reads_customs Q pa" and "item_customs Q item"
    and "macro_action item pa vs e rem = Inr (evs, rem')" and "SeqCustom c \<in> set evs"
  shows "Q c"
  using assms(1,3,4) macro_submacro_customs [OF assms(2)]
  by (auto simp: reads_customs_def macro_action_def split: sum.splits action.splits cfg_fault.splits)

lemma macro_delay_not_custom: "macro_delay vs e \<noteq> Inr (Some (SeqCustom c))"
  by (auto simp: macro_delay_def and_then_Inr_iff split: if_splits option.splits sum.splits cfg_fault.splits)

lemma parse_macro_item_customs:
  assumes "reads_customs Q pa"
  shows "item_customs Q (parse_macro_item_impl pa vs n delays)"
proof (induction n arbitrary: delays)
  case (Suc n)
  show ?case unfolding item_customs_def
  proof (intro allI impI)
    fix acs :: "sexpr list" and evs rem c
    assume r: "parse_macro_item_impl pa vs (Suc n) delays acs = Inr (evs, rem)" and c: "SeqCustom c \<in> set evs"
    from r obtain e es where acs: "acs = e # es" by (cases acs) auto
    with r obtain d where "(if delays then macro_delay vs e else Inr None) = Inr d"
      "case d of Some ev \<Rightarrow> evs = [ev]
        | None \<Rightarrow> macro_action (parse_macro_item_impl pa vs n True) pa vs e es = Inr (evs, rem)"
      by (auto simp: and_then_Inr_iff split: option.splits)
    then show "Q c" using c macro_action_customs [OF assms Suc.IH]
      by (auto simp: macro_delay_not_custom split: if_splits option.splits)
  qed
qed (simp add: item_customs_def)

lemma macro_events_ok:
  assumes "reads_customs (custom_ok V) pa" and "macro_events pa vs n ac_params = Inr evs"
  shows "macro_ok V evs"
proof -
  from assms(2) obtain evs' where e: "while_items (parse_macro_item pa vs n) ac_params = Inr evs'"
    "evs = evs' @ [SeqComplete]"
    by (auto simp: macro_events_def and_then_Inr_iff split: if_splits)
  have "custom_ok V c" if "SeqCustom c \<in> set evs" for c
    using that e while_items_customs [OF parse_macro_item_customs [OF assms(1)]]
    unfolding parse_macro_item_def by auto
  then show ?thesis using e(2) macro_events_balanced(1) [OF assms(2)] by (auto simp: macro_ok_def)
qed

lemma macro_multi_ok: "multi_ok [Sequence evs, Custom CancelMacroOnRelease]"
  "multi_ok [RepeatableSequence evs, Custom CancelMacroOnRelease]"
  "multi_ok [Sequence evs, Custom (CancelMacroOnNextPress d)]"
  "multi_ok [RepeatableSequence evs, Custom (CancelMacroOnNextPress d)]"
  "multi_ok [Sequence evs, Custom CancelMacroOnRelease, Custom (CancelMacroOnNextPress d)]"
  "multi_ok [RepeatableSequence evs, Custom CancelMacroOnRelease, Custom (CancelMacroOnNextPress d)]"
  by (simp_all add: multi_ok_def is_multi_def is_mouse_def waits_def)

lemma macro_parsers_ok:
  assumes "reads_customs (custom_ok V) pa"
  shows "accepts_ok L V (parse_macro pa vs n r)" "accepts_ok L V (parse_macro_release_cancel pa vs n r)"
    "accepts_ok L V (parse_macro_cancel_on_next_press pa vs n r)"
    "accepts_ok L V (parse_macro_cancel_on_next_press_cancel_on_release pa vs n r)"
  by (cases r; intro accepts_okI;
      auto simp: parse_macro_def parse_macro_release_cancel_def parse_macro_cancel_on_next_press_def
        parse_macro_cancel_on_next_press_cancel_on_release_def and_then_Inr_iff macro_multi_ok
      dest: macro_events_ok [OF assms])+

section \<open>Actions that hold actions\<close>

lemma reads_okD: "reads_ok L V pa \<Longrightarrow> parser_ok L V s \<Longrightarrow> pa s e = Inr a \<Longrightarrow> action_ok L V a"
  by (simp add: reads_ok_def)

lemma map_reads_ok:
  assumes "reads_ok L V pa" and "parser_ok L V s" and "map_res (pa s) es = Inr acs"
  shows "\<forall>a\<in>set acs. action_ok L V a"
  using assms(3)
proof (induction es arbitrary: acs)
  case (Cons e es)
  then show ?case using reads_okD [OF assms(1,2)] by (auto simp: and_then_Inr_iff)
qed simp

lemma tap_hold_params_ok:
  assumes "reads_ok L V pa" and "parser_ok L V s"
    and "tap_hold_params pa t s ac_params = Inr (r, timeout, tp, hld)"
  shows "action_ok L V tp \<and> action_ok L V hld \<and> t (ac_params ! 1) = Inr timeout"
  using assms(3) by (auto simp: tap_hold_params_def and_then_Inr_iff dest: reads_okD [OF assms(1,2)])

lemma hold_tap_parsers_ok:
  assumes "reads_ok L V pa" and "parser_ok L V s"
  shows "accepts_ok L V (parse_tap_hold pa config s)" "accepts_ok L V (parse_tap_hold_order pa s)"
    "accepts_ok L V (parse_tap_hold_keys pa f s)" "accepts_ok L V (parse_tap_hold_keys_trigger_tap_release pa s)"
    "accepts_ok L V (parse_tap_hold_keys_named_lists pa s)" "accepts_ok L V (parse_tap_hold_timeout pa config s)"
  by (intro accepts_okI;
      auto simp: parse_tap_hold_def parse_tap_hold_order_def parse_tap_hold_keys_def
        parse_tap_hold_keys_trigger_tap_release_def parse_tap_hold_keys_named_lists_def parse_tap_hold_timeout_def
        and_then_Inr_iff Let_def split: if_splits
        dest!: tap_hold_params_ok [OF assms] reads_okD [OF assms] parse_non_zero_u16_pos)+

lemma timeout_actionD:
  "(case d of DecideTap \<Rightarrow> Inr x | DecideHold \<Rightarrow> Inr y | DecideIgnore \<Rightarrow> Inl f) = Inr z \<Longrightarrow> z = x \<or> z = y"
  by (cases d) auto

lemma parse_opposite_hand_ok:
  assumes "reads_ok L V pa" and "parser_ok L V s"
  shows "accepts_ok L V (parse_opposite_hand f pa s)"
  by (intro accepts_okI)
    (auto simp: parse_opposite_hand_def and_then_Inr_iff split: if_splits
      dest!: timeout_actionD reads_okD [OF assms] parse_non_zero_u16_pos)

lemma parse_tap_dance_ok:
  assumes "reads_ok L V pa" and "parser_ok L V s"
  shows "accepts_ok L V (parse_tap_dance pa config s)"
  by (intro accepts_okI)
    (auto simp: parse_tap_dance_def and_then_Inr_iff split: if_splits
      dest!: map_reads_ok [OF assms] parse_non_zero_u16_pos)

lemma parse_one_shot_ok:
  assumes "reads_ok L V pa" and "parser_ok L V s"
  shows "accepts_ok L V (parse_one_shot pa config s)"
proof (rule accepts_okI)
  fix params a assume p: "parse_one_shot pa config s params = Inr a"
  then obtain timeout ac where "non_zero_u16_of s (params ! 0) = Inr timeout" "pa s (params ! 1) = Inr ac"
    by (auto simp: parse_one_shot_def and_then_Inr_iff split: if_splits)
  with p show "action_ok L V a"
    by (cases ac)
      (auto simp: parse_one_shot_def one_shot_able_def split: if_splits
        dest!: reads_okD [OF assms] parse_non_zero_u16_pos)
qed

lemma parse_fork_ok:
  assumes "reads_ok L V pa" and "parser_ok L V s"
  shows "accepts_ok L V (parse_fork pa s)"
  by (intro accepts_okI)
    (auto simp: parse_fork_def and_then_Inr_iff split: if_splits dest!: reads_okD [OF assms])

lemma parse_release_key_ok: "accepts_ok L V (parse_release_key pa s)"
proof (rule accepts_okI)
  fix params a assume p: "parse_release_key pa s params = Inr a"
  then obtain ac where "pa s (params ! 0) = Inr ac"
    by (auto simp: parse_release_key_def and_then_Inr_iff split: if_splits)
  with p show "action_ok L V a" by (cases ac) (auto simp: parse_release_key_def split: if_splits)
qed

lemma parse_switch_cases_ok:
  assumes "reads_ok L V pa" and "parser_ok L V s"
  shows "parse_switch_cases pa s params callbacks = Inr (cs, callbacks') \<Longrightarrow> \<forall>(_, a, _)\<in>set cs. action_ok L V a"
  using assms
proof (induction pa s params callbacks arbitrary: cs callbacks' rule: parse_switch_cases.induct)
  case (4 pa s key_match action b params callbacks)
  from 4(2) obtain ops ac brk cs' cb cb' where r: "pa s action = Inr ac" "cs = (ops, ac, brk) # cs'"
    "parse_switch_cases pa s params cb = Inr (cs', cb')"
    by (auto simp: and_then_Inr_iff)
  have "action_ok L V ac" by (rule reads_okD [OF 4(3,4) r(1)])
  then show ?case using 4(1) [OF r(3) 4(3,4)] r(2) by simp
qed auto

lemma parse_switch_ok:
  assumes "reads_ok L V pa" and "parser_ok L V s"
  shows "accepts_ok L V (parse_switch pa n s)"
  by (intro accepts_okI) (auto simp: parse_switch_def and_then_Inr_iff dest!: parse_switch_cases_ok [OF assms])

lemma flatten_multi_ok:
  "action_ok L V a \<Longrightarrow> b \<in> set (flatten_multi a) \<Longrightarrow> action_ok L V b \<and> \<not> is_multi b"
  by (cases a) (force simp: flatten_multi_def multi_ok_def is_multi_def)+

lemma tap_earlier_buttons_in:
  "b \<in> set (tap_earlier_buttons seen acs) \<Longrightarrow> b \<in> set acs \<or> (\<exists>m. b = Custom (MouseTap m))"
  by (induction seen acs rule: tap_earlier_buttons.induct) (auto split: if_splits)

lemma tap_earlier_buttons_mouse:
  "length (filter is_mouse (tap_earlier_buttons seen acs)) \<le> (if seen then 0 else 1)"
  by (induction seen acs rule: tap_earlier_buttons.induct) (auto simp: is_mouse_def)

lemma parse_multi_ok:
  assumes "reads_ok L V pa" and "parser_ok L V s"
  shows "accepts_ok L V (parse_multi pa s)"
proof (rule accepts_okI)
  fix params a assume "parse_multi pa s params = Inr a"
  then obtain acs where acs: "map_res (pa (s\<lparr>ps_multi_nest := sat_add (ps_multi_nest s) 1\<rparr>)) params = Inr acs"
    and w: "length (filter waits (rev (tap_earlier_buttons False (rev (concat (map flatten_multi acs)))))) \<le> 1"
    and a: "a = MultipleActions (rev (tap_earlier_buttons False (rev (concat (map flatten_multi acs)))))"
    by (auto simp: parse_multi_def Let_def and_then_Inr_iff not_less split: if_splits)
  define bs where "bs = concat (map flatten_multi acs)"
  have "parser_ok L V (s\<lparr>ps_multi_nest := sat_add (ps_multi_nest s) 1\<rparr>)"
    using assms(2) by (simp add: parser_ok_def)
  from map_reads_ok [OF assms(1) this acs] have "\<forall>b\<in>set bs. action_ok L V b \<and> \<not> is_multi b"
    by (auto simp: bs_def dest: flatten_multi_ok)
  then have "action_ok L V b \<and> \<not> is_multi b" if "b \<in> set (tap_earlier_buttons False (rev bs))" for b
    using tap_earlier_buttons_in [OF that] by (auto simp: is_multi_def)
  moreover have "length (filter is_mouse (rev (tap_earlier_buttons False (rev bs)))) \<le> 1"
    using tap_earlier_buttons_mouse [of False "rev bs"] by (simp flip: rev_filter)
  ultimately show "action_ok L V a" using w unfolding a bs_def [symmetric] by (simp add: multi_ok_def)
qed

section \<open>All actions\<close>

lemma atom_actions_ok: "list_all (\<lambda>(_, a). action_ok L V a) atom_actions"
  by (simp add: atom_actions_def)

lemma assoc_names_in: "assoc_names table name = Some x \<Longrightarrow> \<exists>names. (names, x) \<in> set table \<and> name \<in> set names"
  unfolding assoc_names_def find_Some_iff map_option_eq_Some
  by (metis nth_mem prod.collapse)

lemma parse_action_atom_ok:
  assumes "parser_ok L V s" and "parse_action_atom s ac = Inr a"
  shows "action_ok L V a"
proof -
  have "action_ok L V b" if "assoc_names atom_actions ac = Some b" for b
    using assoc_names_in [OF that] atom_actions_ok [of L V] by (auto simp: list_all_iff)
  then show ?thesis using assms(2) parser_okD [OF assms(1)]
    by (auto simp: parse_action_atom_def parse_output_chord_def and_then_Inr_iff
        split: if_splits option.splits list.splits)
qed

lemma list_actions_ok:
  assumes "reads_ok L V pa" and "parser_ok L V s"
  shows "list_all (\<lambda>(_, p). accepts_ok L V p) (list_actions n pa s)"
proof -
  have "reads_customs (custom_ok V) (pa s)"
    using reads_okD [OF assms, of _ "Custom _"] by (simp add: reads_customs_def)
  then show ?thesis unfolding list_actions_def
    using assms
    by (simp add: data_parsers_ok more_data_parsers_ok hold_tap_parsers_ok macro_parsers_ok parse_multi_ok
        parse_tap_dance_ok parse_one_shot_ok parse_fork_ok parse_release_key_ok parse_switch_ok parse_unicode_ok
        parse_cmd_ok parse_push_message_ok parse_unmod_ok parse_sequence_start_ok parse_opposite_hand_ok
        parse_tap_hold_opposite_hand_def parse_tap_hold_opposite_hand_release_def)
qed

lemma parse_action_list_ok:
  assumes "reads_ok L V pa" and "parser_ok L V s" and "parse_action_list n pa s ac = Inr a"
  shows "action_ok L V a"
  using assms(3) list_actions_ok [OF assms(1,2), of n]
  by (auto simp: parse_action_list_def and_then_Inr_iff list_all_iff accepts_ok_def
      split: list.splits if_splits option.splits dest!: assoc_names_in)

lemma reads_parse_action: "reads_ok L V (parse_action n)"
proof (induction n)
  case (Suc n)
  show ?case unfolding reads_ok_def
    by (auto simp: and_then_Inr_iff split: option.splits
        intro: parse_action_atom_ok parse_action_list_ok [OF Suc.IH])
qed (simp add: reads_ok_def)

end
