(* ===== verification/ConfigFacts.thy ===== *)
theory ConfigFacts
  imports KeyOutputs ActionParserFacts
begin

text \<open>
  What an accepted configuration satisfies: the shape of its layers, the actions on them, the layers,
  virtual keys and chords that they name.
\<close>

section \<open>What a result satisfies\<close>

definition yields :: "('a \<Rightarrow> bool) \<Rightarrow> 'e + 'a \<Rightarrow> bool" where
  "yields P m \<longleftrightarrow> (\<forall>x. m = Inr x \<longrightarrow> P x)"

lemma yields_intros:
  "yields P (Inl f)" "P x \<Longrightarrow> yields P (Inr x)" "(b \<Longrightarrow> yields P m) \<Longrightarrow> (\<not> b \<Longrightarrow> yields P m') \<Longrightarrow> yields P (if b then m else m')"
  "(\<And>z. r = Inr z \<Longrightarrow> yields P (k z)) \<Longrightarrow> yields P (and_then r k)"
  "yields P m \<Longrightarrow> (\<And>y. v = Some y \<Longrightarrow> yields P (h y)) \<Longrightarrow> yields P (case v of None \<Rightarrow> m | Some y \<Rightarrow> h y)"
  by (auto simp: yields_def and_then_Inr_iff split: option.splits)

section \<open>The options\<close>

definition cfg_ok :: "cfg_options \<Rightarrow> bool" where
  "cfg_ok cfg \<longleftrightarrow> 0 < co_sequence_timeout cfg \<and> 5 \<le> co_chords_v2_min_idle cfg"

lemma cfg_ok_default: "cfg_ok cfg_default"
  by (simp add: cfg_ok_def cfg_default_def)

lemma parse_cfg_val_u16_pos: "parse_cfg_val_u16 True val = Inr t \<Longrightarrow> 0 < t"
proof -
  assume "parse_cfg_val_u16 True val = Inr t"
  then obtain a where a: "(case parse_number (2 ^ 16) (trim_atom_quotes a) of
      Some n \<Rightarrow> if True \<and> n = 0 then Inl Rejected else Inr (of_nat n) | None \<Rightarrow> Inl Rejected) = Inr t"
    by (auto simp: parse_cfg_val_u16_def and_then_Inr_iff)
  then obtain k where "parse_number (2 ^ 16) (trim_atom_quotes a) = Some k" "1 \<le> k" "t = of_nat k"
    by (cases "parse_number (2 ^ 16) (trim_atom_quotes a)") (auto split: if_splits)
  moreover from this have "k < 65536" using parse_number_less by fastforce
  ultimately have "unat t = k" by (simp add: unat_of_nat)
  then show ?thesis using \<open>1 \<le> k\<close> by (auto simp: word_gt_0)
qed

lemma bool_option_ok: "map_of bool_options label = Some f \<Longrightarrow> cfg_ok (f b cfg) = cfg_ok cfg"
  by (auto simp: bool_options_def cfg_ok_def split: if_splits)

lemma process_unmapped_option_ok: "cfg_ok cfg \<Longrightarrow> yields cfg_ok (process_unmapped_option osc val cfg)"
  unfolding process_unmapped_option_def by (intro yields_intros) (simp_all add: cfg_ok_def)

lemma cfg_option_ok: "cfg_ok cfg \<Longrightarrow> yields cfg_ok (cfg_option osc label val cfg)"
  unfolding cfg_option_def
  by (intro yields_intros process_unmapped_option_ok)
    (simp_all add: bool_option_ok not_less parse_cfg_val_u16_pos, simp_all add: cfg_ok_def not_less parse_cfg_val_u16_pos)

lemma cfg_pairs_ok: "cfg_pairs osc seen es cfg = Inr cfg' \<Longrightarrow> cfg_ok cfg \<Longrightarrow> cfg_ok cfg'"
proof (induction osc seen es cfg rule: cfg_pairs.induct)
  case (3 osc seen key val es cfg)
  then show ?case by (auto simp: and_then_Inr_iff dest: cfg_option_ok [unfolded yields_def, rule_format] split: if_splits)
qed auto

lemma parse_defcfg_ok: "parse_defcfg osc expr = Inr cfg \<Longrightarrow> cfg_ok cfg"
  by (auto simp: parse_defcfg_def and_then_Inr_iff cfg_ok_default intro: cfg_pairs_ok)

section \<open>The definitions\<close>

lemma parse_chord_pairs_timeout: "parse_chord_pairs s es g = Inr g' \<Longrightarrow> cgr_timeout g' = cgr_timeout g"
  by (induction s es g arbitrary: g' rule: parse_chord_pairs.induct)
    (auto simp: and_then_Inr_iff split: if_splits)

lemma parse_chord_group_ok:
  assumes "parse_chord_group expr s = Inr s'" and "parser_ok L V s"
  shows "parser_ok L V s'"
proof -
  from assms(1) obtain es where "check_first_expr expr ''defchords'' = Inr es"
    by (auto simp: parse_chord_group_def and_then_Inr_iff)
  moreover from this assms(1) obtain e e' es' where "es = e # e' # es'"
    by (cases es rule: remdups_adj.cases) (auto simp: parse_chord_group_def and_then_Inr_iff)
  ultimately obtain name timeout g where t: "non_zero_u16_of s e' = Inr timeout"
    and g: "parse_chord_pairs s es' \<lparr>cgr_id = of_nat (length (ps_chord_groups s)), cgr_name = name, cgr_keys = [],
       cgr_coords = [], cgr_chords = [], cgr_timeout = timeout\<rparr> = Inr g"
    and s': "s' = s\<lparr>ps_chord_groups := ps_chord_groups s @ [(name, g)]\<rparr>"
    using assms(1) by (auto simp: parse_chord_group_def and_then_Inr_iff split: if_splits)
  have "0 < cgr_timeout g" using parse_chord_pairs_timeout [OF g] parse_non_zero_u16_pos [OF t] by simp
  then show ?thesis using assms(2) unfolding s' by (auto simp: parser_ok_def)
qed

lemma parse_chord_groups_ok:
  "parse_chord_groups exprs s = Inr s' \<Longrightarrow> parser_ok L V s \<Longrightarrow> parser_ok L V s'"
  unfolding parse_chord_groups_def
  by (rule fold_res_invariant [where I = "parser_ok L V"]) (auto intro: parse_chord_group_ok)

text \<open>Virtual keys are added at the end; \<open>V\<close> is their final number.\<close>

definition grows :: "nat \<Rightarrow> nat \<Rightarrow> parser_state \<Rightarrow> parser_state \<Rightarrow> bool" where
  "grows L V s s' \<longleftrightarrow> length (ps_virtual_keys s) \<le> length (ps_virtual_keys s')
     \<and> (length (ps_virtual_keys s') \<le> V \<longrightarrow> parser_ok L V s \<longrightarrow> parser_ok L V s')"

lemma grows_refl: "grows L V s s"
  by (simp add: grows_def)

lemma grows_trans: "grows L V s s' \<Longrightarrow> grows L V s' s'' \<Longrightarrow> grows L V s s''"
  by (auto simp: grows_def)

lemma grows_virtual_key:
  assumes "parse_action n s e = Inr a"
  shows "grows L V s (s\<lparr>ps_virtual_keys := ps_virtual_keys s @ [(name, a)]\<rparr>)"
  using reads_okD [OF reads_parse_action _ assms, of L V] by (auto simp: grows_def parser_ok_def)

lemma parse_vkey_pairs_grows: "parse_vkey_pairs n es s = Inr s' \<Longrightarrow> grows L V s s'"
proof (induction n es s rule: parse_vkey_pairs.induct)
  case (3 n e action es s)
  then show ?case
    by (auto simp: and_then_Inr_iff split: if_splits intro: grows_trans [OF grows_virtual_key])
qed (auto simp: grows_refl)

lemma parse_vkeys_named_grows:
  assumes "parse_vkeys_named name n exprs s = Inr s'"
  shows "grows L V s s' \<and> length (ps_virtual_keys s') \<le> KEYS_IN_ROW"
proof -
  from assms have f: "fold_res (\<lambda>expr s. and_then (check_first_expr expr name) (\<lambda>es. parse_vkey_pairs n es s))
      exprs s = Inr s'" and k: "length (ps_virtual_keys s') \<le> KEYS_IN_ROW"
    by (auto simp: parse_vkeys_named_def and_then_Inr_iff not_less split: if_splits)
  have "grows L V s s'"
    by (rule fold_res_invariant [OF f, where I = "grows L V s"])
      (auto simp: and_then_Inr_iff grows_refl intro: grows_trans parse_vkey_pairs_grows)
  with k show ?thesis by simp
qed

text \<open>Aliases leave the virtual keys alone.\<close>

definition same_vkeys :: "nat \<Rightarrow> nat \<Rightarrow> parser_state \<Rightarrow> parser_state \<Rightarrow> bool" where
  "same_vkeys L V s s' \<longleftrightarrow> ps_virtual_keys s' = ps_virtual_keys s \<and> (parser_ok L V s \<longrightarrow> parser_ok L V s')"

lemma same_vkeys_refl: "same_vkeys L V s s"
  by (simp add: same_vkeys_def)

lemma same_vkeys_trans: "same_vkeys L V s s' \<Longrightarrow> same_vkeys L V s' s'' \<Longrightarrow> same_vkeys L V s s''"
  by (simp add: same_vkeys_def)

lemma same_vkeys_alias:
  assumes "parse_action n s e = Inr a"
  shows "same_vkeys L V s (s\<lparr>ps_aliases := (ps_aliases s)(name \<mapsto> a)\<rparr>)"
  using reads_okD [OF reads_parse_action _ assms, of L V] by (auto simp: same_vkeys_def parser_ok_def)

lemma read_alias_pairs_same: "read_alias_name_action_pairs n es s = Inr s' \<Longrightarrow> same_vkeys L V s s'"
proof (induction "length es" arbitrary: es s rule: less_induct)
  case less
  show ?case
  proof (cases es)
    case Nil
    then show ?thesis using less.prems by (simp add: same_vkeys_refl)
  next
    case (Cons e es')
    then obtain action es'' where es: "es = e # action # es''" using less.prems by (cases es') (auto simp: and_then_Inr_iff)
    then obtain name a where "parse_action n s action = Inr a"
      "read_alias_name_action_pairs n es'' (s\<lparr>ps_aliases := (ps_aliases s)(name \<mapsto> a)\<rparr>) = Inr s'"
      using less.prems by (auto simp: and_then_Inr_iff split: if_splits)
    then have "same_vkeys L V s (s\<lparr>ps_aliases := (ps_aliases s)(name \<mapsto> a)\<rparr>)"
      "same_vkeys L V (s\<lparr>ps_aliases := (ps_aliases s)(name \<mapsto> a)\<rparr>) s'"
      using same_vkeys_alias less.hyps [of es''] es by simp_all
    then show ?thesis by (rule same_vkeys_trans)
  qed
qed

lemma parse_aliases_same:
  assumes "parse_aliases n env exprs s = Inr s'"
  shows "same_vkeys L V s s'"
proof (rule fold_res_invariant [OF assms [unfolded parse_aliases_def], where I = "same_vkeys L V s"])
  fix expr s1 s2
  assume s1: "same_vkeys L V s s1"
    and "and_then (handle_standard_defalias n expr s1) (handle_envcond_defalias n env expr) = Inr s2"
  then obtain s' where "handle_standard_defalias n expr s1 = Inr s'" "handle_envcond_defalias n env expr s' = Inr s2"
    by (auto simp: and_then_Inr_iff)
  then have "same_vkeys L V s1 s'" "same_vkeys L V s' s2"
    by (auto simp: handle_standard_defalias_def handle_envcond_defalias_def and_then_Inr_iff same_vkeys_refl
        intro: read_alias_pairs_same split: sum.splits list.splits if_splits)
  with s1 show "same_vkeys L V s s2" by (blast intro: same_vkeys_trans)
qed (rule same_vkeys_refl)

lemma parser_ok_hands: "parser_ok L V (s\<lparr>ps_hand_map := h\<rparr>) = parser_ok L V s"
  "parser_ok L V (s\<lparr>ps_trans_forbidden := b\<rparr>) = parser_ok L V s"
  by (simp_all add: parser_ok_def)

lemma parse_definitions_ok:
  assumes "parse_definitions n ou exprs s = Inr (s', seqs)" and "\<And>V. V \<le> 2 ^ 16 \<Longrightarrow> parser_ok L V s"
  shows "parser_ok L (length (ps_virtual_keys s')) s' \<and> length (ps_virtual_keys s') \<le> KEYS_IN_ROW"
proof -
  define V where "V = length (ps_virtual_keys s')"
  from assms(1) obtain hands s1 s2 s3 where
    s1: "parse_chord_groups (items [''defchords''] exprs) (s\<lparr>ps_hand_map := hands\<rparr>) = Inr s1"
    and s2: "parse_fake_keys n (items [''deffakekeys''] exprs) s1 = Inr s2"
    and s3: "parse_virtual_keys n (items [''defvirtualkeys''] exprs) s2 = Inr s3"
    and s4: "parse_aliases n (ou_env ou)
         (filter (\<lambda>l. \<exists>a. first_atom l = Some a \<and> take 8 a = ''defalias'') exprs) s3 = Inr s'"
    by (auto simp: parse_definitions_def and_then_Inr_iff)
  have g: "grows L V s1 s2" "grows L V s2 s3" and k: "length (ps_virtual_keys s3) \<le> KEYS_IN_ROW"
    using parse_vkeys_named_grows s2 s3 unfolding parse_fake_keys_def parse_virtual_keys_def by blast+
  have same: "same_vkeys L V s3 s'" by (rule parse_aliases_same [OF s4])
  with k have V: "V \<le> KEYS_IN_ROW" by (simp add: V_def same_vkeys_def)
  then have "parser_ok L V s" using assms(2) by (simp add: KEYS_IN_ROW_def)
  with s1 have "parser_ok L V s1" using parse_chord_groups_ok parser_ok_hands(1) by blast
  with g same have "parser_ok L V s'" by (auto simp: grows_def same_vkeys_def V_def)
  with V show ?thesis by (simp add: V_def)
qed

section \<open>The names of the layers\<close>

lemma parse_layer_indexes_info:
  "parse_layer_indexes vs k es names = Inr info \<Longrightarrow> distinct (map fst names) \<Longrightarrow>
   length info = length names + length es \<and> distinct (map fst info)"
proof (induction vs k es names rule: parse_layer_indexes.induct)
  case (2 vs k e es names)
  then show ?case by (cases "tl (layer_items e)") (auto simp: and_then_Inr_iff split: if_splits)
qed auto

section \<open>Layers\<close>

text \<open>A row of the grid: the right number of actions, all of them well formed\<close>

definition row_ok :: "nat \<Rightarrow> nat \<Rightarrow> kaction list \<Rightarrow> bool" where
  "row_ok L V row \<longleftrightarrow> length row = KEYS_IN_ROW \<and> (\<forall>a\<in>set row. action_ok L V a)"

lemma row_ok_replicate: "row_ok L V (replicate KEYS_IN_ROW DEFAULT_ACTION)"
  by (simp add: row_ok_def DEFAULT_ACTION_def)

lemma row_ok_update: "row_ok L V row \<Longrightarrow> action_ok L V a \<Longrightarrow> row_ok L V (row[i := a])"
  by (auto simp: row_ok_def dest: set_update_subset_insert [THEN subsetD])

lemma put_row_ok: "action_ok L V a \<Longrightarrow> row_ok L V row \<Longrightarrow> yields (row_ok L V) (put i a row)"
  by (simp add: put_def yields_def row_ok_update)

lemma fold_res_yields:
  "I s \<Longrightarrow> (\<And>x s. x \<in> set xs \<Longrightarrow> I s \<Longrightarrow> yields I (f x s)) \<Longrightarrow> yields I (fold_res f xs s)"
  unfolding yields_def using fold_res_invariant [of f xs s _ I] by blast

lemma fill_at_ok: "action_ok L V a \<Longrightarrow> row_ok L V row \<Longrightarrow> yields (row_ok L V) (fill_at is a row)"
  unfolding fill_at_def by (rule fold_res_yields) (auto intro!: yields_intros row_ok_update)

lemma yieldsD: "yields P m \<Longrightarrow> m = Inr x \<Longrightarrow> P x"
  by (simp add: yields_def)

lemma parse_action_ok: "parser_ok L V s \<Longrightarrow> yields (action_ok L V) (parse_action n s e)"
  unfolding yields_def using reads_okD [OF reads_parse_action] by blast

lemma yields_bind: "yields Q r \<Longrightarrow> (\<And>z. Q z \<Longrightarrow> yields P (k z)) \<Longrightarrow> yields P (and_then r k)"
  by (auto simp: yields_def and_then_Inr_iff)

lemma place_actions_ok:
  "parser_ok L V s \<Longrightarrow> row_ok L V row \<Longrightarrow> yields (row_ok L V) (place_actions n s order es row)"
proof (induction n s order es row rule: place_actions.induct)
  case (2 n s order e es row)
  have "yields (row_ok L V)
      (case order of [] \<Rightarrow> Inl ParserPanic | i # order' \<Rightarrow> and_then (put i a row) (place_actions n s order' es))"
    if "action_ok L V a" for a
    using 2 that by (cases order) (auto intro: yields_intros yields_bind [OF put_row_ok])
  then show ?case by (auto intro: yields_bind [OF parse_action_ok [OF 2(2)]])
qed (simp add: yields_intros)

lemma map_input_ok:
  assumes "action_ok L V a" and "row_ok L V (ms_row st)"
  shows "yields (\<lambda>st'. row_ok L V (ms_row st')) (map_input s order opts input a st)"
proof -
  note step = yields_bind [OF fill_at_ok [OF assms]] yields_bind [OF put_row_ok [OF assms]]
  show ?thesis unfolding map_input_def
    by (intro yields_intros(1-3) step yields_bind [where r = "or_reject _", of "\<lambda>_. True"])
      (simp_all add: yields_def)
qed

lemma map_inputs_ok:
  "parser_ok L V s \<Longrightarrow> row_ok L V (ms_row st) \<Longrightarrow>
   yields (\<lambda>st'. row_ok L V (ms_row st')) (map_inputs n s order opts es st)"
proof (induction n s order opts es st rule: map_inputs.induct)
  case (3 n s order opts input action es st)
  then show ?case
    by (auto intro!: yields_bind [OF parse_action_ok] yields_bind [OF map_input_ok]
        yields_bind [where r = "atom_of _ _", of "\<lambda>_. True"] simp: yields_def [where P = "\<lambda>_. True"])
qed (simp_all add: yields_intros)

lemma layer_row_ok:
  assumes "parser_ok L V s"
  shows "yields (\<lambda>(row, _). row_ok L V row) (layer_row n s order opts e mapped)"
  using assms
  by (cases e)
    (auto simp: layer_row_def Let_def row_ok_replicate intro!: yields_intros(1-3)
      yields_bind [OF place_actions_ok] yields_bind [OF map_inputs_ok])

lemma fill_unmapped_ok: "row_ok L V row \<Longrightarrow> row_ok L V (fill_unmapped opts row)"
  by (auto simp: row_ok_def fill_unmapped_def)

lemma virtual_row_ok:
  assumes "parser_ok L V s"
  shows "yields (row_ok L V) (virtual_row s)"
  unfolding virtual_row_def
proof (rule fold_res_yields)
  fix y and row :: "kaction list"
  assume "y \<in> set [0 ..< length (ps_virtual_keys s)]" and "row_ok L V row"
  moreover from this assms have "action_ok L V (snd (ps_virtual_keys s ! y))"
    by (auto simp: parser_ok_def dest!: bspec [OF _ nth_mem])
  ultimately show "yields (row_ok L V) (put (unat (snd (get_fake_key_coords y))) (snd (ps_virtual_keys s ! y)) row)"
    by (simp add: put_row_ok)
qed (rule row_ok_replicate)

text \<open>A layer is the row of keys, where no action is at the coordinate 0, and the row of virtual keys.\<close>

definition layer_ok :: "nat \<Rightarrow> nat \<Rightarrow> kaction list list \<Rightarrow> bool" where
  "layer_ok L V layer \<longleftrightarrow>
     (\<exists>keys vkeys. layer = [keys, vkeys] \<and> row_ok L V keys \<and> row_ok L V vkeys \<and> keys ! 0 = NoOp)"

lemma parse_layer_ok:
  assumes "parser_ok L V s"
  shows "yields (\<lambda>(layer, _). layer_ok L V layer) (parse_layer n s order opts e mapped)"
  unfolding parse_layer_def
  by (rule yields_bind [OF layer_row_ok [OF assms]])
    (auto simp: layer_ok_def row_ok_update fill_unmapped_ok
      intro!: yields_intros yields_bind [OF virtual_row_ok [OF assms]],
     simp add: row_ok_def KEYS_IN_ROW_def fill_unmapped_def)

lemma parse_layers_from_ok:
  "parser_ok L V s \<Longrightarrow> parse_layers_from n s order opts es mapped = Inr (layers, mapped') \<Longrightarrow>
   length layers = length es \<and> (\<forall>layer\<in>set layers. layer_ok L V layer)"
proof (induction n s order opts es mapped arbitrary: layers mapped' rule: parse_layers_from.induct)
  case (2 n s order opts e es mapped)
  then show ?case using parse_layer_ok [OF 2(2), of n order opts e mapped]
    by (fastforce simp: and_then_Inr_iff yields_def)
qed auto

section \<open>Chords\<close>

text \<open>Filling in the chords does not change the kind of an action.\<close>

definition same_kind :: "kaction \<Rightarrow> kaction \<Rightarrow> bool" where
  "same_kind a b \<longleftrightarrow> is_hold_tap a = is_hold_tap b \<and> is_multi a = is_multi b \<and> is_mouse a = is_mouse b
     \<and> waits a = waits b \<and> one_shot_able a = one_shot_able b"

lemma same_kind_refl [simp]: "same_kind a a"
  by (simp add: same_kind_def)

lemma same_kind_multi:
  assumes "list_all2 same_kind acs bcs"
  shows "multi_ok acs = multi_ok bcs"
proof -
  have "list_all2 (\<lambda>a b. P a = P b) acs bcs \<Longrightarrow> length (filter P acs) = length (filter P bcs)" for P :: "kaction \<Rightarrow> bool"
    by (induction acs bcs rule: list_all2_induct) auto
  moreover have "list_all2 (\<lambda>a b. is_mouse a = is_mouse b) acs bcs" "list_all2 (\<lambda>a b. waits a = waits b) acs bcs"
    "list_all2 (\<lambda>a b. is_multi a = is_multi b) acs bcs"
    using assms by (auto simp: same_kind_def elim: list_all2_mono)
  moreover from this(3) have "(\<forall>a\<in>set acs. \<not> is_multi a) = (\<forall>a\<in>set bcs. \<not> is_multi a)"
    by (induction acs bcs rule: list_all2_induct) auto
  ultimately show ?thesis by (simp add: multi_ok_def)
qed

text \<open>An action with its chords filled in\<close>

definition filled :: "custom_action chords_group list \<Rightarrow> kaction \<Rightarrow> kaction \<Rightarrow> bool" where
  "filled groups a b \<longleftrightarrow> fill_cell groups a = Inr b"

lemma filled_iff: "filled groups a b \<longleftrightarrow> (\<exists>new. fill_chords groups a = Inr new \<and> b = unwrap_or new a)"
  by (auto simp: filled_def fill_cell_def and_then_Inr_iff)

lemma filled_list:
  assumes "map_res (fill_chords groups) acs = Inr news"
  shows "list_all2 (filled groups) acs (map2 unwrap_or news acs)"
proof -
  have "list_all2 (\<lambda>a new. fill_chords groups a = Inr new) acs news" using assms by (simp add: map_res_Inr)
  then show ?thesis by (induction acs news rule: list_all2_induct) (auto simp: filled_iff)
qed

lemma unwrap_or_simps: "unwrap_or None y = y" "unwrap_or (Some x) y = x"
  by (simp_all add: unwrap_or_def)

lemma unchanged_list: "length news = length acs \<Longrightarrow> \<forall>a\<in>set news. a = None \<Longrightarrow> map2 unwrap_or news acs = acs"
  by (induction news acs rule: list_induct2) (auto simp: unwrap_or_def)

text \<open>The chord groups in an action that \<open>find_chords_coords\<close> sees: those below a timeout action are not
  among them.\<close>

fun chords_in :: "kaction \<Rightarrow> custom_action chords_group list" where
  "chords_in (Chords g) = [g]"
| "chords_in (HoldTap (HoldTapAction t hold tp timeout_action config i r p)) = chords_in tp @ chords_in hold"
| "chords_in (OneShot (OneShotCfg ac t e)) = chords_in ac"
| "chords_in (MultipleActions acs) = concat (map chords_in acs)"
| "chords_in (TapDance (TapDanceCfg acs t c)) = concat (map chords_in acs)"
| "chords_in (Fork (ForkConfig left right triggers)) = chords_in left @ chords_in right"
| "chords_in (Switch (SwitchCfg init_fn cases callbacks)) = concat (map (\<lambda>(ops, ac, b). chords_in ac) cases)"
| "chords_in _ = []"

text \<open>The recursion of \<open>fill_chords\<close> on the results\<close>

lemma filled_cases:
  assumes "filled groups a b"
  obtains (chords) g where "a = Chords g" "b \<in> Chords ` set groups"
  | (hold_tap) h tp hld where "a = HoldTap h" "filled groups (hta_tap h) tp" "filled groups (hta_hold h) hld"
      "b = HoldTap (HoldTapAction (hta_timeout h) hld tp (hta_timeout_action h) (hta_config h)
         (hta_tap_hold_interval h) (hta_on_press_reset_timeout_to h) (hta_require_prior_idle h))"
  | (one_shot) os ac where "a = OneShot os" "filled groups (os_action os) ac"
      "b = OneShot (OneShotCfg ac (os_timeout os) (os_end_config os))"
  | (multi) acs bcs where "a = MultipleActions acs" "b = MultipleActions bcs" "list_all2 (filled groups) acs bcs"
  | (tap_dance) td bcs where "a = TapDance td" "list_all2 (filled groups) (td_actions td) bcs"
      "b = TapDance (TapDanceCfg bcs (td_timeout td) (td_config td))"
  | (fork) f l r where "a = Fork f" "filled groups (fork_left f) l" "filled groups (fork_right f) r"
      "b = Fork (ForkConfig l r (fork_triggers f))"
  | (switch) sw cs where "a = Switch sw" "b = Switch (SwitchCfg (sw_init_fn sw) cs (sw_callbacks sw))"
      "list_all2 (\<lambda>(ops, ac, brk) (ops', ac', brk'). ops' = ops \<and> brk' = brk \<and> filled groups ac ac') (sw_cases sw) cs"
  | (other) "b = a" "children a = []" "chords_in a = []"
proof (cases a)
  case (Chords g)
  with assms show ?thesis
    by (cases g) (auto simp: filled_iff unwrap_or_def split: list.splits if_splits intro!: chords)
next
  case (HoldTap h)
  with assms show ?thesis
    by (cases h) (auto simp: filled_iff and_then_Inr_iff unwrap_or_def split: if_splits option.splits
        intro!: hold_tap)
next
  case (OneShot os)
  with assms obtain new where new: "fill_chords groups (os_action os) = Inr new"
    by (cases os) (auto simp: filled_iff and_then_Inr_iff)
  then have "b = OneShot (OneShotCfg (unwrap_or new (os_action os)) (os_timeout os) (os_end_config os))"
    using OneShot assms by (cases os; cases new) (auto simp: filled_iff unwrap_or_def)
  with OneShot new show ?thesis by (intro one_shot) (auto simp: filled_iff)
next
  case (MultipleActions acs)
  with assms obtain news where n: "map_res (fill_chords groups) acs = Inr news"
    and b: "b = unwrap_or (if \<exists>a\<in>set news. a \<noteq> None then Some (MultipleActions (map2 unwrap_or news acs)) else None) a"
    by (auto simp: filled_iff and_then_Inr_iff)
  have "length news = length acs" using n by (auto simp: map_res_Inr dest: list_all2_lengthD)
  then have "b = MultipleActions (map2 unwrap_or news acs)"
    using b MultipleActions unchanged_list [of news acs]
    by (cases "\<exists>a\<in>set news. a \<noteq> None") (auto simp: unwrap_or_simps split: if_splits)
  with MultipleActions filled_list [OF n] show ?thesis by (intro multi)
next
  case (TapDance td)
  obtain acs t c where td: "td = TapDanceCfg acs t c" by (cases td)
  with TapDance assms obtain news where n: "map_res (fill_chords groups) acs = Inr news"
    and b: "b = unwrap_or (if \<exists>a\<in>set news. a \<noteq> None then Some (TapDance (TapDanceCfg (map2 unwrap_or news acs) t c)) else None) a"
    by (auto simp: filled_iff and_then_Inr_iff)
  have "length news = length acs" using n by (auto simp: map_res_Inr dest: list_all2_lengthD)
  then have "b = TapDance (TapDanceCfg (map2 unwrap_or news acs) t c)"
    using b TapDance td unchanged_list [of news acs]
    by (cases "\<exists>a\<in>set news. a \<noteq> None") (auto simp: unwrap_or_simps split: if_splits)
  with TapDance td filled_list [OF n] show ?thesis by (intro tap_dance) auto
next
  case (Fork f)
  with assms show ?thesis
    by (cases f) (auto simp: filled_iff and_then_Inr_iff unwrap_or_def split: if_splits option.splits
        intro!: fork)
next
  case (Switch sw)
  with assms obtain cs where c: "map_res (\<lambda>(ops, ac, b). and_then (fill_chords groups ac) (\<lambda>new_ac.
         Inr (ops, unwrap_or new_ac ac, b))) (sw_cases sw) = Inr cs"
    and b: "b = Switch (SwitchCfg (sw_init_fn sw) cs (sw_callbacks sw))"
    by (cases sw) (auto simp: filled_iff and_then_Inr_iff unwrap_or_def)
  from c have "list_all2 (\<lambda>(ops, ac, brk) (ops', ac', brk'). ops' = ops \<and> brk' = brk \<and> filled groups ac ac') (sw_cases sw) cs"
    unfolding map_res_Inr by (rule list_all2_mono) (auto simp: filled_iff and_then_Inr_iff)
  with Switch b show ?thesis by (intro switch)
qed (use assms in \<open>auto simp: filled_iff unwrap_or_def intro!: other\<close>)

lemma list_all2_right: "list_all2 (\<lambda>_. P) xs ys \<Longrightarrow> y \<in> set ys \<Longrightarrow> P y"
  by (auto simp: list_all2_conv_all_nth in_set_conv_nth)

lemma filled_resolved: "filled groups a b \<Longrightarrow> set (chords_in b) \<subseteq> set groups"
proof (induction a arbitrary: b rule: measure_induct_rule [where f = size])
  case (less a)
  have ih: "filled groups c d \<Longrightarrow> set (chords_in d) \<subseteq> set groups" if "c \<in> set (children a)" for c d
    using less.IH [OF size_children [OF that]] .
  from less.prems show ?case
  proof (cases rule: filled_cases)
    case (multi acs bcs)
    from multi(3) have "list_all2 (\<lambda>_ d. set (chords_in d) \<subseteq> set groups) acs bcs"
      by (rule list.rel_mono_strong) (use ih multi(1) in fastforce)
    with multi show ?thesis by (auto dest: list_all2_right)
  next
    case (tap_dance td bcs)
    from tap_dance(2) have "list_all2 (\<lambda>_ d. set (chords_in d) \<subseteq> set groups) (td_actions td) bcs"
      by (rule list.rel_mono_strong) (use ih tap_dance(1) in fastforce)
    with tap_dance show ?thesis by (auto dest: list_all2_right)
  next
    case (switch sw cs)
    from switch(3) have "list_all2 (\<lambda>_ (_, d, _). set (chords_in d) \<subseteq> set groups) (sw_cases sw) cs"
      by (rule list.rel_mono_strong) (use ih switch(1) in fastforce)
    with switch show ?thesis by (force dest: list_all2_right)
  next
    case (hold_tap h tp hld)
    then show ?thesis using ih [of "hta_tap h" tp] ih [of "hta_hold h" hld] by auto
  next
    case (one_shot os ac)
    then show ?thesis using ih [of "os_action os" ac] by auto
  next
    case (fork f l r)
    then show ?thesis using ih [of "fork_left f" l] ih [of "fork_right f" r] by auto
  qed auto
qed

lemma filled_ok:
  assumes "\<forall>g\<in>set groups. action_ok L V (Chords g)"
  shows "filled groups a b \<Longrightarrow> action_ok L V a \<Longrightarrow> action_ok L V b \<and> same_kind a b"
proof (induction a arbitrary: b rule: measure_induct_rule [where f = size])
  case (less a)
  have ih: "filled groups c d \<Longrightarrow> action_ok L V c \<Longrightarrow> action_ok L V d \<and> same_kind c d"
    if "c \<in> set (children a)" for c d
    using less.IH [OF size_children [OF that]] .
  from less.prems(1) show ?case
  proof (cases rule: filled_cases)
    case (chords g)
    then show ?thesis using assms less.prems(2)
      by (auto simp: same_kind_def is_hold_tap_def is_multi_def is_mouse_def waits_def one_shot_able_def)
  next
    case (hold_tap h tp hld)
    then show ?thesis using ih [of "hta_tap h"] ih [of "hta_hold h"] less.prems(2)
      by (auto simp: same_kind_def is_hold_tap_def is_multi_def is_mouse_def waits_def one_shot_able_def)
  next
    case (one_shot os ac)
    then show ?thesis using ih [of "os_action os"] less.prems(2)
      by (auto simp: same_kind_def is_hold_tap_def is_multi_def is_mouse_def waits_def one_shot_able_def)
  next
    case (multi acs bcs)
    from multi(3) have l: "list_all2 (\<lambda>c d. action_ok L V d \<and> same_kind c d) acs bcs"
      by (rule list.rel_mono_strong) (use ih less.prems(2) multi(1) in auto)
    then have "list_all2 same_kind acs bcs" "\<forall>d\<in>set bcs. action_ok L V d"
      by (auto simp: list_all2_conv_all_nth in_set_conv_nth)
    with multi less.prems(2) show ?thesis
      by (auto simp: same_kind_multi same_kind_def is_hold_tap_def is_multi_def is_mouse_def waits_def one_shot_able_def)
  next
    case (tap_dance td bcs)
    from tap_dance(2) have "list_all2 (\<lambda>c d. action_ok L V d) (td_actions td) bcs"
      by (rule list.rel_mono_strong) (use ih less.prems(2) tap_dance(1) in auto)
    with tap_dance less.prems(2) show ?thesis
      by (auto dest: list_all2_right simp:
          same_kind_def is_hold_tap_def is_multi_def is_mouse_def waits_def one_shot_able_def)
  next
    case (fork f l r)
    then show ?thesis using ih [of "fork_left f"] ih [of "fork_right f"] less.prems(2)
      by (auto simp: same_kind_def is_hold_tap_def is_multi_def is_mouse_def waits_def one_shot_able_def)
  next
    case (switch sw cs)
    from switch(3) have "list_all2 (\<lambda>_ (_, d, _). action_ok L V d) (sw_cases sw) cs"
      by (rule list.rel_mono_strong) (use ih less.prems(2) switch(1) in force)
    with switch less.prems(2) show ?thesis
      by (force dest: list_all2_right simp:
          same_kind_def is_hold_tap_def is_multi_def is_mouse_def waits_def one_shot_able_def)
  next
    case other
    then show ?thesis using less.prems(2) by simp
  qed
qed

lemma build_group_ok:
  assumes "parser_ok L V s" and "0 < cgr_timeout g"
  shows "yields (\<lambda>g'. action_ok L V (Chords g')) (build_group n s g)"
proof -
  have "action_ok L V a" if "map_res (\<lambda>(m, e). and_then (parse_action n s e) (\<lambda>ac. Inr (m, ac))) chords = Inr acs"
    "(m, a) \<in> set acs" for chords acs m a
    using that yieldsD [OF parse_action_ok [OF assms(1)]]
    by (fastforce simp: map_res_Inr list_all2_conv_all_nth in_set_conv_nth and_then_Inr_iff split_def)
  then show ?thesis using assms(2)
    by (auto simp: build_group_def and_then_Inr_iff yields_def split: if_splits)
qed

lemma add_coord_coords:
  assumes "add_coord c r gs = Inr gs'"
  shows "length gs' = length gs" "map cgr_timeout gs' = map cgr_timeout gs" "map cgr_keys gs' = map cgr_keys gs"
    "map cgr_chords gs' = map cgr_chords gs"
    "i < length gs \<Longrightarrow> x \<in> set (cgr_coords (gs' ! i)) \<longleftrightarrow> x \<in> set (cgr_coords (gs ! i)) \<or> r = (i, snd x) \<and> c = fst x"
  using assms
  by (auto simp: add_coord_def map_update nth_list_update split: if_splits intro!: list_update_same_conv [THEN iffD2])

text \<open>Which coordinates a group gets from a list of cells\<close>

lemma add_coords_coords:
  assumes "fold_res (add_coord c) rs gs = Inr gs'"
  shows "length gs' = length gs \<and> map cgr_timeout gs' = map cgr_timeout gs \<and> map cgr_keys gs' = map cgr_keys gs
    \<and> map cgr_chords gs' = map cgr_chords gs
    \<and> (\<forall>i < length gs. \<forall>x. x \<in> set (cgr_coords (gs' ! i)) \<longleftrightarrow>
         x \<in> set (cgr_coords (gs ! i)) \<or> (i, snd x) \<in> set rs \<and> c = fst x)"
  using assms
proof (induction rs arbitrary: gs)
  case (Cons r rs)
  then obtain g1 where "add_coord c r gs = Inr g1" "fold_res (add_coord c) rs g1 = Inr gs'"
    by (auto simp: and_then_Inr_iff)
  with Cons.IH [OF this(2)] add_coord_coords [OF this(1)] show ?case by auto
qed simp

lemma collect_coords_from:
  assumes "fold_res (\<lambda>(coord, ac) groups. fold_res (add_coord coord) (find_chords_coords ac) groups) cs gs = Inr gs'"
  shows "length gs' = length gs \<and> map cgr_timeout gs' = map cgr_timeout gs \<and> map cgr_keys gs' = map cgr_keys gs
    \<and> map cgr_chords gs' = map cgr_chords gs
    \<and> (\<forall>i < length gs. \<forall>c m. (c, m) \<in> set (cgr_coords (gs' ! i)) \<longleftrightarrow>
         (c, m) \<in> set (cgr_coords (gs ! i)) \<or> (\<exists>ac. (c, ac) \<in> set cs \<and> (i, m) \<in> set (find_chords_coords ac)))"
  using assms
proof (induction cs arbitrary: gs)
  case (Cons x cs)
  obtain c ac where x: "x = (c, ac)" by fastforce
  with Cons.prems obtain g1 where "fold_res (add_coord c) (find_chords_coords ac) gs = Inr g1"
    "fold_res (\<lambda>(coord, ac) groups. fold_res (add_coord coord) (find_chords_coords ac) groups) cs g1 = Inr gs'"
    by (auto simp: and_then_Inr_iff)
  with Cons.IH [OF this(2)] add_coords_coords [OF this(1)] show ?case by (auto simp: x)
qed simp

text \<open>What \<open>resolve_chord_groups\<close> has built: the groups with their coordinates and actions\<close>

definition resolved_groups ::
  "nat \<Rightarrow> parser_state \<Rightarrow> kaction list list list \<Rightarrow> custom_action chords_group list \<Rightarrow> bool" where
  "resolved_groups n s layers groups \<longleftrightarrow>
     list_all2 (\<lambda>(_, g) g'. cg_timeout g' = cgr_timeout g
         \<and> map_res (\<lambda>(m, e). and_then (parse_action n s e) (\<lambda>ac. Inr (m, ac))) (cgr_chords g) = Inr (cg_chords g'))
       (ps_chord_groups s) groups
     \<and> (\<forall>i < length groups. \<forall>c m. (c, m) \<in> set (cg_coords (groups ! i)) \<longleftrightarrow>
          (c, m) \<in> set (cgr_coords (snd (ps_chord_groups s ! i)))
          \<or> (\<exists>ac. (c, ac) \<in> set (cells layers) \<and> (i, m) \<in> set (find_chords_coords ac)))
     \<and> (\<forall>i < length groups. \<forall>k < length (cgr_keys (snd (ps_chord_groups s ! i))).
          \<exists>(_, m)\<in>set (cg_coords (groups ! i)). bit m k)"

lemma resolve_chord_groups_cases:
  assumes "resolve_chord_groups n s layers = Inr layers'"
  obtains groups where "resolved_groups n s layers groups"
    "map_res (map_res (map_res (fill_cell groups))) layers = Inr layers'"
    "\<And>L V. parser_ok L V s \<Longrightarrow> \<forall>g\<in>set groups. action_ok L V (Chords g)"
proof -
  from assms obtain gs groups where gs: "collect_coords layers (map snd (ps_chord_groups s)) = Inr gs"
    and b: "list_all2 (\<lambda>g g'. build_group n s g = Inr g') gs groups"
    and f: "map_res (map_res (map_res (fill_cell groups))) layers = Inr layers'"
    by (auto simp: resolve_chord_groups_def and_then_Inr_iff map_res_Inr)
  note c = collect_coords_from [OF gs [unfolded collect_coords_def]]
  have len: "length groups = length (ps_chord_groups s)" "length gs = length groups"
    using c b by (auto dest: list_all2_lengthD)
  have nth: "cgr_timeout (gs ! i) = cgr_timeout (snd (ps_chord_groups s ! i))"
    "cgr_keys (gs ! i) = cgr_keys (snd (ps_chord_groups s ! i))"
    "cgr_chords (gs ! i) = cgr_chords (snd (ps_chord_groups s ! i))"
    "build_group n s (gs ! i) = Inr (groups ! i)" if "i < length groups" for i
    using that c b len by (auto simp: list_all2_conv_all_nth list_eq_iff_nth_eq)
  have g: "cg_coords (groups ! i) = cgr_coords (gs ! i) \<and> cg_timeout (groups ! i) = cgr_timeout (gs ! i)
    \<and> map_res (\<lambda>(m, e). and_then (parse_action n s e) (\<lambda>ac. Inr (m, ac))) (cgr_chords (gs ! i)) = Inr (cg_chords (groups ! i))
    \<and> (\<forall>k < length (cgr_keys (gs ! i)). \<exists>x\<in>set (cgr_coords (gs ! i)). bit (snd x) k)" if "i < length groups" for i
  proof (cases "groups ! i")
    case (ChordsGroup coords chords t)
    then show ?thesis using nth(4) [OF that] by (auto simp: build_group_def and_then_Inr_iff split: if_splits)
  qed
  have "resolved_groups n s layers groups"
    unfolding resolved_groups_def using c g nth len
    by (auto simp: list_all2_conv_all_nth split_def)
  moreover have "\<forall>g\<in>set groups. action_ok L V (Chords g)" if ok: "parser_ok L V s" for L V
  proof
    fix g assume "g \<in> set groups"
    then obtain i where i: "i < length groups" "g = groups ! i" by (auto simp: in_set_conv_nth)
    then have "ps_chord_groups s ! i \<in> set (ps_chord_groups s)" using len by simp
    then have "0 < cgr_timeout (gs ! i)" using ok nth(1) [OF i(1)] by (auto simp: parser_ok_def)
    from yieldsD [OF build_group_ok [OF ok this] nth(4) [OF i(1)]] show "action_ok L V (Chords g)" using i by simp
  qed
  ultimately show ?thesis using f that by blast
qed

lemma filled_row_ok:
  assumes "\<forall>g\<in>set groups. action_ok L V (Chords g)" and "map_res (fill_cell groups) row = Inr row'" and "row_ok L V row"
  shows "row_ok L V row'"
proof -
  have "list_all2 (filled groups) row row'" using assms(2) by (simp add: map_res_Inr filled_def [abs_def])
  then have "list_all2 (\<lambda>_ b. action_ok L V b) row row'"
    by (rule list.rel_mono_strong) (use filled_ok [OF assms(1)] assms(3) in \<open>auto simp: row_ok_def\<close>)
  moreover from this have "length row' = length row" by (simp add: list_all2_lengthD)
  ultimately show ?thesis using assms(3) by (auto simp: row_ok_def dest: list_all2_right)
qed

lemma filled_layer_ok:
  assumes "\<forall>g\<in>set groups. action_ok L V (Chords g)"
    and "map_res (map_res (fill_cell groups)) layer = Inr layer'" and "layer_ok L V layer"
  shows "layer_ok L V layer'"
proof -
  from assms(3) obtain keys vkeys where l: "layer = [keys, vkeys]" "row_ok L V keys" "row_ok L V vkeys" "keys ! 0 = NoOp"
    by (auto simp: layer_ok_def)
  with assms(2) obtain keys' vkeys' where l': "layer' = [keys', vkeys']" "map_res (fill_cell groups) keys = Inr keys'"
    "map_res (fill_cell groups) vkeys = Inr vkeys'"
    by (auto simp: and_then_Inr_iff)
  have "0 < length keys" using l(2) by (simp add: row_ok_def KEYS_IN_ROW_def)
  then have "fill_cell groups NoOp = Inr (keys' ! 0)" using l'(2) l(4) by (auto simp: map_res_Inr list_all2_conv_all_nth)
  then have "keys' ! 0 = NoOp" by (simp add: fill_cell_def unwrap_or_simps)
  with l l' filled_row_ok [OF assms(1)] show ?thesis by (auto simp: layer_ok_def)
qed

lemma resolve_chord_groups_ok:
  assumes "parser_ok L V s" and "\<forall>layer\<in>set layers. layer_ok L V layer"
    and "resolve_chord_groups n s layers = Inr layers'"
  shows "length layers' = length layers \<and> (\<forall>layer\<in>set layers'. layer_ok L V layer)"
proof -
  obtain groups where f: "map_res (map_res (map_res (fill_cell groups))) layers = Inr layers'"
    and g: "\<forall>g\<in>set groups. action_ok L V (Chords g)"
    using resolve_chord_groups_cases [OF assms(3)] assms(1) by metis
  from f have l: "list_all2 (\<lambda>layer layer'. map_res (map_res (fill_cell groups)) layer = Inr layer') layers layers'"
    by (simp add: map_res_Inr)
  then have "list_all2 (\<lambda>_. layer_ok L V) layers layers'"
    by (rule list.rel_mono_strong) (use filled_layer_ok [OF g] assms(2) in blast)
  then show ?thesis using l by (auto dest: list_all2_lengthD list_all2_right)
qed

section \<open>Chords of the second version\<close>

definition chord_ok :: "nat \<Rightarrow> nat \<Rightarrow> custom_action chord_v2 \<Rightarrow> bool" where
  "chord_ok L V c \<longleftrightarrow> action_ok L V (cv_action c) \<and> 2 \<le> length (cv_keys c) \<and> sorted (cv_keys c)
     \<and> 0 < cv_pending c \<and> (\<forall>l\<in>set (cv_disabled_layers c). unat l < L)"

lemma parse_single_chord_ok:
  assumes "parser_ok L V s" and "parse_single_chord n s chunk seen = (r, seen')"
  shows "yields (chord_ok L V) r"
proof -
  have "unat l < L" if "layer_of s e = Inr l" for e l
  proof -
    from that obtain a i where "ps_layer_idxs s a = Some i" "l = of_nat i"
      by (auto simp: layer_of_def and_then_Inr_iff)
    moreover from this assms(1) have "i < L" by (auto simp: parser_ok_def)
    ultimately show ?thesis by (simp add: unat_of_nat le_less_trans [OF mod_less_eq_dividend])
  qed
  then have layers: "\<forall>l\<in>set ls. unat l < L" if "parse_disabled_layers s e = Inr ls" for e ls
    using that by (fastforce simp: parse_disabled_layers_def and_then_Inr_iff map_res_Inr list_all2_conv_all_nth
        in_set_conv_nth)
  have keys: "2 \<le> length ks \<and> sorted ks" if "parse_participating_keys s e = Inr ks" for e ks
    using that by (auto simp: parse_participating_keys_def and_then_Inr_iff split: if_splits)
  from assms(2) show ?thesis
    by (auto simp: parse_single_chord_def yields_def and_then_Inr_iff chord_ok_def split: sum.splits if_splits
        dest!: keys layers parse_non_zero_u16_pos yieldsD [OF parse_action_ok [OF assms(1)]])
qed

lemma parse_chord_chunks_ok:
  "parser_ok L V s \<Longrightarrow> r \<in> set (parse_chord_chunks n s chunks seen) \<Longrightarrow> yields (chord_ok L V) r"
proof (induction n s chunks seen rule: parse_chord_chunks.induct)
  case (2 n s chunk chunks seen)
  obtain r' seen' where r: "parse_single_chord n s chunk seen = (r', seen')" by fastforce
  with 2 parse_single_chord_ok [OF 2(2) r] show ?case by auto
qed simp

lemma all_chords_Inr: "all_chords rs = Inr cs \<Longrightarrow> rs = map Inr cs"
proof -
  assume a: "all_chords rs = Inr cs"
  then have "map_res id rs = Inr cs"
    unfolding all_chords_def
    by (cases "filter (\<lambda>r. r = Inl ParserPanic \<or> r = Inl NeverReturns) (map (map_sum id (\<lambda>_. ())) rs)")
      (auto split: sum.splits)
  then show ?thesis by (auto simp: map_res_Inr list_eq_iff_nth_eq list_all2_conv_all_nth)
qed

lemma parse_defchordv2_ok:
  assumes "parser_ok L V s" and "parse_defchordv2 n included expr s = Inr cs" and "cs k = Some l" and "c \<in> set l"
  shows "chord_ok L V c \<and> k \<in> set (cv_keys c)"
proof -
  from assms(2) obtain chunks chords where c: "all_chords (parse_chord_chunks n s chunks []) = Inr chords"
    "cs = chords_for_keys chords"
    by (auto simp: parse_defchordv2_def Let_def and_then_Inr_iff split: if_splits)
  from assms(3,4) have "c \<in> set chords" "k \<in> set (cv_keys c)"
    unfolding c(2) chords_for_keys_def
    by (auto split: list.splits simp: in_set_replicate count_list_0_iff
        dest!: arg_cong [where f = set, of _ "_ # _"])
  moreover from this(1) have "Inr c \<in> set (parse_chord_chunks n s chunks [])"
    using all_chords_Inr [OF c(1)] by simp
  from yieldsD [OF parse_chord_chunks_ok [OF assms(1) this] refl] have "chord_ok L V c" .
  ultimately show ?thesis by simp
qed

lemma parse_chords_v2_ok:
  assumes "parser_ok L V s" and "5 \<le> co_chords_v2_min_idle cfg"
    and "parse_chords_v2 n ou cfg first exprs s = Inr (Some ch)"
  shows "(\<forall>k l c. c2_chords ch k = Some l \<longrightarrow> c \<in> set l \<longrightarrow> chord_ok L V c \<and> k \<in> set (cv_keys c))
    \<and> (\<exists>chords ticks. chords_v2_new chords ticks = Inr ch) \<and> co_concurrent_tap_hold cfg"
proof -
  from assms(3) obtain l cs where cs: "parse_defchordv2 n (ou_included ou first s) l (s\<lparr>ps_trans_forbidden := True\<rparr>) = Inr cs"
    and ch: "chords_v2_new cs (co_chords_v2_min_idle cfg) = Inr ch" and "co_concurrent_tap_hold cfg"
    using assms(2)
    by (auto simp: parse_chords_v2_def and_then_Inr_iff opt_res_def chords_v2_new_def split: option.splits if_splits)
  moreover have "c2_chords ch = cs" using ch by (auto simp: chords_v2_new_def split: if_splits)
  moreover have "parser_ok L V (s\<lparr>ps_trans_forbidden := True\<rparr>)" using assms(1) by (simp add: parser_ok_hands)
  ultimately show ?thesis using parse_defchordv2_ok by blast
qed

section \<open>The configuration\<close>

lemma key_position_less: "key_position k ks = Some i \<Longrightarrow> i < length ks"
  by (auto simp: key_position_def find_Some_iff)

definition config_ok :: "intermediate_cfg \<Rightarrow> bool" where
  "config_ok ic \<longleftrightarrow>
     (let L = length (ic_layer_info ic); V = length (ic_virtual_keys ic) in
      0 < L \<and> L \<le> MAX_LAYERS \<and> V \<le> KEYS_IN_ROW \<and> distinct (map fst (ic_layer_info ic))
      \<and> length (ic_layers ic) = L \<and> (\<forall>layer\<in>set (ic_layers ic). layer_ok L V layer)
      \<and> (\<forall>(_, a)\<in>set (ic_virtual_keys ic). action_ok L V a)
      \<and> pred_option (action_ok L V) (ic_start_action ic)
      \<and> pred_option (\<lambda>ch. co_concurrent_tap_hold (ic_options ic)
           \<and> (\<forall>k l c. c2_chords ch k = Some l \<longrightarrow> c \<in> set l \<longrightarrow> chord_ok L V c \<and> k \<in> set (cv_keys c))
           \<and> (\<exists>chords ticks. chords_v2_new chords ticks = Inr ch)) (ic_chords_v2 ic))"

lemma initial_state_ok:
  assumes "cfg_ok cfg" and "length names = L" and "V \<le> 2 ^ 16"
  shows "parser_ok L V (initial_state ou cfg keys vs names devices)"
  using assms by (auto simp: parser_ok_def initial_state_def cfg_ok_def dest: key_position_less)

lemma detect_mode_concurrent: "co_concurrent_tap_hold (detect_mode mapped cfg) = co_concurrent_tap_hold cfg"
  by (simp add: detect_mode_def)

lemma parse_cfg_exprs_ok:
  assumes "parse_cfg_exprs n ou file exprs = Inr ic"
  shows "config_ok ic"
proof -
  define layers where "layers = map layer_expr_of (items [''deflayer'', ''deflayermap''] exprs)"
  from assms obtain names cfg d mapped order vs devices s seqs mapped' klayers klayers' where
    cfg: "(case d of None \<Rightarrow> Inr cfg_default | Some l \<Rightarrow> parse_defcfg (str_to_oscode names) l) = Inr cfg"
    and ne: "layers \<noteq> []"
    and info: "parse_layer_indexes vs (length (order :: nat list)) layers [] = Inr (ic_layer_info ic)"
    and defs: "parse_definitions n ou exprs
        (initial_state ou cfg names vs (map fst (ic_layer_info ic)) devices) = Inr (s, seqs)"
    and start: "start_action cfg s = Inr (ic_start_action ic)"
    and kl: "parse_layers n s order (layer_options_of cfg) layers mapped = Inr (klayers, mapped')"
    and res: "resolve_chord_groups n s klayers = Inr klayers'"
    and chords: "parse_chords_v2 n ou cfg (concat (take 1 (concat (take 1 klayers')))) exprs s = Inr (ic_chords_v2 ic)"
    and ic: "ic_layers ic = klayers'" "ic_virtual_keys ic = ps_virtual_keys s" "ic_options ic = detect_mode mapped' cfg"
    unfolding parse_cfg_exprs_def layers_def [symmetric] Let_def
    by (auto simp: and_then_Inr_iff split: if_splits)
  define L where "L = length (ic_layer_info ic)"
  define V where "V = length (ps_virtual_keys s)"
  have cfg_ok: "cfg_ok cfg"
    using cfg by (auto simp: cfg_ok_default dest: parse_defcfg_ok split: option.splits)
  have names: "L = length layers" "distinct (map fst (ic_layer_info ic))"
    using parse_layer_indexes_info [OF info] by (simp_all add: L_def)
  have ok: "parser_ok L V s" and V: "V \<le> KEYS_IN_ROW"
    using parse_definitions_ok [OF defs initial_state_ok [OF cfg_ok]] by (auto simp: L_def V_def)
  have layers: "length klayers = L" "\<forall>layer\<in>set klayers. layer_ok L V layer" "L \<le> MAX_LAYERS"
    using kl parse_layers_from_ok [OF ok, of n order "layer_options_of cfg" layers mapped klayers mapped'] names
    by (auto simp: parse_layers_def not_less split: if_splits)
  have filled: "length klayers' = L" "\<forall>layer\<in>set klayers'. layer_ok L V layer"
    using resolve_chord_groups_ok [OF ok layers(2) res] layers(1) by simp_all
  have "pred_option (action_ok L V) (ic_start_action ic)"
    using start ok by (cases "ic_start_action ic") (auto simp: start_action_def and_then_Inr_iff parser_ok_def split: option.splits)
  moreover have "\<forall>(_, a)\<in>set (ps_virtual_keys s). action_ok L V a" using ok by (simp add: parser_ok_def)
  moreover have "0 < L" using ne names by simp
  ultimately show ?thesis
    using parse_chords_v2_ok [OF ok, of cfg n ou "concat (take 1 (concat (take 1 klayers')))" exprs] cfg_ok chords
      V layers(3) filled names(2)
    unfolding config_ok_def ic L_def [symmetric] V_def [symmetric] Let_def
    by (cases "ic_chords_v2 ic") (auto simp: cfg_ok_def detect_mode_concurrent)
qed

end
