(* ===== verification/AcceptedConfig.thy ===== *)
theory AcceptedConfig
  imports ConfigFacts Capacity
begin

section \<open>An example\<close>

abbreviation on_line :: "nat \<Rightarrow> nat \<Rightarrow> span" where
  "on_line i j \<equiv> \<lparr>span_start = \<lparr>absolute = i, line = 0, line_beginning = 0\<rparr>,
     span_end = \<lparr>absolute = j, line = 0, line_beginning = 0\<rparr>\<rparr>"

definition example_text :: string where "example_text = ''(defsrc a)(deflayer base b)''"

definition example_outside :: outside where
  "example_outside =
     \<lparr>ou_files = \<lparr>fs_canonical = Some, fs_read = (\<lambda>_. Some example_text)\<rparr>, ou_env = None,
      ou_case = \<lparr>cc_lowercase = id, cc_is_uppercase = (\<lambda>_. False)\<rparr>, ou_to_uppercase = id,
      ou_parse_f32 = (\<lambda>_. None), ou_exit_code = (\<lambda>_. 0), ou_cmd_feature = False, ou_glcp = (\<lambda>_ _. None),
      ou_lcpl = (\<lambda>_ _. 0), ou_included = (\<lambda>_ _ _. Inl Rejected)\<rparr>"

text \<open>The items of the text\<close>

definition example_items :: "sexpr list list" where
  "example_items = [[Atom ''defsrc'' (on_line (Suc 0) 7), Atom ''a'' (on_line 8 9)], [Atom ''deflayer'' (on_line 11 19), Atom ''base'' (on_line 20 24), Atom ''b'' (on_line 25 26)]]"

lemma example_names:
  "error_on_unknown_top_level_atoms example_items = Inr ()" "local_keys example_items = Inr []"
  "items [''defcfg''] example_items = []"
  "items [''defsrc''] example_items = [[Atom ''defsrc'' (on_line (Suc 0) 7), Atom ''a'' (on_line 8 9)]]"
  "parse_defsrc (str_to_oscode []) [Atom ''defsrc'' (on_line (Suc 0) 7), Atom ''a'' (on_line 8 9)] cfg_default = Inr ([30], [30])"
  "items [''definputdevices''] example_items = []"
  "items [''defvar''] example_items = []"
  "items [''deflayer'', ''deflayermap''] example_items = [[Atom ''deflayer'' (on_line 11 19), Atom ''base'' (on_line 20 24), Atom ''b'' (on_line 25 26)]]"
  "layer_expr_of [Atom ''deflayer'' (on_line 11 19), Atom ''base'' (on_line 20 24), Atom ''b'' (on_line 25 26)] = DefsrcMapping [Atom ''deflayer'' (on_line 11 19), Atom ''base'' (on_line 20 24), Atom ''b'' (on_line 25 26)]"
  by code_simp+

lemma example_blocks:
  "items [''defhands''] example_items = []" "items [''defchords''] example_items = []"
  "items [''deffakekeys''] example_items = []" "items [''defvirtualkeys''] example_items = []"
  "items [''defseq''] example_items = []" "items [''defoverrides''] example_items = []"
  "items [''defoverridesv2''] example_items = []" "items [''defchordsv2'', ''defchordsv2-experimental''] example_items = []"
  "items [''defzippy'', ''defzippy-experimental''] example_items = []"
  by code_simp+

lemma example_aliases:
  "filter (\<lambda>l. \<exists>a. first_atom l = Some a \<and> take 8 a = ''defalias'') example_items = []"
  by (simp add: example_items_def first_atom_def)

lemma example_layer_name: "parse_layer_indexes vs (Suc 0) [DefsrcMapping [Atom ''deflayer'' (on_line 11 19), Atom ''base'' (on_line 20 24), Atom ''b'' (on_line 25 26)]] [] = Inr [(''base'', None)]"
  by (simp add: layer_name_def is_parentheses_def)

definition example_state :: parser_state where
  "example_state = initial_state example_outside cfg_default [] Map.empty [''base''] None"

lemma example_action: "parse_action (Suc (Suc 0)) example_state (Atom ''b'' (on_line 25 26)) = Inr (KeyCode 48)"
proof -
  have "str_to_oscode [] ''b'' = Some 48" "is_list_action ''b'' = False" "assoc_names atom_actions ''b'' = None"
    by code_simp+
  then show ?thesis
    by (simp add: atom_of_def sexpr_atom.simps parse_action_atom_def example_state_def initial_state_def
        TRANS_NAMES_def MOUSE_INPUT_NAMES_def)
qed

lemma example_definitions:
  "parse_definitions (Suc (Suc 0)) example_outside example_items
     (initial_state example_outside cfg_default [] Map.empty [''base''] None) = Inr (example_state, Map.empty)"
  by (simp add: parse_definitions_def at_most_one_def example_blocks example_aliases opt_res_def parse_chord_groups_def
      parse_fake_keys_def parse_virtual_keys_def parse_vkeys_named_def parse_sequences_def parse_aliases_def
      example_state_def initial_state_def)

text \<open>Where no action holds a chord, the layers are left as they are.\<close>

definition is_plain :: "kaction \<Rightarrow> bool" where
  "is_plain a \<longleftrightarrow> a = NoOp \<or> a = Trans \<or> (\<exists>k. a = KeyCode k)"

lemma fill_plain: "is_plain a \<Longrightarrow> fill_cell groups a = Inr a" "is_plain a \<Longrightarrow> find_chords_coords a = []"
  by (auto simp: is_plain_def fill_cell_def unwrap_or_simps)

lemma map_res_same: "(\<And>x. x \<in> set xs \<Longrightarrow> f x = Inr x) \<Longrightarrow> map_res f xs = Inr xs"
  by (induction xs) auto

lemma in_cells: "(c, a) \<in> set (cells layers) \<Longrightarrow> \<exists>layer\<in>set layers. \<exists>row\<in>set layer. a \<in> set row"
proof -
  assume "(c, a) \<in> set (cells layers)"
  then obtain layer i row j where "layer \<in> set layers" "(i, row) \<in> set (enumerate 0 layer)"
    "(j, a) \<in> set (enumerate 0 row)"
    by (auto simp: cells_def)
  then have "row \<in> set layer" "a \<in> set row" by (auto simp: in_set_enumerate_eq)
  with \<open>layer \<in> set layers\<close> show ?thesis by blast
qed

lemma resolve_plain:
  assumes "\<forall>layer\<in>set layers. \<forall>row\<in>set layer. \<forall>a\<in>set row. is_plain a" and "ps_chord_groups s = []"
  shows "resolve_chord_groups n s layers = Inr layers"
proof -
  have "find_chords_coords a = []" if "(c, a) \<in> set (cells layers)" for c a
  proof (rule fill_plain(2))
    from that obtain layer row where "layer \<in> set layers" "row \<in> set layer" "a \<in> set row"
      by (auto dest: in_cells)
    then show "is_plain a" using assms(1) by blast
  qed
  then have "fold_res (\<lambda>(c, a) groups. fold_res (add_coord c) (find_chords_coords a) groups) cs [] = Inr []"
    if "set cs \<subseteq> set (cells layers)" for cs
    using that by (induction cs) auto
  then have "collect_coords layers [] = Inr []" by (simp add: collect_coords_def)
  moreover have "map_res (map_res (map_res (fill_cell []))) layers = Inr layers"
    using assms(1) by (intro map_res_same) (auto intro: fill_plain(1))
  ultimately show ?thesis using assms(2) by (simp add: resolve_chord_groups_def)
qed

definition example_layers :: "kaction list list list" where
  "example_layers =
     [[(fill_unmapped (layer_options_of cfg_default) ((replicate KEYS_IN_ROW DEFAULT_ACTION)[30 := KeyCode 48]))[0 := NoOp],
       replicate KEYS_IN_ROW DEFAULT_ACTION]]"

lemma example_parse_layers:
  "parse_layers (Suc (Suc 0)) example_state [30] (layer_options_of cfg_default)
     [DefsrcMapping [Atom ''deflayer'' (on_line 11 19), Atom ''base'' (on_line 20 24), Atom ''b'' (on_line 25 26)]] mapped = Inr (example_layers, mapped)"
proof -
  have less: "30 < KEYS_IN_ROW" by (simp add: KEYS_IN_ROW_def)
  have "ps_virtual_keys example_state = []" by (simp add: example_state_def initial_state_def)
  then show ?thesis
    by (simp add: parse_layers_def MAX_LAYERS_def parse_layer_def layer_row_def Let_def example_action put_def
        less virtual_row_def example_layers_def
        del: parse_action.simps)
qed

lemma example_layers_plain: "\<forall>layer\<in>set example_layers. \<forall>row\<in>set layer. \<forall>a\<in>set row. is_plain a"
proof -
  have r: "\<forall>a\<in>set ((replicate KEYS_IN_ROW DEFAULT_ACTION)[30 := KeyCode 48]). is_plain a"
    by (auto simp: is_plain_def DEFAULT_ACTION_def dest: set_update_subset_insert [THEN subsetD])
  then have "\<forall>a\<in>set (fill_unmapped opts ((replicate KEYS_IN_ROW DEFAULT_ACTION)[30 := KeyCode 48])). is_plain a" for opts
    by (auto simp: fill_unmapped_def is_plain_def)
  then show ?thesis
    by (auto simp: example_layers_def is_plain_def DEFAULT_ACTION_def dest: set_update_subset_insert [THEN subsetD])
qed

lemma example_accepted: "\<exists>ic. parse_cfg_exprs (Suc (Suc 0)) example_outside f example_items = Inr ic \<and> ic_layers ic = example_layers
  \<and> length (ic_layer_info ic) = 1"
proof -
  have "resolve_chord_groups (Suc (Suc 0)) example_state example_layers = Inr example_layers"
    by (rule resolve_plain [OF example_layers_plain]) (simp add: example_state_def initial_state_def)
  moreover have "co_start_alias cfg_default = None" by (simp add: cfg_default_def)
  ultimately show ?thesis
    by (simp add: parse_cfg_exprs_def example_names parse_vars_def example_layer_name
        example_definitions start_action_def example_parse_layers parse_all_overrides_def parse_chords_v2_def
        at_most_one_def example_blocks opt_res_def Let_def del: parse_layer_indexes.simps)
qed

section \<open>Actions\<close>

text \<open>C12: Every action that the parser accepts, with all actions within it, is well formed: the layers and
  virtual keys it names exist, the times and distances that must not be zero are not zero, the tap action
  of a hold-tap is no hold-tap, a one-shot holds a key, an output chord or a layer, a \<open>multi\<close> holds no
  \<open>multi\<close>, at most one action that waits and at most one mouse button, and a macro releases every key that it presses.\<close>

theorem accepted_actions:
  assumes "parser_ok L V s" and "parse_action n s e = Inr a"
  shows "every (well_formed L V) a"
  using reads_okD [OF reads_parse_action assms] by (simp add: action_ok_def)

definition example_hold_tap :: sexpr where
  "example_hold_tap =
     SList [Atom ''layer-while-held'' span_default, Atom ''base'' span_default] span_default"

lemma assoc_names_skip: "name \<notin> set ns \<Longrightarrow> assoc_names ((ns, x) # xs) name = assoc_names xs name"
  by (simp add: assoc_names_def)

lemma assoc_names_found: "name \<in> set ns \<Longrightarrow> assoc_names ((ns, x) # xs) name = Some x"
  by (simp add: assoc_names_def)

lemma example_parsed: "parse_action (Suc (Suc 0)) example_state example_hold_tap = Inr (Layer 0)"
proof -
  have "assoc_names (list_actions (Suc 0) pa s) ''layer-while-held'' = Some (parse_layer_toggle s)" for pa s
    unfolding list_actions_def
    by (subst assoc_names_skip, simp add: LAYER_SWITCH_def)
      (subst assoc_names_found, simp_all add: LAYER_TOGGLE_def LAYER_WHILE_HELD_def)
  moreover have "is_list_action ''layer-while-held''" by code_simp
  ultimately show ?thesis
    by (simp add: example_hold_tap_def parse_action_list_def parse_layer_toggle_def layer_idx_def need_atom_def
        example_state_def initial_state_def key_position_def)
qed

lemma example_state_ok: "parser_ok 1 0 example_state"
  unfolding example_state_def by (rule initial_state_ok [OF cfg_ok_default]) simp_all

theorem accepted_actions_witness: "\<exists>a. parse_action (Suc (Suc 0)) example_state example_hold_tap = Inr a \<and> every (well_formed 1 0) a"
  using accepted_actions [OF example_state_ok example_parsed] example_parsed by blast

section \<open>Configurations\<close>

text \<open>C13: An accepted configuration has at least one layer, as many layers as names, all names different, and not
  more layers and virtual keys than there is room for. Every layer is a row of keys, with no action at
  coordinate 0, and a row of virtual keys, both of full length; every action on them, the start action, and those of the
  chords of the second version are well formed with respect to the layers and virtual keys of the
  configuration. A chord of the second version is found at each of its keys, of which there are two or more, in
  order; its timeout is not zero, and it is only accepted with concurrent hold-taps.\<close>

theorem accepted_configuration:
  assumes "parse_cfg_exprs n ou file exprs = Inr ic"
  shows "config_ok ic"
  using parse_cfg_exprs_ok [OF assms] .

theorem accepted_configuration_witness:
  "\<exists>ic. parse_cfg_exprs (Suc (Suc 0)) example_outside (\<lambda>_. None) example_items = Inr ic \<and> config_ok ic"
  using example_accepted accepted_configuration by blast

lemma layout_wf_configured:
  assumes "layout_wf l" and "pred_option chords_wf ch" and "length aq \<le> ACTION_QUEUE_LEN"
  shows "layout_wf (l\<lparr>l_chords_v2 := ch, l_quick_tap_hold := q, l_prior_idle := p,
    l_oneshot := (l_oneshot l)\<lparr>osh_pause_delay := d\<rparr>, l_action_queue := aq\<rparr>)"
proof -
  have "one_shot_wf ((l_oneshot l)\<lparr>osh_pause_delay := d\<rparr>) = one_shot_wf (l_oneshot l)"
    by (simp add: one_shot_wf_def)
  then show ?thesis using assms unfolding layout_wf_def by (simp del: wf_update)
qed


lemma example_read:
  "parsed_text example_text = Inr (zip example_items [on_line 0 10, on_line 10 27])"
  "expand_includes (ou_files example_outside) (zip example_items [on_line 0 10, on_line 10 27]) l
     = Inr (zip example_items [on_line 0 10, on_line 10 27], l)"
  "concat_map_res filter_platform (zip example_items [on_line 0 10, on_line 10 27])
     = Inr (zip example_items [on_line 0 10, on_line 10 27])"
  "concat_map_res (filter_env (ou_env example_outside)) (zip example_items [on_line 0 10, on_line 10 27])
     = Inr (zip example_items [on_line 0 10, on_line 10 27])"
  "expand_templates (Suc (Suc 0)) (zip example_items [on_line 0 10, on_line 10 27])
     = Inr (zip example_items [on_line 0 10, on_line 10 27])"
  "items [''include''] example_items = []"
  "map fst (zip example_items [on_line 0 10, on_line 10 27]) = example_items"
  by code_simp+

lemma example_file: "\<exists>ic. parse_cfg_raw (Suc (Suc 0)) example_outside ''kanata.kbd'' = Inr ic \<and> length (ic_layer_info ic) = 1"
proof -
  have "get_file_content (ou_files example_outside) ''kanata.kbd'' [] = Inr (example_text, [''kanata.kbd''])"
    by (simp add: get_file_content_def example_outside_def)
  then show ?thesis
    using example_accepted by (auto simp: parse_cfg_raw_def parse_cfg_raw_string_def example_read)
qed


end
