(* ===== verification/ChordGroupFacts.thy ===== *)
theory ChordGroupFacts
  imports ConfigFacts
begin

text \<open>
  What the resolution of chord groups does (\<open>resolve_chord_groups\<close> in \<open>parser/src/cfg/chord_v1.rs\<close>), and the
  places where it does not look.
\<close>

lemma map_res_in: "map_res f xs = Inr ys \<Longrightarrow> y \<in> set ys \<Longrightarrow> \<exists>x. f x = Inr y"
  by (induction xs arbitrary: ys) (auto simp: and_then_Inr_iff)

lemma resolved_cell:
  assumes "map_res (map_res (map_res (fill_cell groups))) layers = Inr layers'"
    and "layer \<in> set layers'" and "row \<in> set layer" and "a \<in> set row"
  shows "set (chords_in a) \<subseteq> set groups"
proof -
  obtain layer0 where layer0: "map_res (map_res (fill_cell groups)) layer0 = Inr layer"
    using map_res_in [OF assms(1,2)] by blast
  obtain row0 where row0: "map_res (fill_cell groups) row0 = Inr row" using map_res_in [OF layer0 assms(3)] by blast
  obtain a0 where "fill_cell groups a0 = Inr a" using map_res_in [OF row0 assms(4)] by blast
  then show ?thesis by (intro filled_resolved) (simp add: filled_def)
qed


text \<open>An example: the group \<open>g\<close> with one chord of one key, which is on the only cell of the only layer\<close>

definition example_parser :: parser_state where
  "example_parser =
     \<lparr>ps_vars = Map.empty, ps_aliases = Map.empty, ps_layer_idxs = Map.empty, ps_virtual_keys = [],
      ps_chord_groups = [(''g'', \<lparr>cgr_id = 0, cgr_name = ''g'', cgr_keys = [''x''], cgr_coords = [],
         cgr_chords = [(1, SList [] span_default)], cgr_timeout = 100\<rparr>)],
      ps_is_cmd_enabled = False, ps_default_sequence_timeout = 1000, ps_default_sequence_input_mode = HiddenSuppressed,
      ps_multi_nest = 0, ps_input_devices = None, ps_trans_forbidden = False, ps_hand_map = None,
      ps_osc = Map.empty, ps_cmd_feature = False, ps_to_uppercase = id, ps_parse_f32 = Map.empty,
      ps_exit_code = (\<lambda>_. 0)\<rparr>"

definition example_chord :: kaction where
  "example_chord = Chords (ChordsGroup [((0, 0), 1)] [] 0)"

lemma example_resolution:
  "resolve_chord_groups (Suc 0) example_parser [[[example_chord]]]
     = Inr [[[Chords (ChordsGroup [((0, 0), 1)] [(1, NoOp)] 100)]]]"
  by (simp add: resolve_chord_groups_def example_parser_def example_chord_def collect_coords_def cells_def
      add_coord_def build_group_def parse_action_list_def fill_cell_def unwrap_or_def)


section \<open>Where no chord is resolved\<close>

text \<open>The timeout action of a hold-tap stays as it was parsed. For \<open>tap-hold\<close> it is the hold action: a chord there
  is resolved for a hold that is decided early, but not for a hold by timeout.\<close>

lemma timeout_action_not_filled:
  assumes "fill_cell groups (HoldTap h) = Inr b"
  shows "\<exists>h'. b = HoldTap h' \<and> hta_timeout_action h' = hta_timeout_action h"
proof -
  from assms have "filled groups (HoldTap h) b" by (simp add: filled_def)
  then show ?thesis by (cases rule: filled_cases) auto
qed

lemma timeout_action_not_found:
  "find_chords_coords (HoldTap (HoldTapAction t NoOp NoOp (Chords g) config i r p)) = []"
  by simp

lemma tap_hold_timeout_unresolved:
  "resolve_chord_groups (Suc 0) example_parser
     [[[HoldTap (HoldTapAction 200 example_chord NoOp example_chord HtDefault 200 None None)]]]
   = Inr [[[HoldTap (HoldTapAction 200 (Chords (ChordsGroup [((0, 0), 1)] [(1, NoOp)] 100)) NoOp example_chord
       HtDefault 200 None None)]]]"
  by (simp add: resolve_chord_groups_def example_parser_def example_chord_def collect_coords_def cells_def
      add_coord_def build_group_def parse_action_list_def fill_cell_def unwrap_or_def)

text \<open>The key 767 has a number that \<open>deflocalkeys\<close> accepts, but a row ends before it.\<close>

lemma key_767_panics:
  assumes "parse_action n s e = Inr a"
  shows "from_u16 767 = Some 767"
    "place_actions n s [767] [e] (replicate KEYS_IN_ROW DEFAULT_ACTION) = Inl ParserPanic"
  using assms by (simp_all add: from_u16_def put_def KEYS_IN_ROW_def)

text \<open>A delay without a number is an index out of range.\<close>

lemma delay_without_number_panics: "parse_delay d s [] = Inl ParserPanic"
  by (simp add: parse_delay_def)

end
